(* ===== verification/Prelude.thy ===== *)
theory Prelude
imports Main "HOL-Library.Char_ord" "HOL-Library.List_Lexorder" "HOL-Library.Product_Lexorder"
begin

text \<open>
  Shared vocabulary of the development: the result type of the keeper
  operations and its sequencing, Go's fixed-width integers read as mathematical
  integers with their wrap-around, block times and durations, and a few generic
  list facts.  A handler that returns an error (or panics) is an \<open>Inl\<close>; the
  transaction is rolled back by the SDK, so no state accompanies an \<open>Inl\<close>.
\<close>

named_theorems result_simps \<open>case analysis of sequenced operations\<close>
named_theorems go_int \<open>reading fixed-width integers whose value is in range\<close>

section \<open>Results\<close>

definition bindE :: "'e + 'a \<Rightarrow> ('a \<Rightarrow> 'e + 'b) \<Rightarrow> 'e + 'b" where
  "bindE m f = (case m of Inl e \<Rightarrow> Inl e | Inr a \<Rightarrow> f a)"

definition requireE :: "bool \<Rightarrow> 'e \<Rightarrow> 'e + unit" where
  "requireE c e = (if c then Inr () else Inl e)"

definition optE :: "'e \<Rightarrow> 'a option \<Rightarrow> 'e + 'a" where
  "optE e x = (case x of None \<Rightarrow> Inl e | Some a \<Rightarrow> Inr a)"

definition liftE :: "('e \<Rightarrow> 'f) \<Rightarrow> 'e + 'a \<Rightarrow> 'f + 'a" where
  "liftE g m = (case m of Inl e \<Rightarrow> Inl (g e) | Inr a \<Rightarrow> Inr a)"

definition is_ok :: "'e + 'a \<Rightarrow> bool" where
  "is_ok m = (case m of Inl _ \<Rightarrow> False | Inr _ \<Rightarrow> True)"

text \<open>Running a fallible step over a list, stopping at the first error, as a Go
  \<open>for\<close> loop with an early return does.\<close>

fun foldE :: "('a \<Rightarrow> 's \<Rightarrow> 'e + 's) \<Rightarrow> 'a list \<Rightarrow> 's \<Rightarrow> 'e + 's" where
  "foldE f [] s = Inr s"
| "foldE f (x # xs) s = bindE (f x s) (foldE f xs)"

lemma bindE_Inl [simp]: "bindE (Inl e) f = Inl e"
  by (simp add: bindE_def)

lemma bindE_Inr [simp]: "bindE (Inr a) f = f a"
  by (simp add: bindE_def)

lemma bindE_ok_iff [result_simps]: "bindE m f = Inr y \<longleftrightarrow> (\<exists>x. m = Inr x \<and> f x = Inr y)"
  by (cases m) auto

lemma bindE_unit_ok_iff: "bindE (m :: 'e + unit) (\<lambda>_. k) = Inr y \<longleftrightarrow> m = Inr () \<and> k = Inr y"
  by (cases m) auto

lemma if_guard_ok_iff: "(if a then Inr x else if b then Inl e else Inr y) = Inr z \<longleftrightarrow>
    a \<and> z = x \<or> \<not> a \<and> \<not> b \<and> z = y"
  by auto

lemma bindE_err_iff: "bindE m f = Inl e \<longleftrightarrow> m = Inl e \<or> (\<exists>x. m = Inr x \<and> f x = Inl e)"
  by (cases m) auto

lemma bindE_okE:
  assumes "bindE m f = Inr y"
  obtains x where "m = Inr x" "f x = Inr y"
  using assms by (cases m) auto

lemma bindE_assoc: "bindE (bindE m f) g = bindE m (\<lambda>x. bindE (f x) g)"
  by (cases m) auto

lemma bindE_cong [fundef_cong]:
  "m = m' \<Longrightarrow> (\<And>x. m' = Inr x \<Longrightarrow> f x = g x) \<Longrightarrow> bindE m f = bindE m' g"
  by (cases m') auto

lemma requireE_ok_iff [result_simps]: "requireE c e = Inr u \<longleftrightarrow> c"
  by (simp add: requireE_def)

lemma requireE_True [simp]: "requireE True e = Inr ()"
  by (simp add: requireE_def)

lemma requireE_False [simp]: "requireE False e = Inl e"
  by (simp add: requireE_def)

lemma optE_None [simp]: "optE e None = Inl e"
  by (simp add: optE_def)

lemma optE_Some [simp]: "optE e (Some a) = Inr a"
  by (simp add: optE_def)

lemma optE_ok_iff [result_simps]: "optE e x = Inr a \<longleftrightarrow> x = Some a"
  by (cases x) auto

lemma liftE_Inl [simp]: "liftE g (Inl e) = Inl (g e)"
  by (simp add: liftE_def)

lemma liftE_Inr [simp]: "liftE g (Inr a) = Inr a"
  by (simp add: liftE_def)

lemma liftE_ok_iff [result_simps]: "liftE g m = Inr a \<longleftrightarrow> m = Inr a"
  by (cases m) auto

lemma is_ok_Inl [simp]: "\<not> is_ok (Inl e)"
  by (simp add: is_ok_def)

lemma is_ok_Inr [simp]: "is_ok (Inr a)"
  by (simp add: is_ok_def)

lemma is_ok_iff: "is_ok m \<longleftrightarrow> (\<exists>a. m = Inr a)"
  by (cases m) auto

lemma if_Inl_ok_iff [result_simps]: "(if c then Inl e else m) = Inr a \<longleftrightarrow> \<not> c \<and> m = Inr a"
  by simp

lemma foldE_invariant:
  assumes "foldE f xs s = Inr s'" and "P s"
    and "\<And>x t t'. x \<in> set xs \<Longrightarrow> P t \<Longrightarrow> f x t = Inr t' \<Longrightarrow> P t'"
  shows "P s'"
  using assms
proof (induction xs arbitrary: s)
  case (Cons x xs)
  from Cons.prems(1) obtain t where t: "f x s = Inr t" "foldE f xs t = Inr s'"
    by (auto simp: bindE_ok_iff)
  have "P t" using Cons.prems(2) t(1) by (rule Cons.prems(3) [rotated]) simp
  then show ?case
  proof (rule Cons.IH [OF t(2)])
    fix y u u' assume "y \<in> set xs" "P u" "f y u = Inr u'"
    then show "P u'" using Cons.prems(3) [of y u u'] by simp
  qed
qed simp

lemma foldE_append: "foldE f (xs @ ys) s = bindE (foldE f xs s) (foldE f ys)"
  by (induction xs arbitrary: s) (auto simp: bindE_def split: sum.split)

section \<open>Fixed-width integers\<close>

text \<open>Go's \<open>uint64(x)\<close>, \<open>int64(x)\<close> and \<open>uint32(x)\<close>, and the results of
  arithmetic at these types: two's complement, wrapping silently.\<close>

definition u64 :: "int \<Rightarrow> int" where
  "u64 x = x mod 2 ^ 64"

definition i64 :: "int \<Rightarrow> int" where
  "i64 x = (x + 2 ^ 63) mod 2 ^ 64 - 2 ^ 63"

definition i32 :: "int \<Rightarrow> int" where
  "i32 x = (x + 2 ^ 31) mod 2 ^ 32 - 2 ^ 31"

definition u32 :: "int \<Rightarrow> int" where
  "u32 x = x mod 2 ^ 32"

definition max_i64 :: int where
  "max_i64 = 2 ^ 63 - 1"

definition is_u64 :: "int \<Rightarrow> bool" where
  "is_u64 x \<longleftrightarrow> 0 \<le> x \<and> x < 2 ^ 64"

definition is_i64 :: "int \<Rightarrow> bool" where
  "is_i64 x \<longleftrightarrow> - (2 ^ 63) \<le> x \<and> x < 2 ^ 63"

lemma u64_id [go_int]: "0 \<le> x \<Longrightarrow> x < 2 ^ 64 \<Longrightarrow> u64 x = x"
  by (simp add: u64_def)

lemma i64_id [go_int]: "- (2 ^ 63) \<le> x \<Longrightarrow> x < 2 ^ 63 \<Longrightarrow> i64 x = x"
  by (simp add: i64_def)

lemma u32_id [go_int]: "0 \<le> x \<Longrightarrow> x < 2 ^ 32 \<Longrightarrow> u32 x = x"
  by (simp add: u32_def)

lemma u64_range [simp]: "0 \<le> u64 x" "u64 x < 18446744073709551616"
  by (simp_all add: u64_def)

lemma is_u64_u64 [simp]: "is_u64 (u64 x)"
  by (simp add: is_u64_def)

lemma is_i64_i64 [simp]: "is_i64 (i64 x)"
proof -
  have "0 \<le> (x + 2 ^ 63) mod 2 ^ 64" "(x + 2 ^ 63) mod 2 ^ 64 < (2 ^ 64 :: int)" by simp_all
  then show ?thesis by (simp add: is_i64_def i64_def)
qed

lemma u64_eq [go_int]: "is_u64 x \<Longrightarrow> u64 x = x"
  by (simp add: is_u64_def u64_id)

lemma i64_eq [go_int]: "is_i64 x \<Longrightarrow> i64 x = x"
  by (simp add: is_i64_def i64_id)

lemma i64_overflow:
  assumes "2 ^ 63 \<le> x" "x < 2 ^ 64"
  shows "i64 x = x - 2 ^ 64"
proof -
  have "(x + 2 ^ 63) mod 2 ^ 64 = ((x - 2 ^ 63) + 2 ^ 64) mod (2 ^ 64 :: int)"
    by (simp add: add.commute)
  also have "\<dots> = (x - 2 ^ 63) mod 2 ^ 64" by (rule mod_add_self2)
  also have "\<dots> = x - 2 ^ 63" using assms by (intro mod_pos_pos_trivial) simp_all
  finally show ?thesis by (simp add: i64_def)
qed

section \<open>Time\<close>

text \<open>Block times and durations are counted in nanoseconds, as \<open>time.Time\<close> and
  \<open>time.Duration\<close> compare them; block times are UTC, so that \<open>AddDate(0,0,d)\<close>
  adds \<open>d\<close> days of 86400 seconds.\<close>

type_synonym time = int
type_synonym duration = int

definition ns_per_day :: int where
  "ns_per_day = 86400 * 10 ^ 9"

definition add_days :: "time \<Rightarrow> int \<Rightarrow> time" where
  "add_days t d = t + d * ns_per_day"

text \<open>\<open>t.Sub(u)\<close> saturates at the range of \<open>int64\<close>.\<close>

definition time_sub :: "time \<Rightarrow> time \<Rightarrow> duration" where
  "time_sub t u = max (- (2 ^ 63)) (min max_i64 (t - u))"

text \<open>Go's zero \<open>time.Time\<close>, midnight of 1 January of year 1.\<close>

definition zero_time :: time where
  "zero_time = - 62135596800 * 10 ^ 9"

section \<open>Lists\<close>

lemma sum_list_remove_pair:
  fixes f :: "'a \<Rightarrow> int"
  assumes "x \<in> set xs" "distinct xs"
  shows "sum_list (map f xs) = f x + sum_list (map f (filter (\<lambda>y. y \<noteq> x) xs))"
  using assms
proof (induction xs)
  case (Cons a xs)
  have "filter (\<lambda>y. y \<noteq> x) xs = xs" if "x \<notin> set xs"
    using that by (auto simp: filter_id_conv)
  then show ?case using Cons by auto
qed simp

lemma map_of_distinct_iff:
  "distinct (map fst xs) \<Longrightarrow> map_of xs k = Some v \<longleftrightarrow> (k, v) \<in> set xs"
  by (simp add: map_of_eq_Some_iff)

text \<open>The first element that satisfies a test, changed in place: a Go loop over
  indices that assigns through \<open>xs[i]\<close> and breaks.\<close>

fun update_first :: "('a \<Rightarrow> bool) \<Rightarrow> ('a \<Rightarrow> 'a) \<Rightarrow> 'a list \<Rightarrow> 'a list" where
  "update_first P f [] = []"
| "update_first P f (x # xs) = (if P x then f x # xs else x # update_first P f xs)"

lemma map_update_first: "(\<And>x. g (f x) = g x) \<Longrightarrow> map g (update_first P f xs) = map g xs"
  by (induction xs) auto

lemma update_first_Nil_iff [simp]: "update_first P f xs = [] \<longleftrightarrow> xs = []"
  by (cases xs) auto

text \<open>A walk that appends the matching values and stops once the result holds
  \<open>n\<close> of them (the list queries' \<open>ResponseMaxSize\<close>).\<close>

fun collect_until :: "nat \<Rightarrow> ('a \<Rightarrow> bool) \<Rightarrow> 'a list \<Rightarrow> 'a list \<Rightarrow> 'a list" where
  "collect_until n P acc [] = acc"
| "collect_until n P acc (x # xs) =
     (if P x then (if n \<le> length (acc @ [x]) then acc @ [x] else collect_until n P (acc @ [x]) xs)
      else collect_until n P acc xs)"

lemma collect_until_take:
  "length acc < n \<Longrightarrow> collect_until n P acc xs = acc @ take (n - length acc) (filter P xs)"
proof (induction xs arbitrary: acc)
  case (Cons x xs)
  show ?case
  proof (cases "P x \<and> n \<le> Suc (length acc)")
    case True
    then have "n = Suc (length acc)" using Cons.prems by linarith
    then show ?thesis using True by simp
  next
    case False
    show ?thesis
    proof (cases "P x")
      case True
      then have lt: "length (acc @ [x]) < n" using False by simp
      then have "n - length acc = Suc (n - length (acc @ [x]))" by simp
      then show ?thesis using True Cons.IH [OF lt] lt by simp
    next
      case False
      then show ?thesis using Cons by simp
    qed
  qed
qed simp

text \<open>The response size of a list query: zero means 64, more than 1024 is refused.\<close>

definition query_limit :: "nat \<Rightarrow> nat option" where
  "query_limit n = (if n = 0 then Some 64 else if 1024 < n then None else Some n)"

lemma query_limit_pos: "query_limit n = Some k \<Longrightarrow> 0 < k \<and> k \<le> 1024"
  by (auto simp: query_limit_def split: if_splits)

text \<open>Appending the elements not yet seen, in order.\<close>

fun add_unseen :: "'a list \<Rightarrow> 'a list \<Rightarrow> 'a list" where
  "add_unseen [] acc = acc"
| "add_unseen (x # xs) acc = add_unseen xs (if x \<in> set acc then acc else acc @ [x])"

lemma set_add_unseen [simp]: "set (add_unseen xs acc) = set acc \<union> set xs"
  by (induction xs arbitrary: acc) auto

lemma distinct_add_unseen: "distinct acc \<Longrightarrow> distinct (add_unseen xs acc)"
  by (induction xs arbitrary: acc) auto

end
