(* ===== verification/Kv_Store.thy ===== *)
theory Kv_Store
imports Prelude
begin

text \<open>
  The key/value store the keepers keep their state in (\<open>collections.Map\<close> over
  the module's KVStore): a finite map whose \<open>Walk\<close> visits the keys in ascending
  order.  A store is a list of pairs with strictly ascending keys.  The laws the
  keepers rely on are the locale \<open>ordered_kv\<close>; the sorted lists interpret it.
\<close>

section \<open>Sorted association lists\<close>

fun ins_kv :: "'k::linorder \<Rightarrow> 'v \<Rightarrow> ('k \<times> 'v) list \<Rightarrow> ('k \<times> 'v) list" where
  "ins_kv k v [] = [(k, v)]"
| "ins_kv k v ((k', v') # xs) =
     (if k < k' then (k, v) # (k', v') # xs
      else if k = k' then (k, v) # xs
      else (k', v') # ins_kv k v xs)"

definition del_kv :: "'k \<Rightarrow> ('k \<times> 'v) list \<Rightarrow> ('k \<times> 'v) list" where
  "del_kv k xs = filter (\<lambda>p. fst p \<noteq> k) xs"

lemma ins_kv_keys: "fst ` set (ins_kv k v xs) = insert k (fst ` set xs)"
  by (induction k v xs rule: ins_kv.induct) auto

lemma ins_kv_sorted:
  "sorted_wrt (<) (map fst xs) \<Longrightarrow> sorted_wrt (<) (map fst (ins_kv k v xs))"
proof (induction xs)
  case (Cons p xs)
  obtain k' v' where p: "p = (k', v')" by (cases p)
  have sub: "set (map fst (ins_kv k v xs)) = insert k (fst ` set xs)"
    using ins_kv_keys [of k v xs] by simp
  show ?case
  proof (cases "k \<le> k'")
    case True
    then show ?thesis using Cons.prems p by (auto intro: order.strict_trans)
  next
    case False
    then have "k' < k" by simp
    have "k' < fst q" if "q \<in> set (ins_kv k v xs)" for q
    proof -
      have "fst q \<in> insert k (fst ` set xs)" using sub that by auto
      then show ?thesis using Cons.prems p \<open>k' < k\<close> by auto
    qed
    then show ?thesis using Cons p \<open>k' < k\<close> by auto
  qed
qed simp

lemma map_of_ins_kv: "map_of (ins_kv k v xs) = (map_of xs)(k \<mapsto> v)"
  by (induction xs) (auto simp: fun_eq_iff)

lemma sum_ins_kv:
  fixes f :: "'k::linorder \<times> 'v \<Rightarrow> int"
  assumes "sorted_wrt (<) (map fst xs)"
  shows "sum_list (map f (ins_kv k v xs)) =
         sum_list (map f xs) + f (k, v) - (case map_of xs k of None \<Rightarrow> 0 | Some w \<Rightarrow> f (k, w))"
  using assms
proof (induction xs)
  case (Cons p xs)
  obtain k' v' where p: "p = (k', v')" by (cases p)
  have "map_of xs k = None" if "k < k'"
    using Cons.prems p that by (force simp: map_of_eq_None_iff)
  then show ?case using Cons p by auto
qed simp

section \<open>Stores\<close>

typedef (overloaded) ('k::linorder, 'v) store =
  "{xs :: ('k \<times> 'v) list. sorted_wrt (<) (map fst xs)}"
  morphisms entries Store
  by (rule exI [of _ "[]"]) simp

setup_lifting type_definition_store

lift_definition kempty :: "('k::linorder, 'v) store" is "[]"
  by simp

lift_definition kget :: "('k::linorder, 'v) store \<Rightarrow> 'k \<Rightarrow> 'v option" is map_of .

lift_definition kset :: "('k::linorder, 'v) store \<Rightarrow> 'k \<Rightarrow> 'v \<Rightarrow> ('k, 'v) store"
  is "\<lambda>m k v. ins_kv k v m"
  by (rule ins_kv_sorted)

lift_definition kremove :: "('k::linorder, 'v) store \<Rightarrow> 'k \<Rightarrow> ('k, 'v) store"
  is "\<lambda>m k. del_kv k m"
  by (simp add: del_kv_def sorted_wrt_map sorted_wrt_filter)

definition khas :: "('k::linorder, 'v) store \<Rightarrow> 'k \<Rightarrow> bool" where
  "khas m k = (kget m k \<noteq> None)"

definition walk :: "('k::linorder, 'v) store \<Rightarrow> 'v list" where
  "walk m = map snd (entries m)"

definition keys :: "('k::linorder, 'v) store \<Rightarrow> 'k list" where
  "keys m = map fst (entries m)"

text \<open>\<open>Set\<close> in a loop over a list, as every \<open>InitGenesis\<close> does.\<close>

definition kset_all :: "('v \<Rightarrow> 'k::linorder) \<Rightarrow> 'v list \<Rightarrow> ('k, 'v) store \<Rightarrow> ('k, 'v) store" where
  "kset_all key vs m = foldl (\<lambda>m v. kset m (key v) v) m vs"

lemma entries_sorted: "sorted_wrt (<) (map fst (entries m))"
  using entries [of m] by simp

lemma entries_distinct: "distinct (map fst (entries m))"
  using entries_sorted [of m] by (simp add: strict_sorted_iff)

lemma entries_kempty [simp]: "entries kempty = []"
  by (rule kempty.rep_eq)

lemma entries_kset [simp]: "entries (kset m k v) = ins_kv k v (entries m)"
  by (rule kset.rep_eq)

lemma entries_kremove [simp]: "entries (kremove m k) = del_kv k (entries m)"
  by (rule kremove.rep_eq)

lemma entries_mem_iff: "(k, v) \<in> set (entries m) \<longleftrightarrow> kget m k = Some v"
  by (simp add: kget.rep_eq entries_distinct)

lemma kget_kempty [simp]: "kget kempty k = None"
  by transfer simp

lemma kget_kset: "kget (kset m k v) k' = (if k' = k then Some v else kget m k')"
  by transfer (simp add: map_of_ins_kv)

lemma kget_kset_same [simp]: "kget (kset m k v) k = Some v"
  by (simp add: kget_kset)

lemma kget_kset_other [simp]: "k' \<noteq> k \<Longrightarrow> kget (kset m k v) k' = kget m k'"
  by (simp add: kget_kset)

lemma map_of_del_kv: "map_of (del_kv k xs) k' = (if k' = k then None else map_of xs k')"
  by (induction xs) (auto simp: del_kv_def)

lemma kget_kremove: "kget (kremove m k) k' = (if k' = k then None else kget m k')"
  by transfer (rule map_of_del_kv)

lemma kget_kremove_same [simp]: "kget (kremove m k) k = None"
  by (simp add: kget_kremove)

lemma kget_kremove_other [simp]: "k' \<noteq> k \<Longrightarrow> kget (kremove m k) k' = kget m k'"
  by (simp add: kget_kremove)

lemma khas_kset [simp]: "khas (kset m k v) k' \<longleftrightarrow> k' = k \<or> khas m k'"
  by (simp add: khas_def kget_kset)

lemma khas_kempty [simp]: "\<not> khas kempty k"
  by (simp add: khas_def)

lemma khas_kremove [simp]: "khas (kremove m k) k' \<longleftrightarrow> k' \<noteq> k \<and> khas m k'"
  by (simp add: khas_def kget_kremove)

lemma walk_mem_iff: "v \<in> set (walk m) \<longleftrightarrow> (\<exists>k. kget m k = Some v)"
  by (force simp: walk_def entries_mem_iff [symmetric])

lemma keys_mem_iff: "k \<in> set (keys m) \<longleftrightarrow> khas m k"
  by (force simp: keys_def khas_def entries_mem_iff [symmetric] kget.rep_eq map_of_eq_None_iff)

lemma distinct_keys [simp]: "distinct (keys m)"
  by (simp add: keys_def entries_distinct)

lemma store_eqI:
  assumes "\<And>k. kget m k = kget n k"
  shows "m = n"
proof -
  have "set (entries m) = set (entries n)"
    using assms by (auto simp: entries_mem_iff)
  moreover have "entries m = entries n"
    if "set (entries m) = set (entries n)"
  proof -
    have ks: "map fst (entries m) = map fst (entries n)"
      using that entries_sorted [of m] entries_sorted [of n]
      by (simp add: strict_sorted_iff sorted_distinct_set_unique)
    have "zip (map fst (entries m)) (map snd (entries m)) = zip (map fst (entries n)) (map snd (entries n))"
    proof (rule nth_equalityI)
      show "length (zip (map fst (entries m)) (map snd (entries m))) =
            length (zip (map fst (entries n)) (map snd (entries n)))"
        using ks by (metis length_map length_zip)
    next
      fix i assume "i < length (zip (map fst (entries m)) (map snd (entries m)))"
      then have i: "i < length (entries m)" "i < length (entries n)"
        using ks by (auto dest: arg_cong [where f = length])
      have f: "fst (entries m ! i) = fst (entries n ! i)"
        using ks i by (metis nth_map)
      have "kget m (fst (entries m ! i)) = Some (snd (entries m ! i))"
        using i by (simp add: entries_mem_iff [symmetric])
      moreover have "kget n (fst (entries n ! i)) = Some (snd (entries n ! i))"
        using i by (simp add: entries_mem_iff [symmetric])
      ultimately have "snd (entries m ! i) = snd (entries n ! i)"
        using assms f by (metis option.inject)
      then show "zip (map fst (entries m)) (map snd (entries m)) ! i =
            zip (map fst (entries n)) (map snd (entries n)) ! i"
        using f i by simp
    qed
    then show ?thesis by (simp add: zip_map_fst_snd)
  qed
  ultimately show ?thesis by (simp add: entries_inject)
qed

instantiation store :: (linorder, equal) equal
begin

definition equal_store_def: "HOL.equal m n = (entries m = entries n)"

instance
  by standard (simp add: equal_store_def entries_inject)

end

instantiation store :: (linorder, type) size
begin

definition size_store_def: "size m = length (entries m)"

instance ..

end

section \<open>Totals\<close>

text \<open>The sum of a value's component over all entries, as a \<open>Walk\<close> with an
  accumulator computes it.\<close>

definition ksum :: "('v \<Rightarrow> int) \<Rightarrow> ('k::linorder, 'v) store \<Rightarrow> int" where
  "ksum f m = sum_list (map f (walk m))"

lemma ksum_kempty [simp]: "ksum f kempty = 0"
  by (simp add: ksum_def walk_def)

lemma ksum_kset:
  "ksum f (kset m k v) = ksum f m + f v - (case kget m k of None \<Rightarrow> 0 | Some w \<Rightarrow> f w)"
  using sum_ins_kv [OF entries_sorted, of "\<lambda>p. f (snd p)" k v m]
  by (simp add: ksum_def walk_def comp_def kget.rep_eq split: option.split)

lemma ksum_kset_new: "kget m k = None \<Longrightarrow> ksum f (kset m k v) = ksum f m + f v"
  by (simp add: ksum_kset)

lemma ksum_kset_upd: "kget m k = Some w \<Longrightarrow> ksum f (kset m k v) = ksum f m + f v - f w"
  by (simp add: ksum_kset)

lemma ksum_nonneg:
  assumes "\<And>k v. kget m k = Some v \<Longrightarrow> 0 \<le> f v"
  shows "0 \<le> ksum f m"
  unfolding ksum_def using assms
  by (auto intro!: sum_list_nonneg simp: walk_mem_iff)

lemma ksum_ge_member:
  assumes "kget m k = Some v" and "\<And>k v. kget m k = Some v \<Longrightarrow> 0 \<le> f v"
  shows "f v \<le> ksum f m"
proof -
  have "v \<in> set (walk m)" using assms(1) by (auto simp: walk_mem_iff)
  then show ?thesis unfolding ksum_def
    using assms(2) by (intro member_le_sum_list [of "f v" "map f (walk m)", simplified])
      (auto simp: walk_mem_iff)
qed

section \<open>Loading a store from a list\<close>

lemma kset_all_Nil [simp]: "kset_all key [] m = m"
  by (simp add: kset_all_def)

lemma kset_all_Cons [simp]: "kset_all key (v # vs) m = kset_all key vs (kset m (key v) v)"
  by (simp add: kset_all_def)

lemma kget_kset_all_notin: "k \<notin> key ` set vs \<Longrightarrow> kget (kset_all key vs m) k = kget m k"
  by (induction vs arbitrary: m) (auto simp: kget_kset)

lemma kget_kset_all_in:
  assumes "v \<in> set vs" "distinct (map key vs)"
  shows "kget (kset_all key vs m) (key v) = Some v"
  using assms
proof (induction vs arbitrary: m)
  case (Cons w vs)
  show ?case
  proof (cases "v = w")
    case True
    then have "key v \<notin> key ` set vs" using Cons.prems by auto
    then show ?thesis using True by (simp add: kget_kset_all_notin)
  next
    case False
    then show ?thesis using Cons by auto
  qed
qed simp

text \<open>Reloading what a walk returns restores the store, when every value is
  stored under its own key.\<close>

lemma walk_keyed:
  assumes "\<And>k v. kget m k = Some v \<Longrightarrow> key v = k"
  shows "map key (walk m) = keys m"
  unfolding walk_def keys_def by (auto simp: entries_mem_iff assms)

lemma sort_key_walk:
  assumes "\<And>k v. kget m k = Some v \<Longrightarrow> key v = k"
  shows "sort_key key (walk m) = walk m"
  by (rule sort_key_id_if_sorted)
    (use entries_sorted [of m] walk_keyed [of m key, OF assms] in \<open>simp add: keys_def strict_sorted_imp_sorted\<close>)

lemma kset_all_walk:
  assumes own: "\<And>k v. kget m k = Some v \<Longrightarrow> key v = k"
  shows "kset_all key (walk m) kempty = m"
proof (rule store_eqI)
  fix k
  have keyed: "map key (walk m) = keys m" by (rule walk_keyed) (rule own)
  show "kget (kset_all key (walk m) kempty) k = kget m k"
  proof (cases "kget m k")
    case None
    then have "k \<notin> key ` set (walk m)" using own by (force simp: walk_mem_iff)
    then show ?thesis by (simp add: kget_kset_all_notin None)
  next
    case (Some v)
    then have "v \<in> set (walk m)" by (auto simp: walk_mem_iff)
    moreover have "distinct (map key (walk m))" using keyed by simp
    ultimately have "kget (kset_all key (walk m) kempty) (key v) = Some v"
      by (rule kget_kset_all_in)
    then show ?thesis using Some own by simp
  qed
qed

section \<open>Rebuilding from lists\<close>

definition maximum_id :: "('a \<Rightarrow> nat) \<Rightarrow> 'a list \<Rightarrow> nat" where
  "maximum_id f xs = foldl (\<lambda>m x. if m < f x then f x else m) 0 xs"

text \<open>\<open>Set\<close> of an index entry for every element of a list.\<close>

definition kset_index :: "('a \<Rightarrow> 'k::linorder) \<Rightarrow> ('a \<Rightarrow> 'v) \<Rightarrow> 'a list \<Rightarrow> ('k, 'v) store \<Rightarrow> ('k, 'v) store" where
  "kset_index key val xs m = foldl (\<lambda>m x. kset m (key x) (val x)) m xs"

lemma maximum_id_Max: "maximum_id f xs = Max (insert 0 (f ` set xs))"
proof -
  have "(\<lambda>m x. if m < f x then f x else m) = (\<lambda>m x. max m (f x))"
    by (auto simp: fun_eq_iff max_def)
  moreover have "foldl (\<lambda>m x. max m (f x)) m ys = Max (insert m (f ` set ys))" for m ys
  proof (induction ys arbitrary: m)
    case (Cons y ys)
    have "Max (insert (max m (f y)) (f ` set ys)) = Max (insert m (insert (f y) (f ` set ys)))"
    proof (cases "set ys = {}")
      case False
      then show ?thesis by (simp only: Max_insert finite_imageI finite_set finite_insert
          image_is_empty insert_not_empty max.assoc not_False_eq_True)
    qed simp
    then show ?case using Cons by simp
  qed simp
  ultimately show ?thesis by (simp add: maximum_id_def)
qed

lemma maximum_id_ge: "x \<in> set xs \<Longrightarrow> f x \<le> maximum_id f xs"
  by (simp add: maximum_id_Max)

lemma maximum_id_in: "maximum_id f xs = 0 \<or> maximum_id f xs \<in> f ` set xs"
  using Max_in [of "insert 0 (f ` set xs)"] by (simp add: maximum_id_Max)

lemma kset_index_Nil [simp]: "kset_index key val [] m = m"
  by (simp add: kset_index_def)

lemma kset_index_Cons [simp]:
  "kset_index key val (x # xs) m = kset_index key val xs (kset m (key x) (val x))"
  by (simp add: kset_index_def)

lemma kget_kset_index_notin: "k \<notin> key ` set xs \<Longrightarrow> kget (kset_index key val xs m) k = kget m k"
  by (induction xs arbitrary: m) (auto simp: kget_kset)

lemma kget_kset_index_in:
  "k \<in> key ` set xs \<Longrightarrow> (\<forall>y \<in> set xs. key y = k \<longrightarrow> val y = v) \<Longrightarrow>
     kget (kset_index key val xs m) k = Some v"
proof (induction xs arbitrary: m)
  case (Cons y ys)
  show ?case
  proof (cases "k \<in> key ` set ys")
    case True
    then show ?thesis using Cons.IH Cons.prems(2) by simp
  next
    case False
    then have "key y = k" using Cons.prems(1) by auto
    then show ?thesis using False Cons.prems(2) by (simp add: kget_kset_index_notin)
  qed
qed simp

text \<open>An index rebuilt from the walk of its table is the index, whenever the index
  describes exactly that table.\<close>

lemma kset_index_rebuild:
  assumes "\<And>k i. kget idx k = Some i \<longleftrightarrow> (\<exists>x. x \<in> set xs \<and> key x = k \<and> val x = i)"
  shows "kset_index key val xs kempty = idx"
proof (rule store_eqI)
  fix k
  show "kget (kset_index key val xs kempty) k = kget idx k"
  proof (cases "k \<in> key ` set xs")
    case True
    then obtain x where x: "x \<in> set xs" "key x = k" by blast
    have idx: "kget idx k = Some (val x)" using assms x by blast
    have "\<forall>y \<in> set xs. key y = k \<longrightarrow> val y = val x"
    proof (intro ballI impI)
      fix y assume "y \<in> set xs" "key y = k"
      then have "kget idx k = Some (val y)" using assms by blast
      then show "val y = val x" using idx by simp
    qed
    then have "kget (kset_index key val xs kempty) k = Some (val x)"
      using x by (intro kget_kset_index_in) blast+
    then show ?thesis using idx by simp
  next
    case False
    then have "kget idx k = None" using assms [of k] by (cases "kget idx k") blast+
    then show ?thesis using False by (simp add: kget_kset_index_notin)
  qed
qed

lemma kset_same: "kget m k = Some v \<Longrightarrow> kset m k v = m"
  by (rule store_eqI) (simp add: kget_kset)

lemma kset_kset_same: "kset (kset m k v) k w = kset m k w"
  by (rule store_eqI) (simp add: kget_kset)

section \<open>Prefix iteration\<close>

text \<open>\<open>Iterate\<close> over \<open>NewPrefixedPairRange\<close>: the entries whose first key component is
  given, in ascending order of the second.\<close>

definition prefixed :: "('a::linorder \<times> 'b::linorder, 'v) store \<Rightarrow> 'a \<Rightarrow> (('a \<times> 'b) \<times> 'v) list" where
  "prefixed m a = filter (\<lambda>e. fst (fst e) = a) (entries m)"

lemma prefixed_mem_iff: "((a', b), v) \<in> set (prefixed m a) \<longleftrightarrow> a' = a \<and> kget m (a, b) = Some v"
  by (auto simp: prefixed_def entries_mem_iff)

lemma prefixed_sorted:
  fixes m :: "('a::linorder \<times> 'b::linorder, 'v) store"
  shows "sorted_wrt (<) (map (\<lambda>e. snd (fst e)) (prefixed m a))"
proof -
  have less: "snd (fst x) < snd (fst y)"
    if "fst x < fst y" "fst (fst x) = a" "fst (fst y) = a" for x y :: "('a \<times> 'b) \<times> 'v" and a
    using that by (cases x; cases y) (auto simp: less_prod_def)
  have "sorted_wrt (\<lambda>x y. snd (fst x) < snd (fst y)) (filter (\<lambda>e. fst (fst e) = a) es)"
    if "sorted_wrt (\<lambda>x y. fst x < fst y) es" for a and es :: "(('a \<times> 'b) \<times> 'v) list"
    using that by (induction es) (auto intro: less)
  then show ?thesis using entries_sorted [of m] by (simp add: prefixed_def sorted_wrt_map)
qed

section \<open>The interface of a keeper's store\<close>

locale ordered_kv =
  fixes empty :: 'm
    and get :: "'m \<Rightarrow> 'k::linorder \<Rightarrow> 'v option"
    and put :: "'m \<Rightarrow> 'k \<Rightarrow> 'v \<Rightarrow> 'm"
    and del :: "'m \<Rightarrow> 'k \<Rightarrow> 'm"
    and pairs :: "'m \<Rightarrow> ('k \<times> 'v) list"
  assumes get_empty: "get empty k = None"
    and get_put: "get (put m k v) k' = (if k' = k then Some v else get m k')"
    and get_del: "get (del m k) k' = (if k' = k then None else get m k')"
    and pairs_get: "(k, v) \<in> set (pairs m) \<longleftrightarrow> get m k = Some v"
    and pairs_ascending: "sorted_wrt (<) (map fst (pairs m))"
begin

lemma pairs_empty: "pairs empty = []"
  using pairs_get [of _ _ empty] get_empty by (cases "pairs empty") force+

lemma put_put: "get (put (put m k v) k w) = get (put m k w)"
  by (rule ext) (simp add: get_put)

lemma put_commute: "k \<noteq> k' \<Longrightarrow> get (put (put m k v) k' w) = get (put (put m k' w) k v)"
  by (rule ext) (simp add: get_put)

lemma del_put: "get m k = None \<Longrightarrow> get (del (put m k v) k) = get m"
  by (rule ext) (simp add: get_put get_del)

lemma pairs_determined:
  assumes "get m = get n"
  shows "set (pairs m) = set (pairs n)"
  using assms by (auto simp: pairs_get)

lemma finite_keys: "finite {k. get m k \<noteq> None}"
proof -
  have "{k. get m k \<noteq> None} \<subseteq> fst ` set (pairs m)"
    by (force simp: pairs_get [symmetric])
  then show ?thesis by (rule finite_subset) simp
qed

end

interpretation kv: ordered_kv kempty kget kset kremove entries
  by unfold_locales (auto simp: kget_kset kget_kremove entries_mem_iff entries_sorted)

text \<open>A table with a unique secondary index, kept next to it by the keeper: the
  index maps the index key of every record to the record's primary key, and
  nothing else.\<close>

locale unique_index =
  tab: ordered_kv mempty mget mput mdel mpairs +
  idx: ordered_kv iempty iget iput idel ipairs
  for mempty :: 'm and mget :: "'m \<Rightarrow> 'k::linorder \<Rightarrow> 'v option" and mput mdel mpairs
    and iempty :: 'i and iget :: "'i \<Rightarrow> 'j::linorder \<Rightarrow> 'k option" and iput idel ipairs +
  fixes key :: "'v \<Rightarrow> 'j"
begin

definition index_ok :: "'m \<Rightarrow> 'i \<Rightarrow> bool" where
  "index_ok m i \<longleftrightarrow> (\<forall>j k. iget i j = Some k \<longleftrightarrow> (\<exists>v. mget m k = Some v \<and> key v = j))"

lemma index_ok_empty: "index_ok mempty iempty"
  by (simp add: index_ok_def tab.get_empty idx.get_empty)

lemma index_lookup: "index_ok m i \<Longrightarrow> mget m k = Some v \<Longrightarrow> iget i (key v) = Some k"
  by (auto simp: index_ok_def)

lemma index_sound:
  assumes "index_ok m i" "iget i j = Some k"
  obtains v where "mget m k = Some v" "key v = j"
  using assms by (auto simp: index_ok_def)

lemma index_unique:
  "index_ok m i \<Longrightarrow> mget m k = Some v \<Longrightarrow> mget m k' = Some w \<Longrightarrow> key v = key w \<Longrightarrow> k = k'"
  using index_lookup by (metis option.inject)

lemma index_fresh:
  "index_ok m i \<Longrightarrow> iget i j = None \<Longrightarrow> mget m k = Some v \<Longrightarrow> key v \<noteq> j"
  using index_lookup by fastforce

lemma index_ok_insert:
  assumes "index_ok m i" "mget m k = None" "iget i (key v) = None"
  shows "index_ok (mput m k v) (iput i (key v) k)"
  using assms index_fresh [OF assms(1,3)]
  by (auto simp: index_ok_def tab.get_put idx.get_put split: if_splits)

lemma index_ok_update:
  assumes "index_ok m i" "mget m k = Some w" "key v = key w"
  shows "index_ok (mput m k v) i"
  using assms by (auto simp: index_ok_def tab.get_put split: if_splits)

lemma index_ok_rekey:
  assumes "index_ok m i" "mget m k = Some w" "iget i (key v) = None"
  shows "index_ok (mput m k v) (iput (idel i (key w)) (key v) k)"
proof -
  have ne: "key w \<noteq> key v" by (rule index_fresh [OF assms(1,3,2)])
  have fresh: "\<not> (\<exists>k v'. mget m k = Some v' \<and> key v' = key v)"
    using index_fresh [OF assms(1,3)] by blast
  have iff: "iget i j = Some k' \<longleftrightarrow> (\<exists>v. mget m k' = Some v \<and> key v = j)" for j k'
    using assms(1) by (simp add: index_ok_def)
  show ?thesis unfolding index_ok_def
  proof (intro allI)
    fix j k'
    consider "j = key v" | "j = key w" "j \<noteq> key v" | "j \<noteq> key w" "j \<noteq> key v" by blast
    then show "iget (iput (idel i (key w)) (key v) k) j = Some k' \<longleftrightarrow>
        (\<exists>u. mget (mput m k v) k' = Some u \<and> key u = j)"
    proof cases
      case 1
      then show ?thesis using fresh by (auto simp: tab.get_put idx.get_put)
    next
      case 2
      then show ?thesis using index_unique [OF assms(1,2)] 
        by (auto simp: tab.get_put idx.get_put idx.get_del)
    next
      case 3
      then show ?thesis using assms(2) by (auto simp: tab.get_put idx.get_put idx.get_del iff)
    qed
  qed
qed

lemma index_ok_delete:
  assumes "index_ok m i" "mget m k = Some w"
  shows "index_ok (mdel m k) (idel i (key w))"
  using assms index_unique [OF assms(1)]
  by (auto simp: index_ok_def tab.get_del idx.get_del split: if_splits)

end

end
