(* ===== verification/External.thy ===== *)
theory External
imports Kv_Store
begin

text \<open>
  What the keepers use of code outside this repository, as parameters: the
  decimals of \<open>cosmossdk.io/math\<close>, the bank keeper and \<open>sdk.Coins\<close>, bech32 and
  module addresses, and the block context.  Each is a record of operations; the
  documented behaviour a theorem relies on is a locale over that record, and each
  locale is interpreted on a concrete implementation at the end of the theory.
\<close>

section \<open>Block context\<close>

record sdk_env =
  se_block_time :: time
  se_from_bech32 :: "string \<Rightarrow> string option"
  se_module_addr :: "string \<Rightarrow> string"

definition valid_addr :: "sdk_env \<Rightarrow> string \<Rightarrow> bool" where
  "valid_addr E a = (se_from_bech32 E a \<noteq> None)"

section \<open>Decimals\<close>

text \<open>A \<open>math.LegacyDec\<close> is documented as an integer counting units of
  \<open>10 ^ -18\<close>; the model's decimals are that integer.  \<open>None\<close> is a panic.\<close>

type_synonym dec = int

record dec_ops =
  dec_of_int :: "int \<Rightarrow> dec"
  dec_add :: "dec \<Rightarrow> dec \<Rightarrow> dec option"
  dec_sub :: "dec \<Rightarrow> dec \<Rightarrow> dec option"
  dec_mul :: "dec \<Rightarrow> dec \<Rightarrow> dec option"
  dec_quo :: "dec \<Rightarrow> dec \<Rightarrow> dec option"
  dec_truncate :: "dec \<Rightarrow> int"
  dec_to_string :: "dec \<Rightarrow> string"
  dec_of_string :: "string \<Rightarrow> dec option"

definition dec_one :: dec where
  "dec_one = 10 ^ 18"

locale dec_laws =
  fixes D :: dec_ops
  assumes of_int: "dec_of_int D n = n * dec_one"
    and add_exact: "dec_add D a b = Some c \<Longrightarrow> c = a + b"
    and add_total: "\<bar>a + b\<bar> < 2 ^ 315 \<Longrightarrow> dec_add D a b \<noteq> None"
    and sub_exact: "dec_sub D a b = Some c \<Longrightarrow> c = a - b"
    and sub_total: "\<bar>a - b\<bar> < 2 ^ 315 \<Longrightarrow> dec_sub D a b \<noteq> None"
    and mul_near: "dec_mul D a b = Some c \<Longrightarrow> 2 * \<bar>c * dec_one - a * b\<bar> \<le> dec_one"
    and mul_total: "\<bar>a * b\<bar> < 2 ^ 315 \<Longrightarrow> dec_mul D a b \<noteq> None"
    and quo_zero: "dec_quo D a 0 = None"
    and quo_near: "dec_quo D a b = Some c \<Longrightarrow>
          2 * \<bar>c * b - a * dec_one\<bar> * dec_one \<le> \<bar>b\<bar> * (dec_one + 2)"
    and quo_total: "b \<noteq> 0 \<Longrightarrow> \<bar>a\<bar> * dec_one * dec_one < 2 ^ 315 \<Longrightarrow> dec_quo D a b \<noteq> None"
    and truncate: "dec_truncate D a = sgn a * (\<bar>a\<bar> div dec_one)"
    and string_round_trip: "dec_of_string D (dec_to_string D a) = Some a"
begin

lemma of_int_zero [simp]: "dec_of_int D 0 = 0"
  by (simp add: of_int)

lemma truncate_of_int [simp]: "dec_truncate D (dec_of_int D n) = n"
  by (simp add: truncate of_int dec_one_def abs_mult sgn_mult sgn_mult_abs)

lemma truncate_nonneg: "0 \<le> a \<Longrightarrow> dec_truncate D a = a div dec_one"
  by (cases "a = 0") (simp_all add: truncate)

lemma truncate_le: "0 \<le> a \<Longrightarrow> dec_truncate D a * dec_one \<le> a"
  by (simp add: truncate_nonneg dec_one_def)

lemma truncate_gt: "0 \<le> a \<Longrightarrow> a < (dec_truncate D a + 1) * dec_one"
  by (simp add: truncate_nonneg dec_one_def)

lemma truncate_neg: "a \<le> 0 \<Longrightarrow> dec_truncate D a \<le> 0"
  by (cases "a = 0") (simp_all add: truncate dec_one_def)

lemma quo_one:
  assumes "dec_quo D a dec_one = Some c"
  shows "c = a"
proof -
  have "2 * \<bar>(c - a) * dec_one\<bar> * dec_one \<le> dec_one * (dec_one + 2)"
    using quo_near [OF assms] by (simp add: left_diff_distrib dec_one_def)
  then have "\<bar>c - a\<bar> < 1" by (simp add: dec_one_def abs_mult)
  then show ?thesis by simp
qed

lemma quo_sign:
  assumes "dec_quo D a b = Some c" "0 \<le> a" "0 < b"
  shows "0 \<le> c"
proof (rule ccontr)
  assume "\<not> 0 \<le> c"
  then have "c * b \<le> - b" using assms(3) mult_right_mono [of c "-1" b] by simp
  then have "b \<le> \<bar>c * b - a * dec_one\<bar>" using assms(2) by (simp add: dec_one_def)
  moreover have "2 * \<bar>c * b - a * dec_one\<bar> * dec_one \<le> b * (dec_one + 2)"
    using quo_near [OF assms(1)] assms(3) by simp
  ultimately have "2 * b * dec_one \<le> b * (dec_one + 2)"
    using mult_right_mono [of b "\<bar>c * b - a * dec_one\<bar>" "2 * dec_one"]
    by (simp add: dec_one_def)
  then show False using assms(3) by (simp add: dec_one_def)
qed

lemma mul_sign:
  assumes "dec_mul D a b = Some c" "0 \<le> a" "0 \<le> b"
  shows "0 \<le> c"
proof (rule ccontr)
  assume "\<not> 0 \<le> c"
  then have "c * dec_one \<le> - dec_one" by (simp add: dec_one_def)
  moreover have "0 \<le> a * b" using assms by simp
  ultimately have "dec_one \<le> \<bar>c * dec_one - a * b\<bar>" by linarith
  moreover have "2 * \<bar>c * dec_one - a * b\<bar> \<le> dec_one" by (rule mul_near [OF assms(1)])
  ultimately show False by (simp add: dec_one_def)
qed

end

section \<open>Coins and the bank\<close>

type_synonym coins = "(string \<times> int) list"

text \<open>\<open>sdk.NewCoins(sdk.NewInt64Coin(d, n))\<close>: a negative amount panics and a zero
  coin is dropped.\<close>

definition new_coins :: "string \<Rightarrow> int \<Rightarrow> coins option" where
  "new_coins d n = (if n < 0 then None else Some (if n = 0 then [] else [(d, n)]))"

fun amount_of :: "coins \<Rightarrow> string \<Rightarrow> int" where
  "amount_of [] d = 0"
| "amount_of ((d', n) # cs) d = (if d' = d then n else 0) + amount_of cs d"

lemma new_coins_amount: "new_coins d n = Some cs \<Longrightarrow> amount_of cs d' = (if d' = d then n else 0)"
  by (auto simp: new_coins_def split: if_splits)

lemma new_coins_ok_iff: "new_coins d n \<noteq> None \<longleftrightarrow> 0 \<le> n"
  by (simp add: new_coins_def)

record 'b bank_ops =
  bk_send :: "'b \<Rightarrow> string \<Rightarrow> string \<Rightarrow> coins \<Rightarrow> 'b option"
  bk_acc_to_mod :: "'b \<Rightarrow> string \<Rightarrow> string \<Rightarrow> coins \<Rightarrow> 'b option"
  bk_mod_to_acc :: "'b \<Rightarrow> string \<Rightarrow> string \<Rightarrow> coins \<Rightarrow> 'b option"
  bk_mod_to_mod :: "'b \<Rightarrow> string \<Rightarrow> string \<Rightarrow> coins \<Rightarrow> 'b option"
  bk_burn :: "'b \<Rightarrow> string \<Rightarrow> coins \<Rightarrow> 'b option"
  bk_balance :: "'b \<Rightarrow> string \<Rightarrow> string \<Rightarrow> int"

text \<open>A successful transfer moves exactly the coins named, a successful burn
  destroys them, and no other balance changes.\<close>

definition moved :: "'b bank_ops \<Rightarrow> 'b \<Rightarrow> 'b \<Rightarrow> string \<Rightarrow> string \<Rightarrow> coins \<Rightarrow> bool" where
  "moved B b b' src dst cs \<longleftrightarrow>
     (\<forall>a d. bk_balance B b' a d = bk_balance B b a d
        - (if a = src then amount_of cs d else 0) + (if a = dst then amount_of cs d else 0))"

locale bank_laws =
  fixes B :: "'b bank_ops" and modaddr :: "string \<Rightarrow> string"
  assumes send: "bk_send B b a a' cs = Some b' \<Longrightarrow> moved B b b' a a' cs"
    and acc_to_mod: "bk_acc_to_mod B b a m cs = Some b' \<Longrightarrow> moved B b b' a (modaddr m) cs"
    and mod_to_acc: "bk_mod_to_acc B b m a cs = Some b' \<Longrightarrow> moved B b b' (modaddr m) a cs"
    and mod_to_mod: "bk_mod_to_mod B b m m' cs = Some b' \<Longrightarrow>
           moved B b b' (modaddr m) (modaddr m') cs"
    and burn: "bk_burn B b m cs = Some b' \<Longrightarrow> bk_balance B b' a d =
           bk_balance B b a d - (if a = modaddr m then amount_of cs d else 0)"
    and balance_nonneg: "0 \<le> bk_balance B b a d"
begin

lemma acc_to_mod_balance:
  "bk_acc_to_mod B b a m cs = Some b' \<Longrightarrow> bk_balance B b' x d = bk_balance B b x d
     - (if x = a then amount_of cs d else 0) + (if x = modaddr m then amount_of cs d else 0)"
  using acc_to_mod by (simp add: moved_def)

lemma mod_to_acc_balance:
  "bk_mod_to_acc B b m a cs = Some b' \<Longrightarrow> bk_balance B b' x d = bk_balance B b x d
     - (if x = modaddr m then amount_of cs d else 0) + (if x = a then amount_of cs d else 0)"
  using mod_to_acc by (simp add: moved_def)

lemma mod_to_mod_balance:
  "bk_mod_to_mod B b m m' cs = Some b' \<Longrightarrow> bk_balance B b' x d = bk_balance B b x d
     - (if x = modaddr m then amount_of cs d else 0) + (if x = modaddr m' then amount_of cs d else 0)"
  using mod_to_mod by (simp add: moved_def)

end

section \<open>Concrete implementations\<close>

text \<open>Decimals over unbounded integers, rounding to the nearest unit.\<close>

definition near_div :: "int \<Rightarrow> int \<Rightarrow> int" where
  "near_div a b = sgn a * sgn b * ((2 * \<bar>a\<bar> + \<bar>b\<bar>) div (2 * \<bar>b\<bar>))"

lemma near_half:
  fixes A B P r :: int
  shows "2 * A + B = 2 * P + r \<Longrightarrow> 0 \<le> r \<Longrightarrow> r < 2 * B \<Longrightarrow> 2 * \<bar>P - A\<bar> \<le> B"
  by (cases "A \<le> P") (simp_all add: abs_if)

lemma near_div_near:
  assumes "b \<noteq> 0"
  shows "2 * \<bar>near_div a b * b - a\<bar> \<le> \<bar>b\<bar>"
proof -
  define q where "q = (2 * \<bar>a\<bar> + \<bar>b\<bar>) div (2 * \<bar>b\<bar>)"
  have "2 * \<bar>a\<bar> + \<bar>b\<bar> = q * (2 * \<bar>b\<bar>) + (2 * \<bar>a\<bar> + \<bar>b\<bar>) mod (2 * \<bar>b\<bar>)"
    unfolding q_def by (rule div_mult_mod_eq [symmetric])
  moreover have "0 \<le> (2 * \<bar>a\<bar> + \<bar>b\<bar>) mod (2 * \<bar>b\<bar>)" "(2 * \<bar>a\<bar> + \<bar>b\<bar>) mod (2 * \<bar>b\<bar>) < 2 * \<bar>b\<bar>"
    using assms by simp_all
  moreover have "q * (2 * \<bar>b\<bar>) = 2 * (q * \<bar>b\<bar>)" by simp
  ultimately have near: "2 * \<bar>q * \<bar>b\<bar> - \<bar>a\<bar>\<bar> \<le> \<bar>b\<bar>"
    by (intro near_half [where r = "(2 * \<bar>a\<bar> + \<bar>b\<bar>) mod (2 * \<bar>b\<bar>)"]) simp_all
  show ?thesis
  proof (cases "a = 0")
    case True
    then show ?thesis by (simp add: near_div_def)
  next
    case False
    have "near_div a b * b - a = sgn a * (q * \<bar>b\<bar> - \<bar>a\<bar>)"
      by (simp add: near_div_def q_def abs_sgn algebra_simps)
    then have "\<bar>near_div a b * b - a\<bar> = \<bar>q * \<bar>b\<bar> - \<bar>a\<bar>\<bar>"
      using False by (simp add: abs_mult)
    then show ?thesis using near by simp
  qed
qed

fun digits :: "nat \<Rightarrow> string" where
  "digits n = (if n < 10 then [char_of (48 + n)] else digits (n div 10) @ [char_of (48 + n mod 10)])"

declare digits.simps [simp del]

definition undigits :: "string \<Rightarrow> nat" where
  "undigits s = foldl (\<lambda>v c. 10 * v + (of_char c - 48)) 0 s"

lemma undigits_digits [simp]: "undigits (digits n) = n"
proof (induction n rule: digits.induct)
  case (1 n)
  have "of_char (char_of (48 + n mod 10) :: char) = 48 + n mod 10"
    by (simp add: of_char_of mod_mod_trivial)
  moreover have "n < 10 \<Longrightarrow> of_char (char_of (48 + n) :: char) = 48 + n"
    by (simp add: of_char_of)
  ultimately show ?case using 1 by (subst digits.simps) (simp add: undigits_def)
qed

lemma digits_first: "\<exists>c cs. digits n = c # cs \<and> c \<noteq> CHR ''-''"
proof (induction n rule: digits.induct)
  case (1 n)
  show ?case
  proof (cases "n < 10")
    case True
    have "of_char (char_of (48 + n) :: char) \<noteq> (45 :: nat)"
      using True by (simp add: of_char_of)
    moreover have "of_char (CHR ''-'') = (45 :: nat)" by simp
    ultimately have "char_of (48 + n) \<noteq> CHR ''-''" by metis
    then show ?thesis using True by (subst digits.simps) simp
  next
    case False
    then show ?thesis using 1 by (subst digits.simps) auto
  qed
qed

definition int_to_string :: "int \<Rightarrow> string" where
  "int_to_string x = (if x < 0 then CHR ''-'' # digits (nat (- x)) else digits (nat x))"

definition int_of_string :: "string \<Rightarrow> int option" where
  "int_of_string s = (case s of [] \<Rightarrow> None
     | c # cs \<Rightarrow> Some (if c = CHR ''-'' then - int (undigits cs) else int (undigits s)))"

lemma int_string_round_trip: "int_of_string (int_to_string x) = Some x"
proof (cases "x < 0")
  case False
  obtain c cs where "digits (nat x) = c # cs" "c \<noteq> CHR ''-''" using digits_first by blast
  then show ?thesis using False undigits_digits [of "nat x"]
    by (simp add: int_to_string_def int_of_string_def)
qed (simp add: int_to_string_def int_of_string_def)

definition fix18 :: dec_ops where
  "fix18 = \<lparr> dec_of_int = (\<lambda>n. n * dec_one),
     dec_add = (\<lambda>a b. Some (a + b)), dec_sub = (\<lambda>a b. Some (a - b)),
     dec_mul = (\<lambda>a b. Some (near_div (a * b) dec_one)),
     dec_quo = (\<lambda>a b. if b = 0 then None else Some (near_div (a * dec_one) b)),
     dec_truncate = (\<lambda>a. sgn a * (\<bar>a\<bar> div dec_one)),
     dec_to_string = int_to_string, dec_of_string = int_of_string \<rparr>"

lemma fix18_sel [simp]:
  "dec_of_int fix18 n = n * dec_one" "dec_add fix18 a b = Some (a + b)"
  "dec_sub fix18 a b = Some (a - b)" "dec_mul fix18 a b = Some (near_div (a * b) dec_one)"
  "dec_quo fix18 a b = (if b = 0 then None else Some (near_div (a * dec_one) b))"
  "dec_truncate fix18 a = sgn a * (\<bar>a\<bar> div dec_one)"
  "dec_to_string fix18 a = int_to_string a" "dec_of_string fix18 t = int_of_string t"
  by (simp_all add: fix18_def)

interpretation fix18: dec_laws fix18
proof unfold_locales
  fix a b c
  show "dec_mul fix18 a b = Some c \<Longrightarrow> 2 * \<bar>c * dec_one - a * b\<bar> \<le> dec_one"
    using near_div_near [of dec_one "a * b"] by (auto simp: dec_one_def)
  show "2 * \<bar>c * b - a * dec_one\<bar> * dec_one \<le> \<bar>b\<bar> * (dec_one + 2)"
    if "dec_quo fix18 a b = Some c"
  proof -
    have "b \<noteq> 0" "c = near_div (a * dec_one) b" using that by (auto split: if_splits)
    then have "2 * \<bar>c * b - a * dec_one\<bar> \<le> \<bar>b\<bar>" using near_div_near by simp
    then have "2 * \<bar>c * b - a * dec_one\<bar> * dec_one \<le> \<bar>b\<bar> * dec_one"
      by (simp add: dec_one_def)
    then show ?thesis by (simp add: distrib_left)
  qed
qed (auto simp: int_string_round_trip)

text \<open>A ledger of balances per address and denomination.\<close>

type_synonym ledger = "string \<Rightarrow> string \<Rightarrow> nat"

definition ledger_debit :: "ledger \<Rightarrow> string \<Rightarrow> coins \<Rightarrow> ledger option" where
  "ledger_debit l a cs =
     (if list_all (\<lambda>(d, n). 0 \<le> n \<and> amount_of cs d \<le> int (l a d)) cs
      then Some (l(a := \<lambda>d. nat (int (l a d) - amount_of cs d))) else None)"

definition ledger_credit :: "ledger \<Rightarrow> string \<Rightarrow> coins \<Rightarrow> ledger" where
  "ledger_credit l a cs = l(a := \<lambda>d. nat (int (l a d) + amount_of cs d))"

definition ledger_move :: "ledger \<Rightarrow> string \<Rightarrow> string \<Rightarrow> coins \<Rightarrow> ledger option" where
  "ledger_move l src dst cs =
     (case ledger_debit l src cs of None \<Rightarrow> None | Some l' \<Rightarrow> Some (ledger_credit l' dst cs))"

definition ledger_bank :: "(string \<Rightarrow> string) \<Rightarrow> ledger bank_ops" where
  "ledger_bank modaddr = \<lparr> bk_send = ledger_move,
     bk_acc_to_mod = (\<lambda>l a m. ledger_move l a (modaddr m)),
     bk_mod_to_acc = (\<lambda>l m a. ledger_move l (modaddr m) a),
     bk_mod_to_mod = (\<lambda>l m m'. ledger_move l (modaddr m) (modaddr m')),
     bk_burn = (\<lambda>l m. ledger_debit l (modaddr m)),
     bk_balance = (\<lambda>l a d. int (l a d)) \<rparr>"

lemma ledger_bank_sel [simp]:
  "bk_send (ledger_bank f) = ledger_move"
  "bk_acc_to_mod (ledger_bank f) l a m cs = ledger_move l a (f m) cs"
  "bk_mod_to_acc (ledger_bank f) l m a cs = ledger_move l (f m) a cs"
  "bk_mod_to_mod (ledger_bank f) l m m' cs = ledger_move l (f m) (f m') cs"
  "bk_burn (ledger_bank f) l m cs = ledger_debit l (f m) cs"
  "bk_balance (ledger_bank f) l a d = int (l a d)"
  by (simp_all add: ledger_bank_def)

lemma amount_of_nonneg: "list_all (\<lambda>(d, n). 0 \<le> n) cs \<Longrightarrow> 0 \<le> amount_of cs d"
  by (induction cs) auto

lemma amount_of_absent: "d \<notin> fst ` set cs \<Longrightarrow> amount_of cs d = 0"
  by (induction cs) auto

lemma ledger_debit_effect:
  assumes "ledger_debit l a cs = Some l'"
  shows "0 \<le> amount_of cs d"
    and "int (l' x d) = int (l x d) - (if x = a then amount_of cs d else 0)"
proof -
  have all: "list_all (\<lambda>(d, n). 0 \<le> n \<and> amount_of cs d \<le> int (l a d)) cs"
    and l': "l' = l(a := \<lambda>d. nat (int (l a d) - amount_of cs d))"
    using assms by (auto simp: ledger_debit_def split: if_splits)
  show "0 \<le> amount_of cs d"
    using all by (intro amount_of_nonneg) (auto simp: list_all_iff)
  have "amount_of cs d \<le> int (l a d)"
    using all by (cases "d \<in> fst ` set cs") (auto simp: list_all_iff amount_of_absent)
  then show "int (l' x d) = int (l x d) - (if x = a then amount_of cs d else 0)"
    by (simp add: l')
qed

lemma ledger_move_moved:
  assumes "ledger_move l src dst cs = Some l'"
  shows "moved (ledger_bank f) l l' src dst cs"
proof -
  obtain l0 where l0: "ledger_debit l src cs = Some l0" "l' = ledger_credit l0 dst cs"
    using assms by (auto simp: ledger_move_def split: option.splits)
  show ?thesis
    using ledger_debit_effect [OF l0(1)] l0(2)
    by (auto simp: moved_def ledger_credit_def)
qed

interpretation ledger: bank_laws "ledger_bank f" f
  by unfold_locales (auto simp: ledger_move_moved ledger_debit_effect(2))

definition demo_env :: "time \<Rightarrow> sdk_env" where
  "demo_env t = \<lparr> se_block_time = t,
     se_from_bech32 = (\<lambda>a. if a = [] then None else Some a),
     se_module_addr = (\<lambda>m. CHR ''@'' # m) \<rparr>"

lemma demo_env_sel [simp]:
  "se_block_time (demo_env t) = t"
  "se_from_bech32 (demo_env t) a = (if a = [] then None else Some a)"
  "se_module_addr (demo_env t) m = CHR ''@'' # m"
  "valid_addr (demo_env t) a \<longleftrightarrow> a \<noteq> []"
  by (simp_all add: demo_env_def valid_addr_def)

end
