(* ===== verification/Validation.thy ===== *)
theory Validation
imports Prelude
begin

text \<open>
  The format validators: src/util/validation/validation.go (DIDs and Subresource
  Integrity digests), the language-tag checks of x/co, x/gf (a hand-written
  loop) and x/ec (a regular expression).  Go strings are byte strings; the
  regular expressions are written as the deterministic matchers they denote
  (every class is disjoint from the separator that follows it).  Parsing of URLs
  is the standard library's \<open>url.Parse\<close>, a parameter.
\<close>

definition in_range :: "char \<Rightarrow> char \<Rightarrow> char \<Rightarrow> bool" where
  "in_range lo hi c \<longleftrightarrow> (of_char lo :: nat) \<le> of_char c \<and> (of_char c :: nat) \<le> of_char hi"

definition is_lower :: "char \<Rightarrow> bool" where
  "is_lower c = in_range (CHR ''a'') (CHR ''z'') c"

definition is_alpha :: "char \<Rightarrow> bool" where
  "is_alpha c \<longleftrightarrow> is_lower c \<or> in_range (CHR ''A'') (CHR ''Z'') c"

definition is_digit :: "char \<Rightarrow> bool" where
  "is_digit c = in_range (CHR ''0'') (CHR ''9'') c"

definition is_alnum :: "char \<Rightarrow> bool" where
  "is_alnum c \<longleftrightarrow> is_alpha c \<or> is_digit c"

text \<open>The class \<open>\s\<close> of Go's regular expressions.\<close>

definition is_space :: "char \<Rightarrow> bool" where
  "is_space c \<longleftrightarrow> (of_char c :: nat) \<in> {9, 10, 12, 13, 32}"

fun strip_prefix :: "string \<Rightarrow> string \<Rightarrow> string option" where
  "strip_prefix [] s = Some s"
| "strip_prefix (p # ps) [] = None"
| "strip_prefix (p # ps) (c # cs) = (if p = c then strip_prefix ps cs else None)"

section \<open>DIDs\<close>

definition did_method_char :: "char \<Rightarrow> bool" where
  "did_method_char c \<longleftrightarrow> is_lower c \<or> is_digit c"

definition did_id_char :: "char \<Rightarrow> bool" where
  "did_id_char c \<longleftrightarrow> is_alnum c \<or> c \<in> set ''._:/%-''"

definition no_space :: "string \<Rightarrow> bool" where
  "no_space s = list_all (\<lambda>c. \<not> is_space c) s"

definition did_suffix_ok :: "string \<Rightarrow> bool" where
  "did_suffix_ok s = (case s of [] \<Rightarrow> True
     | c # cs \<Rightarrow> (c = CHR ''#'' \<or> c = CHR ''?'') \<and> no_space cs)"

definition did_id_ok :: "string \<Rightarrow> bool" where
  "did_id_ok s \<longleftrightarrow> takeWhile did_id_char s \<noteq> [] \<and> did_suffix_ok (dropWhile did_id_char s)"

definition IsValidDID :: "string \<Rightarrow> bool" where
  "IsValidDID s = (case strip_prefix ''did:'' s of
     None \<Rightarrow> False
   | Some r \<Rightarrow> takeWhile did_method_char r \<noteq> [] \<and>
       (case dropWhile did_method_char r of
          [] \<Rightarrow> False
        | c # cs \<Rightarrow> c = CHR '':'' \<and> did_id_ok cs))"

lemma IsValidDID_nonempty: "IsValidDID s \<Longrightarrow> s \<noteq> []"
  by (auto simp: IsValidDID_def)

section \<open>Subresource Integrity digests\<close>

definition base64_char :: "char \<Rightarrow> bool" where
  "base64_char c \<longleftrightarrow> is_alnum c \<or> c = CHR ''+'' \<or> c = CHR ''/''"

definition sri_body_ok :: "string \<Rightarrow> bool" where
  "sri_body_ok s \<longleftrightarrow> takeWhile base64_char s \<noteq> [] \<and>
     length (dropWhile base64_char s) \<le> 2 \<and>
     list_all (\<lambda>c. c = CHR ''='') (dropWhile base64_char s)"

definition IsValidDigestSRI :: "string \<Rightarrow> bool" where
  "IsValidDigestSRI s \<longleftrightarrow>
     list_ex (\<lambda>p. case strip_prefix p s of None \<Rightarrow> False | Some r \<Rightarrow> sri_body_ok r)
       [''sha256-'', ''sha384-'', ''sha512-'']"

lemma IsValidDigestSRI_nonempty: "IsValidDigestSRI s \<Longrightarrow> s \<noteq> []"
  by (auto simp: IsValidDigestSRI_def)

section \<open>Language tags\<close>

text \<open>\<open>strings.Split(s, "-")\<close>: always at least one part.\<close>

fun split_on :: "char \<Rightarrow> string \<Rightarrow> string list" where
  "split_on d [] = [[]]"
| "split_on d (c # cs) = (if c = d then [] # split_on d cs
     else (case split_on d cs of [] \<Rightarrow> [[c]] | p # ps \<Rightarrow> (c # p) # ps))"

text \<open>The loop of x/co/types/types.go and x/gf/types/types.go.\<close>

definition lang_parts_ok :: "nat \<Rightarrow> string list \<Rightarrow> bool" where
  "lang_parts_ok lo ps = (case ps of [] \<Rightarrow> False
     | p # qs \<Rightarrow> lo \<le> length p \<and> list_all is_alpha p \<and>
         list_all (\<lambda>q. lo \<le> length q \<and> length q \<le> 8 \<and> list_all is_alnum q) qs)"

definition IsValidBCP47 :: "string \<Rightarrow> bool" where
  "IsValidBCP47 s \<longleftrightarrow> s \<noteq> [] \<and> length s \<le> 17 \<and> lang_parts_ok 1 (split_on (CHR ''-'') s) \<and>
     length (hd (split_on (CHR ''-'') s)) \<le> 8"

text \<open>The regular expression of x/ec/types/lang.go.\<close>

definition ec_IsValidBCP47 :: "string \<Rightarrow> bool" where
  "ec_IsValidBCP47 s \<longleftrightarrow> 2 \<le> length s \<and> length s \<le> 17 \<and>
     lang_parts_ok 2 (split_on (CHR ''-'') s) \<and> length (hd (split_on (CHR ''-'') s)) \<le> 3"

text \<open>Every tag the ecosystem module accepts is accepted by the other two.\<close>

lemma ec_lang_imp_lang: "ec_IsValidBCP47 s \<Longrightarrow> IsValidBCP47 s"
  by (auto simp: ec_IsValidBCP47_def IsValidBCP47_def lang_parts_ok_def list_all_iff
      split: list.splits)

section \<open>URLs\<close>

text \<open>The parameter returns scheme and host of a string \<open>url.Parse\<close> accepts.\<close>

definition IsValidURL :: "(string \<Rightarrow> (string \<times> string) option) \<Rightarrow> string \<Rightarrow> bool" where
  "IsValidURL parse s = (case parse s of None \<Rightarrow> False | Some (scheme, host) \<Rightarrow> scheme \<noteq> [] \<and> host \<noteq> [])"

end
