(* ===== verification/Corporation.thy ===== *)
theory Corporation
imports External Validation
begin

text \<open>
  The corporation registry (src/x/co): its state, the identifier counter and the
  resolver every other module uses to turn a signing account (a group-policy
  address) into a corporation id (AUTHZ-CHECK-5, keeper/authz_check5.go), and
  the adapters of keeper/cross_module.go.  The handlers are in
  \<open>Corporation_Msgs\<close>, after the modules they call.
\<close>

record corporation =
  co_id :: nat
  co_policy_address :: string
  co_did :: string
  co_created :: time
  co_modified :: time
  co_language :: string
  co_active_version :: int

record co_state =
  cos_corporations :: "(nat, corporation) store"
  cos_by_policy :: "(string, nat) store"
  cos_by_did :: "(string, nat) store"
  cos_counter :: "(string, nat) store"

definition co_empty :: co_state where
  "co_empty = \<lparr> cos_corporations = kempty, cos_by_policy = kempty, cos_by_did = kempty,
     cos_counter = kempty \<rparr>"

text \<open>\<open>GetNextID\<close>: an entity type without a counter starts at zero.\<close>

definition co_GetNextID :: "co_state \<Rightarrow> string \<Rightarrow> nat \<times> co_state" where
  "co_GetNextID s ty =
     (let current = (case kget (cos_counter s) ty of None \<Rightarrow> 0 | Some n \<Rightarrow> n);
          nxt = current + 1
      in (nxt, s\<lparr>cos_counter := kset (cos_counter s) ty nxt\<rparr>))"

datatype resolve_error = Corporation_Not_Registered | Corporation_Missing

definition ResolveCorporationByPolicyAddress :: "co_state \<Rightarrow> string \<Rightarrow> resolve_error + corporation" where
  "ResolveCorporationByPolicyAddress s addr =
     (case kget (cos_by_policy s) addr of
        None \<Rightarrow> Inl Corporation_Not_Registered
      | Some i \<Rightarrow> optE Corporation_Missing (kget (cos_corporations s) i))"

text \<open>The adapter x/gf uses: every failure is \<open>false\<close>.\<close>

definition gf_ResolveByPolicyAddress :: "co_state \<Rightarrow> string \<Rightarrow> corporation option" where
  "gf_ResolveByPolicyAddress s addr =
     (case kget (cos_by_policy s) addr of
        None \<Rightarrow> None
      | Some i \<Rightarrow> kget (cos_corporations s) i)"

definition co_GetByID :: "co_state \<Rightarrow> nat \<Rightarrow> corporation option" where
  "co_GetByID s i = kget (cos_corporations s) i"

definition co_SetActiveVersion :: "co_state \<Rightarrow> nat \<Rightarrow> int \<Rightarrow> time \<Rightarrow> resolve_error + co_state" where
  "co_SetActiveVersion s i v now =
     (case kget (cos_corporations s) i of
        None \<Rightarrow> Inl Corporation_Missing
      | Some co \<Rightarrow>
          Inr (s\<lparr>cos_corporations := kset (cos_corporations s) (co_id co)
                 (co\<lparr>co_active_version := v, co_modified := now\<rparr>)\<rparr>))"

section \<open>The registry invariant\<close>

text \<open>Two unique secondary indexes on the table of corporations.\<close>

interpretation co_pol: unique_index kempty kget kset kremove entries
    kempty kget kset kremove entries co_policy_address
  by unfold_locales

interpretation co_didx: unique_index kempty kget kset kremove entries
    kempty kget kset kremove entries co_did
  by unfold_locales

definition co_last_id :: "co_state \<Rightarrow> nat" where
  "co_last_id s = (case kget (cos_counter s) ''co'' of None \<Rightarrow> 0 | Some n \<Rightarrow> n)"

text \<open>Every corporation is stored under its own positive id, not above the last
  id given out; both indexes describe the table exactly.\<close>

definition co_inv :: "co_state \<Rightarrow> bool" where
  "co_inv s \<longleftrightarrow>
     (\<forall>i co. kget (cos_corporations s) i = Some co \<longrightarrow> co_id co = i \<and> 0 < i \<and> i \<le> co_last_id s) \<and>
     co_pol.index_ok (cos_corporations s) (cos_by_policy s) \<and>
     co_didx.index_ok (cos_corporations s) (cos_by_did s)"

lemma co_inv_id:
  "co_inv s \<Longrightarrow> kget (cos_corporations s) i = Some co \<Longrightarrow> co_id co = i \<and> 0 < i \<and> i \<le> co_last_id s"
  by (simp add: co_inv_def)

lemma co_inv_policy: "co_inv s \<Longrightarrow> co_pol.index_ok (cos_corporations s) (cos_by_policy s)"
  by (simp add: co_inv_def)

lemma co_inv_did: "co_inv s \<Longrightarrow> co_didx.index_ok (cos_corporations s) (cos_by_did s)"
  by (simp add: co_inv_def)

lemma co_inv_empty: "co_inv co_empty"
  by (simp add: co_inv_def co_empty_def co_pol.index_ok_empty co_didx.index_ok_empty)

lemma co_inv_fresh: "co_inv s \<Longrightarrow> co_last_id s < i \<Longrightarrow> kget (cos_corporations s) i = None"
  using co_inv_id by (metis not_le not_None_eq)

lemma resolve_iff:
  assumes "co_inv s"
  shows "ResolveCorporationByPolicyAddress s addr = Inr co \<longleftrightarrow>
    kget (cos_corporations s) (co_id co) = Some co \<and> co_policy_address co = addr"
proof -
  have ix: "kget (cos_by_policy s) addr = Some i \<longleftrightarrow>
      (\<exists>v. kget (cos_corporations s) i = Some v \<and> co_policy_address v = addr)" for i
    using co_inv_policy [OF assms] by (simp add: co_pol.index_ok_def)
  show ?thesis
  proof
    assume "ResolveCorporationByPolicyAddress s addr = Inr co"
    then obtain i where i: "kget (cos_by_policy s) addr = Some i"
        "kget (cos_corporations s) i = Some co"
      by (auto simp: ResolveCorporationByPolicyAddress_def optE_ok_iff split: option.splits)
    then show "kget (cos_corporations s) (co_id co) = Some co \<and> co_policy_address co = addr"
      using ix [of i] co_inv_id [OF assms i(2)] by auto
  next
    assume r: "kget (cos_corporations s) (co_id co) = Some co \<and> co_policy_address co = addr"
    then have "kget (cos_by_policy s) addr = Some (co_id co)" using ix by blast
    then show "ResolveCorporationByPolicyAddress s addr = Inr co"
      using r by (simp add: ResolveCorporationByPolicyAddress_def)
  qed
qed

lemma resolve_adapter:
  "gf_ResolveByPolicyAddress s addr = Some co \<longleftrightarrow> ResolveCorporationByPolicyAddress s addr = Inr co"
  by (auto simp: gf_ResolveByPolicyAddress_def ResolveCorporationByPolicyAddress_def optE_ok_iff
      split: option.splits)

lemma resolve_same_id:
  assumes "co_inv s" "ResolveCorporationByPolicyAddress s a = Inr x"
    "ResolveCorporationByPolicyAddress s b = Inr y" "co_id x = co_id y"
  shows "a = b"
  using assms by (auto simp: resolve_iff)

lemma SetActiveVersion_inv:
  assumes "co_inv s" "co_SetActiveVersion s i v now = Inr s'"
  shows "co_inv s'"
proof -
  obtain co where co: "kget (cos_corporations s) i = Some co"
    and s': "s' = s\<lparr>cos_corporations := kset (cos_corporations s) (co_id co)
                 (co\<lparr>co_active_version := v, co_modified := now\<rparr>)\<rparr>"
    using assms(2) by (auto simp: co_SetActiveVersion_def split: option.splits)
  have "co_id co = i" "0 < i" "i \<le> co_last_id s" using co_inv_id [OF assms(1) co] by simp_all
  then show ?thesis
    using assms(1) co co_pol.index_ok_update [of "cos_corporations s" "cos_by_policy s" i co]
      co_didx.index_ok_update [of "cos_corporations s" "cos_by_did s" i co]
    by (auto simp: co_inv_def s' kget_kset co_last_id_def)
qed

section \<open>The resolver as an interface\<close>

text \<open>What the delegation module and the delegable handlers rely on: resolving an
  account yields the id of at most one corporation, and two accounts never
  resolve to the same corporation.\<close>

locale corp_resolver =
  fixes resolve :: "string \<Rightarrow> nat option"
  assumes resolve_inj: "resolve a = Some i \<Longrightarrow> resolve b = Some i \<Longrightarrow> a = b"
    and resolve_pos: "resolve a = Some i \<Longrightarrow> 0 < i"
begin

lemma resolve_zero: "resolve a \<noteq> Some 0"
  using resolve_pos by blast

lemma resolve_distinct: "a \<noteq> b \<Longrightarrow> resolve a = Some i \<Longrightarrow> resolve b \<noteq> Some i"
  using resolve_inj by blast

end

text \<open>The id a module sees through its \<open>CorporationKeeper\<close>.\<close>

definition resolve_id :: "co_state \<Rightarrow> string \<Rightarrow> nat option" where
  "resolve_id s addr = (case ResolveCorporationByPolicyAddress s addr of
     Inl _ \<Rightarrow> None | Inr co \<Rightarrow> Some (co_id co))"

lemma resolve_id_iff: "resolve_id s a = Some i \<longleftrightarrow>
    (\<exists>co. ResolveCorporationByPolicyAddress s a = Inr co \<and> co_id co = i)"
  by (auto simp: resolve_id_def split: sum.splits)

lemma corp_resolver_inv:
  assumes "co_inv s"
  shows "corp_resolver (resolve_id s)"
proof
  fix a b i
  assume a: "resolve_id s a = Some i"
  then obtain x where x: "ResolveCorporationByPolicyAddress s a = Inr x" "co_id x = i"
    by (auto simp: resolve_id_iff)
  then have "kget (cos_corporations s) i = Some x" using resolve_iff [OF assms] by blast
  then show "0 < i" using co_inv_id [OF assms] by blast
  assume "resolve_id s b = Some i"
  then obtain y where "ResolveCorporationByPolicyAddress s b = Inr y" "co_id y = i"
    by (auto simp: resolve_id_iff)
  then show "a = b" using resolve_same_id [OF assms x(1)] x(2) by blast
qed

typedef co_reg = "{s. co_inv s}"
  morphisms reg_state Reg
  using co_inv_empty by blast

text \<open>Registries that satisfy the invariant provide the interface.\<close>

interpretation co_reg: corp_resolver "resolve_id (reg_state r)"
  by (rule corp_resolver_inv) (use reg_state [of r] in simp)

section \<open>A sample registry\<close>

definition sample_corp :: "nat \<Rightarrow> string \<Rightarrow> string \<Rightarrow> corporation" where
  "sample_corp i addr did = \<lparr>co_id = i, co_policy_address = addr, co_did = did, co_created = 1,
     co_modified = 1, co_language = ''en'', co_active_version = 1\<rparr>"

definition sample_registry :: co_state where
  "sample_registry = \<lparr>
     cos_corporations = kset kempty 3 (sample_corp 3 ''corp'' ''did:x:a''),
     cos_by_policy = kset kempty ''corp'' 3,
     cos_by_did = kset kempty ''did:x:a'' 3,
     cos_counter = kset kempty ''co'' 3 \<rparr>"

lemma sample_registry_inv: "co_inv sample_registry"
  by (simp add: co_inv_def sample_registry_def co_last_id_def co_pol.index_ok_def co_didx.index_ok_def
      kget_kset sample_corp_def)

lemma sample_resolve [simp]: "resolve_id sample_registry ''corp'' = Some 3"
  by (simp add: resolve_id_def ResolveCorporationByPolicyAddress_def sample_registry_def sample_corp_def)

end
