(* ===== verification/Coins.thy ===== *)
theory Coins
imports External
begin

text \<open>
  The operations on \<open>sdk.Coins\<close> (Cosmos SDK) that the spend limits of x/de use: a
  record of operations, their documented laws as a locale, and coins as
  association lists as its interpretation.
\<close>

section \<open>The interface\<close>

text \<open>The operations on \<open>sdk.Coins\<close> the module calls; \<open>None\<close> is a panic.\<close>

record coins_ops =
  cn_is_zero :: "coins \<Rightarrow> bool"
  cn_is_valid :: "coins \<Rightarrow> bool"
  cn_is_all_positive :: "coins \<Rightarrow> bool"
  cn_is_all_gte :: "coins \<Rightarrow> coins \<Rightarrow> bool"
  cn_sub :: "coins \<Rightarrow> coins \<Rightarrow> coins option"

text \<open>Documented: on valid coins, \<open>IsAllGTE\<close> compares denomination by
  denomination and \<open>Sub\<close> panics only where a difference is negative.\<close>

locale coins_laws =
  fixes CN :: coins_ops
  assumes zero: "cn_is_zero CN a \<longleftrightarrow> (\<forall>(d, n) \<in> set a. n = 0)"
    and valid_nonneg: "cn_is_valid CN a \<Longrightarrow> 0 \<le> amount_of a d"
    and all_gte: "cn_is_valid CN a \<Longrightarrow> cn_is_valid CN b \<Longrightarrow>
       cn_is_all_gte CN a b \<longleftrightarrow> (\<forall>d. amount_of b d \<le> amount_of a d)"
    and sub_amount: "cn_is_valid CN a \<Longrightarrow> cn_is_valid CN b \<Longrightarrow> cn_sub CN a b = Some c \<Longrightarrow>
       cn_is_valid CN c \<and> amount_of c d = amount_of a d - amount_of b d"
    and sub_total: "cn_is_valid CN a \<Longrightarrow> cn_is_valid CN b \<Longrightarrow>
       (\<forall>d. amount_of b d \<le> amount_of a d) \<Longrightarrow> cn_sub CN a b \<noteq> None"
begin

lemma sub_le: "cn_is_valid CN a \<Longrightarrow> cn_is_valid CN b \<Longrightarrow> cn_sub CN a b = Some c \<Longrightarrow>
    amount_of c d \<le> amount_of a d"
  using sub_amount [of a b c d] valid_nonneg [of b d] by simp

end

section \<open>Association lists\<close>

definition coin_list_valid :: "coins \<Rightarrow> bool" where
  "coin_list_valid a \<longleftrightarrow> distinct (map fst a) \<and> list_all (\<lambda>(d, n). 0 < n) a"

definition coin_list_gte :: "coins \<Rightarrow> coins \<Rightarrow> bool" where
  "coin_list_gte a b = list_all (\<lambda>(d, n). n \<le> amount_of a d) b"

definition coin_list_sub :: "coins \<Rightarrow> coins \<Rightarrow> coins option" where
  "coin_list_sub a b = (if coin_list_gte a b
     then Some (filter (\<lambda>(d, n). n \<noteq> 0) (map (\<lambda>(d, n). (d, n - amount_of b d)) a)) else None)"

definition list_coins :: coins_ops where
  "list_coins = \<lparr> cn_is_zero = list_all (\<lambda>(d, n). n = 0), cn_is_valid = coin_list_valid,
     cn_is_all_positive = (\<lambda>a. a \<noteq> [] \<and> list_all (\<lambda>(d, n). 0 < n) a),
     cn_is_all_gte = coin_list_gte, cn_sub = coin_list_sub \<rparr>"

lemma list_coins_sel [simp]:
  "cn_is_zero list_coins a = list_all (\<lambda>(d, n). n = 0) a"
  "cn_is_valid list_coins a = coin_list_valid a"
  "cn_is_all_positive list_coins a \<longleftrightarrow> a \<noteq> [] \<and> list_all (\<lambda>(d, n). 0 < n) a"
  "cn_is_all_gte list_coins a b = coin_list_gte a b"
  "cn_sub list_coins a b = coin_list_sub a b"
  by (simp_all add: list_coins_def)

lemma coin_list_valid_Cons [simp]:
  "coin_list_valid ((d, n) # a) \<longleftrightarrow> d \<notin> fst ` set a \<and> 0 < n \<and> coin_list_valid a"
  by (auto simp: coin_list_valid_def)

lemma coin_list_valid_Nil [simp]: "coin_list_valid []"
  by (simp add: coin_list_valid_def)

lemma amount_of_valid: "coin_list_valid a \<Longrightarrow> 0 \<le> amount_of a d"
  by (induction a) auto

lemma amount_of_member: "coin_list_valid a \<Longrightarrow> (d, n) \<in> set a \<Longrightarrow> amount_of a d = n"
  by (induction a) (auto simp: amount_of_absent rev_image_eqI)

lemma coin_list_gte_iff:
  assumes "coin_list_valid a" "coin_list_valid b"
  shows "coin_list_gte a b \<longleftrightarrow> (\<forall>d. amount_of b d \<le> amount_of a d)"
proof
  assume g: "coin_list_gte a b"
  show "\<forall>d. amount_of b d \<le> amount_of a d"
  proof
    fix d
    show "amount_of b d \<le> amount_of a d"
    proof (cases "d \<in> fst ` set b")
      case True
      then obtain n where "(d, n) \<in> set b" by auto
      then show ?thesis using g amount_of_member [OF assms(2)]
        by (auto simp: coin_list_gte_def list_all_iff)
    next
      case False
      then show ?thesis using amount_of_valid [OF assms(1)] by (simp add: amount_of_absent)
    qed
  qed
next
  assume le: "\<forall>d. amount_of b d \<le> amount_of a d"
  show "coin_list_gte a b"
    unfolding coin_list_gte_def list_all_iff
  proof clarify
    fix d n assume "(d, n) \<in> set b"
    then have "amount_of b d = n" by (rule amount_of_member [OF assms(2)])
    then show "n \<le> amount_of a d" using le by metis
  qed
qed

lemma amount_of_drop_zero: "amount_of (filter (\<lambda>(d, n). n \<noteq> 0) a) d = amount_of a d"
  by (induction a) auto

lemma amount_of_map_diff:
  "distinct (map fst a) \<Longrightarrow> amount_of (map (\<lambda>(d, n). (d, n - f d)) a) d =
     (if d \<in> fst ` set a then amount_of a d - f d else 0)"
proof (induction a)
  case (Cons p a)
  obtain d' n where "p = (d', n)" by (cases p)
  then show ?case using Cons by (auto simp: amount_of_absent)
qed simp

lemma coin_list_sub_amount:
  assumes "coin_list_valid a" "coin_list_valid b" "coin_list_sub a b = Some c"
  shows "coin_list_valid c" and "amount_of c d = amount_of a d - amount_of b d"
proof -
  let ?m = "map (\<lambda>(d, n). (d, n - amount_of b d)) a"
  have le: "amount_of b d \<le> amount_of a d" for d
    using assms coin_list_gte_iff by (auto simp: coin_list_sub_def split: if_splits)
  have c: "c = filter (\<lambda>(d, n). n \<noteq> 0) ?m"
    using assms(3) by (auto simp: coin_list_sub_def split: if_splits)
  have fst_m: "map fst ?m = map fst a" by (simp add: comp_def split_def)
  have d: "distinct (map fst a)" using assms(1) by (simp add: coin_list_valid_def)
  have "distinct (map fst c)"
    unfolding c by (rule distinct_map_filter) (simp only: fst_m d)
  moreover have "list_all (\<lambda>(d, n). 0 < n) c"
    unfolding c list_all_iff
  proof clarify
    fix e n assume "(e, n) \<in> set (filter (\<lambda>(d, n). n \<noteq> 0) ?m)"
    then obtain k where k: "(e, k) \<in> set a" "n = k - amount_of b e" "n \<noteq> 0" by auto
    have "amount_of a e = k" by (rule amount_of_member [OF assms(1) k(1)])
    then show "0 < n" using le [of e] k by simp
  qed
  ultimately show "coin_list_valid c" by (simp add: coin_list_valid_def)
  have "amount_of b d = 0" if "d \<notin> fst ` set a"
    using le [of d] amount_of_valid [OF assms(2), of d] that by (simp add: amount_of_absent)
  then show "amount_of c d = amount_of a d - amount_of b d"
    unfolding c amount_of_drop_zero amount_of_map_diff [OF d, of "amount_of b"]
    by (auto simp: amount_of_absent)
qed

interpretation coin_lists: coins_laws list_coins
proof unfold_locales
  fix a b c :: coins and d :: string
  show "cn_is_zero list_coins a = (\<forall>(d, n) \<in> set a. n = 0)"
    by (simp add: list_all_iff)
  show "cn_is_valid list_coins a \<Longrightarrow> 0 \<le> amount_of a d" by (simp add: amount_of_valid)
  show "cn_is_valid list_coins a \<Longrightarrow> cn_is_valid list_coins b \<Longrightarrow>
      cn_is_all_gte list_coins a b = (\<forall>d. amount_of b d \<le> amount_of a d)"
    by (simp add: coin_list_gte_iff)
  show "cn_is_valid list_coins a \<Longrightarrow> cn_is_valid list_coins b \<Longrightarrow> cn_sub list_coins a b = Some c \<Longrightarrow>
      cn_is_valid list_coins c \<and> amount_of c d = amount_of a d - amount_of b d"
    using coin_list_sub_amount(1) [of a b c] coin_list_sub_amount(2) [of a b c d] by simp
  show "cn_is_valid list_coins a \<Longrightarrow> cn_is_valid list_coins b \<Longrightarrow>
      \<forall>d. amount_of b d \<le> amount_of a d \<Longrightarrow> cn_sub list_coins a b \<noteq> None"
    by (simp add: coin_list_sub_def coin_list_gte_iff)
qed

end
