(* ===== verification/Delegation.thy ===== *)
theory Delegation
imports Corporation Coins
begin

text \<open>
  The delegation module (src/x/de): operator authorizations, their spend ledger,
  fee grants and the per-participant authorizations of verifiable-service
  operators, with the checks other modules call before they act for a
  corporation.  Operations that take \<open>now\<close> read the block time; \<open>res\<close> is the
  wired \<open>CorporationKeeper\<close> (\<open>resolve_id\<close> of the registry).
\<close>

section \<open>Data and state\<close>

record oper_auth =
  oa_id :: nat
  oa_corp :: nat
  oa_operator :: string
  oa_msg_types :: "string list"
  oa_spend_limit :: coins
  oa_remaining_spend :: coins
  oa_fee_spend_limit :: coins
  oa_remaining_fee_spend :: coins
  oa_expiration :: "time option"
  oa_period :: "duration option"

record oa_usage =
  ou_oa_id :: nat
  ou_remaining :: coins
  ou_last_reset :: time

record fee_grant =
  fg_corp :: nat
  fg_grantee :: string
  fg_msg_types :: "string list"
  fg_spend_limit :: coins
  fg_remaining_spend :: coins
  fg_expiration :: "time option"
  fg_period :: "duration option"

record pa_record =
  pr_participant :: nat
  pr_msg_types :: "string list"
  pr_spend_limit :: coins
  pr_remaining_spend :: coins
  pr_fee_spend_limit :: coins
  pr_remaining_fee_spend :: coins
  pr_with_feegrant :: bool
  pr_expiration :: "time option"
  pr_period :: "duration option"

record vs_auth =
  vs_id :: nat
  vs_corp :: nat
  vs_oper :: string
  vs_records :: "pa_record list"

record de_state =
  des_oas :: "(nat, oper_auth) store"
  des_oa_index :: "(nat \<times> string, nat) store"
  des_oa_seq :: nat
  des_usage :: "(nat, oa_usage) store"
  des_feegrants :: "(nat \<times> string, fee_grant) store"
  des_vsoas :: "(nat, vs_auth) store"
  des_vs_index :: "(nat \<times> string, nat) store"
  des_vs_participant :: "(nat, nat) store"
  des_vs_seq :: nat

definition de_empty :: de_state where
  "de_empty = \<lparr> des_oas = kempty, des_oa_index = kempty, des_oa_seq = 0, des_usage = kempty,
     des_feegrants = kempty, des_vsoas = kempty, des_vs_index = kempty,
     des_vs_participant = kempty, des_vs_seq = 0 \<rparr>"

definition oa_key :: "oper_auth \<Rightarrow> nat \<times> string" where
  "oa_key a = (oa_corp a, oa_operator a)"

definition vs_key :: "vs_auth \<Rightarrow> nat \<times> string" where
  "vs_key v = (vs_corp v, vs_oper v)"

definition fg_key :: "fee_grant \<Rightarrow> nat \<times> string" where
  "fg_key g = (fg_corp g, fg_grantee g)"

datatype de_error =
    De_Invalid_Address | De_Empty_Msg_Types | De_Invalid_Msg_Type | De_Expiration_In_Past
  | De_Invalid_Spend_Limit | De_Invalid_Period | De_Feegrant_Fields
  | De_Authz_Not_Found | De_Authz_Expired | De_Authz_Msg_Type | De_Spend_Limit_Exceeded
  | De_Not_Registered | De_Self_Grant | De_VSOA_Exists | De_OA_Exists | De_OA_Not_Found
  | De_Zero_Participant | De_Participant_Exists | De_Other_Corporation
  | De_VS_Not_Found | De_Feegrant_Not_Enabled | De_Zero_Corporation | De_Empty_Grantee
  | De_Store | De_Panic | De_Invalid_Signer | De_Query

section \<open>Delegable messages (types/types.go)\<close>

definition VPRDelegableMsgTypes :: "string list" where
  "VPRDelegableMsgTypes =
    [''/verana.co.v1.MsgCreateCorporation'',
     ''/verana.co.v1.MsgUpdateCorporation'',
     ''/verana.ec.v1.MsgCreateEcosystem'',
     ''/verana.ec.v1.MsgUpdateEcosystem'',
     ''/verana.ec.v1.MsgArchiveEcosystem'',
     ''/verana.gf.v1.MsgAddGovernanceFrameworkDocument'',
     ''/verana.gf.v1.MsgIncreaseActiveGovernanceFrameworkVersion'',
     ''/verana.cs.v1.MsgCreateCredentialSchema'',
     ''/verana.cs.v1.MsgUpdateCredentialSchema'',
     ''/verana.cs.v1.MsgArchiveCredentialSchema'',
     ''/verana.pp.v1.MsgStartParticipantOP'',
     ''/verana.pp.v1.MsgRenewParticipantOP'',
     ''/verana.pp.v1.MsgSetParticipantOPToValidated'',
     ''/verana.pp.v1.MsgCancelParticipantOPLastRequest'',
     ''/verana.pp.v1.MsgCreateRootParticipant'',
     ''/verana.pp.v1.MsgSetParticipantEffectiveUntil'',
     ''/verana.pp.v1.MsgRevokeParticipant'',
     ''/verana.pp.v1.MsgSlashParticipantTrustDeposit'',
     ''/verana.pp.v1.MsgRepayParticipantSlashedTrustDeposit'',
     ''/verana.pp.v1.MsgSelfCreateParticipant'',
     ''/verana.pp.v1.MsgCreateOrUpdateParticipantSession'',
     ''/verana.td.v1.MsgReclaimTrustDepositYield'',
     ''/verana.td.v1.MsgRepaySlashedTrustDeposit'',
     ''/verana.di.v1.MsgStoreDigest'',
     ''/verana.de.v1.MsgGrantOperatorAuthorization'',
     ''/verana.de.v1.MsgRevokeOperatorAuthorization'',
     ''/verana.xr.v1.MsgUpdateExchangeRate'']"

definition msg_delegable :: "string \<Rightarrow> bool" where
  "msg_delegable mt \<longleftrightarrow> mt \<in> set VPRDelegableMsgTypes"

definition session_msg_type :: string where
  "session_msg_type = ''/verana.pp.v1.MsgCreateOrUpdateParticipantSession''"

section \<open>Lookups (keeper/keeper.go)\<close>

definition getOAByCorpOp :: "de_state \<Rightarrow> nat \<Rightarrow> string \<Rightarrow> de_error + oper_auth option" where
  "getOAByCorpOp s c oper = (case kget (des_oa_index s) (c, oper) of
      None \<Rightarrow> Inr None
    | Some i \<Rightarrow> (case kget (des_oas s) i of None \<Rightarrow> Inl De_Store | Some a \<Rightarrow> Inr (Some a)))"

definition getVSOAByCorpOp :: "de_state \<Rightarrow> nat \<Rightarrow> string \<Rightarrow> de_error + vs_auth option" where
  "getVSOAByCorpOp s c oper = (case kget (des_vs_index s) (c, oper) of
      None \<Rightarrow> Inr None
    | Some i \<Rightarrow> (case kget (des_vsoas s) i of None \<Rightarrow> Inl De_Store | Some v \<Rightarrow> Inr (Some v)))"

definition nextOAID :: "de_state \<Rightarrow> nat \<times> de_state" where
  "nextOAID s = (des_oa_seq s + 1, s\<lparr>des_oa_seq := des_oa_seq s + 1\<rparr>)"

definition nextVSOAID :: "de_state \<Rightarrow> nat \<times> de_state" where
  "nextVSOAID s = (des_vs_seq s + 1, s\<lparr>des_vs_seq := des_vs_seq s + 1\<rparr>)"

section \<open>AUTHZ-CHECK-1 (keeper/authz_check.go)\<close>

definition after :: "time option \<Rightarrow> time \<Rightarrow> bool" where
  "after e now = (case e of None \<Rightarrow> False | Some t \<Rightarrow> now < t)"

definition expired :: "time option \<Rightarrow> time \<Rightarrow> bool" where
  "expired e now = (case e of None \<Rightarrow> False | Some t \<Rightarrow> \<not> now < t)"

text \<open>\<open>None\<close>: the operator is empty, the corporation acts alone.\<close>

definition checkOperatorAuthorizationCore ::
  "(string \<Rightarrow> nat option) \<Rightarrow> de_state \<Rightarrow> string \<Rightarrow> string \<Rightarrow> string \<Rightarrow> time
     \<Rightarrow> de_error + oper_auth option" where
  "checkOperatorAuthorizationCore res s corporation operator mt now =
     (if operator = [] then Inr None
      else case res corporation of
        None \<Rightarrow> Inl De_Authz_Not_Found
      | Some c \<Rightarrow>
          bindE (getOAByCorpOp s c operator) (\<lambda>found. case found of
            None \<Rightarrow> Inl De_Authz_Not_Found
          | Some a \<Rightarrow>
              if expired (oa_expiration a) now then Inl De_Authz_Expired
              else if mt \<notin> set (oa_msg_types a) then Inl De_Authz_Msg_Type
              else Inr (Some a)))"

definition CheckOperatorAuthorization ::
  "(string \<Rightarrow> nat option) \<Rightarrow> de_state \<Rightarrow> string \<Rightarrow> string \<Rightarrow> string \<Rightarrow> time
     \<Rightarrow> de_error + unit" where
  "CheckOperatorAuthorization res s corporation operator mt now =
     bindE (checkOperatorAuthorizationCore res s corporation operator mt now) (\<lambda>_. Inr ())"

text \<open>The usage record after the first-use seeding and the period reset.\<close>

definition refreshed_usage :: "de_state \<Rightarrow> oper_auth \<Rightarrow> time \<Rightarrow> oa_usage" where
  "refreshed_usage s a now =
     (let u = (case kget (des_usage s) (oa_id a) of
                 None \<Rightarrow> \<lparr>ou_oa_id = oa_id a, ou_remaining = oa_spend_limit a, ou_last_reset = now\<rparr>
               | Some u \<Rightarrow> u)
      in case oa_period a of
           None \<Rightarrow> u
         | Some p \<Rightarrow> if 0 < p \<and> p \<le> time_sub now (ou_last_reset u)
             then u\<lparr>ou_remaining := oa_spend_limit a, ou_last_reset := now\<rparr> else u)"

definition CheckOperatorAuthorizationWithSpend ::
  "coins_ops \<Rightarrow> (string \<Rightarrow> nat option) \<Rightarrow> de_state \<Rightarrow> string \<Rightarrow> string \<Rightarrow> string \<Rightarrow> time \<Rightarrow> coins
     \<Rightarrow> de_error + de_state" where
  "CheckOperatorAuthorizationWithSpend CN res s corporation operator mt now spend =
     bindE (checkOperatorAuthorizationCore res s corporation operator mt now) (\<lambda>r. case r of
       None \<Rightarrow> Inr s
     | Some a \<Rightarrow>
         if oa_spend_limit a = [] \<or> cn_is_zero CN spend then Inr s
         else
           (let u = refreshed_usage s a now in
            if \<not> cn_is_all_gte CN (ou_remaining u) spend then Inl De_Spend_Limit_Exceeded
            else case cn_sub CN (ou_remaining u) spend of
                None \<Rightarrow> Inl De_Panic
              | Some rest \<Rightarrow>
                  Inr (s\<lparr>des_usage := kset (des_usage s) (oa_id a) (u\<lparr>ou_remaining := rest\<rparr>)\<rparr>)))"

section \<open>Fee allowances (keeper/fee_grant.go)\<close>

definition GrantFeeAllowance ::
  "coins_ops \<Rightarrow> de_state \<Rightarrow> time \<Rightarrow> nat \<Rightarrow> string \<Rightarrow> string list \<Rightarrow> time option \<Rightarrow> coins \<Rightarrow> duration option
     \<Rightarrow> de_error + de_state" where
  "GrantFeeAllowance CN s now c grantee mts expiration limit period =
     (if mts = [] then Inl De_Empty_Msg_Types
      else if \<not> list_all msg_delegable mts then Inl De_Invalid_Msg_Type
      else if expired expiration now then Inl De_Expiration_In_Past
      else if limit \<noteq> [] \<and> \<not> cn_is_valid CN limit then Inl De_Invalid_Spend_Limit
      else if (case period of None \<Rightarrow> False | Some p \<Rightarrow> p \<le> 0) then Inl De_Invalid_Period
      else Inr (s\<lparr>des_feegrants := kset (des_feegrants s) (c, grantee)
             \<lparr>fg_corp = c, fg_grantee = grantee, fg_msg_types = mts, fg_spend_limit = limit,
              fg_remaining_spend = [], fg_expiration = expiration, fg_period = period\<rparr>\<rparr>))"

definition RevokeFeeAllowance :: "de_state \<Rightarrow> nat \<Rightarrow> string \<Rightarrow> de_error + de_state" where
  "RevokeFeeAllowance s c grantee =
     (if c = 0 then Inl De_Zero_Corporation
      else if grantee = [] then Inl De_Empty_Grantee
      else if \<not> khas (des_feegrants s) (c, grantee) then Inr s
      else Inr (s\<lparr>des_feegrants := kremove (des_feegrants s) (c, grantee)\<rparr>))"

section \<open>Operator authorizations (keeper/msg_grant_operator_authorization.go, msg_revoke_operator_authorization.go)\<close>

record msg_grant_oa =
  go_corporation :: string
  go_operator :: string
  go_grantee :: string
  go_msg_types :: "string list"
  go_expiration :: "time option"
  go_spend_limit :: coins
  go_spend_period :: "duration option"
  go_with_feegrant :: bool
  go_fee_limit :: coins
  go_fee_period :: "duration option"
  go_fee_spend_limit :: coins

record msg_revoke_oa =
  ro_corporation :: string
  ro_operator :: string
  ro_grantee :: string

definition nonpositive :: "duration option \<Rightarrow> bool" where
  "nonpositive p = (case p of None \<Rightarrow> False | Some d \<Rightarrow> d \<le> 0)"

definition validate_grant_oa :: "sdk_env \<Rightarrow> coins_ops \<Rightarrow> msg_grant_oa \<Rightarrow> de_error + unit" where
  "validate_grant_oa E CN m =
     (if \<not> valid_addr E (go_corporation m) then Inl De_Invalid_Address
      else if go_operator m \<noteq> [] \<and> \<not> valid_addr E (go_operator m) then Inl De_Invalid_Address
      else if \<not> valid_addr E (go_grantee m) then Inl De_Invalid_Address
      else if go_msg_types m = [] then Inl De_Empty_Msg_Types
      else if \<not> list_all (\<lambda>mt. msg_delegable mt \<and> mt \<noteq> session_msg_type) (go_msg_types m)
        then Inl De_Invalid_Msg_Type
      else if go_spend_limit m \<noteq> [] \<and> \<not> cn_is_valid CN (go_spend_limit m) then Inl De_Invalid_Spend_Limit
      else if go_spend_limit m \<noteq> [] \<and> \<not> cn_is_all_positive CN (go_spend_limit m) then Inl De_Invalid_Spend_Limit
      else if go_spend_limit m \<noteq> [] \<and> nonpositive (go_spend_period m) then Inl De_Invalid_Period
      else if \<not> go_with_feegrant m \<and> \<not> cn_is_zero CN (go_fee_limit m) then Inl De_Feegrant_Fields
      else if go_with_feegrant m \<and> go_fee_limit m \<noteq> [] \<and> \<not> cn_is_valid CN (go_fee_limit m)
        then Inl De_Invalid_Spend_Limit
      else if go_fee_limit m \<noteq> [] \<and> \<not> cn_is_all_positive CN (go_fee_limit m) then Inl De_Invalid_Spend_Limit
      else if go_with_feegrant m \<and> go_fee_limit m \<noteq> [] \<and> nonpositive (go_fee_period m)
        then Inl De_Invalid_Period
      else Inr ())"

definition validate_revoke_oa :: "sdk_env \<Rightarrow> msg_revoke_oa \<Rightarrow> de_error + unit" where
  "validate_revoke_oa E m =
     (if \<not> valid_addr E (ro_corporation m) then Inl De_Invalid_Address
      else if ro_operator m \<noteq> [] \<and> \<not> valid_addr E (ro_operator m) then Inl De_Invalid_Address
      else if \<not> valid_addr E (ro_grantee m) then Inl De_Invalid_Address
      else Inr ())"

text \<open>The execution part of the grant: create or overwrite the authorization,
  index it and clear its spend ledger.\<close>

definition put_oper_auth :: "de_state \<Rightarrow> nat \<Rightarrow> msg_grant_oa \<Rightarrow> nat \<Rightarrow> de_state" where
  "put_oper_auth s c m i =
     s\<lparr>des_oas := kset (des_oas s) i
          \<lparr>oa_id = i, oa_corp = c, oa_operator = go_grantee m, oa_msg_types = go_msg_types m,
           oa_spend_limit = go_spend_limit m, oa_remaining_spend = [],
           oa_fee_spend_limit = go_fee_spend_limit m, oa_remaining_fee_spend = [],
           oa_expiration = go_expiration m, oa_period = go_spend_period m\<rparr>,
       des_oa_index := kset (des_oa_index s) (c, go_grantee m) i,
       des_usage := kremove (des_usage s) i\<rparr>"

definition GrantOperatorAuthorization ::
  "coins_ops \<Rightarrow> (string \<Rightarrow> nat option) \<Rightarrow> time \<Rightarrow> de_state \<Rightarrow> msg_grant_oa \<Rightarrow> de_error + de_state" where
  "GrantOperatorAuthorization CN res now s m =
     bindE (CheckOperatorAuthorization res s (go_corporation m) (go_operator m)
              ''/verana.de.v1.MsgGrantOperatorAuthorization'' now) (\<lambda>_.
     bindE (optE De_Not_Registered (res (go_corporation m))) (\<lambda>c.
     if go_operator m \<noteq> [] \<and> go_grantee m = go_operator m then Inl De_Self_Grant
     else if expired (go_expiration m) now then Inl De_Expiration_In_Past
     else if go_spend_limit m \<noteq> [] \<and> nonpositive (go_spend_period m) then Inl De_Invalid_Period
     else if khas (des_vs_index s) (c, go_grantee m) then Inl De_VSOA_Exists
     else
       bindE (getOAByCorpOp s c (go_grantee m)) (\<lambda>found.
       let (i, s1) = (case found of Some a \<Rightarrow> (oa_id a, s) | None \<Rightarrow> nextOAID s);
           s2 = put_oper_auth s1 c m i
       in if \<not> go_with_feegrant m then RevokeFeeAllowance s2 c (go_grantee m)
          else GrantFeeAllowance CN s2 now c (go_grantee m) (go_msg_types m) (go_expiration m)
                 (go_fee_limit m) (go_fee_period m))))"

definition RevokeOperatorAuthorization ::
  "(string \<Rightarrow> nat option) \<Rightarrow> time \<Rightarrow> de_state \<Rightarrow> msg_revoke_oa \<Rightarrow> de_error + de_state" where
  "RevokeOperatorAuthorization res now s m =
     bindE (CheckOperatorAuthorization res s (ro_corporation m) (ro_operator m)
              ''/verana.de.v1.MsgRevokeOperatorAuthorization'' now) (\<lambda>_.
     bindE (optE De_Not_Registered (res (ro_corporation m))) (\<lambda>c.
     bindE (getOAByCorpOp s c (ro_grantee m)) (\<lambda>found. case found of
       None \<Rightarrow> Inl De_OA_Not_Found
     | Some a \<Rightarrow>
         RevokeFeeAllowance
           (s\<lparr>des_oas := kremove (des_oas s) (oa_id a),
              des_oa_index := kremove (des_oa_index s) (c, ro_grantee m),
              des_usage := kremove (des_usage s) (oa_id a)\<rparr>) c (ro_grantee m))))"

section \<open>Service-operator authorizations (keeper/vs_operator_authorization.go)\<close>

definition fee_live :: "time \<Rightarrow> pa_record \<Rightarrow> bool" where
  "fee_live now r \<longleftrightarrow> pr_with_feegrant r \<and> after (pr_expiration r) now"

text \<open>One iteration of the loop of \<open>recomputeFeeAllowance\<close>: the latest expiration
  so far and the message types collected so far.\<close>

definition recompute_step ::
  "time \<Rightarrow> time option \<times> string list \<Rightarrow> pa_record \<Rightarrow> time option \<times> string list" where
  "recompute_step now acc r =
     (if \<not> fee_live now r then acc
      else (case fst acc of
              None \<Rightarrow> pr_expiration r
            | Some e \<Rightarrow> if after (pr_expiration r) e then pr_expiration r else Some e,
            add_unseen (pr_msg_types r) (snd acc)))"

definition recompute_scan :: "time \<Rightarrow> pa_record list \<Rightarrow> time option \<times> string list" where
  "recompute_scan now rs = foldl (recompute_step now) (None, []) rs"

definition recomputeFeeAllowance :: "coins_ops \<Rightarrow> time \<Rightarrow> de_state \<Rightarrow> vs_auth \<Rightarrow> de_error + de_state" where
  "recomputeFeeAllowance CN now s v =
     (let (maxExpire, mts) = recompute_scan now (vs_records v) in
      if maxExpire = None then RevokeFeeAllowance s (vs_corp v) (vs_oper v)
      else GrantFeeAllowance CN s now (vs_corp v) (vs_oper v) mts maxExpire [] None)"

definition GrantVSOperatorAuthorization ::
  "coins_ops \<Rightarrow> time \<Rightarrow> de_state \<Rightarrow> nat \<Rightarrow> string \<Rightarrow> pa_record \<Rightarrow> de_error + de_state" where
  "GrantVSOperatorAuthorization CN now s c oper r =
     (if pr_participant r = 0 then Inl De_Zero_Participant
      else if khas (des_vs_participant s) (pr_participant r) then Inl De_Participant_Exists
      else if pr_msg_types r = [] then Inl De_Empty_Msg_Types
      else if \<not> list_all msg_delegable (pr_msg_types r) then Inl De_Invalid_Msg_Type
      else if khas (des_oa_index s) (c, oper) then Inl De_OA_Exists
      else if list_ex (\<lambda>v. vs_oper v = oper \<and> vs_corp v \<noteq> c) (walk (des_vsoas s))
        then Inl De_Other_Corporation
      else
        bindE (getVSOAByCorpOp s c oper) (\<lambda>found.
        let (v, s1) = (case found of
                Some v \<Rightarrow> (v, s)
              | None \<Rightarrow> (let (i, s1) = nextVSOAID s in
                    (\<lparr>vs_id = i, vs_corp = c, vs_oper = oper, vs_records = []\<rparr>, s1)));
            v' = v\<lparr>vs_records := vs_records v @ [r]\<rparr>;
            s2 = s1\<lparr>des_vsoas := kset (des_vsoas s1) (vs_id v') v',
                     des_vs_index := kset (des_vs_index s1) (c, oper) (vs_id v'),
                     des_vs_participant := kset (des_vs_participant s1) (pr_participant r) (vs_id v')\<rparr>
        in recomputeFeeAllowance CN now s2 v'))"

definition RevokeVSOperatorAuthorization ::
  "coins_ops \<Rightarrow> time \<Rightarrow> de_state \<Rightarrow> nat \<Rightarrow> de_error + de_state" where
  "RevokeVSOperatorAuthorization CN now s p =
     (case kget (des_vs_participant s) p of
        None \<Rightarrow> Inr s
      | Some i \<Rightarrow>
          (case kget (des_vsoas s) i of
             None \<Rightarrow> Inl De_Store
           | Some v \<Rightarrow>
               (let v' = v\<lparr>vs_records := filter (\<lambda>r. pr_participant r \<noteq> p) (vs_records v)\<rparr>;
                    s1 = s\<lparr>des_vs_participant := kremove (des_vs_participant s) p\<rparr>;
                    s2 = (if vs_records v' = []
                          then s1\<lparr>des_vsoas := kremove (des_vsoas s1) i,
                                  des_vs_index := kremove (des_vs_index s1) (vs_corp v', vs_oper v')\<rparr>
                          else s1\<lparr>des_vsoas := kset (des_vsoas s1) i v'\<rparr>)
                in recomputeFeeAllowance CN now s2 v')))"

definition UpdateVSOperatorAuthorizationExpiration ::
  "coins_ops \<Rightarrow> time \<Rightarrow> de_state \<Rightarrow> nat \<Rightarrow> time \<Rightarrow> de_error + de_state" where
  "UpdateVSOperatorAuthorizationExpiration CN now s p newExpiration =
     (case kget (des_vs_participant s) p of
        None \<Rightarrow> Inr s
      | Some i \<Rightarrow>
          (case kget (des_vsoas s) i of
             None \<Rightarrow> Inl De_Store
           | Some v \<Rightarrow>
               (let v' = v\<lparr>vs_records := update_first (\<lambda>r. pr_participant r = p)
                              (pr_expiration_update (\<lambda>_. Some newExpiration)) (vs_records v)\<rparr>
                in recomputeFeeAllowance CN now (s\<lparr>des_vsoas := kset (des_vsoas s) i v'\<rparr>) v')))"

section \<open>AUTHZ-CHECK-3 and AUTHZ-CHECK-4 (keeper/authz_check_vsoa.go)\<close>

definition cycle_reset :: "time \<Rightarrow> duration \<Rightarrow> pa_record \<Rightarrow> pa_record" where
  "cycle_reset now p r =
     r\<lparr>pr_remaining_spend := (if pr_spend_limit r \<noteq> [] then pr_spend_limit r else pr_remaining_spend r),
       pr_remaining_fee_spend :=
         (if pr_fee_spend_limit r \<noteq> [] then pr_fee_spend_limit r else pr_remaining_fee_spend r),
       pr_expiration := Some (now + p)\<rparr>"

definition CheckVSOperatorAuthorizationOnParticipant ::
  "time \<Rightarrow> de_state \<Rightarrow> nat \<Rightarrow> string \<Rightarrow> nat \<Rightarrow> string \<Rightarrow> de_error + de_state" where
  "CheckVSOperatorAuthorizationOnParticipant now s c operator p mt =
     (case kget (des_vs_participant s) p of
        None \<Rightarrow> Inl De_VS_Not_Found
      | Some i \<Rightarrow>
     (case kget (des_vsoas s) i of
        None \<Rightarrow> Inl De_Store
      | Some v \<Rightarrow>
          if vs_corp v \<noteq> c \<or> vs_oper v \<noteq> operator then Inl De_VS_Not_Found
          else
     (case find (\<lambda>r. pr_participant r = p) (vs_records v) of
        None \<Rightarrow> Inl De_VS_Not_Found
      | Some r \<Rightarrow>
          if mt \<notin> set (pr_msg_types r) then Inl De_Authz_Msg_Type
          else if (case pr_period r of None \<Rightarrow> False | Some d \<Rightarrow> 0 < d) \<and> expired (pr_expiration r) now
            then Inr (s\<lparr>des_vsoas := kset (des_vsoas s) i
                    (v\<lparr>vs_records := update_first (\<lambda>r. pr_participant r = p)
                        (cycle_reset now (the (pr_period r))) (vs_records v)\<rparr>)\<rparr>)
          else if \<not> after (pr_expiration r) now then Inl De_Authz_Expired
          else Inr s)))"

definition CheckVSOperatorFeeGrant :: "de_state \<Rightarrow> nat \<Rightarrow> de_error + unit" where
  "CheckVSOperatorFeeGrant s p =
     (case kget (des_vs_participant s) p of
        None \<Rightarrow> Inl De_VS_Not_Found
      | Some i \<Rightarrow>
     (case kget (des_vsoas s) i of
        None \<Rightarrow> Inl De_Store
      | Some v \<Rightarrow>
     (case find (\<lambda>r. pr_participant r = p) (vs_records v) of
        None \<Rightarrow> Inl De_VS_Not_Found
      | Some r \<Rightarrow> if \<not> pr_with_feegrant r then Inl De_Feegrant_Not_Enabled else Inr ())))"

end
