(* ===== verification/Delegation_Inv.thy ===== *)
theory Delegation_Inv
imports Delegation
begin

text \<open>
  The invariant of the delegation state and its preservation by every operation:
  both tables agree with their indexes, a (corporation, operator) pair holds an
  operator authorization or a service-operator authorization but not both, a
  service operator serves one corporation, every participant has at most one
  record, spend ledgers and fee grants belong to an existing authorization.
\<close>

interpretation oaix: unique_index kempty kget kset kremove entries
    kempty kget kset kremove entries oa_key
  by unfold_locales

interpretation vsix: unique_index kempty kget kset kremove entries
    kempty kget kset kremove entries vs_key
  by unfold_locales

definition oa_ok :: "de_state \<Rightarrow> bool" where
  "oa_ok s \<longleftrightarrow>
     (\<forall>i a. kget (des_oas s) i = Some a \<longrightarrow> oa_id a = i \<and> 0 < i \<and> i \<le> des_oa_seq s) \<and>
     oaix.index_ok (des_oas s) (des_oa_index s) \<and>
     (\<forall>i u. kget (des_usage s) i = Some u \<longrightarrow> ou_oa_id u = i \<and> khas (des_oas s) i)"

definition participants :: "vs_auth \<Rightarrow> nat list" where
  "participants v = map pr_participant (vs_records v)"

definition vs_ok :: "de_state \<Rightarrow> bool" where
  "vs_ok s \<longleftrightarrow>
     (\<forall>i v. kget (des_vsoas s) i = Some v \<longrightarrow> vs_id v = i \<and> 0 < i \<and> i \<le> des_vs_seq s \<and>
        vs_records v \<noteq> [] \<and> distinct (participants v)) \<and>
     vsix.index_ok (des_vsoas s) (des_vs_index s) \<and>
     (\<forall>p i. kget (des_vs_participant s) p = Some i \<longleftrightarrow>
        (\<exists>v. kget (des_vsoas s) i = Some v \<and> p \<in> set (participants v))) \<and>
     (\<forall>i v j w. kget (des_vsoas s) i = Some v \<longrightarrow> kget (des_vsoas s) j = Some w \<longrightarrow>
        vs_oper v = vs_oper w \<longrightarrow> vs_corp v = vs_corp w)"

definition keys_ok :: "de_state \<Rightarrow> bool" where
  "keys_ok s \<longleftrightarrow>
     (\<forall>k. khas (des_oa_index s) k \<longrightarrow> \<not> khas (des_vs_index s) k) \<and>
     (\<forall>k. khas (des_oa_index s) k \<or> khas (des_vs_index s) k \<longrightarrow> 0 < fst k)"

definition fg_ok :: "de_state \<Rightarrow> bool" where
  "fg_ok s \<longleftrightarrow>
     (\<forall>k g. kget (des_feegrants s) k = Some g \<longrightarrow> fg_key g = k \<and>
        (khas (des_oa_index s) k \<or> khas (des_vs_index s) k))"

definition de_inv :: "de_state \<Rightarrow> bool" where
  "de_inv s \<longleftrightarrow> oa_ok s \<and> vs_ok s \<and> keys_ok s \<and> fg_ok s"

lemma de_inv_empty: "de_inv de_empty"
  by (simp add: de_inv_def oa_ok_def vs_ok_def keys_ok_def fg_ok_def de_empty_def
      oaix.index_ok_empty vsix.index_ok_empty)

lemma oa_okI:
  assumes "\<And>i a. kget (des_oas s) i = Some a \<Longrightarrow> oa_id a = i"
    and "\<And>i a. kget (des_oas s) i = Some a \<Longrightarrow> 0 < i \<and> i \<le> des_oa_seq s"
    and "oaix.index_ok (des_oas s) (des_oa_index s)"
    and "\<And>i u. kget (des_usage s) i = Some u \<Longrightarrow> ou_oa_id u = i \<and> khas (des_oas s) i"
  shows "oa_ok s"
  unfolding oa_ok_def using assms by blast

lemma oa_ok_id: "oa_ok s \<Longrightarrow> kget (des_oas s) i = Some a \<Longrightarrow> oa_id a = i"
  unfolding oa_ok_def by blast

lemma oa_ok_bound: "oa_ok s \<Longrightarrow> kget (des_oas s) i = Some a \<Longrightarrow> 0 < i \<and> i \<le> des_oa_seq s"
  unfolding oa_ok_def by blast

lemma oa_ok_index: "oa_ok s \<Longrightarrow> oaix.index_ok (des_oas s) (des_oa_index s)"
  unfolding oa_ok_def by blast

lemma oa_ok_usage: "oa_ok s \<Longrightarrow> kget (des_usage s) i = Some u \<Longrightarrow> ou_oa_id u = i \<and> khas (des_oas s) i"
  unfolding oa_ok_def by blast

lemma oa_ok_cong:
  "des_oas t = des_oas s \<Longrightarrow> des_oa_index t = des_oa_index s \<Longrightarrow> des_oa_seq t = des_oa_seq s \<Longrightarrow>
   des_usage t = des_usage s \<Longrightarrow> oa_ok t = oa_ok s"
  by (simp only: oa_ok_def)

lemma vs_okI:
  assumes "\<And>i v. kget (des_vsoas s) i = Some v \<Longrightarrow> vs_id v = i"
    and "\<And>i v. kget (des_vsoas s) i = Some v \<Longrightarrow> 0 < i \<and> i \<le> des_vs_seq s"
    and "\<And>i v. kget (des_vsoas s) i = Some v \<Longrightarrow> vs_records v \<noteq> [] \<and> distinct (participants v)"
    and "vsix.index_ok (des_vsoas s) (des_vs_index s)"
    and "\<And>p i. kget (des_vs_participant s) p = Some i \<longleftrightarrow>
        (\<exists>v. kget (des_vsoas s) i = Some v \<and> p \<in> set (participants v))"
    and "\<And>i v j w. kget (des_vsoas s) i = Some v \<Longrightarrow> kget (des_vsoas s) j = Some w \<Longrightarrow>
        vs_oper v = vs_oper w \<Longrightarrow> vs_corp v = vs_corp w"
  shows "vs_ok s"
  unfolding vs_ok_def using assms by blast

lemma vs_ok_id: "vs_ok s \<Longrightarrow> kget (des_vsoas s) i = Some v \<Longrightarrow> vs_id v = i"
  unfolding vs_ok_def by blast

lemma vs_ok_bound: "vs_ok s \<Longrightarrow> kget (des_vsoas s) i = Some v \<Longrightarrow> 0 < i \<and> i \<le> des_vs_seq s"
  unfolding vs_ok_def by blast

lemma vs_ok_records:
  "vs_ok s \<Longrightarrow> kget (des_vsoas s) i = Some v \<Longrightarrow> vs_records v \<noteq> [] \<and> distinct (participants v)"
  unfolding vs_ok_def by blast

lemma vs_ok_index: "vs_ok s \<Longrightarrow> vsix.index_ok (des_vsoas s) (des_vs_index s)"
  unfolding vs_ok_def by blast

lemma vs_ok_participant:
  "vs_ok s \<Longrightarrow> kget (des_vs_participant s) p = Some i \<longleftrightarrow>
     (\<exists>v. kget (des_vsoas s) i = Some v \<and> p \<in> set (participants v))"
  unfolding vs_ok_def by blast

lemma vs_ok_corp:
  "vs_ok s \<Longrightarrow> kget (des_vsoas s) i = Some v \<Longrightarrow> kget (des_vsoas s) j = Some w \<Longrightarrow>
     vs_oper v = vs_oper w \<Longrightarrow> vs_corp v = vs_corp w"
  unfolding vs_ok_def by blast

lemma vs_ok_cong:
  "des_vsoas t = des_vsoas s \<Longrightarrow> des_vs_index t = des_vs_index s \<Longrightarrow> des_vs_seq t = des_vs_seq s \<Longrightarrow>
   des_vs_participant t = des_vs_participant s \<Longrightarrow> vs_ok t = vs_ok s"
  by (simp only: vs_ok_def)

lemma fg_ok_grant:
  "fg_ok s \<Longrightarrow> kget (des_feegrants s) k = Some g \<Longrightarrow>
     fg_key g = k \<and> (khas (des_oa_index s) k \<or> khas (des_vs_index s) k)"
  unfolding fg_ok_def by blast

section \<open>Fee allowances\<close>

lemma RevokeFeeAllowance_effect:
  assumes "RevokeFeeAllowance s c g = Inr s'"
  shows "\<exists>F. s' = s\<lparr>des_feegrants := F\<rparr> \<and>
    (\<forall>k. kget F k = (if k = (c, g) then None else kget (des_feegrants s) k))"
proof (cases "khas (des_feegrants s) (c, g)")
  case True
  then show ?thesis using assms
    by (intro exI [of _ "kremove (des_feegrants s) (c, g)"])
      (auto simp: RevokeFeeAllowance_def kget_kremove split: if_splits)
next
  case False
  then show ?thesis using assms
    by (intro exI [of _ "des_feegrants s"])
      (auto simp: RevokeFeeAllowance_def khas_def split: if_splits)
qed

lemma GrantFeeAllowance_effect:
  assumes "GrantFeeAllowance CN s now c g mts e l p = Inr s'"
  shows "\<exists>fg. s' = s\<lparr>des_feegrants := kset (des_feegrants s) (c, g) fg\<rparr> \<and>
    fg_corp fg = c \<and> fg_grantee fg = g \<and> fg_msg_types fg = mts \<and> fg_expiration fg = e \<and>
    fg_spend_limit fg = l \<and> mts \<noteq> [] \<and> list_all msg_delegable mts \<and> \<not> expired e now"
  using assms by (auto simp: GrantFeeAllowance_def split: if_splits)

text \<open>What the four blocks of the state see of a fee-grant operation.\<close>

lemma fee_update_frame [simp]:
  "oa_ok (s\<lparr>des_feegrants := F\<rparr>) = oa_ok s"
  "vs_ok (s\<lparr>des_feegrants := F\<rparr>) = vs_ok s"
  "keys_ok (s\<lparr>des_feegrants := F\<rparr>) = keys_ok s"
  by (simp_all add: oa_ok_def vs_ok_def keys_ok_def)

lemma fg_ok_after_revoke:
  assumes "RevokeFeeAllowance s c g = Inr s'"
    and old: "\<And>k fg. kget (des_feegrants s) k = Some fg \<Longrightarrow> k \<noteq> (c, g) \<Longrightarrow>
      fg_key fg = k \<and> (khas (des_oa_index s) k \<or> khas (des_vs_index s) k)"
  shows "fg_ok s'"
proof -
  obtain F where "s' = s\<lparr>des_feegrants := F\<rparr>"
      "\<And>k. kget F k = (if k = (c, g) then None else kget (des_feegrants s) k)"
    using RevokeFeeAllowance_effect [OF assms(1)] by auto
  then show ?thesis using old by (auto simp: fg_ok_def split: if_splits)
qed

lemma fg_ok_after_grant:
  assumes "GrantFeeAllowance CN s now c g mts e l p = Inr s'"
    and old: "\<And>k fg. kget (des_feegrants s) k = Some fg \<Longrightarrow> k \<noteq> (c, g) \<Longrightarrow>
      fg_key fg = k \<and> (khas (des_oa_index s) k \<or> khas (des_vs_index s) k)"
    and live: "khas (des_oa_index s) (c, g) \<or> khas (des_vs_index s) (c, g)"
  shows "fg_ok s'"
proof -
  obtain fg where "s' = s\<lparr>des_feegrants := kset (des_feegrants s) (c, g) fg\<rparr>"
      "fg_corp fg = c" "fg_grantee fg = g"
    using GrantFeeAllowance_effect [OF assms(1)] by auto
  then show ?thesis using old live by (auto simp: fg_ok_def fg_key_def kget_kset split: if_splits)
qed

lemma fee_op_blocks:
  assumes "RevokeFeeAllowance s c g = Inr s' \<or> GrantFeeAllowance CN s now c g mts e l p = Inr s'"
  shows "oa_ok s' = oa_ok s" "vs_ok s' = vs_ok s" "keys_ok s' = keys_ok s"
  using assms RevokeFeeAllowance_effect [of s c g s'] GrantFeeAllowance_effect [of CN s now c g mts e l p s']
  by auto

section \<open>Operator authorizations\<close>

lemma getOAByCorpOp_cases:
  assumes "oa_ok s" "getOAByCorpOp s c g = Inr found"
  shows "(found = None \<and> kget (des_oa_index s) (c, g) = None) \<or>
    (\<exists>a. found = Some a \<and> kget (des_oa_index s) (c, g) = Some (oa_id a) \<and>
         kget (des_oas s) (oa_id a) = Some a \<and> oa_corp a = c \<and> oa_operator a = g)"
proof (cases "kget (des_oa_index s) (c, g)")
  case None
  then show ?thesis using assms(2) by (simp add: getOAByCorpOp_def)
next
  case (Some i)
  then obtain a where a: "kget (des_oas s) i = Some a" "oa_key a = (c, g)"
    by (rule oaix.index_sound [OF oa_ok_index [OF assms(1)]])
  then have "found = Some a" using assms(2) Some by (simp add: getOAByCorpOp_def)
  moreover have "oa_id a = i" using oa_ok_id [OF assms(1) a(1)] .
  ultimately show ?thesis using Some a by (auto simp: oa_key_def)
qed

lemma getOAByCorpOp_total: "oa_ok s \<Longrightarrow> \<exists>f. getOAByCorpOp s c g = Inr f"
  using oaix.index_sound [OF oa_ok_index, of s "(c, g)"]
  by (fastforce simp: getOAByCorpOp_def split: option.splits)

lemma put_oper_auth_frame [simp]:
  "des_vsoas (put_oper_auth s c m i) = des_vsoas s"
  "des_vs_index (put_oper_auth s c m i) = des_vs_index s"
  "des_vs_participant (put_oper_auth s c m i) = des_vs_participant s"
  "des_vs_seq (put_oper_auth s c m i) = des_vs_seq s"
  "des_feegrants (put_oper_auth s c m i) = des_feegrants s"
  "des_oa_index (put_oper_auth s c m i) = kset (des_oa_index s) (c, go_grantee m) i"
  "des_oa_seq (put_oper_auth s c m i) = des_oa_seq s"
  "des_usage (put_oper_auth s c m i) = kremove (des_usage s) i"
  by (simp_all add: put_oper_auth_def)

lemma put_oper_auth_oa_ok:
  assumes ok: "oa_ok s"
    and i: "(kget (des_oa_index s) (c, go_grantee m) = Some i) \<or>
            (kget (des_oa_index s) (c, go_grantee m) = None \<and> i = des_oa_seq s + 1)"
  shows "oa_ok (put_oper_auth (s\<lparr>des_oa_seq := max (des_oa_seq s) i\<rparr>) c m i)" (is "oa_ok ?t")
proof -
  have ix: "oaix.index_ok (des_oas s) (des_oa_index s)" by (rule oa_ok_index [OF ok])
  define a' where "a' = the (kget (des_oas ?t) i)"
  have a': "des_oas ?t = kset (des_oas s) i a'" "oa_id a' = i" "oa_key a' = (c, go_grantee m)"
    by (simp_all add: a'_def put_oper_auth_def oa_key_def)
  have new: "kget (des_oas s) i = None" if "kget (des_oa_index s) (c, go_grantee m) = None"
    using i that oa_ok_bound [OF ok, of i] by (cases "kget (des_oas s) i") auto
  have upd: "\<exists>w. kget (des_oas s) i = Some w \<and> oa_key w = (c, go_grantee m)"
    if "kget (des_oa_index s) (c, go_grantee m) = Some i"
    using oaix.index_sound [OF ix that] by blast
  have ix': "oaix.index_ok (kset (des_oas s) i a') (kset (des_oa_index s) (c, go_grantee m) i)"
  proof (cases "kget (des_oa_index s) (c, go_grantee m)")
    case None
    then show ?thesis using oaix.index_ok_insert [OF ix new [OF None], of a'] a' by simp
  next
    case (Some j)
    then have "kget (des_oa_index s) (c, go_grantee m) = Some i" using i by simp
    then show ?thesis using upd oaix.index_ok_update [OF ix, of i _ a'] a' by (auto simp: kset_same)
  qed
  have pos: "0 < i" using i upd oa_ok_bound [OF ok] by auto
  show ?thesis
  proof (rule oa_okI)
    fix j a assume "kget (des_oas ?t) j = Some a"
    then have j: "j = i \<and> a = a' \<or> kget (des_oas s) j = Some a"
      by (auto simp: a'(1) kget_kset split: if_splits)
    then show "oa_id a = j" using a'(2) oa_ok_id [OF ok] by auto
    show "0 < j \<and> j \<le> des_oa_seq ?t" using j pos oa_ok_bound [OF ok] by force
  next
    show "oaix.index_ok (des_oas ?t) (des_oa_index ?t)" using ix' a'(1) by simp
  next
    fix j u assume "kget (des_usage ?t) j = Some u"
    then have "kget (des_usage s) j = Some u" by (auto simp: kget_kremove split: if_splits)
    then show "ou_oa_id u = j \<and> khas (des_oas ?t) j" using oa_ok_usage [OF ok] by (simp add: a'(1))
  qed
qed

lemma GrantOA_state:
  assumes "oa_ok s" and "GrantOperatorAuthorization CN res now s m = Inr s'"
  shows "\<exists>c i. res (go_corporation m) = Some c \<and> \<not> khas (des_vs_index s) (c, go_grantee m) \<and>
    ((kget (des_oa_index s) (c, go_grantee m) = Some i) \<or>
     (kget (des_oa_index s) (c, go_grantee m) = None \<and> i = des_oa_seq s + 1)) \<and>
    (let t = put_oper_auth (s\<lparr>des_oa_seq := max (des_oa_seq s) i\<rparr>) c m i in
       if go_with_feegrant m
       then GrantFeeAllowance CN t now c (go_grantee m) (go_msg_types m) (go_expiration m)
              (go_fee_limit m) (go_fee_period m) = Inr s'
       else RevokeFeeAllowance t c (go_grantee m) = Inr s')"
proof -
  obtain c found where c: "res (go_corporation m) = Some c"
      "getOAByCorpOp s c (go_grantee m) = Inr found" "\<not> khas (des_vs_index s) (c, go_grantee m)"
    and r: "(let (i, s1) = (case found of Some a \<Rightarrow> (oa_id a, s) | None \<Rightarrow> nextOAID s);
           s2 = put_oper_auth s1 c m i
       in if \<not> go_with_feegrant m then RevokeFeeAllowance s2 c (go_grantee m)
          else GrantFeeAllowance CN s2 now c (go_grantee m) (go_msg_types m) (go_expiration m)
                 (go_fee_limit m) (go_fee_period m)) = Inr s'"
    using assms(2)
    by (auto simp: GrantOperatorAuthorization_def bindE_ok_iff optE_ok_iff split: if_splits)
  show ?thesis
  proof (cases found)
    case None
    then have "kget (des_oa_index s) (c, go_grantee m) = None"
      using getOAByCorpOp_cases [OF assms(1) c(2)] by auto
    then show ?thesis using None c r
      by (intro exI [of _ c] exI [of _ "des_oa_seq s + 1"]) (auto simp: nextOAID_def Let_def)
  next
    case (Some a)
    then have a: "kget (des_oa_index s) (c, go_grantee m) = Some (oa_id a)"
        "kget (des_oas s) (oa_id a) = Some a"
      using getOAByCorpOp_cases [OF assms(1) c(2)] by auto
    then have "oa_id a \<le> des_oa_seq s" using oa_ok_bound [OF assms(1)] by blast
    then have "s\<lparr>des_oa_seq := max (des_oa_seq s) (oa_id a)\<rparr> = s" by simp
    then show ?thesis using Some c r a
      by (intro exI [of _ c] exI [of _ "oa_id a"]) (auto simp: Let_def)
  qed
qed

lemma de_inv_grant_oa:
  assumes inv: "de_inv s" and res: "corp_resolver res"
    and ok: "GrantOperatorAuthorization CN res now s m = Inr s'"
  shows "de_inv s'"
proof -
  let ?k = "\<lambda>c. (c, go_grantee m)"
  have oa: "oa_ok s" and vs: "vs_ok s" and ks: "keys_ok s" and fg: "fg_ok s"
    using inv by (simp_all add: de_inv_def)
  obtain c i where c: "res (go_corporation m) = Some c" "\<not> khas (des_vs_index s) (?k c)"
    and i: "kget (des_oa_index s) (?k c) = Some i \<or>
            kget (des_oa_index s) (?k c) = None \<and> i = des_oa_seq s + 1"
    and r: "let t = put_oper_auth (s\<lparr>des_oa_seq := max (des_oa_seq s) i\<rparr>) c m i in
       if go_with_feegrant m
       then GrantFeeAllowance CN t now c (go_grantee m) (go_msg_types m) (go_expiration m)
              (go_fee_limit m) (go_fee_period m) = Inr s'
       else RevokeFeeAllowance t c (go_grantee m) = Inr s'"
    using GrantOA_state [OF oa ok] by blast
  define t where "t = put_oper_auth (s\<lparr>des_oa_seq := max (des_oa_seq s) i\<rparr>) c m i"
  have "0 < c" using corp_resolver.resolve_pos [OF res c(1)] .
  have toa: "oa_ok t" unfolding t_def by (rule put_oper_auth_oa_ok [OF oa i])
  have tvs: "vs_ok t" using vs vs_ok_cong [of t s] by (simp add: t_def)
  have tks: "keys_ok t" using ks c(2) \<open>0 < c\<close> by (auto simp: t_def keys_ok_def)
  have old: "fg_key g = k \<and> (khas (des_oa_index t) k \<or> khas (des_vs_index t) k)"
    if "kget (des_feegrants t) k = Some g" for k g
    using fg_ok_grant [OF fg, of k g] that by (auto simp: t_def)
  have live: "khas (des_oa_index t) (?k c)" by (simp add: t_def)
  show ?thesis
  proof (cases "go_with_feegrant m")
    case True
    then have g: "GrantFeeAllowance CN t now c (go_grantee m) (go_msg_types m) (go_expiration m)
              (go_fee_limit m) (go_fee_period m) = Inr s'" using r by (simp add: t_def)
    have "fg_ok s'" using old live by (intro fg_ok_after_grant [OF g]) auto
    then show ?thesis using toa tvs tks fee_op_blocks [OF disjI2 [OF g]] by (simp add: de_inv_def)
  next
    case False
    then have g: "RevokeFeeAllowance t c (go_grantee m) = Inr s'" using r by (simp add: t_def)
    have "fg_ok s'" using old by (intro fg_ok_after_revoke [OF g]) auto
    then show ?thesis using toa tvs tks fee_op_blocks [OF disjI1 [OF g]] by (simp add: de_inv_def)
  qed
qed

lemma de_inv_revoke_oa:
  assumes inv: "de_inv s" and ok: "RevokeOperatorAuthorization res now s m = Inr s'"
  shows "de_inv s'"
proof -
  have oa: "oa_ok s" and vs: "vs_ok s" and ks: "keys_ok s" and fg: "fg_ok s"
    using inv by (simp_all add: de_inv_def)
  obtain c found where f: "getOAByCorpOp s c (ro_grantee m) = Inr found"
    and r: "(case found of None \<Rightarrow> Inl De_OA_Not_Found | Some a \<Rightarrow>
         RevokeFeeAllowance
           (s\<lparr>des_oas := kremove (des_oas s) (oa_id a),
              des_oa_index := kremove (des_oa_index s) (c, ro_grantee m),
              des_usage := kremove (des_usage s) (oa_id a)\<rparr>) c (ro_grantee m)) = Inr s'"
    using ok by (auto simp: RevokeOperatorAuthorization_def bindE_ok_iff)
  obtain a where "found = Some a" using r by (cases found) auto
  then have a: "kget (des_oas s) (oa_id a) = Some a" "oa_key a = (c, ro_grantee m)"
    using getOAByCorpOp_cases [OF oa f] by (auto simp: oa_key_def)
  define t where "t = s\<lparr>des_oas := kremove (des_oas s) (oa_id a),
              des_oa_index := kremove (des_oa_index s) (c, ro_grantee m),
              des_usage := kremove (des_usage s) (oa_id a)\<rparr>"
  have g: "RevokeFeeAllowance t c (ro_grantee m) = Inr s'"
    using r \<open>found = Some a\<close> by (simp add: t_def)
  have ixt: "oaix.index_ok (des_oas t) (des_oa_index t)"
    using oaix.index_ok_delete [OF oa_ok_index [OF oa] a(1)] a(2) by (simp add: t_def)
  have toa: "oa_ok t"
  proof (rule oa_okI [OF _ _ ixt])
    fix j x assume "kget (des_oas t) j = Some x"
    then have j: "kget (des_oas s) j = Some x" by (auto simp: t_def kget_kremove split: if_splits)
    show "oa_id x = j" by (rule oa_ok_id [OF oa j])
    show "0 < j \<and> j \<le> des_oa_seq t" using oa_ok_bound [OF oa j] by (simp add: t_def)
  next
    fix j u assume "kget (des_usage t) j = Some u"
    then show "ou_oa_id u = j \<and> khas (des_oas t) j" using oa_ok_usage [OF oa]
      by (auto simp: t_def kget_kremove split: if_splits)
  qed
  have tvs: "vs_ok t" using vs vs_ok_cong [of t s] by (simp add: t_def)
  have tks: "keys_ok t" using ks by (auto simp: t_def keys_ok_def)
  have "fg_ok s'"
    using fg_ok_grant [OF fg] by (intro fg_ok_after_revoke [OF g]) (auto simp: t_def)
  then show ?thesis using toa tvs tks fee_op_blocks [OF disjI1 [OF g]] by (simp add: de_inv_def)
qed

section \<open>Service-operator authorizations\<close>

lemma getVSOAByCorpOp_cases:
  assumes "vs_ok s" "getVSOAByCorpOp s c g = Inr found"
  shows "(found = None \<and> kget (des_vs_index s) (c, g) = None) \<or>
    (\<exists>v. found = Some v \<and> kget (des_vs_index s) (c, g) = Some (vs_id v) \<and>
         kget (des_vsoas s) (vs_id v) = Some v \<and> vs_corp v = c \<and> vs_oper v = g)"
proof (cases "kget (des_vs_index s) (c, g)")
  case None
  then show ?thesis using assms(2) by (simp add: getVSOAByCorpOp_def)
next
  case (Some i)
  then obtain a where a: "kget (des_vsoas s) i = Some a" "vs_key a = (c, g)"
    by (rule vsix.index_sound [OF vs_ok_index [OF assms(1)]])
  then have "found = Some a" using assms(2) Some by (simp add: getVSOAByCorpOp_def)
  moreover have "vs_id a = i" using vs_ok_id [OF assms(1) a(1)] .
  ultimately show ?thesis using Some a by (auto simp: vs_key_def)
qed

text \<open>Which participant holds a record in which authorization.\<close>

lemma vs_participant_unique:
  assumes "vs_ok s" "kget (des_vsoas s) i = Some v" "kget (des_vsoas s) j = Some w"
    "p \<in> set (participants v)" "p \<in> set (participants w)"
  shows "i = j"
  using assms vs_ok_participant [OF assms(1), of p] by (metis option.inject)

lemma recompute_only_fees:
  assumes "recomputeFeeAllowance CN now s v = Inr s'"
  obtains F where "s' = s\<lparr>des_feegrants := F\<rparr>"
proof -
  obtain e mts where em: "recompute_scan now (vs_records v) = (e, mts)" by fastforce
  have "RevokeFeeAllowance s (vs_corp v) (vs_oper v) = Inr s' \<or>
      GrantFeeAllowance CN s now (vs_corp v) (vs_oper v) mts e [] None = Inr s'"
    using assms em by (simp add: recomputeFeeAllowance_def split: if_splits)
  then show thesis
  proof
    assume "RevokeFeeAllowance s (vs_corp v) (vs_oper v) = Inr s'"
    then show thesis using RevokeFeeAllowance_effect that by blast
  next
    assume "GrantFeeAllowance CN s now (vs_corp v) (vs_oper v) mts e [] None = Inr s'"
    then show thesis using GrantFeeAllowance_effect that by blast
  qed
qed

lemma recompute_blocks:
  assumes "recomputeFeeAllowance CN now s v = Inr s'"
  shows "oa_ok s' = oa_ok s" "vs_ok s' = vs_ok s" "keys_ok s' = keys_ok s"
  using recompute_only_fees [OF assms] by (metis fee_update_frame)+

lemma recompute_Nil: "recomputeFeeAllowance CN now s v = RevokeFeeAllowance s (vs_corp v) (vs_oper v)"
  if "vs_records v = []"
  using that by (simp add: recomputeFeeAllowance_def recompute_scan_def)

lemma fg_ok_after_recompute:
  assumes "recomputeFeeAllowance CN now s v = Inr s'"
    and old: "\<And>k fg. kget (des_feegrants s) k = Some fg \<Longrightarrow> k \<noteq> vs_key v \<Longrightarrow>
      fg_key fg = k \<and> (khas (des_oa_index s) k \<or> khas (des_vs_index s) k)"
    and live: "vs_records v \<noteq> [] \<Longrightarrow> khas (des_vs_index s) (vs_key v)"
  shows "fg_ok s'"
proof -
  obtain e mts where em: "recompute_scan now (vs_records v) = (e, mts)" by fastforce
  show ?thesis
  proof (cases e)
    case None
    then have "RevokeFeeAllowance s (vs_corp v) (vs_oper v) = Inr s'"
      using assms(1) em by (simp add: recomputeFeeAllowance_def)
    then show ?thesis using old by (rule fg_ok_after_revoke) (auto simp: vs_key_def)
  next
    case (Some t)
    then have g: "GrantFeeAllowance CN s now (vs_corp v) (vs_oper v) mts e [] None = Inr s'"
      using assms(1) em by (simp add: recomputeFeeAllowance_def)
    have "vs_records v \<noteq> []" using em Some by (auto simp: recompute_scan_def)
    then show ?thesis using old live by (intro fg_ok_after_grant [OF g]) (auto simp: vs_key_def)
  qed
qed

definition add_record :: "de_state \<Rightarrow> nat \<Rightarrow> string \<Rightarrow> vs_auth \<Rightarrow> pa_record \<Rightarrow> de_state" where
  "add_record s c oper v r =
     (let v' = v\<lparr>vs_records := vs_records v @ [r]\<rparr> in
      s\<lparr>des_vsoas := kset (des_vsoas s) (vs_id v') v',
        des_vs_index := kset (des_vs_index s) (c, oper) (vs_id v'),
        des_vs_participant := kset (des_vs_participant s) (pr_participant r) (vs_id v')\<rparr>)"

lemma GrantVS_state:
  assumes "vs_ok s" and "GrantVSOperatorAuthorization CN now s c oper r = Inr s'"
  shows "\<exists>v. vs_corp v = c \<and> vs_oper v = oper \<and>
    (kget (des_vs_index s) (c, oper) = Some (vs_id v) \<and> kget (des_vsoas s) (vs_id v) = Some v \<or>
     kget (des_vs_index s) (c, oper) = None \<and> vs_id v = des_vs_seq s + 1 \<and> vs_records v = []) \<and>
    \<not> khas (des_vs_participant s) (pr_participant r) \<and> \<not> khas (des_oa_index s) (c, oper) \<and>
    \<not> list_ex (\<lambda>v. vs_oper v = oper \<and> vs_corp v \<noteq> c) (walk (des_vsoas s)) \<and>
    recomputeFeeAllowance CN now
      (add_record (s\<lparr>des_vs_seq := max (des_vs_seq s) (vs_id v)\<rparr>) c oper v r)
      (v\<lparr>vs_records := vs_records v @ [r]\<rparr>) = Inr s'"
proof -
  obtain found where g: "getVSOAByCorpOp s c oper = Inr found"
    and pre: "\<not> khas (des_vs_participant s) (pr_participant r)" "\<not> khas (des_oa_index s) (c, oper)"
      "\<not> list_ex (\<lambda>v. vs_oper v = oper \<and> vs_corp v \<noteq> c) (walk (des_vsoas s))"
    and rest: "(let (v, s1) = (case found of
                Some v \<Rightarrow> (v, s)
              | None \<Rightarrow> (let (i, s1) = nextVSOAID s in
                    (\<lparr>vs_id = i, vs_corp = c, vs_oper = oper, vs_records = []\<rparr>, s1)));
            v' = v\<lparr>vs_records := vs_records v @ [r]\<rparr>;
            s2 = s1\<lparr>des_vsoas := kset (des_vsoas s1) (vs_id v') v',
                     des_vs_index := kset (des_vs_index s1) (c, oper) (vs_id v'),
                     des_vs_participant := kset (des_vs_participant s1) (pr_participant r) (vs_id v')\<rparr>
        in recomputeFeeAllowance CN now s2 v') = Inr s'"
    using assms(2)
    unfolding GrantVSOperatorAuthorization_def if_Inl_ok_iff bindE_ok_iff by blast
  show ?thesis
  proof (cases found)
    case None
    then have k: "kget (des_vs_index s) (c, oper) = None"
      using getVSOAByCorpOp_cases [OF assms(1) g] by auto
    show ?thesis
      using rest None pre k
      by (intro exI [of _ "\<lparr>vs_id = des_vs_seq s + 1, vs_corp = c, vs_oper = oper, vs_records = []\<rparr>"])
        (simp add: nextVSOAID_def Let_def add_record_def)
  next
    case (Some v)
    then have v: "kget (des_vs_index s) (c, oper) = Some (vs_id v)"
        "kget (des_vsoas s) (vs_id v) = Some v" "vs_corp v = c" "vs_oper v = oper"
      using getVSOAByCorpOp_cases [OF assms(1) g] by auto
    then have "s\<lparr>des_vs_seq := max (des_vs_seq s) (vs_id v)\<rparr> = s"
      using vs_ok_bound [OF assms(1) v(2)] by simp
    then show ?thesis using rest Some pre v
      by (intro exI [of _ v]) (simp add: Let_def add_record_def)
  qed
qed

lemma add_record_vs_ok:
  assumes ok: "vs_ok s"
    and v: "vs_corp v = c" "vs_oper v = oper"
    and i: "kget (des_vs_index s) (c, oper) = Some (vs_id v) \<and> kget (des_vsoas s) (vs_id v) = Some v \<or>
     kget (des_vs_index s) (c, oper) = None \<and> vs_id v = des_vs_seq s + 1 \<and> vs_records v = []"
    and p: "\<not> khas (des_vs_participant s) (pr_participant r)"
    and one: "\<not> list_ex (\<lambda>v. vs_oper v = oper \<and> vs_corp v \<noteq> c) (walk (des_vsoas s))"
  shows "vs_ok (add_record (s\<lparr>des_vs_seq := max (des_vs_seq s) (vs_id v)\<rparr>) c oper v r)" (is "vs_ok ?t")
proof -
  let ?i = "vs_id v"
  define v' where "v' = v\<lparr>vs_records := vs_records v @ [r]\<rparr>"
  have t: "des_vsoas ?t = kset (des_vsoas s) ?i v'" "des_vs_index ?t = kset (des_vs_index s) (c, oper) ?i"
      "des_vs_participant ?t = kset (des_vs_participant s) (pr_participant r) ?i"
      "des_vs_seq ?t = max (des_vs_seq s) ?i"
    by (simp_all add: add_record_def v'_def)
  have v': "vs_id v' = ?i" "vs_key v' = (c, oper)" "participants v' = participants v @ [pr_participant r]"
      "vs_corp v' = c" "vs_oper v' = oper" "vs_records v' \<noteq> []"
    by (simp_all add: v'_def vs_key_def participants_def v)
  have old: "kget (des_vsoas s) ?i = Some v \<or> kget (des_vsoas s) ?i = None \<and> participants v = []"
    using i vs_ok_bound [OF ok, of ?i] by (cases "kget (des_vsoas s) ?i") (auto simp: participants_def)
  have fresh: "pr_participant r \<notin> set (participants w)" if "kget (des_vsoas s) j = Some w" for j w
    using vs_ok_participant [OF ok, of "pr_participant r" j] p that by (auto simp: khas_def)
  have pos: "0 < ?i" using i vs_ok_bound [OF ok] by auto
  have corp: "vs_corp w = c" if "kget (des_vsoas s) j = Some w" "vs_oper w = oper" for j w
    using one that by (auto simp: list_ex_iff walk_mem_iff)
  show ?thesis
  proof (rule vs_okI)
    fix j w assume j: "kget (des_vsoas ?t) j = Some w"
    then have w: "j = ?i \<and> w = v' \<or> j \<noteq> ?i \<and> kget (des_vsoas s) j = Some w"
      by (auto simp: t(1) kget_kset split: if_splits)
    then show "vs_id w = j" using v'(1) vs_ok_id [OF ok] by auto
    show "0 < j \<and> j \<le> des_vs_seq ?t" using w pos vs_ok_bound [OF ok] t(4) by force
    have "distinct (participants v')"
      using old fresh vs_ok_records [OF ok] v'(3) by auto
    then show "vs_records w \<noteq> [] \<and> distinct (participants w)"
      using w v'(6) vs_ok_records [OF ok] by blast
    fix k u assume k: "kget (des_vsoas ?t) k = Some u" and eq: "vs_oper w = vs_oper u"
    then have "k = ?i \<and> u = v' \<or> kget (des_vsoas s) k = Some u"
      by (auto simp: t(1) kget_kset split: if_splits)
    then show "vs_corp w = vs_corp u"
      using w eq v'(4,5) corp vs_ok_corp [OF ok] by metis
  next
    have ix: "vsix.index_ok (des_vsoas s) (des_vs_index s)" by (rule vs_ok_index [OF ok])
    show "vsix.index_ok (des_vsoas ?t) (des_vs_index ?t)"
    proof (cases "kget (des_vsoas s) ?i")
      case None
      then have "kget (des_vs_index s) (vs_key v') = None" using i v'(2) by auto
      then show ?thesis using vsix.index_ok_insert [OF ix None, where v = v'] t v'(2) by simp
    next
      case (Some w)
      then have "w = v" "kget (des_vs_index s) (c, oper) = Some ?i"
        using i vs_ok_bound [OF ok Some] Some by auto
      moreover have "vs_key v' = vs_key v" using v v'(2) by (simp add: vs_key_def)
      ultimately show ?thesis using vsix.index_ok_update [OF ix Some, of v'] t by (simp add: kset_same)
    qed
  next
    fix q j
    show "kget (des_vs_participant ?t) q = Some j \<longleftrightarrow>
        (\<exists>w. kget (des_vsoas ?t) j = Some w \<and> q \<in> set (participants w))"
    proof (cases "q = pr_participant r")
      case True
      then show ?thesis using fresh v'(3) by (auto simp: t kget_kset split: if_splits)
    next
      case False
      have "q \<in> set (participants v') \<longleftrightarrow> q \<in> set (participants v)" using False v'(3) by simp
      then show ?thesis using False old vs_ok_participant [OF ok, of q j]
        by (auto simp: t kget_kset split: if_splits)
    qed
  qed
qed

lemma add_record_frame [simp]:
  "des_oas (add_record s c oper v r) = des_oas s"
  "des_oa_index (add_record s c oper v r) = des_oa_index s"
  "des_oa_seq (add_record s c oper v r) = des_oa_seq s"
  "des_usage (add_record s c oper v r) = des_usage s"
  "des_feegrants (add_record s c oper v r) = des_feegrants s"
  "des_vs_index (add_record s c oper v r) = kset (des_vs_index s) (c, oper) (vs_id v)"
  by (simp_all add: add_record_def)

lemma de_inv_grant_vs:
  assumes inv: "de_inv s" and c: "0 < c"
    and ok: "GrantVSOperatorAuthorization CN now s c oper r = Inr s'"
  shows "de_inv s'"
proof -
  have oa: "oa_ok s" and vs: "vs_ok s" and ks: "keys_ok s" and fg: "fg_ok s"
    using inv by (simp_all add: de_inv_def)
  obtain v where v: "vs_corp v = c" "vs_oper v = oper"
    and i: "kget (des_vs_index s) (c, oper) = Some (vs_id v) \<and> kget (des_vsoas s) (vs_id v) = Some v \<or>
     kget (des_vs_index s) (c, oper) = None \<and> vs_id v = des_vs_seq s + 1 \<and> vs_records v = []"
    and pre: "\<not> khas (des_vs_participant s) (pr_participant r)" "\<not> khas (des_oa_index s) (c, oper)"
    "\<not> list_ex (\<lambda>v. vs_oper v = oper \<and> vs_corp v \<noteq> c) (walk (des_vsoas s))"
    and g: "recomputeFeeAllowance CN now
      (add_record (s\<lparr>des_vs_seq := max (des_vs_seq s) (vs_id v)\<rparr>) c oper v r)
      (v\<lparr>vs_records := vs_records v @ [r]\<rparr>) = Inr s'"
    using GrantVS_state [OF vs ok] by blast
  define t where "t = add_record (s\<lparr>des_vs_seq := max (des_vs_seq s) (vs_id v)\<rparr>) c oper v r"
  have toa: "oa_ok t" using oa oa_ok_cong [of t s] by (simp add: t_def)
  have tvs: "vs_ok t" unfolding t_def by (rule add_record_vs_ok [OF vs v i pre(1,3)])
  have tks: "keys_ok t" using ks c pre(2) by (auto simp: t_def keys_ok_def)
  have "fg_ok s'"
    using fg_ok_grant [OF fg] v
    by (intro fg_ok_after_recompute [OF g]) (auto simp: vs_key_def)
  then show ?thesis using toa tvs tks recompute_blocks [OF g] by (simp add: de_inv_def t_def)
qed

lemma participants_filter:
  "participants (v\<lparr>vs_records := filter (\<lambda>r. pr_participant r \<noteq> p) (vs_records v)\<rparr>) =
     filter (\<lambda>q. q \<noteq> p) (participants v)"
  by (simp add: participants_def filter_map comp_def)

text \<open>Removing the record of a participant, with the empty authorization dropped.\<close>

definition drop_record :: "de_state \<Rightarrow> nat \<Rightarrow> nat \<Rightarrow> vs_auth \<Rightarrow> de_state" where
  "drop_record s p i v' =
     (let s1 = s\<lparr>des_vs_participant := kremove (des_vs_participant s) p\<rparr> in
      if vs_records v' = []
      then s1\<lparr>des_vsoas := kremove (des_vsoas s1) i,
              des_vs_index := kremove (des_vs_index s1) (vs_corp v', vs_oper v')\<rparr>
      else s1\<lparr>des_vsoas := kset (des_vsoas s1) i v'\<rparr>)"

lemma drop_record_frame [simp]:
  "des_oas (drop_record s p i v') = des_oas s"
  "des_oa_index (drop_record s p i v') = des_oa_index s"
  "des_oa_seq (drop_record s p i v') = des_oa_seq s"
  "des_usage (drop_record s p i v') = des_usage s"
  "des_feegrants (drop_record s p i v') = des_feegrants s"
  "des_vs_seq (drop_record s p i v') = des_vs_seq s"
  "des_vs_participant (drop_record s p i v') = kremove (des_vs_participant s) p"
  by (simp_all add: drop_record_def Let_def)

lemma drop_record_vs_ok:
  assumes ok: "vs_ok s" and v: "kget (des_vsoas s) i = Some v" and p: "p \<in> set (participants v)"
    and v': "v' = v\<lparr>vs_records := filter (\<lambda>r. pr_participant r \<noteq> p) (vs_records v)\<rparr>"
  shows "vs_ok (drop_record s p i v')" (is "vs_ok ?t")
proof -
  have part: "participants v' = filter (\<lambda>q. q \<noteq> p) (participants v)"
    unfolding v' by (rule participants_filter)
  have key: "vs_key v' = vs_key v" "vs_corp v' = vs_corp v" "vs_oper v' = vs_oper v" "vs_id v' = vs_id v"
    by (simp_all add: v' vs_key_def)
  have ix: "vsix.index_ok (des_vsoas s) (des_vs_index s)" by (rule vs_ok_index [OF ok])
  have get: "kget (des_vsoas ?t) j = (if j = i then (if vs_records v' = [] then None else Some v')
      else kget (des_vsoas s) j)" for j
    by (simp add: drop_record_def Let_def kget_kset kget_kremove)
  have nil: "vs_records v' = [] \<longleftrightarrow> participants v' = []" by (simp add: participants_def)
  have other: "p \<notin> set (participants w)" if "kget (des_vsoas s) j = Some w" "j \<noteq> i" for j w
    using vs_participant_unique [OF ok that(1) v _ p] that(2) by blast
  have w: "j = i \<and> w = v' \<and> vs_records v' \<noteq> [] \<or> j \<noteq> i \<and> kget (des_vsoas s) j = Some w"
    if "kget (des_vsoas ?t) j = Some w" for j w
    using that by (auto simp: get split: if_splits)
  show ?thesis
  proof (rule vs_okI)
    fix j w assume "kget (des_vsoas ?t) j = Some w"
    note j = w [OF this]
    show "vs_id w = j" using j key(4) vs_ok_id [OF ok v] vs_ok_id [OF ok, of j w] by auto
    show "0 < j \<and> j \<le> des_vs_seq ?t"
      using j vs_ok_bound [OF ok v] vs_ok_bound [OF ok, of j w] by auto
    show "vs_records w \<noteq> [] \<and> distinct (participants w)"
      using j part vs_ok_records [OF ok v] vs_ok_records [OF ok, of j w] by auto
    fix k u assume "kget (des_vsoas ?t) k = Some u" and eq: "vs_oper w = vs_oper u"
    then show "vs_corp w = vs_corp u"
      using j w key v vs_ok_corp [OF ok] by metis
  next
    show "vsix.index_ok (des_vsoas ?t) (des_vs_index ?t)"
    proof (cases "vs_records v' = []")
      case True
      then show ?thesis using vsix.index_ok_delete [OF ix v] key
        by (simp add: drop_record_def Let_def vs_key_def)
    next
      case False
      then show ?thesis using vsix.index_ok_update [OF ix v key(1)]
        by (simp add: drop_record_def Let_def)
    qed
  next
    fix q j
    show "kget (des_vs_participant ?t) q = Some j \<longleftrightarrow>
        (\<exists>w. kget (des_vsoas ?t) j = Some w \<and> q \<in> set (participants w))"
    proof (cases "q = p")
      case True
      then show ?thesis using other part by (auto dest!: w)
    next
      case False
      have same: "q \<in> set (participants v') \<longleftrightarrow> q \<in> set (participants v)" using False part by simp
      have "(\<exists>w. kget (des_vsoas ?t) j = Some w \<and> q \<in> set (participants w)) \<longleftrightarrow>
          (\<exists>w. kget (des_vsoas s) j = Some w \<and> q \<in> set (participants w))"
      proof (cases "j = i")
        case True
        then show ?thesis using same v nil by (cases "participants v'") (auto simp: get)
      qed (simp add: get)
      then show ?thesis using False vs_ok_participant [OF ok, of q j] by simp
    qed
  qed
qed

lemma RevokeVS_state:
  assumes "vs_ok s" "RevokeVSOperatorAuthorization CN now s p = Inr s'"
  shows "s' = s \<and> kget (des_vs_participant s) p = None \<or>
    (\<exists>i v. kget (des_vsoas s) i = Some v \<and> p \<in> set (participants v) \<and>
      (let v' = v\<lparr>vs_records := filter (\<lambda>r. pr_participant r \<noteq> p) (vs_records v)\<rparr> in
       recomputeFeeAllowance CN now (drop_record s p i v') v' = Inr s'))"
proof (cases "kget (des_vs_participant s) p")
  case None
  then show ?thesis using assms(2) by (simp add: RevokeVSOperatorAuthorization_def)
next
  case (Some i)
  then obtain v where v: "kget (des_vsoas s) i = Some v" "p \<in> set (participants v)"
    using vs_ok_participant [OF assms(1), of p i] by blast
  then show ?thesis using assms(2) Some
    by (intro disjI2 exI [of _ i] exI [of _ v])
      (simp add: RevokeVSOperatorAuthorization_def drop_record_def Let_def)
qed

lemma de_inv_revoke_vs:
  assumes inv: "de_inv s" and ok: "RevokeVSOperatorAuthorization CN now s p = Inr s'"
  shows "de_inv s'"
proof -
  have oa: "oa_ok s" and vs: "vs_ok s" and ks: "keys_ok s" and fg: "fg_ok s"
    using inv by (simp_all add: de_inv_def)
  consider "s' = s" | i v v' where "kget (des_vsoas s) i = Some v" "p \<in> set (participants v)"
      "v' = v\<lparr>vs_records := filter (\<lambda>r. pr_participant r \<noteq> p) (vs_records v)\<rparr>"
      "recomputeFeeAllowance CN now (drop_record s p i v') v' = Inr s'"
    using RevokeVS_state [OF vs ok] by (auto simp: Let_def)
  then show ?thesis
  proof cases
    case 1
    then show ?thesis using inv by simp
  next
    case 2
    define t where "t = drop_record s p i v'"
    have toa: "oa_ok t" using oa oa_ok_cong [of t s] by (simp add: t_def)
    have tvs: "vs_ok t" unfolding t_def by (rule drop_record_vs_ok [OF vs 2(1-3)])
    have keep: "khas (des_vs_index t) k \<longleftrightarrow> khas (des_vs_index s) k \<and> (k = vs_key v' \<longrightarrow> vs_records v' \<noteq> [])"
      for k
    proof -
      have "kget (des_vs_index s) (vs_key v) = Some i"
        by (rule vsix.index_lookup [OF vs_ok_index [OF vs] 2(1)])
      then show ?thesis using 2(3)
        by (auto simp: t_def drop_record_def Let_def vs_key_def khas_def kget_kremove)
    qed
    have tks: "keys_ok t" using ks keep by (auto simp: t_def keys_ok_def)
    have "khas (des_vs_index s) (vs_key v')"
      using vsix.index_lookup [OF vs_ok_index [OF vs] 2(1)] 2(3) by (simp add: khas_def vs_key_def)
    then have "fg_ok s'"
      using fg_ok_grant [OF fg] keep
      by (intro fg_ok_after_recompute [OF 2(4)]) (auto simp: t_def [symmetric], auto simp: t_def)
    then show ?thesis using toa tvs tks recompute_blocks [OF 2(4)] by (simp add: de_inv_def t_def)
  qed
qed

text \<open>Rewriting records in place keeps the participants.\<close>

lemma records_update_vs_ok:
  assumes ok: "vs_ok s" and v: "kget (des_vsoas s) i = Some v"
    and v': "vs_key v' = vs_key v" "vs_id v' = vs_id v" "participants v' = participants v"
  shows "vs_ok (s\<lparr>des_vsoas := kset (des_vsoas s) i v'\<rparr>)" (is "vs_ok ?t")
proof -
  have ne: "vs_records v' \<noteq> []"
    using vs_ok_records [OF ok v] v'(3) by (simp add: participants_def) (metis map_is_Nil_conv)
  have w: "j = i \<and> w = v' \<or> j \<noteq> i \<and> kget (des_vsoas s) j = Some w"
    if "kget (des_vsoas ?t) j = Some w" for j w
    using that by (auto simp: kget_kset split: if_splits)
  have co: "vs_corp v' = vs_corp v" "vs_oper v' = vs_oper v" using v'(1) by (simp_all add: vs_key_def)
  show ?thesis
  proof (rule vs_okI)
    fix j w assume "kget (des_vsoas ?t) j = Some w"
    note j = w [OF this]
    show "vs_id w = j" using j v'(2) vs_ok_id [OF ok v] vs_ok_id [OF ok, of j w] by auto
    show "0 < j \<and> j \<le> des_vs_seq ?t"
      using j vs_ok_bound [OF ok v] vs_ok_bound [OF ok, of j w] by auto
    show "vs_records w \<noteq> [] \<and> distinct (participants w)"
      using j ne v'(3) vs_ok_records [OF ok v] vs_ok_records [OF ok, of j w] by auto
    fix k u assume "kget (des_vsoas ?t) k = Some u" and eq: "vs_oper w = vs_oper u"
    then show "vs_corp w = vs_corp u"
      using j w co v vs_ok_corp [OF ok] by metis
  next
    show "vsix.index_ok (des_vsoas ?t) (des_vs_index ?t)"
      using vsix.index_ok_update [OF vs_ok_index [OF ok] v v'(1)] by simp
  next
    fix q j
    show "kget (des_vs_participant ?t) q = Some j \<longleftrightarrow>
        (\<exists>w. kget (des_vsoas ?t) j = Some w \<and> q \<in> set (participants w))"
      using vs_ok_participant [OF ok, of q j] v v'(3) by (cases "j = i") auto
  qed
qed

lemma vsoas_update_frame:
  "oa_ok (s\<lparr>des_vsoas := V\<rparr>) = oa_ok s" "keys_ok (s\<lparr>des_vsoas := V\<rparr>) = keys_ok s"
  by (simp_all add: oa_ok_def keys_ok_def)

lemma participants_update_first:
  assumes "\<And>r. pr_participant (f r) = pr_participant r"
  shows "participants (v\<lparr>vs_records := update_first P f (vs_records v)\<rparr>) = participants v"
  using assms by (simp add: participants_def map_update_first)

lemma de_inv_update_vs:
  assumes inv: "de_inv s" and ok: "UpdateVSOperatorAuthorizationExpiration CN now s p e = Inr s'"
  shows "de_inv s'"
proof (cases "kget (des_vs_participant s) p")
  case None
  then show ?thesis using ok inv by (simp add: UpdateVSOperatorAuthorizationExpiration_def)
next
  case (Some i)
  have oa: "oa_ok s" and vs: "vs_ok s" and ks: "keys_ok s" and fg: "fg_ok s"
    using inv by (simp_all add: de_inv_def)
  obtain v where v: "kget (des_vsoas s) i = Some v" using vs_ok_participant [OF vs] Some by blast
  define v' where "v' = v\<lparr>vs_records := update_first (\<lambda>r. pr_participant r = p)
                              (pr_expiration_update (\<lambda>_. Some e)) (vs_records v)\<rparr>"
  define t where "t = s\<lparr>des_vsoas := kset (des_vsoas s) i v'\<rparr>"
  have g: "recomputeFeeAllowance CN now t v' = Inr s'"
    using ok Some v by (simp add: UpdateVSOperatorAuthorizationExpiration_def Let_def v'_def t_def)
  have p: "participants v' = participants v"
    unfolding v'_def by (rule participants_update_first) simp
  have k: "vs_key v' = vs_key v" "vs_id v' = vs_id v" by (simp_all add: v'_def vs_key_def)
  have tvs: "vs_ok t" unfolding t_def by (rule records_update_vs_ok [OF vs v k p])
  have "khas (des_vs_index s) (vs_key v')"
    using vsix.index_lookup [OF vs_ok_index [OF vs] v] k(1) by (simp add: khas_def)
  then have "fg_ok s'"
    using fg_ok_grant [OF fg] by (intro fg_ok_after_recompute [OF g]) (auto simp: t_def)
  then show ?thesis using oa ks tvs recompute_blocks [OF g]
    by (simp add: de_inv_def t_def vsoas_update_frame)
qed

section \<open>The checks\<close>

lemma de_inv_check_vs:
  assumes inv: "de_inv s" and ok: "CheckVSOperatorAuthorizationOnParticipant now s c oper p mt = Inr s'"
  shows "de_inv s'"
proof -
  have vs: "vs_ok s" and fg: "fg_ok s" using inv by (simp_all add: de_inv_def)
  consider "s' = s" | i v v' where "kget (des_vsoas s) i = Some v" "s' = s\<lparr>des_vsoas := kset (des_vsoas s) i v'\<rparr>"
      "vs_key v' = vs_key v" "vs_id v' = vs_id v" "participants v' = participants v"
  proof (cases "s' = s")
    case False
    have "\<exists>i v d. kget (des_vsoas s) i = Some v \<and> s' = s\<lparr>des_vsoas := kset (des_vsoas s) i
        (v\<lparr>vs_records := update_first (\<lambda>r. pr_participant r = p) (cycle_reset now d) (vs_records v)\<rparr>)\<rparr>"
      using ok False unfolding CheckVSOperatorAuthorizationOnParticipant_def
      by (auto split: option.splits if_split_asm)
    then obtain i v d where v: "kget (des_vsoas s) i = Some v" and s': "s' = s\<lparr>des_vsoas := kset (des_vsoas s) i
        (v\<lparr>vs_records := update_first (\<lambda>r. pr_participant r = p) (cycle_reset now d) (vs_records v)\<rparr>)\<rparr>"
      by blast
    show thesis
      by (rule that(2) [OF v s']) (simp_all add: vs_key_def participants_update_first cycle_reset_def)
  qed (rule that(1))
  then show ?thesis
  proof cases
    case 2
    have "vs_ok s'" unfolding 2(2) by (rule records_update_vs_ok [OF vs 2(1) 2(3-5)])
    moreover have "fg_ok s'" using fg by (simp add: fg_ok_def 2(2))
    ultimately show ?thesis using inv by (simp add: de_inv_def 2(2) vsoas_update_frame)
  qed (simp add: inv)
qed

lemma core_check_cases:
  assumes "checkOperatorAuthorizationCore res s corporation operator mt now = Inr r"
  shows "operator = [] \<and> r = None \<or> operator \<noteq> [] \<and>
    (\<exists>c a. res corporation = Some c \<and> getOAByCorpOp s c operator = Inr (Some a) \<and> r = Some a \<and>
       \<not> expired (oa_expiration a) now \<and> mt \<in> set (oa_msg_types a))"
  using assms
  by (auto simp: checkOperatorAuthorizationCore_def bindE_ok_iff split: if_splits option.splits)

lemma de_inv_check_spend:
  assumes inv: "de_inv s"
    and ok: "CheckOperatorAuthorizationWithSpend CN res s corporation operator mt now spend = Inr s'"
  shows "de_inv s'"
proof -
  have oa: "oa_ok s" using inv by (simp add: de_inv_def)
  consider "s' = s" | a u where "kget (des_oas s) (oa_id a) = Some a" "ou_oa_id u = oa_id a"
      "s' = s\<lparr>des_usage := kset (des_usage s) (oa_id a) u\<rparr>"
  proof -
    obtain r where r: "checkOperatorAuthorizationCore res s corporation operator mt now = Inr r"
      using ok by (auto simp: CheckOperatorAuthorizationWithSpend_def bindE_ok_iff)
    show thesis
    proof (cases r)
      case None
      then show thesis using ok r that(1) by (simp add: CheckOperatorAuthorizationWithSpend_def)
    next
      case (Some a)
      then obtain c where "getOAByCorpOp s c operator = Inr (Some a)"
        using core_check_cases [OF r] by auto
      then have a: "kget (des_oas s) (oa_id a) = Some a" using getOAByCorpOp_cases [OF oa] by blast
      have u: "ou_oa_id (refreshed_usage s a now) = oa_id a"
        using oa_ok_usage [OF oa, of "oa_id a"]
        by (auto simp: refreshed_usage_def Let_def split: option.splits)
      have "s' = s \<or> (\<exists>x. s' = s\<lparr>des_usage := kset (des_usage s) (oa_id a)
          ((refreshed_usage s a now)\<lparr>ou_remaining := x\<rparr>)\<rparr>)"
        using ok r Some
        by (auto simp: CheckOperatorAuthorizationWithSpend_def Let_def split: if_splits option.splits)
      then show thesis
      proof (elim disjE exE)
        fix x assume "s' = s\<lparr>des_usage := kset (des_usage s) (oa_id a)
          ((refreshed_usage s a now)\<lparr>ou_remaining := x\<rparr>)\<rparr>"
        then show thesis by (rule that(2) [OF a, rotated]) (simp add: u)
      qed (rule that(1))
    qed
  qed
  then show ?thesis
  proof cases
    case 2
    have "oa_ok s'"
    proof (rule oa_okI)
      fix i u' assume "kget (des_usage s') i = Some u'"
      then show "ou_oa_id u' = i \<and> khas (des_oas s') i"
        using 2 oa_ok_usage [OF oa, of i u'] by (auto simp: kget_kset khas_def split: if_splits)
    qed (use oa_ok_id [OF oa] oa_ok_bound [OF oa] oa_ok_index [OF oa] in \<open>auto simp: 2(3)\<close>)
    moreover have "vs_ok s' = vs_ok s" "keys_ok s' = keys_ok s" "fg_ok s' = fg_ok s"
      by (simp_all add: 2(3) vs_ok_def keys_ok_def fg_ok_def)
    ultimately show ?thesis using inv by (simp add: de_inv_def)
  qed (simp add: inv)
qed

end
