(* ===== verification/Delegation_Genesis.thy ===== *)
theory Delegation_Genesis
imports Delegation_Inv
begin

text \<open>
  Genesis import and export of the delegation module (keeper/genesis.go,
  types/genesis.go), the list queries (keeper/query_*.go) and the step relation
  of the module: every operation that changes its state.
\<close>

section \<open>Genesis\<close>

record de_genesis =
  dg_oas :: "oper_auth list"
  dg_usages :: "oa_usage list"
  dg_feegrants :: "fee_grant list"
  dg_vsoas :: "vs_auth list"

definition de_InitGenesis :: "de_genesis \<Rightarrow> de_state \<Rightarrow> de_state" where
  "de_InitGenesis g s =
     (let maxOA = maximum_id oa_id (dg_oas g); maxVS = maximum_id vs_id (dg_vsoas g) in
      s\<lparr>des_oas := kset_all oa_id (dg_oas g) (des_oas s),
        des_oa_index := kset_index oa_key oa_id (dg_oas g) (des_oa_index s),
        des_oa_seq := (if 0 < maxOA then maxOA else des_oa_seq s),
        des_usage := kset_all ou_oa_id (dg_usages g) (des_usage s),
        des_feegrants := kset_all fg_key (dg_feegrants g) (des_feegrants s),
        des_vsoas := kset_all vs_id (dg_vsoas g) (des_vsoas s),
        des_vs_index := kset_index vs_key vs_id (dg_vsoas g) (des_vs_index s),
        des_vs_participant := kset_index fst snd
           (concat (map (\<lambda>v. map (\<lambda>r. (pr_participant r, vs_id v)) (vs_records v)) (dg_vsoas g)))
           (des_vs_participant s),
        des_vs_seq := (if 0 < maxVS then maxVS else des_vs_seq s)\<rparr>)"

text \<open>The export walks each table; the walks already ascend in the keys by which
  the code sorts the lists afterwards.\<close>

definition de_ExportGenesis :: "de_state \<Rightarrow> de_genesis" where
  "de_ExportGenesis s = \<lparr>dg_oas = walk (des_oas s), dg_usages = walk (des_usage s),
     dg_feegrants = walk (des_feegrants s), dg_vsoas = walk (des_vsoas s)\<rparr>"

definition de_validate_genesis :: "sdk_env \<Rightarrow> de_genesis \<Rightarrow> bool" where
  "de_validate_genesis E g \<longleftrightarrow>
     list_all (\<lambda>a. oa_id a \<noteq> 0 \<and> oa_corp a \<noteq> 0 \<and> valid_addr E (oa_operator a) \<and> oa_msg_types a \<noteq> [])
       (dg_oas g) \<and>
     distinct (map oa_id (dg_oas g)) \<and> distinct (map oa_key (dg_oas g)) \<and>
     list_all (\<lambda>f. fg_corp f \<noteq> 0 \<and> valid_addr E (fg_grantee f) \<and> fg_msg_types f \<noteq> []) (dg_feegrants g) \<and>
     distinct (map fg_key (dg_feegrants g)) \<and>
     list_all (\<lambda>v. vs_id v \<noteq> 0 \<and> vs_corp v \<noteq> 0 \<and> valid_addr E (vs_oper v) \<and> vs_records v \<noteq> [] \<and>
        list_all (\<lambda>r. pr_participant r \<noteq> 0 \<and> pr_msg_types r \<noteq> []) (vs_records v)) (dg_vsoas g) \<and>
     distinct (map vs_id (dg_vsoas g)) \<and> distinct (map vs_key (dg_vsoas g)) \<and>
     distinct (concat (map participants (dg_vsoas g))) \<and>
     list_all (\<lambda>u. ou_oa_id u \<noteq> 0 \<and> ou_oa_id u \<in> set (map oa_id (dg_oas g))) (dg_usages g)"

section \<open>List queries\<close>

definition ListOperatorAuthorizations :: "de_state \<Rightarrow> nat \<Rightarrow> string \<Rightarrow> nat \<Rightarrow> de_error + oper_auth list" where
  "ListOperatorAuthorizations s corp oper n = (case query_limit n of
      None \<Rightarrow> Inl De_Query
    | Some k \<Rightarrow> Inr (collect_until k
        (\<lambda>a. \<not> (corp \<noteq> 0 \<and> oa_corp a \<noteq> corp) \<and> \<not> (oper \<noteq> [] \<and> oa_operator a \<noteq> oper)) [] (walk (des_oas s))))"

definition ListVSOperatorAuthorizations :: "de_state \<Rightarrow> nat \<Rightarrow> string \<Rightarrow> nat \<Rightarrow> de_error + vs_auth list" where
  "ListVSOperatorAuthorizations s corp oper n = (case query_limit n of
      None \<Rightarrow> Inl De_Query
    | Some k \<Rightarrow> Inr (collect_until k
        (\<lambda>v. \<not> (corp \<noteq> 0 \<and> vs_corp v \<noteq> corp) \<and> \<not> (oper \<noteq> [] \<and> vs_oper v \<noteq> oper)) [] (walk (des_vsoas s))))"

definition GetOperatorAuthorization :: "de_state \<Rightarrow> nat \<Rightarrow> de_error + oper_auth" where
  "GetOperatorAuthorization s i = (if i = 0 then Inl De_Query else optE De_Query (kget (des_oas s) i))"

definition GetVSOperatorAuthorization :: "de_state \<Rightarrow> nat \<Rightarrow> de_error + vs_auth" where
  "GetVSOperatorAuthorization s i = (if i = 0 then Inl De_Query else optE De_Query (kget (des_vsoas s) i))"

section \<open>Steps of the module\<close>

text \<open>The registry the checks consult may have changed between two steps; it
  satisfies its own invariant.\<close>

inductive de_step :: "coins_ops \<Rightarrow> de_state \<Rightarrow> de_state \<Rightarrow> bool" for CN :: coins_ops where
  grant_oa: "co_inv c \<Longrightarrow> GrantOperatorAuthorization CN (resolve_id c) now s m = Inr s' \<Longrightarrow> de_step CN s s'"
| revoke_oa: "co_inv c \<Longrightarrow> RevokeOperatorAuthorization (resolve_id c) now s r = Inr s' \<Longrightarrow> de_step CN s s'"
| grant_vs: "0 < corp \<Longrightarrow> GrantVSOperatorAuthorization CN now s corp oper rec = Inr s' \<Longrightarrow> de_step CN s s'"
| revoke_vs: "RevokeVSOperatorAuthorization CN now s p = Inr s' \<Longrightarrow> de_step CN s s'"
| update_vs: "UpdateVSOperatorAuthorizationExpiration CN now s p e = Inr s' \<Longrightarrow> de_step CN s s'"
| check_spend: "CheckOperatorAuthorizationWithSpend CN (resolve_id c) s corporation operator mt now spend = Inr s' \<Longrightarrow>
    de_step CN s s'"
| check_vs: "CheckVSOperatorAuthorizationOnParticipant now s corp oper p mt = Inr s' \<Longrightarrow> de_step CN s s'"

inductive_cases de_step_cases: "de_step CN s s'"

inductive de_reachable :: "coins_ops \<Rightarrow> de_state \<Rightarrow> bool" for CN :: coins_ops where
  start: "de_reachable CN de_empty"
| step: "de_reachable CN s \<Longrightarrow> de_step CN s s' \<Longrightarrow> de_reachable CN s'"

lemma de_step_inv: "de_step CN s s' \<Longrightarrow> de_inv s \<Longrightarrow> de_inv s'"
  by (erule de_step_cases)
    (auto intro: de_inv_grant_oa de_inv_revoke_oa de_inv_grant_vs de_inv_revoke_vs de_inv_update_vs
      de_inv_check_spend de_inv_check_vs corp_resolver_inv)

lemma de_reachable_invariant: "de_reachable CN s \<Longrightarrow> de_inv s"
  by (induction rule: de_reachable.induct) (auto intro: de_inv_empty de_step_inv)

section \<open>The fee allowance of a service operator\<close>

definition live_records :: "time \<Rightarrow> pa_record list \<Rightarrow> pa_record list" where
  "live_records now rs = filter (fee_live now) rs"

definition record_expiry :: "pa_record \<Rightarrow> time" where
  "record_expiry r = (case pr_expiration r of None \<Rightarrow> 0 | Some e \<Rightarrow> e)"

lemma fee_live_expiry: "fee_live now r \<Longrightarrow> pr_expiration r = Some (record_expiry r) \<and> now < record_expiry r"
  by (auto simp: fee_live_def after_def record_expiry_def split: option.splits)

lemma recompute_scan_expiry:
  "fst (recompute_scan now rs) = (if live_records now rs = [] then None
     else Some (Max (record_expiry ` set (live_records now rs))))"
proof (induction rs rule: rev_induct)
  case (snoc r rs)
  show ?case
  proof (cases "fee_live now r")
    case True
    then have r: "pr_expiration r = Some (record_expiry r)" by (simp add: fee_live_expiry)
    define M where "M = Max (record_expiry ` set (live_records now rs))"
    have ih: "fst (recompute_scan now rs) = (if live_records now rs = [] then None else Some M)"
      using snoc by (simp add: M_def)
    have "fst (recompute_scan now (rs @ [r])) = (case fst (recompute_scan now rs) of
        None \<Rightarrow> pr_expiration r | Some e \<Rightarrow> if after (pr_expiration r) e then pr_expiration r else Some e)"
      using True by (simp add: recompute_scan_def recompute_step_def)
    moreover have ne: "live_records now (rs @ [r]) = live_records now rs @ [r]"
      using True by (simp add: live_records_def)
    moreover have "Max (record_expiry ` set (live_records now (rs @ [r]))) =
        (if live_records now rs = [] then record_expiry r else max (record_expiry r) M)"
      by (simp add: ne M_def Max_insert)
    ultimately show ?thesis using ih r by (auto simp: after_def max_def)
  next
    case False
    then show ?thesis using snoc by (simp add: recompute_scan_def recompute_step_def live_records_def)
  qed
qed (simp add: recompute_scan_def live_records_def)

lemma recompute_scan_types:
  "set (snd (recompute_scan now rs)) = (\<Union>r \<in> set (live_records now rs). set (pr_msg_types r))"
  by (induction rs rule: rev_induct)
    (auto simp: recompute_scan_def recompute_step_def live_records_def)

text \<open>The records held for a (corporation, operator) pair, and what the chain-level
  fee grant of the pair has to be.\<close>

definition records_at :: "de_state \<Rightarrow> nat \<times> string \<Rightarrow> pa_record list" where
  "records_at s k = (case kget (des_vs_index s) k of None \<Rightarrow> []
     | Some i \<Rightarrow> (case kget (des_vsoas s) i of None \<Rightarrow> [] | Some v \<Rightarrow> vs_records v))"

definition fee_grant_derived :: "time \<Rightarrow> pa_record list \<Rightarrow> fee_grant option \<Rightarrow> bool" where
  "fee_grant_derived now rs g = (case g of
      None \<Rightarrow> live_records now rs = []
    | Some f \<Rightarrow> live_records now rs \<noteq> [] \<and>
        fg_expiration f = Some (Max (record_expiry ` set (live_records now rs))) \<and>
        set (fg_msg_types f) = (\<Union>r \<in> set (live_records now rs). set (pr_msg_types r)))"

lemma recompute_derived:
  assumes "recomputeFeeAllowance CN now s v = Inr s'"
  shows "fee_grant_derived now (vs_records v) (kget (des_feegrants s') (vs_key v))"
proof -
  obtain e mts where em: "recompute_scan now (vs_records v) = (e, mts)" by fastforce
  have e: "e = (if live_records now (vs_records v) = [] then None
     else Some (Max (record_expiry ` set (live_records now (vs_records v)))))"
    using recompute_scan_expiry [of now "vs_records v"] em by simp
  have mts: "set mts = (\<Union>r \<in> set (live_records now (vs_records v)). set (pr_msg_types r))"
    using recompute_scan_types [of now "vs_records v"] em by simp
  show ?thesis
  proof (cases e)
    case None
    then have "RevokeFeeAllowance s (vs_corp v) (vs_oper v) = Inr s'"
      using assms em by (simp add: recomputeFeeAllowance_def)
    then have "kget (des_feegrants s') (vs_key v) = None"
      using RevokeFeeAllowance_effect by (fastforce simp: vs_key_def)
    then show ?thesis using e None by (simp add: fee_grant_derived_def split: if_splits)
  next
    case (Some t)
    then have "GrantFeeAllowance CN s now (vs_corp v) (vs_oper v) mts e [] None = Inr s'"
      using assms em by (simp add: recomputeFeeAllowance_def)
    then obtain fg where "s' = s\<lparr>des_feegrants := kset (des_feegrants s) (vs_corp v, vs_oper v) fg\<rparr>"
        "fg_msg_types fg = mts" "fg_expiration fg = e"
      using GrantFeeAllowance_effect by blast
    then show ?thesis using e mts Some by (simp add: fee_grant_derived_def vs_key_def split: if_splits)
  qed
qed

end
