(* ===== verification/Delegation_Props.thy ===== *)
theory Delegation_Props
imports Delegation_Genesis
begin

text \<open>
  What the delegation module guarantees: its reachable states satisfy the
  invariant, the operator check accepts exactly the live authorizations, grants
  and revocations take effect and touch nothing else, a spend ledger bounds what
  is spent, fee grants follow the records they are derived from, and genesis
  export followed by import restores the state.
\<close>

section \<open>Lookups under the invariant\<close>

lemma de_inv_oa: "de_inv s \<Longrightarrow> oa_ok s"
  by (simp add: de_inv_def)

lemma de_inv_vs: "de_inv s \<Longrightarrow> vs_ok s"
  by (simp add: de_inv_def)

definition oa_holds :: "de_state \<Rightarrow> nat \<Rightarrow> string \<Rightarrow> oper_auth \<Rightarrow> bool" where
  "oa_holds s c oper a \<longleftrightarrow> kget (des_oas s) (oa_id a) = Some a \<and> oa_corp a = c \<and> oa_operator a = oper"

lemma getOA_iff:
  assumes "oa_ok s"
  shows "getOAByCorpOp s c oper = Inr (Some a) \<longleftrightarrow> oa_holds s c oper a"
proof
  assume "getOAByCorpOp s c oper = Inr (Some a)"
  then show "oa_holds s c oper a" using getOAByCorpOp_cases [OF assms] by (fastforce simp: oa_holds_def)
next
  assume a: "oa_holds s c oper a"
  then have "kget (des_oa_index s) (oa_key a) = Some (oa_id a)"
    using oaix.index_lookup [OF oa_ok_index [OF assms]] by (simp add: oa_holds_def)
  then show "getOAByCorpOp s c oper = Inr (Some a)"
    using a by (simp add: getOAByCorpOp_def oa_holds_def oa_key_def)
qed

lemma getOA_cong:
  assumes "kget (des_oa_index t) (c, oper) = kget (des_oa_index s) (c, oper)"
    and "\<And>i. kget (des_oa_index s) (c, oper) = Some i \<Longrightarrow> kget (des_oas t) i = kget (des_oas s) i"
  shows "getOAByCorpOp t c oper = getOAByCorpOp s c oper"
  using assms by (simp add: getOAByCorpOp_def split: option.split)

lemma check_cong:
  assumes "\<And>c. res corp = Some c \<Longrightarrow> getOAByCorpOp t c oper = getOAByCorpOp s c oper"
  shows "CheckOperatorAuthorization res t corp oper mt now = CheckOperatorAuthorization res s corp oper mt now"
  using assms by (simp add: CheckOperatorAuthorization_def checkOperatorAuthorizationCore_def split: option.split)

lemma fee_op_oas:
  assumes "RevokeFeeAllowance s c g = Inr s' \<or> GrantFeeAllowance CN s now c g mts e l p = Inr s'"
  shows "des_oas s' = des_oas s" "des_oa_index s' = des_oa_index s"
    "des_vs_index s' = des_vs_index s" "des_vsoas s' = des_vsoas s"
  using assms RevokeFeeAllowance_effect [of s c g s'] GrantFeeAllowance_effect [of CN s now c g mts e l p s']
  by auto

lemma GrantOA_tables:
  assumes "oa_ok s" "GrantOperatorAuthorization CN res now s m = Inr s'"
  obtains c i where "res (go_corporation m) = Some c"
    "kget (des_oa_index s) (c, go_grantee m) = Some i \<or>
       kget (des_oa_index s) (c, go_grantee m) = None \<and> kget (des_oas s) i = None"
    "des_oa_index s' = kset (des_oa_index s) (c, go_grantee m) i"
    "des_oas s' = kset (des_oas s) i
          \<lparr>oa_id = i, oa_corp = c, oa_operator = go_grantee m, oa_msg_types = go_msg_types m,
           oa_spend_limit = go_spend_limit m, oa_remaining_spend = [],
           oa_fee_spend_limit = go_fee_spend_limit m, oa_remaining_fee_spend = [],
           oa_expiration = go_expiration m, oa_period = go_spend_period m\<rparr>"
proof -
  obtain c i where ci: "res (go_corporation m) = Some c"
    "kget (des_oa_index s) (c, go_grantee m) = Some i \<or>
     kget (des_oa_index s) (c, go_grantee m) = None \<and> i = des_oa_seq s + 1"
    and fee: "let t = put_oper_auth (s\<lparr>des_oa_seq := max (des_oa_seq s) i\<rparr>) c m i in
       if go_with_feegrant m
       then GrantFeeAllowance CN t now c (go_grantee m) (go_msg_types m) (go_expiration m)
              (go_fee_limit m) (go_fee_period m) = Inr s'
       else RevokeFeeAllowance t c (go_grantee m) = Inr s'"
    using GrantOA_state [OF assms] by blast
  have fresh: "kget (des_oas s) (des_oa_seq s + 1) = None"
    using oa_ok_bound [OF assms(1), of "des_oa_seq s + 1"] by (cases "kget (des_oas s) (des_oa_seq s + 1)") auto
  define t where "t = put_oper_auth (s\<lparr>des_oa_seq := max (des_oa_seq s) i\<rparr>) c m i"
  have "RevokeFeeAllowance t c (go_grantee m) = Inr s' \<or> GrantFeeAllowance CN t now c (go_grantee m)
      (go_msg_types m) (go_expiration m) (go_fee_limit m) (go_fee_period m) = Inr s'"
    using fee by (simp add: Let_def t_def split: if_splits)
  note same = fee_op_oas [OF this]
  show thesis
    by (rule that [OF ci(1), of i]) (use ci(2) fresh same in \<open>auto simp: t_def put_oper_auth_def\<close>)
qed

section \<open>A sample run\<close>

definition sample_grant :: "string \<Rightarrow> string \<Rightarrow> msg_grant_oa" where
  "sample_grant oper grantee = \<lparr>go_corporation = ''corp'', go_operator = oper, go_grantee = grantee,
     go_msg_types = [''/verana.de.v1.MsgGrantOperatorAuthorization'',
                     ''/verana.td.v1.MsgReclaimTrustDepositYield''],
     go_expiration = Some 100, go_spend_limit = [(''uvna'', 10)], go_spend_period = Some 50,
     go_with_feegrant = False, go_fee_limit = [], go_fee_period = None, go_fee_spend_limit = []\<rparr>"

definition sample_oa :: "nat \<Rightarrow> string \<Rightarrow> oper_auth" where
  "sample_oa i grantee = \<lparr>oa_id = i, oa_corp = 3, oa_operator = grantee,
     oa_msg_types = [''/verana.de.v1.MsgGrantOperatorAuthorization'',
                     ''/verana.td.v1.MsgReclaimTrustDepositYield''],
     oa_spend_limit = [(''uvna'', 10)], oa_remaining_spend = [], oa_fee_spend_limit = [],
     oa_remaining_fee_spend = [], oa_expiration = Some 100, oa_period = Some 50\<rparr>"

definition sample_de :: de_state where
  "sample_de = de_empty\<lparr>des_oas := kset kempty 1 (sample_oa 1 ''alice''),
     des_oa_index := kset kempty (3, ''alice'') 1, des_oa_seq := 1,
     des_usage := kremove kempty 1\<rparr>"

abbreviation sample_res :: "string \<Rightarrow> nat option" where
  "sample_res \<equiv> resolve_id sample_registry"

lemma sample_res_ok: "corp_resolver sample_res"
  by (rule corp_resolver_inv) (rule sample_registry_inv)

lemma sample_check_corp [simp]: "CheckOperatorAuthorization res s c [] mt now = Inr ()"
  by (simp add: CheckOperatorAuthorization_def checkOperatorAuthorizationCore_def)

lemma sample_grant_ok:
  "GrantOperatorAuthorization list_coins sample_res 1 de_empty (sample_grant [] ''alice'') = Inr sample_de"
  by (simp add: GrantOperatorAuthorization_def sample_grant_def expired_def nonpositive_def
      de_empty_def getOAByCorpOp_def nextOAID_def put_oper_auth_def RevokeFeeAllowance_def
      sample_de_def sample_oa_def)

lemma sample_de_reachable: "de_reachable list_coins sample_de"
  by (rule de_reachable.step [OF de_reachable.start])
    (rule de_step.grant_oa [OF sample_registry_inv sample_grant_ok])

lemma sample_de_inv: "de_inv sample_de"
  by (rule de_reachable_invariant) (rule sample_de_reachable)

lemma sample_de_lookup [simp]:
  "getOAByCorpOp sample_de 3 g = (if g = ''alice'' then Inr (Some (sample_oa 1 ''alice'')) else Inr None)"
  by (simp add: getOAByCorpOp_def sample_de_def de_empty_def kget_kset)

lemma sample_de_sel [simp]:
  "des_vs_index sample_de = kempty" "des_feegrants sample_de = kempty" "des_oa_seq sample_de = 1"
  "des_usage sample_de = kremove kempty 1"
  by (simp_all add: sample_de_def de_empty_def)

lemma sample_oa_sel [simp]:
  "oa_id (sample_oa i g) = i" "oa_expiration (sample_oa i g) = Some 100" "oa_period (sample_oa i g) = Some 50"
  "oa_spend_limit (sample_oa i g) = [(''uvna'', 10)]"
  "oa_msg_types (sample_oa i g) = [''/verana.de.v1.MsgGrantOperatorAuthorization'',
                     ''/verana.td.v1.MsgReclaimTrustDepositYield'']"
  by (simp_all add: sample_oa_def)

lemma sample_oa_holds: "oa_holds sample_de 3 ''alice'' (sample_oa 1 ''alice'')"
  by (simp add: oa_holds_def sample_de_def sample_oa_def)

lemma sample_alice_grants:
  "is_ok (GrantOperatorAuthorization list_coins sample_res 2 sample_de (sample_grant ''alice'' ''bob''))"
  by (simp add: GrantOperatorAuthorization_def CheckOperatorAuthorization_def
      checkOperatorAuthorizationCore_def sample_grant_def expired_def nonpositive_def
      nextOAID_def put_oper_auth_def RevokeFeeAllowance_def)

definition sample_revoke :: msg_revoke_oa where
  "sample_revoke = \<lparr>ro_corporation = ''corp'', ro_operator = [], ro_grantee = ''alice''\<rparr>"

lemma sample_revoke_ok: "is_ok (RevokeOperatorAuthorization sample_res 2 sample_de sample_revoke)"
  by (simp add: RevokeOperatorAuthorization_def sample_revoke_def RevokeFeeAllowance_def)

definition sample_record :: pa_record where
  "sample_record = \<lparr>pr_participant = 7, pr_msg_types = [''/verana.pp.v1.MsgCreateOrUpdateParticipantSession''],
     pr_spend_limit = [], pr_remaining_spend = [], pr_fee_spend_limit = [], pr_remaining_fee_spend = [],
     pr_with_feegrant = True, pr_expiration = Some 100, pr_period = None\<rparr>"

lemma sample_grant_vs_ok:
  "is_ok (GrantVSOperatorAuthorization list_coins 1 de_empty 3 ''vsop'' sample_record)"
  by (simp add: GrantVSOperatorAuthorization_def sample_record_def de_empty_def msg_delegable_def
      VPRDelegableMsgTypes_def walk_def getVSOAByCorpOp_def nextVSOAID_def recomputeFeeAllowance_def
      recompute_scan_def recompute_step_def fee_live_def after_def GrantFeeAllowance_def expired_def)

section \<open>Properties\<close>

text \<open>C4 de_state_invariant: Every state the delegation module can reach from genesis by
  its operations satisfies its invariant: tables and indexes agree, a pair
  (corporation, operator) never holds both kinds of authorization, a service
  operator serves one corporation, a participant has at most one record, and
  spend ledgers and fee grants belong to an existing authorization.\<close>

theorem de_state_invariant:
  assumes "de_reachable CN s"
  shows "de_inv s"
  using assms by (rule de_reachable_invariant)

theorem de_state_invariant_witness: "de_inv sample_de"
  by (rule de_state_invariant [OF sample_de_reachable])

text \<open>C10 operator_check_exact: AUTHZ-CHECK-1 accepts an operator exactly when the
  operator is empty (the corporation acts alone) or the corporation is
  registered and holds an unexpired authorization for the operator that lists
  the message type.\<close>

theorem operator_check_exact:
  assumes "de_inv s"
  shows "CheckOperatorAuthorization res s corporation oper mt now = Inr () \<longleftrightarrow>
    oper = [] \<or> (\<exists>c a. res corporation = Some c \<and> oa_holds s c oper a \<and>
       mt \<in> set (oa_msg_types a) \<and> (\<forall>t. oa_expiration a = Some t \<longrightarrow> now < t))"
proof -
  have "CheckOperatorAuthorization res s corporation oper mt now = Inr () \<longleftrightarrow>
    oper = [] \<or> (\<exists>c a. res corporation = Some c \<and> getOAByCorpOp s c oper = Inr (Some a) \<and>
       mt \<in> set (oa_msg_types a) \<and> \<not> expired (oa_expiration a) now)"
    by (auto simp: CheckOperatorAuthorization_def checkOperatorAuthorizationCore_def bindE_def
        split: option.splits sum.splits if_splits)
  then show ?thesis
    by (simp add: getOA_iff [OF de_inv_oa [OF assms]] expired_def split: option.split)
      (metis option.inject not_None_eq)
qed

theorem operator_check_exact_witness:
  "CheckOperatorAuthorization sample_res sample_de ''corp'' ''alice''
     ''/verana.td.v1.MsgReclaimTrustDepositYield'' 99 = Inr ()"
  unfolding operator_check_exact [OF sample_de_inv]
  using sample_oa_holds by (auto simp: sample_oa_def)

text \<open>After a successful grant the grantee may run exactly the
  granted message types until the granted expiration, whatever it could do
  before, and the authorizations of every other (corporation, operator) pair are
  untouched.\<close>

theorem grant_takes_effect:
  assumes inv: "de_inv s" and res: "corp_resolver res"
    and ok: "GrantOperatorAuthorization CN res now s m = Inr s'"
    and grantee: "go_grantee m \<noteq> []"
  shows "(CheckOperatorAuthorization res s' (go_corporation m) (go_grantee m) mt later = Inr () \<longleftrightarrow>
      mt \<in> set (go_msg_types m) \<and> (\<forall>t. go_expiration m = Some t \<longrightarrow> later < t)) \<and>
    ((corp, oper) \<noteq> (go_corporation m, go_grantee m) \<longrightarrow>
      CheckOperatorAuthorization res s' corp oper mt' later =
      CheckOperatorAuthorization res s corp oper mt' later)"
proof -
  have oa: "oa_ok s" using inv by (rule de_inv_oa)
  obtain c i where c: "res (go_corporation m) = Some c"
    and i: "kget (des_oa_index s) (c, go_grantee m) = Some i \<or>
       kget (des_oa_index s) (c, go_grantee m) = None \<and> kget (des_oas s) i = None"
    and t: "des_oa_index s' = kset (des_oa_index s) (c, go_grantee m) i"
    "des_oas s' = kset (des_oas s) i
          \<lparr>oa_id = i, oa_corp = c, oa_operator = go_grantee m, oa_msg_types = go_msg_types m,
           oa_spend_limit = go_spend_limit m, oa_remaining_spend = [],
           oa_fee_spend_limit = go_fee_spend_limit m, oa_remaining_fee_spend = [],
           oa_expiration = go_expiration m, oa_period = go_spend_period m\<rparr>"
    using GrantOA_tables [OF oa ok] by blast
  have own: "CheckOperatorAuthorization res s' (go_corporation m) (go_grantee m) mt later = Inr () \<longleftrightarrow>
      mt \<in> set (go_msg_types m) \<and> (\<forall>t. go_expiration m = Some t \<longrightarrow> later < t)"
    using c grantee
    by (auto simp: CheckOperatorAuthorization_def checkOperatorAuthorizationCore_def getOAByCorpOp_def t
        expired_def split: option.splits)
  have frame: "CheckOperatorAuthorization res s' corp oper mt' later =
      CheckOperatorAuthorization res s corp oper mt' later"
    if other: "(corp, oper) \<noteq> (go_corporation m, go_grantee m)"
  proof (rule check_cong, rule getOA_cong)
    fix d assume d: "res corp = Some d"
    have ne: "(d, oper) \<noteq> (c, go_grantee m)"
      using other corp_resolver.resolve_inj [OF res d, of "go_corporation m"] c by auto
    then show "kget (des_oa_index s') (d, oper) = kget (des_oa_index s) (d, oper)" by (simp add: t)
    fix j assume j: "kget (des_oa_index s) (d, oper) = Some j"
    obtain x where x: "kget (des_oas s) j = Some x" "oa_key x = (d, oper)"
      using oaix.index_sound [OF oa_ok_index [OF oa] j] by blast
    have "j \<noteq> i"
      using i x ne oaix.index_sound [OF oa_ok_index [OF oa], of "(c, go_grantee m)" i] by force
    then show "kget (des_oas s') j = kget (des_oas s) j" by (simp add: t)
  qed
  show ?thesis using own frame by blast
qed

theorem grant_takes_effect_witness:
  "CheckOperatorAuthorization sample_res sample_de ''corp'' ''alice''
     ''/verana.de.v1.MsgGrantOperatorAuthorization'' 99 = Inr ()"
  using grant_takes_effect [OF de_inv_empty sample_res_ok sample_grant_ok,
      of "''/verana.de.v1.MsgGrantOperatorAuthorization''" 99]
  by (simp add: sample_grant_def)

text \<open>C23 revoke_takes_effect: a successful revocation removes exactly one authorization, the
  grantee's (not empty) for the corporation, with its spend ledger and its fee grant: the
  grantee can no longer act for the corporation; every other (corporation, operator) pair
  keeps its authorization, its ledger, its fee grant and what it may do; and the
  service-operator records stay.\<close>

theorem revoke_takes_effect:
  assumes inv: "de_inv s" and res: "corp_resolver res"
    and ok: "RevokeOperatorAuthorization res now s m = Inr s'"
    and grantee: "ro_grantee m \<noteq> []"
  shows "CheckOperatorAuthorization res s' (ro_corporation m) (ro_grantee m) mt later =
      Inl De_Authz_Not_Found \<and>
    ((corp, oper) \<noteq> (ro_corporation m, ro_grantee m) \<longrightarrow>
      CheckOperatorAuthorization res s' corp oper mt' later =
      CheckOperatorAuthorization res s corp oper mt' later) \<and>
    (\<exists>c a. res (ro_corporation m) = Some c \<and> oa_holds s c (ro_grantee m) a \<and>
      (\<forall>d g b. oa_holds s' d g b \<longleftrightarrow> oa_holds s d g b \<and> (d, g) \<noteq> (c, ro_grantee m)) \<and>
      (\<forall>i. kget (des_usage s') i = (if i = oa_id a then None else kget (des_usage s) i)) \<and>
      (\<forall>k. kget (des_feegrants s') k = (if k = (c, ro_grantee m) then None else kget (des_feegrants s) k))) \<and>
    des_vsoas s' = des_vsoas s \<and> des_vs_index s' = des_vs_index s \<and> des_vs_participant s' = des_vs_participant s"
proof -
  have oa: "oa_ok s" using inv by (rule de_inv_oa)
  obtain c a where c: "res (ro_corporation m) = Some c"
    and f: "getOAByCorpOp s c (ro_grantee m) = Inr (Some a)"
    and r: "RevokeFeeAllowance
           (s\<lparr>des_oas := kremove (des_oas s) (oa_id a),
              des_oa_index := kremove (des_oa_index s) (c, ro_grantee m),
              des_usage := kremove (des_usage s) (oa_id a)\<rparr>) c (ro_grantee m) = Inr s'"
    using ok by (auto simp: RevokeOperatorAuthorization_def bindE_ok_iff optE_ok_iff split: option.splits)
  have a: "oa_holds s c (ro_grantee m) a" using f by (simp add: getOA_iff [OF oa])
  have t: "des_oa_index s' = kremove (des_oa_index s) (c, ro_grantee m)"
      "des_oas s' = kremove (des_oas s) (oa_id a)"
      "des_usage s' = kremove (des_usage s) (oa_id a)"
      "\<And>k. kget (des_feegrants s') k = (if k = (c, ro_grantee m) then None else kget (des_feegrants s) k)"
      "des_vsoas s' = des_vsoas s" "des_vs_index s' = des_vs_index s" "des_vs_participant s' = des_vs_participant s"
    using r by (auto simp: RevokeFeeAllowance_def kget_kremove khas_def split: if_splits)
  have own: "CheckOperatorAuthorization res s' (ro_corporation m) (ro_grantee m) mt later =
      Inl De_Authz_Not_Found"
    using c grantee
    by (simp add: CheckOperatorAuthorization_def checkOperatorAuthorizationCore_def getOAByCorpOp_def t)
  have holds: "oa_holds s' d g b \<longleftrightarrow> oa_holds s d g b \<and> (d, g) \<noteq> (c, ro_grantee m)" for d g b
  proof (cases "kget (des_oas s) (oa_id b) = Some b")
    case True
    have "oa_id b = oa_id a" if "oa_corp b = c" "oa_operator b = ro_grantee m"
      using oaix.index_unique [OF oa_ok_index [OF oa] True] a that by (simp add: oa_holds_def oa_key_def)
    then show ?thesis using a True by (cases "oa_id b = oa_id a") (auto simp: oa_holds_def t(2))
  qed (auto simp: oa_holds_def t(2) kget_kremove)
  have frame: "CheckOperatorAuthorization res s' corp oper mt' later =
      CheckOperatorAuthorization res s corp oper mt' later"
    if other: "(corp, oper) \<noteq> (ro_corporation m, ro_grantee m)"
  proof (rule check_cong, rule getOA_cong)
    fix d assume d: "res corp = Some d"
    have ne: "(d, oper) \<noteq> (c, ro_grantee m)"
      using other corp_resolver.resolve_inj [OF res d, of "ro_corporation m"] c by auto
    then show "kget (des_oa_index s') (d, oper) = kget (des_oa_index s) (d, oper)" by (simp add: t)
    fix j assume j: "kget (des_oa_index s) (d, oper) = Some j"
    obtain x where x: "kget (des_oas s) j = Some x" "oa_key x = (d, oper)"
      using oaix.index_sound [OF oa_ok_index [OF oa] j] by blast
    have "j \<noteq> oa_id a" using a x ne by (auto simp: oa_holds_def oa_key_def)
    then show "kget (des_oas s') j = kget (des_oas s) j" by (simp add: t)
  qed
  have "\<exists>c a. res (ro_corporation m) = Some c \<and> oa_holds s c (ro_grantee m) a \<and>
      (\<forall>d g b. oa_holds s' d g b \<longleftrightarrow> oa_holds s d g b \<and> (d, g) \<noteq> (c, ro_grantee m)) \<and>
      (\<forall>i. kget (des_usage s') i = (if i = oa_id a then None else kget (des_usage s) i)) \<and>
      (\<forall>k. kget (des_feegrants s') k = (if k = (c, ro_grantee m) then None else kget (des_feegrants s) k))"
    using c a holds t(4) by (intro exI [of _ c] exI [of _ a]) (simp add: t(3) kget_kremove)
  then show ?thesis using own frame t(5-7) by blast
qed

theorem revoke_takes_effect_witness:
  "\<exists>s'. RevokeOperatorAuthorization sample_res 2 sample_de sample_revoke = Inr s' \<and>
     CheckOperatorAuthorization sample_res s' ''corp'' ''alice'' ''/verana.td.v1.MsgReclaimTrustDepositYield'' 3 =
       Inl De_Authz_Not_Found"
proof -
  obtain s' where s': "RevokeOperatorAuthorization sample_res 2 sample_de sample_revoke = Inr s'"
    using sample_revoke_ok by (auto simp: is_ok_iff)
  show ?thesis
    using revoke_takes_effect [OF sample_de_inv sample_res_ok s'] s' by (auto simp: sample_revoke_def)
qed

text \<open>C11 no_self_escalation: A grant run by a (non-empty) operator changes nothing in
  what that same operator may do for the corporation: new rights for itself need
  a group proposal.\<close>

theorem no_self_escalation:
  assumes inv: "de_inv s" and res: "corp_resolver res"
    and ok: "GrantOperatorAuthorization CN res now s m = Inr s'"
    and oper: "go_operator m \<noteq> []"
  shows "CheckOperatorAuthorization res s' (go_corporation m) (go_operator m) mt later =
      CheckOperatorAuthorization res s (go_corporation m) (go_operator m) mt later"
proof -
  have oa: "oa_ok s" using inv by (rule de_inv_oa)
  have ne: "go_grantee m \<noteq> go_operator m"
    using ok oper by (auto simp: GrantOperatorAuthorization_def bindE_ok_iff)
  obtain c i where c: "res (go_corporation m) = Some c"
    and i: "kget (des_oa_index s) (c, go_grantee m) = Some i \<or>
       kget (des_oa_index s) (c, go_grantee m) = None \<and> kget (des_oas s) i = None"
    and t: "des_oa_index s' = kset (des_oa_index s) (c, go_grantee m) i"
      "\<And>j. j \<noteq> i \<Longrightarrow> kget (des_oas s') j = kget (des_oas s) j"
    using GrantOA_tables [OF oa ok] by (metis kget_kset_other)
  show ?thesis
  proof (rule check_cong, rule getOA_cong)
    fix d assume d: "res (go_corporation m) = Some d"
    then show "kget (des_oa_index s') (d, go_operator m) = kget (des_oa_index s) (d, go_operator m)"
      using ne by (simp add: t)
    fix j assume j: "kget (des_oa_index s) (d, go_operator m) = Some j"
    obtain x where x: "kget (des_oas s) j = Some x" "oa_key x = (d, go_operator m)"
      using oaix.index_sound [OF oa_ok_index [OF oa] j] by blast
    have "j \<noteq> i"
      using i x ne oaix.index_sound [OF oa_ok_index [OF oa], of "(c, go_grantee m)" i] by force
    then show "kget (des_oas s') j = kget (des_oas s) j" by (rule t)
  qed
qed

theorem no_self_escalation_witness:
  "\<exists>s'. GrantOperatorAuthorization list_coins sample_res 2 sample_de (sample_grant ''alice'' ''bob'') = Inr s' \<and>
     CheckOperatorAuthorization sample_res s' ''corp'' ''alice'' ''/verana.xr.v1.MsgUpdateExchangeRate'' 3 =
     CheckOperatorAuthorization sample_res sample_de ''corp'' ''alice'' ''/verana.xr.v1.MsgUpdateExchangeRate'' 3"
proof -
  obtain s' where s': "GrantOperatorAuthorization list_coins sample_res 2 sample_de (sample_grant ''alice'' ''bob'') = Inr s'"
    using sample_alice_grants by (auto simp: is_ok_iff)
  show ?thesis
    using no_self_escalation [OF sample_de_inv sample_res_ok s'] s' by (auto simp: sample_grant_def)
qed

lemma records_at_recompute:
  assumes "recomputeFeeAllowance CN now s v = Inr s'"
  shows "records_at s' k = records_at s k"
proof -
  obtain F where "s' = s\<lparr>des_feegrants := F\<rparr>" by (rule recompute_only_fees [OF assms])
  then show ?thesis by (simp add: records_at_def split: option.split)
qed

lemma records_at_own:
  assumes "vs_ok s" "kget (des_vsoas s) i = Some v"
  shows "records_at s (vs_key v) = vs_records v"
  using vsix.index_lookup [OF vs_ok_index [OF assms(1)] assms(2)] assms(2) by (simp add: records_at_def)

text \<open>C24 fee_grant_follows_records: After a service-operator authorization is granted,
  revoked or given a new expiration, the chain-level fee grant of the pair is
  exactly the one its records call for: present iff some record with fee grant
  is unexpired, expiring with the last of them, for the union of their message
  types.\<close>

theorem fee_grant_follows_records:
  assumes inv: "de_inv s"
    and op: "GrantVSOperatorAuthorization CN now s c oper r = Inr s' \<or>
      (RevokeVSOperatorAuthorization CN now s p = Inr s' \<or>
       UpdateVSOperatorAuthorizationExpiration CN now s p e = Inr s') \<and>
      kget (des_vs_participant s) p = Some i \<and> kget (des_vsoas s) i = Some v \<and> vs_key v = (c, oper)"
  shows "fee_grant_derived now (records_at s' (c, oper)) (kget (des_feegrants s') (c, oper))"
proof -
  have vs: "vs_ok s" using inv by (rule de_inv_vs)
  have derived: ?thesis
    if "recomputeFeeAllowance CN now t w = Inr s'" "vs_key w = (c, oper)"
      "records_at t (c, oper) = vs_records w" for t w
    using recompute_derived [OF that(1)] records_at_recompute [OF that(1)] that(2,3) by simp
  show ?thesis
    using op
  proof (elim disjE conjE)
    assume g: "GrantVSOperatorAuthorization CN now s c oper r = Inr s'"
    obtain w where w: "vs_corp w = c" "vs_oper w = oper"
      "recomputeFeeAllowance CN now
        (add_record (s\<lparr>des_vs_seq := max (des_vs_seq s) (vs_id w)\<rparr>) c oper w r)
        (w\<lparr>vs_records := vs_records w @ [r]\<rparr>) = Inr s'"
      using GrantVS_state [OF vs g] by blast
    show ?thesis
      by (rule derived [OF w(3)]) (simp_all add: w vs_key_def records_at_def add_record_def)
  next
    assume r: "RevokeVSOperatorAuthorization CN now s p = Inr s'"
      and p: "kget (des_vs_participant s) p = Some i" and v: "kget (des_vsoas s) i = Some v"
      and k: "vs_key v = (c, oper)"
    define w where "w = v\<lparr>vs_records := filter (\<lambda>r. pr_participant r \<noteq> p) (vs_records v)\<rparr>"
    have g: "recomputeFeeAllowance CN now (drop_record s p i w) w = Inr s'"
      using r p v by (simp add: RevokeVSOperatorAuthorization_def drop_record_def Let_def w_def)
    have ix: "kget (des_vs_index s) (c, oper) = Some i"
      using vsix.index_lookup [OF vs_ok_index [OF vs] v] k by simp
    have kw: "vs_corp w = c" "vs_oper w = oper" using k by (simp_all add: w_def vs_key_def)
    show ?thesis
      by (rule derived [OF g]) (use ix kw in \<open>auto simp: vs_key_def records_at_def drop_record_def Let_def\<close>)
  next
    assume u: "UpdateVSOperatorAuthorizationExpiration CN now s p e = Inr s'"
      and p: "kget (des_vs_participant s) p = Some i" and v: "kget (des_vsoas s) i = Some v"
      and k: "vs_key v = (c, oper)"
    define w where "w = v\<lparr>vs_records := update_first (\<lambda>r. pr_participant r = p)
                              (pr_expiration_update (\<lambda>_. Some e)) (vs_records v)\<rparr>"
    have g: "recomputeFeeAllowance CN now (s\<lparr>des_vsoas := kset (des_vsoas s) i w\<rparr>) w = Inr s'"
      using u p v by (simp add: UpdateVSOperatorAuthorizationExpiration_def Let_def w_def)
    have ix: "kget (des_vs_index s) (c, oper) = Some i"
      using vsix.index_lookup [OF vs_ok_index [OF vs] v] k by simp
    show ?thesis
      by (rule derived [OF g]) (use ix k in \<open>auto simp: w_def vs_key_def records_at_def\<close>)
  qed
qed

theorem fee_grant_follows_records_witness:
  "\<exists>s'. GrantVSOperatorAuthorization list_coins 1 de_empty 3 ''vsop'' sample_record = Inr s' \<and>
     fee_grant_derived 1 (records_at s' (3, ''vsop'')) (kget (des_feegrants s') (3, ''vsop''))"
proof -
  obtain s' where s': "GrantVSOperatorAuthorization list_coins 1 de_empty 3 ''vsop'' sample_record = Inr s'"
    using sample_grant_vs_ok by (auto simp: is_ok_iff)
  show ?thesis
    using fee_grant_follows_records [OF de_inv_empty disjI1 [OF s']] s' by blast
qed

section \<open>Spend limits\<close>

text \<open>A sequence of metered executions by one operator for one message type.\<close>

fun spend_all ::
  "coins_ops \<Rightarrow> (string \<Rightarrow> nat option) \<Rightarrow> string \<Rightarrow> string \<Rightarrow> string \<Rightarrow> (time \<times> coins) list \<Rightarrow> de_state
     \<Rightarrow> de_error + de_state" where
  "spend_all CN res corp oper mt [] s = Inr s"
| "spend_all CN res corp oper mt ((now, spend) # xs) s =
     bindE (CheckOperatorAuthorizationWithSpend CN res s corp oper mt now spend)
       (spend_all CN res corp oper mt xs)"

definition within_period :: "oper_auth \<Rightarrow> time \<Rightarrow> time \<Rightarrow> bool" where
  "within_period a t0 now = (case oa_period a of None \<Rightarrow> True | Some p \<Rightarrow> p \<le> 0 \<or> time_sub now t0 < p)"

lemma amount_of_zero: "(\<forall>(d, n) \<in> set a. n = 0) \<Longrightarrow> amount_of a d = 0"
  by (induction a) auto

lemma within_period_refreshed:
  assumes "kget (des_usage s) (oa_id a) = Some u" "within_period a (ou_last_reset u) now"
  shows "refreshed_usage s a now = u"
  using assms by (auto simp: refreshed_usage_def within_period_def Let_def split: option.splits)

text \<open>One metered execution: either nothing is spent and nothing changes, or the
  refreshed ledger is debited by the amount.\<close>

lemma spend_step:
  assumes a: "res corp = Some c" "getOAByCorpOp s c oper = Inr (Some a)" "oper \<noteq> []"
    and ok: "CheckOperatorAuthorizationWithSpend CN res s corp oper mt now spend = Inr s'"
    and limit: "oa_spend_limit a \<noteq> []"
  shows "s' = s \<and> cn_is_zero CN spend \<or>
    (\<exists>rest. cn_sub CN (ou_remaining (refreshed_usage s a now)) spend = Some rest \<and>
       s' = s\<lparr>des_usage := kset (des_usage s) (oa_id a) ((refreshed_usage s a now)\<lparr>ou_remaining := rest\<rparr>)\<rparr>)"
  using ok a limit
  by (auto simp: CheckOperatorAuthorizationWithSpend_def checkOperatorAuthorizationCore_def Let_def
      bindE_def split: sum.splits option.splits if_splits)

lemma getOA_usage_frame: "getOAByCorpOp (s\<lparr>des_usage := U\<rparr>) c oper = getOAByCorpOp s c oper"
  by (simp add: getOAByCorpOp_def split: option.split)

lemma spend_all_bound:
  assumes laws: "coins_laws CN" and a: "res corp = Some c" "oper \<noteq> []" "oa_spend_limit a \<noteq> []"
  shows "getOAByCorpOp s c oper = Inr (Some a) \<Longrightarrow>
    kget (des_usage s) (oa_id a) = Some u \<Longrightarrow> cn_is_valid CN (ou_remaining u) \<Longrightarrow>
    \<forall>(now, spend) \<in> set xs. cn_is_valid CN spend \<and> within_period a (ou_last_reset u) now \<Longrightarrow>
    spend_all CN res corp oper mt xs s = Inr s' \<Longrightarrow>
    sum_list (map (\<lambda>(now, spend). amount_of spend d) xs) \<le> amount_of (ou_remaining u) d"
proof (induction xs arbitrary: s u)
  case Nil
  then show ?case using coins_laws.valid_nonneg [OF laws] by simp
next
  case (Cons x xs)
  obtain now spend where x: "x = (now, spend)" by (cases x)
  obtain t where t: "CheckOperatorAuthorizationWithSpend CN res s corp oper mt now spend = Inr t"
    and rest: "spend_all CN res corp oper mt xs t = Inr s'"
    using Cons.prems(5) x by (auto simp: bindE_ok_iff)
  have v: "cn_is_valid CN spend" "within_period a (ou_last_reset u) now" using Cons.prems(4) x by auto
  have u: "refreshed_usage s a now = u" by (rule within_period_refreshed [OF Cons.prems(2) v(2)])
  consider "t = s" "cn_is_zero CN spend" | r where "cn_sub CN (ou_remaining u) spend = Some r"
      "t = s\<lparr>des_usage := kset (des_usage s) (oa_id a) (u\<lparr>ou_remaining := r\<rparr>)\<rparr>"
    using spend_step [OF a(1) Cons.prems(1) a(2) t a(3)] u by auto
  then show ?case
  proof cases
    case 1
    then have "amount_of spend d = 0" using coins_laws.zero [OF laws] amount_of_zero by blast
    moreover have "sum_list (map (\<lambda>(now, spend). amount_of spend d) xs) \<le> amount_of (ou_remaining u) d"
      using Cons.IH [of s u] Cons.prems rest 1 by simp
    ultimately show ?thesis by (simp add: x)
  next
    case 2
    have r: "cn_is_valid CN r" "amount_of r d = amount_of (ou_remaining u) d - amount_of spend d"
      using coins_laws.sub_amount [OF laws Cons.prems(3) v(1) 2(1)] by simp_all
    have "sum_list (map (\<lambda>(now, spend). amount_of spend d) xs) \<le> amount_of (ou_remaining (u\<lparr>ou_remaining := r\<rparr>)) d"
      using Cons.prems rest 2(2) r(1)
      by (intro Cons.IH [of t "u\<lparr>ou_remaining := r\<rparr>"]) (auto simp: getOA_usage_frame)
    then show ?thesis using r(2) by (simp add: x)
  qed
qed

text \<open>The ledger an execution at a given time falls under: the stored one while its period
  runs, else a fresh one for the whole limit from that time on.\<close>

definition open_period :: "de_state \<Rightarrow> oper_auth \<Rightarrow> time \<Rightarrow> time \<times> coins" where
  "open_period s a now = (case kget (des_usage s) (oa_id a) of
     None \<Rightarrow> (now, oa_spend_limit a)
   | Some u \<Rightarrow> if within_period a (ou_last_reset u) now then (ou_last_reset u, ou_remaining u)
       else (now, oa_spend_limit a))"

lemma refreshed_open:
  shows "ou_last_reset (refreshed_usage s a now) = fst (open_period s a now)"
    "ou_remaining (refreshed_usage s a now) = snd (open_period s a now)"
  by (auto simp: refreshed_usage_def open_period_def within_period_def Let_def time_sub_def split: option.splits)

text \<open>C25 spend_limit_respected: whatever was metered before, take any execution that spends
  something, and all later ones in the period it falls under: what they spend adds up, in each
  denomination, to at most what that period has left: the remainder of the stored ledger
  while its period runs, and the full limit, counted from this execution on, when there is no
  ledger or its period has elapsed.  So a period never takes more than the limit, and a reset
  opens exactly one new period.\<close>

theorem spend_limit_respected:
  assumes laws: "coins_laws CN" and inv: "de_inv s"
    and a: "res corp = Some c" "oper \<noteq> []" "oa_holds s c oper a"
    and limit: "oa_spend_limit a \<noteq> []"
    and budget: "open_period s a t0 = (start, left)" "cn_is_valid CN left"
    and first: "cn_is_valid CN first" "\<not> cn_is_zero CN first"
    and xs: "\<forall>(now, spend) \<in> set xs. cn_is_valid CN spend \<and> within_period a start now"
    and ok: "spend_all CN res corp oper mt ((t0, first) # xs) s = Inr s'"
  shows "amount_of first d + sum_list (map (\<lambda>(now, spend). amount_of spend d) xs) \<le> amount_of left d"
proof -
  have g: "getOAByCorpOp s c oper = Inr (Some a)"
    using getOA_iff [OF de_inv_oa [OF inv]] a(3) by simp
  obtain t where t: "CheckOperatorAuthorizationWithSpend CN res s corp oper mt t0 first = Inr t"
    and rest: "spend_all CN res corp oper mt xs t = Inr s'"
    using ok by (auto simp: bindE_ok_iff)
  let ?u = "refreshed_usage s a t0"
  have u: "ou_last_reset ?u = start" "ou_remaining ?u = left"
    using refreshed_open [of s a t0] budget(1) by simp_all
  obtain r where r: "cn_sub CN left first = Some r"
      "t = s\<lparr>des_usage := kset (des_usage s) (oa_id a) (?u\<lparr>ou_remaining := r\<rparr>)\<rparr>"
    using spend_step [OF a(1) g a(2) t limit] first(2) u(2) by auto
  have v: "cn_is_valid CN r" "amount_of r d = amount_of left d - amount_of first d"
    using coins_laws.sub_amount [OF laws budget(2) first(1) r(1)] by simp_all
  have "sum_list (map (\<lambda>(now, spend). amount_of spend d) xs) \<le> amount_of (ou_remaining (?u\<lparr>ou_remaining := r\<rparr>)) d"
    using xs rest g v(1) r(2) u(1)
    by (intro spend_all_bound [where s = t and res = res and c = c and oper = oper and a = a,
          OF laws a(1) a(2) limit])
      (auto simp: getOA_usage_frame)
  then show ?thesis using v(2) by simp
qed

text \<open>The sample authorization after a first period in which everything was spent.\<close>

definition sample_spent :: de_state where
  "sample_spent = sample_de\<lparr>des_usage := kset kempty 1 \<lparr>ou_oa_id = 1, ou_remaining = [], ou_last_reset = 2\<rparr>\<rparr>"

lemma sample_usage: "kset (kremove kempty k) k u = kset kempty k u"
  by (rule store_eqI) (simp add: kget_kset kget_kremove)

lemma sample_spent_reached:
  "spend_all list_coins sample_res ''corp'' ''alice'' ''/verana.td.v1.MsgReclaimTrustDepositYield''
     [(2, [(''uvna'', 4)]), (3, [(''uvna'', 6)])] sample_de = Inr sample_spent"
  by (simp add: CheckOperatorAuthorizationWithSpend_def checkOperatorAuthorizationCore_def
      getOA_usage_frame expired_def refreshed_usage_def time_sub_def max_i64_def sample_spent_def
      coin_list_gte_def coin_list_sub_def Let_def kget_kremove kget_kset kset_kset_same sample_usage)

lemma spend_all_keeps: "spend_all CN res corp oper mt xs s = Inr s' \<Longrightarrow> de_inv s \<Longrightarrow> de_inv s'"
proof (induction xs arbitrary: s)
  case (Cons x xs)
  then show ?case by (cases x) (auto simp: bindE_ok_iff intro: de_inv_check_spend)
qed simp

lemma sample_spent_inv: "de_inv sample_spent"
  using sample_spent_reached sample_de_inv by (rule spend_all_keeps)

lemma sample_spend_ok:
  "is_ok (spend_all list_coins sample_res ''corp'' ''alice'' ''/verana.td.v1.MsgReclaimTrustDepositYield''
     [(60, [(''uvna'', 4)]), (70, [(''uvna'', 6)])] sample_spent)"
  by (simp add: CheckOperatorAuthorizationWithSpend_def checkOperatorAuthorizationCore_def
      getOA_usage_frame expired_def refreshed_usage_def time_sub_def max_i64_def sample_spent_def
      coin_list_gte_def coin_list_sub_def Let_def kget_kremove kget_kset)

theorem spend_limit_respected_witness:
  "open_period sample_spent (sample_oa 1 ''alice'') 60 = (60, [(''uvna'', 10)]) \<and>
   amount_of [(''uvna'', 4)] ''uvna'' + sum_list (map (\<lambda>(now :: time, spend). amount_of spend ''uvna'') [(70, [(''uvna'', 6)])])
     \<le> amount_of [(''uvna'', 10)] ''uvna''"
proof -
  obtain s' where s': "spend_all list_coins sample_res ''corp'' ''alice'' ''/verana.td.v1.MsgReclaimTrustDepositYield''
     [(60, [(''uvna'', 4)]), (70, [(''uvna'', 6)])] sample_spent = Inr s'"
    using sample_spend_ok by (auto simp: is_ok_iff)
  have o: "open_period sample_spent (sample_oa 1 ''alice'') 60 = (60, [(''uvna'', 10)])"
    by (simp add: open_period_def sample_spent_def within_period_def time_sub_def max_i64_def)
  have h: "oa_holds sample_spent 3 ''alice'' (sample_oa 1 ''alice'')"
    using sample_oa_holds by (simp add: oa_holds_def sample_spent_def)
  have "amount_of [(''uvna'', 4)] ''uvna'' + sum_list (map (\<lambda>(now :: time, spend). amount_of spend ''uvna'') [(70, [(''uvna'', 6)])])
     \<le> amount_of [(''uvna'', 10)] ''uvna''"
    by (rule spend_limit_respected [OF coin_lists.coins_laws_axioms sample_spent_inv sample_resolve _ h _ o _ _ _ _ s'])
      (simp_all add: within_period_def time_sub_def max_i64_def)
  with o show ?thesis by simp
qed

section \<open>Genesis\<close>

text \<open>C38 de_genesis_round_trip: Exporting the delegation state and importing it into an
  empty module restores every table and index; only the id counters change, to
  the largest id still in use, so that ids of deleted authorizations can be
  given out again.\<close>

theorem de_genesis_round_trip:
  assumes inv: "de_inv s"
  shows "de_InitGenesis (de_ExportGenesis s) de_empty =
    s\<lparr>des_oa_seq := maximum_id oa_id (walk (des_oas s)),
      des_vs_seq := maximum_id vs_id (walk (des_vsoas s))\<rparr>"
proof -
  have oa: "oa_ok s" and vs: "vs_ok s" and fg: "fg_ok s" using inv by (simp_all add: de_inv_def)
  have "kset_all oa_id (walk (des_oas s)) kempty = des_oas s"
    by (rule kset_all_walk) (rule oa_ok_id [OF oa])
  moreover have "kset_all vs_id (walk (des_vsoas s)) kempty = des_vsoas s"
    by (rule kset_all_walk) (rule vs_ok_id [OF vs])
  moreover have "kset_all ou_oa_id (walk (des_usage s)) kempty = des_usage s"
    by (rule kset_all_walk) (use oa_ok_usage [OF oa] in blast)
  moreover have "kset_all fg_key (walk (des_feegrants s)) kempty = des_feegrants s"
    by (rule kset_all_walk) (use fg_ok_grant [OF fg] in blast)
  moreover have "kset_index oa_key oa_id (walk (des_oas s)) kempty = des_oa_index s"
  proof (rule kset_index_rebuild)
    fix k i
    show "kget (des_oa_index s) k = Some i \<longleftrightarrow> (\<exists>x. x \<in> set (walk (des_oas s)) \<and> oa_key x = k \<and> oa_id x = i)"
      using oa_ok_index [OF oa] oa_ok_id [OF oa] unfolding oaix.index_ok_def walk_mem_iff by blast
  qed
  moreover have "kset_index vs_key vs_id (walk (des_vsoas s)) kempty = des_vs_index s"
  proof (rule kset_index_rebuild)
    fix k i
    show "kget (des_vs_index s) k = Some i \<longleftrightarrow> (\<exists>x. x \<in> set (walk (des_vsoas s)) \<and> vs_key x = k \<and> vs_id x = i)"
      using vs_ok_index [OF vs] vs_ok_id [OF vs] unfolding vsix.index_ok_def walk_mem_iff by blast
  qed
  moreover have "kset_index fst snd
      (concat (map (\<lambda>v. map (\<lambda>r. (pr_participant r, vs_id v)) (vs_records v)) (walk (des_vsoas s)))) kempty =
      des_vs_participant s"
  proof (rule kset_index_rebuild)
    fix p i
    let ?ps = "concat (map (\<lambda>v. map (\<lambda>r. (pr_participant r, vs_id v)) (vs_records v)) (walk (des_vsoas s)))"
    have "(\<exists>x. x \<in> set ?ps \<and> fst x = p \<and> snd x = i) \<longleftrightarrow>
        (\<exists>v. v \<in> set (walk (des_vsoas s)) \<and> p \<in> set (participants v) \<and> vs_id v = i)"
      by (auto simp: participants_def)
    also have "\<dots> \<longleftrightarrow> (\<exists>v. kget (des_vsoas s) i = Some v \<and> p \<in> set (participants v))"
      using vs_ok_id [OF vs] unfolding walk_mem_iff by metis
    also have "\<dots> \<longleftrightarrow> kget (des_vs_participant s) p = Some i"
      by (rule vs_ok_participant [OF vs, symmetric])
    finally show "kget (des_vs_participant s) p = Some i \<longleftrightarrow> (\<exists>x. x \<in> set ?ps \<and> fst x = p \<and> snd x = i)"
      by (rule sym)
  qed
  ultimately have tables: "kset_all oa_id (walk (des_oas s)) kempty = des_oas s"
      "kset_all vs_id (walk (des_vsoas s)) kempty = des_vsoas s"
      "kset_all ou_oa_id (walk (des_usage s)) kempty = des_usage s"
      "kset_all fg_key (walk (des_feegrants s)) kempty = des_feegrants s"
      "kset_index oa_key oa_id (walk (des_oas s)) kempty = des_oa_index s"
      "kset_index vs_key vs_id (walk (des_vsoas s)) kempty = des_vs_index s"
      "kset_index fst snd
      (concat (map (\<lambda>v. map (\<lambda>r. (pr_participant r, vs_id v)) (vs_records v)) (walk (des_vsoas s)))) kempty =
      des_vs_participant s" by blast+
  show ?thesis
    by (rule de_state.equality)
      (simp_all add: de_InitGenesis_def de_ExportGenesis_def Let_def de_empty_def tables)
qed

theorem de_genesis_round_trip_witness:
  "de_InitGenesis (de_ExportGenesis sample_de) de_empty = sample_de"
  unfolding de_genesis_round_trip [OF sample_de_inv]
  by (simp add: sample_de_def de_empty_def walk_def maximum_id_def sample_oa_def)

end
