(* ===== verification/Trust_Deposit.thy ===== *)
theory Trust_Deposit
imports Delegation
begin

text \<open>
  The trust-deposit module (src/x/td): the deposit records, the keeper calls other
  modules make (\<open>AdjustTrustDeposit\<close>, \<open>AdjustTrustDepositOnBehalf\<close>,
  \<open>BurnEcosystemSlashedTrustDeposit\<close>), the messages (reclaim, slash, repay,
  update of the parameters), the yield distribution of \<open>BeginBlocker\<close> and genesis.
  Every operation takes the module state and the bank state and returns both;
  amounts are integers with the \<open>uint64\<close> and \<open>int64\<close> conversions of the code.
\<close>

section \<open>Data and state\<close>

record trust_deposit =
  td_corp :: string
  td_share :: dec
  td_deposit :: int
  td_claimable :: int
  td_slashed :: int
  td_repaid :: int
  td_last_slashed :: "time option"
  td_last_repaid :: "time option"
  td_slash_count :: int

record td_params =
  tp_reclaim_burn_rate :: dec
  tp_share_value :: dec
  tp_rate :: dec
  tp_wallet_reward_rate :: dec
  tp_agent_reward_rate :: dec
  tp_max_yield_rate :: dec
  tp_yield_pool :: string
  tp_block_reward_share :: dec

record td_state =
  tds_deposits :: "(string, trust_deposit) store"
  tds_dust :: "string option"
  tds_params :: td_params

datatype td_error =
    Td_Empty_Account | Td_Bad_Address | Td_Zero_Augend | Td_Missing | Td_Slashed
  | Td_Exceeds_Deposit | Td_Negative | Td_Bank | Td_Panic | Td_Nonpositive | Td_Insufficient
  | Td_Zero_Share_Value | Td_Authz de_error | Td_Not_Registered | Td_Invalid_Authority
  | Td_No_Claimable | Td_Too_Large | Td_Wrong_Amount | Td_Reason | Td_Params | Td_Mint | Td_Query

definition td_module :: string where "td_module = ''td''"
definition yield_pool :: string where "yield_pool = ''yield_intermediate_pool''"
definition bond_denom :: string where "bond_denom = ''uvna''"
definition protocol_pool :: string where "protocol_pool = ''protocolpool''"

text \<open>A new entry as the composite literals of the code build it.\<close>

definition new_td :: "string \<Rightarrow> dec \<Rightarrow> int \<Rightarrow> trust_deposit" where
  "new_td account share amount = \<lparr>td_corp = account, td_share = share, td_deposit = amount,
     td_claimable = 0, td_slashed = 0, td_repaid = 0, td_last_slashed = None, td_last_repaid = None,
     td_slash_count = 0\<rparr>"

definition put_td :: "td_state \<Rightarrow> string \<Rightarrow> trust_deposit \<Rightarrow> td_state" where
  "put_td s account t = s\<lparr>tds_deposits := kset (tds_deposits s) account t\<rparr>"

section \<open>Shares (keeper/msg_server.go)\<close>

definition ShareToAmount :: "dec_ops \<Rightarrow> dec \<Rightarrow> dec \<Rightarrow> int option" where
  "ShareToAmount D share sv = (case dec_mul D share sv of None \<Rightarrow> None
     | Some a \<Rightarrow> if is_u64 (dec_truncate D a) then Some (dec_truncate D a) else None)"

definition AmountToShare :: "dec_ops \<Rightarrow> int \<Rightarrow> dec \<Rightarrow> dec option" where
  "AmountToShare D amount sv = (if sv = 0 then Some 0 else dec_quo D (dec_of_int D (i64 amount)) sv)"

section \<open>Bank calls\<close>

definition pay_in :: "'b bank_ops \<Rightarrow> 'b \<Rightarrow> string \<Rightarrow> int \<Rightarrow> td_error + 'b" where
  "pay_in B b from_acc n = bindE (optE Td_Panic (new_coins bond_denom n)) (\<lambda>cs.
     optE Td_Bank (bk_acc_to_mod B b from_acc td_module cs))"

definition pay_out :: "'b bank_ops \<Rightarrow> 'b \<Rightarrow> string \<Rightarrow> int \<Rightarrow> td_error + 'b" where
  "pay_out B b to_acc n = bindE (optE Td_Panic (new_coins bond_denom n)) (\<lambda>cs.
     optE Td_Bank (bk_mod_to_acc B b td_module to_acc cs))"

definition burn_td :: "'b bank_ops \<Rightarrow> 'b \<Rightarrow> int \<Rightarrow> td_error + 'b" where
  "burn_td B b n = bindE (optE Td_Panic (new_coins bond_denom n)) (\<lambda>cs.
     optE Td_Bank (bk_burn B b td_module cs))"

section \<open>AdjustTrustDeposit (keeper/adjust_td.go)\<close>

definition outstanding_slash :: "trust_deposit \<Rightarrow> bool" where
  "outstanding_slash t \<longleftrightarrow> 0 < td_slashed t \<and> td_repaid t < td_slashed t"

text \<open>The increase and decrease branches: the new deposit, claimable amount and share,
  and the amount still to be transferred.\<close>

definition adjust_increase :: "dec_ops \<Rightarrow> dec \<Rightarrow> trust_deposit \<Rightarrow> int \<Rightarrow> td_error + (int \<times> int \<times> dec \<times> int)" where
  "adjust_increase D sv t augend =
     (let deposit = i64 (td_deposit t); claimable = i64 (td_claimable t) in
      if 0 < claimable \<and> augend \<le> claimable
      then Inr (deposit, i64 (claimable - augend), td_share t, 0)
      else
        (let needed = (if 0 < claimable then i64 (augend - claimable) else augend) in
         bindE (optE Td_Panic (AmountToShare D (u64 needed) sv)) (\<lambda>missing.
         bindE (optE Td_Panic (dec_add D (td_share t) missing)) (\<lambda>share.
         Inr (i64 (deposit + needed), (if 0 < claimable then 0 else claimable), share, needed)))))"

definition adjust_decrease :: "trust_deposit \<Rightarrow> int \<Rightarrow> td_error + (int \<times> int \<times> dec \<times> int)" where
  "adjust_decrease t augend =
     (let deposit = i64 (td_deposit t); claimable = i64 (td_claimable t); absAugend = i64 (- augend) in
      if deposit < i64 (claimable + absAugend) then Inl Td_Exceeds_Deposit
      else Inr (deposit, i64 (claimable + absAugend), td_share t, 0))"

definition AdjustTrustDeposit ::
  "dec_ops \<Rightarrow> 'b bank_ops \<Rightarrow> sdk_env \<Rightarrow> td_state \<Rightarrow> 'b \<Rightarrow> string \<Rightarrow> int \<Rightarrow> td_error + td_state \<times> 'b" where
  "AdjustTrustDeposit D B E s b account augend =
     (if account = [] then Inl Td_Empty_Account
      else bindE (optE Td_Bad_Address (se_from_bech32 E account)) (\<lambda>sender.
      if augend = 0 then Inl Td_Zero_Augend
      else let sv = tp_share_value (tds_params s) in
      case kget (tds_deposits s) account of
        None \<Rightarrow>
          if augend < 0 then Inl Td_Missing
          else
            bindE (optE Td_Panic (AmountToShare D (u64 augend) sv)) (\<lambda>share.
            bindE (pay_in B b sender augend) (\<lambda>b'.
            Inr (put_td s account (new_td account share (u64 augend)), b')))
      | Some t \<Rightarrow>
          if outstanding_slash t then Inl Td_Slashed
          else
            bindE (if 0 < augend then adjust_increase D sv t augend else adjust_decrease t augend)
              (\<lambda>(deposit, claimable, share, transfer).
            if deposit < 0 \<or> claimable < 0 \<or> share < 0 then Inl Td_Negative
            else let s' = put_td s account (t\<lparr>td_deposit := u64 deposit, td_claimable := u64 claimable,
                                              td_share := share\<rparr>) in
              if 0 < transfer then bindE (pay_in B b sender transfer) (\<lambda>b'. Inr (s', b'))
              else Inr (s', b))))"

definition AdjustTrustDepositOnBehalf ::
  "dec_ops \<Rightarrow> 'b bank_ops \<Rightarrow> td_state \<Rightarrow> 'b \<Rightarrow> string \<Rightarrow> string \<Rightarrow> int \<Rightarrow> td_error + td_state \<times> 'b" where
  "AdjustTrustDepositOnBehalf D B s b account funder amount =
     (if amount \<le> 0 then Inl Td_Nonpositive
      else if account = [] then Inl Td_Empty_Account
      else if (case kget (tds_deposits s) account of None \<Rightarrow> False | Some t \<Rightarrow> outstanding_slash t)
        then Inl Td_Slashed
      else
        bindE (optE Td_Panic (AmountToShare D (u64 amount) (tp_share_value (tds_params s)))) (\<lambda>augendShare.
        bindE (case kget (tds_deposits s) account of
            None \<Rightarrow> Inr (new_td account augendShare (u64 amount))
          | Some t \<Rightarrow> bindE (optE Td_Panic (dec_add D (td_share t) augendShare)) (\<lambda>share.
              Inr (t\<lparr>td_deposit := u64 (td_deposit t + u64 amount), td_share := share\<rparr>))) (\<lambda>t.
        bindE (pay_in B b funder amount) (\<lambda>b'.
        Inr (put_td s account t, b')))))"

section \<open>Burning an ecosystem slash (keeper/burn_slashed_td.go)\<close>

definition executeBurn ::
  "dec_ops \<Rightarrow> 'b bank_ops \<Rightarrow> td_state \<Rightarrow> 'b \<Rightarrow> string \<Rightarrow> trust_deposit \<Rightarrow> int \<Rightarrow> td_error + td_state \<times> 'b" where
  "executeBurn D B s b account t amount =
     (let sv = tp_share_value (tds_params s) in
      if sv = 0 then Inl Td_Zero_Share_Value
      else
        bindE (optE Td_Panic (dec_quo D (dec_of_int D (i64 amount)) sv)) (\<lambda>red.
        bindE (optE Td_Panic (dec_sub D (td_share t) red)) (\<lambda>share.
        bindE (burn_td B b (i64 amount)) (\<lambda>b'.
        Inr (put_td s account (t\<lparr>td_deposit := u64 (td_deposit t - amount),
               td_share := (if share < 0 then 0 else share)\<rparr>), b')))))"

definition BurnEcosystemSlashedTrustDeposit ::
  "dec_ops \<Rightarrow> 'b bank_ops \<Rightarrow> td_state \<Rightarrow> 'b \<Rightarrow> string \<Rightarrow> int \<Rightarrow> td_error + td_state \<times> 'b" where
  "BurnEcosystemSlashedTrustDeposit D B s b account amount =
     (if account = [] then Inl Td_Empty_Account
      else if amount = 0 then Inl Td_Nonpositive
      else case kget (tds_deposits s) account of
        None \<Rightarrow> Inl Td_Missing
      | Some t \<Rightarrow> if td_deposit t < amount then Inl Td_Insufficient
                 else executeBurn D B s b account t amount)"

section \<open>Messages (keeper/msg_server.go, types/types.go)\<close>

record msg_slash_td =
  sl_authority :: string
  sl_corporation :: string
  sl_deposit :: int
  sl_reason :: string

record msg_repay_td =
  rp_corporation :: string
  rp_operator :: string
  rp_deposit :: int

definition validate_reclaim :: "sdk_env \<Rightarrow> string \<Rightarrow> string \<Rightarrow> td_error + unit" where
  "validate_reclaim E corporation operator =
     (if \<not> valid_addr E corporation then Inl Td_Bad_Address
      else if \<not> valid_addr E operator then Inl Td_Bad_Address else Inr ())"

definition validate_slash :: "sdk_env \<Rightarrow> msg_slash_td \<Rightarrow> td_error + unit" where
  "validate_slash E m =
     (if \<not> valid_addr E (sl_authority m) then Inl Td_Bad_Address
      else if \<not> valid_addr E (sl_corporation m) then Inl Td_Bad_Address
      else if sl_deposit m \<le> 0 then Inl Td_Nonpositive
      else if sl_reason m = [] then Inl Td_Reason else Inr ())"

definition validate_repay :: "sdk_env \<Rightarrow> msg_repay_td \<Rightarrow> td_error + unit" where
  "validate_repay E m =
     (if \<not> valid_addr E (rp_corporation m) then Inl Td_Bad_Address
      else if \<not> valid_addr E (rp_operator m) then Inl Td_Bad_Address
      else if rp_deposit m = 0 then Inl Td_Nonpositive else Inr ())"

text \<open>The authorization preamble of the delegable messages: AUTHZ-CHECK-1, then
  AUTHZ-CHECK-5.\<close>

definition td_authorize ::
  "(string \<Rightarrow> nat option) \<Rightarrow> de_state \<Rightarrow> time \<Rightarrow> string \<Rightarrow> string \<Rightarrow> string \<Rightarrow> td_error + unit" where
  "td_authorize res de now corporation operator mt =
     bindE (liftE Td_Authz (CheckOperatorAuthorization res de corporation operator mt now)) (\<lambda>_.
     bindE (optE Td_Not_Registered (res corporation)) (\<lambda>_. Inr ()))"

text \<open>Returns the claimed amount with the new state.\<close>

definition ReclaimTrustDepositYield ::
  "dec_ops \<Rightarrow> 'b bank_ops \<Rightarrow> sdk_env \<Rightarrow> (string \<Rightarrow> nat option) \<Rightarrow> de_state \<Rightarrow> td_state \<Rightarrow> 'b
     \<Rightarrow> string \<Rightarrow> string \<Rightarrow> td_error + int \<times> td_state \<times> 'b" where
  "ReclaimTrustDepositYield D B E res de s b corporation operator =
     bindE (td_authorize res de (se_block_time E) corporation operator
              ''/verana.td.v1.MsgReclaimTrustDepositYield'') (\<lambda>_.
     bindE (optE Td_Missing (kget (tds_deposits s) corporation)) (\<lambda>t.
     if 0 < td_slashed t then Inl Td_Slashed
     else if td_claimable t = 0 then Inl Td_No_Claimable
     else
       (let claimed = td_claimable t in
        bindE (optE Td_Panic (AmountToShare D claimed (tp_share_value (tds_params s)))) (\<lambda>red.
        bindE (optE Td_Panic (dec_sub D (td_share t) red)) (\<lambda>share.
        bindE (optE Td_Bad_Address (se_from_bech32 E corporation)) (\<lambda>addr.
        if max_i64 < claimed then Inl Td_Too_Large
        else
          bindE (pay_out B b addr (i64 claimed)) (\<lambda>b'.
          Inr (claimed, put_td s corporation (t\<lparr>td_share := share, td_claimable := 0\<rparr>), b'))))))))"

definition SlashTrustDeposit ::
  "dec_ops \<Rightarrow> sdk_env \<Rightarrow> string \<Rightarrow> td_state \<Rightarrow> msg_slash_td \<Rightarrow> td_error + td_state" where
  "SlashTrustDeposit D E authority s m =
     (if authority \<noteq> sl_authority m then Inl Td_Invalid_Authority
      else if sl_deposit m \<le> 0 then Inl Td_Nonpositive
      else if \<not> is_u64 (sl_deposit m) then Inl Td_Too_Large
      else
        bindE (optE Td_Missing (kget (tds_deposits s) (sl_corporation m))) (\<lambda>t.
        if td_deposit t < sl_deposit m then Inl Td_Insufficient
        else
          bindE (optE Td_Panic (dec_quo D (dec_of_int D (sl_deposit m)) (tp_share_value (tds_params s)))) (\<lambda>red.
          bindE (optE Td_Panic (dec_sub D (td_share t) red)) (\<lambda>share.
          Inr (put_td s (sl_corporation m)
                (t\<lparr>td_deposit := u64 (td_deposit t - sl_deposit m), td_share := share,
                   td_slashed := u64 (td_slashed t + sl_deposit m),
                   td_last_slashed := Some (se_block_time E),
                   td_slash_count := u64 (td_slash_count t + 1)\<rparr>))))))"

definition RepaySlashedTrustDeposit ::
  "dec_ops \<Rightarrow> 'b bank_ops \<Rightarrow> sdk_env \<Rightarrow> (string \<Rightarrow> nat option) \<Rightarrow> de_state \<Rightarrow> td_state \<Rightarrow> 'b
     \<Rightarrow> msg_repay_td \<Rightarrow> td_error + td_state \<times> 'b" where
  "RepaySlashedTrustDeposit D B E res de s b m =
     bindE (td_authorize res de (se_block_time E) (rp_corporation m) (rp_operator m)
              ''/verana.td.v1.MsgRepaySlashedTrustDeposit'') (\<lambda>_.
     bindE (optE Td_Missing (kget (tds_deposits s) (rp_corporation m))) (\<lambda>t.
     if rp_deposit m \<noteq> td_slashed t then Inl Td_Wrong_Amount
     else
       bindE (optE Td_Bad_Address (se_from_bech32 E (rp_corporation m))) (\<lambda>addr.
       bindE (optE Td_Panic (AmountToShare D (rp_deposit m) (tp_share_value (tds_params s)))) (\<lambda>inc.
       bindE (optE Td_Panic (dec_add D (td_share t) inc)) (\<lambda>share.
       if max_i64 < rp_deposit m then Inl Td_Too_Large
       else
         bindE (pay_in B b addr (i64 (rp_deposit m))) (\<lambda>b1.
         bindE (burn_td B b1 (i64 (rp_deposit m))) (\<lambda>b2.
         Inr (put_td s (rp_corporation m)
               (t\<lparr>td_deposit := u64 (td_deposit t + rp_deposit m), td_share := share,
                  td_slashed := u64 (td_slashed t - rp_deposit m),
                  td_repaid := u64 (td_repaid t + rp_deposit m),
                  td_last_repaid := Some (se_block_time E)\<rparr>), b2))))))))"

text \<open>\<open>MsgUpdateParams\<close>: the authority is compared, the parameters are stored as given.\<close>

definition td_UpdateParams :: "string \<Rightarrow> td_state \<Rightarrow> string \<Rightarrow> td_params \<Rightarrow> td_error + td_state" where
  "td_UpdateParams authority s signer p =
     (if authority \<noteq> signer then Inl Td_Invalid_Authority else Inr (s\<lparr>tds_params := p\<rparr>))"

definition GetTrustDeposit :: "sdk_env \<Rightarrow> td_state \<Rightarrow> string \<Rightarrow> td_error + trust_deposit" where
  "GetTrustDeposit E s corporation =
     (if \<not> valid_addr E corporation then Inl Td_Bad_Address
      else optE Td_Query (kget (tds_deposits s) corporation))"

section \<open>Parameters (types/params.go)\<close>

definition validateLegacyDec :: "dec \<Rightarrow> bool" where
  "validateLegacyDec v \<longleftrightarrow> 0 \<le> v \<and> v \<le> dec_one"

definition validatePositiveLegacyDec :: "dec \<Rightarrow> bool" where
  "validatePositiveLegacyDec v \<longleftrightarrow> 0 < v"

definition td_params_validate :: "sdk_env \<Rightarrow> td_params \<Rightarrow> bool" where
  "td_params_validate E p \<longleftrightarrow>
     validateLegacyDec (tp_reclaim_burn_rate p) \<and> validatePositiveLegacyDec (tp_share_value p) \<and>
     validateLegacyDec (tp_rate p) \<and> validateLegacyDec (tp_wallet_reward_rate p) \<and>
     validateLegacyDec (tp_agent_reward_rate p) \<and> validateLegacyDec (tp_max_yield_rate p) \<and>
     (tp_yield_pool p \<noteq> [] \<longrightarrow> valid_addr E (tp_yield_pool p)) \<and>
     validateLegacyDec (tp_block_reward_share p)"

text \<open>The defaults, in units of \<open>10 ^ -18\<close>; the pool is the bech32 form of the module
  account, a parameter.\<close>

definition td_DefaultParams :: "string \<Rightarrow> td_params" where
  "td_DefaultParams pool = \<lparr>tp_reclaim_burn_rate = 0, tp_share_value = dec_one,
     tp_rate = 2 * 10 ^ 17, tp_wallet_reward_rate = 2 * 10 ^ 17, tp_agent_reward_rate = 2 * 10 ^ 17,
     tp_max_yield_rate = 15 * 10 ^ 16, tp_yield_pool = pool, tp_block_reward_share = 2 * 10 ^ 17\<rparr>"

section \<open>Yield distribution (keeper/begin_block.go)\<close>

definition read_dust :: "dec_ops \<Rightarrow> td_state \<Rightarrow> td_error + dec" where
  "read_dust D s = (case tds_dust s of None \<Rightarrow> Inr 0
     | Some t \<Rightarrow> if t = [] then Inr 0 else optE Td_Panic (dec_of_string D t))"

definition yield_allowance :: "dec_ops \<Rightarrow> td_params \<Rightarrow> int \<Rightarrow> dec \<Rightarrow> int \<Rightarrow> td_error + dec" where
  "yield_allowance D p blocksPerYear dust balance =
     bindE (optE Td_Panic (dec_quo D (tp_max_yield_rate p) (dec_of_int D (i64 blocksPerYear)))) (\<lambda>rate.
     bindE (optE Td_Panic (dec_mul D (dec_of_int D balance) rate)) (\<lambda>perBlock.
     optE Td_Panic (dec_add D dust perBlock)))"

definition new_share_value :: "dec_ops \<Rightarrow> td_params \<Rightarrow> dec \<Rightarrow> dec \<Rightarrow> td_error + td_params" where
  "new_share_value D p before later =
     (if before = 0 then Inr p
      else bindE (optE Td_Panic (dec_quo D later before)) (\<lambda>m.
           bindE (optE Td_Panic (dec_mul D (tp_share_value p) m)) (\<lambda>v.
           Inr (p\<lparr>tp_share_value := v\<rparr>))))"

text \<open>The rest of the pool goes back to the protocol pool; a failing transfer is only
  logged.\<close>

definition return_excess :: "dec_ops \<Rightarrow> 'b bank_ops \<Rightarrow> sdk_env \<Rightarrow> 'b \<Rightarrow> dec \<Rightarrow> td_error + 'b" where
  "return_excess D B E b rest =
     (if 0 < rest then
        bindE (optE Td_Panic (new_coins bond_denom (dec_truncate D rest))) (\<lambda>cs.
        Inr (case bk_mod_to_acc B b yield_pool (se_module_addr E protocol_pool) cs of
               None \<Rightarrow> b | Some b' \<Rightarrow> b'))
      else Inr b)"

definition pool_address :: "sdk_env \<Rightarrow> td_params \<Rightarrow> string" where
  "pool_address E p = (case se_from_bech32 E (tp_yield_pool p) of
     Some a \<Rightarrow> a | None \<Rightarrow> se_module_addr E yield_pool)"

definition distribute_yield ::
  "dec_ops \<Rightarrow> 'b bank_ops \<Rightarrow> sdk_env \<Rightarrow> td_state \<Rightarrow> 'b \<Rightarrow> dec \<Rightarrow> dec \<Rightarrow> dec \<Rightarrow> td_error + td_state \<times> 'b" where
  "distribute_yield D B E s b before allowance pool =
     (let amtD = min allowance pool; amt = dec_truncate D amtD in
      if \<not> 0 < amt then Inr (s, b)
      else
        bindE (optE Td_Panic (new_coins bond_denom amt)) (\<lambda>cs.
        bindE (optE Td_Bank (bk_mod_to_mod B b yield_pool td_module cs)) (\<lambda>b1.
        bindE (new_share_value D (tds_params s) before
                 (dec_of_int D (bk_balance B b1 (se_module_addr E td_module) bond_denom))) (\<lambda>p'.
        bindE (optE Td_Panic (dec_sub D amtD (dec_of_int D amt))) (\<lambda>remainder.
        bindE (optE Td_Panic (dec_sub D pool amtD)) (\<lambda>rest.
        bindE (return_excess D B E b1 rest) (\<lambda>b2.
        Inr (s\<lparr>tds_params := p', tds_dust := Some (dec_to_string D remainder)\<rparr>, b2))))))))"

definition td_BeginBlocker ::
  "dec_ops \<Rightarrow> 'b bank_ops \<Rightarrow> sdk_env \<Rightarrow> int option \<Rightarrow> td_state \<Rightarrow> 'b \<Rightarrow> td_error + td_state \<times> 'b" where
  "td_BeginBlocker D B E blocksPerYear s b =
     bindE (optE Td_Mint blocksPerYear) (\<lambda>n.
     let p = tds_params s in
     if tp_yield_pool p = [] \<or> n = 0 \<or> tp_max_yield_rate p = 0 then Inr (s, b)
     else
       bindE (read_dust D s) (\<lambda>dust.
       let before = bk_balance B b (se_module_addr E td_module) bond_denom in
       bindE (yield_allowance D p n dust before) (\<lambda>allowance.
       distribute_yield D B E s b (dec_of_int D before) allowance
         (dec_of_int D (bk_balance B b (pool_address E p) bond_denom)))))"

section \<open>Genesis (module/genesis.go, types/genesis.go)\<close>

record td_record =
  tr_corp :: string
  tr_share :: dec
  tr_deposit :: int
  tr_claimable :: int

record td_genesis =
  tg_params :: td_params
  tg_records :: "td_record list"
  tg_dust :: string

definition td_InitGenesis :: "td_genesis \<Rightarrow> td_state \<Rightarrow> td_state" where
  "td_InitGenesis g s =
     s\<lparr>tds_params := tg_params g,
       tds_dust := (if tg_dust g \<noteq> [] then Some (tg_dust g) else tds_dust s),
       tds_deposits := kset_all td_corp
         (map (\<lambda>r. (new_td (tr_corp r) (tr_share r) (tr_deposit r))\<lparr>td_claimable := tr_claimable r\<rparr>)
           (tg_records g)) (tds_deposits s)\<rparr>"

definition td_ExportGenesis :: "td_state \<Rightarrow> td_genesis" where
  "td_ExportGenesis s = \<lparr>tg_params = tds_params s,
     tg_records = map (\<lambda>t. \<lparr>tr_corp = td_corp t, tr_share = td_share t, tr_deposit = td_deposit t,
                            tr_claimable = td_claimable t\<rparr>) (walk (tds_deposits s)),
     tg_dust = (case tds_dust s of None \<Rightarrow> [] | Some d \<Rightarrow> d)\<rparr>"

definition td_validate_genesis :: "sdk_env \<Rightarrow> td_genesis \<Rightarrow> bool" where
  "td_validate_genesis E g \<longleftrightarrow> td_params_validate E (tg_params g) \<and>
     list_all (\<lambda>r. valid_addr E (tr_corp r) \<and> tr_claimable r \<le> tr_deposit r) (tg_records g) \<and>
     distinct (map tr_corp (tg_records g))"

end
