(* ===== verification/Trust_Deposit_Inv.thy ===== *)
theory Trust_Deposit_Inv
imports Trust_Deposit
begin

text \<open>
  The accounting of the trust-deposit module: what the module account holds
  against what the records say it owes (\<open>backing\<close>), the ranges of the recorded
  amounts, and the effect of every operation on both, one lemma per operation.
\<close>

section \<open>Ranges and totals\<close>

definition td_range :: "trust_deposit \<Rightarrow> bool" where
  "td_range t \<longleftrightarrow> is_u64 (td_deposit t) \<and> 0 \<le> td_claimable t \<and> td_claimable t < 2 ^ 63 \<and>
     is_u64 (td_slashed t) \<and> is_u64 (td_repaid t) \<and> is_u64 (td_slash_count t)"

definition td_inv :: "td_state \<Rightarrow> bool" where
  "td_inv s \<longleftrightarrow> (\<forall>k t. kget (tds_deposits s) k = Some t \<longrightarrow> td_corp t = k \<and> td_range t)"

definition covered :: "td_state \<Rightarrow> bool" where
  "covered s \<longleftrightarrow> (\<forall>k t. kget (tds_deposits s) k = Some t \<longrightarrow> td_claimable t \<le> td_deposit t)"

text \<open>What the records say is locked in the module account: deposits, and slashed
  amounts that are neither repaid nor burned.\<close>

definition locked :: "trust_deposit \<Rightarrow> int" where
  "locked t = td_deposit t + td_slashed t"

definition backing :: "td_state \<Rightarrow> int" where
  "backing s = ksum locked (tds_deposits s)"

definition module_balance :: "'b bank_ops \<Rightarrow> sdk_env \<Rightarrow> 'b \<Rightarrow> int" where
  "module_balance B E b = bk_balance B b (se_module_addr E td_module) bond_denom"

definition surplus :: "'b bank_ops \<Rightarrow> sdk_env \<Rightarrow> td_state \<Rightarrow> 'b \<Rightarrow> int" where
  "surplus B E s b = module_balance B E b - backing s"

lemma td_inv_range: "td_inv s \<Longrightarrow> kget (tds_deposits s) k = Some t \<Longrightarrow> td_range t"
  unfolding td_inv_def by blast

lemma td_inv_corp: "td_inv s \<Longrightarrow> kget (tds_deposits s) k = Some t \<Longrightarrow> td_corp t = k"
  unfolding td_inv_def by blast

lemma td_range_nonneg:
  "td_range t \<Longrightarrow> 0 \<le> td_deposit t \<and> 0 \<le> td_claimable t \<and> 0 \<le> td_slashed t \<and> 0 \<le> td_repaid t"
  by (simp add: td_range_def is_u64_def)

lemma put_td_sel [simp]:
  "tds_deposits (put_td s k t) = kset (tds_deposits s) k t"
  "tds_params (put_td s k t) = tds_params s"
  "tds_dust (put_td s k t) = tds_dust s"
  by (simp_all add: put_td_def)

lemma td_inv_put: "td_inv s \<Longrightarrow> td_corp t = k \<Longrightarrow> td_range t \<Longrightarrow> td_inv (put_td s k t)"
  by (auto simp: td_inv_def kget_kset split: if_splits)

lemma covered_put: "covered s \<Longrightarrow> td_claimable t \<le> td_deposit t \<Longrightarrow> covered (put_td s k t)"
  by (auto simp: covered_def kget_kset split: if_splits)

lemma backing_put_new: "kget (tds_deposits s) k = None \<Longrightarrow> backing (put_td s k t) = backing s + locked t"
  by (simp add: backing_def ksum_kset_new)

lemma backing_put:
  "kget (tds_deposits s) k = Some u \<Longrightarrow> backing (put_td s k t) = backing s + locked t - locked u"
  by (simp add: backing_def ksum_kset_upd)

lemma locked_le_backing:
  assumes "td_inv s" "kget (tds_deposits s) k = Some t"
  shows "locked t \<le> backing s"
  unfolding backing_def
  by (rule ksum_ge_member [OF assms(2)])
    (use td_inv_range [OF assms(1)] td_range_nonneg in \<open>force simp: locked_def\<close>)

lemma new_td_sel [simp]:
  "td_corp (new_td a sh n) = a" "td_share (new_td a sh n) = sh" "td_deposit (new_td a sh n) = n"
  "td_claimable (new_td a sh n) = 0" "td_slashed (new_td a sh n) = 0" "td_repaid (new_td a sh n) = 0"
  "td_slash_count (new_td a sh n) = 0" "locked (new_td a sh n) = n"
  by (simp_all add: new_td_def locked_def)

section \<open>Bank calls\<close>

lemma pay_in_balance:
  assumes "bank_laws B (se_module_addr E)" "pay_in B b a n = Inr b'" "a \<noteq> se_module_addr E td_module"
  shows "module_balance B E b' = module_balance B E b + n" and "0 \<le> n"
proof -
  obtain cs where cs: "new_coins bond_denom n = Some cs" "bk_acc_to_mod B b a td_module cs = Some b'"
    using assms(2) by (auto simp: pay_in_def bindE_ok_iff optE_ok_iff)
  show "module_balance B E b' = module_balance B E b + n"
    using bank_laws.acc_to_mod_balance [OF assms(1) cs(2)] assms(3) new_coins_amount [OF cs(1)]
    by (simp add: module_balance_def)
  show "0 \<le> n" using cs(1) new_coins_ok_iff [of bond_denom n] by simp
qed

lemma pay_out_balance:
  assumes "bank_laws B (se_module_addr E)" "pay_out B b a n = Inr b'" "a \<noteq> se_module_addr E td_module"
  shows "module_balance B E b' = module_balance B E b - n" and "0 \<le> n"
proof -
  obtain cs where cs: "new_coins bond_denom n = Some cs" "bk_mod_to_acc B b td_module a cs = Some b'"
    using assms(2) by (auto simp: pay_out_def bindE_ok_iff optE_ok_iff)
  show "module_balance B E b' = module_balance B E b - n"
    using bank_laws.mod_to_acc_balance [OF assms(1) cs(2)] assms(3) new_coins_amount [OF cs(1)]
    by (simp add: module_balance_def)
  show "0 \<le> n" using cs(1) new_coins_ok_iff [of bond_denom n] by simp
qed

lemma burn_td_balance:
  assumes "bank_laws B (se_module_addr E)" "burn_td B b n = Inr b'"
  shows "module_balance B E b' = module_balance B E b - n" and "0 \<le> n"
proof -
  obtain cs where cs: "new_coins bond_denom n = Some cs" "bk_burn B b td_module cs = Some b'"
    using assms(2) by (auto simp: burn_td_def bindE_ok_iff optE_ok_iff)
  show "module_balance B E b' = module_balance B E b - n"
    using bank_laws.burn [OF assms(1) cs(2)] new_coins_amount [OF cs(1)] by (simp add: module_balance_def)
  show "0 \<le> n" using cs(1) new_coins_ok_iff [of bond_denom n] by simp
qed

section \<open>AdjustTrustDeposit\<close>

text \<open>A successful adjustment of an existing record, in unbounded arithmetic: what is
  taken from the claimable amount, what is transferred.\<close>

lemma adjust_increase_effect:
  assumes t: "td_range t" "td_deposit t < 2 ^ 63"
    and g: "0 < augend" "is_i64 augend"
    and ok: "adjust_increase D sv t augend = Inr (deposit, claimable, share, transfer)" "0 \<le> deposit"
  shows "transfer = max 0 (augend - td_claimable t) \<and>
    deposit = td_deposit t + transfer \<and> claimable = td_claimable t - (augend - transfer) \<and>
    (transfer = 0 \<longrightarrow> share = td_share t)"
proof -
  have r: "0 \<le> td_deposit t" "0 \<le> td_claimable t" using td_range_nonneg [OF t(1)] by simp_all
  have c63: "td_claimable t < 2 ^ 63" using t(1) by (simp add: td_range_def)
  have i: "i64 (td_deposit t) = td_deposit t" "i64 (td_claimable t) = td_claimable t"
    using r t(2) c63 by (simp_all add: i64_id)
  have a: "augend < 2 ^ 63" using g(2) by (simp add: is_i64_def)
  show ?thesis
  proof (cases "0 < td_claimable t \<and> augend \<le> td_claimable t")
    case True
    then have "i64 (td_claimable t - augend) = td_claimable t - augend"
      using c63 g(1) by (simp add: i64_id)
    then show ?thesis using True ok(1) i by (auto simp: adjust_increase_def Let_def)
  next
    case False
    define needed where "needed = (if 0 < td_claimable t then i64 (augend - td_claimable t) else augend)"
    have n: "needed = augend - td_claimable t" "0 < needed"
      using False a r(2) g(1) by (auto simp: needed_def i64_id)
    have res: "deposit = i64 (td_deposit t + needed)" "claimable = 0" "transfer = needed"
      using ok(1) False i r(2)
      by (auto simp: adjust_increase_def Let_def needed_def bindE_ok_iff optE_ok_iff split: if_splits)
    have "td_deposit t + needed < 2 ^ 63"
    proof (rule ccontr)
      assume "\<not> ?thesis"
      moreover have "td_deposit t + needed < 2 ^ 64" using t(2) n(1) a r(2) by simp
      ultimately have "i64 (td_deposit t + needed) < 0" by (simp add: i64_overflow)
      then show False using ok(2) res(1) by simp
    qed
    then have "i64 (td_deposit t + needed) = td_deposit t + needed" using r n(2) by (simp add: i64_id)
    then show ?thesis using res n by auto
  qed
qed

lemma adjust_decrease_effect:
  assumes t: "td_range t" "td_deposit t < 2 ^ 63"
    and g: "augend < 0" "is_i64 augend"
    and ok: "adjust_decrease t augend = Inr (deposit, claimable, share, transfer)" "0 \<le> claimable"
  shows "deposit = td_deposit t \<and> claimable = td_claimable t - augend \<and> claimable \<le> deposit \<and>
    share = td_share t \<and> transfer = 0"
proof -
  have r: "0 \<le> td_deposit t" "0 \<le> td_claimable t" using td_range_nonneg [OF t(1)] by simp_all
  have c63: "td_claimable t < 2 ^ 63" using t(1) by (simp add: td_range_def)
  have i: "i64 (td_deposit t) = td_deposit t" "i64 (td_claimable t) = td_claimable t"
    using r t(2) c63 by (simp_all add: i64_id)
  have res: "deposit = td_deposit t" "claimable = i64 (td_claimable t + i64 (- augend))"
      "claimable \<le> deposit" "share = td_share t" "transfer = 0"
    using ok(1) i by (auto simp: adjust_decrease_def Let_def split: if_splits)
  have "claimable = td_claimable t - augend"
  proof (cases "augend = - (2 ^ 63)")
    case True
    have m: "i64 (- augend) = - (2 ^ 63)" by (simp add: True i64_def)
    have "claimable = td_claimable t - 2 ^ 63"
      using res(2) r c63 by (simp add: m i64_id)
    then show ?thesis using ok(2) c63 by simp
  next
    case False
    then have a: "i64 (- augend) = - augend" using g by (simp add: i64_id is_i64_def)
    show ?thesis
    proof (cases "td_claimable t - augend < 2 ^ 63")
      case True
      then show ?thesis using res(2) a r g(1) by (simp add: i64_id)
    next
      case False
      have "td_claimable t - augend < 2 ^ 64"
        using c63 g(2) \<open>augend \<noteq> - (2 ^ 63)\<close> by (simp add: is_i64_def)
      then have "i64 (td_claimable t - augend) < 0" using False by (simp add: i64_overflow)
      then show ?thesis using res(2) a ok(2) by simp
    qed
  qed
  then show ?thesis using res by simp
qed

text \<open>What a successful call does to the record and to the module account.\<close>

definition adjusted :: "trust_deposit \<Rightarrow> int \<Rightarrow> trust_deposit \<Rightarrow> int \<Rightarrow> bool" where
  "adjusted t augend t' paid \<longleftrightarrow>
     paid = (if 0 < augend then max 0 (augend - td_claimable t) else 0) \<and>
     td_deposit t' = td_deposit t + paid \<and>
     td_claimable t' = td_claimable t - (augend - paid) \<and>
     (augend < 0 \<longrightarrow> td_claimable t' \<le> td_deposit t) \<and>
     0 \<le> td_claimable t' \<and> 0 \<le> td_share t' \<and> (paid = 0 \<longrightarrow> td_share t' = td_share t) \<and>
     td_corp t' = td_corp t \<and> td_slashed t' = td_slashed t \<and> td_repaid t' = td_repaid t \<and>
     td_slash_count t' = td_slash_count t"

lemma Adjust_existing:
  assumes ok: "AdjustTrustDeposit D B E s b account augend = Inr (s', b')"
    and t: "kget (tds_deposits s) account = Some t" "td_range t" "td_deposit t < 2 ^ 63"
    and g: "is_i64 augend"
  shows "\<exists>t' paid sender. adjusted t augend t' paid \<and> \<not> outstanding_slash t \<and> augend \<noteq> 0 \<and>
    se_from_bech32 E account = Some sender \<and> s' = put_td s account t' \<and> td_range t' \<and> td_deposit t' < 2 ^ 63 \<and>
    (if 0 < paid then pay_in B b sender paid = Inr b' else b' = b)"
proof -
  let ?sv = "tp_share_value (tds_params s)"
  obtain sender deposit claimable share transfer where
    sender: "se_from_bech32 E account = Some sender" and pre: "\<not> outstanding_slash t" "augend \<noteq> 0"
    and adj: "(if 0 < augend then adjust_increase D ?sv t augend else adjust_decrease t augend) =
        Inr (deposit, claimable, share, transfer)"
    and nn: "0 \<le> deposit" "0 \<le> claimable" "0 \<le> share"
    and fin: "(if 0 < transfer then bindE (pay_in B b sender transfer) (\<lambda>b'. Inr (put_td s account
          (t\<lparr>td_deposit := u64 deposit, td_claimable := u64 claimable, td_share := share\<rparr>), b'))
        else Inr (put_td s account (t\<lparr>td_deposit := u64 deposit, td_claimable := u64 claimable,
          td_share := share\<rparr>), b)) = Inr (s', b')"
    using ok t(1)
    by (auto simp: AdjustTrustDeposit_def bindE_ok_iff optE_ok_iff Let_def not_less split: if_split_asm)
  have r: "0 \<le> td_deposit t" "0 \<le> td_claimable t" using td_range_nonneg [OF t(2)] by simp_all
  have c63: "td_claimable t < 2 ^ 63" using t(2) by (simp add: td_range_def)
  define t' where "t' = t\<lparr>td_deposit := u64 deposit, td_claimable := u64 claimable, td_share := share\<rparr>"
  have eff: "transfer = (if 0 < augend then max 0 (augend - td_claimable t) else 0) \<and>
      deposit = td_deposit t + transfer \<and> claimable = td_claimable t - (augend - transfer) \<and>
      (augend < 0 \<longrightarrow> claimable \<le> td_deposit t) \<and> (transfer = 0 \<longrightarrow> share = td_share t)"
  proof (cases "0 < augend")
    case True
    then show ?thesis using adjust_increase_effect [OF t(2,3) _ g, of D ?sv] adj nn(1) by auto
  next
    case False
    then show ?thesis using adjust_decrease_effect [OF t(2,3) _ g] adj nn(2) pre(2) by auto
  qed
  have dlt: "deposit < 2 ^ 63"
  proof (cases "0 < augend")
    case True
    then obtain x where "deposit = i64 x"
      using adj by (auto simp: adjust_increase_def Let_def bindE_ok_iff split: if_split_asm)
    then show ?thesis using is_i64_i64 [of x] by (simp add: is_i64_def)
  next
    case False
    then show ?thesis using eff t(3) pre(2) by simp
  qed
  have clt: "claimable < 2 ^ 63"
  proof (cases "0 < augend")
    case True
    then show ?thesis using eff c63 g by (auto simp: is_i64_def)
  next
    case False
    then show ?thesis using eff t(3) pre(2) by simp
  qed
  have u: "u64 deposit = deposit" "u64 claimable = claimable"
    using nn dlt clt by (simp_all add: u64_id)
  have sel: "td_deposit t' = deposit" "td_claimable t' = claimable" "td_share t' = share"
      "td_corp t' = td_corp t" "td_slashed t' = td_slashed t" "td_repaid t' = td_repaid t"
      "td_slash_count t' = td_slash_count t"
    by (simp_all add: t'_def u)
  have "adjusted t augend t' transfer"
    unfolding adjusted_def sel using eff nn by blast
  moreover have "td_range t'" using t(2) nn clt dlt by (simp add: td_range_def t'_def u is_u64_def)
  moreover have "td_deposit t' < 2 ^ 63" using dlt by (simp add: t'_def u)
  moreover have "s' = put_td s account t' \<and> (if 0 < transfer then pay_in B b sender transfer = Inr b' else b' = b)"
    using fin by (auto simp: t'_def bindE_ok_iff split: if_split_asm)
  ultimately show ?thesis using sender pre by blast
qed

lemma Adjust_new:
  assumes ok: "AdjustTrustDeposit D B E s b account augend = Inr (s', b')"
    and t: "kget (tds_deposits s) account = None" and g: "is_i64 augend"
  shows "\<exists>share sender. 0 < augend \<and> se_from_bech32 E account = Some sender \<and>
    AmountToShare D augend (tp_share_value (tds_params s)) = Some share \<and>
    s' = put_td s account (new_td account share augend) \<and> pay_in B b sender augend = Inr b'"
proof -
  obtain sender share where "se_from_bech32 E account = Some sender" "0 < augend"
    "AmountToShare D (u64 augend) (tp_share_value (tds_params s)) = Some share"
    "s' = put_td s account (new_td account share (u64 augend))" "pay_in B b sender augend = Inr b'"
    using ok t by (auto simp: AdjustTrustDeposit_def bindE_ok_iff optE_ok_iff Let_def split: if_split_asm)
  moreover have "u64 augend = augend" using calculation(2) g by (simp add: u64_id is_i64_def)
  ultimately show ?thesis by auto
qed

section \<open>The other operations\<close>

lemma range_put:
  assumes "td_range t" "is_u64 d" "is_u64 sl"
  shows "td_range (t\<lparr>td_deposit := d, td_share := sh, td_slashed := sl\<rparr>)"
  using assms by (simp add: td_range_def)

lemma OnBehalf_effect:
  assumes ok: "AdjustTrustDepositOnBehalf D B s b account funder amount = Inr (s', b')"
    and inv: "td_inv s" and small: "backing s < 2 ^ 63" and amount: "is_i64 amount"
  shows "\<exists>t'. 0 < amount \<and> s' = put_td s account t' \<and> td_corp t' = account \<and> td_range t' \<and>
    pay_in B b funder amount = Inr b' \<and>
    (case kget (tds_deposits s) account of
       None \<Rightarrow> locked t' = amount \<and> td_deposit t' = amount \<and> td_claimable t' = 0
     | Some t \<Rightarrow> locked t' = locked t + amount \<and> td_deposit t' = td_deposit t + amount \<and>
         td_claimable t' = td_claimable t \<and> \<not> outstanding_slash t)"
proof -
  let ?sv = "tp_share_value (tds_params s)"
  have pos: "0 < amount" using ok by (auto simp: AdjustTrustDepositOnBehalf_def split: if_split_asm)
  have u: "u64 amount = amount" "is_u64 amount"
    using pos amount by (simp_all add: u64_id is_i64_def is_u64_def)
  show ?thesis
  proof (cases "kget (tds_deposits s) account")
    case None
    then obtain sh where "s' = put_td s account (new_td account sh amount)" "pay_in B b funder amount = Inr b'"
      using ok by (auto simp: AdjustTrustDepositOnBehalf_def bindE_ok_iff optE_ok_iff u split: if_split_asm)
    then show ?thesis using None pos u by (auto simp: td_range_def is_u64_def)
  next
    case (Some t)
    obtain share where s': "s' = put_td s account (t\<lparr>td_deposit := u64 (td_deposit t + amount), td_share := share\<rparr>)"
      and p: "pay_in B b funder amount = Inr b'" and ns: "\<not> outstanding_slash t"
      using ok Some by (auto simp: AdjustTrustDepositOnBehalf_def bindE_ok_iff optE_ok_iff u split: if_split_asm)
    have r: "td_range t" by (rule td_inv_range [OF inv Some])
    have "td_deposit t \<le> locked t" using td_range_nonneg [OF r] by (simp add: locked_def)
    then have "td_deposit t + amount < 2 ^ 64"
      using locked_le_backing [OF inv Some] small amount by (simp add: is_i64_def)
    then have "u64 (td_deposit t + amount) = td_deposit t + amount" "is_u64 (td_deposit t + amount)"
      using td_range_nonneg [OF r] pos by (simp_all add: u64_id is_u64_def)
    then show ?thesis using Some s' p ns pos r td_inv_corp [OF inv Some]
      by (intro exI [of _ "t\<lparr>td_deposit := u64 (td_deposit t + amount), td_share := share\<rparr>"])
        (auto simp: locked_def td_range_def)
  qed
qed

lemma Burn_effect:
  assumes ok: "BurnEcosystemSlashedTrustDeposit D B s b account amount = Inr (s', b')"
    and inv: "td_inv s" and small: "backing s < 2 ^ 63" and amount: "is_u64 amount"
  shows "\<exists>t t'. kget (tds_deposits s) account = Some t \<and> 0 < amount \<and> amount \<le> td_deposit t \<and>
    s' = put_td s account t' \<and> td_corp t' = account \<and> td_range t' \<and>
    td_deposit t' = td_deposit t - amount \<and> td_claimable t' = td_claimable t \<and>
    td_slashed t' = td_slashed t \<and> burn_td B b amount = Inr b'"
proof -
  obtain t where t: "kget (tds_deposits s) account = Some t" "amount \<noteq> 0" "amount \<le> td_deposit t"
    and ex: "executeBurn D B s b account t amount = Inr (s', b')"
    using ok by (auto simp: BurnEcosystemSlashedTrustDeposit_def not_less split: if_split_asm option.splits)
  have r: "td_range t" by (rule td_inv_range [OF inv t(1)])
  have "td_deposit t < 2 ^ 63"
    using locked_le_backing [OF inv t(1)] small td_range_nonneg [OF r] by (simp add: locked_def)
  then have a: "i64 amount = amount" "u64 (td_deposit t - amount) = td_deposit t - amount" "0 < amount"
    using t amount by (simp_all add: i64_id u64_id is_u64_def)
  obtain share where "burn_td B b amount = Inr b'"
      "s' = put_td s account (t\<lparr>td_deposit := td_deposit t - amount, td_share := share\<rparr>)"
    using ex a by (auto simp: executeBurn_def bindE_ok_iff optE_ok_iff Let_def split: if_split_asm)
  then show ?thesis using t a r td_inv_corp [OF inv t(1)]
    by (intro exI [of _ t] exI [of _ "t\<lparr>td_deposit := td_deposit t - amount, td_share := share\<rparr>"])
      (auto simp: td_range_def is_u64_def)
qed

lemma Slash_effect:
  assumes ok: "SlashTrustDeposit D E authority s m = Inr s'"
    and inv: "td_inv s" and small: "backing s < 2 ^ 63"
  shows "\<exists>t t'. kget (tds_deposits s) (sl_corporation m) = Some t \<and> authority = sl_authority m \<and>
    0 < sl_deposit m \<and> sl_deposit m \<le> td_deposit t \<and>
    s' = put_td s (sl_corporation m) t' \<and> td_corp t' = sl_corporation m \<and> td_range t' \<and>
    td_deposit t' = td_deposit t - sl_deposit m \<and> td_slashed t' = td_slashed t + sl_deposit m \<and>
    td_claimable t' = td_claimable t \<and> td_repaid t' = td_repaid t \<and>
    td_last_slashed t' = Some (se_block_time E)"
proof -
  obtain t share where t: "kget (tds_deposits s) (sl_corporation m) = Some t" "0 < sl_deposit m"
      "sl_deposit m \<le> td_deposit t" "authority = sl_authority m"
    and s': "s' = put_td s (sl_corporation m)
                (t\<lparr>td_deposit := u64 (td_deposit t - sl_deposit m), td_share := share,
                   td_slashed := u64 (td_slashed t + sl_deposit m),
                   td_last_slashed := Some (se_block_time E),
                   td_slash_count := u64 (td_slash_count t + 1)\<rparr>)"
    using ok by (auto simp: SlashTrustDeposit_def bindE_ok_iff optE_ok_iff not_less not_le split: if_split_asm)
  have r: "td_range t" by (rule td_inv_range [OF inv t(1)])
  have "td_deposit t + td_slashed t < 2 ^ 63"
    using locked_le_backing [OF inv t(1)] small by (simp add: locked_def)
  then have "u64 (td_deposit t - sl_deposit m) = td_deposit t - sl_deposit m"
      "u64 (td_slashed t + sl_deposit m) = td_slashed t + sl_deposit m"
      "is_u64 (td_deposit t - sl_deposit m)" "is_u64 (td_slashed t + sl_deposit m)"
    using t td_range_nonneg [OF r] by (simp_all add: u64_id is_u64_def)
  then show ?thesis using t s' r td_inv_corp [OF inv t(1)]
    by (intro exI [of _ t] exI [of _ "t\<lparr>td_deposit := u64 (td_deposit t - sl_deposit m), td_share := share,
                   td_slashed := u64 (td_slashed t + sl_deposit m),
                   td_last_slashed := Some (se_block_time E),
                   td_slash_count := u64 (td_slash_count t + 1)\<rparr>"]) (auto simp: td_range_def)
qed

lemma Repay_effect:
  assumes ok: "RepaySlashedTrustDeposit D B E res de s b m = Inr (s', b')"
    and inv: "td_inv s" and small: "backing s < 2 ^ 63"
  shows "\<exists>t t' addr b1. kget (tds_deposits s) (rp_corporation m) = Some t \<and>
    rp_deposit m = td_slashed t \<and> se_from_bech32 E (rp_corporation m) = Some addr \<and>
    s' = put_td s (rp_corporation m) t' \<and> td_corp t' = rp_corporation m \<and> td_range t' \<and>
    td_deposit t' = td_deposit t + td_slashed t \<and> td_slashed t' = 0 \<and> td_claimable t' = td_claimable t \<and>
    pay_in B b addr (td_slashed t) = Inr b1 \<and> burn_td B b1 (td_slashed t) = Inr b'"
proof -
  obtain t addr share b1 where t: "kget (tds_deposits s) (rp_corporation m) = Some t"
      "rp_deposit m = td_slashed t" "se_from_bech32 E (rp_corporation m) = Some addr"
    and p: "pay_in B b addr (i64 (rp_deposit m)) = Inr b1" "burn_td B b1 (i64 (rp_deposit m)) = Inr b'"
    and s': "s' = put_td s (rp_corporation m)
               (t\<lparr>td_deposit := u64 (td_deposit t + rp_deposit m), td_share := share,
                  td_slashed := u64 (td_slashed t - rp_deposit m),
                  td_repaid := u64 (td_repaid t + rp_deposit m),
                  td_last_repaid := Some (se_block_time E)\<rparr>)"
    using ok by (auto simp: RepaySlashedTrustDeposit_def bindE_ok_iff optE_ok_iff split: if_split_asm)
  have r: "td_range t" by (rule td_inv_range [OF inv t(1)])
  have lt: "td_deposit t + td_slashed t < 2 ^ 63"
    using locked_le_backing [OF inv t(1)] small by (simp add: locked_def)
  then have u: "u64 (td_deposit t + td_slashed t) = td_deposit t + td_slashed t"
      "i64 (td_slashed t) = td_slashed t" "u64 0 = 0"
    using td_range_nonneg [OF r] by (simp_all add: u64_id i64_id)
  show ?thesis
    by (rule exI [of _ t], rule exI [of _ "t\<lparr>td_deposit := u64 (td_deposit t + rp_deposit m), td_share := share,
                  td_slashed := u64 (td_slashed t - rp_deposit m),
                  td_repaid := u64 (td_repaid t + rp_deposit m),
                  td_last_repaid := Some (se_block_time E)\<rparr>"], rule exI [of _ addr], rule exI [of _ b1])
      (use t p s' r u lt td_inv_corp [OF inv t(1)] td_range_nonneg [OF r] in
        \<open>auto simp: td_range_def is_u64_def u64_id\<close>)
qed

lemma Reclaim_effect:
  assumes ok: "ReclaimTrustDepositYield D B E res de s b corporation operator = Inr (claimed, s', b')"
    and inv: "td_inv s"
  shows "\<exists>t t' addr. kget (tds_deposits s) corporation = Some t \<and> td_slashed t = 0 \<and>
    claimed = td_claimable t \<and> 0 < claimed \<and> se_from_bech32 E corporation = Some addr \<and>
    s' = put_td s corporation t' \<and> td_corp t' = corporation \<and> td_range t' \<and>
    td_deposit t' = td_deposit t \<and> td_slashed t' = td_slashed t \<and> td_claimable t' = 0 \<and>
    pay_out B b addr claimed = Inr b'"
proof -
  obtain t share addr where t: "kget (tds_deposits s) corporation = Some t" "\<not> 0 < td_slashed t"
      "td_claimable t \<noteq> 0" "se_from_bech32 E corporation = Some addr" "claimed = td_claimable t"
    and p: "pay_out B b addr (i64 claimed) = Inr b'"
    and s': "s' = put_td s corporation (t\<lparr>td_share := share, td_claimable := 0\<rparr>)"
    using ok by (auto simp: ReclaimTrustDepositYield_def bindE_ok_iff optE_ok_iff Let_def split: if_split_asm)
  have r: "td_range t" by (rule td_inv_range [OF inv t(1)])
  have "i64 claimed = claimed" using r t(5) by (simp add: td_range_def i64_id)
  then show ?thesis using t p s' r td_inv_corp [OF inv t(1)] td_range_nonneg [OF r]
    by (intro exI [of _ t] exI [of _ "t\<lparr>td_share := share, td_claimable := 0\<rparr>"] exI [of _ addr])
      (auto simp: td_range_def)
qed

section \<open>Yield distribution\<close>

lemma return_excess_balance:
  assumes "bank_laws B (se_module_addr E)" "return_excess D B E b rest = Inr b'"
    and "se_module_addr E yield_pool \<noteq> se_module_addr E td_module"
    and "se_module_addr E protocol_pool \<noteq> se_module_addr E td_module"
  shows "module_balance B E b' = module_balance B E b"
  using assms(2-) bank_laws.mod_to_acc_balance [OF assms(1)]
  by (auto simp: return_excess_def module_balance_def bindE_ok_iff split: if_split_asm option.splits)

text \<open>A distribution that transfers nothing changes nothing, the stored dust
  included; otherwise the whole part of the lesser of allowance and pool moves
  into the module and the fraction becomes the dust.\<close>

lemma distribute_effect:
  assumes bank: "bank_laws B (se_module_addr E)" and D: "dec_laws D"
    and ok: "distribute_yield D B E s b before allowance pool = Inr (s', b')"
    and ne: "se_module_addr E yield_pool \<noteq> se_module_addr E td_module"
      "se_module_addr E protocol_pool \<noteq> se_module_addr E td_module"
  shows "let amt = dec_truncate D (min allowance pool) in
    tds_deposits s' = tds_deposits s \<and>
    module_balance B E b' = module_balance B E b + max 0 amt \<and>
    (if 0 < amt then tds_dust s' = Some (dec_to_string D (min allowance pool - dec_of_int D amt))
     else s' = s \<and> b' = b)"
proof (cases "0 < dec_truncate D (min allowance pool)")
  case False
  then show ?thesis using ok by (simp add: distribute_yield_def Let_def)
next
  case True
  define amt where "amt = dec_truncate D (min allowance pool)"
  obtain cs b1 p' remainder rest where cs: "new_coins bond_denom amt = Some cs"
    and b1: "bk_mod_to_mod B b yield_pool td_module cs = Some b1"
    and rem: "dec_sub D (min allowance pool) (dec_of_int D amt) = Some remainder"
    and ret: "return_excess D B E b1 rest = Inr b'"
    and s': "s' = s\<lparr>tds_params := p', tds_dust := Some (dec_to_string D remainder)\<rparr>"
    using ok True by (auto simp: distribute_yield_def Let_def amt_def bindE_ok_iff optE_ok_iff)
  have "module_balance B E b1 = module_balance B E b + amt"
    using bank_laws.mod_to_mod_balance [OF bank b1] ne(1) new_coins_amount [OF cs]
    by (simp add: module_balance_def)
  then have "module_balance B E b' = module_balance B E b + amt"
    using return_excess_balance [OF bank ret ne] by simp
  moreover have "remainder = min allowance pool - dec_of_int D amt"
    by (rule dec_laws.sub_exact [OF D rem])
  ultimately show ?thesis using s' True by (simp add: amt_def [symmetric] Let_def)
qed

end
