(* ===== verification/Trust_Deposit_Props.thy ===== *)
theory Trust_Deposit_Props
imports Trust_Deposit_Inv
begin

text \<open>
  Properties of the trust-deposit module: the accounting of the module account
  over all operations, the functional behaviour of adjustments, which operations
  keep the claimable amount within the deposit and which do not, slashing after
  a repayment, the yield distribution and genesis.
\<close>

section \<open>Operations of the module\<close>

datatype td_op =
    Op_Adjust string int
  | Op_On_Behalf string string int
  | Op_Burn string int
  | Op_Slash msg_slash_td
  | Op_Repay msg_repay_td
  | Op_Reclaim string string
  | Op_Begin "int option"
  | Op_Params string td_params

definition td_exec ::
  "dec_ops \<Rightarrow> 'b bank_ops \<Rightarrow> sdk_env \<Rightarrow> (string \<Rightarrow> nat option) \<Rightarrow> de_state \<Rightarrow> string \<Rightarrow> td_op
     \<Rightarrow> td_state \<Rightarrow> 'b \<Rightarrow> td_error + td_state \<times> 'b" where
  "td_exec D B E res de authority op s b = (case op of
      Op_Adjust account augend \<Rightarrow> AdjustTrustDeposit D B E s b account augend
    | Op_On_Behalf account funder amount \<Rightarrow> AdjustTrustDepositOnBehalf D B s b account funder amount
    | Op_Burn account amount \<Rightarrow> BurnEcosystemSlashedTrustDeposit D B s b account amount
    | Op_Slash m \<Rightarrow> bindE (SlashTrustDeposit D E authority s m) (\<lambda>s'. Inr (s', b))
    | Op_Repay m \<Rightarrow> RepaySlashedTrustDeposit D B E res de s b m
    | Op_Reclaim corporation operator \<Rightarrow>
        bindE (ReclaimTrustDepositYield D B E res de s b corporation operator) (\<lambda>r. Inr (snd r))
    | Op_Begin blocksPerYear \<Rightarrow> td_BeginBlocker D B E blocksPerYear s b
    | Op_Params signer p \<Rightarrow> bindE (td_UpdateParams authority s signer p) (\<lambda>s'. Inr (s', b)))"

text \<open>The Go types of the amounts, and: the party that pays or is paid is not the
  module account itself.\<close>

fun op_typed :: "td_op \<Rightarrow> bool" where
  "op_typed (Op_Adjust _ n) = is_i64 n"
| "op_typed (Op_On_Behalf _ _ n) = is_i64 n"
| "op_typed (Op_Burn _ n) = is_u64 n"
| "op_typed _ = True"

fun op_outside :: "sdk_env \<Rightarrow> td_op \<Rightarrow> bool" where
  "op_outside E (Op_Adjust a _) = (se_from_bech32 E a \<noteq> Some (se_module_addr E td_module))"
| "op_outside E (Op_On_Behalf _ f _) = (f \<noteq> se_module_addr E td_module)"
| "op_outside E (Op_Repay m) = (se_from_bech32 E (rp_corporation m) \<noteq> Some (se_module_addr E td_module))"
| "op_outside E (Op_Reclaim c _) = (se_from_bech32 E c \<noteq> Some (se_module_addr E td_module))"
| "op_outside E _ = True"

fun op_account :: "td_op \<Rightarrow> string option" where
  "op_account (Op_Adjust a _) = Some a"
| "op_account (Op_On_Behalf a _ _) = Some a"
| "op_account (Op_Burn a _) = Some a"
| "op_account (Op_Slash m) = Some (sl_corporation m)"
| "op_account (Op_Repay m) = Some (rp_corporation m)"
| "op_account (Op_Reclaim c _) = Some c"
| "op_account _ = None"

definition claimable_of :: "td_state \<Rightarrow> string \<Rightarrow> int" where
  "claimable_of s a = (case kget (tds_deposits s) a of None \<Rightarrow> 0 | Some t \<Rightarrow> td_claimable t)"

fun paid_out :: "td_state \<Rightarrow> td_op \<Rightarrow> int" where
  "paid_out s (Op_Reclaim c _) = claimable_of s c"
| "paid_out s _ = 0"

definition modules_distinct :: "sdk_env \<Rightarrow> bool" where
  "modules_distinct E \<longleftrightarrow> se_module_addr E yield_pool \<noteq> se_module_addr E td_module \<and>
     se_module_addr E protocol_pool \<noteq> se_module_addr E td_module"

lemma BeginBlocker_cases:
  assumes "td_BeginBlocker D B E blocksPerYear s b = Inr (s', b')"
  obtains "s' = s" "b' = b" | n dust allowance where "blocksPerYear = Some n" "read_dust D s = Inr dust"
    "yield_allowance D (tds_params s) n dust (module_balance B E b) = Inr allowance"
    "distribute_yield D B E s b (dec_of_int D (module_balance B E b)) allowance
       (dec_of_int D (bk_balance B b (pool_address E (tds_params s)) bond_denom)) = Inr (s', b')"
  using assms
  by (auto simp: td_BeginBlocker_def bindE_ok_iff optE_ok_iff Let_def module_balance_def split: if_split_asm)

lemma td_small:
  assumes "td_inv s" "backing s < 2 ^ 63" "kget (tds_deposits s) k = Some t"
  shows "td_deposit t < 2 ^ 63"
  using locked_le_backing [OF assms(1,3)] assms(2) td_range_nonneg [OF td_inv_range [OF assms(1,3)]]
  by (simp add: locked_def)

text \<open>Every operation in terms of the record it writes and the money it moves.\<close>

lemma Adjust_accounting:
  assumes bank: "bank_laws B (se_module_addr E)" and inv: "td_inv s" and small: "backing s < 2 ^ 63"
    and op: "is_i64 n" "se_from_bech32 E a \<noteq> Some (se_module_addr E td_module)"
    and ok: "AdjustTrustDeposit D B E s b a n = Inr (s', b')"
  shows "td_inv s' \<and> surplus B E s' b' = surplus B E s b"
proof (cases "kget (tds_deposits s) a")
  case None
  obtain sh sender where r: "0 < n" "se_from_bech32 E a = Some sender"
      "s' = put_td s a (new_td a sh n)" "pay_in B b sender n = Inr b'"
    using Adjust_new [OF ok None op(1)] by blast
  have "td_range (new_td a sh n)" using r(1) op(1) by (simp add: td_range_def is_u64_def is_i64_def)
  then have "td_inv s'" unfolding r(3) by (intro td_inv_put [OF inv]) simp_all
  moreover have "sender \<noteq> se_module_addr E td_module" using op(2) r(2) by simp
  ultimately show ?thesis
    using pay_in_balance(1) [OF bank r(4)] backing_put_new [OF None] by (simp add: r(3) surplus_def)
next
  case (Some t)
  obtain t' paid sender where r: "adjusted t n t' paid" "se_from_bech32 E a = Some sender"
      "s' = put_td s a t'" "td_range t'" "if 0 < paid then pay_in B b sender paid = Inr b' else b' = b"
    using Adjust_existing [OF ok Some td_inv_range [OF inv Some] td_small [OF inv small Some] op(1)] by blast
  have ne: "sender \<noteq> se_module_addr E td_module" using op(2) r(2) by simp
  have p: "0 \<le> paid" "locked t' = locked t + paid" using r(1) by (auto simp: adjusted_def locked_def)
  have "module_balance B E b' = module_balance B E b + paid"
    using r(5) p(1) pay_in_balance(1) [OF bank _ ne] by (cases "0 < paid") auto
  moreover have "td_inv s'" unfolding r(3)
    using r(1,4) td_inv_corp [OF inv Some] by (intro td_inv_put [OF inv]) (auto simp: adjusted_def)
  ultimately show ?thesis using backing_put [OF Some, of t'] p(2) by (simp add: r(3) surplus_def)
qed

lemma OnBehalf_accounting:
  assumes bank: "bank_laws B (se_module_addr E)" and inv: "td_inv s" and small: "backing s < 2 ^ 63"
    and op: "is_i64 n" "f \<noteq> se_module_addr E td_module"
    and ok: "AdjustTrustDepositOnBehalf D B s b a f n = Inr (s', b')"
  shows "td_inv s' \<and> surplus B E s' b' = surplus B E s b"
proof -
  obtain t' where r: "s' = put_td s a t'" "td_corp t' = a" "td_range t'" "pay_in B b f n = Inr b'"
      "locked t' = (case kget (tds_deposits s) a of None \<Rightarrow> 0 | Some t \<Rightarrow> locked t) + n"
    using OnBehalf_effect [OF ok inv small op(1)] by (auto split: option.splits)
  have "td_inv s'" unfolding r(1) by (rule td_inv_put [OF inv r(2,3)])
  moreover have "backing s' = backing s + n"
    using r(5) backing_put_new [of s a t'] backing_put [of s a _ t'] by (simp add: r(1) split: option.splits)
  ultimately show ?thesis using pay_in_balance(1) [OF bank r(4) op(2)] by (simp add: surplus_def)
qed

lemma exec_accounting:
  assumes bank: "bank_laws B (se_module_addr E)" and D: "dec_laws D" and mods: "modules_distinct E"
    and inv: "td_inv s" and small: "backing s < 2 ^ 63"
    and op: "op_typed op" "op_outside E op"
    and ok: "td_exec D B E res de authority op s b = Inr (s', b')"
  shows "td_inv s' \<and> (case op of Op_Begin _ \<Rightarrow> surplus B E s b \<le> surplus B E s' b'
    | _ \<Rightarrow> surplus B E s' b' = surplus B E s b - paid_out s op)"
proof (cases op)
  case (Op_Adjust a n)
  then show ?thesis using Adjust_accounting [OF bank inv small, of n a D b s' b'] op ok
    by (simp add: td_exec_def)
next
  case (Op_On_Behalf a f n)
  then show ?thesis using OnBehalf_accounting [OF bank inv small, of n f D b a s' b'] op ok
    by (simp add: td_exec_def)
next
  case (Op_Burn a n)
  then have e: "BurnEcosystemSlashedTrustDeposit D B s b a n = Inr (s', b')" using ok by (simp add: td_exec_def)
  obtain t t' where r: "kget (tds_deposits s) a = Some t" "s' = put_td s a t'" "td_corp t' = a" "td_range t'"
      "td_deposit t' = td_deposit t - n" "td_slashed t' = td_slashed t" "burn_td B b n = Inr b'"
    using Burn_effect [OF e inv small] op Op_Burn by auto
  have "td_inv s'" unfolding r(2) by (rule td_inv_put [OF inv r(3,4)])
  then show ?thesis
    using burn_td_balance(1) [OF bank r(7)] backing_put [OF r(1), of t'] r Op_Burn
    by (simp add: surplus_def locked_def)
next
  case (Op_Slash m)
  then have e: "SlashTrustDeposit D E authority s m = Inr s'" "b' = b"
    using ok by (auto simp: td_exec_def bindE_ok_iff)
  obtain t t' where r: "kget (tds_deposits s) (sl_corporation m) = Some t" "s' = put_td s (sl_corporation m) t'"
      "td_corp t' = sl_corporation m" "td_range t'"
      "td_deposit t' = td_deposit t - sl_deposit m" "td_slashed t' = td_slashed t + sl_deposit m"
    using Slash_effect [OF e(1) inv small] by auto
  have "td_inv s'" unfolding r(2) by (rule td_inv_put [OF inv r(3,4)])
  then show ?thesis using backing_put [OF r(1), of t'] r e Op_Slash by (simp add: surplus_def locked_def)
next
  case (Op_Repay m)
  then have e: "RepaySlashedTrustDeposit D B E res de s b m = Inr (s', b')" using ok by (simp add: td_exec_def)
  obtain t t' addr b1 where r: "kget (tds_deposits s) (rp_corporation m) = Some t"
      "se_from_bech32 E (rp_corporation m) = Some addr" "s' = put_td s (rp_corporation m) t'"
      "td_corp t' = rp_corporation m" "td_range t'"
      "td_deposit t' = td_deposit t + td_slashed t" "td_slashed t' = 0"
      "pay_in B b addr (td_slashed t) = Inr b1" "burn_td B b1 (td_slashed t) = Inr b'"
    using Repay_effect [OF e inv small] by auto
  have "addr \<noteq> se_module_addr E td_module" using op(2) r(2) Op_Repay by simp
  then have "module_balance B E b' = module_balance B E b"
    using pay_in_balance(1) [OF bank r(8)] burn_td_balance(1) [OF bank r(9)] by simp
  moreover have "td_inv s'" unfolding r(3) by (rule td_inv_put [OF inv r(4,5)])
  ultimately show ?thesis using backing_put [OF r(1), of t'] r Op_Repay by (simp add: surplus_def locked_def)
next
  case (Op_Reclaim c oper)
  then obtain claimed where e: "ReclaimTrustDepositYield D B E res de s b c oper = Inr (claimed, s', b')"
    using ok by (auto simp: td_exec_def bindE_ok_iff)
  obtain t t' addr where r: "kget (tds_deposits s) c = Some t" "claimed = td_claimable t"
      "se_from_bech32 E c = Some addr" "s' = put_td s c t'" "td_corp t' = c" "td_range t'"
      "td_deposit t' = td_deposit t" "td_slashed t' = td_slashed t" "pay_out B b addr claimed = Inr b'"
    using Reclaim_effect [OF e inv] by auto
  have "addr \<noteq> se_module_addr E td_module" using op(2) r(3) Op_Reclaim by simp
  then have "module_balance B E b' = module_balance B E b - claimed"
    using pay_out_balance(1) [OF bank r(9)] by simp
  moreover have "td_inv s'" unfolding r(4) by (rule td_inv_put [OF inv r(5,6)])
  ultimately show ?thesis using backing_put [OF r(1), of t'] r Op_Reclaim
    by (simp add: surplus_def locked_def claimable_of_def)
next
  case (Op_Begin n)
  then have e: "td_BeginBlocker D B E n s b = Inr (s', b')" using ok by (simp add: td_exec_def)
  from e show ?thesis
  proof (rule BeginBlocker_cases)
    assume "s' = s" "b' = b"
    then show ?thesis using inv Op_Begin by simp
  next
    fix k dust allowance
    assume d: "distribute_yield D B E s b (dec_of_int D (module_balance B E b)) allowance
       (dec_of_int D (bk_balance B b (pool_address E (tds_params s)) bond_denom)) = Inr (s', b')"
    have "tds_deposits s' = tds_deposits s" "module_balance B E b \<le> module_balance B E b'"
      using distribute_effect [OF bank D d] mods by (auto simp: modules_distinct_def Let_def)
    then show ?thesis using inv Op_Begin by (simp add: td_inv_def surplus_def backing_def)
  qed
next
  case (Op_Params signer p)
  then have "tds_deposits s' = tds_deposits s" "b' = b"
    using ok by (auto simp: td_exec_def td_UpdateParams_def bindE_ok_iff split: if_split_asm)
  then show ?thesis using inv Op_Params by (simp add: td_inv_def surplus_def backing_def)
qed

lemma adjust_decrease_iff_lemma:
  assumes inv: "td_inv s" "backing s < 2 ^ 63" and neg: "augend < 0" "is_i64 augend"
    and a: "account \<noteq> []"
  shows "is_ok (AdjustTrustDeposit D B E s b account augend) \<longleftrightarrow>
    se_from_bech32 E account \<noteq> None \<and>
    (\<exists>t. kget (tds_deposits s) account = Some t \<and> \<not> outstanding_slash t \<and> 0 \<le> td_share t \<and>
       td_claimable t - augend \<le> td_deposit t)" (is "?l \<longleftrightarrow> ?r")
proof
  assume ?l
  then obtain s' b' where ok: "AdjustTrustDeposit D B E s b account augend = Inr (s', b')"
    by (auto simp: is_ok_iff)
  show ?r
  proof (cases "kget (tds_deposits s) account")
    case None
    then show ?thesis using Adjust_new [OF ok None neg(2)] neg(1) by auto
  next
    case (Some t)
    then show ?thesis
      using Adjust_existing [OF ok Some td_inv_range [OF inv(1) Some] td_small [OF inv Some] neg(2)] neg(1)
      by (auto simp: adjusted_def)
  qed
next
  assume ?r
  then obtain sender t where r: "se_from_bech32 E account = Some sender"
      "kget (tds_deposits s) account = Some t" "\<not> outstanding_slash t" "0 \<le> td_share t"
      "td_claimable t - augend \<le> td_deposit t" by auto
  have rng: "0 \<le> td_claimable t" "td_deposit t < 2 ^ 63" "0 \<le> td_deposit t" "td_claimable t < 2 ^ 63"
    using td_inv_range [OF inv(1) r(2)] td_small [OF inv r(2)] by (auto simp: td_range_def is_u64_def)
  then have "i64 (- augend) = - augend" "i64 (td_claimable t) = td_claimable t" "i64 (td_deposit t) = td_deposit t"
      "i64 (td_claimable t - augend) = td_claimable t - augend"
    using r(5) neg(1) by (simp_all add: i64_id)
  then have "adjust_decrease t augend = Inr (td_deposit t, td_claimable t - augend, td_share t, 0)"
    using r(5) by (simp add: adjust_decrease_def)
  then show ?l using r a neg(1) rng by (simp add: AdjustTrustDeposit_def)
qed

section \<open>A sample state\<close>

definition sample_record_td :: "int \<Rightarrow> int \<Rightarrow> trust_deposit" where
  "sample_record_td deposit claimable = (new_td ''corp'' (deposit * dec_one) deposit)\<lparr>td_claimable := claimable\<rparr>"

definition sample_td :: td_state where
  "sample_td = \<lparr>tds_deposits = kset kempty ''corp'' (sample_record_td 100 40), tds_dust = None,
     tds_params = td_DefaultParams ''pool''\<rparr>"

definition sample_ledger :: ledger where
  "sample_ledger = (\<lambda>a d. if d = ''uvna'' then (if a = ''@td'' then 100 else if a = ''corp'' then 1000
     else if a = ''@yield_intermediate_pool'' \<or> a = ''pool'' then 5 else 0) else 0)"

abbreviation sample_bank :: "ledger bank_ops" where
  "sample_bank \<equiv> ledger_bank (se_module_addr (demo_env 5))"

lemma sample_bank_laws: "bank_laws sample_bank (se_module_addr (demo_env 5))"
  by unfold_locales

lemma sample_modules: "modules_distinct (demo_env 5)"
  by (simp add: modules_distinct_def yield_pool_def td_module_def protocol_pool_def)

lemma sample_td_inv: "td_inv sample_td" "covered sample_td" "backing sample_td < 2 ^ 63"
  by (simp_all add: td_inv_def covered_def sample_td_def sample_record_td_def td_range_def is_u64_def
      kget_kset new_td_def backing_def ksum_kset locked_def)

lemma sample_td_get [simp]:
  "kget (tds_deposits sample_td) a = (if a = ''corp'' then Some (sample_record_td 100 40) else None)"
  "tds_params sample_td = td_DefaultParams ''pool''" "tds_dust sample_td = None"
  by (simp_all add: sample_td_def kget_kset)

lemma sample_record_td_sel [simp]:
  "td_corp (sample_record_td d c) = ''corp''" "td_share (sample_record_td d c) = d * dec_one"
  "td_deposit (sample_record_td d c) = d" "td_claimable (sample_record_td d c) = c"
  "td_slashed (sample_record_td d c) = 0" "td_repaid (sample_record_td d c) = 0"
  "td_slash_count (sample_record_td d c) = 0"
  by (simp_all add: sample_record_td_def)

lemma sample_params_sel [simp]:
  "tp_share_value (td_DefaultParams p) = dec_one" "tp_max_yield_rate (td_DefaultParams p) = 15 * 10 ^ 16"
  "tp_yield_pool (td_DefaultParams p) = p"
  by (simp_all add: td_DefaultParams_def)

lemma sample_increase_ok:
  "is_ok (AdjustTrustDeposit fix18 sample_bank (demo_env 5) sample_td sample_ledger ''corp'' 50)"
  by (simp add: AdjustTrustDeposit_def outstanding_slash_def adjust_increase_def AmountToShare_def i64_def
      u64_def Let_def near_div_def dec_one_def pay_in_def new_coins_def ledger_move_def ledger_debit_def
      sample_ledger_def bond_denom_def td_module_def)

lemma sample_decrease_ok:
  "is_ok (AdjustTrustDeposit fix18 sample_bank (demo_env 5) sample_td sample_ledger ''corp'' (- 30))"
  by (simp add: AdjustTrustDeposit_def outstanding_slash_def adjust_decrease_def i64_def Let_def dec_one_def)

definition sample_slash :: "int \<Rightarrow> msg_slash_td" where
  "sample_slash n = \<lparr>sl_authority = ''gov'', sl_corporation = ''corp'', sl_deposit = n, sl_reason = ''r''\<rparr>"

lemma sample_slash_ok:
  "is_ok (SlashTrustDeposit fix18 (demo_env 5) ''gov'' sample_td (sample_slash 80))"
  by (simp add: SlashTrustDeposit_def sample_slash_def is_u64_def dec_one_def)

lemma sample_reclaim_ok:
  "is_ok (ReclaimTrustDepositYield fix18 sample_bank (demo_env 5) (resolve_id sample_registry) de_empty
     sample_td sample_ledger ''corp'' [])"
  by (simp add: ReclaimTrustDepositYield_def td_authorize_def CheckOperatorAuthorization_def
      checkOperatorAuthorizationCore_def AmountToShare_def i64_def max_i64_def near_div_def dec_one_def
      pay_out_def new_coins_def ledger_move_def ledger_debit_def sample_ledger_def bond_denom_def
      td_module_def Let_def)

section \<open>Properties\<close>

text \<open>C6 solvency_accounting: Every operation of the module keeps the surplus of the
  module account over what the records lock (deposits plus slashed amounts)
  exactly, except that a reclaim lowers it by the amount it pays out and the
  yield distribution can only raise it.\<close>

theorem solvency_accounting:
  assumes "bank_laws B (se_module_addr E)" "dec_laws D" "modules_distinct E"
    and "td_inv s" "backing s < 2 ^ 63" "op_typed op" "op_outside E op"
    and "td_exec D B E res de authority op s b = Inr (s', b')"
  shows "td_inv s' \<and> (case op of Op_Begin _ \<Rightarrow> surplus B E s b \<le> surplus B E s' b'
    | _ \<Rightarrow> surplus B E s' b' = surplus B E s b - paid_out s op)"
  using assms by (rule exec_accounting)

theorem solvency_accounting_witness:
  "\<exists>s' b'. td_exec fix18 sample_bank (demo_env 5) (\<lambda>_. None) de_empty ''gov'' (Op_Adjust ''corp'' 50)
      sample_td sample_ledger = Inr (s', b') \<and>
    surplus sample_bank (demo_env 5) s' b' = surplus sample_bank (demo_env 5) sample_td sample_ledger"
proof -
  obtain s' b' where r: "td_exec fix18 sample_bank (demo_env 5) (\<lambda>_. None) de_empty ''gov''
      (Op_Adjust ''corp'' 50) sample_td sample_ledger = Inr (s', b')"
    using sample_increase_ok by (auto simp: td_exec_def is_ok_iff)
  show ?thesis
    using solvency_accounting [OF sample_bank_laws fix18.dec_laws_axioms sample_modules sample_td_inv(1,3) _ _ r] r
    by (auto simp: is_i64_def td_module_def)
qed

text \<open>A successful adjustment of an existing record by a
  positive amount first uses the claimable amount and takes only the missing
  part from the account; by a negative amount it only moves deposit to claimable,
  never beyond the deposit, and no money moves.  Deposit and module account
  grow by the same amount, and an outstanding slash blocks the call.\<close>

theorem adjust_moves_exactly:
  assumes "bank_laws B (se_module_addr E)" "td_inv s" "backing s < 2 ^ 63"
    and "is_i64 augend" "se_from_bech32 E account \<noteq> Some (se_module_addr E td_module)"
    and "kget (tds_deposits s) account = Some t"
    and "AdjustTrustDeposit D B E s b account augend = Inr (s', b')"
  shows "\<exists>t'. kget (tds_deposits s') account = Some t' \<and> \<not> outstanding_slash t \<and> augend \<noteq> 0 \<and>
    (let paid = (if 0 < augend then max 0 (augend - td_claimable t) else 0) in
       td_deposit t' = td_deposit t + paid \<and>
       td_claimable t' = (if 0 < augend then max 0 (td_claimable t - augend) else td_claimable t - augend) \<and>
       (augend < 0 \<longrightarrow> td_claimable t' \<le> td_deposit t) \<and>
       module_balance B E b' = module_balance B E b + paid)"
proof -
  obtain t' paid sender where r: "adjusted t augend t' paid" "se_from_bech32 E account = Some sender"
      "s' = put_td s account t'" "\<not> outstanding_slash t" "augend \<noteq> 0"
      "if 0 < paid then pay_in B b sender paid = Inr b' else b' = b"
    using Adjust_existing [OF assms(7,6) td_inv_range [OF assms(2,6)] td_small [OF assms(2,3,6)] assms(4)] by blast
  have p: "0 \<le> paid" using r(1) by (auto simp: adjusted_def)
  have "sender \<noteq> se_module_addr E td_module" using assms(5) r(2) by simp
  then have "module_balance B E b' = module_balance B E b + paid"
    using r(6) p pay_in_balance(1) [OF assms(1), of b sender paid b'] by (cases "0 < paid") auto
  then show ?thesis using r by (auto simp: adjusted_def Let_def max_def)
qed

theorem adjust_moves_exactly_witness:
  "\<exists>s' b' t'. AdjustTrustDeposit fix18 sample_bank (demo_env 5) sample_td sample_ledger ''corp'' 50 = Inr (s', b') \<and>
     kget (tds_deposits s') ''corp'' = Some t' \<and> td_deposit t' = 110 \<and> td_claimable t' = 0"
proof -
  obtain s' b' where r: "AdjustTrustDeposit fix18 sample_bank (demo_env 5) sample_td sample_ledger ''corp'' 50 = Inr (s', b')"
    using sample_increase_ok by (auto simp: is_ok_iff)
  show ?thesis
    using adjust_moves_exactly [OF sample_bank_laws sample_td_inv(1,3) _ _ _ r, of "sample_record_td 100 40"] r
    by (auto simp: is_i64_def td_module_def Let_def)
qed

text \<open>A decrease succeeds exactly when the account has a valid
  address and a record without outstanding slash whose share is not negative and
  whose deposit covers the claimable amount after the decrease.\<close>

theorem adjust_decrease_iff:
  assumes inv: "td_inv s" "backing s < 2 ^ 63" and neg: "augend < 0" "is_i64 augend"
    and a: "account \<noteq> []"
  shows "is_ok (AdjustTrustDeposit D B E s b account augend) \<longleftrightarrow>
    se_from_bech32 E account \<noteq> None \<and>
    (\<exists>t. kget (tds_deposits s) account = Some t \<and> \<not> outstanding_slash t \<and> 0 \<le> td_share t \<and>
       td_claimable t - augend \<le> td_deposit t)"
  using assms by (rule adjust_decrease_iff_lemma)

theorem adjust_decrease_iff_witness:
  "is_ok (AdjustTrustDeposit fix18 sample_bank (demo_env 5) sample_td sample_ledger ''corp'' (- 60))"
  using adjust_decrease_iff [OF sample_td_inv(1,3), of "- 60" "''corp''" fix18 sample_bank "demo_env 5" sample_ledger]
  by (simp add: is_i64_def outstanding_slash_def dec_one_def)

text \<open>An operation on one account leaves the record of every other
  account as it is.\<close>

theorem only_own_record:
  assumes "bank_laws B (se_module_addr E)" "dec_laws D" "modules_distinct E"
    and "td_inv s" "backing s < 2 ^ 63" "op_typed op"
    and "td_exec D B E res de authority op s b = Inr (s', b')"
    and "op_account op \<noteq> Some a"
  shows "kget (tds_deposits s') a = kget (tds_deposits s) a"
proof (cases op)
  case (Op_Adjust x n)
  then have ok: "AdjustTrustDeposit D B E s b x n = Inr (s', b')" using assms(7) by (simp add: td_exec_def)
  have "\<exists>t'. s' = put_td s x t'"
  proof (cases "kget (tds_deposits s) x")
    case None
    then show ?thesis using Adjust_new [OF ok None] assms(6) Op_Adjust by auto
  next
    case (Some t)
    then show ?thesis
      using Adjust_existing [OF ok Some td_inv_range [OF assms(4) Some] td_small [OF assms(4,5) Some]]
        assms(6) Op_Adjust by auto
  qed
  then show ?thesis using assms(8) Op_Adjust by auto
next
  case (Op_On_Behalf x f n)
  then show ?thesis using OnBehalf_effect [OF _ assms(4,5), of D B b x f n s' b'] assms(6-8)
    by (auto simp: td_exec_def)
next
  case (Op_Burn x n)
  then show ?thesis using Burn_effect [OF _ assms(4,5), of D B b x n s' b'] assms(6-8)
    by (auto simp: td_exec_def)
next
  case (Op_Slash m)
  then show ?thesis using Slash_effect [OF _ assms(4,5), of D E authority m s'] assms(7,8)
    by (auto simp: td_exec_def bindE_ok_iff)
next
  case (Op_Repay m)
  then show ?thesis using Repay_effect [OF _ assms(4,5), of D B E res de b m s' b'] assms(7,8)
    by (auto simp: td_exec_def)
next
  case (Op_Reclaim c oper)
  then obtain claimed where "ReclaimTrustDepositYield D B E res de s b c oper = Inr (claimed, s', b')"
    using assms(7) by (auto simp: td_exec_def bindE_ok_iff)
  then show ?thesis using Reclaim_effect [OF _ assms(4)] assms(8) Op_Reclaim by fastforce
next
  case (Op_Begin n)
  then have "td_BeginBlocker D B E n s b = Inr (s', b')" using assms(7) by (simp add: td_exec_def)
  then show ?thesis
  proof (rule BeginBlocker_cases)
    fix k dust allowance
    assume d: "distribute_yield D B E s b (dec_of_int D (module_balance B E b)) allowance
       (dec_of_int D (bk_balance B b (pool_address E (tds_params s)) bond_denom)) = Inr (s', b')"
    show ?thesis using distribute_effect [OF assms(1,2) d] assms(3) by (auto simp: modules_distinct_def Let_def)
  qed simp
next
  case (Op_Params signer p)
  then show ?thesis using assms(7)
    by (auto simp: td_exec_def td_UpdateParams_def bindE_ok_iff split: if_split_asm)
qed

theorem only_own_record_witness:
  "\<exists>s' b'. td_exec fix18 sample_bank (demo_env 5) (\<lambda>_. None) de_empty ''gov'' (Op_Adjust ''corp'' 50)
      sample_td sample_ledger = Inr (s', b') \<and> kget (tds_deposits s') ''other'' = None"
proof -
  obtain s' b' where r: "td_exec fix18 sample_bank (demo_env 5) (\<lambda>_. None) de_empty ''gov''
      (Op_Adjust ''corp'' 50) sample_td sample_ledger = Inr (s', b')"
    using sample_increase_ok by (auto simp: td_exec_def is_ok_iff)
  show ?thesis
    using only_own_record [OF sample_bank_laws fix18.dec_laws_axioms sample_modules sample_td_inv(1,3) _ r,
        of "''other''"] r
    by (auto simp: is_i64_def)
qed

text \<open>C29 claimable_stays_covered: No operation except a slash and the burn of an
  ecosystem slash can make the claimable amount of a record exceed its deposit.\<close>

theorem claimable_stays_covered:
  assumes "bank_laws B (se_module_addr E)" "dec_laws D" "modules_distinct E"
    and inv: "td_inv s" "backing s < 2 ^ 63" "covered s" and op: "op_typed op"
    and ok: "td_exec D B E res de authority op s b = Inr (s', b')"
    and other: "\<And>m. op \<noteq> Op_Slash m" "\<And>a n. op \<noteq> Op_Burn a n"
  shows "covered s'"
proof -
  have cov: "td_claimable t \<le> td_deposit t" if "kget (tds_deposits s) k = Some t" for k t
    using inv(3) that unfolding covered_def by blast
  show ?thesis
  proof (cases op)
    case (Op_Adjust x n)
    then have ok': "AdjustTrustDeposit D B E s b x n = Inr (s', b')" using ok by (simp add: td_exec_def)
    show ?thesis
    proof (cases "kget (tds_deposits s) x")
      case None
      then obtain sh where "0 < n" "s' = put_td s x (new_td x sh n)"
        using Adjust_new [OF ok' None] op Op_Adjust by auto
      then show ?thesis using inv(3) by (simp add: covered_put)
    next
      case (Some t)
      then obtain t' paid where "adjusted t n t' paid" "s' = put_td s x t'"
        using Adjust_existing [OF ok' Some td_inv_range [OF inv(1) Some] td_small [OF inv(1,2) Some]]
          op Op_Adjust by auto
      moreover have "n < 0 \<or> 0 \<le> n" by linarith
      ultimately show ?thesis using inv(3) cov [OF Some]
        by (auto simp: adjusted_def intro!: covered_put split: if_splits)
    qed
  next
    case (Op_On_Behalf x f n)
    then have "AdjustTrustDepositOnBehalf D B s b x f n = Inr (s', b')" "is_i64 n"
      using ok op by (simp_all add: td_exec_def)
    from OnBehalf_effect [OF this(1) inv(1,2) this(2)] show ?thesis
      using inv(3) cov [of x] by (auto intro!: covered_put split: option.splits)
  next
    case (Op_Repay m)
    then have "RepaySlashedTrustDeposit D B E res de s b m = Inr (s', b')" using ok by (simp add: td_exec_def)
    from Repay_effect [OF this inv(1,2)] obtain t t' where t: "kget (tds_deposits s) (rp_corporation m) = Some t"
        "s' = put_td s (rp_corporation m) t'" "td_deposit t' = td_deposit t + td_slashed t"
        "td_claimable t' = td_claimable t" by auto
    have "0 \<le> td_slashed t" using td_range_nonneg [OF td_inv_range [OF inv(1) t(1)]] by simp
    then show ?thesis unfolding t(2) using cov [OF t(1)] t(3,4) by (intro covered_put [OF inv(3)]) simp
  next
    case (Op_Reclaim c oper)
    then obtain claimed where "ReclaimTrustDepositYield D B E res de s b c oper = Inr (claimed, s', b')"
      using ok by (auto simp: td_exec_def bindE_ok_iff)
    from Reclaim_effect [OF this inv(1)] obtain t t' where t: "kget (tds_deposits s) c = Some t"
        "s' = put_td s c t'" "td_deposit t' = td_deposit t" "td_claimable t' = 0" by auto
    then show ?thesis unfolding t(2) using td_range_nonneg [OF td_inv_range [OF inv(1) t(1)]]
      by (intro covered_put [OF inv(3)]) simp
  next
    case (Op_Begin n)
    then have "td_BeginBlocker D B E n s b = Inr (s', b')" using ok by (simp add: td_exec_def)
    then have "tds_deposits s' = tds_deposits s"
    proof (rule BeginBlocker_cases)
      fix k dust allowance
      assume d: "distribute_yield D B E s b (dec_of_int D (module_balance B E b)) allowance
       (dec_of_int D (bk_balance B b (pool_address E (tds_params s)) bond_denom)) = Inr (s', b')"
      show ?thesis using distribute_effect [OF assms(1,2) d] assms(3) by (auto simp: modules_distinct_def Let_def)
    qed simp
    then show ?thesis using inv(3) by (simp add: covered_def)
  next
    case (Op_Params signer p)
    then have "tds_deposits s' = tds_deposits s" using ok
      by (auto simp: td_exec_def td_UpdateParams_def bindE_ok_iff split: if_split_asm)
    then show ?thesis using inv(3) by (simp add: covered_def)
  qed (use other in auto)
qed

theorem claimable_stays_covered_witness:
  "\<exists>s' b'. td_exec fix18 sample_bank (demo_env 5) (\<lambda>_. None) de_empty ''gov'' (Op_Adjust ''corp'' (- 30))
      sample_td sample_ledger = Inr (s', b') \<and> covered s'"
proof -
  obtain s' b' where r: "td_exec fix18 sample_bank (demo_env 5) (\<lambda>_. None) de_empty ''gov''
      (Op_Adjust ''corp'' (- 30)) sample_td sample_ledger = Inr (s', b')"
    using sample_decrease_ok by (auto simp: td_exec_def is_ok_iff)
  show ?thesis
    using claimable_stays_covered [OF sample_bank_laws fix18.dec_laws_axioms sample_modules
        sample_td_inv(1,3,2) _ r] r
    by (auto simp: is_i64_def)
qed

text \<open>A slash does not touch the claimable amount: when it
  takes more than the part of the deposit that is not claimable, the record is
  left with more claimable than deposited, and the exported genesis no longer
  passes the module's own validation.\<close>

theorem slash_uncovers_claimable:
  assumes "td_inv s" "backing s < 2 ^ 63" "kget (tds_deposits s) (sl_corporation m) = Some t"
    and "td_deposit t - td_claimable t < sl_deposit m"
    and "SlashTrustDeposit D E authority s m = Inr s'"
  shows "\<not> covered s' \<and> \<not> td_validate_genesis E' (td_ExportGenesis s')"
proof -
  obtain t' where t': "kget (tds_deposits s') (sl_corporation m) = Some t'"
      "td_deposit t' = td_deposit t - sl_deposit m" "td_claimable t' = td_claimable t"
    using Slash_effect [OF assms(5,1,2)] assms(3) by auto
  then have lt: "td_deposit t' < td_claimable t'" using assms(4) by simp
  have "t' \<in> set (walk (tds_deposits s'))" using t'(1) by (auto simp: walk_mem_iff)
  then have "\<not> td_validate_genesis E' (td_ExportGenesis s')"
    using lt by (force simp: td_validate_genesis_def td_ExportGenesis_def list_all_iff)
  moreover have "\<not> covered s'" using t'(1) lt by (force simp: covered_def)
  ultimately show ?thesis by blast
qed

theorem slash_uncovers_claimable_witness:
  "\<exists>s'. SlashTrustDeposit fix18 (demo_env 5) ''gov'' sample_td (sample_slash 80) = Inr s' \<and> \<not> covered s'"
proof -
  obtain s' where r: "SlashTrustDeposit fix18 (demo_env 5) ''gov'' sample_td (sample_slash 80) = Inr s'"
    using sample_slash_ok by (auto simp: is_ok_iff)
  show ?thesis
    using slash_uncovers_claimable [OF sample_td_inv(1,3) _ _ r, of "sample_record_td 100 40"] r
    by (auto simp: sample_slash_def)
qed

text \<open>Reclaiming pays the claimable amount out of the module
  account but leaves the recorded deposit as it was, so the same amount can be
  freed by a later decrease and claimed a second time.\<close>

theorem reclaim_keeps_deposit:
  assumes "bank_laws B (se_module_addr E)" "td_inv s" "backing s < 2 ^ 63" "covered s"
    and "corporation \<noteq> []" "se_from_bech32 E corporation \<noteq> Some (se_module_addr E td_module)"
    and "ReclaimTrustDepositYield D B E res de s b corporation operator = Inr (claimed, s', b')"
    and "\<And>t. kget (tds_deposits s') corporation = Some t \<Longrightarrow> 0 \<le> td_share t"
  shows "module_balance B E b' = module_balance B E b - claimed \<and> backing s' = backing s \<and>
    (\<exists>s''. AdjustTrustDeposit D B E s' b' corporation (- claimed) = Inr (s'', b') \<and>
       claimable_of s'' corporation = claimed)"
proof -
  obtain t t' addr where r: "kget (tds_deposits s) corporation = Some t" "td_slashed t = 0"
      "claimed = td_claimable t" "0 < claimed" "se_from_bech32 E corporation = Some addr"
      "s' = put_td s corporation t'" "td_corp t' = corporation" "td_range t'"
      "td_deposit t' = td_deposit t" "td_slashed t' = td_slashed t" "td_claimable t' = 0"
      "pay_out B b addr claimed = Inr b'"
    using Reclaim_effect [OF assms(7,2)] by auto
  have bal: "module_balance B E b' = module_balance B E b - claimed"
    using pay_out_balance(1) [OF assms(1) r(12)] r(5) assms(6) by simp
  have bkg: "backing s' = backing s" using backing_put [OF r(1), of t'] r by (simp add: locked_def)
  have inv': "td_inv s'" unfolding r(6) by (rule td_inv_put [OF assms(2) r(7,8)])
  have t': "kget (tds_deposits s') corporation = Some t'" by (simp add: r(6))
  have le: "claimed \<le> td_deposit t" using assms(4) r(1,3) by (auto simp: covered_def)
  have i: "is_i64 (- claimed)" using r(3,4) td_inv_range [OF assms(2) r(1)] by (simp add: td_range_def is_i64_def)
  have small': "backing s' < 2 ^ 63" using bkg assms(3) by simp
  have sl: "\<not> outstanding_slash t'" using r(2,10) by (simp add: outstanding_slash_def)
  have "is_ok (AdjustTrustDeposit D B E s' b' corporation (- claimed))"
    using r le t' assms(5,8) i sl
    by (subst adjust_decrease_iff_lemma [OF inv' small']) auto
  then obtain s'' b'' where a: "AdjustTrustDeposit D B E s' b' corporation (- claimed) = Inr (s'', b'')"
    by (auto simp: is_ok_iff)
  obtain u paid sender where "adjusted t' (- claimed) u paid" "s'' = put_td s' corporation u"
      "if 0 < paid then pay_in B b' sender paid = Inr b'' else b'' = b'"
    using Adjust_existing [OF a t' r(8) td_small [OF inv' small' t'] i] by blast
  then have "b'' = b' \<and> claimable_of s'' corporation = claimed"
    using r(4,11) by (auto simp: adjusted_def claimable_of_def)
  then show ?thesis using bal bkg a by blast
qed

theorem reclaim_keeps_deposit_witness:
  "\<exists>c s' b'. ReclaimTrustDepositYield fix18 sample_bank (demo_env 5) (resolve_id sample_registry) de_empty
     sample_td sample_ledger ''corp'' [] = Inr (c, s', b') \<and> backing s' = backing sample_td"
proof -
  obtain c s' b' where r: "ReclaimTrustDepositYield fix18 sample_bank (demo_env 5) (resolve_id sample_registry)
      de_empty sample_td sample_ledger ''corp'' [] = Inr (c, s', b')"
    using sample_reclaim_ok by (auto simp: is_ok_iff)
  have "s' = put_td sample_td ''corp'' ((sample_record_td 100 40)\<lparr>td_share := 60 * dec_one, td_claimable := 0\<rparr>)"
    using r by (auto simp: ReclaimTrustDepositYield_def bindE_ok_iff optE_ok_iff AmountToShare_def i64_def
        near_div_def dec_one_def Let_def split: if_split_asm)
  then have share: "\<And>t. kget (tds_deposits s') ''corp'' = Some t \<Longrightarrow> 0 \<le> td_share t"
    by (auto simp: dec_one_def)
  show ?thesis
    using reclaim_keeps_deposit [OF sample_bank_laws sample_td_inv(1,3,2) _ _ r share] r by (auto simp: td_module_def)
qed

text \<open>After a slash has been repaid, a further slash of no
  more than the repaid amount leaves an outstanding slashed balance that
  \<open>AdjustTrustDeposit\<close> does not recognise (it compares the cumulative repaid
  amount with the balance the repayment decremented), while
  \<open>ReclaimTrustDepositYield\<close> does refuse it.\<close>

theorem reslash_not_blocked:
  assumes "td_inv s" "backing s < 2 ^ 63"
    and "kget (tds_deposits s) (rp_corporation m) = Some t" "td_repaid t + td_slashed t < 2 ^ 64"
    and "RepaySlashedTrustDeposit D B E res de s b m = Inr (s1, b1)"
    and "SlashTrustDeposit D E authority s1 m' = Inr s2"
    and "sl_corporation m' = rp_corporation m" "sl_deposit m' \<le> rp_deposit m" "backing s1 < 2 ^ 63"
  shows "\<exists>t2. kget (tds_deposits s2) (rp_corporation m) = Some t2 \<and>
    0 < td_slashed t2 \<and> \<not> outstanding_slash t2 \<and>
    \<not> is_ok (ReclaimTrustDepositYield D B E res de s2 b1 (rp_corporation m) operator)"
proof -
  obtain t1 where t1: "rp_deposit m = td_slashed t" "s1 = put_td s (rp_corporation m) t1" "td_slashed t1 = 0"
      "td_corp t1 = rp_corporation m" "td_range t1"
    using Repay_effect [OF assms(5,1,2)] assms(3) by auto
  have rep: "td_repaid t1 = td_repaid t + td_slashed t"
  proof -
    have "td_repaid t1 = u64 (td_repaid t + rp_deposit m)"
      using assms(5,3) t1(2)
      by (auto simp: RepaySlashedTrustDeposit_def bindE_ok_iff optE_ok_iff put_td_def split: if_split_asm
          dest!: arg_cong [where f = "\<lambda>x. kget (tds_deposits x) (rp_corporation m)"])
    then show ?thesis
      using t1(1) assms(4) td_range_nonneg [OF td_inv_range [OF assms(1,3)]] by (simp add: u64_id)
  qed
  have inv1: "td_inv s1" unfolding t1(2) by (rule td_inv_put [OF assms(1) t1(4,5)])
  obtain t2 where t2: "kget (tds_deposits s2) (rp_corporation m) = Some t2" "0 < sl_deposit m'"
      "td_slashed t2 = sl_deposit m'" "td_repaid t2 = td_repaid t1"
    using Slash_effect [OF assms(6) inv1 assms(9)] assms(7) t1(2,3) by auto
  have "0 \<le> td_repaid t" using td_range_nonneg [OF td_inv_range [OF assms(1,3)]] by simp
  then have "\<not> outstanding_slash t2" "0 < td_slashed t2"
    using t2 rep t1(1) assms(8) by (simp_all add: outstanding_slash_def)
  then show ?thesis using t2(1)
    by (auto simp: ReclaimTrustDepositYield_def is_ok_iff bindE_ok_iff optE_ok_iff)
qed

definition sample_slashed :: td_state where
  "sample_slashed = sample_td\<lparr>tds_deposits := kset kempty ''corp''
     ((sample_record_td 20 0)\<lparr>td_slashed := 80, td_slash_count := 1\<rparr>)\<rparr>"

definition sample_repay :: msg_repay_td where
  "sample_repay = \<lparr>rp_corporation = ''corp'', rp_operator = [], rp_deposit = 80\<rparr>"

definition sample_repaid :: td_state where
  "sample_repaid = sample_td\<lparr>tds_deposits := kset kempty ''corp''
     ((sample_record_td 100 0)\<lparr>td_repaid := 80, td_slash_count := 1, td_last_repaid := Some 5\<rparr>)\<rparr>"

declare kset_kset_same [simp]

lemma sample_repay_ok:
  "\<exists>b'. RepaySlashedTrustDeposit fix18 sample_bank (demo_env 5) (resolve_id sample_registry) de_empty
     sample_slashed sample_ledger sample_repay = Inr (sample_repaid, b')"
  by (simp add: RepaySlashedTrustDeposit_def sample_slashed_def sample_repay_def td_authorize_def
      CheckOperatorAuthorization_def checkOperatorAuthorizationCore_def AmountToShare_def i64_def u64_def
      max_i64_def near_div_def dec_one_def pay_in_def burn_td_def new_coins_def ledger_move_def
      ledger_debit_def ledger_credit_def sample_ledger_def bond_denom_def td_module_def put_td_def
      sample_repaid_def sample_record_td_def new_td_def sample_td_def)

lemma sample_slash_again_ok:
  "is_ok (SlashTrustDeposit fix18 (demo_env 5) ''gov'' sample_repaid (sample_slash 50))"
  by (simp add: SlashTrustDeposit_def sample_slash_def is_u64_def dec_one_def sample_repaid_def)

theorem reslash_not_blocked_witness:
  "\<exists>s2 t2. SlashTrustDeposit fix18 (demo_env 5) ''gov'' sample_repaid (sample_slash 50) = Inr s2 \<and>
     kget (tds_deposits s2) ''corp'' = Some t2 \<and> 0 < td_slashed t2 \<and> \<not> outstanding_slash t2"
proof -
  obtain b1 where r: "RepaySlashedTrustDeposit fix18 sample_bank (demo_env 5) (resolve_id sample_registry) de_empty
     sample_slashed sample_ledger sample_repay = Inr (sample_repaid, b1)" using sample_repay_ok by blast
  obtain s2 where sl: "SlashTrustDeposit fix18 (demo_env 5) ''gov'' sample_repaid (sample_slash 50) = Inr s2"
    using sample_slash_again_ok by (auto simp: is_ok_iff)
  have inv: "td_inv sample_slashed" "backing sample_slashed < 2 ^ 63" "backing sample_repaid < 2 ^ 63"
    by (simp_all add: sample_slashed_def sample_repaid_def td_inv_def td_range_def is_u64_def kget_kset
        backing_def ksum_kset locked_def split: if_splits)
  have t: "kget (tds_deposits sample_slashed) (rp_corporation sample_repay) =
      Some ((sample_record_td 20 0)\<lparr>td_slashed := 80, td_slash_count := 1\<rparr>)"
    by (simp add: sample_slashed_def sample_repay_def)
  show ?thesis
    using reslash_not_blocked [OF inv(1,2) t _ r sl _ _ inv(3), of "[]"] sl
    by (auto simp: sample_repay_def sample_slash_def)
qed

section \<open>Yield distribution\<close>

text \<open>C30 yield_distribution_bounds: When the yield distribution moves money, it moves a
  whole positive amount that exceeds neither the allowance (dust plus the
  per-block yield) nor the balance of the yield pool, the module account grows by
  exactly that amount, no record changes, and the new dust is a fraction of one
  unit.\<close>

theorem yield_distribution_bounds:
  assumes "bank_laws B (se_module_addr E)" "dec_laws D" "modules_distinct E"
    and "td_BeginBlocker D B E blocksPerYear s b = Inr (s', b')" "(s', b') \<noteq> (s, b)"
  shows "\<exists>n dust allowance amt d. blocksPerYear = Some n \<and> read_dust D s = Inr dust \<and>
    yield_allowance D (tds_params s) n dust (module_balance B E b) = Inr allowance \<and>
    0 < amt \<and> amt * dec_one \<le> allowance \<and>
    amt \<le> bk_balance B b (pool_address E (tds_params s)) bond_denom \<and>
    module_balance B E b' = module_balance B E b + amt \<and> tds_deposits s' = tds_deposits s \<and>
    tds_dust s' = Some (dec_to_string D d) \<and> 0 \<le> d \<and> d < dec_one"
  using assms(4)
proof (rule BeginBlocker_cases)
  assume "s' = s" "b' = b"
  then show ?thesis using assms(5) by simp
next
  fix n dust allowance
  assume n: "blocksPerYear = Some n" "read_dust D s = Inr dust"
    "yield_allowance D (tds_params s) n dust (module_balance B E b) = Inr allowance"
    and d: "distribute_yield D B E s b (dec_of_int D (module_balance B E b)) allowance
       (dec_of_int D (bk_balance B b (pool_address E (tds_params s)) bond_denom)) = Inr (s', b')"
  let ?pool = "bk_balance B b (pool_address E (tds_params s)) bond_denom"
  define m where "m = min allowance (dec_of_int D ?pool)"
  define amt where "amt = dec_truncate D m"
  have e: "tds_deposits s' = tds_deposits s" "module_balance B E b' = module_balance B E b + max 0 amt"
      "if 0 < amt then tds_dust s' = Some (dec_to_string D (m - dec_of_int D amt)) else s' = s \<and> b' = b"
    using distribute_effect [OF assms(1,2) d] assms(3) by (auto simp: modules_distinct_def Let_def amt_def m_def)
  have pos: "0 < amt" using e(3) assms(5) by (auto split: if_splits)
  have m: "0 < m" using dec_laws.truncate_neg [OF assms(2), of m] pos by (force simp: amt_def)
  have b1: "amt * dec_one \<le> m" "m < (amt + 1) * dec_one"
    using dec_laws.truncate_le [OF assms(2), of m] dec_laws.truncate_gt [OF assms(2), of m] m
    by (simp_all add: amt_def)
  have "m \<le> ?pool * dec_one" by (simp add: m_def dec_laws.of_int [OF assms(2)])
  then have "amt * dec_one \<le> ?pool * dec_one" using b1(1) by simp
  then have "amt \<le> ?pool" by (simp add: dec_one_def)
  moreover have "amt * dec_one \<le> allowance" using b1(1) by (simp add: m_def)
  moreover have "0 \<le> m - dec_of_int D amt" "m - dec_of_int D amt < dec_one"
    using b1 by (simp_all add: dec_laws.of_int [OF assms(2)] distrib_right)
  ultimately show ?thesis using n e pos by auto
qed

lemma sample_move: "ledger_move sample_ledger ''@yield_intermediate_pool'' ''@td'' [(''uvna'', 5)] =
   Some (sample_ledger(''@yield_intermediate_pool'' := (\<lambda>d. 0),
      ''@td'' := (\<lambda>d. if d = ''uvna'' then 105 else 0)))"
  by (auto simp: ledger_move_def ledger_debit_def ledger_credit_def sample_ledger_def fun_eq_iff)

lemma sample_yield_ok:
  "\<exists>s' b'. td_BeginBlocker fix18 sample_bank (demo_env 5) (Some 1) sample_td sample_ledger = Inr (s', b') \<and>
     s' \<noteq> sample_td"
proof -
  have d: "\<exists>p d b'. distribute_yield fix18 sample_bank (demo_env 5) sample_td sample_ledger (100 * dec_one)
      (15 * dec_one) (5 * dec_one) = Inr (sample_td\<lparr>tds_params := p, tds_dust := Some d\<rparr>, b')"
    by (simp add: distribute_yield_def dec_one_def new_coins_def yield_pool_def td_module_def bond_denom_def
        sample_move new_share_value_def return_excess_def) blast
  have "yield_allowance fix18 (td_DefaultParams ''pool'') 1 0 100 = Inr (15 * dec_one)"
    by (simp add: yield_allowance_def near_div_def dec_one_def i64_def)
  moreover have "sample_ledger ''@td'' ''uvna'' = 100" "sample_ledger ''pool'' ''uvna'' = 5"
    by (simp_all add: sample_ledger_def)
  ultimately have "td_BeginBlocker fix18 sample_bank (demo_env 5) (Some 1) sample_td sample_ledger =
      distribute_yield fix18 sample_bank (demo_env 5) sample_td sample_ledger (100 * dec_one)
      (15 * dec_one) (5 * dec_one)"
    by (simp add: td_BeginBlocker_def read_dust_def pool_address_def td_module_def bond_denom_def)
  moreover have "sample_td\<lparr>tds_params := p, tds_dust := Some d\<rparr> \<noteq> sample_td" for p d
    by (simp add: sample_td_def)
  ultimately show ?thesis using d by (metis)
qed
theorem yield_distribution_bounds_witness:
  "\<exists>s' b' amt. td_BeginBlocker fix18 sample_bank (demo_env 5) (Some 1) sample_td sample_ledger = Inr (s', b') \<and>
     0 < amt \<and> module_balance sample_bank (demo_env 5) b' = module_balance sample_bank (demo_env 5) sample_ledger + amt"
proof -
  obtain s' b' where r: "td_BeginBlocker fix18 sample_bank (demo_env 5) (Some 1) sample_td sample_ledger = Inr (s', b')"
      "s' \<noteq> sample_td" using sample_yield_ok by blast
  show ?thesis
    using yield_distribution_bounds [OF sample_bank_laws fix18.dec_laws_axioms sample_modules r(1)] r by auto
qed

text \<open>In a block whose allowance is below one unit, nothing is
  transferred and the stored dust stays what it was: the fractional yield of such
  blocks never adds up to a transfer.\<close>

theorem small_yield_is_lost:
  assumes D: "dec_laws D"
    and p: "tp_yield_pool (tds_params s) \<noteq> []" "n \<noteq> 0" "tp_max_yield_rate (tds_params s) \<noteq> 0"
    and a: "read_dust D s = Inr dust"
      "yield_allowance D (tds_params s) n dust (module_balance B E b) = Inr allowance" "allowance < dec_one"
  shows "td_BeginBlocker D B E (Some n) s b = Inr (s, b)"
proof -
  define m where "m = min allowance (dec_of_int D (bk_balance B b (pool_address E (tds_params s)) bond_denom))"
  have "m < dec_one" using a(3) by (simp add: m_def)
  have "dec_truncate D m \<le> 0"
  proof (cases "m \<le> 0")
    case True
    then show ?thesis by (rule dec_laws.truncate_neg [OF D])
  next
    case False
    then have "dec_truncate D m * dec_one \<le> m" by (intro dec_laws.truncate_le [OF D]) simp
    then have "dec_truncate D m * dec_one < dec_one" using \<open>m < dec_one\<close> by simp
    then show ?thesis by (simp add: dec_one_def)
  qed
  then show ?thesis using p a
    by (simp add: td_BeginBlocker_def distribute_yield_def module_balance_def m_def [symmetric])
qed

theorem small_yield_is_lost_witness:
  "td_BeginBlocker fix18 sample_bank (demo_env 5) (Some 6000000) sample_td sample_ledger = Inr (sample_td, sample_ledger)"
  by (rule small_yield_is_lost [OF fix18.dec_laws_axioms, where dust = 0 and allowance = 2500000000000])
    (simp_all add: read_dust_def yield_allowance_def near_div_def dec_one_def i64_def module_balance_def
      sample_ledger_def bond_denom_def td_module_def)

section \<open>Genesis\<close>

definition forget_slash :: "trust_deposit \<Rightarrow> trust_deposit" where
  "forget_slash t = t\<lparr>td_slashed := 0, td_repaid := 0, td_last_slashed := None, td_last_repaid := None,
     td_slash_count := 0\<rparr>"

lemma genesis_record:
  "(new_td (td_corp t) (td_share t) (td_deposit t))\<lparr>td_claimable := td_claimable t\<rparr> = forget_slash t"
  by (cases t) (simp add: new_td_def forget_slash_def)

text \<open>Exporting and importing the module keeps parameters,
  accounts, deposits, claimable amounts and shares, and resets every slashing
  field of every record; in particular an outstanding slash disappears.\<close>

theorem td_genesis_round_trip:
  assumes "td_inv s" and "tds_deposits s0 = kempty"
  shows "tds_params (td_InitGenesis (td_ExportGenesis s) s0) = tds_params s \<and>
    (\<forall>a. kget (tds_deposits (td_InitGenesis (td_ExportGenesis s) s0)) a =
       map_option forget_slash (kget (tds_deposits s) a))"
proof -
  let ?ts = "map forget_slash (walk (tds_deposits s))"
  have ts: "tds_deposits (td_InitGenesis (td_ExportGenesis s) s0) = kset_all td_corp ?ts kempty"
    using assms(2)
    by (simp add: td_InitGenesis_def td_ExportGenesis_def comp_def genesis_record)
  have own: "map td_corp ?ts = keys (tds_deposits s)"
    using td_inv_corp [OF assms(1)]
    by (auto simp: walk_def keys_def forget_slash_def entries_mem_iff)
  have "kget (kset_all td_corp ?ts kempty) a = map_option forget_slash (kget (tds_deposits s) a)" for a
  proof (cases "kget (tds_deposits s) a")
    case None
    then have "a \<notin> set (map td_corp ?ts)" unfolding own by (simp add: keys_mem_iff khas_def)
    then have "a \<notin> td_corp ` set ?ts" by (simp add: image_image)
    then have "kget (kset_all td_corp ?ts kempty) a = kget kempty a" by (rule kget_kset_all_notin)
    then show ?thesis using None by simp
  next
    case (Some t)
    then have "t \<in> set (walk (tds_deposits s))" unfolding walk_mem_iff by blast
    then have "forget_slash t \<in> set ?ts" by simp
    moreover have "distinct (map td_corp ?ts)" unfolding own by simp
    ultimately have "kget (kset_all td_corp ?ts kempty) (td_corp (forget_slash t)) = Some (forget_slash t)"
      by (rule kget_kset_all_in)
    moreover have "td_corp (forget_slash t) = a" using td_inv_corp [OF assms(1) Some] by (simp add: forget_slash_def)
    ultimately show ?thesis using Some by simp
  qed
  then show ?thesis unfolding ts by (simp add: td_InitGenesis_def td_ExportGenesis_def)
qed

theorem td_genesis_round_trip_witness:
  "\<exists>t. kget (tds_deposits (td_InitGenesis (td_ExportGenesis sample_slashed) (sample_td\<lparr>tds_deposits := kempty\<rparr>)))
      ''corp'' = Some t \<and> td_slashed t = 0"
proof -
  have inv: "td_inv sample_slashed"
    by (simp add: sample_slashed_def td_inv_def td_range_def is_u64_def kget_kset)
  show ?thesis
    using td_genesis_round_trip [OF inv, of "sample_td\<lparr>tds_deposits := kempty\<rparr>"]
    by (simp add: sample_slashed_def forget_slash_def)
qed

end
