(* ===== verification/Ecosystem.thy ===== *)
theory Ecosystem
imports Delegation
begin

text \<open>
  The ecosystem registry (src/x/ec): its records and state, the (did, corporation)
  consistency check of keeper/msg_server.go, the read accessor of keeper/keeper.go
  and the adapter of keeper/cross_module.go that the governance-framework module
  uses.  The handlers are in \<open>Ecosystem_Msgs\<close>.
\<close>

record ecosystem =
  ec_id :: nat
  ec_did :: string
  ec_corporation_id :: nat
  ec_created :: time
  ec_modified :: time
  ec_archived :: bool
  ec_language :: string
  ec_active_version :: int

record ec_params =
  ep_trust_unit_price :: int

record ec_state =
  ecs_params :: ec_params
  ecs_ecosystems :: "(nat, ecosystem) store"
  ecs_by_did_corp :: "(string \<times> nat, nat) store"
  ecs_counter :: "(string, nat) store"

definition ec_empty :: ec_state where
  "ec_empty = \<lparr> ecs_params = \<lparr>ep_trust_unit_price = 1000000\<rparr>, ecs_ecosystems = kempty,
     ecs_by_did_corp = kempty, ecs_counter = kempty \<rparr>"

definition ec_GetNextID :: "ec_state \<Rightarrow> string \<Rightarrow> nat \<times> ec_state" where
  "ec_GetNextID s ty =
     (let cur = (case kget (ecs_counter s) ty of None \<Rightarrow> 0 | Some n \<Rightarrow> n);
          nxt = cur + 1
      in (nxt, s\<lparr>ecs_counter := kset (ecs_counter s) ty nxt\<rparr>))"

definition ec_GetEcosystem :: "ec_state \<Rightarrow> nat \<Rightarrow> ecosystem option" where
  "ec_GetEcosystem s i = kget (ecs_ecosystems s) i"

text \<open>\<open>assertDIDConsistent\<close>: every entry of the index under the DID, except the one
  of the record being updated, belongs to the given corporation.\<close>

definition assertDIDConsistent :: "ec_state \<Rightarrow> string \<Rightarrow> nat \<Rightarrow> nat \<Rightarrow> bool" where
  "assertDIDConsistent s did ownerCorpID selfID =
     list_all (\<lambda>((_, corp), i). (selfID \<noteq> 0 \<and> i = selfID) \<or> corp = ownerCorpID)
       (prefixed (ecs_by_did_corp s) did)"

text \<open>The read side and the write side of the adapter for x/gf.\<close>

definition GetEcosystemView :: "ec_state \<Rightarrow> nat \<Rightarrow> ecosystem option" where
  "GetEcosystemView s i = kget (ecs_ecosystems s) i"

definition SetEcosystemActiveVersion :: "ec_state \<Rightarrow> nat \<Rightarrow> int \<Rightarrow> time \<Rightarrow> ec_state option" where
  "SetEcosystemActiveVersion s i v now =
     (case kget (ecs_ecosystems s) i of
        None \<Rightarrow> None
      | Some ec \<Rightarrow> Some (s\<lparr>ecs_ecosystems := kset (ecs_ecosystems s) (ec_id ec)
                          (ec\<lparr>ec_active_version := v, ec_modified := now\<rparr>)\<rparr>))"

section \<open>The table invariant\<close>

definition ec_last_id :: "ec_state \<Rightarrow> nat" where
  "ec_last_id s = (case kget (ecs_counter s) ''ec'' of None \<Rightarrow> 0 | Some n \<Rightarrow> n)"

text \<open>Every ecosystem is stored under its own positive id, not above the last id
  given out, and carries a well-formed DID and language tag; every index entry names an
  ecosystem of that corporation with that DID.\<close>

definition ec_wf :: "ecosystem \<Rightarrow> bool" where
  "ec_wf e \<longleftrightarrow> 0 < ec_corporation_id e \<and> IsValidDID (ec_did e) \<and> ec_IsValidBCP47 (ec_language e)"

definition ec_inv :: "ec_state \<Rightarrow> bool" where
  "ec_inv s \<longleftrightarrow>
     (\<forall>i e. kget (ecs_ecosystems s) i = Some e \<longrightarrow> ec_id e = i \<and> 0 < i \<and> i \<le> ec_last_id s \<and> ec_wf e) \<and>
     (\<forall>d c i. kget (ecs_by_did_corp s) (d, c) = Some i \<longrightarrow>
        (\<exists>e. kget (ecs_ecosystems s) i = Some e \<and> ec_did e = d \<and> ec_corporation_id e = c))"

lemma ec_inv_id: "ec_inv s \<Longrightarrow> kget (ecs_ecosystems s) i = Some e \<Longrightarrow>
    ec_id e = i \<and> 0 < i \<and> i \<le> ec_last_id s \<and> ec_wf e"
  by (simp add: ec_inv_def)

lemma ec_inv_index: "ec_inv s \<Longrightarrow> kget (ecs_by_did_corp s) (d, c) = Some i \<Longrightarrow>
    \<exists>e. kget (ecs_ecosystems s) i = Some e \<and> ec_did e = d \<and> ec_corporation_id e = c"
  by (simp add: ec_inv_def)

lemma ec_inv_empty: "ec_inv ec_empty"
  by (simp add: ec_inv_def ec_empty_def)

lemma ec_inv_fresh: "ec_inv s \<Longrightarrow> ec_last_id s < i \<Longrightarrow> kget (ecs_ecosystems s) i = None"
  using ec_inv_id by (metis not_le not_None_eq)

lemma ec_invI:
  assumes "\<And>i e. kget (ecs_ecosystems s) i = Some e \<Longrightarrow> ec_id e = i \<and> 0 < i \<and> i \<le> ec_last_id s \<and> ec_wf e"
    and "\<And>d c i. kget (ecs_by_did_corp s) (d, c) = Some i \<Longrightarrow>
        \<exists>e. kget (ecs_ecosystems s) i = Some e \<and> ec_did e = d \<and> ec_corporation_id e = c"
  shows "ec_inv s"
  using assms by (simp add: ec_inv_def)

lemma ec_inv_insert:
  assumes inv: "ec_inv s" and e: "ec_wf e" "ec_id e = Suc (ec_last_id s)"
  shows "ec_inv (s\<lparr>ecs_counter := kset (ecs_counter s) ''ec'' (Suc (ec_last_id s)),
           ecs_ecosystems := kset (ecs_ecosystems s) (Suc (ec_last_id s)) e,
           ecs_by_did_corp := kset (ecs_by_did_corp s) (ec_did e, ec_corporation_id e) (Suc (ec_last_id s))\<rparr>)"
    (is "ec_inv ?s")
proof (rule ec_invI)
  fix i x
  assume a: "kget (ecs_ecosystems ?s) i = Some x"
  then have "(if i = Suc (ec_last_id s) then Some e else kget (ecs_ecosystems s) i) = Some x"
    by (simp add: kget_kset)
  then consider "i = Suc (ec_last_id s)" "x = e" | "kget (ecs_ecosystems s) i = Some x"
    by (metis option.inject)
  then show "ec_id x = i \<and> 0 < i \<and> i \<le> ec_last_id ?s \<and> ec_wf x"
  proof cases
    case 1
    then show ?thesis using e by (simp add: ec_last_id_def)
  next
    case 2
    show ?thesis using ec_inv_id [OF inv 2] by (auto simp: ec_last_id_def)
  qed
next
  fix d c i
  have fresh: "kget (ecs_ecosystems s) (Suc (ec_last_id s)) = None" by (rule ec_inv_fresh [OF inv]) simp
  assume "kget (ecs_by_did_corp ?s) (d, c) = Some i"
  then have "(if (d, c) = (ec_did e, ec_corporation_id e) then Some (Suc (ec_last_id s))
      else kget (ecs_by_did_corp s) (d, c)) = Some i"
    by (simp add: kget_kset)
  then consider "i = Suc (ec_last_id s)" "d = ec_did e" "c = ec_corporation_id e"
    | "kget (ecs_by_did_corp s) (d, c) = Some i"
    by (metis option.inject prod.inject)
  then show "\<exists>x. kget (ecs_ecosystems ?s) i = Some x \<and> ec_did x = d \<and> ec_corporation_id x = c"
  proof cases
    case 2
    then obtain x where x: "kget (ecs_ecosystems s) i = Some x" "ec_did x = d" "ec_corporation_id x = c"
      using ec_inv_index [OF inv] by blast
    then have "i \<noteq> Suc (ec_last_id s)" using fresh by auto
    then show ?thesis using x by simp
  qed simp
qed

lemma ec_inv_modify:
  assumes "ec_inv s" "kget (ecs_ecosystems s) i = Some e" "ec_wf e'" "ec_id e' = i"
    and "ec_did e' = ec_did e" "ec_corporation_id e' = ec_corporation_id e"
  shows "ec_inv (s\<lparr>ecs_ecosystems := kset (ecs_ecosystems s) i e'\<rparr>)"
    (is "ec_inv ?s")
proof (rule ec_invI)
  fix j x
  assume "kget (ecs_ecosystems ?s) j = Some x"
  then have "(if j = i then Some e' else kget (ecs_ecosystems s) j) = Some x"
    by (simp add: kget_kset)
  then consider "j = i" "x = e'" | "kget (ecs_ecosystems s) j = Some x"
    by (metis option.inject)
  then show "ec_id x = j \<and> 0 < j \<and> j \<le> ec_last_id ?s \<and> ec_wf x"
  proof cases
    case 1
    then show ?thesis using ec_inv_id [OF assms(1,2)] assms(3,4) by (auto simp: ec_last_id_def)
  next
    case 2
    show ?thesis using ec_inv_id [OF assms(1) 2] by (auto simp: ec_last_id_def)
  qed
next
  fix d c j
  assume "kget (ecs_by_did_corp ?s) (d, c) = Some j"
  then obtain x where "kget (ecs_ecosystems s) j = Some x" "ec_did x = d" "ec_corporation_id x = c"
    using ec_inv_index [OF assms(1), of d c j] by auto
  then show "\<exists>x. kget (ecs_ecosystems ?s) j = Some x \<and> ec_did x = d \<and> ec_corporation_id x = c"
    using assms by (cases "j = i") auto
qed

end
