(* ===== verification/Governance.thy ===== *)
theory Governance
imports Ecosystem
begin

text \<open>
  The governance-framework module (src/x/gf): versions and documents of the
  governance framework of a corporation or an ecosystem, the messages that add a
  document and activate the next version, the keeper calls that seed version 1, the
  listings, and genesis.  The registries of corporations and ecosystems are passed in
  as the wired keepers see them.
\<close>

section \<open>Data and state\<close>

record gf_version =
  gv_id :: nat
  gv_ecosystem_id :: nat
  gv_corporation_id :: nat
  gv_created :: time
  gv_version :: int
  gv_active_since :: time

record gf_document =
  gd_id :: nat
  gd_gfv_id :: nat
  gd_created :: time
  gd_language :: string
  gd_url :: string
  gd_digest_sri :: string

record gf_state =
  gfs_versions :: "(nat, gf_version) store"
  gfs_documents :: "(nat, gf_document) store"
  gfs_by_ecosystem :: "(nat \<times> int, nat) store"
  gfs_by_corporation :: "(nat \<times> int, nat) store"
  gfs_counter :: "(string, nat) store"

definition gf_empty :: gf_state where
  "gf_empty = \<lparr> gfs_versions = kempty, gfs_documents = kempty, gfs_by_ecosystem = kempty,
     gfs_by_corporation = kempty, gfs_counter = kempty \<rparr>"

datatype gf_error =
    Gf_Authz de_error | Gf_Subject_Not_Found | Gf_Not_Controlled | Gf_Invalid_Version
  | Gf_Missing_Record | Gf_No_Activatable | Gf_Missing_Default_Lang | Gf_Invalid_Subject
  | Gf_Bad_Address | Gf_Invalid_Language | Gf_Invalid_URL | Gf_Invalid_Digest | Gf_Setter
  | Gf_Invalid_Argument | Gf_Not_Found

definition gf_GetNextID :: "gf_state \<Rightarrow> string \<Rightarrow> nat \<times> gf_state" where
  "gf_GetNextID s ty =
     (let current = (case kget (gfs_counter s) ty of None \<Rightarrow> 0 | Some n \<Rightarrow> n);
          nxt = current + 1
      in (nxt, s\<lparr>gfs_counter := kset (gfs_counter s) ty nxt\<rparr>))"

section \<open>Messages (types/msgs.go)\<close>

record msg_add_gfd =
  ag_corporation :: string
  ag_operator :: string
  ag_ecosystem_id :: nat
  ag_language :: string
  ag_url :: string
  ag_digest :: string
  ag_version :: int

record msg_increase_gfv =
  ig_corporation :: string
  ig_operator :: string
  ig_ecosystem_id :: nat

definition validate_add_gfd :: "(string \<Rightarrow> (string \<times> string) option) \<Rightarrow> msg_add_gfd \<Rightarrow> gf_error + unit" where
  "validate_add_gfd parse m =
     (if ag_corporation m = [] then Inl Gf_Bad_Address
      else if ag_operator m = [] then Inl Gf_Bad_Address
      else if ag_language m = [] then Inl Gf_Invalid_Language
      else if \<not> IsValidBCP47 (ag_language m) then Inl Gf_Invalid_Language
      else if ag_url m = [] then Inl Gf_Invalid_URL
      else if \<not> IsValidURL parse (ag_url m) then Inl Gf_Invalid_URL
      else if ag_digest m = [] then Inl Gf_Invalid_Digest
      else if \<not> IsValidDigestSRI (ag_digest m) then Inl Gf_Invalid_Digest
      else if ag_version m < 1 then Inl Gf_Invalid_Version
      else Inr ())"

definition validate_increase_gfv :: "msg_increase_gfv \<Rightarrow> gf_error + unit" where
  "validate_increase_gfv m =
     (if ig_corporation m = [] then Inl Gf_Bad_Address
      else if ig_operator m = [] then Inl Gf_Bad_Address
      else Inr ())"

section \<open>Subjects (keeper/msg_add_gf_document.go)\<close>

text \<open>The owner of a governance framework; the constructors are the source's
  \<open>subjectKind\<close> with the id that goes with it.\<close>

datatype subject = SubjectEcosystem nat | SubjectCorporation nat

record resolved_subject =
  sj_owner :: subject
  sj_language :: string
  sj_active_version :: int

definition resolveSubject ::
  "co_state \<Rightarrow> ec_state \<Rightarrow> string \<Rightarrow> nat \<Rightarrow> gf_error + resolved_subject" where
  "resolveSubject cs es signingCorp ecosystemID =
     (case gf_ResolveByPolicyAddress cs signingCorp of
        None \<Rightarrow> Inl Gf_Subject_Not_Found
      | Some co \<Rightarrow>
          if ecosystemID \<noteq> 0 then
            (case GetEcosystemView es ecosystemID of
               None \<Rightarrow> Inl Gf_Subject_Not_Found
             | Some eco \<Rightarrow>
                 if ec_corporation_id eco \<noteq> co_id co then Inl Gf_Not_Controlled
                 else Inr \<lparr>sj_owner = SubjectEcosystem (ec_id eco), sj_language = ec_language eco,
                           sj_active_version = ec_active_version eco\<rparr>)
          else Inr \<lparr>sj_owner = SubjectCorporation (co_id co), sj_language = co_language co,
                    sj_active_version = co_active_version co\<rparr>)"

text \<open>The index of a subject: the version ids under its prefix, and one of them.\<close>

definition gf_versions_of :: "gf_state \<Rightarrow> subject \<Rightarrow> ((nat \<times> int) \<times> nat) list" where
  "gf_versions_of s sub = (case sub of
     SubjectEcosystem e \<Rightarrow> prefixed (gfs_by_ecosystem s) e
   | SubjectCorporation c \<Rightarrow> prefixed (gfs_by_corporation s) c)"

definition gf_lookup :: "gf_state \<Rightarrow> subject \<Rightarrow> int \<Rightarrow> nat option" where
  "gf_lookup s sub v = (case sub of
     SubjectEcosystem e \<Rightarrow> kget (gfs_by_ecosystem s) (e, v)
   | SubjectCorporation c \<Rightarrow> kget (gfs_by_corporation s) (c, v))"

text \<open>\<open>maxVersionFor\<close>: one pass over the index with the running maximum and the id of
  the target version, if met.\<close>

fun max_version_scan :: "int \<Rightarrow> int \<Rightarrow> nat option \<Rightarrow> ((nat \<times> int) \<times> nat) list \<Rightarrow> int \<times> nat option" where
  "max_version_scan target maxV found [] = (maxV, found)"
| "max_version_scan target maxV found (((_, v), i) # xs) =
     max_version_scan target (if maxV < v then v else maxV) (if v = target then Some i else found) xs"

definition maxVersionFor :: "gf_state \<Rightarrow> subject \<Rightarrow> int \<Rightarrow> int \<times> nat option" where
  "maxVersionFor s sub target = max_version_scan target 0 None (gf_versions_of s sub)"

section \<open>AddGovernanceFrameworkDocument\<close>

definition put_version :: "gf_state \<Rightarrow> subject \<Rightarrow> gf_version \<Rightarrow> gf_state" where
  "put_version s sub g =
     (let s1 = s\<lparr>gfs_versions := kset (gfs_versions s) (gv_id g) g\<rparr> in
      case sub of
        SubjectEcosystem e \<Rightarrow> s1\<lparr>gfs_by_ecosystem := kset (gfs_by_ecosystem s1) (e, gv_version g) (gv_id g)\<rparr>
      | SubjectCorporation c \<Rightarrow>
          s1\<lparr>gfs_by_corporation := kset (gfs_by_corporation s1) (c, gv_version g) (gv_id g)\<rparr>)"

definition new_gf_version :: "nat \<Rightarrow> subject \<Rightarrow> time \<Rightarrow> int \<Rightarrow> time \<Rightarrow> gf_version" where
  "new_gf_version i sub now v since = \<lparr>gv_id = i,
     gv_ecosystem_id = (case sub of SubjectEcosystem e \<Rightarrow> e | SubjectCorporation _ \<Rightarrow> 0),
     gv_corporation_id = (case sub of SubjectEcosystem _ \<Rightarrow> 0 | SubjectCorporation c \<Rightarrow> c),
     gv_created = now, gv_version = v, gv_active_since = since\<rparr>"

definition target_version ::
  "gf_state \<Rightarrow> subject \<Rightarrow> time \<Rightarrow> int \<Rightarrow> nat option \<Rightarrow> gf_error + gf_version \<times> gf_state" where
  "target_version s sub now v existing =
     (case existing of
        Some i \<Rightarrow> bindE (optE Gf_Missing_Record (kget (gfs_versions s) i)) (\<lambda>g. Inr (g, s))
      | None \<Rightarrow>
          (let (i, s1) = gf_GetNextID s ''gfv''; g = new_gf_version i sub now v zero_time
           in Inr (g, put_version s1 sub g)))"

definition find_document :: "gf_state \<Rightarrow> nat \<Rightarrow> string \<Rightarrow> gf_document option" where
  "find_document s gfv lang = find (\<lambda>d. gd_gfv_id d = gfv \<and> gd_language d = lang) (walk (gfs_documents s))"

text \<open>The upsert of the document of a version and a language.\<close>

definition upsert_document ::
  "gf_state \<Rightarrow> nat \<Rightarrow> time \<Rightarrow> string \<Rightarrow> string \<Rightarrow> string \<Rightarrow> gf_state" where
  "upsert_document s gfv now lang url digest =
     (case find_document s gfv lang of
        Some d \<Rightarrow> s\<lparr>gfs_documents := kset (gfs_documents s) (gd_id d)
                     (d\<lparr>gd_url := url, gd_digest_sri := digest\<rparr>)\<rparr>
      | None \<Rightarrow>
          (let (i, s1) = gf_GetNextID s ''gfd''
           in s1\<lparr>gfs_documents := kset (gfs_documents s1) i
                  \<lparr>gd_id = i, gd_gfv_id = gfv, gd_created = now, gd_language = lang, gd_url = url,
                   gd_digest_sri = digest\<rparr>\<rparr>))"

definition AddGovernanceFrameworkDocument ::
  "(string \<Rightarrow> (string \<times> string) option) \<Rightarrow> de_state \<Rightarrow> co_state \<Rightarrow> ec_state \<Rightarrow> time \<Rightarrow> gf_state
     \<Rightarrow> msg_add_gfd \<Rightarrow> gf_error + gf_state" where
  "AddGovernanceFrameworkDocument parse de cs es now s m =
     bindE (validate_add_gfd parse m) (\<lambda>_.
     bindE (liftE Gf_Authz (CheckOperatorAuthorization (resolve_id cs) de (ag_corporation m) (ag_operator m)
              ''/verana.gf.v1.MsgAddGovernanceFrameworkDocument'' now)) (\<lambda>_.
     bindE (resolveSubject cs es (ag_corporation m) (ag_ecosystem_id m)) (\<lambda>sub.
     let (maxV, existing) = maxVersionFor s (sj_owner sub) (ag_version m) in
     if existing = None \<and> ag_version m \<noteq> u32 (maxV + 1) then Inl Gf_Invalid_Version
     else if ag_version m \<le> sj_active_version sub then Inl Gf_Invalid_Version
     else
       bindE (target_version s (sj_owner sub) now (ag_version m) existing) (\<lambda>(g, s1).
       Inr (upsert_document s1 (gv_id g) now (ag_language m) (ag_url m) (ag_digest m))))))"

section \<open>IncreaseActiveGovernanceFrameworkVersion (keeper/msg_increase_active_gfv.go)\<close>

text \<open>The subject's registry record is updated through the wired keeper: the result
  carries the two registries.\<close>

definition set_active_version ::
  "co_state \<Rightarrow> ec_state \<Rightarrow> subject \<Rightarrow> int \<Rightarrow> time \<Rightarrow> gf_error + co_state \<times> ec_state" where
  "set_active_version cs es sub v now = (case sub of
     SubjectEcosystem e \<Rightarrow> bindE (optE Gf_Setter (SetEcosystemActiveVersion es e v now)) (\<lambda>es'. Inr (cs, es'))
   | SubjectCorporation c \<Rightarrow> bindE (liftE (\<lambda>_. Gf_Setter) (co_SetActiveVersion cs c v now)) (\<lambda>cs'. Inr (cs', es)))"

definition IncreaseActiveGovernanceFrameworkVersion ::
  "de_state \<Rightarrow> co_state \<Rightarrow> ec_state \<Rightarrow> time \<Rightarrow> gf_state \<Rightarrow> msg_increase_gfv
     \<Rightarrow> gf_error + gf_state \<times> co_state \<times> ec_state" where
  "IncreaseActiveGovernanceFrameworkVersion de cs es now s m =
     bindE (validate_increase_gfv m) (\<lambda>_.
     bindE (liftE Gf_Authz (CheckOperatorAuthorization (resolve_id cs) de (ig_corporation m) (ig_operator m)
              ''/verana.gf.v1.MsgIncreaseActiveGovernanceFrameworkVersion'' now)) (\<lambda>_.
     bindE (resolveSubject cs es (ig_corporation m) (ig_ecosystem_id m)) (\<lambda>sub.
     let nextVersion = u32 (sj_active_version sub + 1) in
     bindE (optE Gf_No_Activatable (gf_lookup s (sj_owner sub) nextVersion)) (\<lambda>i.
     bindE (optE Gf_Missing_Record (kget (gfs_versions s) i)) (\<lambda>g.
     if find_document s (gv_id g) (sj_language sub) = None then Inl Gf_Missing_Default_Lang
     else
       bindE (set_active_version cs es (sj_owner sub) nextVersion now) (\<lambda>(cs', es').
       Inr (s\<lparr>gfs_versions := kset (gfs_versions s) (gv_id g) (g\<lparr>gv_active_since := now\<rparr>)\<rparr>, cs', es')))))))"

section \<open>Seeding version 1 (keeper/cross_module.go)\<close>

definition seed_version ::
  "gf_state \<Rightarrow> subject \<Rightarrow> time \<Rightarrow> string \<Rightarrow> string \<Rightarrow> string \<Rightarrow> gf_state" where
  "seed_version s sub now language url digest =
     (let (i, s1) = gf_GetNextID s ''gfv'';
          s2 = put_version s1 sub (new_gf_version i sub now 1 now);
          (j, s3) = gf_GetNextID s2 ''gfd''
      in s3\<lparr>gfs_documents := kset (gfs_documents s3) j
              \<lparr>gd_id = j, gd_gfv_id = i, gd_created = now, gd_language = language, gd_url = url,
               gd_digest_sri = digest\<rparr>\<rparr>)"

definition CreateInitialGFVersionForCorporation ::
  "gf_state \<Rightarrow> time \<Rightarrow> nat \<Rightarrow> string \<Rightarrow> string \<Rightarrow> string \<Rightarrow> gf_error + gf_state" where
  "CreateInitialGFVersionForCorporation s now corpID language url digest =
     (if corpID = 0 then Inl Gf_Invalid_Subject
      else if khas (gfs_by_corporation s) (corpID, 1) then Inl Gf_Invalid_Version
      else Inr (seed_version s (SubjectCorporation corpID) now language url digest))"

definition CreateInitialGFVersionForEcosystem ::
  "gf_state \<Rightarrow> time \<Rightarrow> nat \<Rightarrow> string \<Rightarrow> string \<Rightarrow> string \<Rightarrow> gf_error + gf_state" where
  "CreateInitialGFVersionForEcosystem s now ecID language url digest =
     (if ecID = 0 then Inl Gf_Invalid_Subject
      else if khas (gfs_by_ecosystem s) (ecID, 1) then Inl Gf_Invalid_Version
      else Inr (seed_version s (SubjectEcosystem ecID) now language url digest))"

section \<open>Listings (keeper/query_gfv.go, keeper/cross_module.go)\<close>

text \<open>The documents of a version: the first one in the preferred language if there is
  one, otherwise all.\<close>

definition collectDocs :: "gf_state \<Rightarrow> nat \<Rightarrow> string \<Rightarrow> gf_document list" where
  "collectDocs s gfv lang =
     (let own = filter (\<lambda>d. gd_gfv_id d = gfv) (walk (gfs_documents s)) in
      if lang = [] then own
      else (case find_document s gfv lang of Some d \<Rightarrow> [d] | None \<Rightarrow> own))"

fun fetch_versions ::
  "gf_state \<Rightarrow> int option \<Rightarrow> string \<Rightarrow> nat list \<Rightarrow> gf_error + (gf_version \<times> gf_document list) list" where
  "fetch_versions s only lang [] = Inr []"
| "fetch_versions s only lang (i # is) =
     bindE (optE Gf_Missing_Record (kget (gfs_versions s) i)) (\<lambda>g.
     bindE (fetch_versions s only lang is) (\<lambda>rest.
     Inr (if only \<noteq> None \<and> only \<noteq> Some (gv_version g) then rest
          else (g, collectDocs s (gv_id g) lang) # rest)))"

definition list_versions ::
  "gf_state \<Rightarrow> subject \<Rightarrow> int option \<Rightarrow> string \<Rightarrow> gf_error + (gf_version \<times> gf_document list) list" where
  "list_versions s sub only lang =
     bindE (fetch_versions s only lang (map snd (gf_versions_of s sub))) (\<lambda>vs.
     Inr (sort_key (\<lambda>v. gv_version (fst v)) vs))"

definition ListVersionsByCorporation ::
  "gf_state \<Rightarrow> nat \<Rightarrow> int \<Rightarrow> bool \<Rightarrow> string \<Rightarrow> gf_error + (gf_version \<times> gf_document list) list" where
  "ListVersionsByCorporation s corpID active activeOnly lang =
     (if corpID = 0 then Inl Gf_Invalid_Subject
      else list_versions s (SubjectCorporation corpID) (if activeOnly then Some active else None) lang)"

definition ListVersionsByEcosystem ::
  "gf_state \<Rightarrow> nat \<Rightarrow> int \<Rightarrow> bool \<Rightarrow> string \<Rightarrow> gf_error + (gf_version \<times> gf_document list) list" where
  "ListVersionsByEcosystem s ecID active activeOnly lang =
     (if ecID = 0 then Inl Gf_Invalid_Subject
      else list_versions s (SubjectEcosystem ecID) (if activeOnly then Some active else None) lang)"

definition GetGovernanceFrameworkVersion ::
  "gf_state \<Rightarrow> nat \<Rightarrow> string \<Rightarrow> gf_error + gf_version \<times> gf_document list" where
  "GetGovernanceFrameworkVersion s i lang =
     bindE (optE Gf_Not_Found (kget (gfs_versions s) i)) (\<lambda>g. Inr (g, collectDocs s (gv_id g) lang))"

definition ListGovernanceFrameworkVersions ::
  "co_state \<Rightarrow> ec_state \<Rightarrow> gf_state \<Rightarrow> nat \<Rightarrow> nat \<Rightarrow> bool \<Rightarrow> string \<Rightarrow> nat
     \<Rightarrow> gf_error + (gf_version \<times> gf_document list) list" where
  "ListGovernanceFrameworkVersions cs es s ecosystemId corporationId activeOnly lang maxSize =
     (if (0 < ecosystemId) = (0 < corporationId) then Inl Gf_Invalid_Argument
      else
        bindE (optE Gf_Invalid_Argument (query_limit maxSize)) (\<lambda>n.
           bindE (if \<not> activeOnly then Inr None
                  else if 0 < ecosystemId
                    then bindE (optE Gf_Not_Found (GetEcosystemView es ecosystemId)) (\<lambda>e. Inr (Some (ec_active_version e)))
                  else bindE (optE Gf_Not_Found (co_GetByID cs corporationId)) (\<lambda>c. Inr (Some (co_active_version c))))
             (\<lambda>only.
           bindE (list_versions s (if 0 < ecosystemId then SubjectEcosystem ecosystemId
                                   else SubjectCorporation corporationId) only lang) (\<lambda>vs.
           Inr (take n vs)))))"

section \<open>Genesis (keeper/genesis.go, types/genesis.go)\<close>

record gf_genesis =
  gg_versions :: "gf_version list"
  gg_documents :: "gf_document list"

definition load_version :: "gf_state \<Rightarrow> gf_version \<Rightarrow> gf_state" where
  "load_version s g = put_version s
     (if 0 < gv_ecosystem_id g then SubjectEcosystem (gv_ecosystem_id g)
      else SubjectCorporation (gv_corporation_id g)) g"

definition gf_InitGenesis :: "gf_genesis \<Rightarrow> gf_state \<Rightarrow> gf_state" where
  "gf_InitGenesis gs s =
     (let s1 = foldl load_version s (gg_versions gs);
          s2 = s1\<lparr>gfs_documents := kset_all gd_id (gg_documents gs) (gfs_documents s1)\<rparr>
      in s2\<lparr>gfs_counter := kset (kset (gfs_counter s2)
               ''gfv'' (maximum_id gv_id (gg_versions gs)))
               ''gfd'' (maximum_id gd_id (gg_documents gs))\<rparr>)"

definition gf_ExportGenesis :: "gf_state \<Rightarrow> gf_genesis" where
  "gf_ExportGenesis s = \<lparr>gg_versions = walk (gfs_versions s), gg_documents = walk (gfs_documents s)\<rparr>"

definition gf_validate_genesis :: "gf_genesis \<Rightarrow> bool" where
  "gf_validate_genesis gs \<longleftrightarrow>
     list_all (\<lambda>g. (0 < gv_ecosystem_id g) \<noteq> (0 < gv_corporation_id g) \<and> 1 \<le> gv_version g) (gg_versions gs) \<and>
     list_all (\<lambda>d. gd_gfv_id d \<in> set (map gv_id (gg_versions gs)) \<and> IsValidBCP47 (gd_language d))
       (gg_documents gs)"

end
