(* ===== verification/Governance_Inv.thy ===== *)
theory Governance_Inv
imports Governance
begin

text \<open>
  The invariant of the governance-framework tables and what each operation does to it:
  ids, exactly one owner per version, the two indexes describe the table exactly,
  the versions of an owner are consecutive from 1, at most one document per version and
  language, every document belongs to a version.
\<close>

section \<open>Owners and counters\<close>

definition gv_owner :: "gf_version \<Rightarrow> subject" where
  "gv_owner g = (if 0 < gv_ecosystem_id g then SubjectEcosystem (gv_ecosystem_id g)
     else SubjectCorporation (gv_corporation_id g))"

fun subject_id :: "subject \<Rightarrow> nat" where
  "subject_id (SubjectEcosystem e) = e"
| "subject_id (SubjectCorporation c) = c"

definition gf_last_id :: "gf_state \<Rightarrow> string \<Rightarrow> nat" where
  "gf_last_id s ty = (case kget (gfs_counter s) ty of None \<Rightarrow> 0 | Some n \<Rightarrow> n)"

lemma gf_GetNextID_eq: "gf_GetNextID s ty =
    (Suc (gf_last_id s ty), s\<lparr>gfs_counter := kset (gfs_counter s) ty (Suc (gf_last_id s ty))\<rparr>)"
  by (simp add: gf_GetNextID_def gf_last_id_def Let_def)

lemma gf_lookup_put_version: "gf_lookup (put_version s sub g) sub' v =
    (if sub' = sub \<and> v = gv_version g then Some (gv_id g) else gf_lookup s sub' v)"
  by (cases sub; cases sub') (auto simp: gf_lookup_def put_version_def Let_def kget_kset)

lemma put_version_sel [simp]:
  "gfs_versions (put_version s sub g) = kset (gfs_versions s) (gv_id g) g"
  "gfs_documents (put_version s sub g) = gfs_documents s"
  "gfs_counter (put_version s sub g) = gfs_counter s"
  by (simp_all add: put_version_def Let_def split: subject.split)

lemma gf_lookup_unchanged [simp]:
  "gf_lookup (s\<lparr>gfs_counter := x\<rparr>) sub v = gf_lookup s sub v"
  "gf_lookup (s\<lparr>gfs_documents := y\<rparr>) sub v = gf_lookup s sub v"
  "gf_lookup (s\<lparr>gfs_versions := z\<rparr>) sub v = gf_lookup s sub v"
  by (simp_all add: gf_lookup_def split: subject.split)

lemma gv_owner_new [simp]: "0 < subject_id sub \<Longrightarrow> gv_owner (new_gf_version i sub now v since) = sub"
  by (cases sub) (simp_all add: gv_owner_def new_gf_version_def)

lemma new_gf_version_sel [simp]:
  "gv_id (new_gf_version i sub now v since) = i"
  "gv_version (new_gf_version i sub now v since) = v"
  "gv_active_since (new_gf_version i sub now v since) = since"
  by (simp_all add: new_gf_version_def)

section \<open>The invariant\<close>

definition gv_wf :: "gf_version \<Rightarrow> bool" where
  "gv_wf g \<longleftrightarrow> (0 < gv_ecosystem_id g) \<noteq> (0 < gv_corporation_id g) \<and> 1 \<le> gv_version g \<and> gv_version g < 2 ^ 32"

definition gf_versions_ok :: "gf_state \<Rightarrow> bool" where
  "gf_versions_ok s \<longleftrightarrow>
     (\<forall>i g. kget (gfs_versions s) i = Some g \<longrightarrow> gv_id g = i \<and> 0 < i \<and> i \<le> gf_last_id s ''gfv'' \<and> gv_wf g) \<and>
     (\<forall>sub v i. gf_lookup s sub v = Some i \<longleftrightarrow>
        (\<exists>g. kget (gfs_versions s) i = Some g \<and> gv_owner g = sub \<and> gv_version g = v)) \<and>
     (\<forall>sub v. gf_lookup s sub v \<noteq> None \<longrightarrow> 1 < v \<longrightarrow> gf_lookup s sub (v - 1) \<noteq> None)"

definition gf_documents_ok :: "gf_state \<Rightarrow> bool" where
  "gf_documents_ok s \<longleftrightarrow>
     (\<forall>i d. kget (gfs_documents s) i = Some d \<longrightarrow> gd_id d = i \<and> 0 < i \<and> i \<le> gf_last_id s ''gfd'' \<and>
        kget (gfs_versions s) (gd_gfv_id d) \<noteq> None \<and> IsValidBCP47 (gd_language d)) \<and>
     (\<forall>i j d e. kget (gfs_documents s) i = Some d \<longrightarrow> kget (gfs_documents s) j = Some e \<longrightarrow>
        gd_gfv_id d = gd_gfv_id e \<longrightarrow> gd_language d = gd_language e \<longrightarrow> i = j)"

definition gf_ok :: "gf_state \<Rightarrow> bool" where
  "gf_ok s \<longleftrightarrow> gf_versions_ok s \<and> gf_documents_ok s"

lemma gf_okD: "gf_ok s \<Longrightarrow> gf_versions_ok s" "gf_ok s \<Longrightarrow> gf_documents_ok s"
  by (simp_all add: gf_ok_def)

lemma gf_version_ok: "gf_versions_ok s \<Longrightarrow> kget (gfs_versions s) i = Some g \<Longrightarrow>
    gv_id g = i \<and> 0 < i \<and> i \<le> gf_last_id s ''gfv'' \<and> gv_wf g"
  by (simp add: gf_versions_ok_def)

lemma gf_lookup_iff: "gf_versions_ok s \<Longrightarrow> gf_lookup s sub v = Some i \<longleftrightarrow>
    (\<exists>g. kget (gfs_versions s) i = Some g \<and> gv_owner g = sub \<and> gv_version g = v)"
  by (simp add: gf_versions_ok_def)

lemma gf_contiguous: "gf_versions_ok s \<Longrightarrow> gf_lookup s sub v \<noteq> None \<Longrightarrow> 1 < v \<Longrightarrow>
    gf_lookup s sub (v - 1) \<noteq> None"
  unfolding gf_versions_ok_def by blast

lemma gf_document_ok: "gf_documents_ok s \<Longrightarrow> kget (gfs_documents s) i = Some d \<Longrightarrow>
    gd_id d = i \<and> 0 < i \<and> i \<le> gf_last_id s ''gfd'' \<and> kget (gfs_versions s) (gd_gfv_id d) \<noteq> None \<and>
    IsValidBCP47 (gd_language d)"
  by (simp add: gf_documents_ok_def)

lemma gf_document_unique: "gf_documents_ok s \<Longrightarrow> kget (gfs_documents s) i = Some d \<Longrightarrow>
    kget (gfs_documents s) j = Some e \<Longrightarrow> gd_gfv_id d = gd_gfv_id e \<Longrightarrow> gd_language d = gd_language e \<Longrightarrow>
    i = j"
  by (simp add: gf_documents_ok_def)

lemma gf_versions_okI:
  assumes "\<And>i g. kget (gfs_versions s) i = Some g \<Longrightarrow>
      gv_id g = i \<and> 0 < i \<and> i \<le> gf_last_id s ''gfv'' \<and> gv_wf g"
    and "\<And>sub v i. gf_lookup s sub v = Some i \<longleftrightarrow>
      (\<exists>g. kget (gfs_versions s) i = Some g \<and> gv_owner g = sub \<and> gv_version g = v)"
    and "\<And>sub v. gf_lookup s sub v \<noteq> None \<Longrightarrow> 1 < v \<Longrightarrow> gf_lookup s sub (v - 1) \<noteq> None"
  shows "gf_versions_ok s"
  using assms unfolding gf_versions_ok_def by blast

lemma gf_documents_okI:
  assumes "\<And>i d. kget (gfs_documents s) i = Some d \<Longrightarrow>
      gd_id d = i \<and> 0 < i \<and> i \<le> gf_last_id s ''gfd'' \<and> kget (gfs_versions s) (gd_gfv_id d) \<noteq> None \<and>
      IsValidBCP47 (gd_language d)"
    and "\<And>i j d e. kget (gfs_documents s) i = Some d \<Longrightarrow> kget (gfs_documents s) j = Some e \<Longrightarrow>
      gd_gfv_id d = gd_gfv_id e \<Longrightarrow> gd_language d = gd_language e \<Longrightarrow> i = j"
  shows "gf_documents_ok s"
  using assms unfolding gf_documents_ok_def by blast

lemma gf_ok_empty: "gf_ok gf_empty"
  by (simp add: gf_ok_def gf_versions_ok_def gf_documents_ok_def gf_empty_def gf_lookup_def
      split: subject.split)

lemma gf_lookup_range:
  assumes "gf_versions_ok s" "gf_lookup s sub v \<noteq> None"
  shows "1 \<le> v \<and> v < 2 ^ 32"
proof -
  obtain i g where "kget (gfs_versions s) i = Some g" "gv_version g = v"
    using assms by (auto simp: gf_lookup_iff)
  then show ?thesis using gf_version_ok [OF assms(1)] gv_wf_def by blast
qed

lemma gf_lookup_owner_pos:
  assumes "gf_versions_ok s" "gf_lookup s sub v \<noteq> None"
  shows "0 < subject_id sub"
proof -
  obtain i g where g: "kget (gfs_versions s) i = Some g" "gv_owner g = sub"
    using assms by (auto simp: gf_lookup_iff)
  then have "gv_wf g" using gf_version_ok [OF assms(1)] by blast
  then show ?thesis using g(2) by (auto simp: gv_wf_def gv_owner_def split: if_splits)
qed

lemma gf_lookup_below:
  assumes ok: "gf_versions_ok s" and v: "gf_lookup s sub v \<noteq> None"
  shows "1 \<le> w \<Longrightarrow> w \<le> v \<Longrightarrow> gf_lookup s sub w \<noteq> None"
proof (induction "nat (v - w)" arbitrary: w)
  case 0
  then have "w = v" by simp
  then show ?case using v by simp
next
  case (Suc n)
  then have "n = nat (v - (w + 1))" "1 \<le> w + 1" "w + 1 \<le> v" by linarith+
  then have "gf_lookup s sub (w + 1) \<noteq> None" by (rule Suc.hyps(1))
  then show ?case using gf_contiguous [OF ok, of sub "w + 1"] Suc.prems by simp
qed

section \<open>The highest version\<close>

lemma gf_versions_of_mem: "((k, v), i) \<in> set (gf_versions_of s sub) \<longleftrightarrow>
    k = subject_id sub \<and> gf_lookup s sub v = Some i"
  by (cases sub) (auto simp: gf_versions_of_def gf_lookup_def prefixed_mem_iff)

lemma max_version_scan_fst:
  "m \<le> fst (max_version_scan t m f xs) \<and>
   (\<forall>e \<in> set xs. snd (fst e) \<le> fst (max_version_scan t m f xs)) \<and>
   (fst (max_version_scan t m f xs) = m \<or> (\<exists>e \<in> set xs. snd (fst e) = fst (max_version_scan t m f xs)))"
proof (induction t m f xs rule: max_version_scan.induct)
  case (2 t m f k v i xs)
  let ?r = "fst (max_version_scan t (if m < v then v else m) (if v = t then Some i else f) xs)"
  have "m \<le> ?r" "v \<le> ?r" "\<forall>e \<in> set xs. snd (fst e) \<le> ?r"
    using 2 by (simp_all split: if_splits)
  moreover have "?r = m \<or> ?r = v \<or> (\<exists>e \<in> set xs. snd (fst e) = ?r)"
    using 2 by (metis (lifting))
  ultimately show ?case by (simp only: max_version_scan.simps) fastforce
qed simp

lemma max_version_scan_snd:
  "snd (max_version_scan t m f xs) = Some i \<longleftrightarrow>
     (\<exists>e \<in> set xs. snd (fst e) = t \<and> snd e = i) \<or> f = Some i \<and> (\<forall>e \<in> set xs. snd (fst e) \<noteq> t)"
  if "\<forall>e \<in> set xs. \<forall>e' \<in> set xs. snd (fst e) = t \<longrightarrow> snd (fst e') = t \<longrightarrow> snd e = snd e'"
  using that
proof (induction t m f xs rule: max_version_scan.induct)
  case (2 t m f k v j xs)
  then have IH: "snd (max_version_scan t (if m < v then v else m) (if v = t then Some j else f) xs) = Some i
    \<longleftrightarrow> (\<exists>e \<in> set xs. snd (fst e) = t \<and> snd e = i) \<or>
      (if v = t then Some j else f) = Some i \<and> (\<forall>e \<in> set xs. snd (fst e) \<noteq> t)"
    by simp
  show ?case
  proof (cases "v = t")
    case False
    then show ?thesis using IH by auto
  next
    case True
    have "\<forall>e \<in> set xs. snd (fst e) = t \<longrightarrow> snd e = j" using 2(2) True by force
    then show ?thesis using IH True by auto
  qed
qed auto

definition gf_max :: "gf_state \<Rightarrow> subject \<Rightarrow> int" where
  "gf_max s sub = fst (maxVersionFor s sub 0)"

lemma max_version_scan_indep: "fst (max_version_scan t m f xs) = fst (max_version_scan t' m f' xs)"
  by (induction t m f xs arbitrary: f' rule: max_version_scan.induct) auto

lemma maxVersionFor_eq:
  assumes ok: "gf_versions_ok s"
  shows "maxVersionFor s sub t = (gf_max s sub, gf_lookup s sub t)"
proof (rule prod_eqI)
  show "fst (maxVersionFor s sub t) = fst (gf_max s sub, gf_lookup s sub t)"
    using max_version_scan_indep by (simp add: gf_max_def maxVersionFor_def)
  have mem: "e \<in> set (gf_versions_of s sub) \<longleftrightarrow>
      fst (fst e) = subject_id sub \<and> gf_lookup s sub (snd (fst e)) = Some (snd e)" for e
    by (cases e rule: prod.exhaust; cases "fst e") (auto simp: gf_versions_of_mem)
  have "\<forall>e \<in> set (gf_versions_of s sub). \<forall>e' \<in> set (gf_versions_of s sub).
      snd (fst e) = t \<longrightarrow> snd (fst e') = t \<longrightarrow> snd e = snd e'"
    by (auto simp: mem)
  note scan = max_version_scan_snd [OF this, of 0 None]
  have "snd (maxVersionFor s sub t) = Some i \<longleftrightarrow> gf_lookup s sub t = Some i" for i
  proof -
    have "(\<exists>e \<in> set (gf_versions_of s sub). snd (fst e) = t \<and> snd e = i) \<longleftrightarrow> gf_lookup s sub t = Some i"
    proof
      assume "gf_lookup s sub t = Some i"
      then have "((subject_id sub, t), i) \<in> set (gf_versions_of s sub)" by (simp add: gf_versions_of_mem)
      then show "\<exists>e \<in> set (gf_versions_of s sub). snd (fst e) = t \<and> snd e = i" by force
    qed (auto simp: mem)
    then show ?thesis unfolding maxVersionFor_def scan by simp
  qed
  then show "snd (maxVersionFor s sub t) = snd (gf_max s sub, gf_lookup s sub t)"
    by (metis not_Some_eq snd_conv)
qed

lemma gf_max_iff:
  assumes ok: "gf_versions_ok s"
  shows "gf_lookup s sub v \<noteq> None \<longleftrightarrow> 1 \<le> v \<and> v \<le> gf_max s sub"
proof -
  let ?xs = "gf_versions_of s sub"
  have m: "0 \<le> gf_max s sub" "\<forall>e \<in> set ?xs. snd (fst e) \<le> gf_max s sub"
    "gf_max s sub = 0 \<or> (\<exists>e \<in> set ?xs. snd (fst e) = gf_max s sub)"
    using max_version_scan_fst [of 0 0 None ?xs] by (simp_all add: gf_max_def maxVersionFor_def)
  have le: "v \<le> gf_max s sub" if "gf_lookup s sub v = Some i" for v i
  proof -
    have "((subject_id sub, v), i) \<in> set ?xs" using that by (simp add: gf_versions_of_mem)
    then show ?thesis using m(2) by force
  qed
  have top: "gf_lookup s sub (gf_max s sub) \<noteq> None" if pos: "1 \<le> gf_max s sub"
  proof -
    obtain e where e: "e \<in> set ?xs" "snd (fst e) = gf_max s sub" using m(3) pos by auto
    obtain k w i where "e = ((k, w), i)" by (cases e) auto
    then show ?thesis using e by (auto simp: gf_versions_of_mem)
  qed
  show ?thesis
  proof
    assume "gf_lookup s sub v \<noteq> None"
    then show "1 \<le> v \<and> v \<le> gf_max s sub" using gf_lookup_range [OF ok] le by blast
  next
    assume "1 \<le> v \<and> v \<le> gf_max s sub"
    then show "gf_lookup s sub v \<noteq> None" using gf_lookup_below [OF ok top] by simp
  qed
qed

lemma gf_max_nonneg: "0 \<le> gf_max s sub"
  using max_version_scan_fst [of 0 0 None "gf_versions_of s sub"] by (simp add: gf_max_def maxVersionFor_def)

lemma gf_max_less: "gf_versions_ok s \<Longrightarrow> gf_max s sub < 2 ^ 32"
  using gf_max_iff [of s sub "gf_max s sub"] gf_lookup_range [of s sub "gf_max s sub"] gf_max_nonneg [of s sub]
  by (cases "gf_max s sub = 0") auto

section \<open>Creating a version\<close>

definition add_version :: "gf_state \<Rightarrow> subject \<Rightarrow> time \<Rightarrow> int \<Rightarrow> time \<Rightarrow> gf_state" where
  "add_version s sub now v since =
     put_version (s\<lparr>gfs_counter := kset (gfs_counter s) ''gfv'' (Suc (gf_last_id s ''gfv''))\<rparr>) sub
       (new_gf_version (Suc (gf_last_id s ''gfv'')) sub now v since)"

lemma add_version_sel [simp]:
  "gfs_versions (add_version s sub now v since) = kset (gfs_versions s) (Suc (gf_last_id s ''gfv''))
     (new_gf_version (Suc (gf_last_id s ''gfv'')) sub now v since)"
  "gfs_documents (add_version s sub now v since) = gfs_documents s"
  "gf_lookup (add_version s sub now v since) sub' w =
     (if sub' = sub \<and> w = v then Some (Suc (gf_last_id s ''gfv'')) else gf_lookup s sub' w)"
  "gf_last_id (add_version s sub now v since) ty =
     (if ty = ''gfv'' then Suc (gf_last_id s ''gfv'') else gf_last_id s ty)"
  by (simp_all add: add_version_def gf_lookup_put_version gf_last_id_def kget_kset)

lemma gf_version_fresh: "gf_versions_ok s \<Longrightarrow> kget (gfs_versions s) (Suc (gf_last_id s ''gfv'')) = None"
  using gf_version_ok [of s "Suc (gf_last_id s ''gfv'')"] by (metis Suc_n_not_le_n not_None_eq)

lemma gf_document_fresh: "gf_documents_ok s \<Longrightarrow> kget (gfs_documents s) (Suc (gf_last_id s ''gfd'')) = None"
  using gf_document_ok [of s "Suc (gf_last_id s ''gfd'')"] by (metis Suc_n_not_le_n not_None_eq)

lemma new_gf_version_wf: "0 < subject_id sub \<Longrightarrow> 1 \<le> v \<Longrightarrow> v < 2 ^ 32 \<Longrightarrow>
    gv_wf (new_gf_version i sub now v since)"
  by (cases sub) (simp_all add: gv_wf_def new_gf_version_def)

lemma add_version_ok:
  assumes ok: "gf_versions_ok s" and sub: "0 < subject_id sub"
    and v: "v = gf_max s sub + 1" "v < 2 ^ 32"
  shows "gf_versions_ok (add_version s sub now v since)" (is "gf_versions_ok ?t")
proof (rule gf_versions_okI)
  let ?i = "Suc (gf_last_id s ''gfv'')" and ?g = "new_gf_version (Suc (gf_last_id s ''gfv'')) sub now v since"
  have v1: "1 \<le> v" using v gf_max_nonneg [of s sub] by simp
  have none: "gf_lookup s sub v = None" using gf_max_iff [OF ok, of sub v] v(1) by simp
  have fresh: "kget (gfs_versions s) ?i = None" by (rule gf_version_fresh [OF ok])
  fix i g
  assume "kget (gfs_versions ?t) i = Some g"
  then have "i = ?i \<and> g = ?g \<or> kget (gfs_versions s) i = Some g" by (auto simp: kget_kset split: if_splits)
  then show "gv_id g = i \<and> 0 < i \<and> i \<le> gf_last_id ?t ''gfv'' \<and> gv_wf g"
    using gf_version_ok [OF ok, of i g] new_gf_version_wf [OF sub v1 v(2)] by auto
next
  let ?i = "Suc (gf_last_id s ''gfv'')" and ?g = "new_gf_version (Suc (gf_last_id s ''gfv'')) sub now v since"
  have fresh: "kget (gfs_versions s) ?i = None" by (rule gf_version_fresh [OF ok])
  have none: "gf_lookup s sub v = None" using gf_max_iff [OF ok, of sub v] v(1) by simp
  fix sub' w i
  have old: "gf_lookup s sub' w = Some i \<longleftrightarrow>
      (\<exists>g. kget (gfs_versions s) i = Some g \<and> gv_owner g = sub' \<and> gv_version g = w)" for sub' w i
    by (rule gf_lookup_iff [OF ok])
  have ne: "\<not> (\<exists>j g. kget (gfs_versions s) j = Some g \<and> gv_owner g = sub \<and> gv_version g = v)"
    using none old by (metis option.distinct(1))
  show "gf_lookup ?t sub' w = Some i \<longleftrightarrow>
      (\<exists>g. kget (gfs_versions ?t) i = Some g \<and> gv_owner g = sub' \<and> gv_version g = w)"
  proof (cases "i = ?i")
    case True
    have "gf_lookup s sub' w \<noteq> Some ?i" using old [of sub' w ?i] fresh by simp
    then show ?thesis using True sub by auto
  next
    case False
    then show ?thesis using old [of sub' w i] ne by auto
  qed
next
  fix sub' w
  assume a: "gf_lookup ?t sub' w \<noteq> None" "1 < w"
  show "gf_lookup ?t sub' (w - 1) \<noteq> None"
  proof (cases "sub' = sub \<and> w = v")
    case True
    then show ?thesis using a(2) v(1) gf_max_iff [OF ok, of sub "gf_max s sub"] by simp
  next
    case False
    then show ?thesis using a gf_contiguous [OF ok, of sub' w] by auto
  qed
qed

lemma add_version_documents_ok:
  assumes "gf_documents_ok s"
  shows "gf_documents_ok (add_version s sub now v since)"
proof (rule gf_documents_okI)
  fix i d
  assume "kget (gfs_documents (add_version s sub now v since)) i = Some d"
  then show "gd_id d = i \<and> 0 < i \<and> i \<le> gf_last_id (add_version s sub now v since) ''gfd'' \<and>
      kget (gfs_versions (add_version s sub now v since)) (gd_gfv_id d) \<noteq> None \<and> IsValidBCP47 (gd_language d)"
    using gf_document_ok [OF assms, of i d] by (auto simp: kget_kset)
qed (use gf_document_unique [OF assms] in simp)

section \<open>Creating and changing a document\<close>

lemma find_document_None: "find_document s i lang = None \<longleftrightarrow>
    \<not> (\<exists>j d. kget (gfs_documents s) j = Some d \<and> gd_gfv_id d = i \<and> gd_language d = lang)"
  by (auto simp: find_document_def find_None_iff walk_mem_iff)

lemma find_document_Some:
  assumes "find_document s i lang = Some d"
  obtains j where "kget (gfs_documents s) j = Some d" "gd_gfv_id d = i" "gd_language d = lang"
  using assms by (auto simp: find_document_def find_Some_iff walk_mem_iff dest!: nth_mem)

lemma find_document_eq:
  assumes "gf_documents_ok s" "kget (gfs_documents s) j = Some d" "gd_gfv_id d = i" "gd_language d = lang"
  shows "find_document s i lang = Some d"
proof -
  obtain d' where d': "find_document s i lang = Some d'"
    using assms find_document_None [of s i lang] by (cases "find_document s i lang") auto
  then obtain k where "kget (gfs_documents s) k = Some d'" "gd_gfv_id d' = i" "gd_language d' = lang"
    by (rule find_document_Some)
  moreover from this have "j = k" using gf_document_unique [OF assms(1,2)] assms(3,4) by metis
  ultimately show ?thesis using d' assms(2) by simp
qed

lemma find_document_cong:
  assumes "gf_documents_ok t" "gf_documents_ok s"
    and same: "\<And>k d. gd_gfv_id d = j \<Longrightarrow> gd_language d = l \<Longrightarrow>
        kget (gfs_documents t) k = Some d \<longleftrightarrow> kget (gfs_documents s) k = Some d"
  shows "find_document t j l = find_document s j l"
proof (cases "find_document s j l")
  case None
  then have "find_document t j l = None" using same unfolding find_document_None by metis
  then show ?thesis using None by simp
next
  case (Some d)
  then obtain k where k: "kget (gfs_documents s) k = Some d" "gd_gfv_id d = j" "gd_language d = l"
    by (rule find_document_Some)
  then have "kget (gfs_documents t) k = Some d" using same by simp
  from find_document_eq [OF assms(1) this] Some k show ?thesis by simp
qed

definition add_document :: "gf_state \<Rightarrow> nat \<Rightarrow> time \<Rightarrow> string \<Rightarrow> string \<Rightarrow> string \<Rightarrow> gf_state" where
  "add_document s i now lang url digest =
     s\<lparr>gfs_counter := kset (gfs_counter s) ''gfd'' (Suc (gf_last_id s ''gfd'')),
       gfs_documents := kset (gfs_documents s) (Suc (gf_last_id s ''gfd''))
         \<lparr>gd_id = Suc (gf_last_id s ''gfd''), gd_gfv_id = i, gd_created = now, gd_language = lang,
          gd_url = url, gd_digest_sri = digest\<rparr>\<rparr>"

lemma add_document_sel [simp]:
  "gfs_versions (add_document s i now lang url digest) = gfs_versions s"
  "gf_lookup (add_document s i now lang url digest) sub v = gf_lookup s sub v"
  "gf_last_id (add_document s i now lang url digest) ty =
     (if ty = ''gfd'' then Suc (gf_last_id s ''gfd'') else gf_last_id s ty)"
  "kget (gfs_documents (add_document s i now lang url digest)) j =
     (if j = Suc (gf_last_id s ''gfd'')
      then Some \<lparr>gd_id = j, gd_gfv_id = i, gd_created = now, gd_language = lang, gd_url = url,
                 gd_digest_sri = digest\<rparr>
      else kget (gfs_documents s) j)"
  by (simp_all add: add_document_def kget_kset gf_lookup_def split: subject.split)
    (simp add: gf_last_id_def kget_kset)

lemma versions_ok_cong:
  assumes "gf_versions_ok s" "gfs_versions t = gfs_versions s" "\<And>sub v. gf_lookup t sub v = gf_lookup s sub v"
    and "gf_last_id t ''gfv'' = gf_last_id s ''gfv''"
  shows "gf_versions_ok t"
  using assms(1) unfolding gf_versions_ok_def assms(2,3,4) .

lemma add_document_ok:
  assumes ok: "gf_documents_ok s" and v: "kget (gfs_versions s) i \<noteq> None" "IsValidBCP47 lang"
    and new: "find_document s i lang = None"
  shows "gf_documents_ok (add_document s i now lang url digest)" (is "gf_documents_ok ?t")
proof (rule gf_documents_okI)
  fix j d
  assume "kget (gfs_documents ?t) j = Some d"
  then have "j = Suc (gf_last_id s ''gfd'') \<and> gd_id d = j \<and> gd_gfv_id d = i \<and> gd_language d = lang
      \<or> kget (gfs_documents s) j = Some d"
    by (auto split: if_splits)
  then show "gd_id d = j \<and> 0 < j \<and> j \<le> gf_last_id ?t ''gfd'' \<and>
      kget (gfs_versions ?t) (gd_gfv_id d) \<noteq> None \<and> IsValidBCP47 (gd_language d)"
  proof
    assume "kget (gfs_documents s) j = Some d"
    from gf_document_ok [OF ok this] show ?thesis by auto
  qed (use v in auto)
next
  fix j k d e
  assume a: "kget (gfs_documents ?t) j = Some d" "kget (gfs_documents ?t) k = Some e"
    "gd_gfv_id d = gd_gfv_id e" "gd_language d = gd_language e"
  show "j = k"
  proof (rule ccontr)
    assume "j \<noteq> k"
    then have "kget (gfs_documents s) j = Some d \<and> kget (gfs_documents s) k = Some e \<or>
        kget (gfs_documents s) j = Some d \<and> gd_gfv_id e = i \<and> gd_language e = lang \<or>
        kget (gfs_documents s) k = Some e \<and> gd_gfv_id d = i \<and> gd_language d = lang"
      using a(1,2) by (auto split: if_splits)
    then show False
      using gf_document_unique [OF ok _ _ a(3,4)] \<open>j \<noteq> k\<close> a(3,4) new
      unfolding find_document_None by metis
  qed
qed

definition set_document :: "gf_state \<Rightarrow> gf_document \<Rightarrow> string \<Rightarrow> string \<Rightarrow> gf_state" where
  "set_document s d url digest =
     s\<lparr>gfs_documents := kset (gfs_documents s) (gd_id d) (d\<lparr>gd_url := url, gd_digest_sri := digest\<rparr>)\<rparr>"

lemma set_document_ok:
  assumes ok: "gf_documents_ok s" and d: "kget (gfs_documents s) j = Some d"
  shows "gf_documents_ok (set_document s d url digest)" (is "gf_documents_ok ?t")
proof -
  let ?d = "d\<lparr>gd_url := url, gd_digest_sri := digest\<rparr>"
  have j: "gd_id d = j" using gf_document_ok [OF ok d] by simp
  have get: "kget (gfs_documents ?t) k = (if k = j then Some ?d else kget (gfs_documents s) k)" for k
    by (simp add: set_document_def kget_kset j)
  have old: "\<exists>x'. kget (gfs_documents s) k = Some x' \<and> gd_id x' = gd_id x \<and> gd_gfv_id x' = gd_gfv_id x \<and>
      gd_language x' = gd_language x" if "kget (gfs_documents ?t) k = Some x" for k x
    using that d by (auto simp: get split: if_splits)
  show ?thesis
  proof (rule gf_documents_okI)
    fix k x
    assume "kget (gfs_documents ?t) k = Some x"
    then obtain x' where x': "kget (gfs_documents s) k = Some x'" "gd_id x' = gd_id x"
        "gd_gfv_id x' = gd_gfv_id x" "gd_language x' = gd_language x"
      using old by blast
    then show "gd_id x = k \<and> 0 < k \<and> k \<le> gf_last_id ?t ''gfd'' \<and>
        kget (gfs_versions ?t) (gd_gfv_id x) \<noteq> None \<and> IsValidBCP47 (gd_language x)"
      using gf_document_ok [OF ok x'(1)] by (simp add: set_document_def gf_last_id_def)
  next
    fix k l x y
    assume "kget (gfs_documents ?t) k = Some x" "kget (gfs_documents ?t) l = Some y"
      "gd_gfv_id x = gd_gfv_id y" "gd_language x = gd_language y"
    then show "k = l" using old gf_document_unique [OF ok] by metis
  qed
qed

lemma upsert_document_eq: "upsert_document s i now lang url digest =
    (case find_document s i lang of Some d \<Rightarrow> set_document s d url digest
     | None \<Rightarrow> add_document s i now lang url digest)"
  by (simp add: upsert_document_def set_document_def add_document_def gf_GetNextID_eq gf_last_id_def
      split: option.split)

text \<open>The upsert: version data untouched, one document for the pair afterwards, with the
  given location and digest; the documents of other versions and languages stay.\<close>

lemma upsert_document_spec:
  fixes now :: time and url digest :: string
  assumes ok: "gf_documents_ok s" and v: "kget (gfs_versions s) i \<noteq> None" "IsValidBCP47 lang"
  defines "t \<equiv> upsert_document s i now lang url digest"
  shows "gf_documents_ok t" and "gfs_versions t = gfs_versions s" and "gf_lookup t sub w = gf_lookup s sub w"
    and "gf_last_id t ''gfv'' = gf_last_id s ''gfv''"
    and "\<exists>d. find_document t i lang = Some d \<and> gd_url d = url \<and> gd_digest_sri d = digest"
    and "(gd_gfv_id d, gd_language d) \<noteq> (i, lang) \<Longrightarrow>
      kget (gfs_documents t) j = Some d \<longleftrightarrow> kget (gfs_documents s) j = Some d"
proof -
  show "gfs_versions t = gfs_versions s" "gf_lookup t sub w = gf_lookup s sub w"
    "gf_last_id t ''gfv'' = gf_last_id s ''gfv''"
    by (simp_all add: t_def upsert_document_eq set_document_def gf_last_id_def split: option.split)
      (simp add: add_document_def)
  show docs: "gf_documents_ok t"
  proof (cases "find_document s i lang")
    case None
    then show ?thesis using add_document_ok [OF ok v] by (simp add: t_def upsert_document_eq)
  next
    case (Some d)
    then obtain j where "kget (gfs_documents s) j = Some d" by (rule find_document_Some)
    then show ?thesis using Some set_document_ok [OF ok] by (simp add: t_def upsert_document_eq)
  qed
  show "\<exists>d. find_document t i lang = Some d \<and> gd_url d = url \<and> gd_digest_sri d = digest"
  proof (cases "find_document s i lang")
    case None
    then have "kget (gfs_documents t) (Suc (gf_last_id s ''gfd'')) =
        Some \<lparr>gd_id = Suc (gf_last_id s ''gfd''), gd_gfv_id = i, gd_created = now, gd_language = lang,
          gd_url = url, gd_digest_sri = digest\<rparr>"
      by (simp add: t_def upsert_document_eq)
    from find_document_eq [OF docs this] show ?thesis by simp
  next
    case (Some d)
    then obtain k where k: "kget (gfs_documents s) k = Some d" "gd_gfv_id d = i" "gd_language d = lang"
      by (rule find_document_Some)
    have "kget (gfs_documents t) (gd_id d) = Some (d\<lparr>gd_url := url, gd_digest_sri := digest\<rparr>)"
      using Some by (simp add: t_def upsert_document_eq set_document_def)
    from find_document_eq [OF docs this] show ?thesis using k by simp
  qed
  assume d: "(gd_gfv_id d, gd_language d) \<noteq> (i, lang)"
  show "kget (gfs_documents t) j = Some d \<longleftrightarrow> kget (gfs_documents s) j = Some d"
  proof (cases "find_document s i lang")
    case None
    then show ?thesis using d gf_document_fresh [OF ok] by (auto simp: t_def upsert_document_eq)
  next
    case (Some e)
    then obtain k where k: "kget (gfs_documents s) k = Some e" "gd_gfv_id e = i" "gd_language e = lang"
      by (rule find_document_Some)
    then have "gd_id e = k" using gf_document_ok [OF ok] by blast
    then show ?thesis using d k Some by (auto simp: t_def upsert_document_eq set_document_def kget_kset)
  qed
qed

section \<open>Seeding and targets\<close>

lemma seed_version_eq: "seed_version s sub now lang url digest =
    add_document (add_version s sub now 1 now) (Suc (gf_last_id s ''gfv'')) now lang url digest"
  by (simp add: seed_version_def add_document_def add_version_def gf_GetNextID_eq Let_def gf_last_id_def)

lemma target_version_new: "target_version s sub now v None =
    Inr (new_gf_version (Suc (gf_last_id s ''gfv'')) sub now v zero_time, add_version s sub now v zero_time)"
  by (simp add: target_version_def gf_GetNextID_eq add_version_def Let_def)

lemma target_version_old:
  assumes "gf_versions_ok s" "gf_lookup s sub v = Some i"
  obtains g where "kget (gfs_versions s) i = Some g" "gv_id g = i" "gv_owner g = sub" "gv_version g = v"
    "target_version s sub now v (Some i) = Inr (g, s)"
proof -
  obtain g where g: "kget (gfs_versions s) i = Some g" "gv_owner g = sub" "gv_version g = v"
    using assms gf_lookup_iff by blast
  then show ?thesis using that gf_version_ok [OF assms(1) g(1)] by (simp add: target_version_def)
qed

lemma seed_version_ok:
  fixes now :: time and url digest :: string
  assumes ok: "gf_ok s" and sub: "0 < subject_id sub" "gf_max s sub = 0" and lang: "IsValidBCP47 lang"
  defines "t \<equiv> seed_version s sub now lang url digest" and "i \<equiv> Suc (gf_last_id s ''gfv'')"
  shows "gf_ok t" and "gf_lookup t sub' v = (if sub' = sub \<and> v = 1 then Some i else gf_lookup s sub' v)"
    and "kget (gfs_versions t) j = (if j = i then Some (new_gf_version i sub now 1 now) else kget (gfs_versions s) j)"
    and "find_document t i lang \<noteq> None"
    and "find_document s j l \<noteq> None \<Longrightarrow> find_document t j l \<noteq> None"
    and dd: "gd_gfv_id d \<noteq> i \<Longrightarrow> kget (gfs_documents t) k = Some d \<longleftrightarrow> kget (gfs_documents s) k = Some d"
    and "\<exists>d. find_document t i lang = Some d \<and> gd_url d = url \<and> gd_digest_sri d = digest"
    and "find_document t i l \<noteq> None \<Longrightarrow> l = lang"
    and "j \<noteq> i \<Longrightarrow> find_document t j l = find_document s j l"
proof -
  let ?a = "add_version s sub now 1 now"
  have v: "gf_versions_ok ?a" by (rule add_version_ok [OF gf_okD(1) [OF ok] sub(1)]) (simp_all add: sub(2))
  have d: "gf_documents_ok ?a" by (rule add_version_documents_ok [OF gf_okD(2) [OF ok]])
  have "find_document s i lang = None"
    unfolding find_document_None
    using gf_document_ok [OF gf_okD(2) [OF ok]] gf_version_fresh [OF gf_okD(1) [OF ok]] by (metis i_def)
  then have none: "find_document ?a i lang = None" by (simp add: find_document_def)
  have t: "t = add_document ?a i now lang url digest" by (simp add: t_def i_def seed_version_eq)
  have "gf_documents_ok t" unfolding t by (rule add_document_ok [OF d _ lang none]) (simp add: i_def)
  moreover have "gf_versions_ok t" unfolding t by (rule versions_ok_cong [OF v]) simp_all
  ultimately show "gf_ok t" by (simp add: gf_ok_def)
  show "gf_lookup t sub' v = (if sub' = sub \<and> v = 1 then Some i else gf_lookup s sub' v)"
    by (simp add: t i_def)
  show "kget (gfs_versions t) j = (if j = i then Some (new_gf_version i sub now 1 now) else kget (gfs_versions s) j)"
    by (simp add: t i_def kget_kset)
  have fresh: "kget (gfs_documents s) (Suc (gf_last_id s ''gfd'')) = None"
    by (rule gf_document_fresh [OF gf_okD(2) [OF ok]])
  have docs: "kget (gfs_documents t) k = (if k = Suc (gf_last_id s ''gfd'')
      then Some \<lparr>gd_id = k, gd_gfv_id = i, gd_created = now, gd_language = lang, gd_url = url,
             gd_digest_sri = digest\<rparr> else kget (gfs_documents s) k)" for k
    by (simp add: t)
  show "find_document t i lang \<noteq> None"
    unfolding find_document_None using docs [of "Suc (gf_last_id s ''gfd'')"] by force
  show "find_document s j l \<noteq> None \<Longrightarrow> find_document t j l \<noteq> None"
    unfolding find_document_None using docs fresh by (metis option.distinct(1))
  show "gd_gfv_id d \<noteq> i \<Longrightarrow> kget (gfs_documents t) k = Some d \<longleftrightarrow> kget (gfs_documents s) k = Some d"
    using fresh by (auto simp: docs)
  have docs_ok: "gf_documents_ok t" using \<open>gf_documents_ok t\<close> .
  show "\<exists>d. find_document t i lang = Some d \<and> gd_url d = url \<and> gd_digest_sri d = digest"
    using find_document_eq [OF docs_ok docs [of "Suc (gf_last_id s ''gfd'')", simplified]] by simp
  show "l = lang" if "find_document t i l \<noteq> None"
  proof -
    obtain k d where k: "kget (gfs_documents t) k = Some d" "gd_gfv_id d = i" "gd_language d = l"
      using \<open>find_document t i l \<noteq> None\<close> unfolding find_document_None by blast
    have "kget (gfs_documents s) k \<noteq> Some d"
      using gf_document_ok [OF gf_okD(2) [OF ok], of k d] gf_version_fresh [OF gf_okD(1) [OF ok]] k(2)
      by (auto simp: i_def)
    then have "d = \<lparr>gd_id = k, gd_gfv_id = i, gd_created = now, gd_language = lang, gd_url = url,
         gd_digest_sri = digest\<rparr>"
      using k(1) docs [of k] by (simp split: if_splits)
    then show ?thesis using k(3) by simp
  qed
  show "find_document t j l = find_document s j l" if "j \<noteq> i"
  proof (rule find_document_cong [OF docs_ok gf_okD(2) [OF ok]])
    fix k and d :: gf_document
    assume "gd_gfv_id d = j" "gd_language d = l"
    then show "kget (gfs_documents t) k = Some d \<longleftrightarrow> kget (gfs_documents s) k = Some d"
      using \<open>j \<noteq> i\<close> fresh by (auto simp: docs)
  qed
qed

section \<open>Activation\<close>

lemma activate_ok:
  assumes ok: "gf_ok s" and g: "kget (gfs_versions s) i = Some g"
  shows "gf_ok (s\<lparr>gfs_versions := kset (gfs_versions s) i (g\<lparr>gv_active_since := now\<rparr>)\<rparr>)" (is "gf_ok ?t")
proof -
  note v = gf_okD(1) [OF ok] and d = gf_okD(2) [OF ok]
  have own: "gv_owner (g\<lparr>gv_active_since := now\<rparr>) = gv_owner g" by (simp add: gv_owner_def)
  have old: "\<exists>y. kget (gfs_versions s) j = Some y \<and> gv_id y = gv_id x \<and> gv_wf y = gv_wf x \<and>
      gv_owner y = gv_owner x \<and> gv_version y = gv_version x" if "kget (gfs_versions ?t) j = Some x" for j x
    using that g by (auto simp: kget_kset own gv_wf_def split: if_splits)
  have new: "\<exists>x. kget (gfs_versions ?t) j = Some x \<and> gv_owner x = gv_owner y \<and> gv_version x = gv_version y"
    if "kget (gfs_versions s) j = Some y" for j y
    using that g by (auto simp: kget_kset own)
  have "gf_versions_ok ?t"
  proof (rule gf_versions_okI)
    fix j x
    assume "kget (gfs_versions ?t) j = Some x"
    then obtain y where "kget (gfs_versions s) j = Some y" "gv_id y = gv_id x" "gv_wf y = gv_wf x"
      using old by blast
    then show "gv_id x = j \<and> 0 < j \<and> j \<le> gf_last_id ?t ''gfv'' \<and> gv_wf x"
      using gf_version_ok [OF v, of j y] by (simp add: gf_last_id_def)
  next
    fix sub w j
    have "(\<exists>x. kget (gfs_versions ?t) j = Some x \<and> gv_owner x = sub \<and> gv_version x = w) \<longleftrightarrow>
        (\<exists>y. kget (gfs_versions s) j = Some y \<and> gv_owner y = sub \<and> gv_version y = w)"
    proof
      assume "\<exists>x. kget (gfs_versions ?t) j = Some x \<and> gv_owner x = sub \<and> gv_version x = w"
      then obtain x where "kget (gfs_versions ?t) j = Some x" "gv_owner x = sub" "gv_version x = w" by blast
      with old [OF this(1)] show "\<exists>y. kget (gfs_versions s) j = Some y \<and> gv_owner y = sub \<and> gv_version y = w"
        by auto
    next
      assume "\<exists>y. kget (gfs_versions s) j = Some y \<and> gv_owner y = sub \<and> gv_version y = w"
      then obtain y where "kget (gfs_versions s) j = Some y" "gv_owner y = sub" "gv_version y = w" by blast
      with new [OF this(1)] show "\<exists>x. kget (gfs_versions ?t) j = Some x \<and> gv_owner x = sub \<and> gv_version x = w"
        by auto
    qed
    then show "gf_lookup ?t sub w = Some j \<longleftrightarrow>
        (\<exists>x. kget (gfs_versions ?t) j = Some x \<and> gv_owner x = sub \<and> gv_version x = w)"
      using gf_lookup_iff [OF v] by simp
  next
    fix sub w
    assume "gf_lookup ?t sub w \<noteq> None" "1 < w"
    then show "gf_lookup ?t sub (w - 1) \<noteq> None" using gf_contiguous [OF v, of sub w] by simp
  qed
  moreover have "gf_documents_ok ?t"
  proof (rule gf_documents_okI)
    fix j x
    assume "kget (gfs_documents ?t) j = Some x"
    then have x: "kget (gfs_documents s) j = Some x" by simp
    from gf_document_ok [OF d x]
    show "gd_id x = j \<and> 0 < j \<and> j \<le> gf_last_id ?t ''gfd'' \<and> kget (gfs_versions ?t) (gd_gfv_id x) \<noteq> None \<and>
        IsValidBCP47 (gd_language x)"
      by (auto simp: gf_last_id_def kget_kset)
  qed (use gf_document_unique [OF d] in simp)
  ultimately show ?thesis by (simp add: gf_ok_def)
qed

end
