(* ===== verification/Corporation_Msgs.thy ===== *)
theory Corporation_Msgs
imports Governance
begin

text \<open>
  The messages of the corporation registry (src/x/co/keeper/msg_create_corporation.go,
  msg_update_corporation.go), their stateless validation (types/msgs.go), the queries
  (keeper/query_corporation.go) and genesis.  Creating the x/group group and its policy
  account is a call outside the repository: a parameter on an abstract group state.
\<close>

datatype co_error =
    Co_Bad_Address | Co_Invalid_Members | Co_Invalid_Decision_Policy | Co_Invalid_DID
  | Co_Invalid_Language | Co_Invalid_URL | Co_Invalid_Digest | Co_DID_Exists | Co_Group
  | Co_Policy_Bound | Co_Gf gf_error | Co_Not_Registered | Co_Inconsistent | Co_Authz de_error
  | Co_Invalid_Argument | Co_Not_Found

record group_member =
  gm_address :: string
  gm_weight :: string
  gm_metadata :: string

record msg_create_co =
  cc_signer :: string
  cc_members :: "group_member list"
  cc_group_metadata :: string
  cc_policy_metadata :: string
  cc_decision_policy :: "string option"
  cc_did :: string
  cc_language :: string
  cc_doc_url :: string
  cc_doc_digest :: string

record msg_update_co =
  uc_corporation :: string
  uc_operator :: string
  uc_did :: string

text \<open>The decision policy travels as the bytes of a protobuf \<open>Any\<close>.
  \<open>group.MsgCreateGroupWithPolicy\<close> and the keeper method that executes it: it returns
  the policy account's address.\<close>

record group_request =
  gq_admin :: string
  gq_members :: "group_member list"
  gq_group_metadata :: string
  gq_policy_metadata :: string
  gq_policy_as_admin :: bool
  gq_decision_policy :: "string option"

type_synonym 'g group_keeper = "'g \<Rightarrow> group_request \<Rightarrow> (string \<times> 'g) option"

definition validate_members :: "sdk_env \<Rightarrow> group_member list \<Rightarrow> co_error + unit" where
  "validate_members E ms = (if ms = [] then Inl Co_Invalid_Members
     else foldE (\<lambda>m _. if gm_address m = [] then Inl Co_Invalid_Members
                       else if \<not> valid_addr E (gm_address m) then Inl Co_Bad_Address
                       else if gm_weight m = [] then Inl Co_Invalid_Members else Inr ()) ms ())"

definition validate_create_co ::
  "sdk_env \<Rightarrow> (string \<Rightarrow> (string \<times> string) option) \<Rightarrow> msg_create_co \<Rightarrow> co_error + unit" where
  "validate_create_co E parse m =
     (if cc_signer m = [] then Inl Co_Bad_Address
      else if \<not> valid_addr E (cc_signer m) then Inl Co_Bad_Address
      else bindE (validate_members E (cc_members m)) (\<lambda>_.
      if cc_decision_policy m = None then Inl Co_Invalid_Decision_Policy
      else if cc_did m = [] then Inl Co_Invalid_DID
      else if \<not> IsValidDID (cc_did m) then Inl Co_Invalid_DID
      else if cc_language m = [] then Inl Co_Invalid_Language
      else if \<not> IsValidBCP47 (cc_language m) then Inl Co_Invalid_Language
      else if cc_doc_url m = [] then Inl Co_Invalid_URL
      else if \<not> IsValidURL parse (cc_doc_url m) then Inl Co_Invalid_URL
      else if cc_doc_digest m = [] then Inl Co_Invalid_Digest
      else if \<not> IsValidDigestSRI (cc_doc_digest m) then Inl Co_Invalid_Digest
      else Inr ()))"

definition validate_update_co :: "sdk_env \<Rightarrow> msg_update_co \<Rightarrow> co_error + unit" where
  "validate_update_co E m =
     (if uc_corporation m = [] then Inl Co_Bad_Address
      else if \<not> valid_addr E (uc_corporation m) then Inl Co_Bad_Address
      else if uc_operator m = [] then Inl Co_Bad_Address
      else if \<not> valid_addr E (uc_operator m) then Inl Co_Bad_Address
      else if uc_did m = [] then Inl Co_Invalid_DID
      else if \<not> IsValidDID (uc_did m) then Inl Co_Invalid_DID
      else Inr ())"

section \<open>CreateCorporation\<close>

definition group_request_of :: "msg_create_co \<Rightarrow> group_request" where
  "group_request_of m = \<lparr>gq_admin = cc_signer m, gq_members = cc_members m,
     gq_group_metadata = cc_group_metadata m, gq_policy_metadata = cc_policy_metadata m,
     gq_policy_as_admin = True, gq_decision_policy = cc_decision_policy m\<rparr>"

definition put_corporation :: "co_state \<Rightarrow> corporation \<Rightarrow> co_state" where
  "put_corporation s co =
     s\<lparr>cos_corporations := kset (cos_corporations s) (co_id co) co,
       cos_by_policy := kset (cos_by_policy s) (co_policy_address co) (co_id co),
       cos_by_did := kset (cos_by_did s) (co_did co) (co_id co)\<rparr>"

definition CreateCorporation ::
  "'g group_keeper \<Rightarrow> sdk_env \<Rightarrow> (string \<Rightarrow> (string \<times> string) option) \<Rightarrow> 'g \<Rightarrow> co_state
     \<Rightarrow> gf_state \<Rightarrow> msg_create_co \<Rightarrow> co_error + (nat \<times> string) \<times> 'g \<times> co_state \<times> gf_state" where
  "CreateCorporation create_group E parse grp s gs m =
     bindE (validate_create_co E parse m) (\<lambda>_.
     if khas (cos_by_did s) (cc_did m) then Inl Co_DID_Exists
     else
       bindE (optE Co_Group (create_group grp (group_request_of m))) (\<lambda>(policyAddr, grp').
       if khas (cos_by_policy s) policyAddr then Inl Co_Policy_Bound
       else
         (let (coID, s1) = co_GetNextID s ''co''; now = se_block_time E;
              s2 = put_corporation s1 \<lparr>co_id = coID, co_policy_address = policyAddr, co_did = cc_did m,
                     co_created = now, co_modified = now, co_language = cc_language m,
                     co_active_version = 1\<rparr>
          in bindE (liftE Co_Gf (CreateInitialGFVersionForCorporation gs now coID (cc_language m)
                      (cc_doc_url m) (cc_doc_digest m))) (\<lambda>gs'.
             Inr ((coID, policyAddr), grp', s2, gs')))))"

section \<open>UpdateCorporation\<close>

definition UpdateCorporation ::
  "sdk_env \<Rightarrow> de_state \<Rightarrow> co_state \<Rightarrow> msg_update_co \<Rightarrow> co_error + co_state" where
  "UpdateCorporation E de s m =
     bindE (validate_update_co E m) (\<lambda>_.
     bindE (optE Co_Not_Registered (kget (cos_by_policy s) (uc_corporation m))) (\<lambda>i.
     bindE (optE Co_Inconsistent (kget (cos_corporations s) i)) (\<lambda>co.
     bindE (liftE Co_Authz (CheckOperatorAuthorization (resolve_id s) de (uc_corporation m) (uc_operator m)
              ''/verana.co.v1.MsgUpdateCorporation'' (se_block_time E))) (\<lambda>_.
     if uc_did m = co_did co then Inr s
     else if khas (cos_by_did s) (uc_did m) then Inl Co_DID_Exists
     else Inr (s\<lparr>cos_by_did := kset (kremove (cos_by_did s) (co_did co)) (uc_did m) (co_id co),
                 cos_corporations := kset (cos_corporations s) (co_id co)
                   (co\<lparr>co_did := uc_did m, co_modified := se_block_time E\<rparr>)\<rparr>)))))"

section \<open>Queries\<close>

definition GetCorporation ::
  "gf_state \<Rightarrow> co_state \<Rightarrow> nat \<Rightarrow> bool \<Rightarrow> string
     \<Rightarrow> co_error + corporation \<times> (gf_version \<times> gf_document list) list" where
  "GetCorporation gs s i activeOnly lang =
     (if i = 0 then Inl Co_Invalid_Argument
      else bindE (optE Co_Not_Found (kget (cos_corporations s) i)) (\<lambda>co.
           bindE (liftE Co_Gf (ListVersionsByCorporation gs (co_id co) (co_active_version co) activeOnly lang))
             (\<lambda>vs. Inr (co, vs))))"

text \<open>\<open>sort.Slice\<close> on descending modification time; its order of equal times is not
  specified, the model keeps the walk's.\<close>

definition ListCorporations ::
  "gf_state \<Rightarrow> co_state \<Rightarrow> time option \<Rightarrow> bool \<Rightarrow> string \<Rightarrow> nat
     \<Rightarrow> co_error + (corporation \<times> (gf_version \<times> gf_document list) list) list" where
  "ListCorporations gs s since activeOnly lang maxSize =
     bindE (optE Co_Invalid_Argument (query_limit maxSize)) (\<lambda>n.
     let corps = take n (sort_key (\<lambda>c. - co_modified c)
           (filter (\<lambda>c. case since of None \<Rightarrow> True | Some t \<Rightarrow> t < co_modified c) (walk (cos_corporations s)))) in
     foldE (\<lambda>co out. bindE (liftE Co_Gf (ListVersionsByCorporation gs (co_id co) (co_active_version co) activeOnly lang))
                 (\<lambda>vs. Inr (out @ [(co, vs)]))) corps [])"

section \<open>Genesis\<close>

definition co_InitGenesis :: "corporation list \<Rightarrow> co_state \<Rightarrow> co_state" where
  "co_InitGenesis cs s =
     (let s1 = foldl put_corporation s cs
      in s1\<lparr>cos_counter := kset (cos_counter s1) ''co'' (maximum_id co_id cs)\<rparr>)"

definition co_ExportGenesis :: "co_state \<Rightarrow> corporation list" where
  "co_ExportGenesis s = walk (cos_corporations s)"

definition co_validate_genesis :: "corporation list \<Rightarrow> bool" where
  "co_validate_genesis cs \<longleftrightarrow>
     list_all (\<lambda>c. co_id c \<noteq> 0 \<and> co_policy_address c \<noteq> [] \<and> co_did c \<noteq> [] \<and> IsValidDID (co_did c) \<and>
        IsValidBCP47 (co_language c) \<and> co_created c \<noteq> zero_time \<and> co_modified c \<noteq> zero_time \<and>
        \<not> co_modified c < co_created c) cs \<and>
     distinct (map co_id cs) \<and> distinct (map co_policy_address cs) \<and> distinct (map co_did cs)"

end
