(* ===== verification/Ecosystem_Msgs.thy ===== *)
theory Ecosystem_Msgs
imports Governance
begin

text \<open>
  The messages of the ecosystem registry (src/x/ec/keeper/msg_server.go) with their
  stateless validation (types/types.go), the parameter update, the queries
  (keeper/query.go) and genesis (module/genesis.go, types/genesis.go).
\<close>

datatype ec_error =
    Ec_Bad_Address | Ec_Invalid_DID | Ec_Invalid_Language | Ec_Invalid_URL | Ec_Invalid_Digest
  | Ec_Invalid_Subject | Ec_Authz de_error | Ec_Not_Registered | Ec_Not_Found | Ec_Unauthorized
  | Ec_DID_Conflict | Ec_Same_Archive_State | Ec_Gf gf_error | Ec_Invalid_Signer | Ec_Invalid_Argument

record msg_create_ec =
  ce_corporation :: string
  ce_operator :: string
  ce_did :: string
  ce_language :: string
  ce_doc_url :: string
  ce_doc_digest :: string

record msg_update_ec =
  ue_corporation :: string
  ue_operator :: string
  ue_id :: nat
  ue_did :: string

record msg_archive_ec =
  ae_corporation :: string
  ae_operator :: string
  ae_id :: nat
  ae_archive :: bool

text \<open>\<open>isValidHTTPURL\<close>; the parameter returns the scheme of a string
  \<open>url.ParseRequestURI\<close> accepts.\<close>

definition isValidHTTPURL :: "(string \<Rightarrow> string option) \<Rightarrow> string \<Rightarrow> bool" where
  "isValidHTTPURL parse s = (case parse s of None \<Rightarrow> False | Some scheme \<Rightarrow> scheme = ''http'' \<or> scheme = ''https'')"

definition validate_create_ec :: "sdk_env \<Rightarrow> (string \<Rightarrow> string option) \<Rightarrow> msg_create_ec \<Rightarrow> ec_error + unit" where
  "validate_create_ec E parse m =
     (if \<not> valid_addr E (ce_corporation m) then Inl Ec_Bad_Address
      else if \<not> valid_addr E (ce_operator m) then Inl Ec_Bad_Address
      else if ce_did m = [] then Inl Ec_Invalid_DID
      else if \<not> IsValidDID (ce_did m) then Inl Ec_Invalid_DID
      else if ce_language m = [] then Inl Ec_Invalid_Language
      else if \<not> ec_IsValidBCP47 (ce_language m) then Inl Ec_Invalid_Language
      else if ce_doc_url m = [] then Inl Ec_Invalid_URL
      else if \<not> isValidHTTPURL parse (ce_doc_url m) then Inl Ec_Invalid_URL
      else if ce_doc_digest m = [] then Inl Ec_Invalid_Digest
      else if \<not> IsValidDigestSRI (ce_doc_digest m) then Inl Ec_Invalid_Digest
      else Inr ())"

definition validate_update_ec :: "sdk_env \<Rightarrow> msg_update_ec \<Rightarrow> ec_error + unit" where
  "validate_update_ec E m =
     (if \<not> valid_addr E (ue_corporation m) then Inl Ec_Bad_Address
      else if \<not> valid_addr E (ue_operator m) then Inl Ec_Bad_Address
      else if ue_id m = 0 then Inl Ec_Invalid_Subject
      else if ue_did m = [] then Inl Ec_Invalid_DID
      else if \<not> IsValidDID (ue_did m) then Inl Ec_Invalid_DID
      else Inr ())"

definition validate_archive_ec :: "sdk_env \<Rightarrow> msg_archive_ec \<Rightarrow> ec_error + unit" where
  "validate_archive_ec E m =
     (if \<not> valid_addr E (ae_corporation m) then Inl Ec_Bad_Address
      else if \<not> valid_addr E (ae_operator m) then Inl Ec_Bad_Address
      else if ae_id m = 0 then Inl Ec_Invalid_Subject
      else Inr ())"

text \<open>The common preamble of the handlers: AUTHZ-CHECK-1, then AUTHZ-CHECK-5.\<close>

definition ec_authorize ::
  "de_state \<Rightarrow> co_state \<Rightarrow> time \<Rightarrow> string \<Rightarrow> string \<Rightarrow> string \<Rightarrow> ec_error + corporation" where
  "ec_authorize de cs now corporation operator mt =
     bindE (liftE Ec_Authz (CheckOperatorAuthorization (resolve_id cs) de corporation operator mt now)) (\<lambda>_.
     optE Ec_Not_Registered (gf_ResolveByPolicyAddress cs corporation))"

text \<open>The lookup and ownership check of the handlers that change a record.\<close>

definition owned_ecosystem :: "ec_state \<Rightarrow> nat \<Rightarrow> corporation \<Rightarrow> ec_error + ecosystem" where
  "owned_ecosystem s i co =
     bindE (optE Ec_Not_Found (kget (ecs_ecosystems s) i)) (\<lambda>ec.
     if ec_corporation_id ec \<noteq> co_id co then Inl Ec_Unauthorized else Inr ec)"

definition put_ecosystem :: "ec_state \<Rightarrow> ecosystem \<Rightarrow> ec_state" where
  "put_ecosystem s ec = s\<lparr>ecs_ecosystems := kset (ecs_ecosystems s) (ec_id ec) ec\<rparr>"

definition CreateEcosystem ::
  "sdk_env \<Rightarrow> (string \<Rightarrow> string option) \<Rightarrow> de_state \<Rightarrow> co_state \<Rightarrow> ec_state \<Rightarrow> gf_state \<Rightarrow> msg_create_ec
     \<Rightarrow> ec_error + nat \<times> ec_state \<times> gf_state" where
  "CreateEcosystem E parse de cs s gs m =
     bindE (validate_create_ec E parse m) (\<lambda>_.
     bindE (ec_authorize de cs (se_block_time E) (ce_corporation m) (ce_operator m)
              ''/verana.ec.v1.MsgCreateEcosystem'') (\<lambda>co.
     if \<not> assertDIDConsistent s (ce_did m) (co_id co) 0 then Inl Ec_DID_Conflict
     else
       (let (ecID, s1) = ec_GetNextID s ''ec''; now = se_block_time E;
            s2 = put_ecosystem s1 \<lparr>ec_id = ecID, ec_did = ce_did m, ec_corporation_id = co_id co,
                   ec_created = now, ec_modified = now, ec_archived = False,
                   ec_language = ce_language m, ec_active_version = 1\<rparr>;
            s3 = s2\<lparr>ecs_by_did_corp := kset (ecs_by_did_corp s2) (ce_did m, co_id co) ecID\<rparr>
        in bindE (liftE Ec_Gf (CreateInitialGFVersionForEcosystem gs now ecID (ce_language m)
                    (ce_doc_url m) (ce_doc_digest m))) (\<lambda>gs'.
           Inr (ecID, s3, gs')))))"

definition UpdateEcosystem ::
  "sdk_env \<Rightarrow> de_state \<Rightarrow> co_state \<Rightarrow> ec_state \<Rightarrow> msg_update_ec \<Rightarrow> ec_error + ec_state" where
  "UpdateEcosystem E de cs s m =
     bindE (validate_update_ec E m) (\<lambda>_.
     bindE (ec_authorize de cs (se_block_time E) (ue_corporation m) (ue_operator m)
              ''/verana.ec.v1.MsgUpdateEcosystem'') (\<lambda>co.
     bindE (owned_ecosystem s (ue_id m) co) (\<lambda>ec.
     if ec_did ec = ue_did m then Inr s
     else if \<not> assertDIDConsistent s (ue_did m) (co_id co) (ec_id ec) then Inl Ec_DID_Conflict
     else Inr (put_ecosystem
            (s\<lparr>ecs_by_did_corp := kset (kremove (ecs_by_did_corp s) (ec_did ec, co_id co))
                                   (ue_did m, co_id co) (ec_id ec)\<rparr>)
            (ec\<lparr>ec_did := ue_did m, ec_modified := se_block_time E\<rparr>)))))"

definition ArchiveEcosystem ::
  "sdk_env \<Rightarrow> de_state \<Rightarrow> co_state \<Rightarrow> ec_state \<Rightarrow> msg_archive_ec \<Rightarrow> ec_error + ec_state" where
  "ArchiveEcosystem E de cs s m =
     bindE (validate_archive_ec E m) (\<lambda>_.
     bindE (ec_authorize de cs (se_block_time E) (ae_corporation m) (ae_operator m)
              ''/verana.ec.v1.MsgArchiveEcosystem'') (\<lambda>co.
     bindE (owned_ecosystem s (ae_id m) co) (\<lambda>ec.
     if ec_archived ec = ae_archive m then Inl Ec_Same_Archive_State
     else Inr (put_ecosystem s (ec\<lparr>ec_archived := ae_archive m, ec_modified := se_block_time E\<rparr>)))))"

text \<open>\<open>UpdateParams\<close> compares the authority and stores the parameters as given.\<close>

definition ec_UpdateParams :: "string \<Rightarrow> ec_state \<Rightarrow> string \<Rightarrow> ec_params \<Rightarrow> ec_error + ec_state" where
  "ec_UpdateParams authority s signer p =
     (if authority \<noteq> signer then Inl Ec_Invalid_Signer else Inr (s\<lparr>ecs_params := p\<rparr>))"

definition GetTrustUnitPrice :: "ec_state \<Rightarrow> int" where
  "GetTrustUnitPrice s = ep_trust_unit_price (ecs_params s)"

section \<open>Queries\<close>

definition buildWithVersions ::
  "gf_state \<Rightarrow> ecosystem \<Rightarrow> bool \<Rightarrow> string
     \<Rightarrow> ec_error + ecosystem \<times> (gf_version \<times> gf_document list) list" where
  "buildWithVersions gs ec activeOnly lang =
     bindE (liftE Ec_Gf (ListVersionsByEcosystem gs (ec_id ec) (ec_active_version ec) activeOnly lang))
       (\<lambda>vs. Inr (ec, vs))"

definition GetEcosystem_query ::
  "gf_state \<Rightarrow> ec_state \<Rightarrow> nat \<Rightarrow> bool \<Rightarrow> string
     \<Rightarrow> ec_error + ecosystem \<times> (gf_version \<times> gf_document list) list" where
  "GetEcosystem_query gs s i activeOnly lang =
     (if i = 0 then Inl Ec_Invalid_Argument
      else bindE (optE Ec_Not_Found (kget (ecs_ecosystems s) i)) (\<lambda>ec.
           buildWithVersions gs ec activeOnly lang))"

text \<open>Ordered by descending modification time when a lower bound on it is asked for
  (ties as in the walk), by id otherwise; corporation 0 means any.\<close>

definition ListEcosystems ::
  "gf_state \<Rightarrow> ec_state \<Rightarrow> nat \<Rightarrow> time option \<Rightarrow> bool \<Rightarrow> string \<Rightarrow> nat
     \<Rightarrow> ec_error + (ecosystem \<times> (gf_version \<times> gf_document list) list) list" where
  "ListEcosystems gs s corp since activeOnly lang maxSize =
     bindE (optE Ec_Invalid_Argument (query_limit maxSize)) (\<lambda>n.
     bindE (foldE (\<lambda>ec out.
         if corp \<noteq> 0 \<and> ec_corporation_id ec \<noteq> corp then Inr out
         else if (case since of None \<Rightarrow> False | Some t \<Rightarrow> \<not> t < ec_modified ec) then Inr out
         else bindE (buildWithVersions gs ec activeOnly lang) (\<lambda>ew. Inr (out @ [ew])))
       (walk (ecs_ecosystems s)) []) (\<lambda>out.
     Inr (take n (case since of
            Some _ \<Rightarrow> sort_key (\<lambda>ew. - ec_modified (fst ew)) out
          | None \<Rightarrow> sort_key (\<lambda>ew. int (ec_id (fst ew))) out))))"

section \<open>Genesis\<close>

record ec_genesis =
  eg_params :: ec_params
  eg_ecosystems :: "ecosystem list"
  eg_counters :: "(string \<times> nat) list"

definition ec_InitGenesis :: "ec_genesis \<Rightarrow> ec_state \<Rightarrow> ec_state" where
  "ec_InitGenesis g s =
     s\<lparr>ecs_params := eg_params g,
       ecs_ecosystems := kset_all ec_id (eg_ecosystems g) (ecs_ecosystems s),
       ecs_by_did_corp := kset_index (\<lambda>e. (ec_did e, ec_corporation_id e)) ec_id (eg_ecosystems g)
         (ecs_by_did_corp s),
       ecs_counter := kset_index fst snd (eg_counters g) (ecs_counter s)\<rparr>"

definition ec_ExportGenesis :: "ec_state \<Rightarrow> ec_genesis" where
  "ec_ExportGenesis s = \<lparr>eg_params = ecs_params s, eg_ecosystems = walk (ecs_ecosystems s),
     eg_counters = (case kget (ecs_counter s) ''ec'' of None \<Rightarrow> [] | Some v \<Rightarrow> [(''ec'', v)])\<rparr>"

definition ec_record_ok :: "ecosystem \<Rightarrow> bool" where
  "ec_record_ok e \<longleftrightarrow> ec_id e \<noteq> 0 \<and> ec_corporation_id e \<noteq> 0 \<and> ec_did e \<noteq> [] \<and> IsValidDID (ec_did e) \<and>
     ec_language e \<noteq> [] \<and> ec_IsValidBCP47 (ec_language e) \<and> ec_created e \<noteq> zero_time \<and>
     ec_modified e \<noteq> zero_time \<and> \<not> ec_modified e < ec_created e \<and> ec_active_version e \<noteq> 0"

text \<open>The map from DIDs to owners built along the list.\<close>

fun did_owners_ok :: "(string \<rightharpoonup> nat) \<Rightarrow> ecosystem list \<Rightarrow> bool" where
  "did_owners_ok owner [] = True"
| "did_owners_ok owner (e # es) =
     (case owner (ec_did e) of
        Some c \<Rightarrow> c = ec_corporation_id e \<and> did_owners_ok owner es
      | None \<Rightarrow> did_owners_ok (owner(ec_did e \<mapsto> ec_corporation_id e)) es)"

definition ec_validate_genesis :: "ec_genesis \<Rightarrow> bool" where
  "ec_validate_genesis g \<longleftrightarrow> ep_trust_unit_price (eg_params g) \<noteq> 0 \<and>
     list_all ec_record_ok (eg_ecosystems g) \<and> distinct (map ec_id (eg_ecosystems g)) \<and>
     did_owners_ok Map.empty (eg_ecosystems g) \<and>
     list_all (\<lambda>(ty, v). ty = ''ec'' \<and> \<not> v < maximum_id ec_id (eg_ecosystems g)) (eg_counters g) \<and>
     distinct (map fst (eg_counters g))"

end
