(* ===== verification/Registry.thy ===== *)
theory Registry
imports Governance_Inv Corporation_Msgs Ecosystem_Msgs
begin

text \<open>
  The three registries as one state machine: corporations, ecosystems and their
  governance frameworks, changed by the seven messages of x/co, x/ec and x/gf in any
  order, with block times that never decrease.  The invariant \<open>reg_inv\<close> ties the
  modules together: every framework belongs to a registered subject, and every subject's
  active version exists with a document in the subject's language.
\<close>

section \<open>The step relation\<close>

record registry =
  rg_co :: co_state
  rg_ec :: ec_state
  rg_gf :: gf_state

definition rg_empty :: registry where
  "rg_empty = \<lparr>rg_co = co_empty, rg_ec = ec_empty, rg_gf = gf_empty\<rparr>"

text \<open>What surrounds a message: block context, the group keeper, the two URL parsers and
  the delegation state.\<close>

record 'g rg_env =
  re_sdk :: sdk_env
  re_group :: "'g group_keeper"
  re_parse :: "string \<Rightarrow> (string \<times> string) option"
  re_parse_uri :: "string \<Rightarrow> string option"
  re_de :: de_state

datatype rg_op =
    Rg_Create_Corporation "msg_create_co"
  | Rg_Update_Corporation msg_update_co
  | Rg_Create_Ecosystem msg_create_ec
  | Rg_Update_Ecosystem msg_update_ec
  | Rg_Archive_Ecosystem msg_archive_ec
  | Rg_Add_Document msg_add_gfd
  | Rg_Increase_Version msg_increase_gfv

inductive rg_step :: "'g rg_env \<Rightarrow> registry \<times> 'g \<Rightarrow> rg_op \<Rightarrow> registry \<times> 'g \<Rightarrow> bool" where
  create_corporation:
    "CreateCorporation (re_group X) (re_sdk X) (re_parse X) grp (rg_co r) (rg_gf r) m = Inr (ret, grp', c', f')
     \<Longrightarrow> rg_step X (r, grp) (Rg_Create_Corporation m) (r\<lparr>rg_co := c', rg_gf := f'\<rparr>, grp')"
| update_corporation:
    "UpdateCorporation (re_sdk X) (re_de X) (rg_co r) mu = Inr c'
     \<Longrightarrow> rg_step X (r, grp) (Rg_Update_Corporation mu) (r\<lparr>rg_co := c'\<rparr>, grp)"
| create_ecosystem:
    "CreateEcosystem (re_sdk X) (re_parse_uri X) (re_de X) (rg_co r) (rg_ec r) (rg_gf r) me = Inr (i, e', f')
     \<Longrightarrow> rg_step X (r, grp) (Rg_Create_Ecosystem me) (r\<lparr>rg_ec := e', rg_gf := f'\<rparr>, grp)"
| update_ecosystem:
    "UpdateEcosystem (re_sdk X) (re_de X) (rg_co r) (rg_ec r) mv = Inr e'
     \<Longrightarrow> rg_step X (r, grp) (Rg_Update_Ecosystem mv) (r\<lparr>rg_ec := e'\<rparr>, grp)"
| archive_ecosystem:
    "ArchiveEcosystem (re_sdk X) (re_de X) (rg_co r) (rg_ec r) ma = Inr e'
     \<Longrightarrow> rg_step X (r, grp) (Rg_Archive_Ecosystem ma) (r\<lparr>rg_ec := e'\<rparr>, grp)"
| add_document:
    "AddGovernanceFrameworkDocument (re_parse X) (re_de X) (rg_co r) (rg_ec r) (se_block_time (re_sdk X))
       (rg_gf r) md = Inr f'
     \<Longrightarrow> rg_step X (r, grp) (Rg_Add_Document md) (r\<lparr>rg_gf := f'\<rparr>, grp)"
| increase_version:
    "IncreaseActiveGovernanceFrameworkVersion (re_de X) (rg_co r) (rg_ec r) (se_block_time (re_sdk X))
       (rg_gf r) mi = Inr (f', c', e')
     \<Longrightarrow> rg_step X (r, grp) (Rg_Increase_Version mi) (\<lparr>rg_co = c', rg_ec = e', rg_gf = f'\<rparr>, grp)"

inductive_simps rg_step_simps [simp]:
  "rg_step X (r, grp) (Rg_Create_Corporation m) (r', grp')"
  "rg_step X (r, grp) (Rg_Update_Corporation mu) (r', grp')"
  "rg_step X (r, grp) (Rg_Create_Ecosystem me) (r', grp')"
  "rg_step X (r, grp) (Rg_Update_Ecosystem mv) (r', grp')"
  "rg_step X (r, grp) (Rg_Archive_Ecosystem ma) (r', grp')"
  "rg_step X (r, grp) (Rg_Add_Document md) (r', grp')"
  "rg_step X (r, grp) (Rg_Increase_Version mi) (r', grp')"

text \<open>x/group returns the address of the policy account it has created, never the empty
  string.\<close>

definition group_addr_ok :: "'g rg_env \<Rightarrow> bool" where
  "group_addr_ok X \<longleftrightarrow> (\<forall>g q a g'. re_group X g q = Some (a, g') \<longrightarrow> a \<noteq> [])"

inductive rg_reach :: "time \<Rightarrow> registry \<Rightarrow> 'g \<Rightarrow> bool" where
  rg_init: "zero_time < t \<Longrightarrow> rg_reach t rg_empty grp"
| rg_next: "rg_reach t r grp \<Longrightarrow> t \<le> se_block_time (re_sdk X) \<Longrightarrow> group_addr_ok X \<Longrightarrow>
    rg_step X (r, grp) op (r', grp') \<Longrightarrow> rg_reach (se_block_time (re_sdk X)) r' grp'"

section \<open>The invariant\<close>

text \<open>Language and active version of a subject, if it is registered.\<close>

definition subject_view :: "registry \<Rightarrow> subject \<Rightarrow> (string \<times> int) option" where
  "subject_view r sub = (case sub of
     SubjectEcosystem e \<Rightarrow> map_option (\<lambda>x. (ec_language x, ec_active_version x)) (kget (ecs_ecosystems (rg_ec r)) e)
   | SubjectCorporation c \<Rightarrow>
       map_option (\<lambda>x. (co_language x, co_active_version x)) (kget (cos_corporations (rg_co r)) c))"

definition frameworks_linked :: "registry \<Rightarrow> bool" where
  "frameworks_linked r \<longleftrightarrow>
     (\<forall>i g. kget (gfs_versions (rg_gf r)) i = Some g \<longrightarrow> subject_view r (gv_owner g) \<noteq> None) \<and>
     (\<forall>sub lang a. subject_view r sub = Some (lang, a) \<longrightarrow>
        0 < subject_id sub \<and> gf_lookup (rg_gf r) sub a \<noteq> None \<and> IsValidBCP47 lang \<and>
        (\<forall>v i. v \<le> a \<longrightarrow> gf_lookup (rg_gf r) sub v = Some i \<longrightarrow> find_document (rg_gf r) i lang \<noteq> None))"

definition co_times_ok :: "time \<Rightarrow> co_state \<Rightarrow> bool" where
  "co_times_ok t s \<longleftrightarrow> (\<forall>i c. kget (cos_corporations s) i = Some c \<longrightarrow>
     co_policy_address c \<noteq> [] \<and> IsValidDID (co_did c) \<and>
     zero_time < co_created c \<and> co_created c \<le> co_modified c \<and> co_modified c \<le> t)"

definition ec_times_ok :: "time \<Rightarrow> registry \<Rightarrow> bool" where
  "ec_times_ok t r \<longleftrightarrow> (\<forall>i e. kget (ecs_ecosystems (rg_ec r)) i = Some e \<longrightarrow>
     kget (cos_corporations (rg_co r)) (ec_corporation_id e) \<noteq> None \<and>
     zero_time < ec_created e \<and> ec_created e \<le> ec_modified e \<and> ec_modified e \<le> t)"

definition reg_inv :: "time \<Rightarrow> registry \<Rightarrow> bool" where
  "reg_inv t r \<longleftrightarrow> zero_time < t \<and> co_inv (rg_co r) \<and> ec_inv (rg_ec r) \<and> gf_ok (rg_gf r) \<and>
     frameworks_linked r \<and> co_times_ok t (rg_co r) \<and> ec_times_ok t r"

lemma reg_invD:
  "reg_inv t r \<Longrightarrow> zero_time < t" "reg_inv t r \<Longrightarrow> co_inv (rg_co r)" "reg_inv t r \<Longrightarrow> ec_inv (rg_ec r)"
  "reg_inv t r \<Longrightarrow> gf_ok (rg_gf r)" "reg_inv t r \<Longrightarrow> frameworks_linked r"
  "reg_inv t r \<Longrightarrow> co_times_ok t (rg_co r)" "reg_inv t r \<Longrightarrow> ec_times_ok t r"
  by (simp_all add: reg_inv_def)

lemma linked_owner: "frameworks_linked r \<Longrightarrow> kget (gfs_versions (rg_gf r)) i = Some g \<Longrightarrow>
    subject_view r (gv_owner g) \<noteq> None"
  unfolding frameworks_linked_def by blast

lemma linked_active: "frameworks_linked r \<Longrightarrow> subject_view r sub = Some (lang, a) \<Longrightarrow>
    0 < subject_id sub \<and> gf_lookup (rg_gf r) sub a \<noteq> None \<and> IsValidBCP47 lang"
  unfolding frameworks_linked_def by blast

lemma linked_document: "frameworks_linked r \<Longrightarrow> subject_view r sub = Some (lang, a) \<Longrightarrow> v \<le> a \<Longrightarrow>
    gf_lookup (rg_gf r) sub v = Some i \<Longrightarrow> find_document (rg_gf r) i lang \<noteq> None"
  unfolding frameworks_linked_def by blast

lemma frameworks_linkedI:
  assumes "\<And>i g. kget (gfs_versions (rg_gf r)) i = Some g \<Longrightarrow> subject_view r (gv_owner g) \<noteq> None"
    and "\<And>sub lang a. subject_view r sub = Some (lang, a) \<Longrightarrow>
        0 < subject_id sub \<and> gf_lookup (rg_gf r) sub a \<noteq> None \<and> IsValidBCP47 lang"
    and "\<And>sub lang a v i. subject_view r sub = Some (lang, a) \<Longrightarrow> v \<le> a \<Longrightarrow>
        gf_lookup (rg_gf r) sub v = Some i \<Longrightarrow> find_document (rg_gf r) i lang \<noteq> None"
  shows "frameworks_linked r"
  using assms unfolding frameworks_linked_def by blast

lemma co_times_mono: "co_times_ok t s \<Longrightarrow> t \<le> t' \<Longrightarrow> co_times_ok t' s"
  unfolding co_times_ok_def by (meson order_trans)

lemma ec_times_mono: "ec_times_ok t s \<Longrightarrow> t \<le> t' \<Longrightarrow> ec_times_ok t' s"
  unfolding ec_times_ok_def by (meson order_trans)

lemma reg_inv_mono: "reg_inv t r \<Longrightarrow> t \<le> t' \<Longrightarrow> reg_inv t' r"
  unfolding reg_inv_def using co_times_mono ec_times_mono order_less_le_trans by blast

lemma reg_inv_empty:
  assumes "zero_time < t"
  shows "reg_inv t rg_empty"
proof -
  have "frameworks_linked rg_empty" "co_times_ok t (rg_co rg_empty)" "ec_times_ok t rg_empty"
    by (simp_all add: rg_empty_def frameworks_linked_def subject_view_def co_times_ok_def ec_times_ok_def
        co_empty_def ec_empty_def gf_empty_def split: subject.split)
  then show ?thesis
    using assms by (simp add: reg_inv_def) (simp add: rg_empty_def co_inv_empty ec_inv_empty gf_ok_empty)
qed

section \<open>Frames\<close>

text \<open>The link survives whatever keeps the subjects' views and only adds versions and
  documents.\<close>

lemma linked_grow:
  assumes r: "frameworks_linked r" "gf_versions_ok (rg_gf r)" "gf_versions_ok (rg_gf r')"
    and view: "\<And>sub. subject_view r' sub = subject_view r sub"
    and vers: "\<And>sub v i. gf_lookup (rg_gf r) sub v = Some i \<Longrightarrow> gf_lookup (rg_gf r') sub v = Some i"
    and docs: "\<And>i l. find_document (rg_gf r) i l \<noteq> None \<Longrightarrow> find_document (rg_gf r') i l \<noteq> None"
    and own: "\<And>i g. kget (gfs_versions (rg_gf r')) i = Some g \<Longrightarrow> subject_view r (gv_owner g) \<noteq> None"
  shows "frameworks_linked r'"
proof (rule frameworks_linkedI)
  show "subject_view r' (gv_owner g) \<noteq> None" if "kget (gfs_versions (rg_gf r')) i = Some g" for i g
    using own [OF that] view by simp
next
  fix sub lang a
  assume "subject_view r' sub = Some (lang, a)"
  then have v: "subject_view r sub = Some (lang, a)" using view by simp
  from linked_active [OF r(1) v]
  obtain j where a: "0 < subject_id sub" "gf_lookup (rg_gf r) sub a = Some j" "IsValidBCP47 lang" by auto
  then show "0 < subject_id sub \<and> gf_lookup (rg_gf r') sub a \<noteq> None \<and> IsValidBCP47 lang"
    using vers by blast
  fix w i
  assume w: "w \<le> a" "gf_lookup (rg_gf r') sub w = Some i"
  then have "1 \<le> w" using gf_lookup_range [OF r(3)] by blast
  then have "gf_lookup (rg_gf r) sub w \<noteq> None" using gf_lookup_below [OF r(2), of sub a w] a(2) w(1) by simp
  then have "gf_lookup (rg_gf r) sub w = Some i" using vers w(2) by (metis option.exhaust option.inject)
  then show "find_document (rg_gf r') i lang \<noteq> None" using linked_document [OF r(1) v w(1)] docs by blast
qed

text \<open>A newly registered subject with a seeded version 1.\<close>

lemma gf_max_new_subject:
  assumes "frameworks_linked r" "gf_versions_ok (rg_gf r)" "subject_view r sub = None"
  shows "gf_max (rg_gf r) sub = 0"
proof -
  have "gf_lookup (rg_gf r) sub (gf_max (rg_gf r) sub) = None"
  proof (rule ccontr)
    assume "gf_lookup (rg_gf r) sub (gf_max (rg_gf r) sub) \<noteq> None"
    then obtain i g where "kget (gfs_versions (rg_gf r)) i = Some g" "gv_owner g = sub"
      using gf_lookup_iff [OF assms(2)] by blast
    then show False using linked_owner [OF assms(1)] assms(3) by blast
  qed
  then show ?thesis using gf_max_iff [OF assms(2), of sub "gf_max (rg_gf r) sub"] gf_max_nonneg [of "rg_gf r" sub]
    by linarith
qed

lemma linked_seed:
  assumes r: "frameworks_linked r" "gf_ok (rg_gf r)"
    and sub: "0 < subject_id sub" "subject_view r sub = None" and lang: "IsValidBCP47 lang"
    and gf: "rg_gf r' = seed_version (rg_gf r) sub now lang url digest"
    and view: "\<And>s. subject_view r' s = (if s = sub then Some (lang, 1) else subject_view r s)"
  shows "frameworks_linked r'" and "gf_ok (rg_gf r')"
proof -
  have m: "gf_max (rg_gf r) sub = 0" by (rule gf_max_new_subject [OF r(1) gf_okD(1) [OF r(2)] sub(2)])
  note seed = seed_version_ok [OF r(2) sub(1) m lang, where now = now and url = url and digest = digest, folded gf]
  show ok: "gf_ok (rg_gf r')" by (rule seed(1))
  have none: "gf_lookup (rg_gf r) sub v = None" for v
    using gf_max_iff [OF gf_okD(1) [OF r(2)], of sub v] m by auto
  show "frameworks_linked r'"
  proof (rule frameworks_linkedI)
    fix i g
    assume "kget (gfs_versions (rg_gf r')) i = Some g"
    then consider "gv_owner g = sub" | "kget (gfs_versions (rg_gf r)) i = Some g"
      using sub(1) unfolding seed(3) by (auto split: if_splits)
    then show "subject_view r' (gv_owner g) \<noteq> None"
      using linked_owner [OF r(1)] by cases (simp_all add: view)
  next
    fix s l a
    assume s: "subject_view r' s = Some (l, a)"
    show "0 < subject_id s \<and> gf_lookup (rg_gf r') s a \<noteq> None \<and> IsValidBCP47 l"
    proof (cases "s = sub")
      case True
      then show ?thesis using s sub(1) lang by (simp add: view seed(2))
    next
      case False
      then have "subject_view r s = Some (l, a)" using s by (simp add: view)
      from linked_active [OF r(1) this] False show ?thesis by (simp add: seed(2))
    qed
    fix w i
    assume w: "w \<le> a" "gf_lookup (rg_gf r') s w = Some i"
    show "find_document (rg_gf r') i l \<noteq> None"
    proof (cases "s = sub")
      case True
      then have "l = lang" "i = Suc (gf_last_id (rg_gf r) ''gfv'')"
        using s w none by (auto simp: view seed(2) split: if_splits)
      then show ?thesis using seed(4) by simp
    next
      case False
      then have "subject_view r s = Some (l, a)" "gf_lookup (rg_gf r) s w = Some i"
        using s w by (simp_all add: view seed(2))
      then show ?thesis using linked_document [OF r(1) _ w(1)] seed(5) by blast
    qed
  qed
qed

end
