(* ===== verification/Registry_Inv.thy ===== *)
theory Registry_Inv
imports Registry
begin

text \<open>
  Each message of the three registries inverted (what a success implies and what state
  results) and shown to keep \<open>reg_inv\<close>.
\<close>

section \<open>CreateCorporation\<close>

definition new_corporation :: "nat \<Rightarrow> string \<Rightarrow> msg_create_co \<Rightarrow> time \<Rightarrow> corporation" where
  "new_corporation i a m now = \<lparr>co_id = i, co_policy_address = a, co_did = cc_did m, co_created = now,
     co_modified = now, co_language = cc_language m, co_active_version = 1\<rparr>"

definition add_corporation :: "co_state \<Rightarrow> corporation \<Rightarrow> co_state" where
  "add_corporation s co = put_corporation (s\<lparr>cos_counter := kset (cos_counter s) ''co'' (Suc (co_last_id s))\<rparr>) co"

lemma co_GetNextID_eq: "co_GetNextID s ''co'' =
    (Suc (co_last_id s), s\<lparr>cos_counter := kset (cos_counter s) ''co'' (Suc (co_last_id s))\<rparr>)"
  by (simp add: co_GetNextID_def co_last_id_def Let_def)

lemma new_corporation_sel [simp]:
  "co_id (new_corporation i a m now) = i" "co_policy_address (new_corporation i a m now) = a"
  "co_did (new_corporation i a m now) = cc_did m" "co_language (new_corporation i a m now) = cc_language m"
  "co_active_version (new_corporation i a m now) = 1"
  "co_created (new_corporation i a m now) = now" "co_modified (new_corporation i a m now) = now"
  by (simp_all add: new_corporation_def)

lemma CreateCorporation_ok_iff:
  "CreateCorporation cg E parse grp s gs m = Inr ((i, a), grp', s', gs') \<longleftrightarrow>
     validate_create_co E parse m = Inr () \<and> \<not> khas (cos_by_did s) (cc_did m) \<and>
     cg grp (group_request_of m) = Some (a, grp') \<and> \<not> khas (cos_by_policy s) a \<and>
     i = Suc (co_last_id s) \<and> \<not> khas (gfs_by_corporation gs) (i, 1) \<and>
     s' = add_corporation s (new_corporation i a m (se_block_time E)) \<and>
     gs' = seed_version gs (SubjectCorporation i) (se_block_time E) (cc_language m) (cc_doc_url m) (cc_doc_digest m)"
  by (auto simp: CreateCorporation_def bindE_ok_iff optE_ok_iff liftE_ok_iff co_GetNextID_eq Let_def
      CreateInitialGFVersionForCorporation_def add_corporation_def new_corporation_def
      split: prod.splits if_splits)

lemma validate_create_co_ok:
  assumes "validate_create_co E parse m = Inr ()"
  shows "IsValidDID (cc_did m)" "IsValidBCP47 (cc_language m)" "cc_did m \<noteq> []"
  using assms by (auto simp: validate_create_co_def bindE_ok_iff split: if_splits)

lemma add_corporation_get: "kget (cos_corporations (add_corporation s co)) i =
    (if i = co_id co then Some co else kget (cos_corporations s) i)"
  by (simp add: add_corporation_def put_corporation_def kget_kset)

lemma add_corporation_inv:
  assumes inv: "co_inv s" and i: "co_id co = Suc (co_last_id s)"
    and new: "kget (cos_by_policy s) (co_policy_address co) = None" "kget (cos_by_did s) (co_did co) = None"
  shows "co_inv (add_corporation s co)"
proof -
  have fresh: "kget (cos_corporations s) (Suc (co_last_id s)) = None" by (rule co_inv_fresh [OF inv]) simp
  have "co_pol.index_ok (cos_corporations (add_corporation s co)) (cos_by_policy (add_corporation s co))"
    using co_pol.index_ok_insert [OF co_inv_policy [OF inv] fresh new(1)]
    by (simp add: add_corporation_def put_corporation_def i)
  moreover have "co_didx.index_ok (cos_corporations (add_corporation s co)) (cos_by_did (add_corporation s co))"
    using co_didx.index_ok_insert [OF co_inv_did [OF inv] fresh new(2)]
    by (simp add: add_corporation_def put_corporation_def i)
  moreover have "co_last_id (add_corporation s co) = Suc (co_last_id s)"
    by (simp add: co_last_id_def add_corporation_def put_corporation_def)
  moreover have "co_id x = j \<and> 0 < j \<and> j \<le> Suc (co_last_id s)"
    if "kget (cos_corporations (add_corporation s co)) j = Some x" for j x
  proof (cases "j = Suc (co_last_id s)")
    case True
    then show ?thesis using that i by (simp add: add_corporation_get)
  next
    case False
    then have "kget (cos_corporations s) j = Some x" using that i by (simp add: add_corporation_get)
    from co_inv_id [OF inv this] show ?thesis by simp
  qed
  ultimately show ?thesis by (simp add: co_inv_def)
qed

lemma create_corporation_inv:
  assumes inv: "reg_inv t r" and now: "t \<le> se_block_time (re_sdk X)" and X: "group_addr_ok X"
    and ok: "CreateCorporation (re_group X) (re_sdk X) (re_parse X) grp (rg_co r) (rg_gf r) m = Inr ((i, a), grp', c', f')"
  shows "reg_inv (se_block_time (re_sdk X)) (r\<lparr>rg_co := c', rg_gf := f'\<rparr>)" (is "reg_inv ?now ?r")
proof -
  note c = ok [unfolded CreateCorporation_ok_iff]
  let ?co = "new_corporation i a m ?now"
  note m = validate_create_co_ok [OF conjunct1 [OF c]]
  have i: "i = Suc (co_last_id (rg_co r))" and c': "c' = add_corporation (rg_co r) ?co" using c by simp_all
  have fresh: "kget (cos_corporations (rg_co r)) i = None"
    by (rule co_inv_fresh [OF reg_invD(2) [OF inv]]) (simp add: i)
  have "co_inv c'"
    unfolding c' by (rule add_corporation_inv [OF reg_invD(2) [OF inv]]) (use c in \<open>simp_all add: khas_def\<close>)
  moreover have view: "subject_view ?r s =
      (if s = SubjectCorporation i then Some (cc_language m, 1) else subject_view r s)" for s
    by (cases s) (simp_all add: subject_view_def c' add_corporation_get)
  moreover have gone: "subject_view r (SubjectCorporation i) = None" using fresh by (simp add: subject_view_def)
  have "frameworks_linked ?r" "gf_ok (rg_gf ?r)"
    using linked_seed [OF reg_invD(5,4) [OF inv] _ gone m(2), where r' = ?r, OF _ _ view] c by auto
  moreover have "a \<noteq> []" using X c unfolding group_addr_ok_def by blast
  then have "co_times_ok ?now c'"
    using co_times_mono [OF reg_invD(6) [OF inv] now] reg_invD(1) [OF inv] now m(1)
    unfolding co_times_ok_def c' by (auto simp: add_corporation_get)
  moreover have "ec_times_ok ?now ?r"
    using ec_times_mono [OF reg_invD(7) [OF inv] now]
    unfolding ec_times_ok_def c' by (auto simp: add_corporation_get)
  ultimately show ?thesis using inv now by (simp add: reg_inv_def)
qed

section \<open>UpdateCorporation\<close>

lemma UpdateCorporation_ok_iff:
  "UpdateCorporation E de s m = Inr s' \<longleftrightarrow>
     validate_update_co E m = Inr () \<and>
     (\<exists>i co. kget (cos_by_policy s) (uc_corporation m) = Some i \<and> kget (cos_corporations s) i = Some co \<and>
        CheckOperatorAuthorization (resolve_id s) de (uc_corporation m) (uc_operator m)
          ''/verana.co.v1.MsgUpdateCorporation'' (se_block_time E) = Inr () \<and>
        (uc_did m = co_did co \<and> s' = s \<or> uc_did m \<noteq> co_did co \<and> \<not> khas (cos_by_did s) (uc_did m) \<and>
           s' = s\<lparr>cos_by_did := kset (kremove (cos_by_did s) (co_did co)) (uc_did m) (co_id co),
                 cos_corporations := kset (cos_corporations s) (co_id co)
                   (co\<lparr>co_did := uc_did m, co_modified := se_block_time E\<rparr>)\<rparr>))"
  unfolding UpdateCorporation_def bindE_unit_ok_iff bindE_ok_iff optE_ok_iff liftE_ok_iff if_guard_ok_iff
  by blast

lemma validate_update_co_ok: "validate_update_co E m = Inr () \<Longrightarrow> IsValidDID (uc_did m)"
  by (auto simp: validate_update_co_def split: if_splits)

lemma rekey_did_inv:
  assumes inv: "co_inv s" and co: "kget (cos_corporations s) i = Some co" and new: "kget (cos_by_did s) did = None"
  shows "co_inv (s\<lparr>cos_by_did := kset (kremove (cos_by_did s) (co_did co)) did i,
       cos_corporations := kset (cos_corporations s) i (co\<lparr>co_did := did, co_modified := now\<rparr>)\<rparr>)" (is "co_inv ?s")
proof -
  have "co_pol.index_ok (cos_corporations ?s) (cos_by_policy ?s)"
    using co_pol.index_ok_update [OF co_inv_policy [OF inv] co] by simp
  moreover have "co_didx.index_ok (cos_corporations ?s) (cos_by_did ?s)"
    using co_didx.index_ok_rekey [OF co_inv_did [OF inv] co, of "co\<lparr>co_did := did, co_modified := now\<rparr>"] new by simp
  moreover have "co_id x = j \<and> 0 < j \<and> j \<le> co_last_id ?s" if "kget (cos_corporations ?s) j = Some x" for j x
  proof (cases "j = i")
    case True
    then show ?thesis using that co_inv_id [OF inv co] by (auto simp: co_last_id_def)
  next
    case False
    then have "kget (cos_corporations s) j = Some x" using that by simp
    from co_inv_id [OF inv this] show ?thesis by (simp add: co_last_id_def)
  qed
  ultimately show ?thesis by (simp add: co_inv_def)
qed

lemma update_corporation_inv:
  assumes inv: "reg_inv t r" and now: "t \<le> se_block_time (re_sdk X)"
    and ok: "UpdateCorporation (re_sdk X) (re_de X) (rg_co r) m = Inr c'"
  shows "reg_inv (se_block_time (re_sdk X)) (r\<lparr>rg_co := c'\<rparr>)" (is "reg_inv ?now ?r")
proof -
  obtain i co where co: "kget (cos_corporations (rg_co r)) i = Some co" "validate_update_co (re_sdk X) m = Inr ()"
    and c': "c' = rg_co r \<or> \<not> khas (cos_by_did (rg_co r)) (uc_did m) \<and>
       c' = (rg_co r)\<lparr>cos_by_did := kset (kremove (cos_by_did (rg_co r)) (co_did co)) (uc_did m) (co_id co),
             cos_corporations := kset (cos_corporations (rg_co r)) (co_id co)
               (co\<lparr>co_did := uc_did m, co_modified := ?now\<rparr>)\<rparr>"
    using ok unfolding UpdateCorporation_ok_iff by (metis (full_types))
  have i: "co_id co = i" using co_inv_id [OF reg_invD(2) [OF inv] co(1)] by simp
  from c' show ?thesis
  proof
    assume "c' = rg_co r"
    then show ?thesis using reg_inv_mono [OF inv now] by simp
  next
    let ?co = "co\<lparr>co_did := uc_did m, co_modified := ?now\<rparr>"
    assume c: "\<not> khas (cos_by_did (rg_co r)) (uc_did m) \<and>
       c' = (rg_co r)\<lparr>cos_by_did := kset (kremove (cos_by_did (rg_co r)) (co_did co)) (uc_did m) (co_id co),
             cos_corporations := kset (cos_corporations (rg_co r)) (co_id co) ?co\<rparr>"
    then have "co_inv c'"
      using rekey_did_inv [OF reg_invD(2) [OF inv] co(1), of "uc_did m" ?now] by (simp add: i khas_def)
    moreover have get: "kget (cos_corporations c') j = (if j = i then Some ?co else kget (cos_corporations (rg_co r)) j)" for j
      using c by (simp add: kget_kset i)
    moreover have view: "subject_view ?r s = subject_view r s" for s
      using co(1) by (cases s) (simp_all add: subject_view_def get)
    have "frameworks_linked ?r"
      by (rule linked_grow [OF reg_invD(5) [OF inv] gf_okD(1) [OF reg_invD(4) [OF inv]]])
        (use gf_okD(1) [OF reg_invD(4) [OF inv]] view linked_owner [OF reg_invD(5) [OF inv]] in simp_all)
    moreover have "co_times_ok ?now c'"
    proof -
      have old: "co_times_ok ?now (rg_co r)" by (rule co_times_mono [OF reg_invD(6) [OF inv] now])
      have "co_policy_address co \<noteq> [] \<and> zero_time < co_created co \<and> co_created co \<le> ?now"
        using old co(1) unfolding co_times_ok_def by fastforce
      then show ?thesis using old validate_update_co_ok [OF co(2)]
        unfolding co_times_ok_def by (auto simp: get)
    qed
    moreover have "ec_times_ok ?now ?r"
      using ec_times_mono [OF reg_invD(7) [OF inv] now] unfolding ec_times_ok_def by (auto simp: get)
    ultimately show ?thesis using inv now by (simp add: reg_inv_def)
  qed
qed

section \<open>Ecosystem messages\<close>

lemma ec_authorize_ok_iff: "ec_authorize de cs now corporation operator mt = Inr co \<longleftrightarrow>
    CheckOperatorAuthorization (resolve_id cs) de corporation operator mt now = Inr () \<and>
    ResolveCorporationByPolicyAddress cs corporation = Inr co"
  unfolding ec_authorize_def bindE_unit_ok_iff liftE_ok_iff optE_ok_iff resolve_adapter ..

lemma owned_ecosystem_ok_iff: "owned_ecosystem s i co = Inr ec \<longleftrightarrow>
    kget (ecs_ecosystems s) i = Some ec \<and> ec_corporation_id ec = co_id co"
  by (auto simp: owned_ecosystem_def bindE_ok_iff optE_ok_iff)

definition new_ecosystem :: "nat \<Rightarrow> nat \<Rightarrow> msg_create_ec \<Rightarrow> time \<Rightarrow> ecosystem" where
  "new_ecosystem i c m now = \<lparr>ec_id = i, ec_did = ce_did m, ec_corporation_id = c, ec_created = now,
     ec_modified = now, ec_archived = False, ec_language = ce_language m, ec_active_version = 1\<rparr>"

lemma new_ecosystem_sel [simp]:
  "ec_id (new_ecosystem i c m now) = i" "ec_did (new_ecosystem i c m now) = ce_did m"
  "ec_corporation_id (new_ecosystem i c m now) = c" "ec_created (new_ecosystem i c m now) = now"
  "ec_modified (new_ecosystem i c m now) = now" "ec_language (new_ecosystem i c m now) = ce_language m"
  "ec_active_version (new_ecosystem i c m now) = 1"
  by (simp_all add: new_ecosystem_def)

definition add_ecosystem :: "ec_state \<Rightarrow> ecosystem \<Rightarrow> ec_state" where
  "add_ecosystem s e = s\<lparr>ecs_counter := kset (ecs_counter s) ''ec'' (Suc (ec_last_id s)),
     ecs_ecosystems := kset (ecs_ecosystems s) (Suc (ec_last_id s)) e,
     ecs_by_did_corp := kset (ecs_by_did_corp s) (ec_did e, ec_corporation_id e) (Suc (ec_last_id s))\<rparr>"

lemma add_ecosystem_get: "kget (ecs_ecosystems (add_ecosystem s e)) i =
    (if i = Suc (ec_last_id s) then Some e else kget (ecs_ecosystems s) i)"
  by (simp add: add_ecosystem_def kget_kset)

lemma ec_GetNextID_eq: "ec_GetNextID s ''ec'' =
    (Suc (ec_last_id s), s\<lparr>ecs_counter := kset (ecs_counter s) ''ec'' (Suc (ec_last_id s))\<rparr>)"
  by (simp add: ec_GetNextID_def ec_last_id_def Let_def)

lemma CreateEcosystem_ok_iff:
  "CreateEcosystem E parse de cs s gs m = Inr (i, s', gs') \<longleftrightarrow>
     validate_create_ec E parse m = Inr () \<and>
     (\<exists>co. ec_authorize de cs (se_block_time E) (ce_corporation m) (ce_operator m)
              ''/verana.ec.v1.MsgCreateEcosystem'' = Inr co \<and>
        assertDIDConsistent s (ce_did m) (co_id co) 0 \<and> i = Suc (ec_last_id s) \<and>
        \<not> khas (gfs_by_ecosystem gs) (i, 1) \<and>
        s' = add_ecosystem s (new_ecosystem i (co_id co) m (se_block_time E)) \<and>
        gs' = seed_version gs (SubjectEcosystem i) (se_block_time E) (ce_language m) (ce_doc_url m) (ce_doc_digest m))"
proof -
  have seed: "bindE (liftE Ec_Gf (CreateInitialGFVersionForEcosystem gs now (Suc k) l u d)) (\<lambda>g. Inr (Suc k, x, g)) =
      Inr (i, s', gs') \<longleftrightarrow> i = Suc k \<and> s' = x \<and> \<not> khas (gfs_by_ecosystem gs) (Suc k, 1) \<and>
      gs' = seed_version gs (SubjectEcosystem (Suc k)) now l u d" for now k l u d x
    by (auto simp: bindE_ok_iff liftE_ok_iff CreateInitialGFVersionForEcosystem_def)
  show ?thesis
    by (auto simp: CreateEcosystem_def bindE_unit_ok_iff bindE_ok_iff [of "ec_authorize _ _ _ _ _ _"]
        ec_GetNextID_eq Let_def seed put_ecosystem_def add_ecosystem_def new_ecosystem_def)
qed

lemma UpdateEcosystem_ok_iff:
  "UpdateEcosystem E de cs s m = Inr s' \<longleftrightarrow>
     validate_update_ec E m = Inr () \<and>
     (\<exists>co ec. ec_authorize de cs (se_block_time E) (ue_corporation m) (ue_operator m)
              ''/verana.ec.v1.MsgUpdateEcosystem'' = Inr co \<and>
        kget (ecs_ecosystems s) (ue_id m) = Some ec \<and> ec_corporation_id ec = co_id co \<and>
        (ec_did ec = ue_did m \<and> s' = s \<or>
         ec_did ec \<noteq> ue_did m \<and> assertDIDConsistent s (ue_did m) (co_id co) (ec_id ec) \<and>
         s' = put_ecosystem
            (s\<lparr>ecs_by_did_corp := kset (kremove (ecs_by_did_corp s) (ec_did ec, co_id co))
                                   (ue_did m, co_id co) (ec_id ec)\<rparr>)
            (ec\<lparr>ec_did := ue_did m, ec_modified := se_block_time E\<rparr>)))"
  unfolding UpdateEcosystem_def bindE_unit_ok_iff bindE_ok_iff owned_ecosystem_ok_iff if_guard_ok_iff
  by blast

lemma ArchiveEcosystem_ok_iff:
  "ArchiveEcosystem E de cs s m = Inr s' \<longleftrightarrow>
     validate_archive_ec E m = Inr () \<and>
     (\<exists>co ec. ec_authorize de cs (se_block_time E) (ae_corporation m) (ae_operator m)
              ''/verana.ec.v1.MsgArchiveEcosystem'' = Inr co \<and>
        kget (ecs_ecosystems s) (ae_id m) = Some ec \<and> ec_corporation_id ec = co_id co \<and>
        ec_archived ec \<noteq> ae_archive m \<and>
        s' = put_ecosystem s (ec\<lparr>ec_archived := ae_archive m, ec_modified := se_block_time E\<rparr>))"
  unfolding ArchiveEcosystem_def bindE_unit_ok_iff bindE_ok_iff owned_ecosystem_ok_iff if_Inl_ok_iff sum.inject
  by blast

lemma validate_create_ec_ok:
  assumes "validate_create_ec E parse m = Inr ()"
  shows "IsValidDID (ce_did m)" "ec_IsValidBCP47 (ce_language m)"
  using assms by (auto simp: validate_create_ec_def split: if_splits)

lemma validate_update_ec_ok: "validate_update_ec E m = Inr () \<Longrightarrow> IsValidDID (ue_did m)"
  by (auto simp: validate_update_ec_def split: if_splits)

lemma resolve_registered:
  assumes "co_inv s" "ResolveCorporationByPolicyAddress s a = Inr co"
  shows "kget (cos_corporations s) (co_id co) = Some co" "0 < co_id co"
  using assms resolve_iff co_inv_id by blast+

lemma create_ecosystem_inv:
  assumes inv: "reg_inv t r" and now: "t \<le> se_block_time (re_sdk X)"
    and ok: "CreateEcosystem (re_sdk X) (re_parse_uri X) (re_de X) (rg_co r) (rg_ec r) (rg_gf r) m = Inr (i, e', f')"
  shows "reg_inv (se_block_time (re_sdk X)) (r\<lparr>rg_ec := e', rg_gf := f'\<rparr>)" (is "reg_inv ?now ?r")
proof -
  obtain co where v: "validate_create_ec (re_sdk X) (re_parse_uri X) m = Inr ()"
    and co: "ResolveCorporationByPolicyAddress (rg_co r) (ce_corporation m) = Inr co"
    and i: "i = Suc (ec_last_id (rg_ec r))" and e': "e' = add_ecosystem (rg_ec r) (new_ecosystem i (co_id co) m ?now)"
    and f': "f' = seed_version (rg_gf r) (SubjectEcosystem i) ?now (ce_language m) (ce_doc_url m) (ce_doc_digest m)"
    using ok unfolding CreateEcosystem_ok_iff ec_authorize_ok_iff by blast
  note co = resolve_registered [OF reg_invD(2) [OF inv] co]
  note m = validate_create_ec_ok [OF v]
  have fresh: "kget (ecs_ecosystems (rg_ec r)) i = None"
    by (rule ec_inv_fresh [OF reg_invD(3) [OF inv]]) (simp add: i)
  have "ec_inv e'"
    unfolding e' add_ecosystem_def
    by (rule ec_inv_insert [OF reg_invD(3) [OF inv]]) (simp_all add: ec_wf_def co m i)
  moreover have view: "subject_view ?r s =
      (if s = SubjectEcosystem i then Some (ce_language m, 1) else subject_view r s)" for s
    by (cases s) (simp_all add: subject_view_def e' add_ecosystem_get i)
  moreover have gone: "subject_view r (SubjectEcosystem i) = None" using fresh by (simp add: subject_view_def)
  have "frameworks_linked ?r" "gf_ok (rg_gf ?r)"
    using linked_seed [OF reg_invD(5,4) [OF inv] _ gone ec_lang_imp_lang [OF m(2)], where r' = ?r, OF _ _ view] f' i
    by auto
  moreover have "ec_times_ok ?now ?r"
    using ec_times_mono [OF reg_invD(7) [OF inv] now] reg_invD(1) [OF inv] now co(1)
    unfolding ec_times_ok_def e' by (auto simp: add_ecosystem_get)
  moreover have "co_times_ok ?now (rg_co r)" by (rule co_times_mono [OF reg_invD(6) [OF inv] now])
  ultimately show ?thesis using inv now by (simp add: reg_inv_def)
qed

text \<open>An ecosystem record replaced by one of the same subject data.\<close>

lemma replace_ecosystem_inv:
  assumes inv: "reg_inv t r" and now: "t \<le> now" and e: "kget (ecs_ecosystems (rg_ec r)) i = Some e"
    and x: "ec_inv x" "\<And>j. kget (ecs_ecosystems x) j = (if j = i then Some e' else kget (ecs_ecosystems (rg_ec r)) j)"
    and same: "ec_corporation_id e' = ec_corporation_id e" "ec_created e' = ec_created e"
      "ec_language e' = ec_language e" "ec_active_version e' = ec_active_version e" "ec_modified e' = now"
  shows "reg_inv now (r\<lparr>rg_ec := x\<rparr>)" (is "reg_inv _ ?r")
proof -
  have view: "subject_view ?r s = subject_view r s" for s
    using e by (cases s) (simp_all add: subject_view_def x(2) same)
  have "frameworks_linked ?r"
    by (rule linked_grow [OF reg_invD(5) [OF inv] gf_okD(1) [OF reg_invD(4) [OF inv]]])
      (use gf_okD(1) [OF reg_invD(4) [OF inv]] view linked_owner [OF reg_invD(5) [OF inv]] in simp_all)
  moreover have "ec_times_ok now ?r"
  proof -
    have old: "ec_times_ok now r" by (rule ec_times_mono [OF reg_invD(7) [OF inv] now])
    then have "kget (cos_corporations (rg_co r)) (ec_corporation_id e) \<noteq> None \<and> zero_time < ec_created e \<and>
        ec_created e \<le> now"
      using e unfolding ec_times_ok_def by fastforce
    then show ?thesis using old unfolding ec_times_ok_def by (auto simp: x(2) same)
  qed
  moreover have "co_times_ok now (rg_co r)" by (rule co_times_mono [OF reg_invD(6) [OF inv] now])
  ultimately show ?thesis using inv now x(1) by (simp add: reg_inv_def)
qed

lemma rekey_ecosystem_inv:
  assumes inv: "ec_inv s" and e: "kget (ecs_ecosystems s) i = Some e" and d: "IsValidDID d" "d \<noteq> ec_did e"
  shows "ec_inv (s\<lparr>ecs_by_did_corp := kset (kremove (ecs_by_did_corp s) (ec_did e, ec_corporation_id e))
            (d, ec_corporation_id e) i,
       ecs_ecosystems := kset (ecs_ecosystems s) i (e\<lparr>ec_did := d, ec_modified := now\<rparr>)\<rparr>)" (is "ec_inv ?s")
proof (rule ec_invI)
  fix j x
  assume "kget (ecs_ecosystems ?s) j = Some x"
  then have "(if j = i then Some (e\<lparr>ec_did := d, ec_modified := now\<rparr>) else kget (ecs_ecosystems s) j) = Some x"
    by (simp add: kget_kset)
  then consider "j = i" "x = e\<lparr>ec_did := d, ec_modified := now\<rparr>" | "kget (ecs_ecosystems s) j = Some x"
    by (metis option.inject)
  then show "ec_id x = j \<and> 0 < j \<and> j \<le> ec_last_id ?s \<and> ec_wf x"
  proof cases
    case 1
    then show ?thesis using ec_inv_id [OF inv e] d(1) by (auto simp: ec_last_id_def ec_wf_def)
  next
    case 2
    show ?thesis using ec_inv_id [OF inv 2] by (auto simp: ec_last_id_def)
  qed
next
  fix a c j
  assume "kget (ecs_by_did_corp ?s) (a, c) = Some j"
  then have "(if (a, c) = (d, ec_corporation_id e) then Some i
      else if (a, c) = (ec_did e, ec_corporation_id e) then None else kget (ecs_by_did_corp s) (a, c)) = Some j"
    by (simp add: kget_kset kget_kremove cong: if_cong)
  then consider "a = d" "c = ec_corporation_id e" "j = i"
    | "(a, c) \<noteq> (ec_did e, ec_corporation_id e)" "kget (ecs_by_did_corp s) (a, c) = Some j"
    by (metis option.distinct(1) option.inject prod.inject)
  then show "\<exists>x. kget (ecs_ecosystems ?s) j = Some x \<and> ec_did x = a \<and> ec_corporation_id x = c"
  proof cases
    case 2
    then obtain x where "kget (ecs_ecosystems s) j = Some x" "ec_did x = a" "ec_corporation_id x = c"
      using ec_inv_index [OF inv 2(2)] by blast
    moreover from this have "j \<noteq> i" using 2(1) e by auto
    ultimately show ?thesis by simp
  qed simp
qed

lemma update_ecosystem_inv:
  assumes inv: "reg_inv t r" and now: "t \<le> se_block_time (re_sdk X)"
    and ok: "UpdateEcosystem (re_sdk X) (re_de X) (rg_co r) (rg_ec r) m = Inr e'"
  shows "reg_inv (se_block_time (re_sdk X)) (r\<lparr>rg_ec := e'\<rparr>)" (is "reg_inv ?now ?r")
proof -
  obtain co ec where v: "validate_update_ec (re_sdk X) m = Inr ()"
    and "ec_authorize (re_de X) (rg_co r) ?now (ue_corporation m) (ue_operator m)
           ''/verana.ec.v1.MsgUpdateEcosystem'' = Inr co"
    and ec: "kget (ecs_ecosystems (rg_ec r)) (ue_id m) = Some ec" "ec_corporation_id ec = co_id co"
    and e': "ec_did ec = ue_did m \<and> e' = rg_ec r \<or> ec_did ec \<noteq> ue_did m \<and>
         assertDIDConsistent (rg_ec r) (ue_did m) (co_id co) (ec_id ec) \<and> e' = put_ecosystem
            ((rg_ec r)\<lparr>ecs_by_did_corp := kset (kremove (ecs_by_did_corp (rg_ec r)) (ec_did ec, co_id co))
                                   (ue_did m, co_id co) (ec_id ec)\<rparr>)
            (ec\<lparr>ec_did := ue_did m, ec_modified := ?now\<rparr>)"
    using ok unfolding UpdateEcosystem_ok_iff by (elim conjE exE) (rule that, assumption+)
  have i: "ec_id ec = ue_id m" using ec_inv_id [OF reg_invD(3) [OF inv] ec(1)] by simp
  from e' show ?thesis
  proof
    assume "ec_did ec = ue_did m \<and> e' = rg_ec r"
    then show ?thesis using reg_inv_mono [OF inv now] by simp
  next
    let ?e = "ec\<lparr>ec_did := ue_did m, ec_modified := ?now\<rparr>"
    assume a: "ec_did ec \<noteq> ue_did m \<and>
         assertDIDConsistent (rg_ec r) (ue_did m) (co_id co) (ec_id ec) \<and> e' = put_ecosystem
            ((rg_ec r)\<lparr>ecs_by_did_corp := kset (kremove (ecs_by_did_corp (rg_ec r)) (ec_did ec, co_id co))
                                   (ue_did m, co_id co) (ec_id ec)\<rparr>) ?e"
    then have "ec_inv e'"
      using rekey_ecosystem_inv [OF reg_invD(3) [OF inv] ec(1) validate_update_ec_ok [OF v], where now = ?now]
      by (auto simp: put_ecosystem_def i ec(2))
    then show ?thesis
      by (rule replace_ecosystem_inv [OF inv now ec(1), where e' = ?e]) (use a i in \<open>simp_all add: put_ecosystem_def kget_kset\<close>)
  qed
qed

lemma archive_ecosystem_inv:
  assumes inv: "reg_inv t r" and now: "t \<le> se_block_time (re_sdk X)"
    and ok: "ArchiveEcosystem (re_sdk X) (re_de X) (rg_co r) (rg_ec r) m = Inr e'"
  shows "reg_inv (se_block_time (re_sdk X)) (r\<lparr>rg_ec := e'\<rparr>)" (is "reg_inv ?now ?r")
proof -
  obtain ec where ec: "kget (ecs_ecosystems (rg_ec r)) (ae_id m) = Some ec"
    and e': "e' = put_ecosystem (rg_ec r) (ec\<lparr>ec_archived := ae_archive m, ec_modified := ?now\<rparr>)"
    using ok unfolding ArchiveEcosystem_ok_iff by blast
  have i: "ec_id ec = ae_id m" "ec_wf ec" using ec_inv_id [OF reg_invD(3) [OF inv] ec] by simp_all
  have "ec_inv e'"
    unfolding e' put_ecosystem_def
    using ec_inv_modify [OF reg_invD(3) [OF inv] ec, of "ec\<lparr>ec_archived := ae_archive m, ec_modified := ?now\<rparr>"] i
    by (simp add: ec_wf_def)
  then show ?thesis
    by (rule replace_ecosystem_inv [OF inv now ec, where e' = "ec\<lparr>ec_archived := ae_archive m, ec_modified := ?now\<rparr>"])
      (use i in \<open>simp_all add: e' put_ecosystem_def kget_kset\<close>)
qed

section \<open>Governance-framework messages\<close>

lemma resolveSubject_ok:
  assumes inv: "co_inv (rg_co r)" "ec_inv (rg_ec r)"
    and ok: "resolveSubject (rg_co r) (rg_ec r) corp eid = Inr sub"
  shows "subject_view r (sj_owner sub) = Some (sj_language sub, sj_active_version sub)"
    and "\<exists>co. ResolveCorporationByPolicyAddress (rg_co r) corp = Inr co \<and>
      (case sj_owner sub of SubjectCorporation c \<Rightarrow> eid = 0 \<and> c = co_id co
       | SubjectEcosystem e \<Rightarrow> e = eid \<and> eid \<noteq> 0 \<and>
           (\<exists>x. kget (ecs_ecosystems (rg_ec r)) e = Some x \<and> ec_corporation_id x = co_id co))"
proof -
  obtain co where co: "ResolveCorporationByPolicyAddress (rg_co r) corp = Inr co"
    and c: "eid = 0 \<and> sub = \<lparr>sj_owner = SubjectCorporation (co_id co), sj_language = co_language co,
              sj_active_version = co_active_version co\<rparr> \<or>
       eid \<noteq> 0 \<and> (\<exists>x. kget (ecs_ecosystems (rg_ec r)) eid = Some x \<and> ec_corporation_id x = co_id co \<and>
          sub = \<lparr>sj_owner = SubjectEcosystem (ec_id x), sj_language = ec_language x,
                 sj_active_version = ec_active_version x\<rparr>)"
    using ok by (auto simp: resolveSubject_def resolve_adapter GetEcosystemView_def split: option.splits if_splits)
  from c show "subject_view r (sj_owner sub) = Some (sj_language sub, sj_active_version sub)"
    using resolve_registered [OF inv(1) co] ec_inv_id [OF inv(2), of eid] by (auto simp: subject_view_def)
  from c co show "\<exists>co. ResolveCorporationByPolicyAddress (rg_co r) corp = Inr co \<and>
      (case sj_owner sub of SubjectCorporation c \<Rightarrow> eid = 0 \<and> c = co_id co
       | SubjectEcosystem e \<Rightarrow> e = eid \<and> eid \<noteq> 0 \<and>
           (\<exists>x. kget (ecs_ecosystems (rg_ec r)) e = Some x \<and> ec_corporation_id x = co_id co))"
    using ec_inv_id [OF inv(2), of eid] by auto
qed

text \<open>Under the invariant a document is added exactly to the next version or to one that
  exists and is not active yet.\<close>

definition addable :: "gf_state \<Rightarrow> resolved_subject \<Rightarrow> int \<Rightarrow> bool" where
  "addable s sub v \<longleftrightarrow> 1 \<le> v \<and> v < 2 ^ 32 \<and> v \<le> gf_max s (sj_owner sub) + 1 \<and> sj_active_version sub < v"

definition with_version :: "gf_state \<Rightarrow> subject \<Rightarrow> time \<Rightarrow> int \<Rightarrow> nat \<times> gf_state" where
  "with_version s sub now v = (case gf_lookup s sub v of
     Some i \<Rightarrow> (i, s)
   | None \<Rightarrow> (Suc (gf_last_id s ''gfv''), add_version s sub now v zero_time))"

lemma target_version_with:
  assumes "gf_versions_ok s"
  shows "\<exists>g. target_version s sub now v (gf_lookup s sub v) = Inr (g, snd (with_version s sub now v)) \<and>
      gv_id g = fst (with_version s sub now v)"
proof (cases "gf_lookup s sub v")
  case None
  then show ?thesis by (simp add: target_version_new with_version_def)
next
  case (Some i)
  show ?thesis using Some by (auto intro: target_version_old [OF assms Some] simp: with_version_def)
qed

lemma u32_next: "0 \<le> m \<Longrightarrow> m < 2 ^ 32 \<Longrightarrow> 1 \<le> v \<Longrightarrow> v = u32 (m + 1) \<longleftrightarrow> v = m + 1 \<and> v < 2 ^ 32"
  by (cases "m + 1 = 2 ^ 32") (auto simp: u32_def)

lemma AddDocument_ok_iff:
  assumes inv: "gf_ok s"
  shows "AddGovernanceFrameworkDocument parse de cs es now s m = Inr s' \<longleftrightarrow>
     validate_add_gfd parse m = Inr () \<and>
     CheckOperatorAuthorization (resolve_id cs) de (ag_corporation m) (ag_operator m)
        ''/verana.gf.v1.MsgAddGovernanceFrameworkDocument'' now = Inr () \<and>
     (\<exists>sub. resolveSubject cs es (ag_corporation m) (ag_ecosystem_id m) = Inr sub \<and>
        addable s sub (ag_version m) \<and>
        s' = (let (i, s1) = with_version s (sj_owner sub) now (ag_version m)
              in upsert_document s1 i now (ag_language m) (ag_url m) (ag_digest m)))"
proof -
  note ok = gf_okD(1) [OF inv]
  have v1: "1 \<le> ag_version m" if "validate_add_gfd parse m = Inr ()"
    using that by (auto simp: validate_add_gfd_def split: if_splits)
  have guard: "\<not> (gf_lookup s (sj_owner sub) v = None \<and> v \<noteq> u32 (gf_max s (sj_owner sub) + 1)) \<and>
      \<not> v \<le> sj_active_version sub \<longleftrightarrow> addable s sub v" if "1 \<le> v" for sub v
    using that gf_max_iff [OF ok, of "sj_owner sub" v] gf_max_nonneg [of s "sj_owner sub"]
      gf_max_less [OF ok, of "sj_owner sub"] u32_next [of "gf_max s (sj_owner sub)" v]
    by (auto simp: addable_def)
  have target: "bindE (target_version s o' now v (gf_lookup s o' v)) (\<lambda>(g, s1). Inr (upsert_document s1 (gv_id g) now l u d)) =
      Inr (let (i, s1) = with_version s o' now v in upsert_document s1 i now l u d)" for o' v l u d
    using target_version_with [OF ok, of o' now v] by (auto simp: case_prod_unfold Let_def)
  have body: "(let (maxV, existing) = maxVersionFor s (sj_owner sub) (ag_version m) in
      if existing = None \<and> ag_version m \<noteq> u32 (maxV + 1) then Inl Gf_Invalid_Version
      else if ag_version m \<le> sj_active_version sub then Inl Gf_Invalid_Version
      else bindE (target_version s (sj_owner sub) now (ag_version m) existing) (\<lambda>(g, s1).
        Inr (upsert_document s1 (gv_id g) now (ag_language m) (ag_url m) (ag_digest m)))) = Inr s' \<longleftrightarrow>
      addable s sub (ag_version m) \<and> s' = (let (i, s1) = with_version s (sj_owner sub) now (ag_version m)
              in upsert_document s1 i now (ag_language m) (ag_url m) (ag_digest m))"
    if "1 \<le> ag_version m" for sub
    unfolding maxVersionFor_eq [OF ok] Let_def prod.case target [unfolded Let_def] guard [OF that, symmetric]
    by (simp only: if_Inl_ok_iff sum.inject) blast
  show ?thesis
  proof (cases "validate_add_gfd parse m = Inr ()")
    case True
    show ?thesis
      unfolding AddGovernanceFrameworkDocument_def bindE_unit_ok_iff liftE_ok_iff
        bindE_ok_iff [of "resolveSubject _ _ _ _"] body [OF v1 [OF True]] by blast
  qed (simp add: AddGovernanceFrameworkDocument_def bindE_unit_ok_iff)
qed

text \<open>The state after an accepted document: only the next version can be new, every
  version that existed is as it was, and only the document of that version and language
  differs.\<close>

lemma add_document_effect:
  assumes inv: "gf_ok s" and sub: "0 < subject_id (sj_owner sub)" and a: "addable s sub v"
    and lang: "IsValidBCP47 lang"
    and t: "t = (let (i, s1) = with_version s (sj_owner sub) now v in upsert_document s1 i now lang url digest)"
  shows "gf_ok t"
    and "gf_lookup s o' w = Some j \<Longrightarrow> gf_lookup t o' w = Some j"
    and "kget (gfs_versions s) j = Some g \<Longrightarrow> kget (gfs_versions t) j = Some g"
    and "kget (gfs_versions t) j = Some g \<Longrightarrow> kget (gfs_versions s) j = Some g \<or> gv_owner g = sj_owner sub"
    and "gf_max t o' = (if o' = sj_owner sub then max v (gf_max s o') else gf_max s o')"
    and "\<exists>i d. gf_lookup t (sj_owner sub) v = Some i \<and> find_document t i lang = Some d \<and>
          gd_url d = url \<and> gd_digest_sri d = digest"
    and "find_document s j l \<noteq> None \<Longrightarrow> find_document t j l \<noteq> None"
    and "gf_lookup t (sj_owner sub) v \<noteq> Some j \<or> l \<noteq> lang \<Longrightarrow> find_document t j l = find_document s j l"
    and "gf_lookup t (sj_owner sub) v \<noteq> Some (gd_gfv_id d) \<Longrightarrow>
          kget (gfs_documents t) k = Some d \<longleftrightarrow> kget (gfs_documents s) k = Some d"
proof -
  let ?o = "sj_owner sub"
  obtain i s1 where w: "with_version s ?o now v = (i, s1)" by fastforce
  have t': "t = upsert_document s1 i now lang url digest" by (simp add: t w)
  have v: "v < 2 ^ 32" "v \<le> gf_max s ?o + 1" "1 \<le> v" using a by (simp_all add: addable_def)
  note vs = gf_okD(1) [OF inv] and ds = gf_okD(2) [OF inv]
  have s1: "gf_versions_ok s1 \<and> gf_documents_ok s1 \<and> gfs_documents s1 = gfs_documents s \<and>
      gf_lookup s1 ?o v = Some i \<and>
      (\<forall>o' w. gf_lookup s1 o' w = (if o' = ?o \<and> w = v then Some i else gf_lookup s o' w)) \<and>
      (\<forall>j g. kget (gfs_versions s) j = Some g \<longrightarrow> kget (gfs_versions s1) j = Some g) \<and>
      (\<forall>j g. kget (gfs_versions s1) j = Some g \<longrightarrow> kget (gfs_versions s) j = Some g \<or> gv_owner g = ?o) \<and>
      (gf_lookup s ?o v \<noteq> Some i \<longrightarrow> kget (gfs_versions s) i = None)"
  proof (cases "gf_lookup s ?o v")
    case None
    then have s1: "i = Suc (gf_last_id s ''gfv'')" "s1 = add_version s ?o now v zero_time"
      using w by (simp_all add: with_version_def)
    have "v = gf_max s ?o + 1" using None gf_max_iff [OF vs, of ?o v] v by linarith
    then have "gf_versions_ok s1" unfolding s1 by (rule add_version_ok [OF vs sub _ v(1)])
    moreover have "gf_documents_ok s1" unfolding s1 by (rule add_version_documents_ok [OF ds])
    ultimately show ?thesis using gf_version_fresh [OF vs] sub by (auto simp: s1 kget_kset)
  next
    case (Some j)
    then show ?thesis using w vs ds by (auto simp: with_version_def)
  qed
  then have look: "gf_lookup s1 o' w = (if o' = ?o \<and> w = v then Some i else gf_lookup s o' w)" for o' w by blast
  have "kget (gfs_versions s1) i \<noteq> None" using s1 gf_lookup_iff [of s1 ?o v i] by auto
  note up = upsert_document_spec [OF conjunct1 [OF conjunct2 [OF s1]] this lang, where now = now and url = url
      and digest = digest, folded t']
  have ver: "gf_versions_ok t" by (rule versions_ok_cong [OF conjunct1 [OF s1] up(2,3,4)])
  then show "gf_ok t" using up(1) by (simp add: gf_ok_def)
  have keep: "gf_lookup t o' w = Some j" if "gf_lookup s o' w = Some j" for o' w j
  proof (cases "o' = ?o \<and> w = v")
    case True
    then have "i = j" using that w by (simp add: with_version_def)
    then show ?thesis using True look up(3) by simp
  qed (use look up(3) that in auto)
  then show "gf_lookup s o' w = Some j \<Longrightarrow> gf_lookup t o' w = Some j" .
  show "kget (gfs_versions s) j = Some g \<Longrightarrow> kget (gfs_versions t) j = Some g" using s1 up(2) by simp
  show "kget (gfs_versions t) j = Some g \<Longrightarrow> kget (gfs_versions s) j = Some g \<or> gv_owner g = ?o"
    using s1 up(2) by simp
  have maxs: "gf_lookup t o' w \<noteq> None \<longleftrightarrow> 1 \<le> w \<and> w \<le> (if o' = ?o then max v (gf_max s o') else gf_max s o')" for w
    using gf_max_iff [OF vs, of o' w] look [of o' w] up(3) [of o' w] v by (auto split: if_splits)
  show "gf_max t o' = (if o' = ?o then max v (gf_max s o') else gf_max s o')"
  proof -
    have "1 \<le> w \<and> w \<le> gf_max t o' \<longleftrightarrow> 1 \<le> w \<and> w \<le> (if o' = ?o then max v (gf_max s o') else gf_max s o')" for w
      using maxs gf_max_iff [OF ver, of o' w] by simp
    from this [of "gf_max t o'"] this [of "if o' = ?o then max v (gf_max s o') else gf_max s o'"]
    show ?thesis using gf_max_nonneg [of t o'] gf_max_nonneg [of s o'] v by (auto split: if_splits)
  qed
  show "\<exists>i d. gf_lookup t ?o v = Some i \<and> find_document t i lang = Some d \<and> gd_url d = url \<and> gd_digest_sri d = digest"
    using up(5) up(3) look [of ?o v] by auto
  have docs: "kget (gfs_documents t) k = Some d" if "kget (gfs_documents s) k = Some d"
      "(gd_gfv_id d, gd_language d) \<noteq> (i, lang)" for k d
    using up(6) [OF that(2)] that(1) s1 by simp
  show "find_document s j l \<noteq> None \<Longrightarrow> find_document t j l \<noteq> None"
  proof (cases "j = i \<and> l = lang")
    case True
    then show ?thesis using up(5) by auto
  next
    case False
    assume "find_document s j l \<noteq> None"
    then obtain k d where "kget (gfs_documents s) k = Some d" "gd_gfv_id d = j" "gd_language d = l"
      unfolding find_document_None by blast
    then show ?thesis unfolding find_document_None using docs [of k d] False by auto
  qed
  have top: "gf_lookup t ?o v = Some i" using look [of ?o v] up(3) by simp
  show "gf_lookup t ?o v \<noteq> Some (gd_gfv_id d) \<Longrightarrow>
      kget (gfs_documents t) k = Some d \<longleftrightarrow> kget (gfs_documents s) k = Some d"
    using up(6) [of d k] s1 top by auto
  assume k: "gf_lookup t ?o v \<noteq> Some j \<or> l \<noteq> lang"
  show "find_document t j l = find_document s j l"
  proof (rule find_document_cong [OF up(1) ds])
    fix k and d :: gf_document
    assume "gd_gfv_id d = j" "gd_language d = l"
    then have "(gd_gfv_id d, gd_language d) \<noteq> (i, lang)" using k top by auto
    from up(6) [OF this] show "kget (gfs_documents t) k = Some d \<longleftrightarrow> kget (gfs_documents s) k = Some d"
      using s1 by simp
  qed
qed

lemma validate_add_gfd_ok: "validate_add_gfd parse m = Inr () \<Longrightarrow> IsValidBCP47 (ag_language m)"
  by (auto simp: validate_add_gfd_def split: if_splits)

lemma add_gf_document_inv:
  assumes inv: "reg_inv t r" and now: "t \<le> now"
    and ok: "AddGovernanceFrameworkDocument parse de (rg_co r) (rg_ec r) now' (rg_gf r) m = Inr f'"
  shows "reg_inv now (r\<lparr>rg_gf := f'\<rparr>)" (is "reg_inv _ ?r")
proof -
  note gf = reg_invD(4) [OF inv]
  obtain sub where v: "validate_add_gfd parse m = Inr ()"
    and sub: "resolveSubject (rg_co r) (rg_ec r) (ag_corporation m) (ag_ecosystem_id m) = Inr sub"
    and a: "addable (rg_gf r) sub (ag_version m)"
    and f': "f' = (let (i, s1) = with_version (rg_gf r) (sj_owner sub) now' (ag_version m)
              in upsert_document s1 i now' (ag_language m) (ag_url m) (ag_digest m))"
    using ok unfolding AddDocument_ok_iff [OF gf] by blast
  have view: "subject_view r (sj_owner sub) = Some (sj_language sub, sj_active_version sub)"
    by (rule resolveSubject_ok(1) [OF reg_invD(2,3) [OF inv] sub])
  then have pos: "0 < subject_id (sj_owner sub)" using linked_active [OF reg_invD(5) [OF inv]] by blast
  note eff = add_document_effect [OF gf pos a validate_add_gfd_ok [OF v] f']
  have same: "subject_view ?r s = subject_view r s" for s by (cases s) (simp_all add: subject_view_def)
  have "frameworks_linked ?r"
  proof (rule linked_grow [OF reg_invD(5) [OF inv] gf_okD(1) [OF gf]])
    show "gf_versions_ok (rg_gf ?r)" using gf_okD(1) [OF eff(1)] by simp
    show "subject_view r (gv_owner g) \<noteq> None" if "kget (gfs_versions (rg_gf ?r)) i = Some g" for i g
    proof -
      have "kget (gfs_versions f') i = Some g" using that by simp
      from eff(4) [OF this] show ?thesis using linked_owner [OF reg_invD(5) [OF inv]] view by auto
    qed
  qed (use same eff(2,7) in simp_all)
  moreover have "co_times_ok now (rg_co r)" by (rule co_times_mono [OF reg_invD(6) [OF inv] now])
  moreover have "ec_times_ok now ?r"
    using ec_times_mono [OF reg_invD(7) [OF inv] now] by (simp add: ec_times_ok_def)
  ultimately show ?thesis using inv now eff(1) by (simp add: reg_inv_def)
qed

lemma Increase_ok_iff:
  "IncreaseActiveGovernanceFrameworkVersion de cs es now s m = Inr (s', cs', es') \<longleftrightarrow>
     validate_increase_gfv m = Inr () \<and>
     CheckOperatorAuthorization (resolve_id cs) de (ig_corporation m) (ig_operator m)
        ''/verana.gf.v1.MsgIncreaseActiveGovernanceFrameworkVersion'' now = Inr () \<and>
     (\<exists>sub i g. resolveSubject cs es (ig_corporation m) (ig_ecosystem_id m) = Inr sub \<and>
        gf_lookup s (sj_owner sub) (u32 (sj_active_version sub + 1)) = Some i \<and>
        kget (gfs_versions s) i = Some g \<and> find_document s (gv_id g) (sj_language sub) \<noteq> None \<and>
        set_active_version cs es (sj_owner sub) (u32 (sj_active_version sub + 1)) now = Inr (cs', es') \<and>
        s' = s\<lparr>gfs_versions := kset (gfs_versions s) (gv_id g) (g\<lparr>gv_active_since := now\<rparr>)\<rparr>)"
proof -
  have set: "bindE (set_active_version cs es o' v now) (\<lambda>(c, e). Inr (x, c, e)) = Inr (s', cs', es') \<longleftrightarrow>
      set_active_version cs es o' v now = Inr (cs', es') \<and> s' = x" for o' v x
    by (auto simp: bindE_ok_iff)
  show ?thesis
    unfolding IncreaseActiveGovernanceFrameworkVersion_def bindE_unit_ok_iff liftE_ok_iff Let_def
    by (auto simp: bindE_ok_iff [of "resolveSubject _ _ _ _"] bindE_ok_iff [of "optE _ _"] optE_ok_iff set)
qed

lemma set_active_version_ok:
  assumes "set_active_version (rg_co r) (rg_ec r) sub v now = Inr (c', e')"
  obtains (corporation) c co where "sub = SubjectCorporation c" "kget (cos_corporations (rg_co r)) c = Some co"
      "c' = (rg_co r)\<lparr>cos_corporations := kset (cos_corporations (rg_co r)) (co_id co)
              (co\<lparr>co_active_version := v, co_modified := now\<rparr>)\<rparr>" "e' = rg_ec r"
      "co_SetActiveVersion (rg_co r) c v now = Inr c'"
  | (ecosystem) e ec where "sub = SubjectEcosystem e" "kget (ecs_ecosystems (rg_ec r)) e = Some ec"
      "e' = (rg_ec r)\<lparr>ecs_ecosystems := kset (ecs_ecosystems (rg_ec r)) (ec_id ec)
              (ec\<lparr>ec_active_version := v, ec_modified := now\<rparr>)\<rparr>" "c' = rg_co r"
  using assms
  by (cases sub) (auto simp: set_active_version_def bindE_ok_iff optE_ok_iff liftE_ok_iff
      SetEcosystemActiveVersion_def co_SetActiveVersion_def split: option.splits)

text \<open>Raising the active version of one subject by one.\<close>

lemma linked_activate:
  assumes r: "frameworks_linked r" "gf_ok (rg_gf r)"
    and view: "subject_view r sub = Some (lang, a)"
    and look: "gf_lookup (rg_gf r) sub (a + 1) = Some i" and doc: "find_document (rg_gf r) i lang \<noteq> None"
    and g: "kget (gfs_versions (rg_gf r)) i = Some g"
    and gf': "rg_gf r' = (rg_gf r)\<lparr>gfs_versions := kset (gfs_versions (rg_gf r)) i (g\<lparr>gv_active_since := now\<rparr>)\<rparr>"
    and view': "\<And>s. subject_view r' s = (if s = sub then Some (lang, a + 1) else subject_view r s)"
  shows "frameworks_linked r'"
proof (rule frameworks_linkedI)
  fix j x
  assume "kget (gfs_versions (rg_gf r')) j = Some x"
  then have "gv_owner x = gv_owner g \<and> j = i \<or> kget (gfs_versions (rg_gf r)) j = Some x"
    by (auto simp: gf' kget_kset gv_owner_def split: if_splits)
  then have "subject_view r (gv_owner x) \<noteq> None" using linked_owner [OF r(1)] g by auto
  then show "subject_view r' (gv_owner x) \<noteq> None" by (simp add: view')
next
  fix s l b
  assume s: "subject_view r' s = Some (l, b)"
  have find: "find_document (rg_gf r') j l' = find_document (rg_gf r) j l'" for j l'
    by (simp add: gf' find_document_def)
  show "0 < subject_id s \<and> gf_lookup (rg_gf r') s b \<noteq> None \<and> IsValidBCP47 l"
  proof (cases "s = sub")
    case True
    then show ?thesis using s look linked_active [OF r(1) view] by (simp add: view' gf')
  next
    case False
    then have "subject_view r s = Some (l, b)" using s by (simp add: view')
    from linked_active [OF r(1) this] show ?thesis by (simp add: gf')
  qed
  fix w j
  assume w: "w \<le> b" "gf_lookup (rg_gf r') s w = Some j"
  show "find_document (rg_gf r') j l \<noteq> None"
  proof (cases "s = sub \<and> w = a + 1")
    case True
    then show ?thesis using s w look doc unfolding find by (simp add: view' gf')
  next
    case False
    then have "\<exists>b'. subject_view r s = Some (l, b') \<and> w \<le> b'" using s w(1) view by (auto simp: view' split: if_splits)
    then show ?thesis unfolding find using linked_document [OF r(1)] w(2) by (auto simp: gf')
  qed
qed

lemma increase_version_inv:
  assumes inv: "reg_inv t r" and now: "t \<le> now"
    and ok: "IncreaseActiveGovernanceFrameworkVersion de (rg_co r) (rg_ec r) now (rg_gf r) m = Inr (f', c', e')"
  shows "reg_inv now \<lparr>rg_co = c', rg_ec = e', rg_gf = f'\<rparr>" (is "reg_inv _ ?r")
proof -
  note gf = reg_invD(4) [OF inv]
  obtain sub i g where sub: "resolveSubject (rg_co r) (rg_ec r) (ig_corporation m) (ig_ecosystem_id m) = Inr sub"
    and i: "gf_lookup (rg_gf r) (sj_owner sub) (u32 (sj_active_version sub + 1)) = Some i"
    and g: "kget (gfs_versions (rg_gf r)) i = Some g" and doc: "find_document (rg_gf r) (gv_id g) (sj_language sub) \<noteq> None"
    and set: "set_active_version (rg_co r) (rg_ec r) (sj_owner sub) (u32 (sj_active_version sub + 1)) now = Inr (c', e')"
    and f': "f' = (rg_gf r)\<lparr>gfs_versions := kset (gfs_versions (rg_gf r)) (gv_id g) (g\<lparr>gv_active_since := now\<rparr>)\<rparr>"
    using ok unfolding Increase_ok_iff by blast
  let ?a = "sj_active_version sub"
  have view: "subject_view r (sj_owner sub) = Some (sj_language sub, ?a)"
    by (rule resolveSubject_ok(1) [OF reg_invD(2,3) [OF inv] sub])
  have gid: "gv_id g = i" using gf_version_ok [OF gf_okD(1) [OF gf] g] by simp
  have "1 \<le> ?a \<and> ?a < 2 ^ 32"
    using linked_active [OF reg_invD(5) [OF inv] view] gf_lookup_range [OF gf_okD(1) [OF gf]] by blast
  moreover have "1 \<le> u32 (?a + 1)" using gf_lookup_range [OF gf_okD(1) [OF gf]] i by blast
  ultimately have u: "u32 (?a + 1) = ?a + 1" by (cases "?a + 1 = 2 ^ 32") (auto simp: u32_def)
  have "gf_ok f'" using activate_ok [OF gf g] by (simp add: f' gid)
  have cov: "co_times_ok now (rg_co r)" by (rule co_times_mono [OF reg_invD(6) [OF inv] now])
  have ecv: "ec_times_ok now r" by (rule ec_times_mono [OF reg_invD(7) [OF inv] now])
  from set show ?thesis
  proof (cases rule: set_active_version_ok)
    case (corporation c co)
    have cid: "co_id co = c" using co_inv_id [OF reg_invD(2) [OF inv] corporation(2)] by simp
    have get: "kget (cos_corporations c') j = (if j = c then Some (co\<lparr>co_active_version := ?a + 1, co_modified := now\<rparr>)
        else kget (cos_corporations (rg_co r)) j)" for j
      by (simp add: corporation(3) kget_kset cid u)
    have l: "co_language co = sj_language sub" using view corporation(1,2) by (simp add: subject_view_def)
    have "subject_view ?r s = (if s = sj_owner sub then Some (sj_language sub, ?a + 1) else subject_view r s)" for s
      using l by (cases s) (simp_all add: subject_view_def get corporation(1,4))
    then have "frameworks_linked ?r"
      using linked_activate [OF reg_invD(5) [OF inv] gf view, of i g ?r now] i g doc f' by (simp add: u gid)
    moreover have "co_inv c'" by (rule SetActiveVersion_inv [OF reg_invD(2) [OF inv] corporation(5)])
    moreover have "co_times_ok now c'"
    proof -
      have "co_policy_address co \<noteq> [] \<and> IsValidDID (co_did co) \<and> zero_time < co_created co \<and> co_created co \<le> now"
        using cov corporation(2) unfolding co_times_ok_def by fastforce
      then show ?thesis using cov unfolding co_times_ok_def by (auto simp: get)
    qed
    moreover have "ec_times_ok now ?r" using ecv unfolding ec_times_ok_def by (auto simp: get corporation(4))
    ultimately show ?thesis using inv now \<open>gf_ok f'\<close> corporation(4) by (simp add: reg_inv_def)
  next
    case (ecosystem e ec)
    have eid: "ec_id ec = e" "ec_wf ec" using ec_inv_id [OF reg_invD(3) [OF inv] ecosystem(2)] by simp_all
    have get: "kget (ecs_ecosystems e') j = (if j = e then Some (ec\<lparr>ec_active_version := ?a + 1, ec_modified := now\<rparr>)
        else kget (ecs_ecosystems (rg_ec r)) j)" for j
      by (simp add: ecosystem(3) kget_kset eid u)
    have l: "ec_language ec = sj_language sub" using view ecosystem(1,2) by (simp add: subject_view_def)
    have "subject_view ?r s = (if s = sj_owner sub then Some (sj_language sub, ?a + 1) else subject_view r s)" for s
      using l by (cases s) (simp_all add: subject_view_def get ecosystem(1,4))
    then have "frameworks_linked ?r"
      using linked_activate [OF reg_invD(5) [OF inv] gf view, of i g ?r now] i g doc f' by (simp add: u gid)
    moreover have "ec_inv e'"
      using ec_inv_modify [OF reg_invD(3) [OF inv] ecosystem(2), of "ec\<lparr>ec_active_version := ?a + 1, ec_modified := now\<rparr>"] eid
      by (simp add: ecosystem(3) ec_wf_def u)
    moreover have "ec_times_ok now ?r"
    proof -
      have "kget (cos_corporations (rg_co r)) (ec_corporation_id ec) \<noteq> None \<and> zero_time < ec_created ec \<and>
          ec_created ec \<le> now"
        using ecv ecosystem(2) unfolding ec_times_ok_def by fastforce
      then show ?thesis using ecv unfolding ec_times_ok_def by (auto simp: get ecosystem(4))
    qed
    ultimately show ?thesis using inv now \<open>gf_ok f'\<close> cov ecosystem(4) by (simp add: reg_inv_def)
  qed
qed

section \<open>All steps\<close>

lemma rg_step_inv:
  assumes step: "rg_step X s op s'" and "reg_inv t (fst s)" "t \<le> se_block_time (re_sdk X)" "group_addr_ok X"
  shows "reg_inv (se_block_time (re_sdk X)) (fst s')"
  using step assms(2-)
proof cases
  case (create_corporation grp r m ret grp' c' f')
  obtain i a where "ret = (i, a)" by fastforce
  then show ?thesis using create_corporation create_corporation_inv [of t r X grp m] assms(2-) by auto
qed (use assms update_corporation_inv create_ecosystem_inv update_ecosystem_inv archive_ecosystem_inv
    add_gf_document_inv increase_version_inv in auto)

lemma rg_reach_inv: "rg_reach t r grp \<Longrightarrow> reg_inv t r"
proof (induction rule: rg_reach.induct)
  case (rg_init t grp)
  then show ?case by (rule reg_inv_empty)
next
  case (rg_next t r grp X op r' grp')
  then show ?case using rg_step_inv [OF rg_next(4)] by simp
qed

end
