(* ===== verification/Registry_Refine.thy ===== *)
theory Registry_Refine
imports Registry_Inv
begin

text \<open>
  What the three registries promise about governance frameworks, as an abstract machine:
  a framework per registered subject with a language, an active version, a top version
  and the (location, digest) of each version's document per language, and four events.
  \<open>frameworks\<close> is the abstraction function; every message of the code is simulated by one
  event.
\<close>

section \<open>The abstract machine\<close>

record framework =
  fw_language :: string
  fw_active :: int
  fw_top :: int
  fw_docs :: "int \<Rightarrow> string \<Rightarrow> (string \<times> string) option"

type_synonym frameworks = "subject \<Rightarrow> framework option"

datatype fw_event =
    Fw_Stay
  | Fw_Register subject string string string
  | Fw_Document subject int string string string
  | Fw_Activate subject

definition fw_initial :: "string \<Rightarrow> string \<Rightarrow> string \<Rightarrow> framework" where
  "fw_initial lang url digest = \<lparr>fw_language = lang, fw_active = 1, fw_top = 1,
     fw_docs = (\<lambda>v l. if v = 1 \<and> l = lang then Some (url, digest) else None)\<rparr>"

definition fw_put_document :: "framework \<Rightarrow> int \<Rightarrow> string \<Rightarrow> string \<Rightarrow> string \<Rightarrow> framework" where
  "fw_put_document f v lang url digest = f\<lparr>fw_top := max v (fw_top f),
     fw_docs := (\<lambda>w l. if w = v \<and> l = lang then Some (url, digest) else fw_docs f w l)\<rparr>"

fun fw_apply :: "fw_event \<Rightarrow> frameworks \<Rightarrow> frameworks option" where
  "fw_apply Fw_Stay F = Some F"
| "fw_apply (Fw_Register sub lang url digest) F =
     (if F sub = None then Some (F(sub \<mapsto> fw_initial lang url digest)) else None)"
| "fw_apply (Fw_Document sub v lang url digest) F =
     (case F sub of None \<Rightarrow> None
      | Some f \<Rightarrow> if fw_active f < v \<and> v \<le> fw_top f + 1
                 then Some (F(sub \<mapsto> fw_put_document f v lang url digest)) else None)"
| "fw_apply (Fw_Activate sub) F =
     (case F sub of None \<Rightarrow> None
      | Some f \<Rightarrow> if fw_active f < fw_top f \<and> fw_docs f (fw_active f + 1) (fw_language f) \<noteq> None
                 then Some (F(sub \<mapsto> f\<lparr>fw_active := fw_active f + 1\<rparr>)) else None)"

text \<open>No event changes a document of an active version, lowers a version or changes a
  language.\<close>

lemma fw_apply_keeps_active:
  assumes "fw_apply ev F = Some F'" "F sub = Some f"
  shows "\<exists>f'. F' sub = Some f' \<and> fw_language f' = fw_language f \<and> fw_active f \<le> fw_active f' \<and>
    fw_top f \<le> fw_top f' \<and> (\<forall>v l. v \<le> fw_active f \<longrightarrow> fw_docs f' v l = fw_docs f v l)"
  using assms
  by (cases ev) (auto simp: fw_put_document_def split: if_splits option.splits)

section \<open>The abstraction\<close>

definition version_document :: "gf_state \<Rightarrow> subject \<Rightarrow> int \<Rightarrow> string \<Rightarrow> (string \<times> string) option" where
  "version_document s sub v lang = (case gf_lookup s sub v of None \<Rightarrow> None
     | Some i \<Rightarrow> map_option (\<lambda>d. (gd_url d, gd_digest_sri d)) (find_document s i lang))"

definition frameworks :: "registry \<Rightarrow> frameworks" where
  "frameworks r sub = (case subject_view r sub of None \<Rightarrow> None
     | Some (lang, a) \<Rightarrow> Some \<lparr>fw_language = lang, fw_active = a, fw_top = gf_max (rg_gf r) sub,
         fw_docs = version_document (rg_gf r) sub\<rparr>)"

text \<open>The subject a framework message is about.\<close>

definition op_subject :: "registry \<Rightarrow> string \<Rightarrow> nat \<Rightarrow> subject" where
  "op_subject r corp eid = (if eid \<noteq> 0 then SubjectEcosystem eid
     else SubjectCorporation (case resolve_id (rg_co r) corp of None \<Rightarrow> 0 | Some i \<Rightarrow> i))"

fun rg_event :: "registry \<Rightarrow> rg_op \<Rightarrow> fw_event" where
  "rg_event r (Rg_Create_Corporation m) = Fw_Register (SubjectCorporation (Suc (co_last_id (rg_co r))))
     (cc_language m) (cc_doc_url m) (cc_doc_digest m)"
| "rg_event r (Rg_Create_Ecosystem m) = Fw_Register (SubjectEcosystem (Suc (ec_last_id (rg_ec r))))
     (ce_language m) (ce_doc_url m) (ce_doc_digest m)"
| "rg_event r (Rg_Add_Document m) = Fw_Document (op_subject r (ag_corporation m) (ag_ecosystem_id m))
     (ag_version m) (ag_language m) (ag_url m) (ag_digest m)"
| "rg_event r (Rg_Increase_Version m) = Fw_Activate (op_subject r (ig_corporation m) (ig_ecosystem_id m))"
| "rg_event r _ = Fw_Stay"

lemma frameworks_cong:
  assumes "\<And>sub. subject_view r' sub = subject_view r sub" "rg_gf r' = rg_gf r"
  shows "frameworks r' = frameworks r"
  by (rule ext) (simp add: frameworks_def assms split: option.split)

lemma resolveSubject_owner:
  assumes "co_inv (rg_co r)" "ec_inv (rg_ec r)" "resolveSubject (rg_co r) (rg_ec r) corp eid = Inr sub"
  shows "sj_owner sub = op_subject r corp eid"
  using resolveSubject_ok(2) [OF assms]
  by (cases "sj_owner sub") (auto simp: op_subject_def resolve_id_def)

section \<open>Simulation, message by message\<close>

lemma gf_max_eqI:
  assumes "gf_versions_ok s" "0 \<le> n" "\<And>v. gf_lookup s sub v \<noteq> None \<longleftrightarrow> 1 \<le> v \<and> v \<le> n"
  shows "gf_max s sub = n"
  using gf_max_iff [OF assms(1), of sub n] gf_max_iff [OF assms(1), of sub "gf_max s sub"]
    assms(3) [of n] assms(3) [of "gf_max s sub"] gf_max_nonneg [of s sub] assms(2)
  by linarith

lemma simulate_register:
  assumes inv: "reg_inv t r" and gone: "subject_view r sub = None" and pos: "0 < subject_id sub"
    and lang: "IsValidBCP47 lang" and gf: "rg_gf r' = seed_version (rg_gf r) sub now lang url digest"
    and view: "\<And>s. subject_view r' s = (if s = sub then Some (lang, 1) else subject_view r s)"
  shows "fw_apply (Fw_Register sub lang url digest) (frameworks r) = Some (frameworks r')"
proof -
  note ok = reg_invD(4) [OF inv]
  have m: "gf_max (rg_gf r) sub = 0" by (rule gf_max_new_subject [OF reg_invD(5) [OF inv] gf_okD(1) [OF ok] gone])
  note seed = seed_version_ok [OF ok pos m lang, where now = now and url = url and digest = digest, folded gf]
  have none: "gf_lookup (rg_gf r) sub v = None" for v
    using gf_max_iff [OF gf_okD(1) [OF ok], of sub v] m by auto
  have own: "gf_lookup (rg_gf r) s v \<noteq> Some (Suc (gf_last_id (rg_gf r) ''gfv''))" for s v
    using gf_lookup_iff [OF gf_okD(1) [OF ok]] gf_version_fresh [OF gf_okD(1) [OF ok]] by auto
  have "gf_max (rg_gf r') sub = 1"
    by (rule gf_max_eqI [OF gf_okD(1) [OF seed(1)]]) (use none in \<open>auto simp: seed(2)\<close>)
  moreover have "version_document (rg_gf r') sub v l = fw_docs (fw_initial lang url digest) v l" for v l
  proof (cases "l = lang")
    case False
    then have "find_document (rg_gf r') (Suc (gf_last_id (rg_gf r) ''gfv'')) l = None" using seed(8) [of l] by blast
    then show ?thesis using False none by (simp add: version_document_def fw_initial_def seed(2))
  qed (use none seed(7) in \<open>auto simp: version_document_def fw_initial_def seed(2)\<close>)
  ultimately have new: "frameworks r' sub = Some (fw_initial lang url digest)"
    by (simp add: frameworks_def view fw_initial_def fun_eq_iff)
  have "frameworks r' s = frameworks r s" if "s \<noteq> sub" for s
  proof -
    have "gf_max (rg_gf r') s = gf_max (rg_gf r) s"
      by (rule gf_max_eqI [OF gf_okD(1) [OF seed(1)] gf_max_nonneg])
        (use that gf_max_iff [OF gf_okD(1) [OF ok], of s] in \<open>simp add: seed(2)\<close>)
    moreover have "version_document (rg_gf r') s = version_document (rg_gf r) s"
    proof (intro ext)
      fix v l
      show "version_document (rg_gf r') s v l = version_document (rg_gf r) s v l"
      proof (cases "gf_lookup (rg_gf r) s v")
        case (Some i)
        then have "i \<noteq> Suc (gf_last_id (rg_gf r) ''gfv'')" using own by auto
        then show ?thesis using that Some seed(9) by (simp add: version_document_def seed(2))
      qed (use that in \<open>simp add: version_document_def seed(2)\<close>)
    qed
    ultimately show ?thesis using that by (simp add: frameworks_def view split: option.split)
  qed
  then have "frameworks r' = (frameworks r)(sub \<mapsto> fw_initial lang url digest)"
    using new by (auto simp: fun_eq_iff)
  moreover have "frameworks r sub = None" using gone by (simp add: frameworks_def)
  ultimately show ?thesis by simp
qed

lemma simulate_document:
  assumes inv: "reg_inv t r"
    and ok: "AddGovernanceFrameworkDocument parse de (rg_co r) (rg_ec r) now (rg_gf r) m = Inr f'"
  shows "fw_apply (rg_event r (Rg_Add_Document m)) (frameworks r) = Some (frameworks (r\<lparr>rg_gf := f'\<rparr>))"
proof -
  let ?r = "r\<lparr>rg_gf := f'\<rparr>"
  note gf = reg_invD(4) [OF inv]
  obtain sub where v: "validate_add_gfd parse m = Inr ()"
    and sub: "resolveSubject (rg_co r) (rg_ec r) (ag_corporation m) (ag_ecosystem_id m) = Inr sub"
    and a: "addable (rg_gf r) sub (ag_version m)"
    and f': "f' = (let (i, s1) = with_version (rg_gf r) (sj_owner sub) now (ag_version m)
              in upsert_document s1 i now (ag_language m) (ag_url m) (ag_digest m))"
    using ok unfolding AddDocument_ok_iff [OF gf] by blast
  let ?o = "sj_owner sub"
  have view: "subject_view r ?o = Some (sj_language sub, sj_active_version sub)"
    by (rule resolveSubject_ok(1) [OF reg_invD(2,3) [OF inv] sub])
  then have pos: "0 < subject_id ?o" using linked_active [OF reg_invD(5) [OF inv]] by blast
  note eff = add_document_effect [OF gf pos a validate_add_gfd_ok [OF v] f']
  have same: "subject_view ?r s = subject_view r s" for s by (cases s) (simp_all add: subject_view_def)
  have vs: "gf_versions_ok f'" by (rule gf_okD(1) [OF eff(1)])
  have look: "gf_lookup f' s w = gf_lookup (rg_gf r) s w" if "s \<noteq> ?o \<or> w \<noteq> ag_version m" for s w
  proof (cases "gf_lookup (rg_gf r) s w")
    case None
    then have "\<not> (1 \<le> w \<and> w \<le> gf_max (rg_gf r) s)" using gf_max_iff [OF gf_okD(1) [OF gf], of s w] by simp
    moreover have "ag_version m \<le> gf_max (rg_gf r) ?o + 1" using a by (simp add: addable_def)
    ultimately have "\<not> (1 \<le> w \<and> w \<le> gf_max f' s)" using that by (auto simp: eff(5))
    then show ?thesis using None gf_max_iff [OF vs, of s w] by auto
  next
    case (Some i)
    then show ?thesis using eff(2) by simp
  qed
  have docs: "version_document f' s w l = (if s = ?o \<and> w = ag_version m \<and> l = ag_language m
      then Some (ag_url m, ag_digest m) else version_document (rg_gf r) s w l)" for s w l
  proof (cases "s = ?o \<and> w = ag_version m")
    case True
    obtain i where i: "gf_lookup f' ?o (ag_version m) = Some i" using eff(6) by blast
    show ?thesis
    proof (cases "l = ag_language m")
      case True
      then show ?thesis using \<open>s = ?o \<and> w = ag_version m\<close> eff(6) by (auto simp: version_document_def)
    next
      case False
      then have f: "find_document f' i l = find_document (rg_gf r) i l" using eff(8) by blast
      have "gf_lookup (rg_gf r) ?o (ag_version m) = Some i \<or> gf_lookup (rg_gf r) ?o (ag_version m) = None"
        using eff(2) i by (cases "gf_lookup (rg_gf r) ?o (ag_version m)") auto
      moreover have "find_document (rg_gf r) i l = None" if "gf_lookup (rg_gf r) ?o (ag_version m) = None"
      proof -
        obtain g where g: "kget (gfs_versions f') i = Some g" "gv_owner g = ?o" "gv_version g = ag_version m"
          using i gf_lookup_iff [OF vs] by blast
        have "kget (gfs_versions (rg_gf r)) i = None"
        proof (cases "kget (gfs_versions (rg_gf r)) i")
          case (Some g')
          then have "g' = g" using eff(3) g(1) by fastforce
          then have "gf_lookup (rg_gf r) ?o (ag_version m) = Some i"
            using Some g gf_lookup_iff [OF gf_okD(1) [OF gf]] by blast
          then show ?thesis using that by simp
        qed
        then show ?thesis unfolding find_document_None
          using gf_document_ok [OF gf_okD(2) [OF gf]] by (metis option.distinct(1))
      qed
      ultimately show ?thesis using \<open>s = ?o \<and> w = ag_version m\<close> i f False by (auto simp: version_document_def)
    qed
  next
    case False
    then have l: "gf_lookup f' s w = gf_lookup (rg_gf r) s w" using look by blast
    have "gf_lookup f' ?o (ag_version m) \<noteq> Some i" if i: "gf_lookup f' s w = Some i" for i
    proof
      assume "gf_lookup f' ?o (ag_version m) = Some i"
      then show False using i False gf_lookup_iff [OF vs] by fastforce
    qed
    then show ?thesis using l eff(8) False by (auto simp: version_document_def split: option.split)
  qed
  have f: "frameworks r ?o = Some \<lparr>fw_language = sj_language sub, fw_active = sj_active_version sub,
      fw_top = gf_max (rg_gf r) ?o, fw_docs = version_document (rg_gf r) ?o\<rparr>" (is "_ = Some ?f")
    by (simp add: frameworks_def view)
  have "frameworks ?r = (frameworks r)(?o \<mapsto> fw_put_document ?f (ag_version m) (ag_language m) (ag_url m) (ag_digest m))"
    using view eff(5) docs
    by (auto simp: fun_eq_iff frameworks_def same fw_put_document_def split: option.split)
  then show ?thesis
    using f a resolveSubject_owner [OF reg_invD(2,3) [OF inv] sub] by (simp add: addable_def)
qed

lemma next_version_eq:
  assumes inv: "reg_inv t r" and view: "subject_view r sub = Some (lang, a)"
    and i: "gf_lookup (rg_gf r) sub (u32 (a + 1)) = Some i"
  shows "u32 (a + 1) = a + 1"
proof -
  have "1 \<le> a \<and> a < 2 ^ 32"
    using linked_active [OF reg_invD(5) [OF inv] view] gf_lookup_range [OF gf_okD(1) [OF reg_invD(4) [OF inv]]] by blast
  moreover have "1 \<le> u32 (a + 1)" using gf_lookup_range [OF gf_okD(1) [OF reg_invD(4) [OF inv]]] i by blast
  ultimately show ?thesis by (cases "a + 1 = 2 ^ 32") (auto simp: u32_def)
qed

lemma set_active_version_view:
  assumes inv: "reg_inv t r" and view: "subject_view r sub = Some (lang, a)"
    and set: "set_active_version (rg_co r) (rg_ec r) sub v now = Inr (c', e')"
    and r': "rg_co r' = c'" "rg_ec r' = e'"
  shows "subject_view r' s = (if s = sub then Some (lang, v) else subject_view r s)"
  using set
proof (cases rule: set_active_version_ok)
  case (corporation c co)
  then show ?thesis
    using view r' co_inv_id [OF reg_invD(2) [OF inv], of c co] by (cases s) (auto simp: subject_view_def kget_kset)
next
  case (ecosystem e ec)
  then show ?thesis
    using view r' ec_inv_id [OF reg_invD(3) [OF inv], of e ec] by (cases s) (auto simp: subject_view_def kget_kset)
qed

lemma update_corporation_view:
  assumes inv: "reg_inv t r" and ok: "UpdateCorporation E de (rg_co r) m = Inr c'"
  shows "subject_view (r\<lparr>rg_co := c'\<rparr>) s = subject_view r s"
proof -
  obtain i co where co: "kget (cos_corporations (rg_co r)) i = Some co"
    and c': "cos_corporations c' = cos_corporations (rg_co r) \<or> cos_corporations c' =
      kset (cos_corporations (rg_co r)) (co_id co) (co\<lparr>co_did := uc_did m, co_modified := se_block_time E\<rparr>)"
    using ok unfolding UpdateCorporation_ok_iff by (elim conjE exE disjE) (rule that, assumption, simp)+
  then show ?thesis
    using co_inv_id [OF reg_invD(2) [OF inv] co] by (cases s) (auto simp: subject_view_def kget_kset)
qed

lemma update_ecosystem_view:
  assumes inv: "reg_inv t r" and ok: "UpdateEcosystem E de (rg_co r) (rg_ec r) m = Inr e'"
  shows "subject_view (r\<lparr>rg_ec := e'\<rparr>) s = subject_view r s"
proof -
  obtain ec where ec: "kget (ecs_ecosystems (rg_ec r)) (ue_id m) = Some ec"
    and e': "ecs_ecosystems e' = ecs_ecosystems (rg_ec r) \<or> ecs_ecosystems e' =
      kset (ecs_ecosystems (rg_ec r)) (ec_id ec) (ec\<lparr>ec_did := ue_did m, ec_modified := se_block_time E\<rparr>)"
    using ok unfolding UpdateEcosystem_ok_iff put_ecosystem_def
    by (elim conjE exE disjE) (rule that, assumption, simp)+
  then show ?thesis
    using ec_inv_id [OF reg_invD(3) [OF inv] ec] by (cases s) (auto simp: subject_view_def kget_kset)
qed

lemma archive_ecosystem_view:
  assumes inv: "reg_inv t r" and ok: "ArchiveEcosystem E de (rg_co r) (rg_ec r) m = Inr e'"
  shows "subject_view (r\<lparr>rg_ec := e'\<rparr>) s = subject_view r s"
proof -
  obtain ec where ec: "kget (ecs_ecosystems (rg_ec r)) (ae_id m) = Some ec"
    and e': "ecs_ecosystems e' =
      kset (ecs_ecosystems (rg_ec r)) (ec_id ec) (ec\<lparr>ec_archived := ae_archive m, ec_modified := se_block_time E\<rparr>)"
    using ok unfolding ArchiveEcosystem_ok_iff put_ecosystem_def by auto
  then show ?thesis
    using ec_inv_id [OF reg_invD(3) [OF inv] ec] by (cases s) (auto simp: subject_view_def kget_kset)
qed

lemma simulate_activate:
  assumes inv: "reg_inv t r"
    and ok: "IncreaseActiveGovernanceFrameworkVersion de (rg_co r) (rg_ec r) now (rg_gf r) m = Inr (f', c', e')"
  shows "fw_apply (rg_event r (Rg_Increase_Version m)) (frameworks r) =
    Some (frameworks \<lparr>rg_co = c', rg_ec = e', rg_gf = f'\<rparr>)" (is "_ = Some (frameworks ?r)")
proof -
  note gf = reg_invD(4) [OF inv]
  obtain sub i g where sub: "resolveSubject (rg_co r) (rg_ec r) (ig_corporation m) (ig_ecosystem_id m) = Inr sub"
    and i: "gf_lookup (rg_gf r) (sj_owner sub) (u32 (sj_active_version sub + 1)) = Some i"
    and g: "kget (gfs_versions (rg_gf r)) i = Some g" and doc: "find_document (rg_gf r) (gv_id g) (sj_language sub) \<noteq> None"
    and set: "set_active_version (rg_co r) (rg_ec r) (sj_owner sub) (u32 (sj_active_version sub + 1)) now = Inr (c', e')"
    and f': "f' = (rg_gf r)\<lparr>gfs_versions := kset (gfs_versions (rg_gf r)) (gv_id g) (g\<lparr>gv_active_since := now\<rparr>)\<rparr>"
    using ok unfolding Increase_ok_iff by blast
  let ?o = "sj_owner sub" and ?a = "sj_active_version sub"
  have view: "subject_view r ?o = Some (sj_language sub, ?a)"
    by (rule resolveSubject_ok(1) [OF reg_invD(2,3) [OF inv] sub])
  have gid: "gv_id g = i" using gf_version_ok [OF gf_okD(1) [OF gf] g] by simp
  have u: "u32 (?a + 1) = ?a + 1" by (rule next_version_eq [OF inv view i])
  have view': "subject_view ?r s = (if s = ?o then Some (sj_language sub, ?a + 1) else subject_view r s)" for s
    by (rule set_active_version_view [OF inv view set [unfolded u]]) simp_all
  have ok': "gf_versions_ok f'" using gf_okD(1) [OF activate_ok [OF gf g]] by (simp add: f' gid)
  have look: "gf_lookup f' s w = gf_lookup (rg_gf r) s w" for s w by (simp add: f')
  have top: "gf_max f' s = gf_max (rg_gf r) s" for s
    by (rule gf_max_eqI [OF ok' gf_max_nonneg]) (simp only: look gf_max_iff [OF gf_okD(1) [OF gf]])
  have docs: "version_document f' s = version_document (rg_gf r) s" for s
    by (simp add: version_document_def look fun_eq_iff split: option.split) (simp add: f' find_document_def)
  have f: "frameworks r ?o = Some \<lparr>fw_language = sj_language sub, fw_active = ?a,
      fw_top = gf_max (rg_gf r) ?o, fw_docs = version_document (rg_gf r) ?o\<rparr>" (is "_ = Some ?f")
    by (simp add: frameworks_def view)
  have "?a < gf_max (rg_gf r) ?o"
    using i gf_max_iff [OF gf_okD(1) [OF gf], of ?o "?a + 1"] by (simp add: u)
  moreover have "version_document (rg_gf r) ?o (?a + 1) (sj_language sub) \<noteq> None"
    using i doc by (simp add: version_document_def u gid)
  moreover have "frameworks ?r = (frameworks r)(?o \<mapsto> ?f\<lparr>fw_active := ?a + 1\<rparr>)"
    by (rule ext) (simp add: frameworks_def view' top docs split: option.split)
  ultimately show ?thesis
    using f resolveSubject_owner [OF reg_invD(2,3) [OF inv] sub] by simp
qed

section \<open>All messages\<close>

lemma create_corporation_simulated:
  assumes inv: "reg_inv t r"
    and ok: "CreateCorporation cg E parse grp (rg_co r) (rg_gf r) m = Inr (ret, grp', c', f')"
  shows "fw_apply (rg_event r (Rg_Create_Corporation m)) (frameworks r) =
    Some (frameworks (r\<lparr>rg_co := c', rg_gf := f'\<rparr>))"
proof -
  obtain i a where ret: "ret = (i, a)" by fastforce
  note c = ok [unfolded ret CreateCorporation_ok_iff]
  have i: "i = Suc (co_last_id (rg_co r))" using c by simp
  have "kget (cos_corporations (rg_co r)) i = None"
    by (rule co_inv_fresh [OF reg_invD(2) [OF inv]]) (simp add: i)
  then have gone: "subject_view r (SubjectCorporation i) = None" by (simp add: subject_view_def)
  have view: "subject_view (r\<lparr>rg_co := c', rg_gf := f'\<rparr>) s =
      (if s = SubjectCorporation i then Some (cc_language m, 1) else subject_view r s)" for s
    using c by (cases s) (auto simp: subject_view_def add_corporation_get)
  show ?thesis
    using simulate_register [OF inv gone _ validate_create_co_ok(2) [OF conjunct1 [OF c]], OF _ _ view] c i by simp
qed

lemma create_ecosystem_simulated:
  assumes inv: "reg_inv t r"
    and ok: "CreateEcosystem E parse de (rg_co r) (rg_ec r) (rg_gf r) m = Inr (i, e', f')"
  shows "fw_apply (rg_event r (Rg_Create_Ecosystem m)) (frameworks r) =
    Some (frameworks (r\<lparr>rg_ec := e', rg_gf := f'\<rparr>))"
proof -
  obtain c where v: "validate_create_ec E parse m = Inr ()" and i: "i = Suc (ec_last_id (rg_ec r))"
    and e': "e' = add_ecosystem (rg_ec r) (new_ecosystem i c m (se_block_time E))"
    and f': "f' = seed_version (rg_gf r) (SubjectEcosystem i) (se_block_time E) (ce_language m) (ce_doc_url m) (ce_doc_digest m)"
    using ok unfolding CreateEcosystem_ok_iff by blast
  have "kget (ecs_ecosystems (rg_ec r)) i = None"
    by (rule ec_inv_fresh [OF reg_invD(3) [OF inv]]) (simp add: i)
  then have gone: "subject_view r (SubjectEcosystem i) = None" by (simp add: subject_view_def)
  have view: "subject_view (r\<lparr>rg_ec := e', rg_gf := f'\<rparr>) s =
      (if s = SubjectEcosystem i then Some (ce_language m, 1) else subject_view r s)" for s
    by (cases s) (auto simp: subject_view_def e' i add_ecosystem_get)
  show ?thesis
    using simulate_register [OF inv gone _ ec_lang_imp_lang [OF validate_create_ec_ok(2) [OF v]], OF _ _ view] f' i
    by simp
qed

lemma step_simulated:
  assumes inv: "reg_inv t r" and step: "rg_step X (r, grp) op (r', grp')"
  shows "fw_apply (rg_event r op) (frameworks r) = Some (frameworks r')"
proof (cases op)
  case (Rg_Create_Corporation m)
  then obtain ret c' f' where c: "CreateCorporation (re_group X) (re_sdk X) (re_parse X) grp (rg_co r) (rg_gf r) m =
      Inr (ret, grp', c', f')" "r' = r\<lparr>rg_co := c', rg_gf := f'\<rparr>"
    using step by auto
  show ?thesis using create_corporation_simulated [OF inv c(1)] c(2) Rg_Create_Corporation by simp
next
  case (Rg_Create_Ecosystem m)
  then obtain i e' f' where e: "CreateEcosystem (re_sdk X) (re_parse_uri X) (re_de X) (rg_co r) (rg_ec r) (rg_gf r) m =
      Inr (i, e', f')" "r' = r\<lparr>rg_ec := e', rg_gf := f'\<rparr>"
    using step by auto
  show ?thesis using create_ecosystem_simulated [OF inv e(1)] e(2) Rg_Create_Ecosystem by simp
next
  case (Rg_Add_Document m)
  then obtain f' where f: "AddGovernanceFrameworkDocument (re_parse X) (re_de X) (rg_co r) (rg_ec r)
      (se_block_time (re_sdk X)) (rg_gf r) m = Inr f'" "r' = r\<lparr>rg_gf := f'\<rparr>"
    using step by auto
  show ?thesis using simulate_document [OF inv f(1)] f(2) Rg_Add_Document by simp
next
  case (Rg_Increase_Version m)
  then obtain f' c' e' where f: "IncreaseActiveGovernanceFrameworkVersion (re_de X) (rg_co r) (rg_ec r)
      (se_block_time (re_sdk X)) (rg_gf r) m = Inr (f', c', e')" "r' = \<lparr>rg_co = c', rg_ec = e', rg_gf = f'\<rparr>"
    using step by auto
  show ?thesis using simulate_activate [OF inv f(1)] f(2) Rg_Increase_Version by simp
next
  case (Rg_Update_Corporation m)
  then obtain c' where c': "UpdateCorporation (re_sdk X) (re_de X) (rg_co r) m = Inr c'" "r' = r\<lparr>rg_co := c'\<rparr>"
    using step by auto
  then show ?thesis
    using update_corporation_view [OF inv c'(1)] frameworks_cong [of r' r] Rg_Update_Corporation by simp
next
  case (Rg_Update_Ecosystem m)
  then obtain e' where e': "UpdateEcosystem (re_sdk X) (re_de X) (rg_co r) (rg_ec r) m = Inr e'" "r' = r\<lparr>rg_ec := e'\<rparr>"
    using step by auto
  then show ?thesis
    using update_ecosystem_view [OF inv e'(1)] frameworks_cong [of r' r] Rg_Update_Ecosystem by simp
next
  case (Rg_Archive_Ecosystem m)
  then obtain e' where e': "ArchiveEcosystem (re_sdk X) (re_de X) (rg_co r) (rg_ec r) m = Inr e'" "r' = r\<lparr>rg_ec := e'\<rparr>"
    using step by auto
  then show ?thesis
    using archive_ecosystem_view [OF inv e'(1)] frameworks_cong [of r' r] Rg_Archive_Ecosystem by simp
qed

end
