(* ===== verification/Registry_Sample.thy ===== *)
theory Registry_Sample
imports Registry_Refine
begin

text \<open>
  A concrete run of the registries, two corporations and two ecosystems, on which the
  properties are exercised.
\<close>

section \<open>A sample registry\<close>

text \<open>Two corporations, each with the operator \<open>o\<close> authorized for every delegable
  message, and two ecosystems of the first one under the same DID.\<close>

definition sample_operator :: "nat \<Rightarrow> oper_auth" where
  "sample_operator c = \<lparr>oa_id = c, oa_corp = c, oa_operator = ''o'', oa_msg_types = VPRDelegableMsgTypes,
     oa_spend_limit = [], oa_remaining_spend = [], oa_fee_spend_limit = [],
     oa_remaining_fee_spend = [], oa_expiration = None, oa_period = None\<rparr>"

definition sample_delegations :: de_state where
  "sample_delegations = de_empty\<lparr>des_oas := kset (kset kempty 1 (sample_operator 1)) 2 (sample_operator 2),
     des_oa_index := kset (kset kempty (1, ''o'') 1) (2, ''o'') 2, des_oa_seq := 2\<rparr>"

lemma sample_delegations_ok:
  assumes "res c = Some 1 \<or> res c = Some 2" "mt \<in> set VPRDelegableMsgTypes"
  shows "CheckOperatorAuthorization res sample_delegations c ''o'' mt now = Inr ()"
  using assms
  by (auto simp: CheckOperatorAuthorization_def checkOperatorAuthorizationCore_def getOAByCorpOp_def
      sample_delegations_def sample_operator_def expired_def kget_kset)

definition sample_X :: "time \<Rightarrow> string rg_env" where
  "sample_X t = \<lparr>re_sdk = demo_env t, re_group = (\<lambda>g q. Some (CHR ''p'' # g, CHR ''p'' # g)),
     re_parse = (\<lambda>s. Some (''https'', ''h'')), re_parse_uri = (\<lambda>s. Some ''https''),
     re_de = sample_delegations\<rparr>"

lemma sample_X_sel [simp]:
  "re_sdk (sample_X t) = demo_env t" "re_parse (sample_X t) = (\<lambda>s. Some (''https'', ''h''))"
  "re_parse_uri (sample_X t) = (\<lambda>s. Some ''https'')" "re_de (sample_X t) = sample_delegations"
  "re_group (sample_X t) g q = Some (CHR ''p'' # g, CHR ''p'' # g)"
  by (simp_all add: sample_X_def)

lemma sample_group_ok: "group_addr_ok (sample_X t)"
  by (simp add: group_addr_ok_def)

definition sample_create_co :: "string \<Rightarrow> msg_create_co" where
  "sample_create_co did = \<lparr>cc_signer = ''s'', cc_members = [\<lparr>gm_address = ''a'', gm_weight = ''1'', gm_metadata = []\<rparr>],
     cc_group_metadata = [], cc_policy_metadata = [], cc_decision_policy = Some ''t'', cc_did = did,
     cc_language = ''en'', cc_doc_url = ''u'', cc_doc_digest = ''sha256-A''\<rparr>"

definition sample_create_ec :: "string \<Rightarrow> msg_create_ec" where
  "sample_create_ec corp = \<lparr>ce_corporation = corp, ce_operator = ''o'', ce_did = ''did:x:e'', ce_language = ''en'',
     ce_doc_url = ''u'', ce_doc_digest = ''sha256-A''\<rparr>"

definition sample_co :: co_state where
  "sample_co = add_corporation (add_corporation co_empty (new_corporation 1 ''p'' (sample_create_co ''did:x:a'') 10))
     (new_corporation 2 ''pp'' (sample_create_co ''did:x:b'') 11)"

definition sample_ec :: ec_state where
  "sample_ec = add_ecosystem (add_ecosystem ec_empty (new_ecosystem 1 1 (sample_create_ec ''p'') 12))
     (new_ecosystem 2 1 (sample_create_ec ''p'') 13)"

definition sample_seed :: "gf_state \<Rightarrow> subject \<Rightarrow> time \<Rightarrow> gf_state" where
  "sample_seed s sub now = seed_version s sub now ''en'' ''u'' ''sha256-A''"

definition sample_gf :: gf_state where
  "sample_gf = sample_seed (sample_seed (sample_seed (sample_seed gf_empty (SubjectCorporation 1) 10)
     (SubjectCorporation 2) 11) (SubjectEcosystem 1) 12) (SubjectEcosystem 2) 13"

definition sample_rg :: registry where
  "sample_rg = \<lparr>rg_co = sample_co, rg_ec = sample_ec, rg_gf = sample_gf\<rparr>"

lemma sample_create_co_valid:
  "validate_create_co (demo_env t) (\<lambda>s. Some (''https'', ''h'')) (sample_create_co ''did:x:a'') = Inr ()"
  "validate_create_co (demo_env t) (\<lambda>s. Some (''https'', ''h'')) (sample_create_co ''did:x:b'') = Inr ()"
  by (simp_all add: validate_create_co_def sample_create_co_def validate_members_def valid_addr_def
      IsValidURL_def) code_simp+

lemma sample_create_ec_valid:
  "corp \<noteq> [] \<Longrightarrow> validate_create_ec (demo_env t) (\<lambda>s. Some ''https'') (sample_create_ec corp) = Inr ()"
  by (simp add: validate_create_ec_def sample_create_ec_def valid_addr_def isValidHTTPURL_def) code_simp

lemma sample_last_ids [simp]:
  "co_last_id co_empty = 0" "co_last_id (add_corporation s co) = Suc (co_last_id s)"
  "ec_last_id ec_empty = 0" "ec_last_id (add_ecosystem e x) = Suc (ec_last_id e)"
  by (simp_all add: co_last_id_def co_empty_def add_corporation_def put_corporation_def ec_last_id_def
      ec_empty_def add_ecosystem_def)

lemma sample_unseeded:
  "gf_lookup (sample_seed s sub now) sub' v = (if sub' = sub \<and> v = 1 then Some (Suc (gf_last_id s ''gfv''))
     else gf_lookup s sub' v)"
  by (simp add: sample_seed_def seed_version_eq)

lemma gf_lookup_empty [simp]: "gf_lookup gf_empty sub v = None"
  by (simp add: gf_lookup_def gf_empty_def split: subject.split)

lemma sample_gf_index:
  "khas (gfs_by_corporation s) (c, v) \<longleftrightarrow> gf_lookup s (SubjectCorporation c) v \<noteq> None"
  "khas (gfs_by_ecosystem s) (c, v) \<longleftrightarrow> gf_lookup s (SubjectEcosystem c) v \<noteq> None"
  by (simp_all add: gf_lookup_def khas_def)

lemma sample_co_get [simp]:
  "kget (cos_by_did (add_corporation s co)) d = (if d = co_did co then Some (co_id co) else kget (cos_by_did s) d)"
  "kget (cos_by_policy (add_corporation s co)) a =
     (if a = co_policy_address co then Some (co_id co) else kget (cos_by_policy s) a)"
  "kget (cos_by_did co_empty) d = None" "kget (cos_by_policy co_empty) a = None"
  by (simp_all add: add_corporation_def put_corporation_def kget_kset co_empty_def)

definition sample_rg2 :: registry where
  "sample_rg2 = \<lparr>rg_co = sample_co, rg_ec = ec_empty,
     rg_gf = sample_seed (sample_seed gf_empty (SubjectCorporation 1) 10) (SubjectCorporation 2) 11\<rparr>"

lemma sample_create_corporation:
  assumes "did = ''did:x:a'' \<or> did = ''did:x:b''" "kget (cos_by_did (rg_co r)) did = None"
    "kget (cos_by_policy (rg_co r)) (CHR ''p'' # g) = None"
    "gf_lookup (rg_gf r) (SubjectCorporation (Suc (co_last_id (rg_co r)))) 1 = None"
  shows "rg_step (sample_X t) (r, g) (Rg_Create_Corporation (sample_create_co did))
    (r\<lparr>rg_co := add_corporation (rg_co r)
          (new_corporation (Suc (co_last_id (rg_co r))) (CHR ''p'' # g) (sample_create_co did) t),
       rg_gf := sample_seed (rg_gf r) (SubjectCorporation (Suc (co_last_id (rg_co r)))) t\<rparr>, CHR ''p'' # g)"
proof -
  have "cc_did (sample_create_co did) = did" "cc_language (sample_create_co did) = ''en''"
    "cc_doc_url (sample_create_co did) = ''u''" "cc_doc_digest (sample_create_co did) = ''sha256-A''"
    by (simp_all add: sample_create_co_def)
  then have "CreateCorporation (re_group (sample_X t)) (re_sdk (sample_X t)) (re_parse (sample_X t)) g (rg_co r)
      (rg_gf r) (sample_create_co did) = Inr ((Suc (co_last_id (rg_co r)), CHR ''p'' # g), CHR ''p'' # g,
        add_corporation (rg_co r) (new_corporation (Suc (co_last_id (rg_co r))) (CHR ''p'' # g) (sample_create_co did) t),
        sample_seed (rg_gf r) (SubjectCorporation (Suc (co_last_id (rg_co r)))) t)"
    using assms sample_create_co_valid [of t]
    by (auto simp: CreateCorporation_ok_iff gf_lookup_def sample_seed_def khas_def)
  from rg_step.create_corporation [OF this] show ?thesis .
qed

lemma sample_reach_co: "rg_reach 11 sample_rg2 ''pp''"
proof -
  note grow = rg_next [where X = "sample_X 10", OF _ _ sample_group_ok sample_create_corporation]
    rg_next [where X = "sample_X 11", OF _ _ sample_group_ok sample_create_corporation]
  have "rg_reach 5 rg_empty ''''" by (rule rg_init) (simp add: zero_time_def)
  from grow(1) [OF this, of "''did:x:a''"] have "rg_reach 10 \<lparr>rg_co = add_corporation co_empty
      (new_corporation 1 ''p'' (sample_create_co ''did:x:a'') 10), rg_ec = ec_empty,
      rg_gf = sample_seed gf_empty (SubjectCorporation 1) 10\<rparr> ''p''"
    by (simp add: rg_empty_def)
  from grow(2) [OF this, of "''did:x:b''"] show ?thesis
    by (simp add: sample_rg2_def sample_co_def sample_unseeded sample_create_co_def new_corporation_def
        numeral_2_eq_2)
qed

lemma sample_create_ecosystem:
  assumes r: "rg_co r = sample_co" "assertDIDConsistent (rg_ec r) ''did:x:e'' 1 0"
    and seed: "gf_lookup (rg_gf r) (SubjectEcosystem (Suc (ec_last_id (rg_ec r)))) 1 = None"
  shows "rg_step (sample_X t) (r, g) (Rg_Create_Ecosystem (sample_create_ec ''p''))
    (r\<lparr>rg_ec := add_ecosystem (rg_ec r) (new_ecosystem (Suc (ec_last_id (rg_ec r))) 1 (sample_create_ec ''p'') t),
       rg_gf := sample_seed (rg_gf r) (SubjectEcosystem (Suc (ec_last_id (rg_ec r)))) t\<rparr>, g)"
proof -
  have co: "ResolveCorporationByPolicyAddress sample_co ''p'' =
      Inr (new_corporation 1 ''p'' (sample_create_co ''did:x:a'') 10)"
    by (simp add: ResolveCorporationByPolicyAddress_def sample_co_def add_corporation_get)
  then have "resolve_id sample_co ''p'' = Some 1" by (simp add: resolve_id_def)
  then have "ec_authorize (re_de (sample_X t)) (rg_co r) t ''p'' ''o'' ''/verana.ec.v1.MsgCreateEcosystem'' =
      Inr (new_corporation 1 ''p'' (sample_create_co ''did:x:a'') 10)"
    using co sample_delegations_ok by (simp add: ec_authorize_ok_iff r(1) VPRDelegableMsgTypes_def)
  moreover have "ce_corporation (sample_create_ec c) = c" "ce_operator (sample_create_ec c) = ''o''"
      "ce_language (sample_create_ec c) = ''en''" "ce_doc_url (sample_create_ec c) = ''u''"
      "ce_doc_digest (sample_create_ec c) = ''sha256-A''" "ce_did (sample_create_ec c) = ''did:x:e''" for c
    by (simp_all add: sample_create_ec_def)
  ultimately have "CreateEcosystem (re_sdk (sample_X t)) (re_parse_uri (sample_X t)) (re_de (sample_X t)) (rg_co r)
      (rg_ec r) (rg_gf r) (sample_create_ec ''p'') = Inr (Suc (ec_last_id (rg_ec r)),
        add_ecosystem (rg_ec r) (new_ecosystem (Suc (ec_last_id (rg_ec r))) 1 (sample_create_ec ''p'') t),
        sample_seed (rg_gf r) (SubjectEcosystem (Suc (ec_last_id (rg_ec r)))) t)"
    using sample_create_ec_valid [of "''p''" t] r(2) seed
    by (simp add: CreateEcosystem_ok_iff sample_gf_index sample_seed_def)
  from rg_step.create_ecosystem [OF this] show ?thesis .
qed

lemma sample_did_consistent:
  "assertDIDConsistent ec_empty did c x"
  "ec_corporation_id e = c \<Longrightarrow> assertDIDConsistent (add_ecosystem ec_empty e) did c 0"
  by (auto simp: assertDIDConsistent_def list_all_iff add_ecosystem_def ec_empty_def prefixed_mem_iff kget_kset
      split: if_splits)

lemma sample_reach: "rg_reach 13 sample_rg ''pp''"
proof -
  note grow = rg_next [where X = "sample_X 12", OF _ _ sample_group_ok sample_create_ecosystem]
    rg_next [where X = "sample_X 13", OF _ _ sample_group_ok sample_create_ecosystem]
  from grow(1) [OF sample_reach_co] have "rg_reach 12 (sample_rg2\<lparr>rg_ec := add_ecosystem ec_empty
      (new_ecosystem 1 1 (sample_create_ec ''p'') 12),
      rg_gf := sample_seed (rg_gf sample_rg2) (SubjectEcosystem 1) 12\<rparr>) ''pp''"
    by (simp add: sample_rg2_def sample_did_consistent sample_unseeded)
  from grow(2) [OF this] show ?thesis
    by (simp add: sample_rg2_def sample_rg_def sample_ec_def sample_gf_def sample_did_consistent sample_unseeded
        numeral_2_eq_2)
qed

end
