(* ===== verification/Registry_Props.thy ===== *)
theory Registry_Props
imports Registry_Sample
begin

text \<open>
  The properties of the corporation, ecosystem and governance-framework registries.
\<close>

section \<open>The invariant and the registration of corporations\<close>

text \<open>C7 registry_invariant: whatever messages the three modules have executed, starting
  from the empty registries and with block times that never go back, the registries are
  consistent: indexes and tables agree, ids are positive and not above their counters, every
  governance framework belongs to a registered subject, every subject's active version
  exists, and each version up to it has a document in the subject's language.\<close>

theorem registry_invariant:
  assumes "rg_reach t r grp"
  shows "reg_inv t r"
  using assms by (rule rg_reach_inv)

lemma registry_invariant_witness: "rg_reach 13 sample_rg ''pp'' \<and> reg_inv 13 sample_rg"
  using sample_reach registry_invariant [OF sample_reach] by simp

lemma reach_inv: "rg_reach t r grp \<Longrightarrow> co_inv (rg_co r)" "rg_reach t r grp \<Longrightarrow> ec_inv (rg_ec r)"
    "rg_reach t r grp \<Longrightarrow> gf_ok (rg_gf r)" "rg_reach t r grp \<Longrightarrow> frameworks_linked r"
  by (rule reg_invD(2) [OF rg_reach_inv], assumption, rule reg_invD(3) [OF rg_reach_inv], assumption,
      rule reg_invD(4) [OF rg_reach_inv], assumption, rule reg_invD(5) [OF rg_reach_inv], assumption)

lemma did_unused_iff:
  assumes "co_inv s"
  shows "\<not> khas (cos_by_did s) d \<longleftrightarrow> (\<forall>i c. kget (cos_corporations s) i = Some c \<longrightarrow> co_did c \<noteq> d)"
  using co_inv_did [OF assms] unfolding khas_def co_didx.index_ok_def by (metis not_None_eq)

lemma policy_unused_iff:
  assumes "co_inv s"
  shows "\<not> khas (cos_by_policy s) a \<longleftrightarrow> (\<forall>i c. kget (cos_corporations s) i = Some c \<longrightarrow> co_policy_address c \<noteq> a)"
  using co_inv_policy [OF assms] unfolding khas_def co_pol.index_ok_def by (metis not_None_eq)

lemma seed_free_corporation:
  assumes "reg_inv t r"
  shows "\<not> khas (gfs_by_corporation (rg_gf r)) (Suc (co_last_id (rg_co r)), v)"
proof -
  note i = reg_invD [OF assms]
  have "subject_view r (SubjectCorporation (Suc (co_last_id (rg_co r)))) = None"
    using co_inv_fresh [OF i(2)] by (simp add: subject_view_def)
  from gf_max_new_subject [OF i(5) gf_okD(1) [OF i(4)] this]
  have "gf_lookup (rg_gf r) (SubjectCorporation (Suc (co_last_id (rg_co r)))) v = None"
    using gf_max_iff [OF gf_okD(1) [OF i(4)], of "SubjectCorporation (Suc (co_last_id (rg_co r)))" v] by auto
  then show ?thesis by (simp add: gf_lookup_def khas_def)
qed

lemma create_corporation_effect:
  assumes r: "rg_reach t r grp"
  shows "is_ok (CreateCorporation cg E parse grp (rg_co r) (rg_gf r) m) \<longleftrightarrow>
      validate_create_co E parse m = Inr () \<and>
      (\<forall>i c. kget (cos_corporations (rg_co r)) i = Some c \<longrightarrow> co_did c \<noteq> cc_did m) \<and>
      (\<exists>a grp'. cg grp (group_request_of m) = Some (a, grp') \<and>
         (\<forall>i c. kget (cos_corporations (rg_co r)) i = Some c \<longrightarrow> co_policy_address c \<noteq> a))"
    and "CreateCorporation cg E parse grp (rg_co r) (rg_gf r) m = Inr ((i, a), grp', c', f') \<Longrightarrow>
      i = co_last_id (rg_co r) + 1 \<and> kget (cos_corporations (rg_co r)) i = None \<and>
      (\<forall>b. resolve_id c' b = (if b = a then Some i else resolve_id (rg_co r) b))"
proof -
  note inv = rg_reach_inv [OF r]
  note co = reg_invD(2) [OF inv]
  show "is_ok (CreateCorporation cg E parse grp (rg_co r) (rg_gf r) m) \<longleftrightarrow>
      validate_create_co E parse m = Inr () \<and>
      (\<forall>i c. kget (cos_corporations (rg_co r)) i = Some c \<longrightarrow> co_did c \<noteq> cc_did m) \<and>
      (\<exists>a grp'. cg grp (group_request_of m) = Some (a, grp') \<and>
         (\<forall>i c. kget (cos_corporations (rg_co r)) i = Some c \<longrightarrow> co_policy_address c \<noteq> a))"
    unfolding is_ok_iff split_paired_Ex CreateCorporation_ok_iff did_unused_iff [OF co] policy_unused_iff [OF co]
    using seed_free_corporation [OF inv] by blast
  assume "CreateCorporation cg E parse grp (rg_co r) (rg_gf r) m = Inr ((i, a), grp', c', f')"
  then have c: "i = Suc (co_last_id (rg_co r))" "\<not> khas (cos_by_policy (rg_co r)) a"
      "c' = add_corporation (rg_co r) (new_corporation i a m (se_block_time E))"
    unfolding CreateCorporation_ok_iff by blast+
  have fresh: "kget (cos_corporations (rg_co r)) i = None" using co_inv_fresh [OF co] c(1) by simp
  have "resolve_id c' b = (if b = a then Some i else resolve_id (rg_co r) b)" for b
  proof (cases "kget (cos_by_policy (rg_co r)) b")
    case None
    then show ?thesis
      by (simp add: resolve_id_def ResolveCorporationByPolicyAddress_def c(3) add_corporation_def
          put_corporation_def kget_kset)
  next
    case (Some j)
    then have "j \<noteq> i"
      using co_inv_policy [OF co] fresh unfolding co_pol.index_ok_def by (metis option.distinct(1))
    moreover have "b \<noteq> a" using Some c(2) by (auto simp: khas_def)
    ultimately show ?thesis using Some
      by (simp add: resolve_id_def ResolveCorporationByPolicyAddress_def c(3) add_corporation_def
          put_corporation_def kget_kset)
  qed
  then show "i = co_last_id (rg_co r) + 1 \<and> kget (cos_corporations (rg_co r)) i = None \<and>
      (\<forall>b. resolve_id c' b = (if b = a then Some i else resolve_id (rg_co r) b))"
    using c(1) fresh by simp
qed

text \<open>C21 create_corporation_exact: in a reachable state a corporation is registered exactly
  when the message is well formed, no registered corporation has its DID, x/group creates
  the group, and the returned policy address belongs to no corporation yet; seeding the
  governance framework never fails.  The new corporation has the next id, resolves from its
  policy address at once, and every other address resolves as before.\<close>

theorem create_corporation_exact:
  assumes "rg_reach t r grp"
  shows "(is_ok (CreateCorporation cg E parse grp (rg_co r) (rg_gf r) m) \<longleftrightarrow>
      validate_create_co E parse m = Inr () \<and>
      (\<forall>i c. kget (cos_corporations (rg_co r)) i = Some c \<longrightarrow> co_did c \<noteq> cc_did m) \<and>
      (\<exists>a grp'. cg grp (group_request_of m) = Some (a, grp') \<and>
         (\<forall>i c. kget (cos_corporations (rg_co r)) i = Some c \<longrightarrow> co_policy_address c \<noteq> a))) \<and>
    (\<forall>i a grp' c' f'. CreateCorporation cg E parse grp (rg_co r) (rg_gf r) m = Inr ((i, a), grp', c', f') \<longrightarrow>
      i = co_last_id (rg_co r) + 1 \<and> kget (cos_corporations (rg_co r)) i = None \<and>
      (\<forall>b. resolve_id c' b = (if b = a then Some i else resolve_id (rg_co r) b)))"
  by (rule conjI, rule create_corporation_effect(1) [OF assms], (rule allI)+, rule impI,
      rule create_corporation_effect(2) [OF assms], assumption)

lemma sample_reach_empty: "rg_reach 5 rg_empty ''''"
  by (rule rg_init) (simp add: zero_time_def)

lemma create_corporation_exact_witness:
  "is_ok (CreateCorporation (re_group (sample_X 10)) (demo_env 10) (\<lambda>s. Some (''https'', ''h'')) ''''
      co_empty gf_empty (sample_create_co ''did:x:a'')) \<and>
   (\<exists>g' c' f'. CreateCorporation (re_group (sample_X 10)) (demo_env 10) (\<lambda>s. Some (''https'', ''h'')) ''''
      co_empty gf_empty (sample_create_co ''did:x:a'') = Inr ((1, ''p''), g', c', f') \<and> resolve_id c' ''p'' = Some 1)"
proof -
  have e: "rg_co rg_empty = co_empty" "rg_gf rg_empty = gf_empty" by (simp_all add: rg_empty_def)
  note p = conjunct1 [OF create_corporation_exact [OF sample_reach_empty, unfolded e]]
    conjunct2 [OF create_corporation_exact [OF sample_reach_empty, unfolded e], rule_format]
  have "is_ok (CreateCorporation (re_group (sample_X 10)) (demo_env 10) (\<lambda>s. Some (''https'', ''h'')) ''''
      co_empty gf_empty (sample_create_co ''did:x:a''))"
    unfolding p(1) using sample_create_co_valid by (simp add: co_empty_def)
  moreover obtain g' c' f' where ok: "CreateCorporation (re_group (sample_X 10)) (demo_env 10)
      (\<lambda>s. Some (''https'', ''h'')) '''' co_empty gf_empty (sample_create_co ''did:x:a'') =
      Inr ((1, ''p''), g', c', f')"
    using sample_create_co_valid(1)
    by (auto simp: CreateCorporation_ok_iff khas_def gf_empty_def co_empty_def co_last_id_def)
  ultimately show ?thesis using p(2) [OF ok] by auto
qed

text \<open>An accepted MsgUpdateCorporation comes from an authorized operator
  of the corporation that owns the account, replaces that corporation's DID and nothing
  else, keeps what every account resolves to, and frees the DID it had.\<close>

theorem did_rotation:
  assumes r: "rg_reach t r grp" and ok: "UpdateCorporation E de (rg_co r) m = Inr c'"
  shows "\<exists>i co. resolve_id (rg_co r) (uc_corporation m) = Some i \<and> kget (cos_corporations (rg_co r)) i = Some co \<and>
      CheckOperatorAuthorization (resolve_id (rg_co r)) de (uc_corporation m) (uc_operator m)
        ''/verana.co.v1.MsgUpdateCorporation'' (se_block_time E) = Inr () \<and>
      (\<forall>j. kget (cos_corporations c') j = (if j = i then Some (co\<lparr>co_did := uc_did m,
          co_modified := if co_did co = uc_did m then co_modified co else se_block_time E\<rparr>)
         else kget (cos_corporations (rg_co r)) j)) \<and>
      (\<forall>a. resolve_id c' a = resolve_id (rg_co r) a) \<and>
      (co_did co \<noteq> uc_did m \<longrightarrow> \<not> khas (cos_by_did c') (co_did co))"
proof -
  note inv = reach_inv(1) [OF r]
  obtain i co where p: "kget (cos_by_policy (rg_co r)) (uc_corporation m) = Some i"
    and co: "kget (cos_corporations (rg_co r)) i = Some co"
    and auth: "CheckOperatorAuthorization (resolve_id (rg_co r)) de (uc_corporation m) (uc_operator m)
        ''/verana.co.v1.MsgUpdateCorporation'' (se_block_time E) = Inr ()"
    and c': "uc_did m = co_did co \<and> c' = rg_co r \<or> uc_did m \<noteq> co_did co \<and>
       c' = (rg_co r)\<lparr>cos_by_did := kset (kremove (cos_by_did (rg_co r)) (co_did co)) (uc_did m) (co_id co),
            cos_corporations := kset (cos_corporations (rg_co r)) (co_id co)
              (co\<lparr>co_did := uc_did m, co_modified := se_block_time E\<rparr>)\<rparr>"
    using ok unfolding UpdateCorporation_ok_iff by blast
  have i: "co_id co = i" using co_inv_id [OF inv co] by simp
  then have res: "resolve_id (rg_co r) (uc_corporation m) = Some i"
    using p co by (simp add: resolve_id_def ResolveCorporationByPolicyAddress_def)
  have all: "kget (cos_corporations c') j = (if j = i then Some (co\<lparr>co_did := uc_did m,
          co_modified := if co_did co = uc_did m then co_modified co else se_block_time E\<rparr>)
         else kget (cos_corporations (rg_co r)) j)" for j
    using c' co i by (auto simp: kget_kset)
  have "resolve_id c' a = resolve_id (rg_co r) a" for a
    using c' co i by (auto simp: resolve_id_def ResolveCorporationByPolicyAddress_def kget_kset split: option.split)
  moreover have "co_did co \<noteq> uc_did m \<longrightarrow> \<not> khas (cos_by_did c') (co_did co)"
    using c' by auto
  ultimately show ?thesis using res co auth all by blast
qed

definition sample_update_co :: msg_update_co where
  "sample_update_co = \<lparr>uc_corporation = ''p'', uc_operator = ''o'', uc_did = ''did:x:n''\<rparr>"

lemma sample_resolve_p: "resolve_id sample_co ''p'' = Some 1" "resolve_id sample_co ''pp'' = Some 2"
  by (simp_all add: resolve_id_def ResolveCorporationByPolicyAddress_def sample_co_def add_corporation_get)

lemma did_rotation_witness: "\<exists>c' i co. rg_reach 13 sample_rg ''pp'' \<and>
    UpdateCorporation (demo_env 14) sample_delegations sample_co sample_update_co = Inr c' \<and>
    resolve_id sample_co ''p'' = Some i \<and> kget (cos_corporations sample_co) i = Some co \<and>
    \<not> khas (cos_by_did c') (co_did co)"
proof -
  have co: "rg_co sample_rg = sample_co" by (simp add: sample_rg_def)
  have v: "validate_update_co (demo_env 14) sample_update_co = Inr ()"
    by (simp add: validate_update_co_def sample_update_co_def) code_simp
  have "\<exists>c'. UpdateCorporation (demo_env 14) sample_delegations sample_co sample_update_co = Inr c'"
    unfolding UpdateCorporation_ok_iff using v sample_delegations_ok [of "resolve_id sample_co" "''p''"] sample_resolve_p
    by (auto simp: sample_update_co_def sample_co_def add_corporation_get sample_create_co_def VPRDelegableMsgTypes_def
       khas_def)
  then obtain c' where ok: "UpdateCorporation (demo_env 14) sample_delegations sample_co sample_update_co = Inr c'" ..
  have "kget (cos_corporations sample_co) 1 = Some (new_corporation 1 ''p'' (sample_create_co ''did:x:a'') 10)"
    by (simp add: sample_co_def add_corporation_get)
  with did_rotation [OF sample_reach, unfolded co, OF ok] ok show ?thesis
    using sample_reach sample_resolve_p(1)
    by (auto simp: sample_update_co_def sample_create_co_def)
qed

end
