(* ===== verification/Framework_Props.thy ===== *)
theory Framework_Props
imports Registry_Props
begin

text \<open>
  The properties of governance frameworks: the refinement, what no message can change, and
  exactly which messages are accepted.
\<close>

section \<open>Governance frameworks\<close>

text \<open>C9 registry_refines_frameworks: every message executed on a reachable state is one
  event of the abstract machine of governance frameworks: a registration with a first
  document, a document for a version that is not active yet, the activation of the next
  version, or nothing.\<close>

theorem registry_refines_frameworks:
  assumes "rg_reach t r grp" "rg_step X (r, grp) op (r', grp')"
  shows "fw_apply (rg_event r op) (frameworks r) = Some (frameworks r')"
  by (rule step_simulated [OF rg_reach_inv [OF assms(1)] assms(2)])

lemma sample_first_step: "rg_step (sample_X 10) (rg_empty, '''') (Rg_Create_Corporation (sample_create_co ''did:x:a''))
    (\<lparr>rg_co = add_corporation co_empty (new_corporation 1 ''p'' (sample_create_co ''did:x:a'') 10), rg_ec = ec_empty,
      rg_gf = sample_seed gf_empty (SubjectCorporation 1) 10\<rparr>, ''p'')"
  using sample_create_corporation [of "''did:x:a''" rg_empty "''''" 10] by (simp add: rg_empty_def)

lemma registry_refines_frameworks_witness: "\<exists>op r'. rg_step (sample_X 10) (rg_empty, '''') op (r', ''p'') \<and>
    fw_apply (rg_event rg_empty op) (frameworks rg_empty) = Some (frameworks r')"
  using sample_first_step registry_refines_frameworks [OF sample_reach_empty sample_first_step] by blast

text \<open>Any number of messages, in blocks whose times never go back.\<close>

definition rg_timed :: "time \<times> registry \<times> 'g \<Rightarrow> time \<times> registry \<times> 'g \<Rightarrow> bool" where
  "rg_timed s s' = (case (s, s') of ((t, r, grp), (t', r', grp')) \<Rightarrow>
     \<exists>X op. t \<le> t' \<and> se_block_time (re_sdk X) = t' \<and> group_addr_ok X \<and> rg_step X (r, grp) op (r', grp'))"

lemma rg_timed_reach: "rg_reach t r grp \<Longrightarrow> rg_timed (t, r, grp) (t', r', grp') \<Longrightarrow> rg_reach t' r' grp'"
  by (auto simp: rg_timed_def intro: rg_next)

definition view_grows :: "registry \<Rightarrow> registry \<Rightarrow> subject \<Rightarrow> bool" where
  "view_grows r r' sub \<longleftrightarrow> (\<forall>f. frameworks r sub = Some f \<longrightarrow> (\<exists>f'. frameworks r' sub = Some f' \<and>
     fw_language f' = fw_language f \<and> fw_active f \<le> fw_active f' \<and>
     (\<forall>v l. v \<le> fw_active f \<longrightarrow> fw_docs f' v l = fw_docs f v l)))"

lemma view_grows_refl: "view_grows r r sub"
  by (simp add: view_grows_def)

lemma view_grows_trans:
  assumes "view_grows r r' sub" "view_grows r' r'' sub"
  shows "view_grows r r'' sub"
  unfolding view_grows_def
proof (intro allI impI)
  fix f
  assume "frameworks r sub = Some f"
  with assms(1) obtain f' where f': "frameworks r' sub = Some f'" "fw_language f' = fw_language f"
      "fw_active f \<le> fw_active f'" "\<forall>v l. v \<le> fw_active f \<longrightarrow> fw_docs f' v l = fw_docs f v l"
    unfolding view_grows_def by blast
  from assms(2) f'(1) obtain f'' where f'': "frameworks r'' sub = Some f''" "fw_language f'' = fw_language f'"
      "fw_active f' \<le> fw_active f''" "\<forall>v l. v \<le> fw_active f' \<longrightarrow> fw_docs f'' v l = fw_docs f' v l"
    unfolding view_grows_def by blast
  have "\<forall>v l. v \<le> fw_active f \<longrightarrow> fw_docs f'' v l = fw_docs f v l"
    using order_trans [OF _ f'(3)] f'(4) f''(4) by metis
  then show "\<exists>f'. frameworks r'' sub = Some f' \<and> fw_language f' = fw_language f \<and> fw_active f \<le> fw_active f' \<and>
     (\<forall>v l. v \<le> fw_active f \<longrightarrow> fw_docs f' v l = fw_docs f v l)"
    using f' f'' by (intro exI [of _ f'']) simp
qed

lemma rg_step_grows:
  assumes "rg_reach t r grp" "rg_timed (t, r, grp) (t', r', grp')"
  shows "view_grows r r' sub"
proof -
  obtain X op where "rg_step X (r, grp) op (r', grp')" using assms(2) by (auto simp: rg_timed_def)
  from step_simulated [OF rg_reach_inv [OF assms(1)] this] show ?thesis
    unfolding view_grows_def using fw_apply_keeps_active by blast
qed

lemma rg_run_grows:
  assumes "rg_timed\<^sup>*\<^sup>* s s'"
  shows "rg_reach (fst s) (fst (snd s)) (snd (snd s)) \<Longrightarrow>
    rg_reach (fst s') (fst (snd s')) (snd (snd s')) \<and> view_grows (fst (snd s)) (fst (snd s')) sub"
  using assms
proof (induction rule: rtranclp_induct)
  case base
  then show ?case by (simp add: view_grows_refl)
next
  case (step y z)
  obtain t r grp t' r' grp' where yz: "y = (t, r, grp)" "z = (t', r', grp')" by (metis prod_cases3)
  have y: "rg_reach t r grp" "view_grows (fst (snd s)) r sub" using step.IH [OF step.prems] yz by simp_all
  have "rg_timed (t, r, grp) (t', r', grp')" using step.hyps(2) yz by simp
  then have "rg_reach t' r' grp'" "view_grows r r' sub" using rg_timed_reach [OF y(1)] rg_step_grows [OF y(1)] by blast+
  then show ?case using y(2) view_grows_trans yz by auto
qed

lemma frameworks_view: "frameworks r sub = Some f \<longleftrightarrow> (\<exists>lang a. subject_view r sub = Some (lang, a) \<and>
    f = \<lparr>fw_language = lang, fw_active = a, fw_top = gf_max (rg_gf r) sub, fw_docs = version_document (rg_gf r) sub\<rparr>)"
  by (auto simp: frameworks_def split: option.split)

text \<open>C15 active_framework_immutable: no sequence of messages ever changes the URL or the
  digest of a document of a version that is active or has been, unregisters a subject,
  changes its language or lowers its active version.\<close>

theorem active_framework_immutable:
  assumes "rg_reach t r grp" "rg_timed\<^sup>*\<^sup>* (t, r, grp) (t', r', grp')"
    and "subject_view r sub = Some (lang, a)"
  shows "\<exists>a'. subject_view r' sub = Some (lang, a') \<and> a \<le> a' \<and>
    (\<forall>v l. v \<le> a \<longrightarrow> version_document (rg_gf r') sub v l = version_document (rg_gf r) sub v l)"
proof -
  have "frameworks r sub = Some \<lparr>fw_language = lang, fw_active = a, fw_top = gf_max (rg_gf r) sub,
      fw_docs = version_document (rg_gf r) sub\<rparr>"
    unfolding frameworks_view using assms(3) by blast
  moreover have "view_grows r r' sub" using rg_run_grows [OF assms(2)] assms(1) by simp
  ultimately show ?thesis unfolding view_grows_def frameworks_view by fastforce
qed

definition sample_rg1 :: registry where
  "sample_rg1 = \<lparr>rg_co = add_corporation co_empty (new_corporation 1 ''p'' (sample_create_co ''did:x:a'') 10),
     rg_ec = ec_empty, rg_gf = sample_seed gf_empty (SubjectCorporation 1) 10\<rparr>"

lemma sample_reach1: "rg_reach 10 sample_rg1 ''p''"
  using rg_next [where X = "sample_X 10", OF sample_reach_empty _ sample_group_ok sample_first_step]
  by (simp add: sample_rg1_def)

lemma sample_second_step: "rg_timed (10, sample_rg1, ''p'') (11, sample_rg2, ''pp'')"
proof -
  have "rg_step (sample_X 11) (sample_rg1, ''p'') (Rg_Create_Corporation (sample_create_co ''did:x:b''))
      (sample_rg2, ''pp'')"
    using sample_create_corporation [of "''did:x:b''" sample_rg1 "''p''" 11]
    by (simp add: sample_rg1_def sample_rg2_def sample_co_def sample_unseeded sample_create_co_def
        new_corporation_def numeral_2_eq_2)
  then show ?thesis
    unfolding rg_timed_def prod.case using sample_group_ok [of 11]
    by (intro exI [of _ "sample_X 11"] exI [of _ "Rg_Create_Corporation (sample_create_co ''did:x:b'')"])
      (simp del: rg_step_simps)
qed

lemma active_framework_immutable_witness:
  "rg_timed (10, sample_rg1, ''p'') (11, sample_rg2, ''pp'') \<and>
   (\<exists>a'. subject_view sample_rg2 (SubjectCorporation 1) = Some (''en'', a') \<and> 1 \<le> a' \<and>
     version_document (rg_gf sample_rg2) (SubjectCorporation 1) 1 ''en'' =
     version_document (rg_gf sample_rg1) (SubjectCorporation 1) 1 ''en'')"
proof -
  have "subject_view sample_rg1 (SubjectCorporation 1) = Some (''en'', 1)"
    by (simp add: sample_rg1_def subject_view_def add_corporation_get sample_create_co_def)
  from active_framework_immutable [OF sample_reach1 r_into_rtranclp [of rg_timed, OF sample_second_step] this]
  show ?thesis using sample_second_step by auto
qed

text \<open>What \<open>resolveSubject\<close> checks.\<close>

definition controls :: "registry \<Rightarrow> string \<Rightarrow> nat \<Rightarrow> bool" where
  "controls r corp eid \<longleftrightarrow> (\<exists>c. resolve_id (rg_co r) corp = Some c \<and> (eid \<noteq> 0 \<longrightarrow>
     (\<exists>e. kget (ecs_ecosystems (rg_ec r)) eid = Some e \<and> ec_corporation_id e = c)))"

lemma resolveSubject_iff:
  assumes "co_inv (rg_co r)" "ec_inv (rg_ec r)"
  shows "resolveSubject (rg_co r) (rg_ec r) corp eid = Inr sub \<longleftrightarrow> controls r corp eid \<and>
    sj_owner sub = op_subject r corp eid \<and>
    subject_view r (op_subject r corp eid) = Some (sj_language sub, sj_active_version sub)"
proof
  assume ok: "resolveSubject (rg_co r) (rg_ec r) corp eid = Inr sub"
  note o = resolveSubject_owner [OF assms ok]
  show "controls r corp eid \<and> sj_owner sub = op_subject r corp eid \<and>
    subject_view r (op_subject r corp eid) = Some (sj_language sub, sj_active_version sub)"
    using resolveSubject_ok [OF assms ok, unfolded o] o
    by (cases "op_subject r corp eid") (auto simp: controls_def resolve_id_iff)
next
  assume c: "controls r corp eid \<and> sj_owner sub = op_subject r corp eid \<and>
    subject_view r (op_subject r corp eid) = Some (sj_language sub, sj_active_version sub)"
  then obtain co where co: "ResolveCorporationByPolicyAddress (rg_co r) corp = Inr co"
      "eid \<noteq> 0 \<longrightarrow> (\<exists>e. kget (ecs_ecosystems (rg_ec r)) eid = Some e \<and> ec_corporation_id e = co_id co)"
    by (auto simp: controls_def resolve_id_iff)
  then have "is_ok (resolveSubject (rg_co r) (rg_ec r) corp eid)"
    using resolve_adapter [of "rg_co r" corp co]
    by (auto simp: resolveSubject_def GetEcosystemView_def)
  then obtain sub' where s: "resolveSubject (rg_co r) (rg_ec r) corp eid = Inr sub'" by (auto simp: is_ok_iff)
  have "sub' = sub"
    using resolveSubject_owner [OF assms s] resolveSubject_ok(1) [OF assms s] c
    by (auto intro: resolved_subject.equality)
  with s show "resolveSubject (rg_co r) (rg_ec r) corp eid = Inr sub" by simp
qed

text \<open>C32 add_document_accepted_iff: a document is accepted exactly when the message is
  well formed, the operator is authorized, the signing corporation is the subject or owns
  it, and the version is not active yet and is at most the one after the last (a uint32).\<close>

theorem add_document_accepted_iff:
  assumes "rg_reach t r grp"
  shows "is_ok (AddGovernanceFrameworkDocument parse de (rg_co r) (rg_ec r) now (rg_gf r) m) \<longleftrightarrow>
     validate_add_gfd parse m = Inr () \<and>
     CheckOperatorAuthorization (resolve_id (rg_co r)) de (ag_corporation m) (ag_operator m)
        ''/verana.gf.v1.MsgAddGovernanceFrameworkDocument'' now = Inr () \<and>
     controls r (ag_corporation m) (ag_ecosystem_id m) \<and>
     (\<exists>lang a. subject_view r (op_subject r (ag_corporation m) (ag_ecosystem_id m)) = Some (lang, a) \<and>
        a < ag_version m \<and> ag_version m < 2 ^ 32 \<and>
        ag_version m \<le> gf_max (rg_gf r) (op_subject r (ag_corporation m) (ag_ecosystem_id m)) + 1)"
    (is "?l \<longleftrightarrow> ?v \<and> ?a \<and> ?c \<and> ?n")
proof -
  note i = reach_inv [OF assms]
  have one: "1 \<le> ag_version m" if ?v using that by (auto simp: validate_add_gfd_def split: if_splits)
  have "?l \<longleftrightarrow> ?v \<and> ?a \<and> (\<exists>sub. resolveSubject (rg_co r) (rg_ec r) (ag_corporation m) (ag_ecosystem_id m) = Inr sub \<and>
        addable (rg_gf r) sub (ag_version m))"
    unfolding is_ok_iff AddDocument_ok_iff [OF i(3)] by blast
  also have "\<dots> \<longleftrightarrow> ?v \<and> ?a \<and> ?c \<and> ?n" (is "?v \<and> ?a \<and> ?x \<longleftrightarrow> _")
  proof (cases ?v)
    case True
    have "?x \<longleftrightarrow> ?c \<and> ?n"
    proof
      assume ?x
      then show "?c \<and> ?n" unfolding resolveSubject_iff [OF i(1,2)] addable_def by auto
    next
      assume n: "?c \<and> ?n"
      then obtain lang a where "subject_view r (op_subject r (ag_corporation m) (ag_ecosystem_id m)) = Some (lang, a)"
        "a < ag_version m" "ag_version m < 2 ^ 32"
        "ag_version m \<le> gf_max (rg_gf r) (op_subject r (ag_corporation m) (ag_ecosystem_id m)) + 1" by blast
      then show ?x
        unfolding resolveSubject_iff [OF i(1,2)] addable_def using n one [OF True]
        by (intro exI [of _ "\<lparr>sj_owner = op_subject r (ag_corporation m) (ag_ecosystem_id m), sj_language = lang,
              sj_active_version = a\<rparr>"]) simp
    qed
    then show ?thesis by blast
  qed simp
  finally show ?thesis .
qed

definition sample_add_gfd :: "int \<Rightarrow> msg_add_gfd" where
  "sample_add_gfd v = \<lparr>ag_corporation = ''p'', ag_operator = ''o'', ag_ecosystem_id = 0, ag_language = ''en'',
     ag_url = ''u'', ag_digest = ''sha256-A'', ag_version = v\<rparr>"

lemma sample_view: "subject_view sample_rg (SubjectCorporation 1) = Some (''en'', 1)"
  by (simp add: sample_rg_def sample_co_def subject_view_def add_corporation_get sample_create_co_def)

lemma sample_lookup: "gf_lookup sample_gf (SubjectCorporation 1) v = (if v = 1 then Some 1 else None)"
  by (simp add: sample_gf_def sample_unseeded del: One_nat_def) (simp add: gf_last_id_def gf_empty_def)

lemma sample_max: "gf_max sample_gf (SubjectCorporation 1) = 1"
proof (rule gf_max_eqI)
  have "rg_gf sample_rg = sample_gf" by (simp add: sample_rg_def)
  then show "gf_versions_ok sample_gf" using reach_inv(3) [OF sample_reach] gf_okD(1) by simp
qed (auto simp: sample_lookup simp del: One_nat_def split: if_splits)

lemma add_document_accepted_iff_witness:
  "is_ok (AddGovernanceFrameworkDocument (\<lambda>s. Some (''https'', ''h'')) sample_delegations sample_co sample_ec 14
      sample_gf (sample_add_gfd 2)) \<and>
   \<not> is_ok (AddGovernanceFrameworkDocument (\<lambda>s. Some (''https'', ''h'')) sample_delegations sample_co sample_ec 14
      sample_gf (sample_add_gfd 1)) \<and>
   \<not> is_ok (AddGovernanceFrameworkDocument (\<lambda>s. Some (''https'', ''h'')) sample_delegations sample_co sample_ec 14
      sample_gf (sample_add_gfd 3))"
proof -
  have r: "rg_co sample_rg = sample_co" "rg_ec sample_rg = sample_ec" "rg_gf sample_rg = sample_gf"
    by (simp_all add: sample_rg_def)
  have v: "validate_add_gfd (\<lambda>s. Some (''https'', ''h'')) (sample_add_gfd 2) = Inr ()"
    by (simp add: validate_add_gfd_def sample_add_gfd_def IsValidURL_def) code_simp
  have s: "op_subject sample_rg ''p'' 0 = SubjectCorporation 1" "controls sample_rg ''p'' 0"
    by (simp_all add: op_subject_def controls_def r sample_resolve_p)
  have a: "CheckOperatorAuthorization (resolve_id sample_co) sample_delegations ''p'' ''o''
      ''/verana.gf.v1.MsgAddGovernanceFrameworkDocument'' 14 = Inr ()"
    by (rule sample_delegations_ok) (simp_all add: sample_resolve_p VPRDelegableMsgTypes_def)
  note p = add_document_accepted_iff [OF sample_reach, unfolded r]
  have m: "ag_corporation (sample_add_gfd v) = ''p''" "ag_operator (sample_add_gfd v) = ''o''"
    "ag_ecosystem_id (sample_add_gfd v) = 0" "ag_version (sample_add_gfd v) = v" for v
    by (simp_all add: sample_add_gfd_def)
  show ?thesis unfolding p m s using v a s(2) by (simp add: sample_view sample_max del: One_nat_def)
qed

text \<open>The next version is activated exactly when the message is
  well formed, the operator is authorized, the signing corporation is the subject or owns it,
  a next version exists and it has a document in the subject's language.\<close>

theorem activation_accepted_iff:
  assumes "rg_reach t r grp"
  shows "is_ok (IncreaseActiveGovernanceFrameworkVersion de (rg_co r) (rg_ec r) now (rg_gf r) m) \<longleftrightarrow>
     validate_increase_gfv m = Inr () \<and>
     CheckOperatorAuthorization (resolve_id (rg_co r)) de (ig_corporation m) (ig_operator m)
        ''/verana.gf.v1.MsgIncreaseActiveGovernanceFrameworkVersion'' now = Inr () \<and>
     controls r (ig_corporation m) (ig_ecosystem_id m) \<and>
     (\<exists>lang a. subject_view r (op_subject r (ig_corporation m) (ig_ecosystem_id m)) = Some (lang, a) \<and>
        a < gf_max (rg_gf r) (op_subject r (ig_corporation m) (ig_ecosystem_id m)) \<and>
        version_document (rg_gf r) (op_subject r (ig_corporation m) (ig_ecosystem_id m)) (a + 1) lang \<noteq> None)"
    (is "?l \<longleftrightarrow> ?v \<and> ?a \<and> ?c \<and> ?n")
proof -
  note i = reach_inv [OF assms]
  note inv = rg_reach_inv [OF assms]
  note gv = gf_okD(1) [OF i(3)]
  let ?o = "op_subject r (ig_corporation m) (ig_ecosystem_id m)"
  have set: "is_ok (set_active_version (rg_co r) (rg_ec r) o' v now)" if "subject_view r o' = Some w" for o' v w
    using that by (cases o') (auto simp: subject_view_def set_active_version_def co_SetActiveVersion_def
        SetEcosystemActiveVersion_def)
  have "?l \<longleftrightarrow> ?v \<and> ?a \<and> (\<exists>sub j g. resolveSubject (rg_co r) (rg_ec r) (ig_corporation m) (ig_ecosystem_id m) = Inr sub \<and>
        gf_lookup (rg_gf r) (sj_owner sub) (u32 (sj_active_version sub + 1)) = Some j \<and>
        kget (gfs_versions (rg_gf r)) j = Some g \<and> find_document (rg_gf r) (gv_id g) (sj_language sub) \<noteq> None \<and>
        is_ok (set_active_version (rg_co r) (rg_ec r) (sj_owner sub) (u32 (sj_active_version sub + 1)) now))"
    unfolding is_ok_iff split_paired_Ex Increase_ok_iff by blast
  also have "\<dots> \<longleftrightarrow> ?v \<and> ?a \<and> ?c \<and> ?n" (is "?v \<and> ?a \<and> ?x \<longleftrightarrow> _")
  proof -
    have "?x \<longleftrightarrow> ?c \<and> ?n"
    proof
      assume ?x
      then obtain sub j g where s: "resolveSubject (rg_co r) (rg_ec r) (ig_corporation m) (ig_ecosystem_id m) = Inr sub"
        "gf_lookup (rg_gf r) (sj_owner sub) (u32 (sj_active_version sub + 1)) = Some j"
        "kget (gfs_versions (rg_gf r)) j = Some g" "find_document (rg_gf r) (gv_id g) (sj_language sub) \<noteq> None"
        by blast
      note sub = s(1) [unfolded resolveSubject_iff [OF i(1,2)]]
      then have view: "subject_view r (sj_owner sub) = Some (sj_language sub, sj_active_version sub)" by simp
      have n: "u32 (sj_active_version sub + 1) = sj_active_version sub + 1" by (rule next_version_eq [OF inv view s(2)])
      have "sj_active_version sub + 1 \<le> gf_max (rg_gf r) (sj_owner sub)"
        using gf_max_iff [OF gv, of "sj_owner sub" "sj_active_version sub + 1"] s(2) n by simp
      moreover have "gv_id g = j" using gf_version_ok [OF gv s(3)] by simp
      then have "version_document (rg_gf r) (sj_owner sub) (sj_active_version sub + 1) (sj_language sub) \<noteq> None"
        using s(2,4) n by (simp add: version_document_def)
      ultimately show "?c \<and> ?n" using sub view by auto
    next
      assume c: "?c \<and> ?n"
      then obtain lang a where view: "subject_view r ?o = Some (lang, a)" and top: "a < gf_max (rg_gf r) ?o"
        and doc: "version_document (rg_gf r) ?o (a + 1) lang \<noteq> None" by blast
      have pos: "1 \<le> a" using linked_active [OF i(4) view] gf_lookup_range [OF gv] by blast
      then have n: "u32 (a + 1) = a + 1" using top gf_max_less [OF gv, of ?o] by (simp add: u32_id)
      from doc obtain j where j: "gf_lookup (rg_gf r) ?o (a + 1) = Some j" "find_document (rg_gf r) j lang \<noteq> None"
        by (auto simp: version_document_def split: option.splits)
      from j(1) obtain g where g: "kget (gfs_versions (rg_gf r)) j = Some g" using gf_lookup_iff [OF gv] by blast
      let ?sub = "\<lparr>sj_owner = ?o, sj_language = lang, sj_active_version = a\<rparr>"
      have "resolveSubject (rg_co r) (rg_ec r) (ig_corporation m) (ig_ecosystem_id m) = Inr ?sub"
        unfolding resolveSubject_iff [OF i(1,2)] using c view by simp
      then show ?x
        using j g n set [OF view] gf_version_ok [OF gv g] by (intro exI [of _ ?sub] exI [of _ j] exI [of _ g]) simp
    qed
    then show ?thesis by blast
  qed
  finally show ?thesis .
qed

definition sample_increase :: msg_increase_gfv where
  "sample_increase = \<lparr>ig_corporation = ''p'', ig_operator = ''o'', ig_ecosystem_id = 0\<rparr>"

lemma activation_accepted_iff_witness:
  "\<not> is_ok (IncreaseActiveGovernanceFrameworkVersion sample_delegations sample_co sample_ec 14 sample_gf sample_increase)"
proof -
  have r: "rg_co sample_rg = sample_co" "rg_ec sample_rg = sample_ec" "rg_gf sample_rg = sample_gf"
    by (simp_all add: sample_rg_def)
  have s: "op_subject sample_rg ''p'' 0 = SubjectCorporation 1"
    by (simp add: op_subject_def r sample_resolve_p)
  note p = activation_accepted_iff [OF sample_reach, unfolded r]
  have m: "ig_corporation sample_increase = ''p''" "ig_ecosystem_id sample_increase = 0"
    by (simp_all add: sample_increase_def)
  show ?thesis unfolding p m s by (simp add: sample_view sample_max del: One_nat_def)
qed

section \<open>Listings\<close>

definition listed :: "gf_state \<Rightarrow> int option \<Rightarrow> string \<Rightarrow> gf_version list \<Rightarrow> (gf_version \<times> gf_document list) list" where
  "listed s only lang gs = map (\<lambda>g. (g, collectDocs s (gv_id g) lang))
     (filter (\<lambda>g. only = None \<or> only = Some (gv_version g)) gs)"

lemma fetch_versions_eq:
  assumes "list_all2 (\<lambda>i g. kget (gfs_versions s) i = Some g) is gs"
  shows "fetch_versions s only lang is = Inr (listed s only lang gs)"
  using assms by (induction rule: list_all2_induct) (auto simp: listed_def)

lemma sorted_versions_list:
  assumes "gf_versions_ok s"
  shows "\<exists>gs. list_all2 (\<lambda>i g. kget (gfs_versions s) i = Some g) (map snd (gf_versions_of s sub)) gs \<and>
    map gv_version gs = [1..gf_max s sub] \<and> (\<forall>g \<in> set gs. gf_lookup s sub (gv_version g) = Some (gv_id g))"
proof -
  let ?xs = "gf_versions_of s sub"
  have mem: "gf_lookup s sub (snd (fst e)) = Some (snd e)" if "e \<in> set ?xs" for e
    using that gf_versions_of_mem [of "fst (fst e)" "snd (fst e)" "snd e" s sub] by simp
  have got: "\<exists>g. kget (gfs_versions s) (snd e) = Some g \<and> gv_version g = snd (fst e)" if "e \<in> set ?xs" for e
    using mem [OF that] gf_lookup_iff [OF assms] by blast
  let ?gs = "map (\<lambda>e. the (kget (gfs_versions s) (snd e))) ?xs"
  have all2: "list_all2 (\<lambda>i g. kget (gfs_versions s) i = Some g) (map snd ?xs) ?gs"
    by (auto simp: list_all2_conv_all_nth dest!: got [OF nth_mem])
  have v: "map gv_version ?gs = map (\<lambda>e. snd (fst e)) ?xs" using got by force
  have "sorted_wrt (<) (map (\<lambda>e. snd (fst e)) ?xs)"
    by (cases sub) (simp_all add: gf_versions_of_def prefixed_sorted)
  moreover have "set (map (\<lambda>e. snd (fst e)) ?xs) = {1..gf_max s sub}"
  proof (intro set_eqI iffI)
    fix w
    assume "w \<in> set (map (\<lambda>e. snd (fst e)) ?xs)"
    then have "gf_lookup s sub w \<noteq> None" using mem by auto
    then show "w \<in> {1..gf_max s sub}" using gf_max_iff [OF assms] by simp
  next
    fix w
    assume "w \<in> {1..gf_max s sub}"
    then obtain i where "gf_lookup s sub w = Some i" using gf_max_iff [OF assms, of sub w] by auto
    then have "((subject_id sub, w), i) \<in> set ?xs" by (simp add: gf_versions_of_mem)
    then show "w \<in> set (map (\<lambda>e. snd (fst e)) ?xs)" by force
  qed
  ultimately have asc: "map (\<lambda>e. snd (fst e)) ?xs = [1..gf_max s sub]"
    using strict_sorted_equal [of "map (\<lambda>e. snd (fst e)) ?xs" "[1..gf_max s sub]"] by simp
  have "\<forall>g \<in> set ?gs. gf_lookup s sub (gv_version g) = Some (gv_id g)"
    using got mem gf_version_ok [OF assms] by force
  then show ?thesis using all2 v asc by (intro exI [of _ ?gs]) simp
qed

lemma distinct_filter_one: "distinct xs \<Longrightarrow> x \<in> set xs \<Longrightarrow> filter (\<lambda>y. y = x) xs = [x]"
  by (induction xs) (auto simp: filter_empty_conv)

lemma list_versions_spec:
  assumes "gf_versions_ok s"
  shows "\<exists>gs. list_versions s sub only lang = Inr (listed s only lang gs) \<and> map gv_version gs = [1..gf_max s sub] \<and>
    (\<forall>g \<in> set gs. gf_lookup s sub (gv_version g) = Some (gv_id g))"
proof -
  obtain gs where gs: "list_all2 (\<lambda>i g. kget (gfs_versions s) i = Some g) (map snd (gf_versions_of s sub)) gs"
    "map gv_version gs = [1..gf_max s sub]" "\<forall>g \<in> set gs. gf_lookup s sub (gv_version g) = Some (gv_id g)"
    using sorted_versions_list [OF assms] by blast
  have "sorted (map (\<lambda>v. gv_version (fst v)) (listed s only lang gs))"
  proof -
    have "sorted (map gv_version gs)" by (simp add: gs(2))
    then show ?thesis by (simp add: listed_def comp_def sorted_filter)
  qed
  then have "sort_key (\<lambda>v. gv_version (fst v)) (listed s only lang gs) = listed s only lang gs"
    by (rule sort_key_id_if_sorted)
  then show ?thesis using gs fetch_versions_eq [OF gs(1)] by (auto simp: list_versions_def)
qed

text \<open>On a reachable state the listing of a registered subject never
  fails and returns, with their documents, all its versions in ascending order from 1 to the
  last without a gap; restricted to the active version it returns that version alone.\<close>

theorem framework_listing:
  assumes r: "rg_reach t r grp" and view: "subject_view r sub = Some (l, a)"
  shows "\<exists>vs. (case sub of SubjectCorporation c \<Rightarrow> ListVersionsByCorporation (rg_gf r) c a activeOnly lang
       | SubjectEcosystem e \<Rightarrow> ListVersionsByEcosystem (rg_gf r) e a activeOnly lang) = Inr vs \<and>
    map (\<lambda>v. gv_version (fst v)) vs = (if activeOnly then [a] else [1..gf_max (rg_gf r) sub]) \<and>
    (\<forall>(g, ds) \<in> set vs. gf_lookup (rg_gf r) sub (gv_version g) = Some (gv_id g) \<and>
       ds = collectDocs (rg_gf r) (gv_id g) lang)"
proof -
  note i = reach_inv [OF r]
  note gv = gf_okD(1) [OF i(3)]
  let ?only = "if activeOnly then Some a else None"
  obtain gs where gs: "list_versions (rg_gf r) sub ?only lang = Inr (listed (rg_gf r) ?only lang gs)"
    "map gv_version gs = [1..gf_max (rg_gf r) sub]" "\<forall>g \<in> set gs. gf_lookup (rg_gf r) sub (gv_version g) = Some (gv_id g)"
    using list_versions_spec [OF gv, of sub ?only lang] by blast
  have b: "a \<in> {1..gf_max (rg_gf r) sub}"
    using linked_active [OF i(4) view] gf_max_iff [OF gv, of sub a] by auto
  have "map (\<lambda>v. gv_version (fst v)) (listed (rg_gf r) ?only lang gs) =
      filter (\<lambda>w. activeOnly \<longrightarrow> w = a) (map gv_version gs)"
    by (auto simp: listed_def filter_map comp_def intro!: arg_cong [of _ _ "map gv_version"] filter_cong)
  also have "\<dots> = (if activeOnly then [a] else [1..gf_max (rg_gf r) sub])"
    using b distinct_filter_one [of "[1..gf_max (rg_gf r) sub]" a] by (simp add: gs(2))
  finally show ?thesis
    using gs(1,3) linked_active [OF i(4) view]
    by (cases sub) (auto simp: listed_def ListVersionsByCorporation_def ListVersionsByEcosystem_def)
qed

lemma framework_listing_witness:
  "(\<exists>vs. ListVersionsByCorporation sample_gf 1 1 False [] = Inr vs \<and> map (\<lambda>v. gv_version (fst v)) vs = [1]) \<and>
   (\<exists>vs. ListVersionsByEcosystem sample_gf 1 1 True [] = Inr vs \<and> map (\<lambda>v. gv_version (fst v)) vs = [1])"
proof -
  have r: "rg_gf sample_rg = sample_gf" by (simp add: sample_rg_def)
  have e: "subject_view sample_rg (SubjectEcosystem 1) = Some (''en'', 1)"
    by (simp add: sample_rg_def sample_ec_def subject_view_def add_ecosystem_get sample_create_ec_def)
  have "[1..1] = [1 :: int]" by simp
  with framework_listing [OF sample_reach sample_view, unfolded r, of False "[]"]
    framework_listing [OF sample_reach e, unfolded r, of True "[]"]
  show ?thesis by (auto simp: sample_max simp del: One_nat_def)
qed

end
