(* ===== verification/Ecosystem_Props.thy ===== *)
theory Ecosystem_Props
imports Framework_Props
begin

text \<open>
  The properties of the ecosystem registry and of the three modules' genesis.
\<close>

section \<open>Who changes an ecosystem\<close>

text \<open>Account, operator and message type URL of the messages that can change an existing
  ecosystem.\<close>

fun ec_signer :: "rg_op \<Rightarrow> (string \<times> string \<times> string) option" where
  "ec_signer (Rg_Update_Ecosystem m) = Some (ue_corporation m, ue_operator m, ''/verana.ec.v1.MsgUpdateEcosystem'')"
| "ec_signer (Rg_Archive_Ecosystem m) = Some (ae_corporation m, ae_operator m, ''/verana.ec.v1.MsgArchiveEcosystem'')"
| "ec_signer (Rg_Increase_Version m) = Some (ig_corporation m, ig_operator m,
     ''/verana.gf.v1.MsgIncreaseActiveGovernanceFrameworkVersion'')"
| "ec_signer _ = None"

definition changed_by :: "'g rg_env \<Rightarrow> registry \<Rightarrow> ecosystem \<Rightarrow> ec_state \<Rightarrow> string \<times> string \<times> string \<Rightarrow> bool" where
  "changed_by X r e s = (\<lambda>(corp, operator, mt).
     resolve_id (rg_co r) corp = Some (ec_corporation_id e) \<and>
     CheckOperatorAuthorization (resolve_id (rg_co r)) (re_de X) corp operator mt (se_block_time (re_sdk X)) = Inr () \<and>
     (\<exists>e'. kget (ecs_ecosystems s) (ec_id e) = Some e' \<and> ec_id e' = ec_id e \<and>
        ec_corporation_id e' = ec_corporation_id e \<and> ec_created e' = ec_created e \<and> ec_language e' = ec_language e))"

lemma changed_byI:
  assumes inv: "ec_inv (rg_ec r)" and e: "kget (ecs_ecosystems (rg_ec r)) i = Some e"
    and old: "kget (ecs_ecosystems (rg_ec r)) j = Some x" and owner: "ec_corporation_id x = c"
    and auth: "resolve_id (rg_co r) corp = Some c"
      "CheckOperatorAuthorization (resolve_id (rg_co r)) (re_de X) corp operator mt (se_block_time (re_sdk X)) = Inr ()"
    and s: "ecs_ecosystems s = kset (ecs_ecosystems (rg_ec r)) (ec_id x) x'" "ec_id x' = ec_id x"
      "ec_corporation_id x' = ec_corporation_id x" "ec_created x' = ec_created x" "ec_language x' = ec_language x"
    and new: "kget (ecs_ecosystems s) i \<noteq> Some e"
  shows "changed_by X r e s (corp, operator, mt)"
proof -
  have "ec_id x = j" "ec_id e = i" using ec_inv_id [OF inv] old e by blast+
  moreover from this have "i = j" using new s(1) e by (auto simp: kget_kset split: if_splits)
  ultimately show ?thesis using e old owner auth s by (simp add: changed_by_def)
qed

lemma authorized_owner:
  assumes "ec_authorize de cs now corp operator mt = Inr co"
  shows "resolve_id cs corp = Some (co_id co)" "CheckOperatorAuthorization (resolve_id cs) de corp operator mt now = Inr ()"
  using assms by (simp_all add: ec_authorize_ok_iff resolve_id_def)

lemma step_changed_by:
  assumes r: "rg_reach t r grp" and step: "rg_step X (r, grp) op (r', grp')"
    and e: "kget (ecs_ecosystems (rg_ec r)) i = Some e" and new: "kget (ecs_ecosystems (rg_ec r')) i \<noteq> Some e"
  shows "\<exists>sig. ec_signer op = Some sig \<and> changed_by X r e (rg_ec r') sig"
proof (cases op)
  case (Rg_Create_Ecosystem m)
  then obtain j c where "ecs_ecosystems (rg_ec r') = kset (ecs_ecosystems (rg_ec r)) (Suc (ec_last_id (rg_ec r))) c"
    using step by (auto simp: CreateEcosystem_ok_iff add_ecosystem_def)
  then have "kget (ecs_ecosystems (rg_ec r')) i = Some e"
    using e ec_inv_id [OF reach_inv(2) [OF r] e] by (simp add: kget_kset)
  with new show ?thesis by simp
next
  case (Rg_Update_Ecosystem m)
  then obtain co x where ok: "ec_authorize (re_de X) (rg_co r) (se_block_time (re_sdk X)) (ue_corporation m) (ue_operator m)
        ''/verana.ec.v1.MsgUpdateEcosystem'' = Inr co"
    and x: "kget (ecs_ecosystems (rg_ec r)) (ue_id m) = Some x" "ec_corporation_id x = co_id co"
    and s: "rg_ec r' = rg_ec r \<or> ecs_ecosystems (rg_ec r') =
      kset (ecs_ecosystems (rg_ec r)) (ec_id x) (x\<lparr>ec_did := ue_did m, ec_modified := se_block_time (re_sdk X)\<rparr>)"
    using step by (auto simp: UpdateEcosystem_ok_iff put_ecosystem_def)
  from s have "ecs_ecosystems (rg_ec r') =
      kset (ecs_ecosystems (rg_ec r)) (ec_id x) (x\<lparr>ec_did := ue_did m, ec_modified := se_block_time (re_sdk X)\<rparr>)"
    using e new by auto
  from changed_byI [OF reach_inv(2) [OF r] e x authorized_owner [OF ok] this _ _ _ _ new] show ?thesis
    by (simp add: Rg_Update_Ecosystem)
next
  case (Rg_Archive_Ecosystem m)
  then obtain e' where e': "ArchiveEcosystem (re_sdk X) (re_de X) (rg_co r) (rg_ec r) m = Inr e'" "r' = r\<lparr>rg_ec := e'\<rparr>"
    using step by auto
  then obtain co x where ok: "ec_authorize (re_de X) (rg_co r) (se_block_time (re_sdk X)) (ae_corporation m) (ae_operator m)
        ''/verana.ec.v1.MsgArchiveEcosystem'' = Inr co"
    and x: "kget (ecs_ecosystems (rg_ec r)) (ae_id m) = Some x" "ec_corporation_id x = co_id co"
    and "e' = put_ecosystem (rg_ec r) (x\<lparr>ec_archived := ae_archive m, ec_modified := se_block_time (re_sdk X)\<rparr>)"
    unfolding ArchiveEcosystem_ok_iff by blast
  then have s: "ecs_ecosystems (rg_ec r') =
      kset (ecs_ecosystems (rg_ec r)) (ec_id x) (x\<lparr>ec_archived := ae_archive m, ec_modified := se_block_time (re_sdk X)\<rparr>)"
    by (simp add: put_ecosystem_def e'(2))
  from changed_byI [OF reach_inv(2) [OF r] e x authorized_owner [OF ok] s _ _ _ _ new] show ?thesis
    by (simp add: Rg_Archive_Ecosystem)
next
  case (Rg_Increase_Version m)
  note inv = reach_inv [OF r]
  obtain f' c' e' where r': "IncreaseActiveGovernanceFrameworkVersion (re_de X) (rg_co r) (rg_ec r)
      (se_block_time (re_sdk X)) (rg_gf r) m = Inr (f', c', e')" "r' = \<lparr>rg_co = c', rg_ec = e', rg_gf = f'\<rparr>"
    using step Rg_Increase_Version by auto
  then obtain sub v where ok: "CheckOperatorAuthorization (resolve_id (rg_co r)) (re_de X) (ig_corporation m) (ig_operator m)
        ''/verana.gf.v1.MsgIncreaseActiveGovernanceFrameworkVersion'' (se_block_time (re_sdk X)) = Inr ()"
    and sub: "resolveSubject (rg_co r) (rg_ec r) (ig_corporation m) (ig_ecosystem_id m) = Inr sub"
    and set: "set_active_version (rg_co r) (rg_ec r) (sj_owner sub) v (se_block_time (re_sdk X)) = Inr (c', e')"
    unfolding Increase_ok_iff by blast
  show ?thesis using set
  proof (cases rule: set_active_version_ok)
    case (corporation c co)
    then show ?thesis using e new r' by simp
  next
    case (ecosystem j x)
    from resolveSubject_ok(2) [OF inv(1,2) sub] obtain co where
      co: "ResolveCorporationByPolicyAddress (rg_co r) (ig_corporation m) = Inr co" "ec_corporation_id x = co_id co"
      using ecosystem(1,2) by auto
    have s: "ecs_ecosystems (rg_ec r') = kset (ecs_ecosystems (rg_ec r)) (ec_id x)
        (x\<lparr>ec_active_version := v, ec_modified := se_block_time (re_sdk X)\<rparr>)" by (simp add: r' ecosystem(3))
    have "resolve_id (rg_co r) (ig_corporation m) = Some (co_id co)" using co(1) by (simp add: resolve_id_def)
    from changed_byI [OF inv(2) e ecosystem(2) co(2) this ok s _ _ _ _ new] show ?thesis
      by (simp add: Rg_Increase_Version)
  qed
qed (use step e new in auto)

text \<open>C19 ecosystem_changed_by_owner: an ecosystem's record changes only by a message signed
  for the corporation that owns it by an operator authorized for that message; the id, the
  owner, the creation time and the language never change.\<close>

theorem ecosystem_changed_by_owner:
  assumes "rg_reach t r grp" "rg_step X (r, grp) op (r', grp')"
    and "kget (ecs_ecosystems (rg_ec r)) i = Some e" "kget (ecs_ecosystems (rg_ec r')) i \<noteq> Some e"
  shows "\<exists>corp operator mt. ec_signer op = Some (corp, operator, mt) \<and>
      resolve_id (rg_co r) corp = Some (ec_corporation_id e) \<and>
      CheckOperatorAuthorization (resolve_id (rg_co r)) (re_de X) corp operator mt (se_block_time (re_sdk X)) = Inr () \<and>
      (\<exists>e'. kget (ecs_ecosystems (rg_ec r')) i = Some e' \<and> ec_id e' = i \<and>
        ec_corporation_id e' = ec_corporation_id e \<and> ec_created e' = ec_created e \<and> ec_language e' = ec_language e)"
  using step_changed_by [OF assms] ec_inv_id [OF reach_inv(2) [OF assms(1)] assms(3)]
  by (auto simp: changed_by_def)

definition sample_archive :: msg_archive_ec where
  "sample_archive = \<lparr>ae_corporation = ''p'', ae_operator = ''o'', ae_id = 1, ae_archive = True\<rparr>"

lemma sample_ec_authorize: "mt \<in> set VPRDelegableMsgTypes \<Longrightarrow> ec_authorize sample_delegations sample_co now ''p'' ''o'' mt =
    Inr (new_corporation 1 ''p'' (sample_create_co ''did:x:a'') 10)"
  unfolding ec_authorize_ok_iff
  by (rule conjI, rule sample_delegations_ok, simp_all add: sample_resolve_p)
    (simp add: ResolveCorporationByPolicyAddress_def sample_co_def add_corporation_get)

lemma sample_ecosystems: "kget (ecs_ecosystems sample_ec) 1 = Some (new_ecosystem 1 1 (sample_create_ec ''p'') 12)"
    "kget (ecs_ecosystems sample_ec) 2 = Some (new_ecosystem 2 1 (sample_create_ec ''p'') 13)"
  by (simp_all add: sample_ec_def add_ecosystem_get)

lemma ecosystem_changed_by_owner_witness:
  "\<exists>r'. rg_step (sample_X 14) (sample_rg, ''pp'') (Rg_Archive_Ecosystem sample_archive) (r', ''pp'') \<and>
     ec_signer (Rg_Archive_Ecosystem sample_archive) = Some (''p'', ''o'', ''/verana.ec.v1.MsgArchiveEcosystem'') \<and>
     resolve_id sample_co ''p'' = Some 1 \<and> (\<exists>e'. kget (ecs_ecosystems (rg_ec r')) 1 = Some e' \<and> ec_corporation_id e' = 1)"
proof -
  have "ArchiveEcosystem (demo_env 14) sample_delegations sample_co sample_ec sample_archive =
      Inr (put_ecosystem sample_ec ((new_ecosystem 1 1 (sample_create_ec ''p'') 12)\<lparr>ec_archived := True, ec_modified := 14\<rparr>))"
    (is "_ = Inr ?s")
    using sample_ec_authorize [of "''/verana.ec.v1.MsgArchiveEcosystem''" 14] sample_ecosystems(1)
    by (simp add: ArchiveEcosystem_ok_iff sample_archive_def validate_archive_ec_def VPRDelegableMsgTypes_def
        new_ecosystem_def)
  then have s: "rg_step (sample_X 14) (sample_rg, ''pp'') (Rg_Archive_Ecosystem sample_archive)
      (sample_rg\<lparr>rg_ec := ?s\<rparr>, ''pp'')"
    by (intro rg_step.archive_ecosystem) (simp add: sample_rg_def)
  have e: "kget (ecs_ecosystems (rg_ec sample_rg)) 1 = Some (new_ecosystem 1 1 (sample_create_ec ''p'') 12)"
    using sample_ecosystems(1) by (simp add: sample_rg_def)
  have "kget (ecs_ecosystems (rg_ec (sample_rg\<lparr>rg_ec := ?s\<rparr>))) 1 \<noteq> Some (new_ecosystem 1 1 (sample_create_ec ''p'') 12)"
    by (simp add: put_ecosystem_def new_ecosystem_def)
  from ecosystem_changed_by_owner [OF sample_reach s e this] s show ?thesis
    by (intro exI [of _ "sample_rg\<lparr>rg_ec := ?s\<rparr>"]) (auto simp: sample_archive_def sample_rg_def simp del: rg_step_simps)
qed

section \<open>One DID, several ecosystems\<close>

lemma assertDIDConsistent_iff: "assertDIDConsistent s did c 0 \<longleftrightarrow> (\<forall>c'. khas (ecs_by_did_corp s) (did, c') \<longrightarrow> c' = c)"
proof
  assume a: "assertDIDConsistent s did c 0"
  show "\<forall>c'. khas (ecs_by_did_corp s) (did, c') \<longrightarrow> c' = c"
  proof (intro allI impI)
    fix c'
    assume "khas (ecs_by_did_corp s) (did, c')"
    then obtain i where "((did, c'), i) \<in> set (prefixed (ecs_by_did_corp s) did)"
      by (auto simp: khas_def prefixed_mem_iff)
    with a show "c' = c" by (fastforce simp: assertDIDConsistent_def list_all_iff)
  qed
next
  assume a: "\<forall>c'. khas (ecs_by_did_corp s) (did, c') \<longrightarrow> c' = c"
  show "assertDIDConsistent s did c 0"
    unfolding assertDIDConsistent_def list_all_iff
    using a by (auto simp: prefixed_mem_iff khas_def)
qed

text \<open>When one of two ecosystems that share a DID changes its own,
  the index entry of the shared DID is removed although the other ecosystem still uses it;
  from then on any corporation can register that DID, which no check allowed before.\<close>

theorem shared_did_released:
  assumes r: "rg_reach t r grp" and ok: "UpdateEcosystem E de (rg_co r) (rg_ec r) m = Inr s'"
    and e: "kget (ecs_ecosystems (rg_ec r)) (ue_id m) = Some e" "ec_did e \<noteq> ue_did m"
    and x: "kget (ecs_ecosystems (rg_ec r)) j = Some x" "j \<noteq> ue_id m"
    and same: "ec_did x = ec_did e" "ec_corporation_id x = ec_corporation_id e"
  shows "kget (ecs_ecosystems s') j = Some x \<and> \<not> khas (ecs_by_did_corp s') (ec_did x, ec_corporation_id x) \<and>
    (assertDIDConsistent (rg_ec r) (ec_did x) (ec_corporation_id x) 0 \<longrightarrow> assertDIDConsistent s' (ec_did x) d 0)"
proof -
  have id: "ec_id e = ue_id m" using ec_inv_id [OF reach_inv(2) [OF r] e(1)] by simp
  have s': "s' = put_ecosystem ((rg_ec r)\<lparr>ecs_by_did_corp := kset (kremove (ecs_by_did_corp (rg_ec r))
        (ec_did e, ec_corporation_id e)) (ue_did m, ec_corporation_id e) (ec_id e)\<rparr>)
      (e\<lparr>ec_did := ue_did m, ec_modified := se_block_time E\<rparr>)"
    using ok e unfolding UpdateEcosystem_ok_iff by auto
  have "kget (ecs_ecosystems s') j = Some x \<and> \<not> khas (ecs_by_did_corp s') (ec_did x, ec_corporation_id x)"
    using x same e(2) id by (simp add: s' put_ecosystem_def)
  moreover have "assertDIDConsistent s' (ec_did x) d 0" if "assertDIDConsistent (rg_ec r) (ec_did x) (ec_corporation_id x) 0"
    using that same e(2) unfolding assertDIDConsistent_iff by (auto simp: s' put_ecosystem_def)
  ultimately show ?thesis by blast
qed

definition sample_update_ec :: msg_update_ec where
  "sample_update_ec = \<lparr>ue_corporation = ''p'', ue_operator = ''o'', ue_id = 2, ue_did = ''did:x:z''\<rparr>"

definition sample_renamed :: ec_state where
  "sample_renamed = put_ecosystem (sample_ec\<lparr>ecs_by_did_corp :=
       kset (kremove (ecs_by_did_corp sample_ec) (''did:x:e'', 1)) (''did:x:z'', 1) 2\<rparr>)
     ((new_ecosystem 2 1 (sample_create_ec ''p'') 13)\<lparr>ec_did := ''did:x:z'', ec_modified := 14\<rparr>)"

lemma sample_consistent: "assertDIDConsistent sample_ec ''did:x:e'' c 0 \<longleftrightarrow> c = 1"
  unfolding assertDIDConsistent_iff
  by (auto simp: sample_ec_def add_ecosystem_def ec_empty_def sample_create_ec_def)

lemma sample_rename: "UpdateEcosystem (demo_env 14) sample_delegations sample_co sample_ec sample_update_ec = Inr sample_renamed"
proof -
  have v: "validate_update_ec (demo_env 14) sample_update_ec = Inr ()"
    by (simp add: validate_update_ec_def sample_update_ec_def) code_simp
  have "assertDIDConsistent sample_ec ''did:x:z'' 1 2"
    unfolding assertDIDConsistent_def list_all_iff
    by (auto simp: prefixed_mem_iff sample_ec_def add_ecosystem_def ec_empty_def sample_create_ec_def
        kget_kset split: if_splits)
  then show ?thesis
    unfolding UpdateEcosystem_ok_iff
    using v sample_ec_authorize [of "''/verana.ec.v1.MsgUpdateEcosystem''" 14] sample_ecosystems(2)
    by (simp add: sample_renamed_def sample_update_ec_def sample_create_ec_def VPRDelegableMsgTypes_def)
qed

text \<open>On the sample, the second corporation takes the DID over and the exported genesis is
  refused by its own validation.\<close>

definition sample_taken :: ec_state where
  "sample_taken = add_ecosystem sample_renamed (new_ecosystem 3 2 (sample_create_ec ''pp'') 15)"

lemma sample_taken_invalid: "\<not> ec_validate_genesis (ec_ExportGenesis sample_taken)"
proof -
  have "walk (ecs_ecosystems sample_taken) = [new_ecosystem 1 1 (sample_create_ec ''p'') 12,
      (new_ecosystem 2 1 (sample_create_ec ''p'') 13)\<lparr>ec_did := ''did:x:z'', ec_modified := 14\<rparr>,
      new_ecosystem 3 2 (sample_create_ec ''pp'') 15]"
    by (simp add: sample_taken_def sample_renamed_def sample_ec_def add_ecosystem_def put_ecosystem_def
        ec_empty_def walk_def ec_last_id_def new_ecosystem_def)
  then show ?thesis
    by (simp add: ec_validate_genesis_def ec_ExportGenesis_def new_ecosystem_def sample_create_ec_def)
qed

lemma shared_did_released_witness:
  "UpdateEcosystem (demo_env 14) sample_delegations sample_co sample_ec sample_update_ec = Inr sample_renamed \<and>
   \<not> assertDIDConsistent sample_ec ''did:x:e'' 2 0 \<and> assertDIDConsistent sample_renamed ''did:x:e'' 2 0 \<and>
   CreateEcosystem (demo_env 15) (\<lambda>s. Some ''https'') sample_delegations sample_co sample_renamed sample_gf
     (sample_create_ec ''pp'') = Inr (3, sample_taken, sample_seed sample_gf (SubjectEcosystem 3) 15) \<and>
   \<not> ec_validate_genesis (ec_ExportGenesis sample_taken)"
proof -
  have r: "rg_co sample_rg = sample_co" "rg_ec sample_rg = sample_ec" by (simp_all add: sample_rg_def)
  note p = shared_did_released [OF sample_reach, unfolded r, OF sample_rename, where j = 1, unfolded sample_update_ec_def,
      simplified, OF sample_ecosystems(2) _ sample_ecosystems(1) [simplified]]
  have free: "assertDIDConsistent sample_renamed ''did:x:e'' 2 0"
    using p [of 2] sample_consistent [of 1] by (simp add: sample_create_ec_def)
  have "ResolveCorporationByPolicyAddress sample_co ''pp'' = Inr (new_corporation 2 ''pp'' (sample_create_co ''did:x:b'') 11)"
    by (simp add: ResolveCorporationByPolicyAddress_def sample_co_def add_corporation_get)
  moreover have "CheckOperatorAuthorization (resolve_id sample_co) sample_delegations ''pp'' ''o''
      ''/verana.ec.v1.MsgCreateEcosystem'' 15 = Inr ()"
    by (rule sample_delegations_ok) (simp_all add: sample_resolve_p VPRDelegableMsgTypes_def)
  moreover have "ec_last_id sample_renamed = 2"
    by (simp add: sample_renamed_def sample_ec_def put_ecosystem_def ec_last_id_def add_ecosystem_def ec_empty_def)
  moreover have "kget (gfs_by_ecosystem sample_gf) (3, 1) = None"
  proof -
    have "gf_lookup sample_gf (SubjectEcosystem 3) 1 = None" by (simp add: sample_gf_def sample_unseeded)
    then show ?thesis by (simp add: gf_lookup_def)
  qed
  moreover have "ce_corporation (sample_create_ec c) = c" "ce_operator (sample_create_ec c) = ''o''"
      "ce_language (sample_create_ec c) = ''en''" "ce_doc_url (sample_create_ec c) = ''u''"
      "ce_doc_digest (sample_create_ec c) = ''sha256-A''" "ce_did (sample_create_ec c) = ''did:x:e''" for c
    by (simp_all add: sample_create_ec_def)
  ultimately have "CreateEcosystem (demo_env 15) (\<lambda>s. Some ''https'') sample_delegations sample_co sample_renamed sample_gf
     (sample_create_ec ''pp'') = Inr (3, sample_taken, sample_seed sample_gf (SubjectEcosystem 3) 15)"
    using free sample_create_ec_valid [of "''pp''" 15]
    by (simp add: CreateEcosystem_ok_iff ec_authorize_ok_iff khas_def sample_taken_def sample_seed_def)
  then show ?thesis using free sample_rename sample_consistent sample_taken_invalid by simp
qed

end
