(* ===== verification/Registry_Genesis.thy ===== *)
theory Registry_Genesis
imports Ecosystem_Props
begin

text \<open>
  Export and import of the three registries' genesis.
\<close>

section \<open>Counters\<close>

text \<open>The last id given out is in use: nothing is ever deleted, so an import, which sets
  the counters to the largest id, restores them.\<close>

definition last_used :: "nat \<Rightarrow> (nat, 'v) store \<Rightarrow> bool" where
  "last_used n m \<longleftrightarrow> n = 0 \<or> kget m n \<noteq> None"

definition counters_tight :: "registry \<Rightarrow> bool" where
  "counters_tight r \<longleftrightarrow> last_used (co_last_id (rg_co r)) (cos_corporations (rg_co r)) \<and>
     last_used (gf_last_id (rg_gf r) ''gfv'') (gfs_versions (rg_gf r)) \<and>
     last_used (gf_last_id (rg_gf r) ''gfd'') (gfs_documents (rg_gf r))"

lemma last_used_kset: "last_used n m \<Longrightarrow> last_used n (kset m k v)"
  by (simp add: last_used_def kget_kset)

lemma last_used_new: "last_used n (kset m n v)"
  by (simp add: last_used_def)

lemma tight_seed:
  assumes "last_used (gf_last_id s ''gfv'') (gfs_versions s)" "last_used (gf_last_id s ''gfd'') (gfs_documents s)"
    "t = seed_version s sub now lang url digest"
  shows "last_used (gf_last_id t ''gfv'') (gfs_versions t) \<and> last_used (gf_last_id t ''gfd'') (gfs_documents t)"
  by (simp add: assms(3) seed_version_eq last_used_def)

lemma tight_upsert:
  assumes "last_used (gf_last_id s ''gfv'') (gfs_versions s)" "last_used (gf_last_id s ''gfd'') (gfs_documents s)"
    "t = upsert_document s i now lang url digest"
  shows "last_used (gf_last_id t ''gfv'') (gfs_versions t) \<and> last_used (gf_last_id t ''gfd'') (gfs_documents t)"
proof (cases "find_document s i lang")
  case None
  then show ?thesis using assms(1) by (simp add: assms(3) upsert_document_eq last_used_def)
next
  case (Some d)
  have "gf_last_id (set_document s d url digest) ty = gf_last_id s ty" for ty
    by (simp add: set_document_def gf_last_id_def)
  with Some show ?thesis
    using assms(1,2) by (simp add: assms(3) upsert_document_eq set_document_def last_used_kset)
qed

lemma tight_add_document:
  assumes ok: "gf_ok (rg_gf r)" and add: "AddGovernanceFrameworkDocument parse de cs es now (rg_gf r) m = Inr f"
    and t: "counters_tight r"
  shows "counters_tight (r\<lparr>rg_gf := f\<rparr>)"
proof -
  obtain sub :: resolved_subject where "f = (let (i, s1) = with_version (rg_gf r) (sj_owner sub) now (ag_version m)
      in upsert_document s1 i now (ag_language m) (ag_url m) (ag_digest m))"
    using add unfolding AddDocument_ok_iff [OF ok] by blast
  then obtain i s1 where w: "with_version (rg_gf r) (sj_owner sub) now (ag_version m) = (i, s1)"
    and f: "f = upsert_document s1 i now (ag_language m) (ag_url m) (ag_digest m)"
    by (cases "with_version (rg_gf r) (sj_owner sub) now (ag_version m)") auto
  have "last_used (gf_last_id s1 ''gfv'') (gfs_versions s1) \<and> last_used (gf_last_id s1 ''gfd'') (gfs_documents s1)"
    using w t by (auto simp: with_version_def counters_tight_def last_used_def split: option.splits)
  then show ?thesis using tight_upsert f t by (simp add: counters_tight_def)
qed

lemma tight_increase:
  assumes "IncreaseActiveGovernanceFrameworkVersion de (rg_co r) (rg_ec r) now (rg_gf r) m = Inr (f', c', e')"
    and t: "counters_tight r"
  shows "counters_tight \<lparr>rg_co = c', rg_ec = e', rg_gf = f'\<rparr>"
proof -
  obtain sub :: resolved_subject and v and g :: gf_version where set: "set_active_version (rg_co r) (rg_ec r) (sj_owner sub) v now = Inr (c', e')"
    and f': "f' = (rg_gf r)\<lparr>gfs_versions := kset (gfs_versions (rg_gf r)) (gv_id g) (g\<lparr>gv_active_since := now\<rparr>)\<rparr>"
    using assms(1) unfolding Increase_ok_iff by blast
  from set have "last_used (co_last_id c') (cos_corporations c')"
    using t by (cases rule: set_active_version_ok) (simp_all add: counters_tight_def co_last_id_def last_used_kset)
  then show ?thesis using t by (simp add: counters_tight_def f' gf_last_id_def last_used_kset)
qed

lemma step_tight:
  assumes r: "rg_reach t r grp" and step: "rg_step X (r, grp) op (r', grp')" and tight: "counters_tight r"
  shows "counters_tight r'"
proof (cases op)
  case (Rg_Create_Corporation m)
  then obtain i a c' f' where c: "CreateCorporation (re_group X) (re_sdk X) (re_parse X) grp (rg_co r) (rg_gf r) m =
      Inr ((i, a), grp', c', f')" "r' = r\<lparr>rg_co := c', rg_gf := f'\<rparr>"
    using step by auto
  then show ?thesis
    using tight tight_seed [OF _ _ refl, of "rg_gf r"] unfolding CreateCorporation_ok_iff
    by (auto simp: counters_tight_def add_corporation_def put_corporation_def co_last_id_def last_used_new)
next
  case (Rg_Create_Ecosystem m)
  then show ?thesis
    using step tight tight_seed [OF _ _ refl, of "rg_gf r"]
    by (auto simp: CreateEcosystem_ok_iff counters_tight_def)
next
  case (Rg_Update_Corporation m)
  then show ?thesis
    using step tight by (auto simp: UpdateCorporation_ok_iff counters_tight_def co_last_id_def last_used_kset)
next
  case (Rg_Add_Document m)
  then show ?thesis using step tight tight_add_document [OF reach_inv(3) [OF r]] by auto
next
  case (Rg_Increase_Version m)
  then show ?thesis using step tight tight_increase by auto
qed (use step tight in \<open>auto simp: counters_tight_def\<close>)

lemma reach_tight: "rg_reach t r grp \<Longrightarrow> counters_tight r"
proof (induction rule: rg_reach.induct)
  case (rg_init t grp)
  then show ?case
    by (simp add: counters_tight_def last_used_def rg_empty_def co_empty_def gf_empty_def co_last_id_def gf_last_id_def)
next
  case (rg_next t r grp X op r' grp')
  show ?case by (rule step_tight [OF rg_next(1,4,5)])
qed

lemma maximum_id_last:
  assumes "last_used n m" "\<And>k v. kget m k = Some v \<Longrightarrow> key v = k \<and> k \<le> n"
  shows "maximum_id key (walk m) = n"
proof (rule antisym)
  show "maximum_id key (walk m) \<le> n"
    using maximum_id_in [of key "walk m"] assms(2) by (auto simp: walk_mem_iff)
  show "n \<le> maximum_id key (walk m)"
  proof (cases "n = 0")
    case False
    then obtain v where "kget m n = Some v" using assms(1) by (auto simp: last_used_def)
    then have "v \<in> set (walk m)" "key v = n" using assms(2) by (auto simp: walk_mem_iff)
    then show ?thesis using maximum_id_ge [of v "walk m" key] by simp
  qed simp
qed

section \<open>Rebuilding the tables\<close>

lemma foldl_put_corporation:
  "cos_corporations (foldl put_corporation s cs) = kset_all co_id cs (cos_corporations s)"
  "cos_by_policy (foldl put_corporation s cs) = kset_index co_policy_address co_id cs (cos_by_policy s)"
  "cos_by_did (foldl put_corporation s cs) = kset_index co_did co_id cs (cos_by_did s)"
  "cos_counter (foldl put_corporation s cs) = cos_counter s"
  by (induction cs arbitrary: s) (simp_all add: put_corporation_def)

lemma load_version_sel:
  "gfs_by_ecosystem (load_version s g) = (if 0 < gv_ecosystem_id g
     then kset (gfs_by_ecosystem s) (gv_ecosystem_id g, gv_version g) (gv_id g) else gfs_by_ecosystem s)"
  "gfs_by_corporation (load_version s g) = (if 0 < gv_ecosystem_id g then gfs_by_corporation s
     else kset (gfs_by_corporation s) (gv_corporation_id g, gv_version g) (gv_id g))"
  "gfs_versions (load_version s g) = kset (gfs_versions s) (gv_id g) g"
  "gfs_documents (load_version s g) = gfs_documents s"
  by (simp_all add: load_version_def put_version_def Let_def)

lemma foldl_load_version:
  "gfs_versions (foldl load_version s gs) = kset_all gv_id gs (gfs_versions s)"
  "gfs_documents (foldl load_version s gs) = gfs_documents s"
  "gfs_by_ecosystem (foldl load_version s gs) =
     kset_index (\<lambda>g. (gv_ecosystem_id g, gv_version g)) gv_id (filter (\<lambda>g. 0 < gv_ecosystem_id g) gs) (gfs_by_ecosystem s)"
  "gfs_by_corporation (foldl load_version s gs) =
     kset_index (\<lambda>g. (gv_corporation_id g, gv_version g)) gv_id (filter (\<lambda>g. \<not> 0 < gv_ecosystem_id g) gs)
       (gfs_by_corporation s)"
  by (induction gs arbitrary: s) (simp_all add: load_version_sel)

lemma co_import_export:
  assumes inv: "co_inv s" and tight: "last_used (co_last_id s) (cos_corporations s)"
  defines "s' \<equiv> co_InitGenesis (co_ExportGenesis s) co_empty"
  shows "cos_corporations s' = cos_corporations s" "cos_by_policy s' = cos_by_policy s"
    "cos_by_did s' = cos_by_did s" "co_last_id s' = co_last_id s"
proof -
  note sel = s'_def co_InitGenesis_def co_ExportGenesis_def Let_def foldl_put_corporation
  have own: "kget (cos_corporations s) k = Some v \<Longrightarrow> co_id v = k" for k v using co_inv_id [OF inv] by blast
  have empty: "cos_corporations co_empty = kempty" "cos_by_policy co_empty = kempty" "cos_by_did co_empty = kempty"
    by (simp_all add: co_empty_def)
  show "cos_corporations s' = cos_corporations s" using kset_all_walk [OF own] by (simp add: sel empty)
  have "kset_index co_policy_address co_id (walk (cos_corporations s)) kempty = cos_by_policy s"
    using co_inv_policy [OF inv] own
    by (intro kset_index_rebuild) (auto simp: co_pol.index_ok_def walk_mem_iff)
  then show "cos_by_policy s' = cos_by_policy s" by (simp add: sel empty)
  have "kset_index co_did co_id (walk (cos_corporations s)) kempty = cos_by_did s"
    using co_inv_did [OF inv] own
    by (intro kset_index_rebuild) (auto simp: co_didx.index_ok_def walk_mem_iff)
  then show "cos_by_did s' = cos_by_did s" by (simp add: sel empty)
  have "maximum_id co_id (walk (cos_corporations s)) = co_last_id s"
    using co_inv_id [OF inv] by (intro maximum_id_last [OF tight]) blast
  then show "co_last_id s' = co_last_id s" by (simp add: sel co_last_id_def)
qed

lemma by_ecosystem_iff:
  assumes "gf_versions_ok s"
  shows "kget (gfs_by_ecosystem s) k = Some i \<longleftrightarrow>
    (\<exists>g. g \<in> set (filter (\<lambda>g. 0 < gv_ecosystem_id g) (walk (gfs_versions s))) \<and>
      (gv_ecosystem_id g, gv_version g) = k \<and> gv_id g = i)"
proof -
  obtain e v where k: "k = (e, v)" by fastforce
  have "kget (gfs_by_ecosystem s) k = Some i \<longleftrightarrow> gf_lookup s (SubjectEcosystem e) v = Some i"
    by (simp add: gf_lookup_def k)
  then show ?thesis
    using gf_version_ok [OF assms] unfolding gf_lookup_iff [OF assms] k
    by (auto simp: walk_mem_iff gv_owner_def split: if_splits)
qed

lemma by_corporation_iff:
  assumes "gf_versions_ok s"
  shows "kget (gfs_by_corporation s) k = Some i \<longleftrightarrow>
    (\<exists>g. g \<in> set (filter (\<lambda>g. \<not> 0 < gv_ecosystem_id g) (walk (gfs_versions s))) \<and>
      (gv_corporation_id g, gv_version g) = k \<and> gv_id g = i)"
proof -
  obtain e v where k: "k = (e, v)" by fastforce
  have "kget (gfs_by_corporation s) k = Some i \<longleftrightarrow> gf_lookup s (SubjectCorporation e) v = Some i"
    by (simp add: gf_lookup_def k)
  then show ?thesis
    using gf_version_ok [OF assms] unfolding gf_lookup_iff [OF assms] k
    by (auto simp: walk_mem_iff gv_owner_def split: if_splits)
qed

lemma gf_import_export:
  assumes inv: "gf_ok s"
    and tight: "last_used (gf_last_id s ''gfv'') (gfs_versions s)" "last_used (gf_last_id s ''gfd'') (gfs_documents s)"
  defines "s' \<equiv> gf_InitGenesis (gf_ExportGenesis s) gf_empty"
  shows "gfs_versions s' = gfs_versions s" "gfs_documents s' = gfs_documents s"
    "gfs_by_ecosystem s' = gfs_by_ecosystem s" "gfs_by_corporation s' = gfs_by_corporation s"
    "gf_last_id s' ''gfv'' = gf_last_id s ''gfv''" "gf_last_id s' ''gfd'' = gf_last_id s ''gfd''"
proof -
  note v = gf_okD(1) [OF inv] and d = gf_okD(2) [OF inv]
  note sel = s'_def gf_InitGenesis_def gf_ExportGenesis_def Let_def foldl_load_version
  have empty: "gfs_versions gf_empty = kempty" "gfs_documents gf_empty = kempty"
    "gfs_by_ecosystem gf_empty = kempty" "gfs_by_corporation gf_empty = kempty" by (simp_all add: gf_empty_def)
  have own: "kget (gfs_versions s) k = Some g \<Longrightarrow> gv_id g = k" for k g using gf_version_ok [OF v] by blast
  have ownd: "kget (gfs_documents s) k = Some x \<Longrightarrow> gd_id x = k" for k x using gf_document_ok [OF d] by blast
  show "gfs_versions s' = gfs_versions s" using kset_all_walk [OF own] by (simp add: sel empty)
  show "gfs_documents s' = gfs_documents s" using kset_all_walk [OF ownd] by (simp add: sel empty)
  show "gfs_by_ecosystem s' = gfs_by_ecosystem s"
    using kset_index_rebuild [OF by_ecosystem_iff [OF v]] by (simp add: sel empty)
  show "gfs_by_corporation s' = gfs_by_corporation s"
    using kset_index_rebuild [OF by_corporation_iff [OF v]] by (simp add: sel empty)
  have "maximum_id gv_id (walk (gfs_versions s)) = gf_last_id s ''gfv''"
    using gf_version_ok [OF v] by (intro maximum_id_last [OF tight(1)]) blast
  then show "gf_last_id s' ''gfv'' = gf_last_id s ''gfv''" by (simp add: sel gf_last_id_def kget_kset)
  have "maximum_id gd_id (walk (gfs_documents s)) = gf_last_id s ''gfd''"
    using gf_document_ok [OF d] by (intro maximum_id_last [OF tight(2)]) blast
  then show "gf_last_id s' ''gfd'' = gf_last_id s ''gfd''" by (simp add: sel gf_last_id_def)
qed

text \<open>An index written in the order of its values keeps the last value of every key.\<close>

lemma kset_index_last:
  fixes val :: "'a \<Rightarrow> nat"
  assumes "sorted (map val xs)"
  shows "kget (kset_index key val xs kempty) k = Some i \<longleftrightarrow>
    (\<exists>x. x \<in> set xs \<and> key x = k \<and> val x = i) \<and> (\<forall>j. (\<exists>x. x \<in> set xs \<and> key x = k \<and> val x = j) \<longrightarrow> j \<le> i)"
  using assms
proof (induction xs rule: rev_induct)
  case (snoc x xs)
  have step: "kset_index key val (xs @ [x]) kempty = kset (kset_index key val xs kempty) (key x) (val x)"
    by (simp add: kset_index_def)
  have le: "val y \<le> val x" if "y \<in> set xs" for y using snoc.prems that by (simp add: sorted_append)
  show ?case
  proof (cases "key x = k")
    case True
    then show ?thesis unfolding step using le by (auto intro: antisym)
  next
    case False
    then have "kget (kset_index key val (xs @ [x]) kempty) k = kget (kset_index key val xs kempty) k"
      unfolding step by simp
    moreover have "sorted (map val xs)" using snoc.prems by (simp add: sorted_append)
    ultimately show ?thesis using snoc.IH False by auto
  qed
qed simp

lemma sorted_walk:
  fixes m :: "(nat, 'v) store"
  assumes "\<And>k v. kget m k = Some v \<Longrightarrow> key v = k"
  shows "sorted (map key (walk m))"
  using sorted_sort_key [of key "walk m"] sort_key_walk [of m key, OF assms] by simp

definition has_pair :: "ec_state \<Rightarrow> string \<times> nat \<Rightarrow> nat \<Rightarrow> bool" where
  "has_pair s k i \<longleftrightarrow> (\<exists>e. kget (ecs_ecosystems s) i = Some e \<and> (ec_did e, ec_corporation_id e) = k)"

lemma has_pair_walk:
  assumes "ec_inv s"
  shows "has_pair s k i \<longleftrightarrow> (\<exists>e. e \<in> set (walk (ecs_ecosystems s)) \<and> (ec_did e, ec_corporation_id e) = k \<and> ec_id e = i)"
  using ec_inv_id [OF assms] unfolding has_pair_def walk_mem_iff by metis

lemma ec_import_export:
  assumes inv: "ec_inv s"
  defines "s' \<equiv> ec_InitGenesis (ec_ExportGenesis s) ec_empty"
  shows "ecs_params s' = ecs_params s" "ecs_ecosystems s' = ecs_ecosystems s" "ec_last_id s' = ec_last_id s"
    "kget (ecs_by_did_corp s') k = Some i \<longleftrightarrow> has_pair s k i \<and> (\<forall>j. has_pair s k j \<longrightarrow> j \<le> i)"
    "kget (ecs_by_did_corp s) k = Some i \<Longrightarrow> \<exists>j\<ge>i. kget (ecs_by_did_corp s') k = Some j"
    "(\<And>l j. has_pair s l j \<Longrightarrow> kget (ecs_by_did_corp s) l = Some j) \<Longrightarrow> ecs_by_did_corp s' = ecs_by_did_corp s"
proof -
  note sel = s'_def ec_InitGenesis_def ec_ExportGenesis_def
  have empty: "ecs_ecosystems ec_empty = kempty" "ecs_by_did_corp ec_empty = kempty" "ecs_counter ec_empty = kempty"
    by (simp_all add: ec_empty_def)
  have own: "kget (ecs_ecosystems s) k = Some e \<Longrightarrow> ec_id e = k" for k e using ec_inv_id [OF inv] by blast
  show "ecs_params s' = ecs_params s" by (simp add: sel)
  show "ecs_ecosystems s' = ecs_ecosystems s" using kset_all_walk [OF own] by (simp add: sel empty)
  show "ec_last_id s' = ec_last_id s" by (simp add: sel empty ec_last_id_def split: option.split)
  have last: "kget (ecs_by_did_corp s') k = Some i \<longleftrightarrow> has_pair s k i \<and> (\<forall>j. has_pair s k j \<longrightarrow> j \<le> i)" for k i
  proof -
    have "ecs_by_did_corp s' = kset_index (\<lambda>e. (ec_did e, ec_corporation_id e)) ec_id (walk (ecs_ecosystems s)) kempty"
      by (simp add: sel empty)
    then show ?thesis
      using kset_index_last [OF sorted_walk [of "ecs_ecosystems s" ec_id, OF own], of "\<lambda>e. (ec_did e, ec_corporation_id e)" k i]
      by (simp only: has_pair_walk [OF inv])
  qed
  then show "kget (ecs_by_did_corp s') k = Some i \<longleftrightarrow> has_pair s k i \<and> (\<forall>j. has_pair s k j \<longrightarrow> j \<le> i)" .
  have ids: "has_pair s k j \<Longrightarrow> j \<le> ec_last_id s" for k j using ec_inv_id [OF inv] by (auto simp: has_pair_def)
  have old: "kget (ecs_by_did_corp s) k = Some i \<Longrightarrow> has_pair s k i" for k i
    using ec_inv_index [OF inv, of "fst k" "snd k"] by (auto simp: has_pair_def)
  show "\<exists>j\<ge>i. kget (ecs_by_did_corp s') k = Some j" if "kget (ecs_by_did_corp s) k = Some i"
  proof -
    let ?j = "GREATEST l. has_pair s k l"
    have "has_pair s k ?j" using ids by (rule GreatestI_nat [where P = "has_pair s k", OF old [OF that]])
    moreover have le: "l \<le> ?j" if "has_pair s k l" for l using ids by (rule Greatest_le_nat [where P = "has_pair s k", OF that])
    ultimately have "kget (ecs_by_did_corp s') k = Some ?j" unfolding last by blast
    then show ?thesis using le [OF old [OF that]] by blast
  qed
  show "ecs_by_did_corp s' = ecs_by_did_corp s" if all: "\<And>l j. has_pair s l j \<Longrightarrow> kget (ecs_by_did_corp s) l = Some j"
  proof (rule store_eqI)
    fix l
    have unique: "has_pair s l j \<Longrightarrow> has_pair s l n \<Longrightarrow> j = n" for j n using all by (metis option.inject)
    have "kget (ecs_by_did_corp s') l = Some j \<longleftrightarrow> kget (ecs_by_did_corp s) l = Some j" for j
      unfolding last using all [of l j] old [of l j] unique by (metis order_refl)
    then show "kget (ecs_by_did_corp s') l = kget (ecs_by_did_corp s) l" by (metis not_Some_eq)
  qed
qed

section \<open>Validation of what is exported\<close>

lemma distinct_map_walk:
  assumes "\<And>i j x y. kget m i = Some x \<Longrightarrow> kget m j = Some y \<Longrightarrow> f x = f y \<Longrightarrow> i = j"
  shows "distinct (map f (walk m))"
proof -
  have "inj_on (\<lambda>p. f (snd p)) (set (entries m))"
    by (rule inj_onI) (metis assms entries_mem_iff prod.collapse option.inject)
  moreover have "distinct (entries m)" using entries_distinct [of m] by (simp add: distinct_map)
  ultimately show ?thesis by (simp add: walk_def distinct_map comp_def)
qed

lemma co_export_valid:
  assumes inv: "co_inv s" and times: "co_times_ok t s"
    and lang: "\<And>i c. kget (cos_corporations s) i = Some c \<Longrightarrow> IsValidBCP47 (co_language c)"
  shows "co_validate_genesis (co_ExportGenesis s)"
proof -
  have "distinct (map co_id (walk (cos_corporations s)))" using co_inv_id [OF inv] by (intro distinct_map_walk) metis
  moreover have "distinct (map co_policy_address (walk (cos_corporations s)))"
    using co_pol.index_unique [OF co_inv_policy [OF inv]] by (intro distinct_map_walk)
  moreover have "distinct (map co_did (walk (cos_corporations s)))"
    using co_didx.index_unique [OF co_inv_did [OF inv]] by (intro distinct_map_walk)
  moreover have "list_all (\<lambda>c. co_id c \<noteq> 0 \<and> co_policy_address c \<noteq> [] \<and> co_did c \<noteq> [] \<and> IsValidDID (co_did c) \<and>
        IsValidBCP47 (co_language c) \<and> co_created c \<noteq> zero_time \<and> co_modified c \<noteq> zero_time \<and>
        \<not> co_modified c < co_created c) (walk (cos_corporations s))"
    unfolding list_all_iff
  proof
    fix c
    assume "c \<in> set (walk (cos_corporations s))"
    then obtain i where c: "kget (cos_corporations s) i = Some c" by (auto simp: walk_mem_iff)
    have "co_policy_address c \<noteq> [] \<and> IsValidDID (co_did c) \<and> zero_time < co_created c \<and> co_created c \<le> co_modified c"
      using times c by (auto simp: co_times_ok_def)
    moreover have "co_id c \<noteq> 0" using co_inv_id [OF inv c] by simp
    moreover have "\<not> IsValidDID []" by code_simp
    ultimately show "co_id c \<noteq> 0 \<and> co_policy_address c \<noteq> [] \<and> co_did c \<noteq> [] \<and> IsValidDID (co_did c) \<and>
        IsValidBCP47 (co_language c) \<and> co_created c \<noteq> zero_time \<and> co_modified c \<noteq> zero_time \<and>
        \<not> co_modified c < co_created c" using lang [OF c] by auto
  qed
  ultimately show ?thesis by (simp add: co_validate_genesis_def co_ExportGenesis_def)
qed

lemma gf_export_valid:
  assumes inv: "gf_ok s"
  shows "gf_validate_genesis (gf_ExportGenesis s)"
proof -
  note v = gf_okD(1) [OF inv] and d = gf_okD(2) [OF inv]
  have "gv_wf g" if "g \<in> set (walk (gfs_versions s))" for g
    using that gf_version_ok [OF v] by (auto simp: walk_mem_iff)
  moreover have "gd_gfv_id x \<in> gv_id ` set (walk (gfs_versions s)) \<and> IsValidBCP47 (gd_language x)"
    if x: "x \<in> set (walk (gfs_documents s))" for x
  proof -
    obtain i where i: "kget (gfs_documents s) i = Some x" using x by (auto simp: walk_mem_iff)
    obtain g where g: "kget (gfs_versions s) (gd_gfv_id x) = Some g" "IsValidBCP47 (gd_language x)"
      using gf_document_ok [OF d i] by auto
    have "gv_id g = gd_gfv_id x" "g \<in> set (walk (gfs_versions s))"
      using gf_version_ok [OF v g(1)] g(1) by (auto simp: walk_mem_iff)
    then show ?thesis using g(2) by (metis image_eqI)
  qed
  ultimately show ?thesis by (auto simp: gf_validate_genesis_def gf_ExportGenesis_def list_all_iff gv_wf_def)
qed

text \<open>C37 registry_genesis_round_trip: of a reachable state, the exported corporations and
  frameworks pass their validation and are restored by an import into an empty store with
  their indexes and counters; the ecosystems' table, parameters and counter are restored
  too.  Their DID index is not copied but rebuilt: every pair of a DID and a corporation that
  some ecosystem has leads to the last such ecosystem, so every pair of the old index is
  there, leading to the same or a later ecosystem, and the index is the old one whenever
  that had an entry of its own for every ecosystem.\<close>

theorem registry_genesis_round_trip:
  assumes "rg_reach t r grp"
  defines "c' \<equiv> co_InitGenesis (co_ExportGenesis (rg_co r)) co_empty"
    and "f' \<equiv> gf_InitGenesis (gf_ExportGenesis (rg_gf r)) gf_empty"
    and "e' \<equiv> ec_InitGenesis (ec_ExportGenesis (rg_ec r)) ec_empty"
  shows "co_validate_genesis (co_ExportGenesis (rg_co r)) \<and> cos_corporations c' = cos_corporations (rg_co r) \<and>
      cos_by_policy c' = cos_by_policy (rg_co r) \<and> cos_by_did c' = cos_by_did (rg_co r) \<and>
      fst (co_GetNextID c' ''co'') = fst (co_GetNextID (rg_co r) ''co'') \<and>
    gf_validate_genesis (gf_ExportGenesis (rg_gf r)) \<and> gfs_versions f' = gfs_versions (rg_gf r) \<and>
      gfs_documents f' = gfs_documents (rg_gf r) \<and> gfs_by_ecosystem f' = gfs_by_ecosystem (rg_gf r) \<and>
      gfs_by_corporation f' = gfs_by_corporation (rg_gf r) \<and>
      (\<forall>ty \<in> {''gfv'', ''gfd''}. fst (gf_GetNextID f' ty) = fst (gf_GetNextID (rg_gf r) ty)) \<and>
    ecs_params e' = ecs_params (rg_ec r) \<and> ecs_ecosystems e' = ecs_ecosystems (rg_ec r) \<and>
      fst (ec_GetNextID e' ''ec'') = fst (ec_GetNextID (rg_ec r) ''ec'') \<and>
      (\<forall>k i. kget (ecs_by_did_corp e') k = Some i \<longleftrightarrow>
         has_pair (rg_ec r) k i \<and> (\<forall>j. has_pair (rg_ec r) k j \<longrightarrow> j \<le> i)) \<and>
      (\<forall>k i. kget (ecs_by_did_corp (rg_ec r)) k = Some i \<longrightarrow> (\<exists>j\<ge>i. kget (ecs_by_did_corp e') k = Some j)) \<and>
      ((\<forall>k i. has_pair (rg_ec r) k i \<longrightarrow> kget (ecs_by_did_corp (rg_ec r)) k = Some i) \<longrightarrow>
         ecs_by_did_corp e' = ecs_by_did_corp (rg_ec r))"
proof -
  note inv = rg_reach_inv [OF assms(1)]
  note i = reg_invD [OF inv]
  have t: "last_used (co_last_id (rg_co r)) (cos_corporations (rg_co r))"
    "last_used (gf_last_id (rg_gf r) ''gfv'') (gfs_versions (rg_gf r))"
    "last_used (gf_last_id (rg_gf r) ''gfd'') (gfs_documents (rg_gf r))"
    using reach_tight [OF assms(1)] by (simp_all add: counters_tight_def)
  have lang: "IsValidBCP47 (co_language c)" if "kget (cos_corporations (rg_co r)) k = Some c" for k c
    using linked_active [OF i(5), of "SubjectCorporation k" "co_language c" "co_active_version c"] that
    by (simp add: subject_view_def)
  have co: "co_validate_genesis (co_ExportGenesis (rg_co r)) \<and> cos_corporations c' = cos_corporations (rg_co r) \<and>
      cos_by_policy c' = cos_by_policy (rg_co r) \<and> cos_by_did c' = cos_by_did (rg_co r) \<and>
      fst (co_GetNextID c' ''co'') = fst (co_GetNextID (rg_co r) ''co'')"
    using co_import_export [OF i(2) t(1), folded c'_def] co_export_valid [OF i(2,6) lang]
    by (simp add: co_GetNextID_eq)
  have gf: "gf_validate_genesis (gf_ExportGenesis (rg_gf r)) \<and> gfs_versions f' = gfs_versions (rg_gf r) \<and>
      gfs_documents f' = gfs_documents (rg_gf r) \<and> gfs_by_ecosystem f' = gfs_by_ecosystem (rg_gf r) \<and>
      gfs_by_corporation f' = gfs_by_corporation (rg_gf r) \<and>
      (\<forall>ty \<in> {''gfv'', ''gfd''}. fst (gf_GetNextID f' ty) = fst (gf_GetNextID (rg_gf r) ty))"
    using gf_import_export [OF i(4) t(2,3), folded f'_def] gf_export_valid [OF i(4)]
    by (simp add: gf_GetNextID_eq)
  have ec: "ecs_params e' = ecs_params (rg_ec r) \<and> ecs_ecosystems e' = ecs_ecosystems (rg_ec r) \<and>
      fst (ec_GetNextID e' ''ec'') = fst (ec_GetNextID (rg_ec r) ''ec'') \<and>
      (\<forall>k i. kget (ecs_by_did_corp e') k = Some i \<longleftrightarrow>
         has_pair (rg_ec r) k i \<and> (\<forall>j. has_pair (rg_ec r) k j \<longrightarrow> j \<le> i)) \<and>
      (\<forall>k i. kget (ecs_by_did_corp (rg_ec r)) k = Some i \<longrightarrow> (\<exists>j\<ge>i. kget (ecs_by_did_corp e') k = Some j)) \<and>
      ((\<forall>k i. has_pair (rg_ec r) k i \<longrightarrow> kget (ecs_by_did_corp (rg_ec r)) k = Some i) \<longrightarrow>
         ecs_by_did_corp e' = ecs_by_did_corp (rg_ec r))"
    by (intro conjI allI impI ec_import_export(4-6) [OF i(3), folded e'_def])
      (simp_all only: ec_GetNextID_eq ec_import_export(1-3) [OF i(3), folded e'_def] fst_conv)
  show ?thesis using co gf ec by blast
qed

lemma registry_genesis_round_trip_witness:
  "rg_reach 13 sample_rg ''pp'' \<and> co_validate_genesis (co_ExportGenesis sample_co) \<and>
   gfs_versions (gf_InitGenesis (gf_ExportGenesis sample_gf) gf_empty) = gfs_versions sample_gf \<and>
   ecs_ecosystems (ec_InitGenesis (ec_ExportGenesis sample_ec) ec_empty) = ecs_ecosystems sample_ec"
proof -
  have r: "rg_co sample_rg = sample_co" "rg_ec sample_rg = sample_ec" "rg_gf sample_rg = sample_gf"
    by (simp_all add: sample_rg_def)
  show ?thesis using sample_reach registry_genesis_round_trip [OF sample_reach, unfolded r] by simp
qed

end
