(* ===== verification/Timed_Run.thy ===== *)
theory Timed_Run
imports Prelude
begin

text \<open>
  Sequences of transactions in blocks whose times never go back, over any step relation
  indexed by the block time, and the induction that what waiting and every step keep holds
  at the end.
\<close>

inductive timed_run :: "(time \<Rightarrow> 's \<Rightarrow> 's \<Rightarrow> bool) \<Rightarrow> time \<Rightarrow> 's \<Rightarrow> time \<Rightarrow> 's \<Rightarrow> bool"
  for step :: "time \<Rightarrow> 's \<Rightarrow> 's \<Rightarrow> bool" where
  run_start: "timed_run step t s t s"
| run_wait: "timed_run step t s u s' \<Longrightarrow> u \<le> v \<Longrightarrow> timed_run step t s v s'"
| run_step: "timed_run step t s u s' \<Longrightarrow> step u s' s'' \<Longrightarrow> timed_run step t s u s''"

lemma timed_run_le: "timed_run step t s u s' \<Longrightarrow> t \<le> u"
  by (induction rule: timed_run.induct) auto

lemma timed_run_idle: "t \<le> u \<Longrightarrow> timed_run step t s u s"
  by (rule run_wait [OF run_start])

lemma timed_run_one: "t \<le> u \<Longrightarrow> step u s s' \<Longrightarrow> timed_run step t s u s'"
  by (rule run_step [OF timed_run_idle])

lemma timed_run_keeps:
  assumes "timed_run step t s u s'" "I t s"
    and wait: "\<And>t u s. I t s \<Longrightarrow> t \<le> u \<Longrightarrow> I u s"
    and step: "\<And>t s s'. I t s \<Longrightarrow> step t s s' \<Longrightarrow> I t s'"
  shows "I u s'"
  using assms(1,2) by (induction rule: timed_run.induct) (blast intro: wait step)+

lemma timed_run_trans:
  assumes "timed_run step u s' v s''" "timed_run step t s u s'"
  shows "timed_run step t s v s''"
  using assms by (induction rule: timed_run.induct) (blast intro: run_wait run_step)+

end
