(* ===== verification/Digest.thy ===== *)
theory Digest
imports Delegation Timed_Run
begin

text \<open>
  The digest registry (src/x/di): an append-only table from digest strings to the block
  time they were first stored at.
\<close>

record digest =
  dg_digest :: string
  dg_created :: time
  dg_algorithm :: string

type_synonym di_state = "(string, digest) store"

datatype di_error = Di_Bad_Address | Di_Empty | Di_Too_Long | Di_Not_SRI | Di_Bad_Algorithm
  | Di_Authz de_error | Di_Corporation resolve_error | Di_Exists | Di_Not_Found

record msg_store_digest =
  sd_authority :: string
  sd_operator :: string
  sd_digest :: string
  sd_algorithm :: string

definition allowedDigestAlgorithms :: "string list" where
  "allowedDigestAlgorithms = [''sha2-256'', ''sha2-512'', ''sha3-256'']"

definition validate_store_digest :: "sdk_env \<Rightarrow> msg_store_digest \<Rightarrow> di_error + unit" where
  "validate_store_digest E m =
     (if \<not> valid_addr E (sd_authority m) then Inl Di_Bad_Address
      else if \<not> valid_addr E (sd_operator m) then Inl Di_Bad_Address
      else if sd_digest m = [] then Inl Di_Empty
      else if 256 < length (sd_digest m) then Inl Di_Too_Long
      else if \<not> IsValidDigestSRI (sd_digest m) then Inl Di_Not_SRI
      else if sd_algorithm m = [] then Inl Di_Bad_Algorithm
      else if sd_algorithm m \<notin> set allowedDigestAlgorithms then Inl Di_Bad_Algorithm
      else Inr ())"

text \<open>The handler; the chain runs the stateless validation before it.\<close>

definition StoreDigest :: "co_state \<Rightarrow> de_state \<Rightarrow> time \<Rightarrow> di_state \<Rightarrow> msg_store_digest \<Rightarrow> di_error + di_state" where
  "StoreDigest cs de now s m =
     bindE (liftE Di_Authz (CheckOperatorAuthorization (resolve_id cs) de (sd_authority m) (sd_operator m)
              ''/verana.di.v1.MsgStoreDigest'' now)) (\<lambda>_.
     bindE (liftE Di_Corporation (ResolveCorporationByPolicyAddress cs (sd_authority m))) (\<lambda>_.
     if khas s (sd_digest m) then Inl Di_Exists
     else Inr (kset s (sd_digest m)
            \<lparr>dg_digest = sd_digest m, dg_created = now, dg_algorithm = sd_algorithm m\<rparr>)))"

definition StoreDigestModuleCall :: "sdk_env \<Rightarrow> di_state \<Rightarrow> string \<Rightarrow> string \<Rightarrow> string \<Rightarrow> di_error + di_state" where
  "StoreDigestModuleCall E s authority digest algorithm =
     (if \<not> valid_addr E authority then Inl Di_Bad_Address
      else if digest = [] then Inl Di_Empty
      else if khas s digest then Inl Di_Exists
      else Inr (kset s digest
             \<lparr>dg_digest = digest, dg_created = se_block_time E, dg_algorithm = algorithm\<rparr>))"

definition GetDigest :: "di_state \<Rightarrow> string \<Rightarrow> di_error + string \<times> time" where
  "GetDigest s digest =
     (if digest = [] then Inl Di_Empty
      else bindE (optE Di_Not_Found (kget s digest)) (\<lambda>d. Inr (dg_digest d, dg_created d)))"

definition di_InitGenesis :: "digest list \<Rightarrow> di_state \<Rightarrow> di_state" where
  "di_InitGenesis ds s = kset_all dg_digest ds s"

definition di_ExportGenesis :: "di_state \<Rightarrow> digest list" where
  "di_ExportGenesis s = walk s"

section \<open>An append-only table\<close>

inductive di_step :: "time \<Rightarrow> di_state \<Rightarrow> di_state \<Rightarrow> bool" where
  message: "validate_store_digest E m = Inr () \<Longrightarrow> se_block_time E = t \<Longrightarrow>
    StoreDigest cs de t s m = Inr s' \<Longrightarrow> di_step t s s'"
| module_call: "se_block_time E = t \<Longrightarrow> StoreDigestModuleCall E s authority digest algorithm = Inr s' \<Longrightarrow>
    di_step t s s'"

text \<open>One step stores one new digest under its own name at the block time.\<close>

lemma di_step_new:
  assumes "di_step t s s'"
  obtains d a where "d \<noteq> []" "kget s d = None" "s' = kset s d \<lparr>dg_digest = d, dg_created = t, dg_algorithm = a\<rparr>"
  using assms
proof cases
  case (message E m cs de)
  then have "sd_digest m \<noteq> []" by (auto simp: validate_store_digest_def split: if_splits)
  moreover from message have "kget s (sd_digest m) = None"
      "s' = kset s (sd_digest m) \<lparr>dg_digest = sd_digest m, dg_created = t, dg_algorithm = sd_algorithm m\<rparr>"
    by (auto simp: StoreDigest_def result_simps khas_def)
  ultimately show ?thesis using that by blast
next
  case (module_call E authority digest algorithm)
  then have "digest \<noteq> []" "kget s digest = None"
      "s' = kset s digest \<lparr>dg_digest = digest, dg_created = t, dg_algorithm = algorithm\<rparr>"
    by (auto simp: StoreDigestModuleCall_def khas_def split: if_splits)
  then show ?thesis using that by blast
qed

text \<open>Every entry is stored under its own non-empty name, between the first block and the
  current one.\<close>

definition di_inv :: "time \<Rightarrow> time \<Rightarrow> di_state \<Rightarrow> bool" where
  "di_inv t u s \<longleftrightarrow> t \<le> u \<and> (\<forall>d x. kget s d = Some x \<longrightarrow>
     d \<noteq> [] \<and> dg_digest x = d \<and> t \<le> dg_created x \<and> dg_created x \<le> u)"

lemma di_inv_wait: "di_inv t v s \<Longrightarrow> v \<le> w \<Longrightarrow> di_inv t w s"
  unfolding di_inv_def using order_trans by metis

lemma di_inv_step:
  assumes inv: "di_inv t v s" and step: "di_step v s s'"
  shows "di_inv t v s'"
proof -
  from step obtain d a where d: "d \<noteq> []" "kget s d = None"
    and s': "s' = kset s d \<lparr>dg_digest = d, dg_created = v, dg_algorithm = a\<rparr>" by (rule di_step_new)
  have "k \<noteq> [] \<and> dg_digest x = k \<and> t \<le> dg_created x \<and> dg_created x \<le> v" if x: "kget s' k = Some x" for k x
  proof (cases "k = d")
    case True
    then show ?thesis using x d(1) inv by (auto simp: s' di_inv_def)
  next
    case False
    then have "kget s k = Some x" using x by (simp add: s')
    then show ?thesis using inv by (auto simp: di_inv_def)
  qed
  then show ?thesis using inv by (simp add: di_inv_def)
qed

lemma di_run_inv:
  assumes "timed_run di_step u s v s'" "di_inv t u s"
  shows "di_inv t v s'"
  using assms by (rule timed_run_keeps) (rule di_inv_wait di_inv_step, assumption+)+

lemma di_run_keeps:
  assumes "timed_run di_step t s u s'" "kget s d = Some x"
  shows "kget s' d = Some x"
proof (rule timed_run_keeps [OF assms(1), of "\<lambda>_ s. kget s d = Some x"])
  fix v s s'
  assume "kget s d = Some x" "di_step v s s'"
  then show "kget s' d = Some x" by (auto simp: kget_kset elim!: di_step_new)
qed (use assms(2) in auto)

text \<open>C35 digest_first_writer: a stored digest keeps for ever the block time at which it was
  first stored, whichever of the two entry points is called afterwards; the query answers
  with it, the stored time lies between the first and the current block, and an export
  followed by an import restores the table.\<close>

theorem digest_first_writer:
  assumes first: "timed_run di_step t kempty u s" and later: "timed_run di_step u s v s'"
    and d: "kget s d = Some x"
  shows "GetDigest s' d = Inr (d, dg_created x) \<and> t \<le> dg_created x \<and> dg_created x \<le> u \<and>
    di_InitGenesis (di_ExportGenesis s') kempty = s'"
proof -
  have inv: "di_inv t u s" by (rule di_run_inv [OF first]) (simp add: di_inv_def)
  have x: "d \<noteq> []" "dg_digest x = d" "t \<le> dg_created x" "dg_created x \<le> u"
    using inv d by (auto simp: di_inv_def)
  have "GetDigest s' d = Inr (d, dg_created x)"
    using di_run_keeps [OF later d] x by (simp add: GetDigest_def)
  moreover have "dg_digest y = k" if "kget s' k = Some y" for k y
    using di_run_inv [OF later inv] that by (auto simp: di_inv_def)
  then have "di_InitGenesis (di_ExportGenesis s') kempty = s'"
    unfolding di_InitGenesis_def di_ExportGenesis_def by (rule kset_all_walk)
  ultimately show ?thesis using x by simp
qed

definition sample_digest :: string where
  "sample_digest = ''sha256-A''"

lemma digest_first_writer_witness:
  "GetDigest (kset (kset kempty sample_digest \<lparr>dg_digest = sample_digest, dg_created = 7, dg_algorithm = ''sha2-256''\<rparr>)
     ''x'' \<lparr>dg_digest = ''x'', dg_created = 9, dg_algorithm = ''sha2-256''\<rparr>) sample_digest = Inr (sample_digest, 7)"
proof -
  let ?s = "kset kempty sample_digest \<lparr>dg_digest = sample_digest, dg_created = 7, dg_algorithm = ''sha2-256''\<rparr>"
  let ?s' = "kset ?s ''x'' \<lparr>dg_digest = ''x'', dg_created = 9, dg_algorithm = ''sha2-256''\<rparr>"
  have "di_step 7 kempty ?s"
    by (rule module_call [of "demo_env 7" _ _ "''a''" sample_digest "''sha2-256''"])
      (simp_all add: StoreDigestModuleCall_def sample_digest_def)
  then have first: "timed_run di_step 7 kempty 7 ?s" by (rule timed_run_one [OF order_refl])
  have "di_step 9 ?s ?s'"
    by (rule module_call [of "demo_env 9" _ _ "''a''" "''x''" "''sha2-256''"])
      (simp_all add: StoreDigestModuleCall_def sample_digest_def)
  then have later: "timed_run di_step 7 ?s 9 ?s'" by (intro timed_run_one) simp_all
  show ?thesis using digest_first_writer [OF first later] by simp
qed

end
