(* ===== verification/Exchange_Rate.thy ===== *)
theory Exchange_Rate
imports Delegation Timed_Run "HOL-Library.Signed_Division"
begin

text \<open>
  The exchange-rate module (src/x/xr): rates between assets with a validity, created and
  switched by governance, updated by authorized operators, and the price computation the
  other modules call.  Integers of \<open>cosmossdk.io/math\<close> are a parameter with their
  documented range.
\<close>

section \<open>Bounded integers\<close>

text \<open>\<open>math.NewIntFromString\<close>, \<open>Int.String\<close> and the product, which panics
  (\<open>None\<close>) beyond 256 bits.\<close>

record int_ops =
  io_parse :: "string \<Rightarrow> int option"
  io_string :: "int \<Rightarrow> string"
  io_mul :: "int \<Rightarrow> int \<Rightarrow> int option"

locale int_laws =
  fixes I :: int_ops
  assumes parse_range: "io_parse I s = Some n \<Longrightarrow> \<bar>n\<bar> < 2 ^ 256"
    and mul_def: "io_mul I a b = (if \<bar>a * b\<bar> < 2 ^ 256 then Some (a * b) else None)"
    and string_round_trip: "\<bar>n\<bar> < 2 ^ 256 \<Longrightarrow> io_parse I (io_string I n) = Some n"
begin

lemma string_inj: "\<bar>m\<bar> < 2 ^ 256 \<Longrightarrow> \<bar>n\<bar> < 2 ^ 256 \<Longrightarrow> io_string I m = io_string I n \<Longrightarrow> m = n"
  using string_round_trip by (metis option.inject)

end

text \<open>Decimal numerals bounded by 256 bits.\<close>

definition bounded_int :: int_ops where
  "bounded_int = \<lparr>
     io_parse = (\<lambda>s. case int_of_string s of None \<Rightarrow> None | Some n \<Rightarrow> if \<bar>n\<bar> < 2 ^ 256 then Some n else None),
     io_string = int_to_string,
     io_mul = (\<lambda>a b. if \<bar>a * b\<bar> < 2 ^ 256 then Some (a * b) else None)\<rparr>"

interpretation bounded_int: int_laws bounded_int
  by unfold_locales
    (auto simp: bounded_int_def int_string_round_trip split: option.splits if_splits)

text \<open>The loop that multiplies the divisor by ten.\<close>

primrec scale_divisor :: "int_ops \<Rightarrow> nat \<Rightarrow> int option" where
  "scale_divisor I 0 = Some 1"
| "scale_divisor I (Suc n) = (case scale_divisor I n of None \<Rightarrow> None | Some d \<Rightarrow> io_mul I d 10)"

section \<open>Data and state\<close>

text \<open>The protobuf enumeration \<open>PricingAssetType\<close> is an open \<open>int32\<close>: 1 is
  \<open>TU\<close>, 2 is \<open>COIN\<close>, 3 is \<open>FIAT\<close>.\<close>

record exchange_rate =
  xr_id :: nat
  xr_base_type :: int
  xr_base :: string
  xr_quote_type :: int
  xr_quote :: string
  xr_rate :: string
  xr_rate_scale :: nat
  xr_validity :: duration
  xr_expires :: time
  xr_active :: bool
  xr_updated :: time

record xr_state =
  xrs_max_validity :: duration
  xrs_rates :: "(nat, exchange_rate) store"
  xrs_pairs :: "(string, nat) store"
  xrs_counter :: "(string, nat) store"

definition xr_empty :: xr_state where
  "xr_empty = \<lparr> xrs_max_validity = 365 * 24 * 3600 * 10 ^ 9, xrs_rates = kempty, xrs_pairs = kempty,
     xrs_counter = kempty \<rparr>"

datatype xr_error =
    Xr_Bad_Address | Xr_Asset_Type | Xr_Empty_Asset | Xr_Asset_Value | Xr_Same_Pair | Xr_Bad_Rate
  | Xr_Bad_Scale | Xr_Bad_Validity | Xr_Too_Long | Xr_Invalid_Signer | Xr_Duplicate | Xr_Authz de_error
  | Xr_Corporation resolve_error | Xr_Zero_Id | Xr_Not_Found | Xr_Not_Active | Xr_Expired | Xr_Bad_Amount
  | Xr_Internal | Xr_Panic | Xr_Invalid_Argument | Xr_Bad_Params

record msg_create_xr =
  cx_authority :: string
  cx_base_type :: int
  cx_base :: string
  cx_quote_type :: int
  cx_quote :: string
  cx_rate :: string
  cx_rate_scale :: nat
  cx_validity :: duration

record msg_update_xr =
  ux_authority :: string
  ux_operator :: string
  ux_id :: nat
  ux_rate :: string
  ux_rate_scale :: nat
  ux_validity :: "duration option"

record msg_set_xr_state =
  sx_authority :: string
  sx_id :: nat

text \<open>What surrounds a message: block context, integers, \<open>sdk.ValidateDenom\<close>, the
  governance account, and the registries the update is checked against.\<close>

record xr_env =
  xe_sdk :: sdk_env
  xe_int :: int_ops
  xe_denom :: "string \<Rightarrow> bool"
  xe_gov :: string
  xe_co :: co_state
  xe_de :: de_state

section \<open>Stateless validation (types/types.go)\<close>

definition iso4217 :: "string \<Rightarrow> bool" where
  "iso4217 s \<longleftrightarrow> length s = 3 \<and> list_all (in_range (CHR ''A'') (CHR ''Z'')) s"

definition validateAssetType :: "int \<Rightarrow> bool" where
  "validateAssetType t \<longleftrightarrow> t = 1 \<or> t = 2 \<or> t = 3"

definition validateAssetValue :: "(string \<Rightarrow> bool) \<Rightarrow> int \<Rightarrow> string \<Rightarrow> bool" where
  "validateAssetValue denom t asset =
     (if t = 1 then asset = ''TU'' else if t = 2 then denom asset else if t = 3 then iso4217 asset else True)"

definition rate_ok :: "int_ops \<Rightarrow> string \<Rightarrow> bool" where
  "rate_ok I s = (case io_parse I s of None \<Rightarrow> False | Some n \<Rightarrow> 0 < n)"

definition one_minute :: duration where
  "one_minute = 60 * 10 ^ 9"

definition validate_create_xr :: "xr_env \<Rightarrow> msg_create_xr \<Rightarrow> xr_error + unit" where
  "validate_create_xr X m =
     (if \<not> valid_addr (xe_sdk X) (cx_authority m) then Inl Xr_Bad_Address
      else if \<not> validateAssetType (cx_base_type m) then Inl Xr_Asset_Type
      else if \<not> validateAssetType (cx_quote_type m) then Inl Xr_Asset_Type
      else if cx_base m = [] then Inl Xr_Empty_Asset
      else if cx_quote m = [] then Inl Xr_Empty_Asset
      else if \<not> validateAssetValue (xe_denom X) (cx_base_type m) (cx_base m) then Inl Xr_Asset_Value
      else if \<not> validateAssetValue (xe_denom X) (cx_quote_type m) (cx_quote m) then Inl Xr_Asset_Value
      else if cx_base_type m = cx_quote_type m \<and> cx_base m = cx_quote m then Inl Xr_Same_Pair
      else if \<not> rate_ok (xe_int X) (cx_rate m) then Inl Xr_Bad_Rate
      else if 18 < cx_rate_scale m then Inl Xr_Bad_Scale
      else if cx_validity m < one_minute then Inl Xr_Bad_Validity
      else Inr ())"

definition validate_update_xr :: "xr_env \<Rightarrow> msg_update_xr \<Rightarrow> xr_error + unit" where
  "validate_update_xr X m =
     (if \<not> valid_addr (xe_sdk X) (ux_authority m) then Inl Xr_Bad_Address
      else if \<not> valid_addr (xe_sdk X) (ux_operator m) then Inl Xr_Bad_Address
      else if ux_id m = 0 then Inl Xr_Zero_Id
      else if \<not> rate_ok (xe_int X) (ux_rate m) then Inl Xr_Bad_Rate
      else Inr ())"

definition validate_set_xr_state :: "xr_env \<Rightarrow> msg_set_xr_state \<Rightarrow> xr_error + unit" where
  "validate_set_xr_state X m =
     (if \<not> valid_addr (xe_sdk X) (sx_authority m) then Inl Xr_Bad_Address
      else if sx_id m = 0 then Inl Xr_Zero_Id
      else Inr ())"

section \<open>Messages\<close>

definition xr_GetNextID :: "xr_state \<Rightarrow> string \<Rightarrow> nat \<times> xr_state" where
  "xr_GetNextID s ty =
     (let current = (case kget (xrs_counter s) ty of None \<Rightarrow> 0 | Some n \<Rightarrow> n);
          nxt = current + 1
      in (nxt, s\<lparr>xrs_counter := kset (xrs_counter s) ty nxt\<rparr>))"

definition buildPairKey :: "int \<Rightarrow> string \<Rightarrow> int \<Rightarrow> string \<Rightarrow> string" where
  "buildPairKey bt b qt q = int_to_string bt @ '':'' @ b @ '':'' @ int_to_string qt @ '':'' @ q"

definition gov_check :: "xr_env \<Rightarrow> string \<Rightarrow> xr_error + unit" where
  "gov_check X a =
     bindE (optE Xr_Bad_Address (se_from_bech32 (xe_sdk X) a)) (\<lambda>bytes.
     if bytes \<noteq> xe_gov X then Inl Xr_Invalid_Signer else Inr ())"

definition CreateExchangeRate :: "xr_env \<Rightarrow> xr_state \<Rightarrow> msg_create_xr \<Rightarrow> xr_error + nat \<times> xr_state" where
  "CreateExchangeRate X s m =
     bindE (validate_create_xr X m) (\<lambda>_.
     if xrs_max_validity s < cx_validity m then Inl Xr_Too_Long
     else
       bindE (gov_check X (cx_authority m)) (\<lambda>_.
       let pairKey = buildPairKey (cx_base_type m) (cx_base m) (cx_quote_type m) (cx_quote m) in
       if kget (xrs_pairs s) pairKey \<noteq> None then Inl Xr_Duplicate
       else
         (let (i, s1) = xr_GetNextID s ''exchange_rate''; now = se_block_time (xe_sdk X);
              r = \<lparr>xr_id = i, xr_base_type = cx_base_type m, xr_base = cx_base m,
                   xr_quote_type = cx_quote_type m, xr_quote = cx_quote m, xr_rate = cx_rate m,
                   xr_rate_scale = cx_rate_scale m, xr_validity = cx_validity m,
                   xr_expires = now + cx_validity m, xr_active = True, xr_updated = now\<rparr>
          in Inr (i, s1\<lparr>xrs_rates := kset (xrs_rates s1) i r, xrs_pairs := kset (xrs_pairs s1) pairKey i\<rparr>))))"

definition UpdateExchangeRate :: "xr_env \<Rightarrow> xr_state \<Rightarrow> msg_update_xr \<Rightarrow> xr_error + xr_state" where
  "UpdateExchangeRate X s m =
     bindE (validate_update_xr X m) (\<lambda>_.
     let now = se_block_time (xe_sdk X) in
     bindE (liftE Xr_Authz (CheckOperatorAuthorization (resolve_id (xe_co X)) (xe_de X) (ux_authority m)
              (ux_operator m) ''/verana.xr.v1.MsgUpdateExchangeRate'' now)) (\<lambda>_.
     bindE (liftE Xr_Corporation (ResolveCorporationByPolicyAddress (xe_co X) (ux_authority m))) (\<lambda>_.
     bindE (optE Xr_Not_Found (kget (xrs_rates s) (ux_id m))) (\<lambda>r.
     if \<not> xr_active r then Inl Xr_Not_Active
     else if \<not> now < xr_expires r then Inl Xr_Expired
     else
       (let r1 = r\<lparr>xr_rate := ux_rate m\<rparr>;
            r2 = (if ux_rate_scale m \<noteq> 0 then r1\<lparr>xr_rate_scale := ux_rate_scale m\<rparr> else r1);
            r3 = (case ux_validity m of Some d \<Rightarrow> r2\<lparr>xr_validity := d\<rparr> | None \<Rightarrow> r2);
            r4 = r3\<lparr>xr_expires := now + xr_validity r3, xr_updated := now\<rparr>
        in Inr (s\<lparr>xrs_rates := kset (xrs_rates s) (ux_id m) r4\<rparr>))))))"

definition SetExchangeRateState :: "xr_env \<Rightarrow> xr_state \<Rightarrow> msg_set_xr_state \<Rightarrow> xr_error + xr_state" where
  "SetExchangeRateState X s m =
     bindE (validate_set_xr_state X m) (\<lambda>_.
     bindE (gov_check X (sx_authority m)) (\<lambda>_.
     bindE (optE Xr_Not_Found (kget (xrs_rates s) (sx_id m))) (\<lambda>r.
     Inr (s\<lparr>xrs_rates := kset (xrs_rates s) (sx_id m)
              (r\<lparr>xr_active := \<not> xr_active r, xr_updated := se_block_time (xe_sdk X)\<rparr>)\<rparr>))))"

definition xr_UpdateParams :: "xr_env \<Rightarrow> xr_state \<Rightarrow> string \<Rightarrow> duration \<Rightarrow> xr_error + xr_state" where
  "xr_UpdateParams X s authority maxValidity =
     bindE (gov_check X authority) (\<lambda>_.
     if maxValidity \<le> 0 then Inl Xr_Bad_Params else Inr (s\<lparr>xrs_max_validity := maxValidity\<rparr>))"

section \<open>Prices and queries\<close>

definition xr_GetPrice ::
  "xr_env \<Rightarrow> xr_state \<Rightarrow> int \<Rightarrow> string \<Rightarrow> int \<Rightarrow> string \<Rightarrow> string \<Rightarrow> xr_error + string" where
  "xr_GetPrice X s bt b qt q amount =
     (let I = xe_int X in
      bindE (optE Xr_Bad_Amount (io_parse I amount)) (\<lambda>n.
      if \<not> 0 < n then Inl Xr_Bad_Amount
      else if bt = qt \<and> b = q then Inr (io_string I n)
      else
        bindE (optE Xr_Not_Found (kget (xrs_pairs s) (buildPairKey bt b qt q))) (\<lambda>i.
        bindE (optE Xr_Internal (kget (xrs_rates s) i)) (\<lambda>r.
        if 18 < xr_rate_scale r then Inl Xr_Bad_Scale
        else if \<not> xr_active r then Inl Xr_Not_Active
        else if \<not> se_block_time (xe_sdk X) < xr_expires r then Inl Xr_Expired
        else
          bindE (optE Xr_Internal (io_parse I (xr_rate r))) (\<lambda>rate.
          bindE (optE Xr_Panic (scale_divisor I (xr_rate_scale r))) (\<lambda>divisor.
          bindE (optE Xr_Panic (io_mul I n rate)) (\<lambda>p.
          Inr (io_string I (p sdiv divisor)))))))))"

definition GetPrice_query ::
  "xr_env \<Rightarrow> xr_state \<Rightarrow> int \<Rightarrow> string \<Rightarrow> int \<Rightarrow> string \<Rightarrow> string \<Rightarrow> xr_error + string" where
  "GetPrice_query X s bt b qt q amount =
     (if amount = [] then Inl Xr_Invalid_Argument else xr_GetPrice X s bt b qt q amount)"

text \<open>\<open>StateFilter\<close>: 1 keeps active rates, 2 inactive ones, anything else all.\<close>

definition state_filter :: "int \<Rightarrow> exchange_rate \<Rightarrow> bool" where
  "state_filter f r \<longleftrightarrow> \<not> (f = 1 \<and> \<not> xr_active r) \<and> \<not> (f = 2 \<and> xr_active r)"

definition expire_filter :: "time option \<Rightarrow> exchange_rate \<Rightarrow> bool" where
  "expire_filter ts r = (case ts of None \<Rightarrow> True | Some t \<Rightarrow> t < xr_expires r)"

definition GetExchangeRate ::
  "xr_state \<Rightarrow> nat \<Rightarrow> int \<Rightarrow> string \<Rightarrow> int \<Rightarrow> string \<Rightarrow> int \<Rightarrow> time option \<Rightarrow> xr_error + exchange_rate" where
  "GetExchangeRate s i bt b qt q f ts =
     bindE (if 0 < i then optE Xr_Not_Found (kget (xrs_rates s) i)
            else if bt = 0 \<or> b = [] \<or> qt = 0 \<or> q = [] then Inl Xr_Invalid_Argument
            else bindE (optE Xr_Not_Found (kget (xrs_pairs s) (buildPairKey bt b qt q))) (\<lambda>j.
                 optE Xr_Internal (kget (xrs_rates s) j))) (\<lambda>r.
     if \<not> state_filter f r then Inl Xr_Not_Found
     else if \<not> expire_filter ts r then Inl Xr_Not_Found
     else Inr r)"

definition ListExchangeRates ::
  "xr_state \<Rightarrow> int \<Rightarrow> string \<Rightarrow> int \<Rightarrow> string \<Rightarrow> int \<Rightarrow> time option \<Rightarrow> exchange_rate list" where
  "ListExchangeRates s bt b qt q f ts =
     filter (\<lambda>r. (bt = 0 \<or> xr_base_type r = bt) \<and> (b = [] \<or> xr_base r = b) \<and>
        (qt = 0 \<or> xr_quote_type r = qt) \<and> (q = [] \<or> xr_quote r = q) \<and>
        state_filter f r \<and> expire_filter ts r) (walk (xrs_rates s))"

section \<open>Genesis (keeper/genesis.go)\<close>

record xr_genesis =
  xg_max_validity :: duration
  xg_rates :: "exchange_rate list"
  xg_next_id :: nat

definition rate_key :: "exchange_rate \<Rightarrow> string" where
  "rate_key r = buildPairKey (xr_base_type r) (xr_base r) (xr_quote_type r) (xr_quote r)"

definition xr_InitGenesis :: "xr_genesis \<Rightarrow> xr_state \<Rightarrow> xr_state" where
  "xr_InitGenesis g s =
     (let s1 = s\<lparr>xrs_max_validity := xg_max_validity g,
                 xrs_rates := kset_all xr_id (xg_rates g) (xrs_rates s),
                 xrs_pairs := kset_index rate_key xr_id (xg_rates g) (xrs_pairs s)\<rparr>
      in if 0 < xg_next_id g then s1\<lparr>xrs_counter := kset (xrs_counter s1) ''exchange_rate'' (xg_next_id g)\<rparr>
         else s1)"

definition xr_ExportGenesis :: "xr_state \<Rightarrow> xr_genesis" where
  "xr_ExportGenesis s = \<lparr>xg_max_validity = xrs_max_validity s,
     xg_rates = sort_key (\<lambda>r. int (xr_id r)) (walk (xrs_rates s)),
     xg_next_id = (case kget (xrs_counter s) ''exchange_rate'' of None \<Rightarrow> 0 | Some n \<Rightarrow> n)\<rparr>"

definition xr_validate_genesis :: "xr_genesis \<Rightarrow> bool" where
  "xr_validate_genesis g \<longleftrightarrow> \<not> xg_max_validity g \<le> 0"

end
