(* ===== verification/Exchange_Rate_Props.thy ===== *)
theory Exchange_Rate_Props
imports Exchange_Rate
begin

text \<open>
  The invariant of the exchange-rate module, the price it computes, and what an update can
  and an expiry does to a rate.
\<close>

section \<open>The invariant\<close>

interpretation xr_pair: unique_index kempty kget kset kremove entries
    kempty kget kset kremove entries rate_key
  by unfold_locales

definition xr_last_id :: "xr_state \<Rightarrow> nat" where
  "xr_last_id s = (case kget (xrs_counter s) ''exchange_rate'' of None \<Rightarrow> 0 | Some n \<Rightarrow> n)"

text \<open>Every rate is stored under its own id, not above the last one given out, converts
  between two different assets and is a positive numeral; the pair index describes the
  table exactly.\<close>

definition xr_wf :: "int_ops \<Rightarrow> exchange_rate \<Rightarrow> bool" where
  "xr_wf I r \<longleftrightarrow> \<not> (xr_base_type r = xr_quote_type r \<and> xr_base r = xr_quote r) \<and> rate_ok I (xr_rate r)"

definition xr_inv :: "int_ops \<Rightarrow> xr_state \<Rightarrow> bool" where
  "xr_inv I s \<longleftrightarrow>
     (\<forall>i r. kget (xrs_rates s) i = Some r \<longrightarrow> xr_id r = i \<and> 0 < i \<and> i \<le> xr_last_id s \<and> xr_wf I r) \<and>
     xr_pair.index_ok (xrs_rates s) (xrs_pairs s)"

lemma xr_inv_id: "xr_inv I s \<Longrightarrow> kget (xrs_rates s) i = Some r \<Longrightarrow>
    xr_id r = i \<and> 0 < i \<and> i \<le> xr_last_id s \<and> xr_wf I r"
  by (simp add: xr_inv_def)

lemma xr_inv_pair: "xr_inv I s \<Longrightarrow> xr_pair.index_ok (xrs_rates s) (xrs_pairs s)"
  by (simp add: xr_inv_def)

lemma xr_inv_empty: "xr_inv I xr_empty"
  by (simp add: xr_inv_def xr_empty_def xr_pair.index_ok_empty)

lemma xr_inv_fresh: "xr_inv I s \<Longrightarrow> kget (xrs_rates s) (Suc (xr_last_id s)) = None"
  using xr_inv_id [of I s "Suc (xr_last_id s)"] by (cases "kget (xrs_rates s) (Suc (xr_last_id s))") auto

lemma xr_GetNextID_eq: "xr_GetNextID s ''exchange_rate'' =
    (Suc (xr_last_id s), s\<lparr>xrs_counter := kset (xrs_counter s) ''exchange_rate'' (Suc (xr_last_id s))\<rparr>)"
  by (simp add: xr_GetNextID_def xr_last_id_def Let_def)

section \<open>The messages\<close>

definition new_rate :: "nat \<Rightarrow> msg_create_xr \<Rightarrow> time \<Rightarrow> exchange_rate" where
  "new_rate i m now = \<lparr>xr_id = i, xr_base_type = cx_base_type m, xr_base = cx_base m,
     xr_quote_type = cx_quote_type m, xr_quote = cx_quote m, xr_rate = cx_rate m,
     xr_rate_scale = cx_rate_scale m, xr_validity = cx_validity m,
     xr_expires = now + cx_validity m, xr_active = True, xr_updated = now\<rparr>"

lemma rate_key_new [simp]: "rate_key (new_rate i m now) =
    buildPairKey (cx_base_type m) (cx_base m) (cx_quote_type m) (cx_quote m)"
  by (simp add: rate_key_def new_rate_def)

definition updated_rate :: "exchange_rate \<Rightarrow> msg_update_xr \<Rightarrow> time \<Rightarrow> exchange_rate" where
  "updated_rate r m now = (let d = (case ux_validity m of None \<Rightarrow> xr_validity r | Some d \<Rightarrow> d) in
     r\<lparr>xr_rate := ux_rate m, xr_rate_scale := (if ux_rate_scale m \<noteq> 0 then ux_rate_scale m else xr_rate_scale r),
       xr_validity := d, xr_expires := now + d, xr_updated := now\<rparr>)"

lemma updated_rate_sel [simp]:
  "rate_key (updated_rate r m now) = rate_key r" "xr_id (updated_rate r m now) = xr_id r"
  "xr_rate (updated_rate r m now) = ux_rate m" "xr_active (updated_rate r m now) = xr_active r"
  "xr_expires (updated_rate r m now) = now + (case ux_validity m of None \<Rightarrow> xr_validity r | Some d \<Rightarrow> d)"
  "xr_rate_scale (updated_rate r m now) = (if ux_rate_scale m \<noteq> 0 then ux_rate_scale m else xr_rate_scale r)"
  "xr_base_type (updated_rate r m now) = xr_base_type r" "xr_base (updated_rate r m now) = xr_base r"
  "xr_quote_type (updated_rate r m now) = xr_quote_type r" "xr_quote (updated_rate r m now) = xr_quote r"
  by (simp_all add: updated_rate_def Let_def rate_key_def)

lemma CreateExchangeRate_ok_iff:
  "CreateExchangeRate X s m = Inr (i, s') \<longleftrightarrow>
     validate_create_xr X m = Inr () \<and> cx_validity m \<le> xrs_max_validity s \<and> gov_check X (cx_authority m) = Inr () \<and>
     kget (xrs_pairs s) (buildPairKey (cx_base_type m) (cx_base m) (cx_quote_type m) (cx_quote m)) = None \<and>
     i = Suc (xr_last_id s) \<and>
     s' = s\<lparr>xrs_counter := kset (xrs_counter s) ''exchange_rate'' i,
            xrs_rates := kset (xrs_rates s) i (new_rate i m (se_block_time (xe_sdk X))),
            xrs_pairs := kset (xrs_pairs s) (buildPairKey (cx_base_type m) (cx_base m) (cx_quote_type m) (cx_quote m)) i\<rparr>"
  unfolding CreateExchangeRate_def bindE_unit_ok_iff Let_def
  by (auto simp: xr_GetNextID_eq new_rate_def bindE_unit_ok_iff)

lemma UpdateExchangeRate_ok_iff:
  "UpdateExchangeRate X s m = Inr s' \<longleftrightarrow>
     validate_update_xr X m = Inr () \<and>
     CheckOperatorAuthorization (resolve_id (xe_co X)) (xe_de X) (ux_authority m) (ux_operator m)
       ''/verana.xr.v1.MsgUpdateExchangeRate'' (se_block_time (xe_sdk X)) = Inr () \<and>
     (\<exists>co. ResolveCorporationByPolicyAddress (xe_co X) (ux_authority m) = Inr co) \<and>
     (\<exists>r. kget (xrs_rates s) (ux_id m) = Some r \<and> xr_active r \<and> se_block_time (xe_sdk X) < xr_expires r \<and>
        s' = s\<lparr>xrs_rates := kset (xrs_rates s) (ux_id m) (updated_rate r m (se_block_time (xe_sdk X)))\<rparr>)"
  unfolding UpdateExchangeRate_def bindE_unit_ok_iff Let_def
  by (auto simp: result_simps bindE_unit_ok_iff updated_rate_def Let_def split: option.splits)

lemma SetExchangeRateState_ok_iff:
  "SetExchangeRateState X s m = Inr s' \<longleftrightarrow>
     validate_set_xr_state X m = Inr () \<and> gov_check X (sx_authority m) = Inr () \<and>
     (\<exists>r. kget (xrs_rates s) (sx_id m) = Some r \<and>
        s' = s\<lparr>xrs_rates := kset (xrs_rates s) (sx_id m)
               (r\<lparr>xr_active := \<not> xr_active r, xr_updated := se_block_time (xe_sdk X)\<rparr>)\<rparr>)"
  unfolding SetExchangeRateState_def bindE_unit_ok_iff by (auto simp: result_simps)

inductive xr_step :: "int_ops \<Rightarrow> time \<Rightarrow> xr_state \<Rightarrow> xr_state \<Rightarrow> bool" for I where
  xr_create: "xe_int X = I \<Longrightarrow> se_block_time (xe_sdk X) = t \<Longrightarrow> CreateExchangeRate X s m = Inr (i, s') \<Longrightarrow>
    xr_step I t s s'"
| xr_update: "xe_int X = I \<Longrightarrow> se_block_time (xe_sdk X) = t \<Longrightarrow> UpdateExchangeRate X s mu = Inr s' \<Longrightarrow>
    xr_step I t s s'"
| xr_toggle: "xe_int X = I \<Longrightarrow> se_block_time (xe_sdk X) = t \<Longrightarrow> SetExchangeRateState X s ms = Inr s' \<Longrightarrow>
    xr_step I t s s'"
| xr_params: "xr_UpdateParams X s authority d = Inr s' \<Longrightarrow> xr_step I t s s'"

text \<open>What a step does to the table: one rate is added or replaced, keeping its pair; an
  expired rate keeps its expiry.\<close>

lemma xr_step_table:
  assumes "xr_step I t s s'"
  obtains (new) X m where "validate_create_xr X m = Inr ()" "xe_int X = I"
      "kget (xrs_pairs s) (rate_key (new_rate (Suc (xr_last_id s)) m t)) = None"
      "xrs_rates s' = kset (xrs_rates s) (Suc (xr_last_id s)) (new_rate (Suc (xr_last_id s)) m t)"
      "xrs_pairs s' = kset (xrs_pairs s) (rate_key (new_rate (Suc (xr_last_id s)) m t)) (Suc (xr_last_id s))"
      "xr_last_id s' = Suc (xr_last_id s)"
  | (old) i r r' where "kget (xrs_rates s) i = Some r" "xrs_rates s' = kset (xrs_rates s) i r'"
      "rate_key r' = rate_key r" "xr_id r' = xr_id r" "xr_wf I r \<longrightarrow> xr_wf I r'"
      "xr_expires r \<le> t \<longrightarrow> xr_expires r' = xr_expires r" "xrs_pairs s' = xrs_pairs s" "xr_last_id s' = xr_last_id s"
  | (same) "xrs_rates s' = xrs_rates s" "xrs_pairs s' = xrs_pairs s" "xr_last_id s' = xr_last_id s"
  using assms
proof cases
  case (xr_update X mu)
  then obtain r where r: "kget (xrs_rates s) (ux_id mu) = Some r" "t < xr_expires r"
    "s' = s\<lparr>xrs_rates := kset (xrs_rates s) (ux_id mu) (updated_rate r mu t)\<rparr>" "validate_update_xr X mu = Inr ()"
    unfolding UpdateExchangeRate_ok_iff by blast
  have "rate_ok I (ux_rate mu)" using r(4) xr_update(1) by (auto simp: validate_update_xr_def split: if_splits)
  then have "xr_wf I r \<longrightarrow> xr_wf I (updated_rate r mu t)" by (simp add: xr_wf_def)
  then show ?thesis using r by (intro old [of "ux_id mu" r "updated_rate r mu t"]) (simp_all add: xr_last_id_def)
next
  case (xr_toggle X ms)
  then obtain r where r: "kget (xrs_rates s) (sx_id ms) = Some r"
    "s' = s\<lparr>xrs_rates := kset (xrs_rates s) (sx_id ms) (r\<lparr>xr_active := \<not> xr_active r, xr_updated := t\<rparr>)\<rparr>"
    unfolding SetExchangeRateState_ok_iff by blast
  then show ?thesis
    by (intro old [of "sx_id ms" r "r\<lparr>xr_active := \<not> xr_active r, xr_updated := t\<rparr>"])
      (simp_all add: xr_last_id_def rate_key_def xr_wf_def)
next
  case (xr_params X authority d)
  then have "\<exists>n. s' = s\<lparr>xrs_max_validity := n\<rparr>" by (auto simp: xr_UpdateParams_def result_simps split: if_splits)
  then show ?thesis by (intro same) (auto simp: xr_last_id_def)
next
  case (xr_create X m i)
  then have "validate_create_xr X m = Inr ()"
    "kget (xrs_pairs s) (rate_key (new_rate (Suc (xr_last_id s)) m t)) = None"
    "s' = s\<lparr>xrs_counter := kset (xrs_counter s) ''exchange_rate'' (Suc (xr_last_id s)),
            xrs_rates := kset (xrs_rates s) (Suc (xr_last_id s)) (new_rate (Suc (xr_last_id s)) m t),
            xrs_pairs := kset (xrs_pairs s) (rate_key (new_rate (Suc (xr_last_id s)) m t)) (Suc (xr_last_id s))\<rparr>"
    unfolding CreateExchangeRate_ok_iff rate_key_new by blast+
  then show ?thesis using xr_create(1) by (intro new [of X m]) (simp_all add: xr_last_id_def)
qed

lemma new_rate_wf:
  assumes "validate_create_xr X m = Inr ()"
  shows "xr_wf (xe_int X) (new_rate i m now)"
  using assms by (auto simp: validate_create_xr_def xr_wf_def new_rate_def split: if_splits)

lemma xr_inv_step:
  assumes inv: "xr_inv I s" and step: "xr_step I t s s'"
  shows "xr_inv I s'"
  using step
proof (cases rule: xr_step_table)
  case (new X m)
  note fresh = xr_inv_fresh [OF inv]
  have "xr_pair.index_ok (xrs_rates s') (xrs_pairs s')"
    unfolding new(4,5) by (rule xr_pair.index_ok_insert [OF xr_inv_pair [OF inv] fresh new(3)])
  moreover have "xr_id r = i \<and> 0 < i \<and> i \<le> xr_last_id s' \<and> xr_wf I r" if r: "kget (xrs_rates s') i = Some r" for i r
  proof (cases "i = Suc (xr_last_id s)")
    case True
    then show ?thesis using r new(2,4,6) new_rate_wf [OF new(1)] by (auto simp: new_rate_def)
  next
    case False
    then show ?thesis using r new(4,6) xr_inv_id [OF inv, of i r] by simp
  qed
  ultimately show ?thesis by (simp add: xr_inv_def)
next
  case (old i r r')
  have "xr_pair.index_ok (xrs_rates s') (xrs_pairs s')"
    unfolding old(2,7) by (rule xr_pair.index_ok_update [OF xr_inv_pair [OF inv] old(1,3)])
  moreover have "xr_id x = j \<and> 0 < j \<and> j \<le> xr_last_id s' \<and> xr_wf I x" if x: "kget (xrs_rates s') j = Some x" for j x
    using x old xr_inv_id [OF inv old(1)] xr_inv_id [OF inv, of j x] by (cases "j = i") simp_all
  ultimately show ?thesis by (simp add: xr_inv_def)
next
  case same
  then show ?thesis using inv by (simp add: xr_inv_def)
qed

lemma xr_run_inv: "timed_run (xr_step I) t s u s' \<Longrightarrow> xr_inv I s \<Longrightarrow> xr_inv I s'"
  by (erule timed_run_keeps [of _ _ _ _ _ "\<lambda>_. xr_inv I"]) (auto intro: xr_inv_step)

section \<open>Prices\<close>

context int_laws
begin

lemma scale_divisor_pow: "k \<le> 18 \<Longrightarrow> scale_divisor I k = Some (10 ^ k)"
proof (induction k)
  case (Suc k)
  have "(10::int) ^ Suc k \<le> 10 ^ 18" using Suc.prems by (intro power_increasing) auto
  then have "\<bar>10 ^ k * 10 :: int\<bar> < 2 ^ 256" by simp
  then show ?case using Suc by (simp add: mul_def mult.commute)
qed simp

lemma price_of_rate:
  assumes "io_parse I rt = Some rate" "0 < rate" "0 < n" "k \<le> 18"
  shows "bindE (optE Xr_Internal (io_parse I rt)) (\<lambda>rate.
          bindE (optE Xr_Panic (scale_divisor I k)) (\<lambda>divisor.
          bindE (optE Xr_Panic (io_mul I n rate)) (\<lambda>p. Inr (io_string I (p sdiv divisor))))) = Inr out \<longleftrightarrow>
     n * rate < 2 ^ 256 \<and> out = io_string I (n * rate div 10 ^ k)"
proof -
  have pos: "0 < n * rate" using assms by simp
  then have "n * rate sdiv 10 ^ k = n * rate div 10 ^ k" by (simp add: signed_divide_int_def)
  then show ?thesis using assms pos by (auto simp: scale_divisor_pow mul_def)
qed

end

lemma xr_pair_lookup:
  assumes "xr_inv I s"
  shows "kget (xrs_pairs s) k = Some i \<longleftrightarrow> (\<exists>r. kget (xrs_rates s) i = Some r \<and> rate_key r = k)"
  using xr_inv_pair [OF assms] by (simp add: xr_pair.index_ok_def)

text \<open>C27 get_price_exact: in a reachable state a price is computed exactly when the amount
  is a positive numeral and either both assets are the same (the price is the amount) or the
  pair has an active, unexpired rate with a scale of at most 18 and the product fits 256
  bits; the price is then the amount times the rate divided by the power of ten, rounded
  down.\<close>

theorem get_price_exact:
  assumes laws: "int_laws (xe_int X)" and run: "timed_run (xr_step (xe_int X)) t0 xr_empty t s"
  shows "xr_GetPrice X s bt b qt q amount = Inr out \<longleftrightarrow>
    (\<exists>n. io_parse (xe_int X) amount = Some n \<and> 0 < n \<and>
       (if bt = qt \<and> b = q then out = io_string (xe_int X) n
        else \<exists>i r rate. kget (xrs_rates s) i = Some r \<and> rate_key r = buildPairKey bt b qt q \<and> xr_active r \<and>
               se_block_time (xe_sdk X) < xr_expires r \<and> xr_rate_scale r \<le> 18 \<and>
               io_parse (xe_int X) (xr_rate r) = Some rate \<and> 0 < rate \<and> n * rate < 2 ^ 256 \<and>
               out = io_string (xe_int X) (n * rate div 10 ^ xr_rate_scale r)))"
proof -
  let ?I = "xe_int X"
  have inv: "xr_inv ?I s" by (rule xr_run_inv [OF run xr_inv_empty])
  note lookup = xr_pair_lookup [OF inv, of "buildPairKey bt b qt q"]
  have rate: "\<exists>v. io_parse ?I (xr_rate r) = Some v \<and> 0 < v" if "kget (xrs_rates s) i = Some r" for i r
    using xr_inv_id [OF inv that] by (auto simp: xr_wf_def rate_ok_def split: option.splits)
  have body: "bindE (optE Xr_Not_Found (kget (xrs_pairs s) (buildPairKey bt b qt q))) (\<lambda>i.
        bindE (optE Xr_Internal (kget (xrs_rates s) i)) (\<lambda>r.
        if 18 < xr_rate_scale r then Inl Xr_Bad_Scale
        else if \<not> xr_active r then Inl Xr_Not_Active
        else if \<not> se_block_time (xe_sdk X) < xr_expires r then Inl Xr_Expired
        else
          bindE (optE Xr_Internal (io_parse ?I (xr_rate r))) (\<lambda>rate.
          bindE (optE Xr_Panic (scale_divisor ?I (xr_rate_scale r))) (\<lambda>divisor.
          bindE (optE Xr_Panic (io_mul ?I n rate)) (\<lambda>p. Inr (io_string ?I (p sdiv divisor))))))) = Inr out \<longleftrightarrow>
      (\<exists>i r rate. kget (xrs_rates s) i = Some r \<and> rate_key r = buildPairKey bt b qt q \<and> xr_active r \<and>
         se_block_time (xe_sdk X) < xr_expires r \<and> xr_rate_scale r \<le> 18 \<and>
         io_parse ?I (xr_rate r) = Some rate \<and> 0 < rate \<and> n * rate < 2 ^ 256 \<and>
         out = io_string ?I (n * rate div 10 ^ xr_rate_scale r))" (is "?l \<longleftrightarrow> ?r") if n: "0 < n" for n
  proof
    assume ?l
    then obtain i r where i: "kget (xrs_pairs s) (buildPairKey bt b qt q) = Some i" and r: "kget (xrs_rates s) i = Some r"
      and ok: "xr_rate_scale r \<le> 18" "xr_active r" "se_block_time (xe_sdk X) < xr_expires r"
      and price: "bindE (optE Xr_Internal (io_parse ?I (xr_rate r))) (\<lambda>rate.
          bindE (optE Xr_Panic (scale_divisor ?I (xr_rate_scale r))) (\<lambda>divisor.
          bindE (optE Xr_Panic (io_mul ?I n rate)) (\<lambda>p. Inr (io_string ?I (p sdiv divisor))))) = Inr out"
      by (auto simp: bindE_ok_iff [of "optE Xr_Not_Found _"] bindE_ok_iff [of "optE Xr_Internal (kget _ _)"]
          optE_ok_iff split: if_splits)
    from rate [OF r] obtain v where v: "io_parse ?I (xr_rate r) = Some v" "0 < v" by blast
    from price [unfolded int_laws.price_of_rate [OF laws v n ok(1)]] i r ok v lookup show ?r by auto
  next
    assume ?r
    then obtain i r v where r: "kget (xrs_rates s) i = Some r" "rate_key r = buildPairKey bt b qt q"
      and ok: "xr_active r" "se_block_time (xe_sdk X) < xr_expires r" "xr_rate_scale r \<le> 18"
      and v: "io_parse ?I (xr_rate r) = Some v" "0 < v"
      and out: "n * v < 2 ^ 256 \<and> out = io_string ?I (n * v div 10 ^ xr_rate_scale r)" by blast
    have "kget (xrs_pairs s) (buildPairKey bt b qt q) = Some i" using lookup r by blast
    then show ?l
      using r ok out [folded int_laws.price_of_rate [OF laws v n ok(3)]] by simp
  qed
  show ?thesis
    unfolding xr_GetPrice_def Let_def bindE_ok_iff [of "optE Xr_Bad_Amount _"] optE_ok_iff
    by (auto simp: body)
qed

section \<open>Expiry\<close>

definition rate_dead :: "int_ops \<Rightarrow> nat \<Rightarrow> string \<Rightarrow> time \<Rightarrow> xr_state \<Rightarrow> bool" where
  "rate_dead I i k t s \<longleftrightarrow> xr_inv I s \<and>
     (\<exists>r. kget (xrs_rates s) i = Some r \<and> rate_key r = k \<and> xr_expires r \<le> t)"

lemma rate_dead_step:
  assumes dead: "rate_dead I i k t s" and step: "xr_step I t s s'"
  shows "rate_dead I i k t s'"
proof -
  obtain r where inv: "xr_inv I s" and r: "kget (xrs_rates s) i = Some r" "rate_key r = k" "xr_expires r \<le> t"
    using dead by (auto simp: rate_dead_def)
  have "\<exists>r. kget (xrs_rates s') i = Some r \<and> rate_key r = k \<and> xr_expires r \<le> t"
    using step
  proof (cases rule: xr_step_table)
    case (new X m)
    have "i \<noteq> Suc (xr_last_id s)" using xr_inv_id [OF inv r(1)] by simp
    then show ?thesis using r new(4) by simp
  next
    case (old j x x')
    then show ?thesis using r by (cases "j = i") auto
  next
    case same
    then show ?thesis using r by simp
  qed
  then show ?thesis using xr_inv_step [OF inv step] by (simp add: rate_dead_def)
qed

lemma rate_dead_wait: "rate_dead I i k t s \<Longrightarrow> t \<le> u \<Longrightarrow> rate_dead I i k u s"
  unfolding rate_dead_def using order_trans by blast

lemma rate_dead_run:
  assumes "timed_run (xr_step I) t s u s'" "rate_dead I i k t s"
  shows "rate_dead I i k u s'"
  using assms by (rule timed_run_keeps [of _ _ _ _ _ "rate_dead I i k"]) (rule rate_dead_wait rate_dead_step, assumption+)+

lemma rate_dead_refused:
  assumes dead: "rate_dead (xe_int X) i (buildPairKey bt b qt q) u s" and now: "u \<le> se_block_time (xe_sdk X)"
    and ne: "\<not> (bt = qt \<and> b = q)"
  shows "\<not> is_ok (xr_GetPrice X s bt b qt q amount)" and "ux_id m = i \<Longrightarrow> \<not> is_ok (UpdateExchangeRate X s m)"
    and "buildPairKey (cx_base_type c) (cx_base c) (cx_quote_type c) (cx_quote c) = buildPairKey bt b qt q \<Longrightarrow>
      \<not> is_ok (CreateExchangeRate X s c)"
proof -
  obtain r where inv: "xr_inv (xe_int X) s" and r: "kget (xrs_rates s) i = Some r" "rate_key r = buildPairKey bt b qt q"
    "xr_expires r \<le> u" using dead by (auto simp: rate_dead_def)
  have p: "kget (xrs_pairs s) (buildPairKey bt b qt q) = Some i" using xr_pair_lookup [OF inv] r by blast
  show "\<not> is_ok (xr_GetPrice X s bt b qt q amount)"
    using p r now ne by (auto simp: xr_GetPrice_def Let_def is_ok_iff result_simps split: if_splits)
  show "\<not> is_ok (UpdateExchangeRate X s m)" if "ux_id m = i"
    using that r now by (auto simp: is_ok_iff UpdateExchangeRate_ok_iff)
  show "\<not> is_ok (CreateExchangeRate X s c)"
    if "buildPairKey (cx_base_type c) (cx_base c) (cx_quote_type c) (cx_quote c) = buildPairKey bt b qt q"
    using that p by (auto simp: is_ok_iff CreateExchangeRate_ok_iff)
qed

text \<open>C28 expired_rate_is_final: once a rate has expired, no sequence of messages, governance
  included, brings its pair back: it is never updated again, the pair can never be created
  again and no price is ever computed from it.\<close>

theorem expired_rate_is_final:
  assumes "timed_run (xr_step (xe_int X)) t0 xr_empty t s" "kget (xrs_rates s) i = Some r" "xr_expires r \<le> t"
    and "timed_run (xr_step (xe_int X)) t s u s'" "u \<le> se_block_time (xe_sdk X)"
  shows "\<not> is_ok (xr_GetPrice X s' (xr_base_type r) (xr_base r) (xr_quote_type r) (xr_quote r) amount) \<and>
    (\<forall>m. ux_id m = i \<longrightarrow> \<not> is_ok (UpdateExchangeRate X s' m)) \<and>
    (\<forall>m. buildPairKey (cx_base_type m) (cx_base m) (cx_quote_type m) (cx_quote m) = rate_key r \<longrightarrow>
       \<not> is_ok (CreateExchangeRate X s' m))"
proof -
  have inv: "xr_inv (xe_int X) s" by (rule xr_run_inv [OF assms(1) xr_inv_empty])
  have "rate_dead (xe_int X) i (rate_key r) t s" using inv assms(2,3) by (auto simp: rate_dead_def)
  from rate_dead_run [OF assms(4) this]
  have dead: "rate_dead (xe_int X) i (buildPairKey (xr_base_type r) (xr_base r) (xr_quote_type r) (xr_quote r)) u s'"
    by (simp add: rate_key_def)
  have "\<not> (xr_base_type r = xr_quote_type r \<and> xr_base r = xr_quote r)"
    using xr_inv_id [OF inv assms(2)] by (simp add: xr_wf_def)
  from rate_dead_refused [OF dead assms(5) this] show ?thesis by (simp add: rate_key_def)
qed

section \<open>Updates by anyone\<close>

definition retire_rate :: "string \<Rightarrow> string \<Rightarrow> nat \<Rightarrow> string \<Rightarrow> msg_update_xr" where
  "retire_rate corp operator i rate = \<lparr>ux_authority = corp, ux_operator = operator, ux_id = i, ux_rate = rate,
     ux_rate_scale = 0, ux_validity = Some (- 1)\<rparr>"

text \<open>The update checks neither whose rate it is nor the
  bounds that creation enforces, so an operator of any corporation that may send the message
  can retire any live rate for good with one update whose validity is negative.\<close>

theorem update_can_retire_any_rate:
  assumes run: "timed_run (xr_step (xe_int X)) t0 xr_empty (se_block_time (xe_sdk X)) s"
    and r: "kget (xrs_rates s) i = Some r" "xr_active r" "se_block_time (xe_sdk X) < xr_expires r"
    and addr: "valid_addr (xe_sdk X) corp" "valid_addr (xe_sdk X) operator"
    and auth: "CheckOperatorAuthorization (resolve_id (xe_co X)) (xe_de X) corp operator
       ''/verana.xr.v1.MsgUpdateExchangeRate'' (se_block_time (xe_sdk X)) = Inr ()"
    and co: "ResolveCorporationByPolicyAddress (xe_co X) corp = Inr co"
  shows "\<exists>s'. UpdateExchangeRate X s (retire_rate corp operator i (xr_rate r)) = Inr s' \<and>
    (\<forall>u s'' Y amount. timed_run (xr_step (xe_int X)) (se_block_time (xe_sdk X)) s' u s'' \<longrightarrow> xe_int Y = xe_int X \<longrightarrow>
       u \<le> se_block_time (xe_sdk Y) \<longrightarrow>
       \<not> is_ok (xr_GetPrice Y s'' (xr_base_type r) (xr_base r) (xr_quote_type r) (xr_quote r) amount))"
proof -
  let ?m = "retire_rate corp operator i (xr_rate r)" and ?now = "se_block_time (xe_sdk X)"
  have inv: "xr_inv (xe_int X) s" by (rule xr_run_inv [OF run xr_inv_empty])
  note ri = xr_inv_id [OF inv r(1)]
  let ?s' = "s\<lparr>xrs_rates := kset (xrs_rates s) i (updated_rate r ?m ?now)\<rparr>"
  have "validate_update_xr X ?m = Inr ()"
    using addr ri by (simp add: validate_update_xr_def retire_rate_def xr_wf_def)
  then have ok: "UpdateExchangeRate X s ?m = Inr ?s'"
    using r auth co unfolding UpdateExchangeRate_ok_iff by (simp add: retire_rate_def)
  have "xr_step (xe_int X) ?now s ?s'" by (rule xr_update [OF refl refl ok])
  then have "xr_inv (xe_int X) ?s'" by (rule xr_inv_step [OF inv])
  then have dead: "rate_dead (xe_int X) i (rate_key r) ?now ?s'"
    unfolding rate_dead_def by (intro conjI exI [of _ "updated_rate r ?m ?now"]) (simp_all add: retire_rate_def)
  have ne: "\<not> (xr_base_type r = xr_quote_type r \<and> xr_base r = xr_quote r)" using ri by (simp add: xr_wf_def)
  have "\<not> is_ok (xr_GetPrice Y s'' (xr_base_type r) (xr_base r) (xr_quote_type r) (xr_quote r) amount)"
    if "timed_run (xr_step (xe_int X)) ?now ?s' u s''" "xe_int Y = xe_int X" "u \<le> se_block_time (xe_sdk Y)"
    for u s'' Y amount
  proof -
    have "rate_dead (xe_int Y) i (buildPairKey (xr_base_type r) (xr_base r) (xr_quote_type r) (xr_quote r)) u s''"
      using rate_dead_run [OF that(1) dead] that(2) by (simp add: rate_key_def)
    from rate_dead_refused(1) [OF this that(3) ne] show ?thesis .
  qed
  with ok show ?thesis by blast
qed

section \<open>The pair index\<close>

lemma no_colon_split:
  assumes "CHR '':'' \<notin> set a" "CHR '':'' \<notin> set b" "a @ '':'' @ x = b @ '':'' @ y"
  shows "a = b \<and> x = y"
proof -
  have "takeWhile (\<lambda>c. c \<noteq> CHR '':'') (a @ '':'' @ x) = a" "takeWhile (\<lambda>c. c \<noteq> CHR '':'') (b @ '':'' @ y) = b"
    using assms(1,2) by (auto simp: takeWhile_append)
  then have "a = b" using assms(3) by simp
  then show ?thesis using assms(3) by simp
qed

lemma asset_type_string:
  assumes "validateAssetType t"
  shows "int_to_string t = (if t = 1 then ''1'' else if t = 2 then ''2'' else ''3'')"
proof -
  have "int_to_string 1 = ''1''" "int_to_string 2 = ''2''" "int_to_string 3 = ''3''" by code_simp+
  then show ?thesis using assms by (auto simp: validateAssetType_def)
qed

text \<open>Two pairs of assets without a colon have the same index key only when
  they are equal; coin denominations may contain a colon, and then different pairs share a
  key: the second cannot be created and a price of one is computed with the rate of the
  other.\<close>

theorem pair_keys:
  "(\<forall>bt b qt q bt' b' qt' q'. validateAssetType bt \<and> validateAssetType qt \<and> validateAssetType bt' \<and>
      validateAssetType qt' \<and> CHR '':'' \<notin> set b \<union> set q \<union> set b' \<union> set q' \<longrightarrow>
      buildPairKey bt b qt q = buildPairKey bt' b' qt' q' \<longrightarrow> bt = bt' \<and> b = b' \<and> qt = qt' \<and> q = q') \<and>
   (a @ '':2:'' @ b \<noteq> c \<and> a \<noteq> b @ '':2:'' @ c \<longrightarrow>
      xr_GetPrice X s 2 (a @ '':2:'' @ b) 2 c amount = xr_GetPrice X s 2 a 2 (b @ '':2:'' @ c) amount)"
  (is "?inj \<and> ?same")
proof
  show ?inj
  proof (intro allI impI)
    fix bt b qt q bt' b' qt' q'
    assume h: "validateAssetType bt \<and> validateAssetType qt \<and> validateAssetType bt' \<and>
      validateAssetType qt' \<and> CHR '':'' \<notin> set b \<union> set q \<union> set b' \<union> set q'"
      and eq: "buildPairKey bt b qt q = buildPairKey bt' b' qt' q'"
    have t: "CHR '':'' \<notin> set (int_to_string x)" if "validateAssetType x" for x
      using asset_type_string [OF that] by simp
    have inj: "x = y" if "validateAssetType x" "validateAssetType y" "int_to_string x = int_to_string y" for x y
      using int_string_round_trip that(3) by (metis option.inject)
    from eq have "int_to_string bt = int_to_string bt' \<and>
        b @ '':'' @ int_to_string qt @ '':'' @ q = b' @ '':'' @ int_to_string qt' @ '':'' @ q'"
      unfolding buildPairKey_def by (intro no_colon_split) (use h t in auto)
    moreover from this have "b = b' \<and> int_to_string qt @ '':'' @ q = int_to_string qt' @ '':'' @ q'"
      by (intro no_colon_split) (use h in auto)
    moreover from this have "int_to_string qt = int_to_string qt' \<and> q = q'"
      by (intro no_colon_split) (use h t in auto)
    ultimately show "bt = bt' \<and> b = b' \<and> qt = qt' \<and> q = q'" using h inj by blast
  qed
  have "int_to_string 2 = ''2''" by code_simp
  then have "buildPairKey 2 (a @ '':2:'' @ b) 2 c = buildPairKey 2 a 2 (b @ '':2:'' @ c)"
    by (simp add: buildPairKey_def)
  then show ?same by (simp add: xr_GetPrice_def Let_def cong: if_cong)
qed

section \<open>Genesis\<close>

text \<open>Of a reachable state, the export validates and its import
  into an empty store restores the parameter, the rates, the pair index and the next id.\<close>

theorem xr_genesis_round_trip:
  assumes run: "timed_run (xr_step I) t0 xr_empty t s"
  defines "s' \<equiv> xr_InitGenesis (xr_ExportGenesis s) xr_empty"
  shows "xr_validate_genesis (xr_ExportGenesis s) \<and> xrs_max_validity s' = xrs_max_validity s \<and>
    xrs_rates s' = xrs_rates s \<and> xrs_pairs s' = xrs_pairs s \<and>
    fst (xr_GetNextID s' ''exchange_rate'') = fst (xr_GetNextID s ''exchange_rate'')"
proof -
  have inv: "xr_inv I s" by (rule xr_run_inv [OF run xr_inv_empty])
  have own: "kget (xrs_rates s) k = Some r \<Longrightarrow> xr_id r = k" for k r using xr_inv_id [OF inv] by blast
  have sorted: "sort_key (\<lambda>r. int (xr_id r)) (walk (xrs_rates s)) = walk (xrs_rates s)"
  proof (rule sort_key_id_if_sorted)
    have "sorted (map xr_id (walk (xrs_rates s)))"
      using entries_sorted [of "xrs_rates s"] walk_keyed [of "xrs_rates s" xr_id, OF own]
      by (simp add: keys_def strict_sorted_imp_sorted)
    then show "sorted (map (\<lambda>r. int (xr_id r)) (walk (xrs_rates s)))" by (simp add: sorted_map)
  qed
  have pos: "0 < xrs_max_validity s"
    using run
  proof (rule timed_run_keeps [of _ _ _ _ _ "\<lambda>_ s. 0 < xrs_max_validity s"])
    show "0 < xrs_max_validity xr_empty" by (simp add: xr_empty_def)
    fix t s s'
    assume "0 < xrs_max_validity s" "xr_step I t s s'"
    from this(2,1) show "0 < xrs_max_validity s'"
      by cases (auto simp: CreateExchangeRate_ok_iff UpdateExchangeRate_ok_iff SetExchangeRateState_ok_iff
          xr_UpdateParams_def result_simps split: if_splits)
  qed
  have rates: "xrs_rates s' = xrs_rates s"
    using kset_all_walk [of "xrs_rates s" xr_id, OF own] by (simp add: s'_def xr_InitGenesis_def xr_ExportGenesis_def sorted Let_def xr_empty_def)
  have "kset_index rate_key xr_id (walk (xrs_rates s)) kempty = xrs_pairs s"
    using xr_inv_pair [OF inv] own by (intro kset_index_rebuild) (auto simp: xr_pair.index_ok_def walk_mem_iff)
  then have pairs: "xrs_pairs s' = xrs_pairs s"
    by (simp add: s'_def xr_InitGenesis_def xr_ExportGenesis_def sorted Let_def xr_empty_def)
  have "xr_last_id s' = xr_last_id s"
    by (simp add: s'_def xr_InitGenesis_def xr_ExportGenesis_def Let_def xr_empty_def xr_last_id_def split: option.split)
  then show ?thesis
    using pos rates pairs
    by (simp add: xr_GetNextID_eq xr_validate_genesis_def xr_ExportGenesis_def)
      (simp add: s'_def xr_InitGenesis_def xr_ExportGenesis_def Let_def)
qed

section \<open>A sample rate\<close>

definition sample_xr_de :: de_state where
  "sample_xr_de = de_empty\<lparr>des_oas := kset kempty 1 \<lparr>oa_id = 1, oa_corp = 3, oa_operator = ''o'',
       oa_msg_types = [''/verana.xr.v1.MsgUpdateExchangeRate''], oa_spend_limit = [], oa_remaining_spend = [],
       oa_fee_spend_limit = [], oa_remaining_fee_spend = [], oa_expiration = None, oa_period = None\<rparr>,
     des_oa_index := kset kempty (3, ''o'') 1, des_oa_seq := 1\<rparr>"

definition sample_xe :: "time \<Rightarrow> xr_env" where
  "sample_xe t = \<lparr>xe_sdk = demo_env t, xe_int = bounded_int, xe_denom = (\<lambda>s. s \<noteq> []), xe_gov = ''g'',
     xe_co = sample_registry, xe_de = sample_xr_de\<rparr>"

lemma sample_xe_sel [simp]:
  "xe_sdk (sample_xe t) = demo_env t" "xe_int (sample_xe t) = bounded_int" "xe_denom (sample_xe t) = (\<lambda>s. s \<noteq> [])"
  "xe_gov (sample_xe t) = ''g''" "xe_co (sample_xe t) = sample_registry" "xe_de (sample_xe t) = sample_xr_de"
  by (simp_all add: sample_xe_def)

definition sample_create_xr :: msg_create_xr where
  "sample_create_xr = \<lparr>cx_authority = ''g'', cx_base_type = 3, cx_base = ''USD'', cx_quote_type = 2,
     cx_quote = ''uvna'', cx_rate = ''150'', cx_rate_scale = 2, cx_validity = one_minute\<rparr>"

definition sample_xr :: xr_state where
  "sample_xr = xr_empty\<lparr>xrs_counter := kset kempty ''exchange_rate'' 1,
     xrs_rates := kset kempty 1 (new_rate 1 sample_create_xr 10),
     xrs_pairs := kset kempty (buildPairKey 3 ''USD'' 2 ''uvna'') 1\<rparr>"

lemma sample_numerals: "io_parse bounded_int ''150'' = Some 150" "io_parse bounded_int ''7'' = Some 7"
    "io_string bounded_int 10 = ''10''"
  by code_simp+

lemma sample_xr_run: "timed_run (xr_step bounded_int) 10 xr_empty 10 sample_xr"
proof -
  have "rate_ok bounded_int ''150''" by (simp add: rate_ok_def sample_numerals)
  moreover have "iso4217 ''USD''" by code_simp
  ultimately have "validate_create_xr (sample_xe 10) sample_create_xr = Inr ()"
    by (simp add: validate_create_xr_def sample_create_xr_def validateAssetType_def validateAssetValue_def)
  then have "CreateExchangeRate (sample_xe 10) xr_empty sample_create_xr = Inr (1, sample_xr)"
    unfolding CreateExchangeRate_ok_iff
    by (simp add: sample_create_xr_def gov_check_def xr_empty_def xr_last_id_def sample_xr_def one_minute_def)
  then have "xr_step bounded_int 10 xr_empty sample_xr" by (intro xr_create [of "sample_xe 10"]) simp_all
  then show ?thesis by (rule timed_run_one [OF order_refl])
qed

lemma sample_xr_get: "kget (xrs_rates sample_xr) 1 = Some (new_rate 1 sample_create_xr 10)"
  by (simp add: sample_xr_def)

lemma sample_rate_sel: "xr_active (new_rate i sample_create_xr t)" "xr_rate (new_rate i sample_create_xr t) = ''150''"
    "xr_expires (new_rate i sample_create_xr t) = t + one_minute" "xr_rate_scale (new_rate i sample_create_xr t) = 2"
    "rate_key (new_rate i sample_create_xr t) = buildPairKey 3 ''USD'' 2 ''uvna''"
    "xr_base_type (new_rate i sample_create_xr t) = 3" "xr_base (new_rate i sample_create_xr t) = ''USD''"
    "xr_quote_type (new_rate i sample_create_xr t) = 2" "xr_quote (new_rate i sample_create_xr t) = ''uvna''"
  by (simp_all add: new_rate_def sample_create_xr_def rate_key_def)

lemma get_price_exact_witness:
  "timed_run (xr_step bounded_int) 10 xr_empty 10 sample_xr \<and>
   xr_GetPrice (sample_xe 11) sample_xr 3 ''USD'' 2 ''uvna'' ''7'' = Inr ''10''"
proof -
  have I: "int_laws (xe_int (sample_xe 11))" using bounded_int.int_laws_axioms by simp
  have run: "timed_run (xr_step (xe_int (sample_xe 11))) 10 xr_empty 10 sample_xr" using sample_xr_run by simp
  have "7 * 150 div 10 ^ 2 = (10 :: int)" by simp
  then have "xr_GetPrice (sample_xe 11) sample_xr 3 ''USD'' 2 ''uvna'' ''7'' = Inr ''10''"
    unfolding get_price_exact [OF I run] using sample_xr_get sample_rate_sel [of 1 10] sample_numerals
    by (intro exI [of _ 7] conjI) (auto simp: one_minute_def intro!: exI [of _ 1])
  then show ?thesis using sample_xr_run by simp
qed

lemma expired_rate_is_final_witness:
  "timed_run (xr_step bounded_int) 10 xr_empty (10 + one_minute) sample_xr \<and>
   \<not> is_ok (xr_GetPrice (sample_xe (10 + one_minute)) sample_xr 3 ''USD'' 2 ''uvna'' ''7'')"
proof -
  let ?t = "10 + one_minute"
  have le: "10 \<le> ?t" by (simp add: one_minute_def)
  have run: "timed_run (xr_step (xe_int (sample_xe ?t))) 10 xr_empty ?t sample_xr"
    using run_wait [OF sample_xr_run le] by simp
  have later: "timed_run (xr_step (xe_int (sample_xe ?t))) ?t sample_xr ?t sample_xr" by (rule run_start)
  show ?thesis
    using expired_rate_is_final [OF run sample_xr_get _ later] run sample_rate_sel [of 1 10] by simp
qed

definition sample_xe_pair :: "xr_state \<Rightarrow> string \<Rightarrow> bool" where
  "sample_xe_pair s amount \<longleftrightarrow> xr_GetPrice (sample_xe 11) s 2 (''aaa'' @ '':2:'' @ ''bbb'') 2 ''ccc'' amount =
     xr_GetPrice (sample_xe 11) s 2 ''aaa'' 2 (''bbb'' @ '':2:'' @ ''ccc'') amount"

lemma pair_keys_witness: "sample_xe_pair sample_xr ''7'' \<and> buildPairKey 3 ''USD'' 2 ''uvna'' \<noteq> buildPairKey 3 ''EUR'' 2 ''uvna''"
  using pair_keys [where X = "sample_xe 11" and s = sample_xr and a = "''aaa''" and b = "''bbb''"
      and c = "''ccc''" and amount = "''7''"]
  by (auto simp: sample_xe_pair_def validateAssetType_def buildPairKey_def)

lemma sample_xr_auth: "CheckOperatorAuthorization (resolve_id sample_registry) sample_xr_de ''corp'' ''o''
    ''/verana.xr.v1.MsgUpdateExchangeRate'' now = Inr ()"
  by (simp add: CheckOperatorAuthorization_def checkOperatorAuthorizationCore_def getOAByCorpOp_def
      sample_xr_de_def expired_def)

lemma update_can_retire_any_rate_witness:
  "\<exists>s'. UpdateExchangeRate (sample_xe 10) sample_xr (retire_rate ''corp'' ''o'' 1 ''150'') = Inr s' \<and>
     \<not> is_ok (xr_GetPrice (sample_xe 12) s' 3 ''USD'' 2 ''uvna'' ''7'')"
proof -
  let ?X = "sample_xe 10"
  have run: "timed_run (xr_step (xe_int ?X)) 10 xr_empty (se_block_time (xe_sdk ?X)) sample_xr" using sample_xr_run by simp
  have live: "se_block_time (xe_sdk ?X) < xr_expires (new_rate 1 sample_create_xr 10)"
    by (simp add: sample_rate_sel one_minute_def)
  have addr: "valid_addr (xe_sdk ?X) ''corp''" "valid_addr (xe_sdk ?X) ''o''" by simp_all
  have auth: "CheckOperatorAuthorization (resolve_id (xe_co ?X)) (xe_de ?X) ''corp'' ''o''
       ''/verana.xr.v1.MsgUpdateExchangeRate'' (se_block_time (xe_sdk ?X)) = Inr ()" by (simp add: sample_xr_auth)
  have co: "ResolveCorporationByPolicyAddress (xe_co ?X) ''corp'' = Inr (sample_corp 3 ''corp'' ''did:x:a'')"
    by (simp add: ResolveCorporationByPolicyAddress_def sample_registry_def)
  from update_can_retire_any_rate [OF run sample_xr_get sample_rate_sel(1) live addr auth co]
  obtain s' where s': "UpdateExchangeRate ?X sample_xr (retire_rate ''corp'' ''o'' 1 ''150'') = Inr s'"
    and dead: "\<And>u s'' Y amount. timed_run (xr_step bounded_int) 10 s' u s'' \<Longrightarrow> xe_int Y = bounded_int \<Longrightarrow>
       u \<le> se_block_time (xe_sdk Y) \<Longrightarrow> \<not> is_ok (xr_GetPrice Y s'' 3 ''USD'' 2 ''uvna'' amount)"
    by (auto simp: sample_rate_sel)
  have "\<not> is_ok (xr_GetPrice (sample_xe 12) s' 3 ''USD'' 2 ''uvna'' ''7'')"
    by (rule dead [OF run_start]) simp_all
  with s' show ?thesis by blast
qed

lemma xr_genesis_round_trip_witness:
  "timed_run (xr_step bounded_int) 10 xr_empty 10 sample_xr \<and>
   xrs_pairs (xr_InitGenesis (xr_ExportGenesis sample_xr) xr_empty) = xrs_pairs sample_xr"
  using sample_xr_run xr_genesis_round_trip [OF sample_xr_run] by simp

end
