(* ===== verification/Json_Edit.thy ===== *)
theory Json_Edit
imports External
begin

text \<open>
  The character-level editing of JSON schema texts (src/x/cs/types/types.go): dropping a
  top-level member, detecting the indentation and injecting the canonical \<open>$id\<close> as the
  first member.  The standard library's \<open>encoding/json\<close> is a parameter: its validity check,
  its decoder into \<open>interface{}\<close> values and its encoder.  A slice beyond the text is a panic.
\<close>

datatype json =
    J_Null | J_Bool bool | J_Number string | J_String string
  | J_Array "json list" | J_Object "(string \<times> json) list"

record json_ops =
  js_valid :: "string \<Rightarrow> bool"
  js_unmarshal :: "string \<Rightarrow> json option"
  js_marshal :: "json \<Rightarrow> string option"

datatype json_error = Js_Panic | Js_End | Js_Invalid | Js_Escape | Js_Not_Object | Js_Internal | Js_Parse | Js_Encode

definition dquote :: char where "dquote = CHR 0x22"
definition backslash :: char where "backslash = CHR 0x5C"

definition json_ws :: "char \<Rightarrow> bool" where
  "json_ws c \<longleftrightarrow> c = CHR 0x20 \<or> c = CHR 0x09 \<or> c = CHR 0x0A \<or> c = CHR 0x0D"

section \<open>Scanning\<close>

text \<open>The loop over the inside of a string literal: the index of the closing quote, or one
  at or past the end of the text.\<close>

function skip_string :: "string \<Rightarrow> nat \<Rightarrow> nat" where
  "skip_string b i =
     (if i < length b \<and> b ! i \<noteq> dquote then skip_string b (if b ! i = backslash then i + 2 else i + 1) else i)"
  by pat_completeness auto
termination by (relation "measure (\<lambda>(b, i). length b - i)") auto

function skip_while :: "(char \<Rightarrow> bool) \<Rightarrow> string \<Rightarrow> nat \<Rightarrow> nat" where
  "skip_while P b i = (if i < length b \<and> P (b ! i) then skip_while P b (i + 1) else i)"
  by pat_completeness auto
termination by (relation "measure (\<lambda>(P, b, i). length b - i)") auto

primrec back_while :: "(char \<Rightarrow> bool) \<Rightarrow> string \<Rightarrow> nat \<Rightarrow> nat" where
  "back_while P b 0 = 0"
| "back_while P b (Suc i) = (if P (b ! i) then back_while P b i else Suc i)"

declare skip_string.simps [simp del] skip_while.simps [simp del]

lemma skip_string_ge: "i \<le> skip_string b i"
proof (induction b i rule: skip_string.induct)
  case (1 b i)
  show ?case
  proof (cases "i < length b \<and> b ! i \<noteq> dquote")
    case True
    then have "skip_string b i = skip_string b (if b ! i = backslash then i + 2 else i + 1)"
      by (subst skip_string.simps) simp
    then show ?thesis using 1 [OF True] by (simp split: if_splits)
  next
    case False
    then have "skip_string b i = i" by (subst skip_string.simps) (rule if_not_P)
    then show ?thesis by simp
  qed
qed

text \<open>The body of an object or array: braces of the kind it opened with are counted.\<close>

function skip_nested :: "string \<Rightarrow> char \<Rightarrow> char \<Rightarrow> int \<Rightarrow> nat \<Rightarrow> nat" where
  "skip_nested b opener closer depth i =
     (if i < length b \<and> 0 < depth then
        if b ! i = dquote then skip_nested b opener closer depth (skip_string b (i + 1) + 1)
        else if b ! i = opener then skip_nested b opener closer (depth + 1) (i + 1)
        else if b ! i = closer then skip_nested b opener closer (depth - 1) (i + 1)
        else skip_nested b opener closer depth (i + 1)
      else i)"
  by pat_completeness auto
termination
proof (relation "measure (\<lambda>(b, op, cl, d, i). length b - i)")
  fix b :: string and opener closer :: char and depth :: int and i :: nat
  assume "i < length b \<and> 0 < depth"
  then show "((b, opener, closer, depth, skip_string b (i + 1) + 1), b, opener, closer, depth, i)
      \<in> measure (\<lambda>(b, op, cl, d, i). length b - i)"
    using skip_string_ge [of "i + 1" b] by (simp add: diff_less_mono2)
qed auto

definition value_end :: "char \<Rightarrow> bool" where
  "value_end c \<longleftrightarrow> c = CHR '','' \<or> c = CHR ''}'' \<or> c = CHR '']'' \<or> json_ws c"

definition skipJSONValue :: "string \<Rightarrow> nat \<Rightarrow> json_error + nat" where
  "skipJSONValue b i =
     (if length b \<le> i then Inl Js_End
      else let c = b ! i in
        if c = dquote then Inr (skip_string b (i + 1) + 1)
        else if c = CHR ''{'' then Inr (skip_nested b c (CHR ''}'') 1 (i + 1))
        else if c = CHR ''['' then Inr (skip_nested b c (CHR '']'') 1 (i + 1))
        else Inr (skip_while (\<lambda>c. \<not> value_end c) b i))"

definition go_slice :: "string \<Rightarrow> nat \<Rightarrow> nat \<Rightarrow> json_error + string" where
  "go_slice b i j = (if i \<le> j \<and> j \<le> length b then Inr (take (j - i) (drop i b)) else Inl Js_Panic)"

text \<open>The main loop of \<open>removeJSONField\<close>: start and end of the first string literal at
  depth one that is the quoted field name.\<close>

function find_key :: "string \<Rightarrow> string \<Rightarrow> int \<Rightarrow> nat \<Rightarrow> json_error + (nat \<times> nat) option" where
  "find_key b target depth i =
     (if i < length b then
        let c = b ! i in
        if c = dquote then
          let j = skip_string b (i + 1) + 1 in
          if depth = 1 then
            bindE (go_slice b i j) (\<lambda>keyStr.
            if keyStr = target then Inr (Some (i, j)) else find_key b target depth j)
          else find_key b target depth j
        else
          find_key b target (if c = CHR ''{'' \<or> c = CHR ''['' then depth + 1
                             else if c = CHR ''}'' \<or> c = CHR '']'' then depth - 1 else depth) (i + 1)
      else Inr None)"
  by pat_completeness auto
termination
proof (relation "measure (\<lambda>(b, t, d, i). length b - i)")
  fix b target :: string and depth :: int and i x :: nat and c :: char
  assume "i < length b" "x = skip_string b (i + 1) + 1"
  then show "((b, target, depth, x), b, target, depth, i) \<in> measure (\<lambda>(b, t, d, i). length b - i)"
    using skip_string_ge [of "i + 1" b] by (simp add: diff_less_mono2)
next
  fix b target keyStr :: string and depth :: int and i x :: nat and c :: char
  assume "i < length b" "x = skip_string b (i + 1) + 1"
  then show "((b, target, depth, x), b, target, depth, i) \<in> measure (\<lambda>(b, t, d, i). length b - i)"
    using skip_string_ge [of "i + 1" b] by (simp add: diff_less_mono2)
qed auto

text \<open>Cutting the member whose key spans \<open>start\<close> to \<open>i\<close> out of the text, with the comma
  after it or else the comma before it.\<close>

definition cut_member :: "string \<Rightarrow> nat \<Rightarrow> nat \<Rightarrow> json_error + string" where
  "cut_member b start i =
     (let ws = back_while json_ws b start;
          ci = skip_while json_ws b (skip_while (\<lambda>c. c \<noteq> CHR '':'') b i + 1)
      in bindE (skipJSONValue b ci) (\<lambda>valEnd.
         let ti = skip_while json_ws b valEnd in
         if ti < length b \<and> b ! ti = CHR '','' then
           bindE (go_slice b 0 ws) (\<lambda>p. bindE (go_slice b (ti + 1) (length b)) (\<lambda>q. Inr (p @ q)))
         else
           let lc = back_while json_ws b ws in
           if 0 < lc \<and> b ! (lc - 1) = CHR '','' then
             bindE (go_slice b 0 (lc - 1)) (\<lambda>p. bindE (go_slice b valEnd (length b)) (\<lambda>q. Inr (p @ q)))
           else
             bindE (go_slice b 0 ws) (\<lambda>p. bindE (go_slice b valEnd (length b)) (\<lambda>q. Inr (p @ q)))))"

definition removeJSONField :: "string \<Rightarrow> string \<Rightarrow> json_error + string" where
  "removeJSONField jsonStr field =
     bindE (find_key jsonStr (dquote # field @ [dquote]) 0 0) (\<lambda>found. case found of
       None \<Rightarrow> Inr jsonStr
     | Some (start, i) \<Rightarrow> cut_member jsonStr start i)"

section \<open>Formatting\<close>

function indent_scan :: "string \<Rightarrow> bool \<Rightarrow> nat \<Rightarrow> string" where
  "indent_scan s inObject i =
     (if i < length s then
        if s ! i = CHR ''{'' then indent_scan s True (i + 1)
        else if inObject \<and> s ! i = CHR 0x0A then
          let j = skip_while (\<lambda>c. c = CHR 0x20 \<or> c = CHR 0x09) s (i + 1) in
          if i + 1 < j \<and> j < length s \<and> s ! j \<noteq> CHR ''}'' then take (j - (i + 1)) (drop (i + 1) s)
          else indent_scan s inObject (max (i + 1) j)
        else indent_scan s inObject (i + 1)
      else [])"
  by pat_completeness auto
termination by (relation "measure (\<lambda>(s, inObj, i). length s - i)") auto

definition detectIndent :: "string \<Rightarrow> string" where
  "detectIndent jsonStr = indent_scan jsonStr False 0"

definition trimLeadingWhitespace :: "string \<Rightarrow> string" where
  "trimLeadingWhitespace s = dropWhile json_ws s"

section \<open>The canonical identifier\<close>

definition canonical_id :: "string \<Rightarrow> nat \<Rightarrow> string" where
  "canonical_id chainID schemaID =
     ''vpr:verana:'' @ chainID @ ''/cs/v1/js/'' @ int_to_string (int schemaID)"

text \<open>Whether a quote occurs before the first closing brace.\<close>

definition has_other_props :: "string \<Rightarrow> bool" where
  "has_other_props rest =
     (case dropWhile (\<lambda>c. c \<noteq> dquote \<and> c \<noteq> CHR ''}'') rest of [] \<Rightarrow> False | c # _ \<Rightarrow> c = dquote)"

definition injectOrReplaceID :: "json_ops \<Rightarrow> string \<Rightarrow> string \<Rightarrow> json_error + string" where
  "injectOrReplaceID J schemaJSON canonicalID =
     (if \<not> js_valid J schemaJSON then Inl Js_Invalid
      else
        bindE (optE Js_Escape (js_marshal J (J_String canonicalID))) (\<lambda>escapedID.
        bindE (removeJSONField schemaJSON ''$id'') (\<lambda>cleaned.
        case dropWhile (\<lambda>c. c \<noteq> CHR ''{'') cleaned of
          [] \<Rightarrow> Inl Js_Not_Object
        | _ # rest \<Rightarrow>
           (let header = takeWhile (\<lambda>c. c \<noteq> CHR ''{'') cleaned @ ''{'';
                idEntry = [dquote] @ ''$id'' @ [dquote] @ '': '' @ escapedID;
                indent = detectIndent cleaned;
                nl = [CHR 0x0A];
                result =
                  (if has_other_props rest then
                     if indent \<noteq> [] then
                       header @ nl @ indent @ idEntry @ '','' @ nl @ indent @ trimLeadingWhitespace rest
                     else header @ idEntry @ '','' @ rest
                   else
                     if indent \<noteq> [] then header @ nl @ indent @ idEntry @ rest
                     else header @ idEntry @ rest)
            in if \<not> js_valid J result then Inl Js_Internal else Inr result))))"

definition InjectCanonicalID :: "json_ops \<Rightarrow> string \<Rightarrow> string \<Rightarrow> nat \<Rightarrow> json_error + string" where
  "InjectCanonicalID J schemaJSON chainID schemaID =
     injectOrReplaceID J schemaJSON (canonical_id chainID schemaID)"

text \<open>A decoded document as a Go map: the last member of a name wins; \<open>null\<close> decodes to
  the nil map, anything else that is not an object is an error.\<close>

definition json_map :: "json \<Rightarrow> (string \<rightharpoonup> json) option" where
  "json_map v = (case v of J_Object ms \<Rightarrow> Some (map_of (rev ms)) | J_Null \<Rightarrow> Some Map.empty | _ \<Rightarrow> None)"

definition unmarshal_map :: "json_ops \<Rightarrow> string \<Rightarrow> (string \<rightharpoonup> json) option" where
  "unmarshal_map J s = (case js_unmarshal J s of None \<Rightarrow> None | Some v \<Rightarrow> json_map v)"

definition EnsureCanonicalID :: "json_ops \<Rightarrow> string \<Rightarrow> string \<Rightarrow> nat \<Rightarrow> json_error + string" where
  "EnsureCanonicalID J schemaJSON chainID schemaID =
     (let canonicalID = canonical_id chainID schemaID in
      if (case unmarshal_map J schemaJSON of None \<Rightarrow> False | Some doc \<Rightarrow> doc ''$id'' = Some (J_String canonicalID))
      then Inr schemaJSON
      else injectOrReplaceID J schemaJSON canonicalID)"

definition CanonicalizeJCS :: "json_ops \<Rightarrow> string \<Rightarrow> json_error + string" where
  "CanonicalizeJCS J schemaJSON =
     bindE (optE Js_Parse (js_unmarshal J schemaJSON)) (\<lambda>doc. optE Js_Encode (js_marshal J doc))"

definition nonempty_string :: "json option \<Rightarrow> bool" where
  "nonempty_string v = (case v of Some (J_String s) \<Rightarrow> s \<noteq> [] | _ \<Rightarrow> False)"

definition nonempty_object :: "json option \<Rightarrow> bool" where
  "nonempty_object v = (case v of Some (J_Object ms) \<Rightarrow> ms \<noteq> [] | _ \<Rightarrow> False)"

definition validateJSONSchema :: "json_ops \<Rightarrow> string \<Rightarrow> bool" where
  "validateJSONSchema J schemaJSON =
     (schemaJSON \<noteq> [] \<and>
      (case unmarshal_map J schemaJSON of
         None \<Rightarrow> False
       | Some doc \<Rightarrow>
           list_all (\<lambda>f. doc f \<noteq> None) [''$schema'', ''type'', ''title'', ''description''] \<and>
           doc ''type'' = Some (J_String ''object'') \<and>
           nonempty_string (doc ''title'') \<and> nonempty_string (doc ''description'') \<and>
           nonempty_object (doc ''properties'')))"

end
