(* ===== verification/Credential_Schema.thy ===== *)
theory Credential_Schema
imports Json_Edit Ecosystem Timed_Run
begin

text \<open>
  Credential schemas and their authorization policies (src/x/cs): records and state, the
  stateless checks of types/types.go, the six messages of keeper/msg_server.go and
  keeper/msg_schema_authorization_policy.go, the queries and genesis.
\<close>

section \<open>Data and state\<close>

record cred_schema =
  csm_id :: nat
  csm_ecosystem_id :: nat
  csm_created :: time
  csm_modified :: time
  csm_archived :: "time option"
  csm_json :: string
  csm_ig_period :: nat
  csm_vg_period :: nat
  csm_i_period :: nat
  csm_v_period :: nat
  csm_h_period :: nat
  csm_issuer_mode :: int
  csm_verifier_mode :: int
  csm_holder_mode :: int
  csm_pricing_type :: int
  csm_pricing_asset :: string
  csm_digest_algorithm :: string

record sa_policy =
  sp_id :: nat
  sp_schema_id :: nat
  sp_role :: int
  sp_url :: string
  sp_digest_sri :: string
  sp_effective_from :: "time option"
  sp_effective_until :: "time option"
  sp_revoked :: bool
  sp_created :: time
  sp_version :: int

record cs_params =
  cp_max_size :: nat
  cp_ig_max :: nat
  cp_vg_max :: nat
  cp_i_max :: nat
  cp_v_max :: nat
  cp_h_max :: nat

definition cs_DefaultParams :: cs_params where
  "cs_DefaultParams = \<lparr>cp_max_size = 8192, cp_ig_max = 3650, cp_vg_max = 3650, cp_i_max = 3650,
     cp_v_max = 3650, cp_h_max = 3650\<rparr>"

record cs_state =
  css_params :: cs_params
  css_schemas :: "(nat, cred_schema) store"
  css_policies :: "(nat, sa_policy) store"
  css_counter :: "(string, nat) store"

definition cs_empty :: cs_state where
  "cs_empty = \<lparr>css_params = cs_DefaultParams, css_schemas = kempty, css_policies = kempty,
     css_counter = kempty\<rparr>"

datatype cs_error =
    Cs_Bad_Address | Cs_Zero_Id | Cs_Json json_error | Cs_Bad_Schema | Cs_Period_Missing | Cs_Period_Too_Long
  | Cs_Mode | Cs_Pricing | Cs_Digest_Algorithm | Cs_Authz de_error | Cs_Ecosystem | Cs_Not_Registered
  | Cs_Not_Owner | Cs_Too_Large | Cs_Not_Found | Cs_Archived | Cs_Already_Archived | Cs_Not_Archived
  | Cs_Required | Cs_No_Policy | Cs_No_Pending | Cs_Revoked | Cs_Not_Active | Cs_Signer | Cs_Params | Cs_Query

record msg_create_cs =
  mc_corporation :: string
  mc_operator :: string
  mc_ecosystem_id :: nat
  mc_json :: string
  mc_ig_period :: "nat option"
  mc_vg_period :: "nat option"
  mc_i_period :: "nat option"
  mc_v_period :: "nat option"
  mc_h_period :: "nat option"
  mc_issuer_mode :: nat
  mc_verifier_mode :: nat
  mc_holder_mode :: nat
  mc_pricing_type :: nat
  mc_pricing_asset :: string
  mc_digest_algorithm :: string

record msg_update_cs =
  us_corporation :: string
  us_operator :: string
  us_id :: nat
  us_ig_period :: "nat option"
  us_vg_period :: "nat option"
  us_i_period :: "nat option"
  us_v_period :: "nat option"
  us_h_period :: "nat option"

record msg_archive_cs =
  ac_corporation :: string
  ac_operator :: string
  ac_id :: nat
  ac_archive :: bool

text \<open>What surrounds a message: block context, chain id, JSON library,
  \<open>sdk.ValidateDenom\<close>, and the registries.\<close>

record cs_env =
  ke_sdk :: sdk_env
  ke_chain_id :: string
  ke_json :: json_ops
  ke_denom :: "string \<Rightarrow> bool"
  ke_co :: co_state
  ke_ec :: ec_state
  ke_de :: de_state

definition cs_now :: "cs_env \<Rightarrow> time" where
  "cs_now X = se_block_time (ke_sdk X)"

section \<open>Stateless validation (types/types.go)\<close>

definition ValidDigestAlgorithms :: "string list" where
  "ValidDigestAlgorithms = [''sha256'', ''sha384'', ''sha512'']"

definition iso4217Currencies :: "string list" where
  "iso4217Currencies =
    [''AED'', ''AFN'', ''ALL'', ''AMD'', ''ANG'', ''AOA'', ''ARS'', ''AUD'', ''AWG'',
     ''AZN'', ''BAM'', ''BBD'', ''BDT'', ''BGN'', ''BHD'', ''BIF'', ''BMD'', ''BND'',
     ''BOB'', ''BRL'', ''BSD'', ''BTN'', ''BWP'', ''BYN'', ''BZD'', ''CAD'', ''CDF'',
     ''CHF'', ''CLP'', ''CNY'', ''COP'', ''CRC'', ''CUP'', ''CVE'', ''CZK'', ''DJF'',
     ''DKK'', ''DOP'', ''DZD'', ''EGP'', ''ERN'', ''ETB'', ''EUR'', ''FJD'', ''FKP'',
     ''GBP'', ''GEL'', ''GHS'', ''GIP'', ''GMD'', ''GNF'', ''GTQ'', ''GYD'', ''HKD'',
     ''HNL'', ''HTG'', ''HUF'', ''IDR'', ''ILS'', ''INR'', ''IQD'', ''IRR'', ''ISK'',
     ''JMD'', ''JOD'', ''JPY'', ''KES'', ''KGS'', ''KHR'', ''KMF'', ''KPW'', ''KRW'',
     ''KWD'', ''KYD'', ''KZT'', ''LAK'', ''LBP'', ''LKR'', ''LRD'', ''LSL'', ''LYD'',
     ''MAD'', ''MDL'', ''MGA'', ''MKD'', ''MMK'', ''MNT'', ''MOP'', ''MRU'', ''MUR'',
     ''MVR'', ''MWK'', ''MXN'', ''MYR'', ''MZN'', ''NAD'', ''NGN'', ''NIO'', ''NOK'',
     ''NPR'', ''NZD'', ''OMR'', ''PAB'', ''PEN'', ''PGK'', ''PHP'', ''PKR'', ''PLN'',
     ''PYG'', ''QAR'', ''RON'', ''RSD'', ''RUB'', ''RWF'', ''SAR'', ''SBD'', ''SCR'',
     ''SDG'', ''SEK'', ''SGD'', ''SHP'', ''SLE'', ''SOS'', ''SRD'', ''SSP'', ''STN'',
     ''SVC'', ''SYP'', ''SZL'', ''THB'', ''TJS'', ''TMT'', ''TND'', ''TOP'', ''TRY'',
     ''TTD'', ''TWD'', ''TZS'', ''UAH'', ''UGX'', ''USD'', ''UYU'', ''UZS'', ''VES'',
     ''VND'', ''VUV'', ''WST'', ''XAF'', ''XCD'', ''XOF'', ''XPF'', ''YER'', ''ZAR'',
     ''ZMW'', ''ZWL'']"

definition validateValidityPeriods :: "msg_create_cs \<Rightarrow> cs_error + unit" where
  "validateValidityPeriods m =
     (if mc_ig_period m = None then Inl Cs_Period_Missing
      else if mc_vg_period m = None then Inl Cs_Period_Missing
      else if mc_i_period m = None then Inl Cs_Period_Missing
      else if mc_v_period m = None then Inl Cs_Period_Missing
      else if mc_h_period m = None then Inl Cs_Period_Missing
      else Inr ())"

definition validatePermManagementModes :: "msg_create_cs \<Rightarrow> cs_error + unit" where
  "validatePermManagementModes m =
     (if mc_issuer_mode m = 0 \<or> 3 < mc_issuer_mode m then Inl Cs_Mode
      else if mc_verifier_mode m = 0 \<or> 3 < mc_verifier_mode m then Inl Cs_Mode
      else if mc_holder_mode m = 0 \<or> 2 < mc_holder_mode m then Inl Cs_Mode
      else Inr ())"

definition validatePricingAsset :: "(string \<Rightarrow> bool) \<Rightarrow> msg_create_cs \<Rightarrow> cs_error + unit" where
  "validatePricingAsset denom m =
     (let t = mc_pricing_type m; a = mc_pricing_asset m in
      if t = 0 \<or> 3 < t then Inl Cs_Pricing
      else if a = [] then Inl Cs_Pricing
      else if t = 1 \<and> a \<noteq> ''tu'' then Inl Cs_Pricing
      else if t = 3 \<and> a \<notin> set iso4217Currencies then Inl Cs_Pricing
      else if t = 2 \<and> \<not> denom a then Inl Cs_Pricing
      else Inr ())"

definition validateDigestAlgorithm :: "string \<Rightarrow> cs_error + unit" where
  "validateDigestAlgorithm a =
     (if a = [] then Inl Cs_Digest_Algorithm
      else if a \<notin> set ValidDigestAlgorithms then Inl Cs_Digest_Algorithm else Inr ())"

definition validate_create_cs :: "cs_env \<Rightarrow> msg_create_cs \<Rightarrow> cs_error + unit" where
  "validate_create_cs X m =
     (if \<not> valid_addr (ke_sdk X) (mc_corporation m) then Inl Cs_Bad_Address
      else if \<not> valid_addr (ke_sdk X) (mc_operator m) then Inl Cs_Bad_Address
      else if mc_ecosystem_id m = 0 then Inl Cs_Zero_Id
      else if \<not> validateJSONSchema (ke_json X) (mc_json m) then Inl Cs_Bad_Schema
      else bindE (validateValidityPeriods m) (\<lambda>_. bindE (validatePermManagementModes m) (\<lambda>_.
           bindE (validatePricingAsset (ke_denom X) m) (\<lambda>_. validateDigestAlgorithm (mc_digest_algorithm m)))))"

definition validate_update_cs :: "cs_env \<Rightarrow> msg_update_cs \<Rightarrow> cs_error + unit" where
  "validate_update_cs X m =
     (if \<not> valid_addr (ke_sdk X) (us_corporation m) then Inl Cs_Bad_Address
      else if \<not> valid_addr (ke_sdk X) (us_operator m) then Inl Cs_Bad_Address
      else if us_id m = 0 then Inl Cs_Zero_Id
      else if us_ig_period m = None then Inl Cs_Period_Missing
      else if us_vg_period m = None then Inl Cs_Period_Missing
      else if us_i_period m = None then Inl Cs_Period_Missing
      else if us_v_period m = None then Inl Cs_Period_Missing
      else if us_h_period m = None then Inl Cs_Period_Missing
      else Inr ())"

definition validate_archive_cs :: "cs_env \<Rightarrow> msg_archive_cs \<Rightarrow> cs_error + unit" where
  "validate_archive_cs X m =
     (if \<not> valid_addr (ke_sdk X) (ac_corporation m) then Inl Cs_Bad_Address
      else if \<not> valid_addr (ke_sdk X) (ac_operator m) then Inl Cs_Bad_Address
      else if ac_id m = 0 then Inl Cs_Zero_Id
      else Inr ())"

section \<open>Checks the handlers share (keeper/keeper.go, ownership.go, cross_module.go)\<close>

definition cs_GetNextID :: "cs_state \<Rightarrow> string \<Rightarrow> nat \<times> cs_state" where
  "cs_GetNextID s ty =
     (let current = (case kget (css_counter s) ty of None \<Rightarrow> 0 | Some n \<Rightarrow> n);
          nxt = current + 1
      in (nxt, s\<lparr>css_counter := kset (css_counter s) ty nxt\<rparr>))"

text \<open>The adapter reads the policy-address index only.\<close>

definition cs_ResolveByPolicyAddress :: "co_state \<Rightarrow> string \<Rightarrow> nat option" where
  "cs_ResolveByPolicyAddress s addr = kget (cos_by_policy s) addr"

definition checkCreateSchemaOwnership :: "cs_env \<Rightarrow> nat \<Rightarrow> string \<Rightarrow> cs_error + unit" where
  "checkCreateSchemaOwnership X ecosystemID signingCorp =
     bindE (optE Cs_Ecosystem (ec_GetEcosystem (ke_ec X) ecosystemID)) (\<lambda>ec.
     bindE (optE Cs_Not_Registered (cs_ResolveByPolicyAddress (ke_co X) signingCorp)) (\<lambda>co.
     if ec_corporation_id ec \<noteq> co then Inl Cs_Not_Owner else Inr ()))"

definition checkSchemaOwnership :: "cs_env \<Rightarrow> cred_schema \<Rightarrow> string \<Rightarrow> cs_error + unit" where
  "checkSchemaOwnership X c signingCorp =
     bindE (optE Cs_Ecosystem (ec_GetEcosystem (ke_ec X) (csm_ecosystem_id c))) (\<lambda>ec.
     bindE (optE Cs_Not_Registered (cs_ResolveByPolicyAddress (ke_co X) signingCorp)) (\<lambda>co.
     if ec_corporation_id ec \<noteq> co then Inl Cs_Not_Owner else Inr ()))"

definition cs_authorize :: "cs_env \<Rightarrow> string \<Rightarrow> string \<Rightarrow> string \<Rightarrow> cs_error + unit" where
  "cs_authorize X corporation operator mt =
     liftE Cs_Authz (CheckOperatorAuthorization (resolve_id (ke_co X)) (ke_de X) corporation operator mt (cs_now X))"

text \<open>Zero means a validation that never expires.\<close>

definition period_exceeds :: "nat \<Rightarrow> nat \<Rightarrow> bool" where
  "period_exceeds val maximum \<longleftrightarrow> 0 < val \<and> maximum < val"

definition GetValue :: "nat option \<Rightarrow> nat" where
  "GetValue v = (case v of None \<Rightarrow> 0 | Some n \<Rightarrow> n)"

section \<open>Creating, updating and archiving schemas\<close>

definition validateValidityPeriodsWithParams :: "msg_create_cs \<Rightarrow> cs_params \<Rightarrow> cs_error + unit" where
  "validateValidityPeriodsWithParams m p =
     (if mc_ig_period m = None then Inl Cs_Period_Missing
      else if mc_vg_period m = None then Inl Cs_Period_Missing
      else if mc_i_period m = None then Inl Cs_Period_Missing
      else if mc_v_period m = None then Inl Cs_Period_Missing
      else if mc_h_period m = None then Inl Cs_Period_Missing
      else if period_exceeds (GetValue (mc_ig_period m)) (cp_ig_max p) then Inl Cs_Period_Too_Long
      else if period_exceeds (GetValue (mc_vg_period m)) (cp_vg_max p) then Inl Cs_Period_Too_Long
      else if period_exceeds (GetValue (mc_i_period m)) (cp_i_max p) then Inl Cs_Period_Too_Long
      else if period_exceeds (GetValue (mc_v_period m)) (cp_v_max p) then Inl Cs_Period_Too_Long
      else if period_exceeds (GetValue (mc_h_period m)) (cp_h_max p) then Inl Cs_Period_Too_Long
      else Inr ())"

definition validateCreateCredentialSchemaParams :: "cs_env \<Rightarrow> cs_state \<Rightarrow> msg_create_cs \<Rightarrow> cs_error + unit" where
  "validateCreateCredentialSchemaParams X s m =
     bindE (checkCreateSchemaOwnership X (mc_ecosystem_id m) (mc_corporation m)) (\<lambda>_.
     if cp_max_size (css_params s) < length (mc_json m) then Inl Cs_Too_Large
     else validateValidityPeriodsWithParams m (css_params s))"

definition new_schema :: "nat \<Rightarrow> msg_create_cs \<Rightarrow> string \<Rightarrow> time \<Rightarrow> cred_schema" where
  "new_schema i m canonical now =
     \<lparr>csm_id = i, csm_ecosystem_id = mc_ecosystem_id m, csm_created = now, csm_modified = now,
      csm_archived = None, csm_json = canonical,
      csm_ig_period = GetValue (mc_ig_period m), csm_vg_period = GetValue (mc_vg_period m),
      csm_i_period = GetValue (mc_i_period m), csm_v_period = GetValue (mc_v_period m),
      csm_h_period = GetValue (mc_h_period m),
      csm_issuer_mode = i32 (int (mc_issuer_mode m)), csm_verifier_mode = i32 (int (mc_verifier_mode m)),
      csm_holder_mode = i32 (int (mc_holder_mode m)), csm_pricing_type = i32 (int (mc_pricing_type m)),
      csm_pricing_asset = mc_pricing_asset m, csm_digest_algorithm = mc_digest_algorithm m\<rparr>"

definition executeCreateCredentialSchema ::
  "cs_env \<Rightarrow> cs_state \<Rightarrow> nat \<Rightarrow> msg_create_cs \<Rightarrow> cs_error + cs_state" where
  "executeCreateCredentialSchema X s schemaID m =
     bindE (liftE Cs_Json (InjectCanonicalID (ke_json X) (mc_json m) (ke_chain_id X) schemaID)) (\<lambda>processed.
     bindE (liftE Cs_Json (CanonicalizeJCS (ke_json X) processed)) (\<lambda>canonical.
     Inr (s\<lparr>css_schemas := kset (css_schemas s) schemaID (new_schema schemaID m canonical (cs_now X))\<rparr>)))"

definition CreateCredentialSchema :: "cs_env \<Rightarrow> cs_state \<Rightarrow> msg_create_cs \<Rightarrow> cs_error + nat \<times> cs_state" where
  "CreateCredentialSchema X s m =
     bindE (cs_authorize X (mc_corporation m) (mc_operator m) ''/verana.cs.v1.MsgCreateCredentialSchema'') (\<lambda>_.
     let (nextID, s1) = cs_GetNextID s ''cs'' in
     bindE (validateCreateCredentialSchemaParams X s1 m) (\<lambda>_.
     bindE (executeCreateCredentialSchema X s1 nextID m) (\<lambda>s2. Inr (nextID, s2))))"

definition ValidateValidityPeriods :: "cs_params \<Rightarrow> msg_update_cs \<Rightarrow> cs_error + unit" where
  "ValidateValidityPeriods p m =
     (if period_exceeds (GetValue (us_ig_period m)) (cp_ig_max p) then Inl Cs_Period_Too_Long
      else if period_exceeds (GetValue (us_vg_period m)) (cp_vg_max p) then Inl Cs_Period_Too_Long
      else if period_exceeds (GetValue (us_i_period m)) (cp_i_max p) then Inl Cs_Period_Too_Long
      else if period_exceeds (GetValue (us_v_period m)) (cp_v_max p) then Inl Cs_Period_Too_Long
      else if period_exceeds (GetValue (us_h_period m)) (cp_h_max p) then Inl Cs_Period_Too_Long
      else Inr ())"

definition overwrite :: "nat option \<Rightarrow> nat \<Rightarrow> nat" where
  "overwrite v old = (case v of None \<Rightarrow> old | Some n \<Rightarrow> n)"

definition UpdateCredentialSchema :: "cs_env \<Rightarrow> cs_state \<Rightarrow> msg_update_cs \<Rightarrow> cs_error + cs_state" where
  "UpdateCredentialSchema X s m =
     bindE (cs_authorize X (us_corporation m) (us_operator m) ''/verana.cs.v1.MsgUpdateCredentialSchema'') (\<lambda>_.
     bindE (optE Cs_Not_Found (kget (css_schemas s) (us_id m))) (\<lambda>c.
     if csm_archived c \<noteq> None then Inl Cs_Archived
     else
       bindE (checkSchemaOwnership X c (us_corporation m)) (\<lambda>_.
       bindE (ValidateValidityPeriods (css_params s) m) (\<lambda>_.
       Inr (s\<lparr>css_schemas := kset (css_schemas s) (csm_id c)
              (c\<lparr>csm_ig_period := overwrite (us_ig_period m) (csm_ig_period c),
                 csm_vg_period := overwrite (us_vg_period m) (csm_vg_period c),
                 csm_i_period := overwrite (us_i_period m) (csm_i_period c),
                 csm_v_period := overwrite (us_v_period m) (csm_v_period c),
                 csm_h_period := overwrite (us_h_period m) (csm_h_period c),
                 csm_modified := cs_now X\<rparr>)\<rparr>)))))"

definition ArchiveCredentialSchema :: "cs_env \<Rightarrow> cs_state \<Rightarrow> msg_archive_cs \<Rightarrow> cs_error + cs_state" where
  "ArchiveCredentialSchema X s m =
     bindE (cs_authorize X (ac_corporation m) (ac_operator m) ''/verana.cs.v1.MsgArchiveCredentialSchema'') (\<lambda>_.
     bindE (optE Cs_Not_Found (kget (css_schemas s) (ac_id m))) (\<lambda>c.
     bindE (checkSchemaOwnership X c (ac_corporation m)) (\<lambda>_.
     bindE (if ac_archive m then (if csm_archived c \<noteq> None then Inl Cs_Already_Archived else Inr (Some (cs_now X)))
            else (if csm_archived c = None then Inl Cs_Not_Archived else Inr None)) (\<lambda>a.
     Inr (s\<lparr>css_schemas := kset (css_schemas s) (csm_id c)
            (c\<lparr>csm_archived := a, csm_modified := cs_now X\<rparr>)\<rparr>)))))"

definition cs_params_validate :: "cs_params \<Rightarrow> bool" where
  "cs_params_validate p \<longleftrightarrow> cp_max_size p \<noteq> 0 \<and> cp_ig_max p \<noteq> 0 \<and> cp_vg_max p \<noteq> 0 \<and> cp_i_max p \<noteq> 0 \<and>
     cp_v_max p \<noteq> 0 \<and> cp_h_max p \<noteq> 0"

definition cs_validate_update_params :: "sdk_env \<Rightarrow> string \<Rightarrow> cs_params \<Rightarrow> cs_error + unit" where
  "cs_validate_update_params E signer p =
     (if \<not> valid_addr E signer then Inl Cs_Bad_Address
      else if \<not> cs_params_validate p then Inl Cs_Params else Inr ())"

text \<open>\<open>MsgUpdateParams\<close>: the authority is compared, the parameters are stored as given.\<close>

definition cs_UpdateParams :: "string \<Rightarrow> cs_state \<Rightarrow> string \<Rightarrow> cs_params \<Rightarrow> cs_error + cs_state" where
  "cs_UpdateParams authority s signer p =
     (if authority \<noteq> signer then Inl Cs_Signer else Inr (s\<lparr>css_params := p\<rparr>))"

section \<open>Authorization policies (keeper/msg_schema_authorization_policy.go)\<close>

record msg_create_sap =
  sc_corporation :: string
  sc_operator :: string
  sc_schema_id :: nat
  sc_role :: int
  sc_url :: string
  sc_digest_sri :: string

record msg_increase_sap =
  ip_corporation :: string
  ip_operator :: string
  ip_schema_id :: nat
  ip_role :: int

record msg_revoke_sap =
  vp_corporation :: string
  vp_operator :: string
  vp_schema_id :: nat
  vp_role :: int
  vp_version :: int

definition validate_create_sap :: "cs_env \<Rightarrow> msg_create_sap \<Rightarrow> cs_error + unit" where
  "validate_create_sap X m =
     (if sc_corporation m = [] then Inl Cs_Required
      else if \<not> valid_addr (ke_sdk X) (sc_corporation m) then Inl Cs_Bad_Address
      else if sc_operator m = [] then Inl Cs_Required
      else if \<not> valid_addr (ke_sdk X) (sc_operator m) then Inl Cs_Bad_Address
      else if sc_schema_id m = 0 then Inl Cs_Required
      else if sc_role m = 0 then Inl Cs_Required
      else if sc_url m = [] then Inl Cs_Required
      else if sc_digest_sri m = [] then Inl Cs_Required
      else Inr ())"

definition validate_increase_sap :: "cs_env \<Rightarrow> msg_increase_sap \<Rightarrow> cs_error + unit" where
  "validate_increase_sap X m =
     (if ip_corporation m = [] then Inl Cs_Required
      else if \<not> valid_addr (ke_sdk X) (ip_corporation m) then Inl Cs_Bad_Address
      else if ip_operator m = [] then Inl Cs_Required
      else if \<not> valid_addr (ke_sdk X) (ip_operator m) then Inl Cs_Bad_Address
      else if ip_schema_id m = 0 then Inl Cs_Required
      else if ip_role m = 0 then Inl Cs_Required
      else Inr ())"

definition validate_revoke_sap :: "cs_env \<Rightarrow> msg_revoke_sap \<Rightarrow> cs_error + unit" where
  "validate_revoke_sap X m =
     (if vp_corporation m = [] then Inl Cs_Required
      else if \<not> valid_addr (ke_sdk X) (vp_corporation m) then Inl Cs_Bad_Address
      else if vp_operator m = [] then Inl Cs_Required
      else if \<not> valid_addr (ke_sdk X) (vp_operator m) then Inl Cs_Bad_Address
      else if vp_schema_id m = 0 then Inl Cs_Required
      else if vp_role m = 0 then Inl Cs_Required
      else if vp_version m = 0 then Inl Cs_Required
      else Inr ())"

definition getSchemaAuthPoliciesForRole :: "cs_state \<Rightarrow> nat \<Rightarrow> int \<Rightarrow> sa_policy list" where
  "getSchemaAuthPoliciesForRole s schemaID role =
     filter (\<lambda>p. sp_schema_id p = schemaID \<and> sp_role p = role) (walk (css_policies s))"

definition put_policy :: "cs_state \<Rightarrow> sa_policy \<Rightarrow> cs_state" where
  "put_policy s p = s\<lparr>css_policies := kset (css_policies s) (sp_id p) p\<rparr>"

definition CreateSchemaAuthorizationPolicy :: "cs_env \<Rightarrow> cs_state \<Rightarrow> msg_create_sap \<Rightarrow> cs_error + nat \<times> cs_state" where
  "CreateSchemaAuthorizationPolicy X s m =
     bindE (validate_create_sap X m) (\<lambda>_.
     bindE (cs_authorize X (sc_corporation m) (sc_operator m)
              ''/verana.cs.v1.MsgCreateSchemaAuthorizationPolicy'') (\<lambda>_.
     bindE (optE Cs_Not_Found (kget (css_schemas s) (sc_schema_id m))) (\<lambda>c.
     bindE (checkSchemaOwnership X c (sc_corporation m)) (\<lambda>_.
     let existing = getSchemaAuthPoliciesForRole s (sc_schema_id m) (sc_role m);
         nextVersion = u32 (int (length existing) + 1);
         (i, s1) = cs_GetNextID s ''schema_authorization_policy'';
         p = \<lparr>sp_id = i, sp_schema_id = sc_schema_id m, sp_role = sc_role m, sp_url = sc_url m,
              sp_digest_sri = sc_digest_sri m, sp_effective_from = None, sp_effective_until = None,
              sp_revoked = False, sp_created = cs_now X, sp_version = nextVersion\<rparr>
     in Inr (i, put_policy s1 p)))))"

text \<open>\<open>effective_from\<close> null or in the future.\<close>

definition policy_pending :: "time \<Rightarrow> sa_policy \<Rightarrow> bool" where
  "policy_pending now p \<longleftrightarrow> \<not> sp_revoked p \<and>
     (case sp_effective_from p of None \<Rightarrow> True | Some t \<Rightarrow> now < t)"

definition lowest_version :: "sa_policy \<Rightarrow> sa_policy list \<Rightarrow> sa_policy" where
  "lowest_version p ps = foldl (\<lambda>n q. if sp_version q < sp_version n then q else n) p ps"

definition IncreaseActiveSchemaAuthorizationPolicyVersion ::
  "cs_env \<Rightarrow> cs_state \<Rightarrow> msg_increase_sap \<Rightarrow> cs_error + cs_state" where
  "IncreaseActiveSchemaAuthorizationPolicyVersion X s m =
     bindE (validate_increase_sap X m) (\<lambda>_.
     bindE (cs_authorize X (ip_corporation m) (ip_operator m)
              ''/verana.cs.v1.MsgIncreaseActiveSchemaAuthorizationPolicyVersion'') (\<lambda>_.
     bindE (optE Cs_Not_Found (kget (css_schemas s) (ip_schema_id m))) (\<lambda>c.
     bindE (checkSchemaOwnership X c (ip_corporation m)) (\<lambda>_.
     let policies = getSchemaAuthPoliciesForRole s (ip_schema_id m) (ip_role m) in
     if policies = [] then Inl Cs_No_Policy
     else case filter (policy_pending (cs_now X)) policies of
       [] \<Rightarrow> Inl Cs_No_Pending
     | p # ps \<Rightarrow> Inr (put_policy s ((lowest_version p ps)\<lparr>sp_effective_from := Some (cs_now X)\<rparr>))))))"

definition RevokeSchemaAuthorizationPolicy :: "cs_env \<Rightarrow> cs_state \<Rightarrow> msg_revoke_sap \<Rightarrow> cs_error + cs_state" where
  "RevokeSchemaAuthorizationPolicy X s m =
     bindE (validate_revoke_sap X m) (\<lambda>_.
     bindE (cs_authorize X (vp_corporation m) (vp_operator m)
              ''/verana.cs.v1.MsgRevokeSchemaAuthorizationPolicy'') (\<lambda>_.
     bindE (optE Cs_Not_Found (kget (css_schemas s) (vp_schema_id m))) (\<lambda>c.
     bindE (checkSchemaOwnership X c (vp_corporation m)) (\<lambda>_.
     bindE (optE Cs_No_Policy (find (\<lambda>p. sp_version p = vp_version m)
              (getSchemaAuthPoliciesForRole s (vp_schema_id m) (vp_role m)))) (\<lambda>target.
     if sp_revoked target then Inl Cs_Revoked
     else if (case sp_effective_from target of None \<Rightarrow> True | Some t \<Rightarrow> cs_now X < t) then Inl Cs_Not_Active
     else Inr (put_policy s (target\<lparr>sp_revoked := True\<rparr>)))))))"

section \<open>Queries (keeper/query.go)\<close>

record list_cs_request =
  lr_ecosystem_id :: nat
  lr_modified_after :: "time option"
  lr_only_active :: bool
  lr_issuer_mode :: int
  lr_verifier_mode :: int
  lr_holder_mode :: int
  lr_max_size :: nat

definition schema_matches :: "list_cs_request \<Rightarrow> cred_schema \<Rightarrow> bool" where
  "schema_matches r c \<longleftrightarrow>
     \<not> (lr_ecosystem_id r \<noteq> 0 \<and> csm_ecosystem_id c \<noteq> lr_ecosystem_id r) \<and>
     \<not> (case lr_modified_after r of None \<Rightarrow> False | Some t \<Rightarrow> \<not> t < csm_modified c) \<and>
     \<not> (lr_only_active r \<and> csm_archived c \<noteq> None) \<and>
     \<not> (lr_issuer_mode r \<noteq> 0 \<and> csm_issuer_mode c \<noteq> lr_issuer_mode r) \<and>
     \<not> (lr_verifier_mode r \<noteq> 0 \<and> csm_verifier_mode c \<noteq> lr_verifier_mode r) \<and>
     \<not> (lr_holder_mode r \<noteq> 0 \<and> csm_holder_mode c \<noteq> lr_holder_mode r)"

text \<open>A schema whose identifier cannot be fixed is listed as stored.\<close>

definition with_canonical_id :: "cs_env \<Rightarrow> cred_schema \<Rightarrow> cred_schema" where
  "with_canonical_id X c =
     (case EnsureCanonicalID (ke_json X) (csm_json c) (ke_chain_id X) (csm_id c) of
        Inl _ \<Rightarrow> c | Inr t \<Rightarrow> c\<lparr>csm_json := t\<rparr>)"

text \<open>Newest first; \<open>sort.Slice\<close> leaves the order of equal times open, the model keeps
  the order of the ids.\<close>

definition ListCredentialSchemas :: "cs_env \<Rightarrow> cs_state \<Rightarrow> list_cs_request \<Rightarrow> cs_error + cred_schema list" where
  "ListCredentialSchemas X s r =
     (let maximum = (if lr_max_size r = 0 then 64 else lr_max_size r) in
      if 1024 < maximum then Inl Cs_Query
      else Inr (take maximum (sort_key (\<lambda>c. - csm_modified c)
             (map (with_canonical_id X) (filter (schema_matches r) (walk (css_schemas s)))))))"

definition GetCredentialSchema :: "cs_env \<Rightarrow> cs_state \<Rightarrow> nat \<Rightarrow> cs_error + cred_schema" where
  "GetCredentialSchema X s i =
     bindE (optE Cs_Query (kget (css_schemas s) i)) (\<lambda>c.
     bindE (liftE Cs_Json (EnsureCanonicalID (ke_json X) (csm_json c) (ke_chain_id X) (csm_id c))) (\<lambda>t.
     Inr (c\<lparr>csm_json := t\<rparr>)))"

definition RenderJsonSchema :: "cs_env \<Rightarrow> cs_state \<Rightarrow> nat \<Rightarrow> cs_error + string" where
  "RenderJsonSchema X s i =
     bindE (optE Cs_Query (kget (css_schemas s) i)) (\<lambda>c.
     bindE (liftE Cs_Json (EnsureCanonicalID (ke_json X) (csm_json c) (ke_chain_id X) (csm_id c))) (\<lambda>t.
     liftE Cs_Json (CanonicalizeJCS (ke_json X) t)))"

definition GetCredentialSchemaById :: "cs_state \<Rightarrow> nat \<Rightarrow> cred_schema option" where
  "GetCredentialSchemaById s i = kget (css_schemas s) i"

section \<open>Parameters and genesis (types/params.go, types/genesis.go, module/genesis.go)\<close>

record cs_genesis =
  cg_params :: cs_params
  cg_schemas :: "cred_schema list"
  cg_counter :: nat

definition cs_InitGenesis :: "cs_genesis \<Rightarrow> cs_state \<Rightarrow> cs_state" where
  "cs_InitGenesis g s =
     (let schemas = sort_key csm_id (cg_schemas g) in
      s\<lparr>css_params := cg_params g,
        css_schemas := kset_all csm_id schemas (css_schemas s),
        css_counter := kset (css_counter s) ''cs'' (maximum_id csm_id schemas)\<rparr>)"

definition cs_ExportGenesis :: "cs_state \<Rightarrow> cs_genesis" where
  "cs_ExportGenesis s =
     (let schemas = sort_key csm_id (walk (css_schemas s)) in
      \<lparr>cg_params = css_params s, cg_schemas = schemas,
       cg_counter = (case kget (css_counter s) ''cs'' of Some n \<Rightarrow> n | None \<Rightarrow> maximum_id csm_id schemas)\<rparr>)"

text \<open>The periods are compared with the default maxima, whatever the parameters are.\<close>

definition genesis_schema_ok :: "json_ops \<Rightarrow> cred_schema \<Rightarrow> bool" where
  "genesis_schema_ok J c \<longleftrightarrow>
     csm_id c \<noteq> 0 \<and> csm_ecosystem_id c \<noteq> 0 \<and> csm_created c \<noteq> zero_time \<and> csm_modified c \<noteq> zero_time \<and>
     csm_json c \<noteq> [] \<and>
     0 < csm_issuer_mode c \<and> csm_issuer_mode c \<le> 3 \<and> 0 < csm_verifier_mode c \<and> csm_verifier_mode c \<le> 3 \<and>
     0 < csm_pricing_type c \<and> csm_pricing_type c \<le> 3 \<and> csm_pricing_asset c \<noteq> [] \<and>
     csm_digest_algorithm c \<in> set ValidDigestAlgorithms \<and> validateJSONSchema J (csm_json c) \<and>
     csm_ig_period c \<le> 3650 \<and> csm_vg_period c \<le> 3650 \<and> csm_i_period c \<le> 3650 \<and>
     csm_v_period c \<le> 3650 \<and> csm_h_period c \<le> 3650 \<and>
     \<not> csm_modified c < csm_created c \<and>
     (case csm_archived c of None \<Rightarrow> True | Some t \<Rightarrow> \<not> t < csm_created c)"

definition cs_validate_genesis :: "json_ops \<Rightarrow> cs_genesis \<Rightarrow> bool" where
  "cs_validate_genesis J g \<longleftrightarrow> cs_params_validate (cg_params g) \<and>
     list_all (genesis_schema_ok J) (cg_schemas g) \<and> distinct (map csm_id (cg_schemas g))"

end
