(* ===== verification/Delegation_Chain.thy ===== *)
theory Delegation_Chain
imports Delegation_Genesis
begin

text \<open>
  The delegation state as the chain reaches it: grants pass the stateless validation of
  their message first, so that operators only ever hold delegable message types.
\<close>

inductive de_chain :: "coins_ops \<Rightarrow> de_state \<Rightarrow> bool" for CN :: coins_ops where
  chain_start: "de_chain CN de_empty"
| chain_grant: "de_chain CN s \<Longrightarrow> co_inv c \<Longrightarrow> validate_grant_oa E CN m = Inr () \<Longrightarrow>
    GrantOperatorAuthorization CN (resolve_id c) now s m = Inr s' \<Longrightarrow> de_chain CN s'"
| chain_revoke: "de_chain CN s \<Longrightarrow> co_inv c \<Longrightarrow>
    RevokeOperatorAuthorization (resolve_id c) now s r = Inr s' \<Longrightarrow> de_chain CN s'"
| chain_grant_vs: "de_chain CN s \<Longrightarrow> 0 < corp \<Longrightarrow>
    GrantVSOperatorAuthorization CN now s corp oper rec = Inr s' \<Longrightarrow> de_chain CN s'"
| chain_revoke_vs: "de_chain CN s \<Longrightarrow> RevokeVSOperatorAuthorization CN now s p = Inr s' \<Longrightarrow> de_chain CN s'"
| chain_update_vs: "de_chain CN s \<Longrightarrow> UpdateVSOperatorAuthorizationExpiration CN now s p e = Inr s' \<Longrightarrow>
    de_chain CN s'"
| chain_check_spend: "de_chain CN s \<Longrightarrow>
    CheckOperatorAuthorizationWithSpend CN (resolve_id c) s corporation operator mt now spend = Inr s' \<Longrightarrow>
    de_chain CN s'"
| chain_check_vs: "de_chain CN s \<Longrightarrow>
    CheckVSOperatorAuthorizationOnParticipant now s corp oper p mt = Inr s' \<Longrightarrow> de_chain CN s'"

lemma de_chain_reachable: "de_chain CN s \<Longrightarrow> de_reachable CN s"
  by (induction rule: de_chain.induct) (blast intro: de_reachable.intros de_step.intros)+

lemma de_chain_inv: "de_chain CN s \<Longrightarrow> de_inv s"
  by (rule de_reachable_invariant) (rule de_chain_reachable)

section \<open>Operators hold delegable message types only\<close>

definition oas_delegable :: "de_state \<Rightarrow> bool" where
  "oas_delegable s \<longleftrightarrow> (\<forall>i a. kget (des_oas s) i = Some a \<longrightarrow> list_all msg_delegable (oa_msg_types a))"

lemma oas_delegable_same: "des_oas s' = des_oas s \<Longrightarrow> oas_delegable s \<Longrightarrow> oas_delegable s'"
  by (simp add: oas_delegable_def)

lemma RevokeFeeAllowance_oas: "RevokeFeeAllowance s c g = Inr s' \<Longrightarrow> des_oas s' = des_oas s"
  by (auto simp: RevokeFeeAllowance_def split: if_splits)

lemma GrantFeeAllowance_oas: "GrantFeeAllowance CN s now c g mts e l p = Inr s' \<Longrightarrow> des_oas s' = des_oas s"
  by (auto simp: GrantFeeAllowance_def split: if_splits)

lemma recomputeFeeAllowance_oas: "recomputeFeeAllowance CN now s v = Inr s' \<Longrightarrow> des_oas s' = des_oas s"
  by (auto simp: recomputeFeeAllowance_def RevokeFeeAllowance_oas GrantFeeAllowance_oas split: prod.splits if_splits)

lemma vs_calls_oas:
  "GrantVSOperatorAuthorization CN now s corp oper rec = Inr s' \<Longrightarrow> des_oas s' = des_oas s"
  "RevokeVSOperatorAuthorization CN now s p = Inr s' \<Longrightarrow> des_oas s' = des_oas s"
  "UpdateVSOperatorAuthorizationExpiration CN now s p e = Inr s' \<Longrightarrow> des_oas s' = des_oas s"
  "CheckVSOperatorAuthorizationOnParticipant now s corp oper p mt = Inr s' \<Longrightarrow> des_oas s' = des_oas s"
  by (auto simp: GrantVSOperatorAuthorization_def RevokeVSOperatorAuthorization_def nextVSOAID_def Let_def
      UpdateVSOperatorAuthorizationExpiration_def CheckVSOperatorAuthorizationOnParticipant_def
      result_simps dest!: recomputeFeeAllowance_oas split: if_splits option.splits prod.splits)

lemma check_spend_oas:
  assumes "CheckOperatorAuthorizationWithSpend CN res s corporation operator mt now spend = Inr s'"
  shows "des_oas s' = des_oas s"
proof -
  obtain r where "checkOperatorAuthorizationCore res s corporation operator mt now = Inr r"
    using assms by (auto simp: CheckOperatorAuthorizationWithSpend_def bindE_ok_iff)
  with assms show ?thesis
    by (auto simp: CheckOperatorAuthorizationWithSpend_def Let_def split: if_splits option.splits)
qed

lemma grant_delegable:
  assumes "oas_delegable s" "validate_grant_oa E CN m = Inr ()" "GrantOperatorAuthorization CN res now s m = Inr s'"
  shows "oas_delegable s'"
proof -
  have m: "list_all msg_delegable (go_msg_types m)"
    using assms(2) by (auto simp: validate_grant_oa_def list_all_iff split: if_splits)
  obtain c found where f: "getOAByCorpOp s c (go_grantee m) = Inr found" "res (go_corporation m) = Some c"
    using assms(3) by (auto simp: GrantOperatorAuthorization_def bindE_ok_iff optE_ok_iff if_Inl_ok_iff)
  obtain i s1 where "des_oas s1 = des_oas s" "des_oas s' = des_oas (put_oper_auth s1 c m i)"
  proof (cases found)
    case None
    with f assms(3) have "des_oas s' = des_oas (put_oper_auth (snd (nextOAID s)) c m (fst (nextOAID s)))"
      by (auto simp: GrantOperatorAuthorization_def bindE_unit_ok_iff Let_def nextOAID_def
          dest!: RevokeFeeAllowance_oas GrantFeeAllowance_oas split: if_splits)
    then show ?thesis using that [of "snd (nextOAID s)"] by (simp add: nextOAID_def)
  next
    case (Some a)
    with f assms(3) have "des_oas s' = des_oas (put_oper_auth s c m (oa_id a))"
      by (auto simp: GrantOperatorAuthorization_def bindE_unit_ok_iff Let_def
          dest!: RevokeFeeAllowance_oas GrantFeeAllowance_oas split: if_splits)
    then show ?thesis using that [of s] by simp
  qed
  then show ?thesis using assms(1) m by (auto simp: oas_delegable_def put_oper_auth_def kget_kset)
qed

lemma revoke_delegable:
  assumes "oas_delegable s" "RevokeOperatorAuthorization res now s r = Inr s'"
  shows "oas_delegable s'"
proof -
  obtain a where "des_oas s' = kremove (des_oas s) a"
    using assms(2)
    by (auto simp: RevokeOperatorAuthorization_def bindE_ok_iff dest!: RevokeFeeAllowance_oas split: option.splits)
  then show ?thesis using assms(1) by (auto simp: oas_delegable_def kget_kremove)
qed

lemma de_chain_delegable: "de_chain CN s \<Longrightarrow> oas_delegable s"
proof (induction rule: de_chain.induct)
  case chain_start
  show ?case by (simp add: oas_delegable_def de_empty_def)
qed (blast intro: grant_delegable revoke_delegable oas_delegable_same vs_calls_oas check_spend_oas)+

text \<open>An operator acting on its own account needs a delegable message type.\<close>

lemma chain_check_delegable:
  assumes "de_chain CN s" "operator \<noteq> []"
    and "CheckOperatorAuthorization res s corporation operator mt now = Inr ()"
  shows "msg_delegable mt"
proof -
  obtain c a where a: "getOAByCorpOp s c operator = Inr (Some a)" "mt \<in> set (oa_msg_types a)"
    using assms(2,3)
    by (auto simp: CheckOperatorAuthorization_def checkOperatorAuthorizationCore_def result_simps
        split: option.splits if_splits)
  then obtain i where "kget (des_oas s) i = Some a"
    by (auto simp: getOAByCorpOp_def split: option.splits)
  then show ?thesis using de_chain_delegable [OF assms(1)] a(2) by (auto simp: oas_delegable_def list_all_iff)
qed

end
