(* ===== verification/Credential_Schema_Props.thy ===== *)
theory Credential_Schema_Props
imports Credential_Schema Delegation_Chain Ecosystem_Props
begin

text \<open>
  What x/cs promises, on the states the registries and the schema messages reach together:
  every schema belongs to an ecosystem and changes only by a message of the corporation that
  owns it, the authorization policies cannot be used by anyone, and genesis keeps the
  schemas.
\<close>

section \<open>The messages as one step function\<close>

datatype cs_op =
    Cs_Create msg_create_cs
  | Cs_Update msg_update_cs
  | Cs_Archive msg_archive_cs
  | Cs_Create_Policy msg_create_sap
  | Cs_Increase_Policy msg_increase_sap
  | Cs_Revoke_Policy msg_revoke_sap
  | Cs_Update_Params string cs_params

definition cs_exec :: "string \<Rightarrow> cs_env \<Rightarrow> cs_state \<Rightarrow> cs_op \<Rightarrow> cs_error + cs_state" where
  "cs_exec gov X s op = (case op of
     Cs_Create m \<Rightarrow> bindE (validate_create_cs X m) (\<lambda>_. bindE (CreateCredentialSchema X s m) (\<lambda>(i, s'). Inr s'))
   | Cs_Update m \<Rightarrow> bindE (validate_update_cs X m) (\<lambda>_. UpdateCredentialSchema X s m)
   | Cs_Archive m \<Rightarrow> bindE (validate_archive_cs X m) (\<lambda>_. ArchiveCredentialSchema X s m)
   | Cs_Create_Policy m \<Rightarrow> bindE (CreateSchemaAuthorizationPolicy X s m) (\<lambda>(i, s'). Inr s')
   | Cs_Increase_Policy m \<Rightarrow> IncreaseActiveSchemaAuthorizationPolicyVersion X s m
   | Cs_Revoke_Policy m \<Rightarrow> RevokeSchemaAuthorizationPolicy X s m
   | Cs_Update_Params signer p \<Rightarrow>
       bindE (cs_validate_update_params (ke_sdk X) signer p) (\<lambda>_. cs_UpdateParams gov s signer p))"

text \<open>Registry and schema messages in any order, block times never going back, delegations
  as the chain reaches them.\<close>

definition linked_env :: "cs_env \<Rightarrow> registry \<Rightarrow> bool" where
  "linked_env X r \<longleftrightarrow> ke_co X = rg_co r \<and> ke_ec X = rg_ec r"

inductive sch_reach :: "coins_ops \<Rightarrow> time \<Rightarrow> registry \<Rightarrow> 'g \<Rightarrow> cs_state \<Rightarrow> bool" for CN :: coins_ops where
  sch_init: "zero_time < t \<Longrightarrow> sch_reach CN t rg_empty grp cs_empty"
| sch_registry: "sch_reach CN t r grp s \<Longrightarrow> t \<le> se_block_time (re_sdk X) \<Longrightarrow> group_addr_ok X \<Longrightarrow>
    rg_step X (r, grp) op (r', grp') \<Longrightarrow> sch_reach CN (se_block_time (re_sdk X)) r' grp' s"
| sch_schema: "sch_reach CN t r grp s \<Longrightarrow> t \<le> cs_now Y \<Longrightarrow> linked_env Y r \<Longrightarrow> de_chain CN (ke_de Y) \<Longrightarrow>
    cs_exec gov Y s cop = Inr s' \<Longrightarrow> sch_reach CN (cs_now Y) r grp s'"

text \<open>Waiting is a registry step of no interest: the schema part never depends on it.\<close>

lemma sch_reach_registry: "sch_reach CN t r grp s \<Longrightarrow> \<exists>u\<le>t. rg_reach u r grp"
proof (induction rule: sch_reach.induct)
  case (sch_registry t r grp s X op r' grp')
  then show ?case using rg_next [of _ r grp X op r' grp'] by (meson order_refl order_trans)
next
  case (sch_schema t r grp s Y gov cop s')
  then show ?case using order_trans by blast
qed (blast intro: rg_init)

section \<open>What a successful message does\<close>

lemma cs_authorize_ok_iff: "cs_authorize X corp operator mt = Inr () \<longleftrightarrow>
    CheckOperatorAuthorization (resolve_id (ke_co X)) (ke_de X) corp operator mt (cs_now X) = Inr ()"
  by (simp add: cs_authorize_def liftE_ok_iff)

definition controls :: "cs_env \<Rightarrow> nat \<Rightarrow> string \<Rightarrow> bool" where
  "controls X e corp \<longleftrightarrow> (\<exists>x. kget (ecs_ecosystems (ke_ec X)) e = Some x \<and>
     kget (cos_by_policy (ke_co X)) corp = Some (ec_corporation_id x))"

lemma checkCreateSchemaOwnership_ok_iff: "checkCreateSchemaOwnership X e corp = Inr () \<longleftrightarrow> controls X e corp"
  by (auto simp: checkCreateSchemaOwnership_def controls_def ec_GetEcosystem_def cs_ResolveByPolicyAddress_def
      result_simps)

lemma checkSchemaOwnership_ok_iff: "checkSchemaOwnership X c corp = Inr () \<longleftrightarrow> controls X (csm_ecosystem_id c) corp"
  by (auto simp: checkSchemaOwnership_def controls_def ec_GetEcosystem_def cs_ResolveByPolicyAddress_def
      result_simps)

definition cs_last_id :: "cs_state \<Rightarrow> nat" where
  "cs_last_id s = (case kget (css_counter s) ''cs'' of None \<Rightarrow> 0 | Some n \<Rightarrow> n)"

lemma cs_GetNextID_eq: "cs_GetNextID s ''cs'' =
    (Suc (cs_last_id s), s\<lparr>css_counter := kset (css_counter s) ''cs'' (Suc (cs_last_id s))\<rparr>)"
  by (simp add: cs_GetNextID_def cs_last_id_def Let_def)

definition add_schema :: "cs_state \<Rightarrow> cred_schema \<Rightarrow> cs_state" where
  "add_schema s c = s\<lparr>css_counter := kset (css_counter s) ''cs'' (Suc (cs_last_id s)),
     css_schemas := kset (css_schemas s) (Suc (cs_last_id s)) c\<rparr>"

lemma CreateCredentialSchema_ok_iff:
  "CreateCredentialSchema X s m = Inr (i, s') \<longleftrightarrow>
     CheckOperatorAuthorization (resolve_id (ke_co X)) (ke_de X) (mc_corporation m) (mc_operator m)
       ''/verana.cs.v1.MsgCreateCredentialSchema'' (cs_now X) = Inr () \<and>
     controls X (mc_ecosystem_id m) (mc_corporation m) \<and>
     length (mc_json m) \<le> cp_max_size (css_params s) \<and>
     validateValidityPeriodsWithParams m (css_params s) = Inr () \<and>
     i = Suc (cs_last_id s) \<and>
     (\<exists>p c. InjectCanonicalID (ke_json X) (mc_json m) (ke_chain_id X) i = Inr p \<and>
        CanonicalizeJCS (ke_json X) p = Inr c \<and> s' = add_schema s (new_schema i m c (cs_now X)))"
  by (auto simp: CreateCredentialSchema_def cs_GetNextID_eq bindE_unit_ok_iff cs_authorize_ok_iff
      validateCreateCredentialSchemaParams_def checkCreateSchemaOwnership_ok_iff executeCreateCredentialSchema_def
      bindE_ok_iff liftE_ok_iff add_schema_def if_Inl_ok_iff split: if_splits)

definition updated_schema :: "cred_schema \<Rightarrow> msg_update_cs \<Rightarrow> time \<Rightarrow> cred_schema" where
  "updated_schema c m now = c\<lparr>csm_ig_period := overwrite (us_ig_period m) (csm_ig_period c),
     csm_vg_period := overwrite (us_vg_period m) (csm_vg_period c),
     csm_i_period := overwrite (us_i_period m) (csm_i_period c),
     csm_v_period := overwrite (us_v_period m) (csm_v_period c),
     csm_h_period := overwrite (us_h_period m) (csm_h_period c), csm_modified := now\<rparr>"

lemma UpdateCredentialSchema_ok_iff:
  "UpdateCredentialSchema X s m = Inr s' \<longleftrightarrow>
     CheckOperatorAuthorization (resolve_id (ke_co X)) (ke_de X) (us_corporation m) (us_operator m)
       ''/verana.cs.v1.MsgUpdateCredentialSchema'' (cs_now X) = Inr () \<and>
     (\<exists>c. kget (css_schemas s) (us_id m) = Some c \<and> csm_archived c = None \<and>
        controls X (csm_ecosystem_id c) (us_corporation m) \<and> ValidateValidityPeriods (css_params s) m = Inr () \<and>
        s' = s\<lparr>css_schemas := kset (css_schemas s) (csm_id c) (updated_schema c m (cs_now X))\<rparr>)"
  by (auto simp: UpdateCredentialSchema_def bindE_unit_ok_iff cs_authorize_ok_iff bindE_ok_iff optE_ok_iff
      if_Inl_ok_iff checkSchemaOwnership_ok_iff updated_schema_def)

definition archived_schema :: "cred_schema \<Rightarrow> bool \<Rightarrow> time \<Rightarrow> cred_schema" where
  "archived_schema c a now = c\<lparr>csm_archived := (if a then Some now else None), csm_modified := now\<rparr>"

lemma ArchiveCredentialSchema_ok_iff:
  "ArchiveCredentialSchema X s m = Inr s' \<longleftrightarrow>
     CheckOperatorAuthorization (resolve_id (ke_co X)) (ke_de X) (ac_corporation m) (ac_operator m)
       ''/verana.cs.v1.MsgArchiveCredentialSchema'' (cs_now X) = Inr () \<and>
     (\<exists>c. kget (css_schemas s) (ac_id m) = Some c \<and> controls X (csm_ecosystem_id c) (ac_corporation m) \<and>
        (csm_archived c = None) = ac_archive m \<and>
        s' = s\<lparr>css_schemas := kset (css_schemas s) (csm_id c) (archived_schema c (ac_archive m) (cs_now X))\<rparr>)"
  by (auto simp: ArchiveCredentialSchema_def bindE_unit_ok_iff cs_authorize_ok_iff bindE_ok_iff optE_ok_iff
      checkSchemaOwnership_ok_iff archived_schema_def split: if_splits)

section \<open>Policies are out of reach\<close>

lemma policy_types_not_delegable:
  "\<not> msg_delegable ''/verana.cs.v1.MsgCreateSchemaAuthorizationPolicy''"
  "\<not> msg_delegable ''/verana.cs.v1.MsgIncreaseActiveSchemaAuthorizationPolicyVersion''"
  "\<not> msg_delegable ''/verana.cs.v1.MsgRevokeSchemaAuthorizationPolicy''"
  by (simp_all add: msg_delegable_def VPRDelegableMsgTypes_def)

lemma policy_unauthorized:
  assumes "de_chain CN (ke_de X)" "operator \<noteq> []" "\<not> msg_delegable mt"
  shows "cs_authorize X corp operator mt \<noteq> Inr ()"
  using chain_check_delegable [OF assms(1,2)] assms(3) by (auto simp: cs_authorize_ok_iff)

lemma create_policy_refused: "de_chain CN (ke_de X) \<Longrightarrow> CreateSchemaAuthorizationPolicy X s m \<noteq> Inr r"
  using policy_unauthorized [of CN X "sc_operator m", OF _ _ policy_types_not_delegable(1)]
  by (auto simp: CreateSchemaAuthorizationPolicy_def validate_create_sap_def bindE_unit_ok_iff)

lemma increase_policy_refused: "de_chain CN (ke_de X) \<Longrightarrow> IncreaseActiveSchemaAuthorizationPolicyVersion X s m \<noteq> Inr r"
  using policy_unauthorized [of CN X "ip_operator m", OF _ _ policy_types_not_delegable(2)]
  by (auto simp: IncreaseActiveSchemaAuthorizationPolicyVersion_def validate_increase_sap_def bindE_unit_ok_iff)

lemma revoke_policy_refused: "de_chain CN (ke_de X) \<Longrightarrow> RevokeSchemaAuthorizationPolicy X s m \<noteq> Inr r"
  using policy_unauthorized [of CN X "vp_operator m", OF _ _ policy_types_not_delegable(3)]
  by (auto simp: RevokeSchemaAuthorizationPolicy_def validate_revoke_sap_def bindE_unit_ok_iff)

section \<open>The invariant\<close>

definition schema_ok :: "time \<Rightarrow> cred_schema \<Rightarrow> bool" where
  "schema_ok t c \<longleftrightarrow> 0 < csm_ecosystem_id c \<and>
     1 \<le> csm_issuer_mode c \<and> csm_issuer_mode c \<le> 3 \<and> 1 \<le> csm_verifier_mode c \<and> csm_verifier_mode c \<le> 3 \<and>
     1 \<le> csm_holder_mode c \<and> csm_holder_mode c \<le> 2 \<and>
     1 \<le> csm_pricing_type c \<and> csm_pricing_type c \<le> 3 \<and> csm_pricing_asset c \<noteq> [] \<and>
     csm_digest_algorithm c \<in> set ValidDigestAlgorithms \<and>
     zero_time < csm_created c \<and> csm_created c \<le> csm_modified c \<and> csm_modified c \<le> t \<and>
     (\<forall>a. csm_archived c = Some a \<longrightarrow> csm_created c \<le> a)"

definition sch_inv :: "time \<Rightarrow> registry \<Rightarrow> cs_state \<Rightarrow> bool" where
  "sch_inv t r s \<longleftrightarrow> zero_time < t \<and> css_policies s = kempty \<and> cs_params_validate (css_params s) \<and>
     (\<forall>i c. kget (css_schemas s) i = Some c \<longrightarrow> csm_id c = i \<and> 0 < i \<and> i \<le> cs_last_id s \<and> schema_ok t c \<and>
        kget (ecs_ecosystems (rg_ec r)) (csm_ecosystem_id c) \<noteq> None) \<and>
     (\<forall>i. 0 < i \<longrightarrow> i \<le> cs_last_id s \<longrightarrow> kget (css_schemas s) i \<noteq> None)"

lemma sch_inv_schema: "sch_inv t r s \<Longrightarrow> kget (css_schemas s) i = Some c \<Longrightarrow>
    csm_id c = i \<and> 0 < i \<and> i \<le> cs_last_id s \<and> schema_ok t c \<and>
    kget (ecs_ecosystems (rg_ec r)) (csm_ecosystem_id c) \<noteq> None"
  unfolding sch_inv_def by blast

lemma sch_inv_dense: "sch_inv t r s \<Longrightarrow> 0 < i \<Longrightarrow> i \<le> cs_last_id s \<Longrightarrow> kget (css_schemas s) i \<noteq> None"
  unfolding sch_inv_def by blast

lemma schema_ok_mono: "schema_ok t c \<Longrightarrow> t \<le> u \<Longrightarrow> schema_ok u c"
  unfolding schema_ok_def by (meson order_trans)

lemma sch_inv_mono: "sch_inv t r s \<Longrightarrow> t \<le> u \<Longrightarrow> sch_inv u r s"
  unfolding sch_inv_def using schema_ok_mono by (meson order_less_le_trans)

text \<open>Ecosystems are never deleted.\<close>

lemma ecosystem_stays:
  assumes "rg_reach t r grp" "rg_step X (r, grp) op (r', grp')" "kget (ecs_ecosystems (rg_ec r)) i \<noteq> None"
  shows "kget (ecs_ecosystems (rg_ec r')) i \<noteq> None"
proof -
  obtain e where "kget (ecs_ecosystems (rg_ec r)) i = Some e" using assms(3) by blast
  then show ?thesis using step_changed_by [OF assms(1,2)] ec_inv_id [OF reach_inv(2) [OF assms(1)]]
    by (cases "kget (ecs_ecosystems (rg_ec r')) i = Some e") (fastforce simp: changed_by_def)+
qed

lemma new_schema_ok:
  assumes "validate_create_cs X m = Inr ()" "zero_time < cs_now X"
  shows "schema_ok (cs_now X) (new_schema i m c (cs_now X))"
proof -
  have modes: "1 \<le> mc_issuer_mode m \<and> mc_issuer_mode m \<le> 3" "1 \<le> mc_verifier_mode m \<and> mc_verifier_mode m \<le> 3"
      "1 \<le> mc_holder_mode m \<and> mc_holder_mode m \<le> 2" "1 \<le> mc_pricing_type m \<and> mc_pricing_type m \<le> 3"
    using assms(1) by (simp_all add: validate_create_cs_def validatePermManagementModes_def validatePricingAsset_def
        bindE_unit_ok_iff Let_def split: if_splits)
  have i32: "i32 (int n) = int n" if "n \<le> 3" for n using that by (simp add: i32_def)
  have "mc_ecosystem_id m \<noteq> 0" "mc_pricing_asset m \<noteq> []" "mc_digest_algorithm m \<in> set ValidDigestAlgorithms"
    using assms(1) by (simp_all add: validate_create_cs_def validatePricingAsset_def validateDigestAlgorithm_def
        bindE_unit_ok_iff Let_def split: if_splits)
  then show ?thesis using modes assms(2) by (simp add: schema_ok_def new_schema_def i32)
qed

lemma put_schema_inv:
  assumes inv: "sch_inv t r s" and c: "kget (css_schemas s) i = Some c" and t: "t \<le> u"
    and c': "csm_id c' = csm_id c" "csm_ecosystem_id c' = csm_ecosystem_id c" "schema_ok u c'"
  shows "sch_inv u r (s\<lparr>css_schemas := kset (css_schemas s) (csm_id c) c'\<rparr>)"
proof -
  have i: "csm_id c = i" using sch_inv_schema [OF inv c] by simp
  have u: "sch_inv u r s" by (rule sch_inv_mono [OF inv t])
  show ?thesis using u sch_inv_schema [OF u c] c' unfolding sch_inv_def cs_last_id_def i
    by (auto simp: kget_kset)
qed

lemma cs_exec_inv:
  assumes inv: "sch_inv t r s" and t: "t \<le> cs_now X" and env: "linked_env X r" "de_chain CN (ke_de X)"
    and ok: "cs_exec gov X s op = Inr s'"
  shows "sch_inv (cs_now X) r s'"
proof (cases op)
  case (Cs_Create m)
  then obtain c where v: "validate_create_cs X m = Inr ()" and own: "controls X (mc_ecosystem_id m) (mc_corporation m)"
    and s': "s' = add_schema s (new_schema (Suc (cs_last_id s)) m c (cs_now X))"
    using ok by (auto simp: cs_exec_def bindE_unit_ok_iff bindE_ok_iff CreateCredentialSchema_ok_iff)
  have u: "sch_inv (cs_now X) r s" by (rule sch_inv_mono [OF inv t])
  have "schema_ok (cs_now X) (new_schema (Suc (cs_last_id s)) m c (cs_now X))"
    using new_schema_ok [OF v] u by (simp add: sch_inv_def)
  moreover have "kget (ecs_ecosystems (rg_ec r)) (mc_ecosystem_id m) \<noteq> None"
    using own env(1) by (auto simp: controls_def linked_env_def)
  moreover have "cs_last_id s' = Suc (cs_last_id s)" by (simp add: s' add_schema_def cs_last_id_def)
  ultimately show ?thesis using u unfolding sch_inv_def
    by (auto simp: s' add_schema_def kget_kset new_schema_def le_Suc_eq)
next
  case (Cs_Update m)
  then obtain c where c: "kget (css_schemas s) (us_id m) = Some c" "csm_archived c = None"
    and s': "s' = s\<lparr>css_schemas := kset (css_schemas s) (csm_id c) (updated_schema c m (cs_now X))\<rparr>"
    using ok by (auto simp: cs_exec_def bindE_unit_ok_iff UpdateCredentialSchema_ok_iff)
  have "schema_ok (cs_now X) (updated_schema c m (cs_now X))"
    using sch_inv_schema [OF inv c(1)] t c(2) by (auto simp: schema_ok_def updated_schema_def)
  with put_schema_inv [OF inv c(1) t] show ?thesis by (simp add: s' updated_schema_def)
next
  case (Cs_Archive m)
  then obtain c where c: "kget (css_schemas s) (ac_id m) = Some c"
    and s': "s' = s\<lparr>css_schemas := kset (css_schemas s) (csm_id c) (archived_schema c (ac_archive m) (cs_now X))\<rparr>"
    using ok by (auto simp: cs_exec_def bindE_unit_ok_iff ArchiveCredentialSchema_ok_iff)
  have "schema_ok (cs_now X) (archived_schema c (ac_archive m) (cs_now X))"
    using sch_inv_schema [OF inv c(1)] t by (auto simp: schema_ok_def archived_schema_def)
  with put_schema_inv [OF inv c(1) t] show ?thesis by (simp add: s' archived_schema_def)
next
  case (Cs_Update_Params signer p)
  then have "s' = s\<lparr>css_params := p\<rparr>" "cs_params_validate p"
    using ok by (auto simp: cs_exec_def cs_UpdateParams_def cs_validate_update_params_def split: if_splits)
  then show ?thesis using sch_inv_mono [OF inv t] by (simp add: sch_inv_def cs_last_id_def)
qed (use ok env(2) create_policy_refused increase_policy_refused revoke_policy_refused in
    \<open>auto simp: cs_exec_def bindE_ok_iff\<close>)

lemma sch_reach_inv: "sch_reach CN t r grp s \<Longrightarrow> sch_inv t r s"
proof (induction rule: sch_reach.induct)
  case (sch_init t grp)
  then show ?case by (simp add: sch_inv_def cs_empty_def cs_last_id_def cs_params_validate_def cs_DefaultParams_def)
next
  case (sch_registry t r grp s X op r' grp')
  obtain u where "rg_reach u r grp" using sch_reach_registry [OF sch_registry.hyps(1)] by blast
  then show ?case using sch_inv_mono [OF sch_registry.IH sch_registry.hyps(2)] ecosystem_stays sch_registry.hyps(4)
    unfolding sch_inv_def by metis
next
  case (sch_schema t r grp s Y gov cop s')
  then show ?case using cs_exec_inv by blast
qed
section \<open>Ownership\<close>

text \<open>The account, operator and message type a schema message is signed with.\<close>

definition cs_signer :: "cs_op \<Rightarrow> (string \<times> string \<times> string) option" where
  "cs_signer op = (case op of
     Cs_Update m \<Rightarrow> Some (us_corporation m, us_operator m, ''/verana.cs.v1.MsgUpdateCredentialSchema'')
   | Cs_Archive m \<Rightarrow> Some (ac_corporation m, ac_operator m, ''/verana.cs.v1.MsgArchiveCredentialSchema'')
   | _ \<Rightarrow> None)"

text \<open>What an owner cannot change.\<close>

definition same_terms :: "cred_schema \<Rightarrow> cred_schema \<Rightarrow> bool" where
  "same_terms c c' \<longleftrightarrow> csm_id c' = csm_id c \<and> csm_ecosystem_id c' = csm_ecosystem_id c \<and>
     csm_created c' = csm_created c \<and> csm_json c' = csm_json c \<and> csm_issuer_mode c' = csm_issuer_mode c \<and>
     csm_verifier_mode c' = csm_verifier_mode c \<and> csm_holder_mode c' = csm_holder_mode c \<and>
     csm_pricing_type c' = csm_pricing_type c \<and> csm_pricing_asset c' = csm_pricing_asset c \<and>
     csm_digest_algorithm c' = csm_digest_algorithm c"

lemma same_terms_edit: "same_terms c (updated_schema c m now)" "same_terms c (archived_schema c a now)"
  by (simp_all add: same_terms_def updated_schema_def archived_schema_def)

lemma controls_owner:
  assumes "co_inv (ke_co X)" "controls X e corp"
  obtains x where "kget (ecs_ecosystems (ke_ec X)) e = Some x" "resolve_id (ke_co X) corp = Some (ec_corporation_id x)"
proof -
  from assms(2) obtain x where x: "kget (ecs_ecosystems (ke_ec X)) e = Some x"
      "kget (cos_by_policy (ke_co X)) corp = Some (ec_corporation_id x)" unfolding controls_def by blast
  then obtain v where "kget (cos_corporations (ke_co X)) (ec_corporation_id x) = Some v" "co_policy_address v = corp"
    using co_inv_policy [OF assms(1)] unfolding co_pol.index_ok_def by blast
  moreover from this have "co_id v = ec_corporation_id x" using co_inv_id [OF assms(1)] by blast
  ultimately show ?thesis using x resolve_iff [OF assms(1), of corp v] that by (auto simp: resolve_id_def)
qed

lemma edited_schema:
  assumes "sch_inv t r s" "kget (css_schemas s) j = Some c" "kget (css_schemas s) i = Some d"
    and "kget (kset (css_schemas s) (csm_id c) c') i \<noteq> Some d"
  shows "c = d \<and> kget (kset (css_schemas s) (csm_id c) c') i = Some c'"
  using assms sch_inv_schema [OF assms(1)] by (auto simp: kget_kset split: if_splits)

lemma schema_step:
  assumes inv: "sch_inv t r s" and co: "co_inv (ke_co X)" and env: "linked_env X r" "de_chain CN (ke_de X)"
    and ok: "cs_exec gov X s op = Inr s'"
    and c: "kget (css_schemas s) i = Some c" and new: "kget (css_schemas s') i \<noteq> Some c"
  shows "\<exists>corp operator mt x c'. cs_signer op = Some (corp, operator, mt) \<and>
      kget (ecs_ecosystems (rg_ec r)) (csm_ecosystem_id c) = Some x \<and>
      resolve_id (rg_co r) corp = Some (ec_corporation_id x) \<and>
      CheckOperatorAuthorization (resolve_id (rg_co r)) (ke_de X) corp operator mt (cs_now X) = Inr () \<and>
      kget (css_schemas s') i = Some c' \<and> same_terms c c'"
proof -
  note chain = env(2)
  note env = env(1) [unfolded linked_env_def]
  show ?thesis
  proof (cases op)
    case (Cs_Create m)
    then have "kget (css_schemas s') i = Some c"
      using ok c sch_inv_schema [OF inv c]
      by (auto simp: cs_exec_def bindE_unit_ok_iff bindE_ok_iff CreateCredentialSchema_ok_iff add_schema_def kget_kset)
    with new show ?thesis by simp
  next
    case (Cs_Update m)
    then obtain d where auth: "CheckOperatorAuthorization (resolve_id (rg_co r)) (ke_de X) (us_corporation m)
          (us_operator m) ''/verana.cs.v1.MsgUpdateCredentialSchema'' (cs_now X) = Inr ()"
      and d: "kget (css_schemas s) (us_id m) = Some d" "controls X (csm_ecosystem_id d) (us_corporation m)"
      and s': "css_schemas s' = kset (css_schemas s) (csm_id d) (updated_schema d m (cs_now X))"
      using ok env by (auto simp: cs_exec_def bindE_unit_ok_iff UpdateCredentialSchema_ok_iff)
    from edited_schema [OF inv d(1) c] new s'
    have "c = d" "kget (css_schemas s') i = Some (updated_schema c m (cs_now X))" by auto
    moreover obtain x where "kget (ecs_ecosystems (ke_ec X)) (csm_ecosystem_id d) = Some x"
        "resolve_id (ke_co X) (us_corporation m) = Some (ec_corporation_id x)"
      by (rule controls_owner [OF co d(2)])
    ultimately show ?thesis using env auth same_terms_edit(1) by (auto simp: Cs_Update cs_signer_def)
  next
    case (Cs_Archive m)
    then obtain d where auth: "CheckOperatorAuthorization (resolve_id (rg_co r)) (ke_de X) (ac_corporation m)
          (ac_operator m) ''/verana.cs.v1.MsgArchiveCredentialSchema'' (cs_now X) = Inr ()"
      and d: "kget (css_schemas s) (ac_id m) = Some d" "controls X (csm_ecosystem_id d) (ac_corporation m)"
      and s': "css_schemas s' = kset (css_schemas s) (csm_id d) (archived_schema d (ac_archive m) (cs_now X))"
      using ok env by (auto simp: cs_exec_def bindE_unit_ok_iff ArchiveCredentialSchema_ok_iff)
    from edited_schema [OF inv d(1) c] new s'
    have "c = d" "kget (css_schemas s') i = Some (archived_schema c (ac_archive m) (cs_now X))" by auto
    moreover obtain x where "kget (ecs_ecosystems (ke_ec X)) (csm_ecosystem_id d) = Some x"
        "resolve_id (ke_co X) (ac_corporation m) = Some (ec_corporation_id x)"
      by (rule controls_owner [OF co d(2)])
    ultimately show ?thesis using env auth same_terms_edit(2) by (auto simp: Cs_Archive cs_signer_def)
  next
    case (Cs_Update_Params signer p)
    then have "kget (css_schemas s') i = Some c" using ok c
      by (auto simp: cs_exec_def cs_UpdateParams_def bindE_unit_ok_iff split: if_splits)
    with new show ?thesis by simp
  qed (use ok chain create_policy_refused increase_policy_refused revoke_policy_refused in
      \<open>auto simp: cs_exec_def bindE_ok_iff\<close>)
qed

lemma schema_keeps_terms:
  assumes "sch_inv t r s" "co_inv (ke_co X)" "linked_env X r" "de_chain CN (ke_de X)" "cs_exec gov X s op = Inr s'"
    and "kget (css_schemas s) i = Some c"
  shows "\<exists>c'. kget (css_schemas s') i = Some c' \<and> same_terms c c'"
proof (cases "kget (css_schemas s') i = Some c")
  case False
  then show ?thesis using schema_step [OF assms] by blast
qed (simp add: same_terms_def)

text \<open>C18 schema_changed_by_owner: a schema changes only by an update or archive message signed
  for the corporation that owns its ecosystem by an operator authorized for that message;
  its id, ecosystem, creation time, JSON text, onboarding modes, pricing and digest
  algorithm never change, and it is never removed.\<close>

theorem schema_changed_by_owner:
  assumes reach: "sch_reach CN t r grp s" and env: "linked_env X r" "de_chain CN (ke_de X)" "t \<le> cs_now X"
    and ok: "cs_exec gov X s op = Inr s'"
    and c: "kget (css_schemas s) i = Some c" and new: "kget (css_schemas s') i \<noteq> Some c"
  shows "\<exists>corp operator mt x c'. cs_signer op = Some (corp, operator, mt) \<and>
      kget (ecs_ecosystems (rg_ec r)) (csm_ecosystem_id c) = Some x \<and>
      resolve_id (rg_co r) corp = Some (ec_corporation_id x) \<and>
      CheckOperatorAuthorization (resolve_id (rg_co r)) (ke_de X) corp operator mt (cs_now X) = Inr () \<and>
      kget (css_schemas s') i = Some c' \<and> same_terms c c'"
proof -
  obtain u where "rg_reach u r grp" using sch_reach_registry [OF reach] by blast
  then have "co_inv (ke_co X)" using reach_inv(1) env(1) by (auto simp: linked_env_def)
  then show ?thesis by (rule schema_step [OF sch_reach_inv [OF reach] _ env(1,2) ok c new])
qed

section \<open>Policies\<close>

text \<open>C36 policies_out_of_reach: the three message types of schema authorization policies are
  not delegable, and their validation demands an operator: whatever delegations the chain
  has granted, nobody can create, activate or revoke a policy, and no reachable state holds
  one.\<close>

theorem policies_out_of_reach:
  assumes "de_chain CN (ke_de X)"
  shows "(\<forall>s m res. CreateSchemaAuthorizationPolicy X s m \<noteq> Inr res) \<and>
    (\<forall>s m res. IncreaseActiveSchemaAuthorizationPolicyVersion X s m \<noteq> Inr res) \<and>
    (\<forall>s m res. RevokeSchemaAuthorizationPolicy X s m \<noteq> Inr res) \<and>
    {s. \<exists>t r. sch_reach CN t r grp s} \<subseteq> {s. css_policies s = kempty}"
proof (intro conjI allI subsetI)
  fix s assume "s \<in> {s. \<exists>t r. sch_reach CN t r grp s}"
  then obtain t r where "sch_reach CN t r grp s" by blast
  from sch_reach_inv [OF this] show "s \<in> {s. css_policies s = kempty}" by (simp add: sch_inv_def)
qed (rule create_policy_refused [OF assms] increase_policy_refused [OF assms] revoke_policy_refused [OF assms])+

section \<open>Genesis\<close>

lemma last_id_maximum:
  assumes "sch_inv t r s"
  shows "maximum_id csm_id (walk (css_schemas s)) = cs_last_id s"
proof (rule antisym)
  show "maximum_id csm_id (walk (css_schemas s)) \<le> cs_last_id s"
    using maximum_id_in [of csm_id "walk (css_schemas s)"] sch_inv_schema [OF assms] by (auto simp: walk_mem_iff)
  show "cs_last_id s \<le> maximum_id csm_id (walk (css_schemas s))"
  proof (cases "cs_last_id s")
    case (Suc n)
    then obtain c where c: "kget (css_schemas s) (cs_last_id s) = Some c"
      using sch_inv_dense [OF assms, of "cs_last_id s"] by auto
    then have "csm_id c = cs_last_id s" using sch_inv_schema [OF assms] by blast
    then show ?thesis using c maximum_id_ge [of c "walk (css_schemas s)" csm_id] walk_mem_iff by metis
  qed simp
qed

text \<open>C39 cs_genesis_round_trip: importing the export of a reachable state restores parameters,
  schemas and the next id, but leaves no schema authorization policy; the export passes the validation of genesis files exactly when
  every stored text still validates and no period exceeds the default maximum of 3650 days,
  although the parameters may allow longer ones.\<close>

theorem cs_genesis_round_trip:
  assumes reach: "sch_reach CN t r grp s"
  defines "s' \<equiv> cs_InitGenesis (cs_ExportGenesis s) cs_empty"
  shows "css_params s' = css_params s \<and> css_schemas s' = css_schemas s \<and> css_policies s' = kempty \<and>
    fst (cs_GetNextID s' ''cs'') = fst (cs_GetNextID s ''cs'') \<and>
    (cs_validate_genesis J (cs_ExportGenesis s) \<longleftrightarrow>
       list_all (\<lambda>c. validateJSONSchema J (csm_json c) \<and> csm_ig_period c \<le> 3650 \<and> csm_vg_period c \<le> 3650 \<and>
          csm_i_period c \<le> 3650 \<and> csm_v_period c \<le> 3650 \<and> csm_h_period c \<le> 3650) (walk (css_schemas s)))"
proof -
  have inv: "sch_inv t r s" by (rule sch_reach_inv [OF reach])
  have own: "kget (css_schemas s) k = Some c \<Longrightarrow> csm_id c = k" for k c using sch_inv_schema [OF inv] by blast
  note sorted = sort_key_walk [of "css_schemas s" csm_id, OF own]
  have id: "sort_key csm_id (sort_key csm_id xs) = sort_key csm_id xs" for xs
    by (rule sort_key_id_if_sorted) simp
  have s': "s' = cs_empty\<lparr>css_params := css_params s, css_schemas := css_schemas s,
      css_counter := kset kempty ''cs'' (cs_last_id s)\<rparr>"
    using kset_all_walk [of "css_schemas s" csm_id, OF own] last_id_maximum [OF inv]
    by (simp add: s'_def cs_InitGenesis_def cs_ExportGenesis_def sorted Let_def cs_empty_def)
  have ok: "genesis_schema_ok J c \<longleftrightarrow> validateJSONSchema J (csm_json c) \<and> csm_ig_period c \<le> 3650 \<and>
      csm_vg_period c \<le> 3650 \<and> csm_i_period c \<le> 3650 \<and> csm_v_period c \<le> 3650 \<and> csm_h_period c \<le> 3650"
    if "c \<in> set (walk (css_schemas s))" for c
  proof -
    from that have "schema_ok t c" "0 < csm_id c" using sch_inv_schema [OF inv] by (auto simp: walk_mem_iff)
    then show ?thesis
      by (auto simp: schema_ok_def genesis_schema_ok_def validateJSONSchema_def split: option.splits)
  qed
  have dist: "distinct (map csm_id (walk (css_schemas s)))"
    using walk_keyed [of "css_schemas s" csm_id, OF own] by simp
  have "cs_params_validate (css_params s)" using inv by (simp add: sch_inv_def)
  then have "cs_validate_genesis J (cs_ExportGenesis s) \<longleftrightarrow> list_all (genesis_schema_ok J) (walk (css_schemas s))"
    using dist by (simp add: cs_validate_genesis_def cs_ExportGenesis_def sorted Let_def)
  also have "\<dots> \<longleftrightarrow> list_all (\<lambda>c. validateJSONSchema J (csm_json c) \<and> csm_ig_period c \<le> 3650 \<and> csm_vg_period c \<le> 3650 \<and>
          csm_i_period c \<le> 3650 \<and> csm_v_period c \<le> 3650 \<and> csm_h_period c \<le> 3650) (walk (css_schemas s))"
    by (rule list.pred_cong) (auto simp: ok)
  finally show ?thesis by (simp add: s' cs_GetNextID_eq cs_last_id_def) (simp add: cs_empty_def)
qed

section \<open>A sample schema\<close>

text \<open>The first corporation of the sample registries authorizes the operator \<open>o\<close> for the
  schema messages and creates, edits and archives a schema of its first ecosystem.\<close>

definition sample_cs_types :: "string list" where
  "sample_cs_types = [''/verana.cs.v1.MsgCreateCredentialSchema'', ''/verana.cs.v1.MsgUpdateCredentialSchema'',
     ''/verana.cs.v1.MsgArchiveCredentialSchema'']"

definition sample_cs_grant :: msg_grant_oa where
  "sample_cs_grant = \<lparr>go_corporation = ''p'', go_operator = [], go_grantee = ''o'', go_msg_types = sample_cs_types,
     go_expiration = None, go_spend_limit = [], go_spend_period = None, go_with_feegrant = False,
     go_fee_limit = [], go_fee_period = None, go_fee_spend_limit = []\<rparr>"

definition sample_cs_de :: de_state where
  "sample_cs_de = put_oper_auth (de_empty\<lparr>des_oa_seq := 1\<rparr>) 1 sample_cs_grant 1"

lemma sample_cs_grant_ok:
  "GrantOperatorAuthorization list_coins (resolve_id sample_co) 12 de_empty sample_cs_grant = Inr sample_cs_de"
  by (simp add: GrantOperatorAuthorization_def sample_cs_grant_def sample_resolve_p expired_def getOAByCorpOp_def
      nextOAID_def de_empty_def RevokeFeeAllowance_def put_oper_auth_def sample_cs_de_def
      CheckOperatorAuthorization_def checkOperatorAuthorizationCore_def)

lemma sample_cs_chain: "de_chain list_coins sample_cs_de"
proof (rule chain_grant [OF chain_start _ _ sample_cs_grant_ok])
  show "co_inv sample_co" using reach_inv(1) [OF sample_reach] by (simp add: sample_rg_def)
  show "validate_grant_oa (demo_env 12) list_coins sample_cs_grant = Inr ()"
    by (simp add: validate_grant_oa_def sample_cs_grant_def sample_cs_types_def msg_delegable_def
        VPRDelegableMsgTypes_def session_msg_type_def list_coins_def)
qed

lemma sample_cs_auth:
  "mt \<in> set sample_cs_types \<Longrightarrow> CheckOperatorAuthorization (resolve_id sample_co) sample_cs_de ''p'' ''o'' mt now = Inr ()"
  by (simp add: CheckOperatorAuthorization_def checkOperatorAuthorizationCore_def sample_resolve_p getOAByCorpOp_def
      sample_cs_de_def put_oper_auth_def de_empty_def sample_cs_grant_def expired_def)

definition sample_json :: json_ops where
  "sample_json = \<lparr>js_valid = (\<lambda>s. s \<noteq> []),
     js_unmarshal = (\<lambda>s. Some (J_Object [(''$schema'', J_String s), (''type'', J_String ''object''),
       (''title'', J_String ''t''), (''description'', J_String ''d''), (''properties'', J_Object [(''a'', J_Null)])])),
     js_marshal = (\<lambda>v. Some ''m'')\<rparr>"

lemma sample_json_sel [simp]: "js_valid sample_json s \<longleftrightarrow> s \<noteq> []" "js_marshal sample_json v = Some ''m''"
  by (simp_all add: sample_json_def)

lemma sample_json_ok: "s \<noteq> [] \<Longrightarrow> validateJSONSchema sample_json s"
  by (simp add: validateJSONSchema_def unmarshal_map_def sample_json_def json_map_def nonempty_string_def
      nonempty_object_def)

lemma sample_inject: "\<exists>p. InjectCanonicalID sample_json ''{}'' ch i = Inr p \<and> CanonicalizeJCS sample_json p = Inr ''m''"
proof -
  have "removeJSONField ''{}'' ''$id'' = Inr ''{}''"
    by (simp add: removeJSONField_def find_key.simps dquote_def)
  then show ?thesis by (simp add: InjectCanonicalID_def injectOrReplaceID_def has_other_props_def Let_def
        dquote_def CanonicalizeJCS_def) (simp add: sample_json_def)
qed

definition sample_cs_env :: "time \<Rightarrow> cs_env" where
  "sample_cs_env t = \<lparr>ke_sdk = demo_env t, ke_chain_id = ''c'', ke_json = sample_json, ke_denom = (\<lambda>s. s \<noteq> []),
     ke_co = sample_co, ke_ec = sample_ec, ke_de = sample_cs_de\<rparr>"

lemma sample_cs_env_sel [simp]:
  "cs_now (sample_cs_env t) = t" "ke_sdk (sample_cs_env t) = demo_env t" "ke_json (sample_cs_env t) = sample_json"
  "ke_co (sample_cs_env t) = sample_co" "ke_ec (sample_cs_env t) = sample_ec" "ke_de (sample_cs_env t) = sample_cs_de"
  "linked_env (sample_cs_env t) sample_rg"
  by (simp_all add: sample_cs_env_def cs_now_def linked_env_def sample_rg_def)

definition sample_create_cs :: msg_create_cs where
  "sample_create_cs = \<lparr>mc_corporation = ''p'', mc_operator = ''o'', mc_ecosystem_id = 1, mc_json = ''{}'',
     mc_ig_period = Some 30, mc_vg_period = Some 30, mc_i_period = Some 30, mc_v_period = Some 0, mc_h_period = Some 0,
     mc_issuer_mode = 3, mc_verifier_mode = 2, mc_holder_mode = 1, mc_pricing_type = 1, mc_pricing_asset = ''tu'',
     mc_digest_algorithm = ''sha256''\<rparr>"

definition sample_schema :: cred_schema where
  "sample_schema = new_schema 1 sample_create_cs ''m'' 20"

definition sample_cs :: cs_state where
  "sample_cs = add_schema cs_empty sample_schema"

lemma sample_controls: "controls (sample_cs_env t) 1 ''p''"
  using sample_ecosystems(1) by (simp add: controls_def sample_co_def new_ecosystem_def new_corporation_def)

lemma sample_cs_exec: "cs_exec gov (sample_cs_env 20) cs_empty (Cs_Create sample_create_cs) = Inr sample_cs"
proof -
  have "validate_create_cs (sample_cs_env 20) sample_create_cs = Inr ()"
    by (simp add: validate_create_cs_def sample_create_cs_def sample_json_ok validateValidityPeriods_def
        validatePermManagementModes_def validatePricingAsset_def validateDigestAlgorithm_def
        ValidDigestAlgorithms_def)
  moreover have "CreateCredentialSchema (sample_cs_env 20) cs_empty sample_create_cs = Inr (1, sample_cs)"
  proof -
    obtain p where p: "InjectCanonicalID sample_json ''{}'' (ke_chain_id (sample_cs_env 20)) 1 = Inr p"
        "CanonicalizeJCS sample_json p = Inr ''m''" using sample_inject by blast
    have sel: "mc_corporation sample_create_cs = ''p''" "mc_operator sample_create_cs = ''o''"
        "mc_ecosystem_id sample_create_cs = 1" "mc_json sample_create_cs = ''{}''" by (simp_all add: sample_create_cs_def)
    have limits: "length ''{}'' \<le> cp_max_size (css_params cs_empty)"
        "validateValidityPeriodsWithParams sample_create_cs (css_params cs_empty) = Inr ()" "cs_last_id cs_empty = 0"
      by (simp_all add: sample_create_cs_def validateValidityPeriodsWithParams_def period_exceeds_def GetValue_def
          cs_empty_def cs_DefaultParams_def cs_last_id_def)
    show ?thesis unfolding CreateCredentialSchema_ok_iff sel
      using sample_cs_auth sample_controls limits p
      by (intro conjI exI [of _ p] exI [of _ "''m''"])
        (simp_all add: sample_cs_types_def sample_cs_def sample_schema_def del: One_nat_def)
  qed
  ultimately show ?thesis by (simp add: cs_exec_def)
qed

lemma sch_reach_start: "rg_reach t r grp \<Longrightarrow> sch_reach CN t r grp cs_empty"
proof (induction rule: rg_reach.induct)
  case (rg_next t r grp X op r' grp')
  then show ?case by (blast intro: sch_registry)
qed (rule sch_init)

lemma sample_sch_reach: "sch_reach list_coins 20 sample_rg ''pp'' sample_cs"
  using sch_schema [OF sch_reach_start [OF sample_reach] _ _ _ sample_cs_exec] sample_cs_chain by simp

lemma sample_cs_get: "kget (css_schemas sample_cs) 1 = Some sample_schema" "csm_archived sample_schema = None"
    "csm_ecosystem_id sample_schema = 1" "csm_id sample_schema = 1"
  by (simp_all add: sample_cs_def add_schema_def cs_last_id_def cs_empty_def sample_schema_def new_schema_def
      sample_create_cs_def)

definition sample_archive_cs :: msg_archive_cs where
  "sample_archive_cs = \<lparr>ac_corporation = ''p'', ac_operator = ''o'', ac_id = 1, ac_archive = True\<rparr>"

lemma schema_changed_by_owner_witness:
  "\<exists>s' c'. cs_exec '''' (sample_cs_env 30) sample_cs (Cs_Archive sample_archive_cs) = Inr s' \<and>
     resolve_id sample_co ''p'' = Some 1 \<and> kget (css_schemas s') 1 = Some c' \<and> same_terms sample_schema c'"
proof -
  let ?s = "sample_cs\<lparr>css_schemas := kset (css_schemas sample_cs) 1 (archived_schema sample_schema True 30)\<rparr>"
  have "ArchiveCredentialSchema (sample_cs_env 30) sample_cs sample_archive_cs = Inr ?s"
    unfolding ArchiveCredentialSchema_ok_iff
    using sample_cs_auth sample_controls sample_cs_get
    by (intro conjI exI [of _ sample_schema]) (simp_all add: sample_archive_cs_def sample_cs_types_def del: One_nat_def)
  then have ok: "cs_exec '''' (sample_cs_env 30) sample_cs (Cs_Archive sample_archive_cs) = Inr ?s"
    by (simp add: cs_exec_def validate_archive_cs_def sample_archive_cs_def)
  have "kget (css_schemas ?s) 1 \<noteq> Some sample_schema"
    using sample_cs_get by (auto simp: archived_schema_def dest: arg_cong [where f = csm_archived])
  from schema_changed_by_owner [OF sample_sch_reach _ _ _ ok sample_cs_get(1) this] ok sample_cs_chain
  show ?thesis using same_terms_edit by (auto simp: sample_rg_def sample_resolve_p)
qed

lemma policies_out_of_reach_witness:
  "(\<forall>s m res. CreateSchemaAuthorizationPolicy (sample_cs_env 30) s m \<noteq> Inr res) \<and> css_policies sample_cs = kempty"
proof -
  have "sample_cs \<in> {s. \<exists>t r. sch_reach list_coins t r ''pp'' s}" using sample_sch_reach by blast
  moreover have "de_chain list_coins (ke_de (sample_cs_env 30))" by (simp add: sample_cs_chain)
  note T = policies_out_of_reach [of list_coins "sample_cs_env 30" "''pp''", OF this]
  then have "{s. \<exists>t r. sch_reach list_coins t r ''pp'' s} \<subseteq> {s. css_policies s = kempty}" by (elim conjE)
  ultimately have "css_policies sample_cs = kempty" by (blast dest: subsetD)
  moreover from T have "\<forall>s m res. CreateSchemaAuthorizationPolicy (sample_cs_env 30) s m \<noteq> Inr res" by (elim conjE)
  ultimately show ?thesis by (intro conjI)
qed

lemma cs_genesis_round_trip_witness:
  "css_schemas (cs_InitGenesis (cs_ExportGenesis sample_cs) cs_empty) = css_schemas sample_cs \<and>
   cs_validate_genesis sample_json (cs_ExportGenesis sample_cs)"
proof -
  have "walk (css_schemas sample_cs) = [sample_schema]"
    by (simp add: sample_cs_def add_schema_def cs_empty_def walk_def)
  moreover have "validateJSONSchema sample_json (csm_json sample_schema)"
    by (rule sample_json_ok) (simp add: sample_schema_def new_schema_def)
  ultimately show ?thesis using cs_genesis_round_trip [OF sample_sch_reach, of sample_json]
    by (simp add: sample_schema_def new_schema_def sample_create_cs_def GetValue_def)
qed

end
