(* ===== verification/Participant.thy ===== *)
theory Participant
imports Credential_Schema Trust_Deposit Digest Ecosystem_Msgs
begin

text \<open>
  Participants of the trust registry (src/x/pp): records and state, the surroundings a
  message runs in (the other modules it reads and writes), the stateless checks of
  types/types.go, validity, fees, role combinations and the overlap checks the handlers
  share.  Amounts are integers in the range of \<open>uint64\<close>, roles, onboarding states and
  modes the integers of the protobuf enums.
\<close>

section \<open>Data and state\<close>

abbreviation ISSUER :: int where "ISSUER \<equiv> 1"
abbreviation VERIFIER :: int where "VERIFIER \<equiv> 2"
abbreviation ISSUER_GRANTOR :: int where "ISSUER_GRANTOR \<equiv> 3"
abbreviation VERIFIER_GRANTOR :: int where "VERIFIER_GRANTOR \<equiv> 4"
abbreviation ECOSYSTEM :: int where "ECOSYSTEM \<equiv> 5"
abbreviation HOLDER :: int where "HOLDER \<equiv> 6"

abbreviation PENDING :: int where "PENDING \<equiv> 1"
abbreviation VALIDATED :: int where "VALIDATED \<equiv> 2"
abbreviation TERMINATED :: int where "TERMINATED \<equiv> 3"

abbreviation MODE_OPEN :: int where "MODE_OPEN \<equiv> 1"
abbreviation MODE_ECOSYSTEM :: int where "MODE_ECOSYSTEM \<equiv> 2"
abbreviation MODE_GRANTOR :: int where "MODE_GRANTOR \<equiv> 3"

record participant =
  pt_id :: nat
  pt_schema_id :: nat
  pt_role :: int
  pt_did :: string
  pt_created :: "time option"
  pt_adjusted :: "time option"
  pt_slashed :: "time option"
  pt_repaid :: "time option"
  pt_from :: "time option"
  pt_until :: "time option"
  pt_modified :: "time option"
  pt_validation_fees :: int
  pt_issuance_fees :: int
  pt_verification_fees :: int
  pt_deposit :: int
  pt_slashed_deposit :: int
  pt_repaid_deposit :: int
  pt_revoked :: "time option"
  pt_validator :: nat
  pt_op_state :: int
  pt_op_exp :: "time option"
  pt_op_last_change :: "time option"
  pt_op_validator_deposit :: int
  pt_op_current_fees :: int
  pt_op_current_deposit :: int
  pt_op_digest :: string
  pt_issuance_discount :: int
  pt_verification_discount :: int
  pt_vs_operator :: string
  pt_corp :: nat

record session_record =
  sr_id :: int
  sr_created :: "time option"
  sr_issuer :: nat
  sr_verifier :: nat
  sr_wallet_agent :: nat
  sr_agent :: nat

record pp_session =
  ss_id :: string
  ss_corp :: nat
  ss_vs_operator :: string
  ss_created :: "time option"
  ss_modified :: "time option"
  ss_records :: "session_record list"

record pp_state =
  pps_timeout_days :: int
  pps_participants :: "(nat, participant) store"
  pps_counter :: "nat option"
  pps_sessions :: "(string, pp_session) store"

text \<open>The state that InitGenesis leaves for the default genesis of the types package.\<close>

definition pp_empty :: pp_state where
  "pp_empty = \<lparr>pps_timeout_days = 7, pps_participants = kempty, pps_counter = Some 0, pps_sessions = kempty\<rparr>"

text \<open>A participant as a composite literal builds it, every field not named left zero.\<close>

definition blank_participant :: participant where
  "blank_participant = \<lparr>pt_id = 0, pt_schema_id = 0, pt_role = 0, pt_did = [], pt_created = None,
     pt_adjusted = None, pt_slashed = None, pt_repaid = None, pt_from = None, pt_until = None,
     pt_modified = None, pt_validation_fees = 0, pt_issuance_fees = 0, pt_verification_fees = 0,
     pt_deposit = 0, pt_slashed_deposit = 0, pt_repaid_deposit = 0, pt_revoked = None,
     pt_validator = 0, pt_op_state = 0, pt_op_exp = None, pt_op_last_change = None,
     pt_op_validator_deposit = 0, pt_op_current_fees = 0, pt_op_current_deposit = 0,
     pt_op_digest = [], pt_issuance_discount = 0, pt_verification_discount = 0,
     pt_vs_operator = [], pt_corp = 0\<rparr>"

datatype pp_error =
    Pp_Bad_Address | Pp_Zero_Id | Pp_Role | Pp_Did | Pp_Vs_Authz | Pp_Digest | Pp_Discount | Pp_Amount
  | Pp_Reason | Pp_Uuid | Pp_Until_Missing | Pp_Authz de_error | Pp_De de_error | Pp_Td td_error
  | Pp_Di di_error | Pp_Bank | Pp_Panic | Pp_Not_Found | Pp_Not_Registered | Pp_Schema | Pp_Ecosystem
  | Pp_Repaid | Pp_Slashed | Pp_Revoked | Pp_Expired | Pp_Not_Yet | Pp_Inactive
  | Pp_Role_Combination | Pp_Fee_Overflow | Pp_Overflow | Pp_Overlap | Pp_Did_Conflict | Pp_Op_State
  | Pp_Not_Authority | Pp_Renewal_Change | Pp_Discount_Mode | Pp_Period | Pp_Configuration
  | Pp_Nothing_To_Repay | Pp_Funds | Pp_Mode | Pp_Fees | Pp_Session | Pp_Not_Issuer | Pp_Not_Verifier
  | Pp_Vs_Operator | Pp_Signer | Pp_Params | Pp_Query | Pp_Diverges

text \<open>The service-operator fields the three creating messages share.\<close>

record vs_request =
  vr_operator :: string
  vr_msg_types :: "string list"
  vr_spend_limit :: coins
  vr_with_feegrant :: bool
  vr_fee_spend_limit :: coins
  vr_period :: "duration option"

record msg_start_op =
  sp_corporation :: string
  sp_operator :: string
  sp_role :: int
  sp_validator :: nat
  sp_did :: string
  sp_validation_fees :: "int option"
  sp_issuance_fees :: "int option"
  sp_verification_fees :: "int option"
  sp_vs :: vs_request

text \<open>\<open>MsgRenewParticipantOP\<close>, \<open>MsgCancelParticipantOPLastRequest\<close> and
  \<open>MsgRevokeParticipant\<close> name the signer and a participant.\<close>

record msg_on_participant =
  op_corporation :: string
  op_operator :: string
  op_id :: nat

record msg_validate_op =
  vd_corporation :: string
  vd_operator :: string
  vd_id :: nat
  vd_until :: "time option"
  vd_validation_fees :: int
  vd_issuance_fees :: int
  vd_verification_fees :: int
  vd_digest :: string
  vd_issuance_discount :: int
  vd_verification_discount :: int

record msg_root_pp =
  rt_corporation :: string
  rt_operator :: string
  rt_schema_id :: nat
  rt_did :: string
  rt_from :: "time option"
  rt_until :: "time option"
  rt_validation_fees :: int
  rt_issuance_fees :: int
  rt_verification_fees :: int
  rt_vs :: vs_request

record msg_set_until =
  su_corporation :: string
  su_operator :: string
  su_id :: nat
  su_until :: "time option"

record msg_slash_pp =
  sh_corporation :: string
  sh_operator :: string
  sh_id :: nat
  sh_amount :: int
  sh_reason :: string

record msg_repay_pp =
  rr_corporation :: string
  rr_operator :: string
  rr_id :: nat
  rr_amount :: int

record msg_self_pp =
  sf_corporation :: string
  sf_operator :: string
  sf_role :: int
  sf_validator :: nat
  sf_did :: string
  sf_from :: "time option"
  sf_until :: "time option"
  sf_verification_fees :: int
  sf_validation_fees :: int
  sf_vs :: vs_request

section \<open>Surroundings\<close>

text \<open>What a message only reads: block context, libraries and the registries.  What it
  may write besides the module's own state: trust deposits, the bank, delegations and
  digests.\<close>

record 'b pp_env =
  pe_sdk :: sdk_env
  pe_coins :: coins_ops
  pe_dec :: dec_ops
  pe_bank :: "'b bank_ops"
  pe_co :: co_state
  pe_ec :: ec_state
  pe_cs :: cs_state

record 'b pp_world =
  pw_pp :: pp_state
  pw_td :: td_state
  pw_bank :: 'b
  pw_de :: de_state
  pw_di :: di_state

definition pp_now :: "'b pp_env \<Rightarrow> time" where
  "pp_now X = se_block_time (pe_sdk X)"

definition pp_module :: string where "pp_module = ''pp''"

text \<open>The calls of the trust-deposit, bank, delegation and digest keepers.\<close>

definition adjust_deposit :: "'b pp_env \<Rightarrow> 'b pp_world \<Rightarrow> string \<Rightarrow> int \<Rightarrow> pp_error + 'b pp_world" where
  "adjust_deposit X w account augend =
     bindE (liftE Pp_Td (AdjustTrustDeposit (pe_dec X) (pe_bank X) (pe_sdk X) (pw_td w) (pw_bank w) account augend))
       (\<lambda>(td, b). Inr (w\<lparr>pw_td := td, pw_bank := b\<rparr>))"

definition adjust_on_behalf ::
  "'b pp_env \<Rightarrow> 'b pp_world \<Rightarrow> string \<Rightarrow> string \<Rightarrow> int \<Rightarrow> pp_error + 'b pp_world" where
  "adjust_on_behalf X w account funder amount =
     bindE (liftE Pp_Td (AdjustTrustDepositOnBehalf (pe_dec X) (pe_bank X) (pw_td w) (pw_bank w) account funder amount))
       (\<lambda>(td, b). Inr (w\<lparr>pw_td := td, pw_bank := b\<rparr>))"

definition burn_deposit :: "'b pp_env \<Rightarrow> 'b pp_world \<Rightarrow> string \<Rightarrow> int \<Rightarrow> pp_error + 'b pp_world" where
  "burn_deposit X w account amount =
     bindE (liftE Pp_Td (BurnEcosystemSlashedTrustDeposit (pe_dec X) (pe_bank X) (pw_td w) (pw_bank w) account amount))
       (\<lambda>(td, b). Inr (w\<lparr>pw_td := td, pw_bank := b\<rparr>))"

definition escrow_in :: "'b pp_env \<Rightarrow> 'b pp_world \<Rightarrow> string \<Rightarrow> int \<Rightarrow> pp_error + 'b pp_world" where
  "escrow_in X w from_acc n =
     bindE (optE Pp_Panic (new_coins bond_denom n)) (\<lambda>cs.
     bindE (optE Pp_Bank (bk_acc_to_mod (pe_bank X) (pw_bank w) from_acc pp_module cs)) (\<lambda>b.
     Inr (w\<lparr>pw_bank := b\<rparr>)))"

definition escrow_out :: "'b pp_env \<Rightarrow> 'b pp_world \<Rightarrow> string \<Rightarrow> int \<Rightarrow> pp_error + 'b pp_world" where
  "escrow_out X w to_acc n =
     bindE (optE Pp_Panic (new_coins bond_denom n)) (\<lambda>cs.
     bindE (optE Pp_Bank (bk_mod_to_acc (pe_bank X) (pw_bank w) pp_module to_acc cs)) (\<lambda>b.
     Inr (w\<lparr>pw_bank := b\<rparr>)))"

definition send_coins :: "'b pp_env \<Rightarrow> 'b pp_world \<Rightarrow> string \<Rightarrow> string \<Rightarrow> int \<Rightarrow> pp_error + 'b pp_world" where
  "send_coins X w from_acc to_acc n =
     bindE (optE Pp_Panic (new_coins bond_denom n)) (\<lambda>cs.
     bindE (optE Pp_Bank (bk_send (pe_bank X) (pw_bank w) from_acc to_acc cs)) (\<lambda>b.
     Inr (w\<lparr>pw_bank := b\<rparr>)))"

definition has_balance :: "'b pp_env \<Rightarrow> 'b pp_world \<Rightarrow> string \<Rightarrow> int \<Rightarrow> bool" where
  "has_balance X w acc n \<longleftrightarrow> n \<le> bk_balance (pe_bank X) (pw_bank w) acc bond_denom"

definition revokeVSOperatorAuthorization :: "'b pp_env \<Rightarrow> 'b pp_world \<Rightarrow> participant \<Rightarrow> pp_error + 'b pp_world" where
  "revokeVSOperatorAuthorization X w p =
     bindE (liftE Pp_De (RevokeVSOperatorAuthorization (pe_coins X) (pp_now X) (pw_de w) (pt_id p))) (\<lambda>de.
     Inr (w\<lparr>pw_de := de\<rparr>))"

definition set_vs_expiration :: "'b pp_env \<Rightarrow> 'b pp_world \<Rightarrow> nat \<Rightarrow> time \<Rightarrow> pp_error + 'b pp_world" where
  "set_vs_expiration X w i expiration =
     bindE (liftE Pp_De (UpdateVSOperatorAuthorizationExpiration (pe_coins X) (pp_now X) (pw_de w) i expiration)) (\<lambda>de.
     Inr (w\<lparr>pw_de := de\<rparr>))"

text \<open>The record a creating message asks for, when it names message types.\<close>

definition grant_vs_request ::
  "'b pp_env \<Rightarrow> 'b pp_world \<Rightarrow> nat \<Rightarrow> vs_request \<Rightarrow> nat \<Rightarrow> time option \<Rightarrow> pp_error + 'b pp_world" where
  "grant_vs_request X w corporationId v i expiration =
     (if vr_msg_types v = [] then Inr w
      else
        bindE (liftE Pp_De (GrantVSOperatorAuthorization (pe_coins X) (pp_now X) (pw_de w) corporationId (vr_operator v)
           \<lparr>pr_participant = i, pr_msg_types = vr_msg_types v, pr_spend_limit = vr_spend_limit v,
            pr_remaining_spend = [], pr_fee_spend_limit = vr_fee_spend_limit v, pr_remaining_fee_spend = [],
            pr_with_feegrant = vr_with_feegrant v, pr_expiration = expiration, pr_period = vr_period v\<rparr>)) (\<lambda>de.
        Inr (w\<lparr>pw_de := de\<rparr>)))"

definition pp_authorize :: "'b pp_env \<Rightarrow> 'b pp_world \<Rightarrow> string \<Rightarrow> string \<Rightarrow> string \<Rightarrow> pp_error + unit" where
  "pp_authorize X w corporation operator mt =
     liftE Pp_Authz (CheckOperatorAuthorization (resolve_id (pe_co X)) (pw_de w) corporation operator mt (pp_now X))"

text \<open>keeper/corp_resolve.go with the adapters of keeper/cross_module.go.\<close>

definition corpIDFromAccount :: "'b pp_env \<Rightarrow> string \<Rightarrow> pp_error + nat" where
  "corpIDFromAccount X account = optE Pp_Not_Registered (kget (cos_by_policy (pe_co X)) account)"

definition corpAccountFromID :: "'b pp_env \<Rightarrow> nat \<Rightarrow> pp_error + string" where
  "corpAccountFromID X i =
     bindE (optE Pp_Not_Registered (kget (cos_corporations (pe_co X)) i)) (\<lambda>c. Inr (co_policy_address c))"

definition uint64ToInt64 :: "int \<Rightarrow> pp_error + int" where
  "uint64ToInt64 x = (if max_i64 < x then Inl Pp_Overflow else Inr (i64 x))"

section \<open>The store of participants (keeper/keeper.go)\<close>

definition GetParticipantByID :: "pp_state \<Rightarrow> nat \<Rightarrow> pp_error + participant" where
  "GetParticipantByID s i = optE Pp_Not_Found (kget (pps_participants s) i)"

definition getNextParticipantID :: "pp_state \<Rightarrow> nat \<times> pp_state" where
  "getNextParticipantID s =
     (let nextID = (case pps_counter s of None \<Rightarrow> 0 | Some n \<Rightarrow> n) + 1 in
      (nextID, s\<lparr>pps_counter := Some nextID\<rparr>))"

definition CreateParticipant :: "pp_state \<Rightarrow> participant \<Rightarrow> nat \<times> pp_state" where
  "CreateParticipant s p =
     (let (i, s1) = getNextParticipantID s in
      (i, s1\<lparr>pps_participants := kset (pps_participants s1) i (p\<lparr>pt_id := i\<rparr>)\<rparr>))"

definition UpdateParticipant :: "pp_state \<Rightarrow> participant \<Rightarrow> pp_state" where
  "UpdateParticipant s p = s\<lparr>pps_participants := kset (pps_participants s) (pt_id p) p\<rparr>"

text \<open>The same two on the world.\<close>

definition create_in :: "'b pp_world \<Rightarrow> participant \<Rightarrow> nat \<times> 'b pp_world" where
  "create_in w p = (let (i, s) = CreateParticipant (pw_pp w) p in (i, w\<lparr>pw_pp := s\<rparr>))"

definition update_in :: "'b pp_world \<Rightarrow> participant \<Rightarrow> 'b pp_world" where
  "update_in w p = w\<lparr>pw_pp := UpdateParticipant (pw_pp w) p\<rparr>"

definition IsValidParticipant :: "participant \<Rightarrow> time \<Rightarrow> pp_error + unit" where
  "IsValidParticipant p checkTime =
     (if pt_repaid p \<noteq> None then Inl Pp_Repaid
      else if pt_slashed p \<noteq> None then Inl Pp_Slashed
      else if (case pt_revoked p of None \<Rightarrow> False | Some r \<Rightarrow> r < checkTime) then Inl Pp_Revoked
      else if (case pt_until p of None \<Rightarrow> False | Some u \<Rightarrow> \<not> checkTime < u) then Inl Pp_Expired
      else if (case pt_from p of None \<Rightarrow> False | Some f \<Rightarrow> checkTime < f) then Inl Pp_Not_Yet
      else if pt_from p = None then Inl Pp_Inactive
      else Inr ())"

end
