(* ===== verification/Participant_Checks.thy ===== *)
theory Participant_Checks
imports Participant
begin

text \<open>
  The checks of the participant messages: \<open>ValidateBasic\<close> of each message
  (types/types.go), the fees of a validation, the role combinations a schema allows
  (keeper/start_participant_op.go), the ownership of DIDs (keeper/participant_did.go), the
  overlap checks, and the search for an ancestor that the signer controls
  (keeper/msg_server.go).
\<close>

section \<open>Stateless validation\<close>

definition vsoaPermittedMsgTypes :: "int \<Rightarrow> string list option" where
  "vsoaPermittedMsgTypes role =
     (if role = HOLDER then Some [''/verana.pp.v1.MsgTriggerResolver'']
      else if role = ISSUER then
        Some [session_msg_type, ''/verana.pp.v1.MsgSetParticipantOPToValidated'']
      else if role = VERIFIER then Some [session_msg_type]
      else if role = ISSUER_GRANTOR \<or> role = VERIFIER_GRANTOR then
        Some [''/verana.pp.v1.MsgSetParticipantOPToValidated'']
      else None)"

definition any_vs_param :: "vs_request \<Rightarrow> bool" where
  "any_vs_param v \<longleftrightarrow> vr_msg_types v \<noteq> [] \<or> vr_spend_limit v \<noteq> [] \<or> vr_with_feegrant v \<or>
     vr_fee_spend_limit v \<noteq> [] \<or> vr_period v \<noteq> None"

definition validateVSOperatorAuthz :: "int \<Rightarrow> vs_request \<Rightarrow> pp_error + unit" where
  "validateVSOperatorAuthz role v =
     (if \<not> any_vs_param v then Inr ()
      else if vr_msg_types v = [] then Inl Pp_Vs_Authz
      else if vr_operator v = [] then Inl Pp_Vs_Authz
      else case vsoaPermittedMsgTypes role of
        None \<Rightarrow> Inl Pp_Vs_Authz
      | Some allowed \<Rightarrow> if list_all (\<lambda>mt. mt \<in> set allowed) (vr_msg_types v) then Inr () else Inl Pp_Vs_Authz)"

definition signers_ok :: "sdk_env \<Rightarrow> string \<Rightarrow> string \<Rightarrow> pp_error + unit" where
  "signers_ok E corporation operator =
     (if \<not> valid_addr E corporation then Inl Pp_Bad_Address
      else if \<not> valid_addr E operator then Inl Pp_Bad_Address else Inr ())"

definition validate_start_op :: "sdk_env \<Rightarrow> msg_start_op \<Rightarrow> pp_error + unit" where
  "validate_start_op E m =
     bindE (signers_ok E (sp_corporation m) (sp_operator m)) (\<lambda>_.
     if sp_validator m = 0 then Inl Pp_Zero_Id
     else if \<not> (sp_role m = ISSUER \<or> sp_role m = VERIFIER \<or> sp_role m = ISSUER_GRANTOR \<or>
                sp_role m = VERIFIER_GRANTOR \<or> sp_role m = HOLDER) then Inl Pp_Role
     else if sp_did m = [] then Inl Pp_Did
     else if \<not> IsValidDID (sp_did m) then Inl Pp_Did
     else if vr_operator (sp_vs m) \<noteq> [] \<and> \<not> valid_addr E (vr_operator (sp_vs m)) then Inl Pp_Bad_Address
     else validateVSOperatorAuthz (sp_role m) (sp_vs m))"

text \<open>Renewal, cancellation and revocation.\<close>

definition validate_on_participant :: "sdk_env \<Rightarrow> msg_on_participant \<Rightarrow> pp_error + unit" where
  "validate_on_participant E m =
     bindE (signers_ok E (op_corporation m) (op_operator m)) (\<lambda>_.
     if op_id m = 0 then Inl Pp_Zero_Id else Inr ())"

definition maxDiscount :: int where "maxDiscount = 10000"

definition validate_validate_op :: "sdk_env \<Rightarrow> msg_validate_op \<Rightarrow> pp_error + unit" where
  "validate_validate_op E m =
     bindE (signers_ok E (vd_corporation m) (vd_operator m)) (\<lambda>_.
     if vd_id m = 0 then Inl Pp_Zero_Id
     else if vd_digest m \<noteq> [] \<and> \<not> IsValidDigestSRI (vd_digest m) then Inl Pp_Digest
     else if maxDiscount < vd_issuance_discount m then Inl Pp_Discount
     else if maxDiscount < vd_verification_discount m then Inl Pp_Discount
     else Inr ())"

definition validate_root_pp :: "sdk_env \<Rightarrow> msg_root_pp \<Rightarrow> pp_error + unit" where
  "validate_root_pp E m =
     bindE (signers_ok E (rt_corporation m) (rt_operator m)) (\<lambda>_.
     if rt_schema_id m = 0 then Inl Pp_Zero_Id
     else if rt_did m = [] then Inl Pp_Did
     else if \<not> IsValidDID (rt_did m) then Inl Pp_Did
     else
       bindE (if any_vs_param (rt_vs m) then
           (if vr_msg_types (rt_vs m) = [] then Inl Pp_Vs_Authz
            else if vr_operator (rt_vs m) = [] then Inl Pp_Vs_Authz
            else if \<not> list_all (\<lambda>mt. mt = ''/verana.pp.v1.MsgSetParticipantOPToValidated'') (vr_msg_types (rt_vs m))
              then Inl Pp_Vs_Authz
            else if rt_until m = None then Inl Pp_Until_Missing else Inr ())
         else Inr ()) (\<lambda>_.
       if vr_operator (rt_vs m) \<noteq> [] \<and> \<not> valid_addr E (vr_operator (rt_vs m)) then Inl Pp_Bad_Address
       else Inr ()))"

definition validate_set_until :: "sdk_env \<Rightarrow> msg_set_until \<Rightarrow> pp_error + unit" where
  "validate_set_until E m =
     bindE (signers_ok E (su_corporation m) (su_operator m)) (\<lambda>_.
     if su_id m = 0 then Inl Pp_Zero_Id
     else if su_until m = None then Inl Pp_Until_Missing else Inr ())"

definition validate_slash_pp :: "sdk_env \<Rightarrow> msg_slash_pp \<Rightarrow> pp_error + unit" where
  "validate_slash_pp E m =
     bindE (signers_ok E (sh_corporation m) (sh_operator m)) (\<lambda>_.
     if sh_id m = 0 then Inl Pp_Zero_Id
     else if sh_amount m = 0 then Inl Pp_Amount
     else if sh_reason m = [] then Inl Pp_Reason else Inr ())"

definition validate_repay_pp :: "sdk_env \<Rightarrow> msg_repay_pp \<Rightarrow> pp_error + unit" where
  "validate_repay_pp E m =
     bindE (signers_ok E (rr_corporation m) (rr_operator m)) (\<lambda>_.
     if rr_id m = 0 then Inl Pp_Zero_Id
     else if rr_amount m = 0 then Inl Pp_Amount else Inr ())"

definition validate_self_pp :: "sdk_env \<Rightarrow> msg_self_pp \<Rightarrow> pp_error + unit" where
  "validate_self_pp E m =
     bindE (signers_ok E (sf_corporation m) (sf_operator m)) (\<lambda>_.
     if \<not> (sf_role m = ISSUER \<or> sf_role m = VERIFIER) then Inl Pp_Role
     else if sf_validator m = 0 then Inl Pp_Zero_Id
     else if sf_did m = [] then Inl Pp_Did
     else if \<not> IsValidDID (sf_did m) then Inl Pp_Did
     else if vr_operator (sf_vs m) \<noteq> [] \<and> \<not> valid_addr E (vr_operator (sf_vs m)) then Inl Pp_Bad_Address
     else
       bindE (validateVSOperatorAuthz (sf_role m) (sf_vs m)) (\<lambda>_.
       if any_vs_param (sf_vs m) \<and> sf_until m = None then Inl Pp_Until_Missing else Inr ()))"

section \<open>Validity periods and fees\<close>

definition getValidityPeriod :: "int \<Rightarrow> cred_schema \<Rightarrow> nat" where
  "getValidityPeriod role c =
     (if role = ISSUER_GRANTOR then csm_ig_period c
      else if role = VERIFIER_GRANTOR then csm_vg_period c
      else if role = ISSUER then csm_i_period c
      else if role = VERIFIER then csm_v_period c
      else if role = HOLDER then csm_h_period c else 0)"

definition calculateVPExp :: "time option \<Rightarrow> nat \<Rightarrow> time \<Rightarrow> time option" where
  "calculateVPExp currentVPExp validityPeriod now =
     (if validityPeriod = 0 then None
      else case currentVPExp of
        None \<Rightarrow> Some (add_days now (int validityPeriod))
      | Some t \<Rightarrow> Some (add_days t (int validityPeriod)))"

definition validationTrustDepositInDenomAmount :: "dec_ops \<Rightarrow> int \<Rightarrow> dec \<Rightarrow> pp_error + int" where
  "validationTrustDepositInDenomAmount D fees rate =
     bindE (optE Pp_Panic (dec_mul D (dec_of_int D fees) rate)) (\<lambda>d.
     if \<not> is_u64 (dec_truncate D d) then Inl Pp_Fee_Overflow else Inr (dec_truncate D d))"

definition validateAndCalculateFees :: "'b pp_env \<Rightarrow> 'b pp_world \<Rightarrow> participant \<Rightarrow> pp_error + int \<times> int" where
  "validateAndCalculateFees X w validator =
     (let fees = pt_validation_fees validator * GetTrustUnitPrice (pe_ec X) in
      if \<not> is_u64 fees then Inl Pp_Fee_Overflow
      else
        bindE (validationTrustDepositInDenomAmount (pe_dec X) fees (tp_rate (tds_params (pw_td w)))) (\<lambda>deposit.
        Inr (fees, deposit)))"

section \<open>Role combinations\<close>

definition validateParticipantRoleCombination :: "int \<Rightarrow> int \<Rightarrow> cred_schema \<Rightarrow> pp_error + unit" where
  "validateParticipantRoleCombination requested validator c =
     (if requested = ISSUER then
        (if csm_issuer_mode c = MODE_GRANTOR then
           (if validator \<noteq> ISSUER_GRANTOR then Inl Pp_Role_Combination else Inr ())
         else if csm_issuer_mode c = MODE_ECOSYSTEM then
           (if validator \<noteq> ECOSYSTEM then Inl Pp_Role_Combination else Inr ())
         else Inl Pp_Role_Combination)
      else if requested = ISSUER_GRANTOR then
        (if csm_issuer_mode c = MODE_GRANTOR then
           (if validator \<noteq> ECOSYSTEM then Inl Pp_Role_Combination else Inr ())
         else Inl Pp_Role_Combination)
      else if requested = VERIFIER then
        (if csm_verifier_mode c = MODE_GRANTOR then
           (if validator \<noteq> VERIFIER_GRANTOR then Inl Pp_Role_Combination else Inr ())
         else if csm_verifier_mode c = MODE_ECOSYSTEM then
           (if validator \<noteq> ECOSYSTEM then Inl Pp_Role_Combination else Inr ())
         else Inl Pp_Role_Combination)
      else if requested = VERIFIER_GRANTOR then
        (if csm_verifier_mode c = MODE_GRANTOR then
           (if validator \<noteq> ECOSYSTEM then Inl Pp_Role_Combination else Inr ())
         else Inl Pp_Role_Combination)
      else if requested = HOLDER then
        (if csm_verifier_mode c = MODE_GRANTOR \<or> csm_verifier_mode c = MODE_ECOSYSTEM then
           (if validator \<noteq> ISSUER then Inl Pp_Role_Combination else Inr ())
         else Inl Pp_Role_Combination)
      else Inr ())"

definition get_schema :: "'b pp_env \<Rightarrow> nat \<Rightarrow> pp_error + cred_schema" where
  "get_schema X i = optE Pp_Schema (GetCredentialSchemaById (pe_cs X) i)"

definition validateParticipantChecks :: "'b pp_env \<Rightarrow> 'b pp_world \<Rightarrow> msg_start_op \<Rightarrow> pp_error + participant" where
  "validateParticipantChecks X w m =
     bindE (GetParticipantByID (pw_pp w) (sp_validator m)) (\<lambda>v.
     bindE (IsValidParticipant v (pp_now X)) (\<lambda>_.
     bindE (get_schema X (pt_schema_id v)) (\<lambda>c.
     bindE (validateParticipantRoleCombination (sp_role m) (pt_role v) c) (\<lambda>_.
     Inr v))))"

section \<open>Overlaps and DIDs\<close>

text \<open>The context of a participant: schema, role, validator and corporation.\<close>

definition same_context :: "nat \<Rightarrow> int \<Rightarrow> nat \<Rightarrow> nat \<Rightarrow> participant \<Rightarrow> bool" where
  "same_context schema role validator corp p \<longleftrightarrow>
     pt_schema_id p = schema \<and> pt_role p = role \<and> pt_validator p = validator \<and> pt_corp p = corp"

definition withdrawn :: "participant \<Rightarrow> bool" where
  "withdrawn p \<longleftrightarrow> pt_revoked p \<noteq> None \<or> pt_slashed p \<noteq> None \<or> pt_repaid p \<noteq> None"

definition checkOverlap :: "pp_state \<Rightarrow> nat \<Rightarrow> int \<Rightarrow> nat \<Rightarrow> nat \<Rightarrow> pp_error + unit" where
  "checkOverlap s schema role validator corp =
     (if list_ex (\<lambda>p. same_context schema role validator corp p \<and>
            (pt_op_state p = PENDING \<or> pt_op_state p = VALIDATED)) (walk (pps_participants s))
      then Inl Pp_Overlap else Inr ())"

text \<open>Another participant of the context stands in the way of the period from \<open>f\<close> to
  \<open>u\<close>: it never ends, ends after \<open>f\<close> or starts before \<open>u\<close>.\<close>

definition blocks_period :: "time option \<Rightarrow> time option \<Rightarrow> participant \<Rightarrow> bool" where
  "blocks_period f u p \<longleftrightarrow>
     (case pt_until p of
        None \<Rightarrow> True
      | Some e \<Rightarrow> (case f of None \<Rightarrow> False | Some t \<Rightarrow> t < e) \<or>
                  (case (u, pt_from p) of (Some t, Some b) \<Rightarrow> b < t | _ \<Rightarrow> False))"

definition context_blocked :: "pp_state \<Rightarrow> participant \<Rightarrow> time option \<Rightarrow> time option \<Rightarrow> bool" where
  "context_blocked s a f u \<longleftrightarrow>
     list_ex (\<lambda>p. pt_id p \<noteq> pt_id a \<and>
        same_context (pt_schema_id a) (pt_role a) (pt_validator a) (pt_corp a) p \<and>
        \<not> withdrawn p \<and> pt_from p \<noteq> None \<and> blocks_period f u p) (walk (pps_participants s))"

definition checkValidatedOverlap :: "pp_state \<Rightarrow> time \<Rightarrow> participant \<Rightarrow> time option \<Rightarrow> pp_error + unit" where
  "checkValidatedOverlap s now a effectiveUntil =
     (let f = (case pt_from a of None \<Rightarrow> Some now | Some t \<Rightarrow> Some t) in
      if context_blocked s a f effectiveUntil then Inl Pp_Overlap else Inr ())"

definition checkAdjustParticipantOverlap :: "pp_state \<Rightarrow> participant \<Rightarrow> time option \<Rightarrow> pp_error + unit" where
  "checkAdjustParticipantOverlap s a effectiveUntil =
     (if context_blocked s a (pt_from a) effectiveUntil then Inl Pp_Overlap else Inr ())"

text \<open>The check of a root participant reads the participants of the corporation in the
  role \<open>ECOSYSTEM\<close>, whoever validates them.\<close>

definition checkCreateRootParticipantOverlap :: "'b pp_env \<Rightarrow> pp_state \<Rightarrow> msg_root_pp \<Rightarrow> pp_error + unit" where
  "checkCreateRootParticipantOverlap X s m =
     bindE (corpIDFromAccount X (rt_corporation m)) (\<lambda>corp.
     if list_ex (\<lambda>p. pt_schema_id p = rt_schema_id m \<and> pt_role p = ECOSYSTEM \<and> pt_corp p = corp \<and>
          \<not> withdrawn p \<and> blocks_period (rt_from m) (rt_until m) p) (walk (pps_participants s))
     then Inl Pp_Overlap else Inr ())"

definition checkCreateParticipantOverlap ::
  "'b pp_env \<Rightarrow> pp_state \<Rightarrow> nat \<Rightarrow> msg_self_pp \<Rightarrow> time \<Rightarrow> pp_error + unit" where
  "checkCreateParticipantOverlap X s schema m effectiveFrom =
     bindE (corpIDFromAccount X (sf_corporation m)) (\<lambda>corp.
     if list_ex (\<lambda>p. same_context schema (sf_role m) (sf_validator m) corp p \<and> \<not> withdrawn p \<and>
          blocks_period (Some effectiveFrom) (sf_until m) p) (walk (pps_participants s))
     then Inl Pp_Overlap else Inr ())"

definition assertDIDCorporationConsistent :: "pp_state \<Rightarrow> string \<Rightarrow> nat \<Rightarrow> pp_error + unit" where
  "assertDIDCorporationConsistent s did corporationID =
     (if did = [] then Inr ()
      else if list_ex (\<lambda>p. pt_did p = did \<and> pt_corp p \<noteq> corporationID) (walk (pps_participants s))
        then Inl Pp_Did_Conflict
      else Inr ())"

section \<open>Ancestors\<close>

text \<open>The loop over the validators of a participant has no bound in the code; the model
  gives it as many rounds as there are participants, plus one.  A walk that needs more has
  met a participant twice and never ends: it is the value \<open>Pp_Diverges\<close>.\<close>

definition chain_fuel :: "pp_state \<Rightarrow> nat" where
  "chain_fuel s = Suc (length (walk (pps_participants s)))"

primrec ancestor_search :: "nat \<Rightarrow> pp_state \<Rightarrow> time \<Rightarrow> nat \<Rightarrow> nat \<Rightarrow> pp_error + bool" where
  "ancestor_search 0 s now corp i = (if i = 0 then Inr False else Inl Pp_Diverges)"
| "ancestor_search (Suc n) s now corp i =
     (if i = 0 then Inr False
      else case kget (pps_participants s) i of
        None \<Rightarrow> Inr False
      | Some v \<Rightarrow>
          if IsValidParticipant v now = Inr () \<and> pt_corp v = corp then Inr True
          else ancestor_search n s now corp (pt_validator v))"

definition checkValidatorAncestorOption ::
  "'b pp_env \<Rightarrow> pp_state \<Rightarrow> string \<Rightarrow> participant \<Rightarrow> pp_error + bool" where
  "checkValidatorAncestorOption X s authority a =
     (if pt_validator a = 0 then Inr False
      else case corpIDFromAccount X authority of
        Inl _ \<Rightarrow> Inr False
      | Inr corp \<Rightarrow> ancestor_search (chain_fuel s) s (pp_now X) corp (pt_validator a))"

definition checkEcosystemControllerOption :: "'b pp_env \<Rightarrow> string \<Rightarrow> participant \<Rightarrow> bool" where
  "checkEcosystemControllerOption X authority a =
     (case GetCredentialSchemaById (pe_cs X) (pt_schema_id a) of
        None \<Rightarrow> False
      | Some c \<Rightarrow> (case ec_GetEcosystem (pe_ec X) (csm_ecosystem_id c) of
          None \<Rightarrow> False
        | Some ec \<Rightarrow> (case kget (cos_by_policy (pe_co X)) authority of
            None \<Rightarrow> False
          | Some co \<Rightarrow> ec_corporation_id ec = co)))"

end
