(* ===== verification/Participant_Msgs.thy ===== *)
theory Participant_Msgs
imports Participant_Checks
begin

text \<open>
  The participant messages except sessions (keeper/msg_server.go,
  keeper/start_participant_op.go, keeper/participant_validated.go).  A handler takes the
  world and returns the new one; a participant that a handler passes by value keeps its
  old fields in the caller, as in the code.
\<close>

section \<open>Starting and renewing an onboarding process\<close>

text \<open>Deposit and fees are taken from the account of the corporation, the fees into the
  escrow of the module.\<close>

definition take_deposit :: "'b pp_env \<Rightarrow> 'b pp_world \<Rightarrow> string \<Rightarrow> int \<Rightarrow> pp_error + 'b pp_world" where
  "take_deposit X w account deposit =
     (if 0 < deposit then bindE (uint64ToInt64 deposit) (adjust_deposit X w account) else Inr w)"

definition take_fees :: "'b pp_env \<Rightarrow> 'b pp_world \<Rightarrow> string \<Rightarrow> int \<Rightarrow> pp_error + 'b pp_world" where
  "take_fees X w account fees =
     (if 0 < fees then
        bindE (optE Pp_Bad_Address (se_from_bech32 (pe_sdk X) account)) (\<lambda>addr.
        bindE (uint64ToInt64 fees) (escrow_in X w addr))
      else Inr w)"

definition optional_value :: "int option \<Rightarrow> int" where
  "optional_value v = (case v of None \<Rightarrow> 0 | Some n \<Rightarrow> n)"

definition new_applicant :: "time \<Rightarrow> msg_start_op \<Rightarrow> participant \<Rightarrow> nat \<Rightarrow> int \<Rightarrow> int \<Rightarrow> participant" where
  "new_applicant now m validator corp fees deposit =
     blank_participant\<lparr>pt_corp := corp, pt_role := sp_role m, pt_schema_id := pt_schema_id validator,
       pt_did := sp_did m, pt_vs_operator := vr_operator (sp_vs m), pt_created := Some now,
       pt_modified := Some now, pt_deposit := deposit,
       pt_validation_fees := optional_value (sp_validation_fees m),
       pt_issuance_fees := optional_value (sp_issuance_fees m),
       pt_verification_fees := optional_value (sp_verification_fees m),
       pt_validator := sp_validator m, pt_op_last_change := Some now, pt_op_state := PENDING,
       pt_op_current_fees := fees, pt_op_current_deposit := deposit\<rparr>"

definition executeStartParticipantVP ::
  "'b pp_env \<Rightarrow> 'b pp_world \<Rightarrow> msg_start_op \<Rightarrow> participant \<Rightarrow> int \<Rightarrow> int \<Rightarrow> pp_error + nat \<times> 'b pp_world" where
  "executeStartParticipantVP X w m validator fees deposit =
     bindE (take_deposit X w (sp_corporation m) deposit) (\<lambda>w1.
     bindE (take_fees X w1 (sp_corporation m) fees) (\<lambda>w2.
     bindE (corpIDFromAccount X (sp_corporation m)) (\<lambda>corp.
     bindE (assertDIDCorporationConsistent (pw_pp w2) (sp_did m) corp) (\<lambda>_.
     let (i, w3) = create_in w2 (new_applicant (pp_now X) m validator corp fees deposit) in
     bindE (grant_vs_request X w3 corp (sp_vs m) i (Some (pp_now X))) (\<lambda>w4. Inr (i, w4))))))"

definition StartParticipantOP :: "'b pp_env \<Rightarrow> 'b pp_world \<Rightarrow> msg_start_op \<Rightarrow> pp_error + nat \<times> 'b pp_world" where
  "StartParticipantOP X w m =
     bindE (pp_authorize X w (sp_corporation m) (sp_operator m) ''/verana.pp.v1.MsgStartParticipantOP'') (\<lambda>_.
     bindE (validateParticipantChecks X w m) (\<lambda>validator.
     bindE (corpIDFromAccount X (sp_corporation m)) (\<lambda>corp.
     bindE (checkOverlap (pw_pp w) (pt_schema_id validator) (sp_role m) (sp_validator m) corp) (\<lambda>_.
     bindE (validateAndCalculateFees X w validator) (\<lambda>(fees, deposit).
     executeStartParticipantVP X w m validator fees deposit)))))"

definition executeRenewParticipantVP ::
  "'b pp_env \<Rightarrow> 'b pp_world \<Rightarrow> participant \<Rightarrow> int \<Rightarrow> int \<Rightarrow> pp_error + 'b pp_world" where
  "executeRenewParticipantVP X w p fees deposit =
     bindE (corpAccountFromID X (pt_corp p)) (\<lambda>acct.
     bindE (take_deposit X w acct deposit) (\<lambda>w1.
     bindE (take_fees X w1 acct fees) (\<lambda>w2.
     Inr (update_in w2 (p\<lparr>pt_op_state := PENDING, pt_op_last_change := Some (pp_now X),
            pt_deposit := u64 (pt_deposit p + deposit), pt_op_current_fees := fees,
            pt_op_current_deposit := deposit, pt_modified := Some (pp_now X)\<rparr>)))))"

text \<open>The participant named by the message, which must belong to the signer.\<close>

definition own_participant :: "'b pp_env \<Rightarrow> 'b pp_world \<Rightarrow> nat \<Rightarrow> string \<Rightarrow> pp_error + participant" where
  "own_participant X w i corporation =
     bindE (GetParticipantByID (pw_pp w) i) (\<lambda>p.
     bindE (corpAccountFromID X (pt_corp p)) (\<lambda>acct.
     if acct \<noteq> corporation then Inl Pp_Not_Authority else Inr p))"

definition RenewParticipantOP :: "'b pp_env \<Rightarrow> 'b pp_world \<Rightarrow> msg_on_participant \<Rightarrow> pp_error + 'b pp_world" where
  "RenewParticipantOP X w m =
     bindE (pp_authorize X w (op_corporation m) (op_operator m) ''/verana.pp.v1.MsgRenewParticipantOP'') (\<lambda>_.
     bindE (own_participant X w (op_id m) (op_corporation m)) (\<lambda>p.
     if pt_op_state p \<noteq> VALIDATED then Inl Pp_Op_State
     else
       bindE (IsValidParticipant p (pp_now X)) (\<lambda>_.
       bindE (GetParticipantByID (pw_pp w) (pt_validator p)) (\<lambda>v.
       bindE (IsValidParticipant v (pp_now X)) (\<lambda>_.
       bindE (validateAndCalculateFees X w v) (\<lambda>(fees, deposit).
       executeRenewParticipantVP X w p fees deposit))))))"

section \<open>Validation\<close>

text \<open>The discounts of a first validation: at most 100 per cent, only in the roles and
  modes that pay through a validator, and for a validated grantee at most the discount of
  its grantor.\<close>

definition discount_allowed :: "int \<Rightarrow> int \<Rightarrow> int \<Rightarrow> int \<Rightarrow> int \<Rightarrow> int \<Rightarrow> pp_error + unit" where
  "discount_allowed discount mode role grantor member validatorDiscount =
     (if maxDiscount < discount then Inl Pp_Discount
      else if 0 < discount then
        (if mode = MODE_GRANTOR then
           (if role = grantor then Inr ()
            else if role = member then
              (if 0 < validatorDiscount \<and> validatorDiscount < discount then Inl Pp_Discount else Inr ())
            else Inl Pp_Discount_Mode)
         else if mode = MODE_ECOSYSTEM then
           (if role = member then Inr () else Inl Pp_Discount_Mode)
         else Inl Pp_Discount_Mode)
      else Inr ())"

definition check_discounts :: "participant \<Rightarrow> participant \<Rightarrow> cred_schema \<Rightarrow> msg_validate_op \<Rightarrow> pp_error + unit" where
  "check_discounts p v c m =
     (if pt_from p \<noteq> None then
        (if vd_issuance_discount m \<noteq> pt_issuance_discount p then Inl Pp_Renewal_Change
         else if vd_verification_discount m \<noteq> pt_verification_discount p then Inl Pp_Renewal_Change
         else Inr ())
      else
        bindE (discount_allowed (vd_issuance_discount m) (csm_issuer_mode c) (pt_role p)
                 ISSUER_GRANTOR ISSUER (pt_issuance_discount v)) (\<lambda>_.
        discount_allowed (vd_verification_discount m) (csm_verifier_mode c) (pt_role p)
                 VERIFIER_GRANTOR VERIFIER (pt_verification_discount v)))"

definition choose_until :: "time \<Rightarrow> participant \<Rightarrow> time option \<Rightarrow> time option \<Rightarrow> pp_error + time option" where
  "choose_until now p requested vpExp =
     (case requested of
        None \<Rightarrow> Inr vpExp
      | Some u \<Rightarrow>
          if \<not> (case pt_until p of None \<Rightarrow> now | Some e \<Rightarrow> e) < u then Inl Pp_Period
          else if (case vpExp of None \<Rightarrow> False | Some x \<Rightarrow> x < u) then Inl Pp_Period
          else Inr (Some u))"

definition validated_participant ::
  "time \<Rightarrow> participant \<Rightarrow> msg_validate_op \<Rightarrow> time option \<Rightarrow> time option \<Rightarrow> participant" where
  "validated_participant now p m vpExp effectiveUntil =
     (let q = p\<lparr>pt_modified := Some now, pt_op_state := VALIDATED, pt_op_last_change := Some now,
                pt_op_digest := vd_digest m, pt_op_exp := vpExp, pt_until := effectiveUntil\<rparr>
      in if pt_from p = None then
           q\<lparr>pt_validation_fees := vd_validation_fees m, pt_issuance_fees := vd_issuance_fees m,
             pt_verification_fees := vd_verification_fees m, pt_issuance_discount := vd_issuance_discount m,
             pt_verification_discount := vd_verification_discount m, pt_from := Some now\<rparr>
         else q)"

definition pay_escrow :: "'b pp_env \<Rightarrow> 'b pp_world \<Rightarrow> string \<Rightarrow> int \<Rightarrow> pp_error + 'b pp_world" where
  "pay_escrow X w account fees =
     (if 0 < fees then
        bindE (optE Pp_Bad_Address (se_from_bech32 (pe_sdk X) account)) (\<lambda>addr.
        bindE (uint64ToInt64 fees) (escrow_out X w addr))
      else Inr w)"

definition executeSetParticipantVPToValidated ::
  "'b pp_env \<Rightarrow> 'b pp_world \<Rightarrow> participant \<Rightarrow> participant \<Rightarrow> msg_validate_op \<Rightarrow> time option \<Rightarrow> time option
     \<Rightarrow> pp_error + 'b pp_world" where
  "executeSetParticipantVPToValidated X w p v m vpExp effectiveUntil =
     (if pt_slashed p \<noteq> None \<and> pt_repaid p = None then Inl Pp_Slashed
      else
        (let q = validated_participant (pp_now X) p m vpExp effectiveUntil in
         bindE (corpAccountFromID X (pt_corp v)) (\<lambda>validatorAcct.
         bindE (pay_escrow X w validatorAcct (pt_op_current_fees p)) (\<lambda>w1.
         bindE (take_deposit X w1 validatorAcct (pt_op_current_deposit p)) (\<lambda>w2.
         let q' = q\<lparr>pt_op_validator_deposit :=
                       (if 0 < pt_op_current_deposit p
                        then u64 (pt_op_validator_deposit p + pt_op_current_deposit p)
                        else pt_op_validator_deposit p),
                     pt_op_current_fees := 0, pt_op_current_deposit := 0\<rparr>;
             w3 = update_in w2 q'
         in case pt_until q' of
              None \<Rightarrow> Inr w3
            | Some u \<Rightarrow> set_vs_expiration X w3 (pt_id q') u)))))"

definition SetParticipantOPToValidated :: "'b pp_env \<Rightarrow> 'b pp_world \<Rightarrow> msg_validate_op \<Rightarrow> pp_error + 'b pp_world" where
  "SetParticipantOPToValidated X w m =
     bindE (pp_authorize X w (vd_corporation m) (vd_operator m)
              ''/verana.pp.v1.MsgSetParticipantOPToValidated'') (\<lambda>_.
     bindE (GetParticipantByID (pw_pp w) (vd_id m)) (\<lambda>p.
     if pt_op_state p \<noteq> PENDING then Inl Pp_Op_State
     else if pt_from p \<noteq> None \<and> vd_validation_fees m \<noteq> pt_validation_fees p then Inl Pp_Renewal_Change
     else if pt_from p \<noteq> None \<and> vd_issuance_fees m \<noteq> pt_issuance_fees p then Inl Pp_Renewal_Change
     else if pt_from p \<noteq> None \<and> vd_verification_fees m \<noteq> pt_verification_fees p then Inl Pp_Renewal_Change
     else if pt_role p = HOLDER \<and> vd_digest m \<noteq> [] then Inl Pp_Digest
     else
       bindE (get_schema X (pt_schema_id p)) (\<lambda>c.
       bindE (GetParticipantByID (pw_pp w) (pt_validator p)) (\<lambda>v.
       bindE (check_discounts p v c m) (\<lambda>_.
       let vpExp = calculateVPExp (pt_op_exp p) (getValidityPeriod (pt_role p) c) (pp_now X) in
       bindE (choose_until (pp_now X) p (vd_until m) vpExp) (\<lambda>effectiveUntil.
       bindE (IsValidParticipant v (pp_now X)) (\<lambda>_.
       bindE (corpAccountFromID X (pt_corp v)) (\<lambda>validatorAcct.
       if validatorAcct \<noteq> vd_corporation m then Inl Pp_Not_Authority
       else
         bindE (checkValidatedOverlap (pw_pp w) (pp_now X) p effectiveUntil) (\<lambda>_.
         executeSetParticipantVPToValidated X w p v m vpExp effectiveUntil)))))))))"

section \<open>Cancellation\<close>

definition executeCancelParticipantVPLastRequest ::
  "'b pp_env \<Rightarrow> 'b pp_world \<Rightarrow> participant \<Rightarrow> pp_error + 'b pp_world" where
  "executeCancelParticipantVPLastRequest X w p =
     bindE (corpAccountFromID X (pt_corp p)) (\<lambda>acct.
     let terminated = (pt_op_exp p = None);
         q = p\<lparr>pt_modified := Some (pp_now X), pt_op_last_change := Some (pp_now X),
               pt_op_state := (if terminated then TERMINATED else VALIDATED)\<rparr>
     in
     bindE (if terminated then revokeVSOperatorAuthorization X w q else Inr w) (\<lambda>w1.
     bindE (pay_escrow X w1 acct (pt_op_current_fees p)) (\<lambda>w2.
     bindE (if 0 < pt_op_current_deposit p
            then bindE (uint64ToInt64 (pt_op_current_deposit p)) (\<lambda>d. adjust_deposit X w2 acct (i64 (- d)))
            else Inr w2) (\<lambda>w3.
     Inr (update_in w3 (q\<lparr>pt_op_current_fees := (if 0 < pt_op_current_fees p then 0 else pt_op_current_fees p),
            pt_op_current_deposit := (if 0 < pt_op_current_deposit p then 0 else pt_op_current_deposit p)\<rparr>))))))"

definition CancelParticipantOPLastRequest ::
  "'b pp_env \<Rightarrow> 'b pp_world \<Rightarrow> msg_on_participant \<Rightarrow> pp_error + 'b pp_world" where
  "CancelParticipantOPLastRequest X w m =
     bindE (pp_authorize X w (op_corporation m) (op_operator m)
              ''/verana.pp.v1.MsgCancelParticipantOPLastRequest'') (\<lambda>_.
     bindE (own_participant X w (op_id m) (op_corporation m)) (\<lambda>p.
     if pt_op_state p \<noteq> PENDING then Inl Pp_Op_State
     else if pt_slashed p \<noteq> None \<and> pt_repaid p = None then Inl Pp_Slashed
     else executeCancelParticipantVPLastRequest X w p))"

section \<open>Root participants\<close>

definition validateCreateRootParticipantBasicChecks ::
  "'b pp_env \<Rightarrow> msg_root_pp \<Rightarrow> pp_error + unit" where
  "validateCreateRootParticipantBasicChecks X m =
     bindE (get_schema X (rt_schema_id m)) (\<lambda>_.
     case rt_from m of
       None \<Rightarrow> Inl Pp_Period
     | Some f \<Rightarrow>
         if \<not> pp_now X < f then Inl Pp_Period
         else if (case rt_until m of None \<Rightarrow> False | Some u \<Rightarrow> \<not> f < u) then Inl Pp_Period
         else Inr ())"

definition validateCreateRootParticipantAuthority :: "'b pp_env \<Rightarrow> msg_root_pp \<Rightarrow> pp_error + unit" where
  "validateCreateRootParticipantAuthority X m =
     bindE (get_schema X (rt_schema_id m)) (\<lambda>c.
     bindE (optE Pp_Ecosystem (ec_GetEcosystem (pe_ec X) (csm_ecosystem_id c))) (\<lambda>ec.
     bindE (optE Pp_Not_Registered (kget (cos_by_policy (pe_co X)) (rt_corporation m))) (\<lambda>co.
     if ec_corporation_id ec \<noteq> co then Inl Pp_Not_Authority else Inr ())))"

definition new_root :: "time \<Rightarrow> msg_root_pp \<Rightarrow> nat \<Rightarrow> participant" where
  "new_root now m corp =
     blank_participant\<lparr>pt_schema_id := rt_schema_id m, pt_modified := Some now, pt_role := ECOSYSTEM,
       pt_did := rt_did m, pt_corp := corp, pt_vs_operator := vr_operator (rt_vs m),
       pt_created := Some now, pt_from := rt_from m, pt_until := rt_until m,
       pt_validation_fees := rt_validation_fees m, pt_issuance_fees := rt_issuance_fees m,
       pt_verification_fees := rt_verification_fees m\<rparr>"

definition executeCreateRootParticipant ::
  "'b pp_env \<Rightarrow> 'b pp_world \<Rightarrow> msg_root_pp \<Rightarrow> pp_error + nat \<times> 'b pp_world" where
  "executeCreateRootParticipant X w m =
     bindE (corpIDFromAccount X (rt_corporation m)) (\<lambda>corp.
     bindE (assertDIDCorporationConsistent (pw_pp w) (rt_did m) corp) (\<lambda>_.
     let (i, w1) = create_in w (new_root (pp_now X) m corp) in
     bindE (grant_vs_request X w1 corp (rt_vs m) i (rt_until m)) (\<lambda>w2. Inr (i, w2))))"

definition CreateRootParticipant :: "'b pp_env \<Rightarrow> 'b pp_world \<Rightarrow> msg_root_pp \<Rightarrow> pp_error + nat \<times> 'b pp_world" where
  "CreateRootParticipant X w m =
     bindE (pp_authorize X w (rt_corporation m) (rt_operator m) ''/verana.pp.v1.MsgCreateRootParticipant'') (\<lambda>_.
     bindE (validateCreateRootParticipantBasicChecks X m) (\<lambda>_.
     bindE (validateCreateRootParticipantAuthority X m) (\<lambda>_.
     bindE (checkCreateRootParticipantOverlap X (pw_pp w) m) (\<lambda>_.
     executeCreateRootParticipant X w m))))"

end
