(* ===== verification/Participant_Lifecycle.thy ===== *)
theory Participant_Lifecycle
imports Participant_Msgs
begin

text \<open>
  The messages that adjust, revoke, slash, repay and self-create participants
  (keeper/msg_server.go) and the parameter update (keeper/msg_update_params.go).
\<close>

section \<open>Adjusting the end of a participant\<close>

definition validateAdjustParticipantBasicChecks ::
  "'b pp_env \<Rightarrow> 'b pp_world \<Rightarrow> msg_set_until \<Rightarrow> pp_error + participant" where
  "validateAdjustParticipantBasicChecks X w m =
     bindE (GetParticipantByID (pw_pp w) (su_id m)) (\<lambda>p.
     bindE (IsValidParticipant p (pp_now X)) (\<lambda>_.
     case su_until m of
       None \<Rightarrow> Inl Pp_Panic
     | Some u \<Rightarrow> if \<not> pp_now X < u then Inl Pp_Period else Inr p))"

definition validateAdjustParticipantAdvancedChecks ::
  "'b pp_env \<Rightarrow> 'b pp_world \<Rightarrow> msg_set_until \<Rightarrow> participant \<Rightarrow> pp_error + unit" where
  "validateAdjustParticipantAdvancedChecks X w m p =
     bindE (corpIDFromAccount X (su_corporation m)) (\<lambda>corp.
     if pt_validator p = 0 \<and> pt_role p = ECOSYSTEM then
       (if pt_corp p \<noteq> corp then Inl Pp_Not_Authority else Inr ())
     else if pt_validator p \<noteq> 0 then
       bindE (GetParticipantByID (pw_pp w) (pt_validator p)) (\<lambda>v.
       bindE (IsValidParticipant v (pp_now X)) (\<lambda>_.
       if pt_role v = ECOSYSTEM then
         (if pt_corp p \<noteq> corp then Inl Pp_Not_Authority else Inr ())
       else if (case (pt_op_exp p, su_until m) of (Some x, Some u) \<Rightarrow> x < u | _ \<Rightarrow> False) then Inl Pp_Period
       else if pt_corp v \<noteq> corp then Inl Pp_Not_Authority
       else Inr ()))
     else Inl Pp_Configuration)"

definition executeAdjustParticipant ::
  "'b pp_env \<Rightarrow> 'b pp_world \<Rightarrow> participant \<Rightarrow> time option \<Rightarrow> 'b pp_world" where
  "executeAdjustParticipant X w p effectiveUntil =
     update_in w (p\<lparr>pt_until := effectiveUntil, pt_adjusted := Some (pp_now X), pt_modified := Some (pp_now X)\<rparr>)"

text \<open>The authorization record is synchronized with the end the participant had before
  the message, when it had one.\<close>

definition SetParticipantEffectiveUntil :: "'b pp_env \<Rightarrow> 'b pp_world \<Rightarrow> msg_set_until \<Rightarrow> pp_error + 'b pp_world" where
  "SetParticipantEffectiveUntil X w m =
     bindE (pp_authorize X w (su_corporation m) (su_operator m)
              ''/verana.pp.v1.MsgSetParticipantEffectiveUntil'') (\<lambda>_.
     bindE (validateAdjustParticipantBasicChecks X w m) (\<lambda>p.
     bindE (validateAdjustParticipantAdvancedChecks X w m p) (\<lambda>_.
     bindE (checkAdjustParticipantOverlap (pw_pp w) p (su_until m)) (\<lambda>_.
     let w1 = executeAdjustParticipant X w p (su_until m) in
     case pt_until p of
       None \<Rightarrow> Inr w1
     | Some u \<Rightarrow> set_vs_expiration X w1 (pt_id p) u))))"

section \<open>Revocation\<close>

definition validateRevokeParticipantBasicChecks ::
  "'b pp_env \<Rightarrow> 'b pp_world \<Rightarrow> msg_on_participant \<Rightarrow> pp_error + participant" where
  "validateRevokeParticipantBasicChecks X w m =
     bindE (GetParticipantByID (pw_pp w) (op_id m)) (\<lambda>p.
     bindE (IsValidParticipant p (pp_now X)) (\<lambda>_. Inr p))"

definition validateRevokeParticipantAdvancedChecks ::
  "'b pp_env \<Rightarrow> 'b pp_world \<Rightarrow> msg_on_participant \<Rightarrow> participant \<Rightarrow> pp_error + unit" where
  "validateRevokeParticipantAdvancedChecks X w m p =
     bindE (checkValidatorAncestorOption X (pw_pp w) (op_corporation m) p) (\<lambda>ancestor.
     if ancestor then Inr ()
     else if checkEcosystemControllerOption X (op_corporation m) p then Inr ()
     else if corpIDFromAccount X (op_corporation m) = Inr (pt_corp p) then Inr ()
     else Inl Pp_Not_Authority)"

text \<open>The deposit is converted to \<open>int64\<close> without a check.\<close>

definition executeRevokeParticipant :: "'b pp_env \<Rightarrow> 'b pp_world \<Rightarrow> participant \<Rightarrow> pp_error + 'b pp_world" where
  "executeRevokeParticipant X w p =
     bindE (if 0 < pt_deposit p then
         bindE (corpAccountFromID X (pt_corp p)) (\<lambda>acct.
         bindE (adjust_deposit X w acct (i64 (- i64 (pt_deposit p)))) (\<lambda>w1.
         Inr (w1, p\<lparr>pt_deposit := 0\<rparr>)))
       else Inr (w, p)) (\<lambda>(w1, q).
     Inr (update_in w1 (q\<lparr>pt_revoked := Some (pp_now X), pt_modified := Some (pp_now X)\<rparr>)))"

definition drop_vs_of_member :: "'b pp_env \<Rightarrow> 'b pp_world \<Rightarrow> participant \<Rightarrow> pp_error + 'b pp_world" where
  "drop_vs_of_member X w p =
     (if pt_role p = ISSUER \<or> pt_role p = VERIFIER then revokeVSOperatorAuthorization X w p else Inr w)"

definition RevokeParticipant :: "'b pp_env \<Rightarrow> 'b pp_world \<Rightarrow> msg_on_participant \<Rightarrow> pp_error + 'b pp_world" where
  "RevokeParticipant X w m =
     bindE (pp_authorize X w (op_corporation m) (op_operator m) ''/verana.pp.v1.MsgRevokeParticipant'') (\<lambda>_.
     bindE (validateRevokeParticipantBasicChecks X w m) (\<lambda>p.
     bindE (validateRevokeParticipantAdvancedChecks X w m p) (\<lambda>_.
     bindE (executeRevokeParticipant X w p) (\<lambda>w1.
     drop_vs_of_member X w1 p))))"

section \<open>Slashing and repaying\<close>

definition validateSlashParticipantBasicChecks ::
  "'b pp_world \<Rightarrow> msg_slash_pp \<Rightarrow> pp_error + participant" where
  "validateSlashParticipantBasicChecks w m =
     bindE (GetParticipantByID (pw_pp w) (sh_id m)) (\<lambda>p.
     if pt_deposit p < sh_amount m then Inl Pp_Amount else Inr p)"

definition validateSlashParticipantValidatorParticipants ::
  "'b pp_env \<Rightarrow> 'b pp_world \<Rightarrow> msg_slash_pp \<Rightarrow> participant \<Rightarrow> pp_error + unit" where
  "validateSlashParticipantValidatorParticipants X w m p =
     bindE (checkValidatorAncestorOption X (pw_pp w) (sh_corporation m) p) (\<lambda>ancestor.
     if ancestor then Inr ()
     else if checkEcosystemControllerOption X (sh_corporation m) p then Inr ()
     else Inl Pp_Not_Authority)"

definition executeSlashParticipantTrustDeposit ::
  "'b pp_env \<Rightarrow> 'b pp_world \<Rightarrow> participant \<Rightarrow> int \<Rightarrow> pp_error + 'b pp_world" where
  "executeSlashParticipantTrustDeposit X w p amount =
     bindE (if pt_validator p \<noteq> 0 then bindE (GetParticipantByID (pw_pp w) (pt_validator p)) (\<lambda>_. Inr ())
            else Inr ()) (\<lambda>_.
     bindE (corpAccountFromID X (pt_corp p)) (\<lambda>acct.
     bindE (burn_deposit X w acct amount) (\<lambda>w1.
     Inr (update_in w1 (p\<lparr>pt_slashed := Some (pp_now X), pt_modified := Some (pp_now X),
            pt_slashed_deposit := u64 (pt_slashed_deposit p + amount),
            pt_deposit := u64 (pt_deposit p - amount)\<rparr>)))))"

definition SlashParticipantTrustDeposit :: "'b pp_env \<Rightarrow> 'b pp_world \<Rightarrow> msg_slash_pp \<Rightarrow> pp_error + 'b pp_world" where
  "SlashParticipantTrustDeposit X w m =
     bindE (pp_authorize X w (sh_corporation m) (sh_operator m)
              ''/verana.pp.v1.MsgSlashParticipantTrustDeposit'') (\<lambda>_.
     bindE (validateSlashParticipantBasicChecks w m) (\<lambda>p.
     bindE (validateSlashParticipantValidatorParticipants X w m p) (\<lambda>_.
     bindE (executeSlashParticipantTrustDeposit X w p (sh_amount m)) (\<lambda>w1.
     drop_vs_of_member X w1 p))))"

definition repaid_participant :: "time \<Rightarrow> participant \<Rightarrow> int \<Rightarrow> participant" where
  "repaid_participant now p amount =
     (let q = p\<lparr>pt_modified := Some now, pt_repaid_deposit := u64 (pt_repaid_deposit p + amount),
                pt_deposit := u64 (pt_deposit p + amount)\<rparr>
      in if pt_slashed_deposit q \<le> pt_repaid_deposit q then q\<lparr>pt_repaid := Some now\<rparr> else q)"

definition RepayParticipantSlashedTrustDeposit ::
  "'b pp_env \<Rightarrow> 'b pp_world \<Rightarrow> msg_repay_pp \<Rightarrow> pp_error + 'b pp_world" where
  "RepayParticipantSlashedTrustDeposit X w m =
     bindE (pp_authorize X w (rr_corporation m) (rr_operator m)
              ''/verana.pp.v1.MsgRepayParticipantSlashedTrustDeposit'') (\<lambda>_.
     bindE (own_participant X w (rr_id m) (rr_corporation m)) (\<lambda>p.
     if pt_slashed p = None then Inl Pp_Nothing_To_Repay
     else if pt_slashed_deposit p \<le> pt_repaid_deposit p then Inl Pp_Nothing_To_Repay
     else if pt_slashed_deposit p - pt_repaid_deposit p < rr_amount m then Inl Pp_Amount
     else
       bindE (optE Pp_Bad_Address (se_from_bech32 (pe_sdk X) (rr_corporation m))) (\<lambda>addr.
       bindE (uint64ToInt64 (rr_amount m)) (\<lambda>amount.
       if \<not> has_balance X w addr amount then Inl Pp_Funds
       else
         bindE (adjust_deposit X w (rr_corporation m) amount) (\<lambda>w1.
         Inr (update_in w1 (repaid_participant (pp_now X) p (rr_amount m))))))))"

section \<open>Self-created participants\<close>

definition root_usable :: "time \<Rightarrow> participant \<Rightarrow> pp_error + unit" where
  "root_usable now v =
     (if pt_role v \<noteq> ECOSYSTEM then Inl Pp_Role
      else if pt_revoked v \<noteq> None then Inl Pp_Revoked
      else if pt_slashed v \<noteq> None then Inl Pp_Slashed
      else if pt_repaid v \<noteq> None then Inl Pp_Repaid
      else if (case pt_until v of None \<Rightarrow> False | Some u \<Rightarrow> \<not> now < u) then Inl Pp_Expired
      else Inr ())"

text \<open>The chosen start of the participant.\<close>

definition self_period :: "time \<Rightarrow> participant \<Rightarrow> msg_self_pp \<Rightarrow> pp_error + time" where
  "self_period now v m =
     bindE (case sf_from m of
         None \<Rightarrow> Inr now
       | Some f \<Rightarrow>
           if \<not> now < f then Inl Pp_Period
           else if (case pt_from v of None \<Rightarrow> False | Some b \<Rightarrow> f < b) then Inl Pp_Period
           else if (case pt_until v of None \<Rightarrow> False | Some e \<Rightarrow> \<not> f < e) then Inl Pp_Period
           else Inr f) (\<lambda>effectiveFrom.
     case sf_until m of
       None \<Rightarrow> if pt_until v \<noteq> None then Inl Pp_Period else Inr effectiveFrom
     | Some u \<Rightarrow>
         if \<not> effectiveFrom < u then Inl Pp_Period
         else if (case pt_until v of None \<Rightarrow> False | Some e \<Rightarrow> e < u) then Inl Pp_Period
         else Inr effectiveFrom)"

definition self_mode :: "msg_self_pp \<Rightarrow> cred_schema \<Rightarrow> pp_error + unit" where
  "self_mode m c =
     (if sf_role m = ISSUER \<and> csm_issuer_mode c \<noteq> MODE_OPEN then Inl Pp_Mode
      else if sf_role m = VERIFIER then
        (if csm_verifier_mode c \<noteq> MODE_OPEN then Inl Pp_Mode
         else if 0 < sf_validation_fees m then Inl Pp_Fees
         else if 0 < sf_verification_fees m then Inl Pp_Fees
         else Inr ())
      else Inr ())"

definition new_self :: "time \<Rightarrow> msg_self_pp \<Rightarrow> participant \<Rightarrow> nat \<Rightarrow> time \<Rightarrow> participant" where
  "new_self now m v corp effectiveFrom =
     blank_participant\<lparr>pt_validator := sf_validator m, pt_schema_id := pt_schema_id v,
       pt_modified := Some now, pt_role := sf_role m, pt_did := sf_did m, pt_corp := corp,
       pt_vs_operator := vr_operator (sf_vs m), pt_created := Some now,
       pt_from := Some effectiveFrom, pt_until := sf_until m,
       pt_validation_fees := (if sf_role m = ISSUER then sf_validation_fees m else 0),
       pt_verification_fees := (if sf_role m = ISSUER then sf_verification_fees m else 0)\<rparr>"

definition SelfCreateParticipant :: "'b pp_env \<Rightarrow> 'b pp_world \<Rightarrow> msg_self_pp \<Rightarrow> pp_error + nat \<times> 'b pp_world" where
  "SelfCreateParticipant X w m =
     bindE (pp_authorize X w (sf_corporation m) (sf_operator m) ''/verana.pp.v1.MsgSelfCreateParticipant'') (\<lambda>_.
     bindE (GetParticipantByID (pw_pp w) (sf_validator m)) (\<lambda>v.
     bindE (root_usable (pp_now X) v) (\<lambda>_.
     bindE (self_period (pp_now X) v m) (\<lambda>effectiveFrom.
     if 0 < sf_verification_fees m \<and> sf_role m \<noteq> ISSUER then Inl Pp_Fees
     else if 0 < sf_validation_fees m \<and> sf_role m \<noteq> ISSUER then Inl Pp_Fees
     else
       bindE (get_schema X (pt_schema_id v)) (\<lambda>c.
       bindE (self_mode m c) (\<lambda>_.
       bindE (checkCreateParticipantOverlap X (pw_pp w) (pt_schema_id v) m effectiveFrom) (\<lambda>_.
       bindE (corpIDFromAccount X (sf_corporation m)) (\<lambda>corp.
       bindE (assertDIDCorporationConsistent (pw_pp w) (sf_did m) corp) (\<lambda>_.
       let (i, w1) = create_in w (new_self (pp_now X) m v corp effectiveFrom) in
       bindE (grant_vs_request X w1 corp (sf_vs m) i (sf_until m)) (\<lambda>w2. Inr (i, w2)))))))))))"

section \<open>Parameters\<close>

definition pp_params_validate :: "int \<Rightarrow> bool" where
  "pp_params_validate timeout \<longleftrightarrow> timeout \<noteq> 0"

definition pp_validate_update_params :: "sdk_env \<Rightarrow> string \<Rightarrow> int \<Rightarrow> pp_error + unit" where
  "pp_validate_update_params E authority timeout =
     (if \<not> valid_addr E authority then Inl Pp_Bad_Address
      else if \<not> pp_params_validate timeout then Inl Pp_Params else Inr ())"

definition pp_UpdateParams :: "string \<Rightarrow> pp_state \<Rightarrow> string \<Rightarrow> int \<Rightarrow> pp_error + pp_state" where
  "pp_UpdateParams authority s signer timeout =
     (if authority \<noteq> signer then Inl Pp_Signer else Inr (s\<lparr>pps_timeout_days := timeout\<rparr>))"

end
