(* ===== verification/Participant_Session.thy ===== *)
theory Participant_Session
imports Participant_Lifecycle
begin

text \<open>
  Participant sessions (keeper/csps.go): the preconditions, the participants that are paid
  for an issuance or a verification, the fees, and the payments.  \<open>uuid.Parse\<close> is a
  parameter.
\<close>

section \<open>Message and stateless validation\<close>

record msg_session =
  mn_corporation :: string
  mn_operator :: string
  mn_id :: string
  mn_issuer :: nat
  mn_verifier :: nat
  mn_agent :: nat
  mn_wallet_agent :: nat
  mn_digest :: string

definition validate_session :: "(string \<Rightarrow> bool) \<Rightarrow> sdk_env \<Rightarrow> msg_session \<Rightarrow> pp_error + unit" where
  "validate_session uuid_ok E m =
     bindE (signers_ok E (mn_corporation m) (mn_operator m)) (\<lambda>_.
     if \<not> uuid_ok (mn_id m) then Inl Pp_Uuid
     else if mn_issuer m = 0 \<and> mn_verifier m = 0 then Inl Pp_Zero_Id
     else if mn_agent m = 0 then Inl Pp_Zero_Id
     else if mn_wallet_agent m = 0 then Inl Pp_Zero_Id
     else if mn_digest m \<noteq> [] \<and> \<not> IsValidDigestSRI (mn_digest m) then Inl Pp_Digest
     else Inr ())"

section \<open>Preconditions\<close>

definition validateSessionAccess :: "'b pp_env \<Rightarrow> pp_state \<Rightarrow> msg_session \<Rightarrow> pp_error + unit" where
  "validateSessionAccess X s m =
     (case kget (pps_sessions s) (mn_id m) of
        None \<Rightarrow> Inr ()
      | Some session \<Rightarrow>
          bindE (corpIDFromAccount X (mn_corporation m)) (\<lambda>corp.
          if ss_corp session \<noteq> corp then Inl Pp_Session
          else if ss_vs_operator session \<noteq> mn_operator m then Inl Pp_Session else Inr ()))"

text \<open>A party of the session: in the given role, valid, operated by the signer's operator
  and owned by the signer.\<close>

definition session_party :: "'b pp_env \<Rightarrow> pp_state \<Rightarrow> msg_session \<Rightarrow> nat \<Rightarrow> int \<Rightarrow> pp_error + participant" where
  "session_party X s m i role =
     bindE (GetParticipantByID s i) (\<lambda>p.
     if pt_role p \<noteq> role then Inl Pp_Role
     else
       bindE (IsValidParticipant p (pp_now X)) (\<lambda>_.
       if pt_vs_operator p \<noteq> mn_operator m then Inl Pp_Vs_Operator
       else
         bindE (corpAccountFromID X (pt_corp p)) (\<lambda>acct.
         if acct \<noteq> mn_corporation m then Inl Pp_Not_Authority else Inr p)))"

definition session_agent :: "'b pp_env \<Rightarrow> pp_state \<Rightarrow> nat \<Rightarrow> pp_error + unit" where
  "session_agent X s i =
     bindE (GetParticipantByID s i) (\<lambda>p.
     if pt_role p \<noteq> ISSUER then Inl Pp_Not_Issuer
     else IsValidParticipant p (pp_now X))"

definition validateSessionPreconditions :: "'b pp_env \<Rightarrow> 'b pp_world \<Rightarrow> msg_session \<Rightarrow> pp_error + 'b pp_world" where
  "validateSessionPreconditions X w m =
     (let s = pw_pp w in
      if mn_issuer m = 0 \<and> mn_verifier m = 0 then Inl Pp_Zero_Id
      else
        bindE (validateSessionAccess X s m) (\<lambda>_.
        bindE (if mn_issuer m \<noteq> 0 then bindE (session_party X s m (mn_issuer m) ISSUER) (\<lambda>p. Inr (pt_id p))
               else Inr 0) (\<lambda>issuerId.
        bindE (if mn_verifier m \<noteq> 0 then bindE (session_party X s m (mn_verifier m) VERIFIER) (\<lambda>p. Inr (pt_id p))
               else Inr issuerId) (\<lambda>primaryId.
        bindE (corpIDFromAccount X (mn_corporation m)) (\<lambda>corp.
        bindE (liftE Pp_De (CheckVSOperatorAuthorizationOnParticipant (pp_now X) (pw_de w) corp (mn_operator m)
                 primaryId session_msg_type)) (\<lambda>de.
        bindE (session_agent X s (mn_agent m)) (\<lambda>_.
        bindE (session_agent X s (mn_wallet_agent m)) (\<lambda>_.
        Inr (w\<lparr>pw_de := de\<rparr>)))))))))"

section \<open>Beneficiaries\<close>

text \<open>The loop from a participant to its root, with the fuel of \<open>chain_fuel\<close>.\<close>

definition payable :: "participant \<Rightarrow> bool" where
  "payable p \<longleftrightarrow> pt_revoked p = None \<and> pt_slashed p = None"

definition contains_id :: "participant list \<Rightarrow> nat \<Rightarrow> bool" where
  "contains_id found i \<longleftrightarrow> list_ex (\<lambda>p. pt_id p = i) found"

primrec add_ancestors :: "nat \<Rightarrow> pp_state \<Rightarrow> participant list \<Rightarrow> nat \<Rightarrow> pp_error + participant list" where
  "add_ancestors 0 s found i = (if i = 0 then Inr found else Inl Pp_Diverges)"
| "add_ancestors (Suc n) s found i =
     (if i = 0 then Inr found
      else bindE (GetParticipantByID s i) (\<lambda>p.
        add_ancestors n s (if payable p \<and> \<not> contains_id found i then found @ [p] else found) (pt_validator p)))"

definition open_mode :: "cred_schema \<Rightarrow> nat \<Rightarrow> nat \<Rightarrow> bool" where
  "open_mode c issuerId verifierId \<longleftrightarrow>
     issuerId \<noteq> 0 \<and> csm_issuer_mode c = MODE_OPEN \<or> verifierId \<noteq> 0 \<and> csm_verifier_mode c = MODE_OPEN"

definition open_beneficiary :: "pp_state \<Rightarrow> nat \<Rightarrow> participant list" where
  "open_beneficiary s schema =
     (case find (\<lambda>p. pt_schema_id p = schema \<and> pt_role p = ECOSYSTEM \<and> payable p) (walk (pps_participants s)) of
        None \<Rightarrow> [] | Some p \<Rightarrow> [p])"

definition findBeneficiaries :: "'b pp_env \<Rightarrow> pp_state \<Rightarrow> nat \<Rightarrow> nat \<Rightarrow> pp_error + participant list" where
  "findBeneficiaries X s issuerId verifierId =
     bindE (if issuerId \<noteq> 0 then bindE (GetParticipantByID s issuerId) (\<lambda>p. Inr (pt_schema_id p))
            else if verifierId \<noteq> 0 then bindE (GetParticipantByID s verifierId) (\<lambda>p. Inr (pt_schema_id p))
            else Inl Pp_Zero_Id) (\<lambda>schema.
     bindE (get_schema X schema) (\<lambda>c.
     if open_mode c issuerId verifierId then Inr (open_beneficiary s schema)
     else
       bindE (if issuerId \<noteq> 0 then
                bindE (GetParticipantByID s issuerId) (\<lambda>p. add_ancestors (chain_fuel s) s [] (pt_validator p))
              else Inr []) (\<lambda>found.
       if verifierId \<noteq> 0 then
         (let found1 = (if issuerId \<noteq> 0 then
                (case kget (pps_participants s) issuerId of
                   None \<Rightarrow> found
                 | Some p \<Rightarrow> if pt_revoked p = None \<and> \<not> contains_id found issuerId then found @ [p] else found)
              else found)
          in bindE (GetParticipantByID s verifierId) (\<lambda>v. add_ancestors (chain_fuel s) s found1 (pt_validator v)))
       else Inr found)))"

section \<open>Fees\<close>

definition discountScale :: int where "discountScale = 10000"

definition session_fee :: "bool \<Rightarrow> participant \<Rightarrow> int" where
  "session_fee isVerification p = (if isVerification then pt_verification_fees p else pt_issuance_fees p)"

definition executor_discount :: "bool \<Rightarrow> participant \<Rightarrow> int" where
  "executor_discount isVerification p =
     (if isVerification then pt_verification_discount p else pt_issuance_discount p)"

text \<open>The discount in \<open>uint64\<close> arithmetic.\<close>

definition discounted :: "int \<Rightarrow> int \<Rightarrow> int" where
  "discounted fees discount =
     (if 0 < discount then u64 (fees * u64 (discountScale - discount)) div discountScale else fees)"

definition total_fees :: "bool \<Rightarrow> int \<Rightarrow> participant list \<Rightarrow> int" where
  "total_fees isVerification discount found =
     foldl (\<lambda>acc p. u64 (acc + discounted (session_fee isVerification p) discount)) 0 found"

definition trust_fees :: "'b pp_env \<Rightarrow> td_params \<Rightarrow> int \<Rightarrow> pp_error + int" where
  "trust_fees X tp beneficiaryFees =
     (let D = pe_dec X in
      bindE (optE Pp_Panic (dec_add D dec_one (tp_agent_reward_rate tp))) (\<lambda>m1.
      bindE (optE Pp_Panic (dec_add D m1 (tp_wallet_reward_rate tp))) (\<lambda>m2.
      bindE (optE Pp_Panic (dec_add D m2 (tp_rate tp))) (\<lambda>multiplier.
      bindE (optE Pp_Panic (dec_mul D (dec_of_int D beneficiaryFees) multiplier)) (\<lambda>f1.
      bindE (optE Pp_Panic (dec_mul D f1 (dec_of_int D (GetTrustUnitPrice (pe_ec X))))) (\<lambda>f2.
      if \<not> is_u64 (dec_truncate D f2) then Inl Pp_Fee_Overflow else Inr (dec_truncate D f2)))))))"

text \<open>The participant that executes the session pays: the verifier, or else the issuer.\<close>

definition executor_id :: "msg_session \<Rightarrow> nat" where
  "executor_id m = (if mn_verifier m \<noteq> 0 then mn_verifier m else mn_issuer m)"

definition validateSessionFees :: "'b pp_env \<Rightarrow> 'b pp_world \<Rightarrow> msg_session \<Rightarrow> pp_error + participant list" where
  "validateSessionFees X w m =
     bindE (findBeneficiaries X (pw_pp w) (mn_issuer m) (mn_verifier m)) (\<lambda>found.
     bindE (GetParticipantByID (pw_pp w) (executor_id m)) (\<lambda>executor.
     let isVerification = (mn_verifier m \<noteq> 0) in
     bindE (trust_fees X (tds_params (pw_td w))
              (total_fees isVerification (executor_discount isVerification executor) found)) (\<lambda>trustFees.
     bindE (optE Pp_Bad_Address (se_from_bech32 (pe_sdk X) (mn_corporation m))) (\<lambda>authorityAddr.
     bindE (uint64ToInt64 trustFees) (\<lambda>required.
     if \<not> has_balance X w authorityAddr required then Inl Pp_Funds else Inr found)))))"

section \<open>Payments\<close>

text \<open>An amount due splits into a part paid to the account and a part credited as trust
  deposit.\<close>

definition split_due :: "dec_ops \<Rightarrow> dec \<Rightarrow> dec \<Rightarrow> pp_error + int \<times> int" where
  "split_due D rate due =
     bindE (optE Pp_Panic (dec_mul D due rate)) (\<lambda>share.
     if \<not> is_u64 (dec_truncate D share) then Inl Pp_Fee_Overflow
     else if \<not> is_u64 (dec_truncate D due) then Inl Pp_Fee_Overflow
     else Inr (u64 (dec_truncate D due - dec_truncate D share), dec_truncate D share))"

definition pay_account :: "'b pp_env \<Rightarrow> 'b pp_world \<Rightarrow> string \<Rightarrow> string \<Rightarrow> int \<Rightarrow> pp_error + 'b pp_world" where
  "pay_account X w payer account amount =
     (if 0 < amount then
        bindE (optE Pp_Bad_Address (se_from_bech32 (pe_sdk X) account)) (\<lambda>addr.
        bindE (uint64ToInt64 amount) (send_coins X w payer addr))
      else Inr w)"

definition credit_deposit :: "participant \<Rightarrow> int \<Rightarrow> participant" where
  "credit_deposit p amount = p\<lparr>pt_deposit := u64 (pt_deposit p + amount)\<rparr>"

text \<open>One beneficiary: state of the loop are the world, the payer's own copy and the
  accumulated rewards of the two agents.\<close>

definition pay_beneficiary ::
  "'b pp_env \<Rightarrow> msg_session \<Rightarrow> string \<Rightarrow> td_params \<Rightarrow> int \<Rightarrow> participant
     \<Rightarrow> 'b pp_world \<times> participant \<times> dec \<times> dec \<Rightarrow> pp_error + 'b pp_world \<times> participant \<times> dec \<times> dec" where
  "pay_beneficiary X m authorityAddr tp discount p = (\<lambda>(w, payer, ua, wa).
     (let isVerification = (mn_verifier m \<noteq> 0); D = pe_dec X; fees = session_fee isVerification p in
      if 0 < fees then
        bindE (corpAccountFromID X (pt_corp p)) (\<lambda>acct.
        let native = dec_of_int D (discounted fees discount * GetTrustUnitPrice (pe_ec X)) in
        bindE (split_due D (tp_rate tp) native) (\<lambda>(toAccount, toDeposit).
        bindE (optE Pp_Panic (dec_mul D native (tp_agent_reward_rate tp))) (\<lambda>r1.
        bindE (optE Pp_Panic (dec_add D ua r1)) (\<lambda>ua'.
        bindE (optE Pp_Panic (dec_mul D native (tp_wallet_reward_rate tp))) (\<lambda>r2.
        bindE (optE Pp_Panic (dec_add D wa r2)) (\<lambda>wa'.
        bindE (pay_account X w authorityAddr acct toAccount) (\<lambda>w1.
        if 0 < toDeposit then
          bindE (uint64ToInt64 toDeposit) (\<lambda>d.
          bindE (adjust_on_behalf X w1 acct authorityAddr d) (\<lambda>w2.
          let w3 = update_in w2 (credit_deposit p toDeposit) in
          bindE (adjust_deposit X w3 (mn_corporation m) d) (\<lambda>w4.
          let payer' = credit_deposit payer toDeposit in
          Inr (update_in w4 payer', payer', ua', wa'))))
        else Inr (w1, payer, ua', wa'))))))))
      else Inr (w, payer, ua, wa)))"

text \<open>The reward of an agent, when there is one.\<close>

definition pay_reward ::
  "'b pp_env \<Rightarrow> 'b pp_world \<Rightarrow> string \<Rightarrow> dec \<Rightarrow> dec \<Rightarrow> nat \<Rightarrow> pp_error + 'b pp_world" where
  "pay_reward X w authorityAddr rate reward i =
     (if 0 < reward then
        bindE (GetParticipantByID (pw_pp w) i) (\<lambda>p.
        bindE (split_due (pe_dec X) rate reward) (\<lambda>(toAccount, toDeposit).
        bindE (corpAccountFromID X (pt_corp p)) (\<lambda>acct.
        bindE (pay_account X w authorityAddr acct toAccount) (\<lambda>w1.
        if 0 < toDeposit then
          bindE (uint64ToInt64 toDeposit) (\<lambda>d.
          bindE (adjust_on_behalf X w1 acct authorityAddr d) (\<lambda>w2.
          Inr (update_in w2 (credit_deposit p toDeposit))))
        else Inr w1))))
      else Inr w)"

definition pay_user_agent ::
  "'b pp_env \<Rightarrow> 'b pp_world \<Rightarrow> msg_session \<Rightarrow> string \<Rightarrow> dec \<Rightarrow> dec \<Rightarrow> pp_error + 'b pp_world" where
  "pay_user_agent X w m authorityAddr rate reward = pay_reward X w authorityAddr rate reward (mn_agent m)"

definition pay_wallet_agent ::
  "'b pp_env \<Rightarrow> 'b pp_world \<Rightarrow> msg_session \<Rightarrow> string \<Rightarrow> dec \<Rightarrow> dec \<Rightarrow> pp_error + 'b pp_world" where
  "pay_wallet_agent X w m authorityAddr rate reward = pay_reward X w authorityAddr rate reward (mn_wallet_agent m)"

section \<open>The session record\<close>

definition new_session_record :: "time \<Rightarrow> msg_session \<Rightarrow> pp_session \<Rightarrow> session_record" where
  "new_session_record now m session =
     \<lparr>sr_id = u64 (int (length (ss_records session)) + 1), sr_created = Some now, sr_issuer = mn_issuer m,
      sr_verifier = mn_verifier m, sr_wallet_agent = mn_wallet_agent m, sr_agent = mn_agent m\<rparr>"

definition createOrUpdateSession :: "'b pp_env \<Rightarrow> pp_state \<Rightarrow> msg_session \<Rightarrow> pp_error + pp_state" where
  "createOrUpdateSession X s m =
     bindE (corpIDFromAccount X (mn_corporation m)) (\<lambda>corp.
     let now = pp_now X;
         session = (case kget (pps_sessions s) (mn_id m) of
             None \<Rightarrow> \<lparr>ss_id = mn_id m, ss_corp = corp, ss_vs_operator = mn_operator m,
                      ss_created = Some now, ss_modified = Some now, ss_records = []\<rparr>
           | Some old \<Rightarrow> old\<lparr>ss_modified := Some now\<rparr>)
     in Inr (s\<lparr>pps_sessions := kset (pps_sessions s) (mn_id m)
               (session\<lparr>ss_records := ss_records session @ [new_session_record now m session]\<rparr>)\<rparr>))"

definition executeSession ::
  "'b pp_env \<Rightarrow> 'b pp_world \<Rightarrow> msg_session \<Rightarrow> participant list \<Rightarrow> pp_error + 'b pp_world" where
  "executeSession X w m found =
     (let isVerification = (mn_verifier m \<noteq> 0); tp = tds_params (pw_td w) in
      bindE (optE Pp_Bad_Address (se_from_bech32 (pe_sdk X) (mn_corporation m))) (\<lambda>authorityAddr.
      bindE (GetParticipantByID (pw_pp w) (executor_id m)) (\<lambda>payer.
      bindE (foldE (pay_beneficiary X m authorityAddr tp (executor_discount isVerification payer)) found
               (w, payer, 0, 0)) (\<lambda>(w1, payer', ua, wa).
      bindE (pay_user_agent X w1 m authorityAddr (tp_rate tp) ua) (\<lambda>w2.
      bindE (pay_wallet_agent X w2 m authorityAddr (tp_rate tp) wa) (\<lambda>w3.
      bindE (createOrUpdateSession X (pw_pp w3) m) (\<lambda>s4.
      let w4 = w3\<lparr>pw_pp := s4\<rparr> in
      if mn_digest m \<noteq> [] \<and> mn_issuer m \<noteq> 0 then
        bindE (liftE Pp_Di (StoreDigestModuleCall (pe_sdk X) (pw_di w4) (mn_corporation m) (mn_digest m)
                 ''sha2-256'')) (\<lambda>di.
        Inr (w4\<lparr>pw_di := di\<rparr>))
      else Inr w4)))))))"

definition CreateOrUpdateParticipantSession ::
  "'b pp_env \<Rightarrow> 'b pp_world \<Rightarrow> msg_session \<Rightarrow> pp_error + 'b pp_world" where
  "CreateOrUpdateParticipantSession X w m =
     bindE (validateSessionPreconditions X w m) (\<lambda>w1.
     bindE (validateSessionFees X w1 m) (\<lambda>found.
     executeSession X w1 m found))"

end
