(* ===== verification/Participant_Query.thy ===== *)
theory Participant_Query
imports Participant_Session
begin

text \<open>
  The participant queries (keeper/query.go) and genesis (types/genesis.go,
  module/genesis.go).
\<close>

section \<open>Lists\<close>

text \<open>\<open>Modified\<close> is a pointer: comparing a missing one panics.\<close>

definition modified_since :: "('a \<Rightarrow> time option) \<Rightarrow> time option \<Rightarrow> 'a \<Rightarrow> bool" where
  "modified_since modified since x =
     (case since of None \<Rightarrow> True | Some t \<Rightarrow> (case modified x of None \<Rightarrow> False | Some u \<Rightarrow> t < u))"

text \<open>The walk stops once it has enough entries; what it has collected is then ordered by
  the time of modification.\<close>

fun collect_modified :: "('a \<Rightarrow> time option) \<Rightarrow> time option \<Rightarrow> nat \<Rightarrow> 'a list \<Rightarrow> 'a list \<Rightarrow> pp_error + 'a list" where
  "collect_modified modified since n acc [] = Inr acc"
| "collect_modified modified since n acc (x # xs) =
     (if since \<noteq> None \<and> modified x = None then Inl Pp_Panic
      else if \<not> modified_since modified since x then collect_modified modified since n acc xs
      else if n \<le> length acc + 1 then Inr (acc @ [x])
      else collect_modified modified since n (acc @ [x]) xs)"

definition sorted_by_modified :: "('a \<Rightarrow> time option) \<Rightarrow> 'a list \<Rightarrow> pp_error + 'a list" where
  "sorted_by_modified modified xs =
     (if 2 \<le> length xs \<and> list_ex (\<lambda>x. modified x = None) xs then Inl Pp_Panic
      else Inr (sort_key (\<lambda>x. case modified x of None \<Rightarrow> 0 | Some t \<Rightarrow> t) xs))"

definition ListParticipants :: "pp_state \<Rightarrow> time option \<Rightarrow> nat \<Rightarrow> pp_error + participant list" where
  "ListParticipants s modifiedAfter maxSize =
     bindE (optE Pp_Query (query_limit maxSize)) (\<lambda>n.
     bindE (collect_modified pt_modified modifiedAfter n [] (walk (pps_participants s)))
       (sorted_by_modified pt_modified))"

definition GetParticipant :: "pp_state \<Rightarrow> nat \<Rightarrow> pp_error + participant" where
  "GetParticipant s i = (if i = 0 then Inl Pp_Query else GetParticipantByID s i)"

definition GetParticipantSession :: "pp_state \<Rightarrow> string \<Rightarrow> pp_error + pp_session" where
  "GetParticipantSession s i = (if i = [] then Inl Pp_Query else optE Pp_Query (kget (pps_sessions s) i))"

definition ListParticipantSessions :: "pp_state \<Rightarrow> time option \<Rightarrow> nat \<Rightarrow> pp_error + pp_session list" where
  "ListParticipantSessions s modifiedAfter maxSize =
     bindE (optE Pp_Query (query_limit maxSize)) (\<lambda>n.
     bindE (collect_modified ss_modified modifiedAfter n [] (walk (pps_sessions s)))
       (sorted_by_modified ss_modified))"

section \<open>Searches\<close>

definition isParticipantValidAtTime :: "participant \<Rightarrow> time \<Rightarrow> bool" where
  "isParticipantValidAtTime p t \<longleftrightarrow>
     pt_repaid p = None \<and> pt_slashed p = None \<and>
     (case pt_revoked p of None \<Rightarrow> True | Some r \<Rightarrow> \<not> r < t) \<and>
     (case pt_until p of None \<Rightarrow> True | Some u \<Rightarrow> t < u) \<and>
     (case pt_from p of None \<Rightarrow> False | Some f \<Rightarrow> \<not> t < f)"

definition valid_when :: "time option \<Rightarrow> participant \<Rightarrow> bool" where
  "valid_when t p = (case t of None \<Rightarrow> True | Some u \<Rightarrow> isParticipantValidAtTime p u)"

definition FindParticipantsWithDID ::
  "'b pp_env \<Rightarrow> pp_state \<Rightarrow> string \<Rightarrow> int \<Rightarrow> nat \<Rightarrow> time option \<Rightarrow> pp_error + participant list" where
  "FindParticipantsWithDID X s did role schema t =
     (if did = [] then Inl Pp_Did
      else if \<not> IsValidDID did then Inl Pp_Did
      else if role = 0 then Inl Pp_Role
      else if i32 role < ISSUER \<or> HOLDER < i32 role then Inl Pp_Role
      else if schema = 0 then Inl Pp_Zero_Id
      else
        bindE (get_schema X schema) (\<lambda>c.
        let isOpenMode = (i32 role = ISSUER \<and> csm_issuer_mode c = MODE_OPEN \<or>
                          i32 role = VERIFIER \<and> csm_verifier_mode c = MODE_OPEN);
            found = filter (\<lambda>p. pt_schema_id p = schema \<and> pt_did p = did \<and> pt_role p = i32 role \<and> valid_when t p)
                      (walk (pps_participants s))
        in if isOpenMode \<and> found = [] then
             (case find (\<lambda>p. pt_schema_id p = schema \<and> pt_role p = ECOSYSTEM \<and> valid_when t p)
                     (walk (pps_participants s)) of
                None \<Rightarrow> Inr []
              | Some p \<Rightarrow> Inr [p\<lparr>pt_op_digest := ''OPEN_MODE_IMPLICIT_PERMISSION''\<rparr>])
           else Inr found))"

text \<open>The query collects into a map by id; its answer lists the values in no particular
  order.\<close>

primrec collect_ancestors ::
  "nat \<Rightarrow> pp_state \<Rightarrow> (nat, participant) store \<Rightarrow> nat \<Rightarrow> pp_error + (nat, participant) store" where
  "collect_ancestors 0 s found i = (if i = 0 then Inr found else Inl Pp_Diverges)"
| "collect_ancestors (Suc n) s found i =
     (if i = 0 then Inr found
      else bindE (GetParticipantByID s i) (\<lambda>p.
        collect_ancestors n s (if payable p then kset found (pt_id p) p else found) (pt_validator p)))"

definition valid_party :: "'b pp_env \<Rightarrow> pp_state \<Rightarrow> nat \<Rightarrow> pp_error + participant option" where
  "valid_party X s i =
     (if i = 0 then Inr None
      else bindE (GetParticipantByID s i) (\<lambda>p.
           bindE (IsValidParticipant p (pp_now X)) (\<lambda>_. Inr (Some p))))"

definition FindBeneficiaries :: "'b pp_env \<Rightarrow> pp_state \<Rightarrow> nat \<Rightarrow> nat \<Rightarrow> pp_error + (nat, participant) store" where
  "FindBeneficiaries X s issuerId verifierId =
     (if issuerId = 0 \<and> verifierId = 0 then Inl Pp_Query
      else
        bindE (valid_party X s issuerId) (\<lambda>issuer.
        bindE (valid_party X s verifierId) (\<lambda>verifier.
        bindE (case issuer of None \<Rightarrow> Inr kempty
               | Some p \<Rightarrow> collect_ancestors (chain_fuel s) s kempty (pt_validator p)) (\<lambda>found.
        case verifier of
          None \<Rightarrow> Inr found
        | Some v \<Rightarrow>
            collect_ancestors (chain_fuel s) s
              (case issuer of None \<Rightarrow> found | Some p \<Rightarrow> if payable p then kset found (pt_id p) p else found)
              (pt_validator v)))))"

section \<open>Genesis\<close>

record pp_genesis =
  pg_timeout_days :: int
  pg_participants :: "participant list"
  pg_sessions :: "pp_session list"
  pg_next_id :: nat

definition pp_InitGenesis :: "pp_genesis \<Rightarrow> pp_state \<Rightarrow> pp_state" where
  "pp_InitGenesis g s =
     s\<lparr>pps_timeout_days := pg_timeout_days g,
       pps_participants := kset_all pt_id (pg_participants g) (pps_participants s),
       pps_sessions := kset_all ss_id (pg_sessions g) (pps_sessions s),
       pps_counter := Some (pg_next_id g)\<rparr>"

definition pp_ExportGenesis :: "pp_state \<Rightarrow> pp_genesis" where
  "pp_ExportGenesis s =
     \<lparr>pg_timeout_days = pps_timeout_days s,
      pg_participants = sort_key pt_id (walk (pps_participants s)),
      pg_sessions = sort_key ss_id (walk (pps_sessions s)),
      pg_next_id = (case pps_counter s of None \<Rightarrow> 1 | Some n \<Rightarrow> n)\<rparr>"

definition validateParticipant :: "participant list \<Rightarrow> participant \<Rightarrow> bool" where
  "validateParticipant allParticipants p \<longleftrightarrow>
     pt_role p \<noteq> 0 \<and> pt_corp p \<noteq> 0 \<and> pt_did p \<noteq> [] \<and> pt_op_state p \<noteq> 0 \<and>
     (pt_validator p \<noteq> 0 \<longrightarrow> list_ex (\<lambda>q. pt_id q = pt_validator p) allParticipants)"

definition validateParticipantTimestamps :: "participant \<Rightarrow> bool" where
  "validateParticipantTimestamps p \<longleftrightarrow>
     pt_modified p \<noteq> None \<and> pt_created p \<noteq> None \<and> pt_op_last_change p \<noteq> None \<and>
     (case (pt_from p, pt_until p) of (Some f, Some u) \<Rightarrow> f < u | _ \<Rightarrow> True) \<and>
     (case (pt_adjusted p, pt_created p) of (Some a, Some c) \<Rightarrow> c < a | _ \<Rightarrow> True)"

definition session_record_ok :: "nat list \<Rightarrow> session_record \<Rightarrow> bool" where
  "session_record_ok ids r \<longleftrightarrow>
     sr_id r \<noteq> 0 \<and> \<not> (sr_issuer r = 0 \<and> sr_verifier r = 0) \<and>
     list_all (\<lambda>i. i \<noteq> 0 \<longrightarrow> i \<in> set ids) [sr_issuer r, sr_verifier r, sr_wallet_agent r, sr_agent r]"

definition validateParticipantSession :: "nat list \<Rightarrow> pp_session \<Rightarrow> bool" where
  "validateParticipantSession ids session \<longleftrightarrow>
     ss_created session \<noteq> None \<and> ss_modified session \<noteq> None \<and>
     list_all (session_record_ok ids) (ss_records session)"

definition pp_validate_genesis :: "pp_genesis \<Rightarrow> bool" where
  "pp_validate_genesis g \<longleftrightarrow>
     (let ps = pg_participants g; ids = map pt_id ps in
      pp_params_validate (pg_timeout_days g) \<and>
      list_all (\<lambda>p. pt_id p \<noteq> 0 \<and> validateParticipant ps p \<and> validateParticipantTimestamps p) ps \<and>
      distinct ids \<and>
      list_all (\<lambda>x. ss_id x \<noteq> [] \<and> validateParticipantSession ids x) (pg_sessions g) \<and>
      distinct (map ss_id (pg_sessions g)) \<and>
      (ps \<noteq> [] \<longrightarrow> maximum_id pt_id ps < pg_next_id g))"

end
