(* ===== verification/Participant_Inv.thy ===== *)
theory Participant_Inv
imports Participant_Query Credential_Schema_Props
begin

text \<open>
  The life cycle of a participant as a step relation, and the effect of every message on
  the store of participants: each handler either creates one participant, takes one
  participant one step along its life cycle, or credits deposits.
\<close>

section \<open>Messages\<close>

datatype pp_op =
    Pp_Start msg_start_op | Pp_Renew msg_on_participant | Pp_Validate msg_validate_op
  | Pp_Cancel msg_on_participant | Pp_Root msg_root_pp | Pp_Set_Until msg_set_until
  | Pp_Revoke msg_on_participant | Pp_Session msg_session | Pp_Slash msg_slash_pp
  | Pp_Repay msg_repay_pp | Pp_Self msg_self_pp | Pp_Update_Params string int

definition pp_exec ::
  "(string \<Rightarrow> bool) \<Rightarrow> string \<Rightarrow> 'b pp_env \<Rightarrow> 'b pp_world \<Rightarrow> pp_op \<Rightarrow> pp_error + 'b pp_world" where
  "pp_exec uuid_ok gov X w op = (case op of
     Pp_Start m \<Rightarrow> bindE (validate_start_op (pe_sdk X) m) (\<lambda>_. bindE (StartParticipantOP X w m) (\<lambda>(i, w'). Inr w'))
   | Pp_Renew m \<Rightarrow> bindE (validate_on_participant (pe_sdk X) m) (\<lambda>_. RenewParticipantOP X w m)
   | Pp_Validate m \<Rightarrow> bindE (validate_validate_op (pe_sdk X) m) (\<lambda>_. SetParticipantOPToValidated X w m)
   | Pp_Cancel m \<Rightarrow> bindE (validate_on_participant (pe_sdk X) m) (\<lambda>_. CancelParticipantOPLastRequest X w m)
   | Pp_Root m \<Rightarrow> bindE (validate_root_pp (pe_sdk X) m) (\<lambda>_. bindE (CreateRootParticipant X w m) (\<lambda>(i, w'). Inr w'))
   | Pp_Set_Until m \<Rightarrow> bindE (validate_set_until (pe_sdk X) m) (\<lambda>_. SetParticipantEffectiveUntil X w m)
   | Pp_Revoke m \<Rightarrow> bindE (validate_on_participant (pe_sdk X) m) (\<lambda>_. RevokeParticipant X w m)
   | Pp_Session m \<Rightarrow> bindE (validate_session uuid_ok (pe_sdk X) m) (\<lambda>_. CreateOrUpdateParticipantSession X w m)
   | Pp_Slash m \<Rightarrow> bindE (validate_slash_pp (pe_sdk X) m) (\<lambda>_. SlashParticipantTrustDeposit X w m)
   | Pp_Repay m \<Rightarrow> bindE (validate_repay_pp (pe_sdk X) m) (\<lambda>_. RepayParticipantSlashedTrustDeposit X w m)
   | Pp_Self m \<Rightarrow> bindE (validate_self_pp (pe_sdk X) m) (\<lambda>_. bindE (SelfCreateParticipant X w m) (\<lambda>(i, w'). Inr w'))
   | Pp_Update_Params signer days \<Rightarrow>
       bindE (pp_validate_update_params (pe_sdk X) signer days) (\<lambda>_.
       bindE (pp_UpdateParams gov (pw_pp w) signer days) (\<lambda>s. Inr (w\<lparr>pw_pp := s\<rparr>))))"

section \<open>Calls of other modules leave the participants alone\<close>

lemma adjust_deposit_pp: "adjust_deposit X w a n = Inr w' \<Longrightarrow> pw_pp w' = pw_pp w"
  by (auto simp: adjust_deposit_def result_simps)

lemma adjust_on_behalf_pp: "adjust_on_behalf X w a f n = Inr w' \<Longrightarrow> pw_pp w' = pw_pp w"
  by (auto simp: adjust_on_behalf_def result_simps)

lemma burn_deposit_pp: "burn_deposit X w a n = Inr w' \<Longrightarrow> pw_pp w' = pw_pp w"
  by (auto simp: burn_deposit_def result_simps)

lemma bank_pp:
  "escrow_in X w a n = Inr w' \<Longrightarrow> pw_pp w' = pw_pp w"
  "escrow_out X w a n = Inr w' \<Longrightarrow> pw_pp w' = pw_pp w"
  "send_coins X w a c n = Inr w' \<Longrightarrow> pw_pp w' = pw_pp w"
  by (auto simp: escrow_in_def escrow_out_def send_coins_def result_simps)

lemma delegation_pp:
  "revokeVSOperatorAuthorization X w p = Inr w' \<Longrightarrow> pw_pp w' = pw_pp w"
  "set_vs_expiration X w i u = Inr w' \<Longrightarrow> pw_pp w' = pw_pp w"
  "drop_vs_of_member X w p = Inr w' \<Longrightarrow> pw_pp w' = pw_pp w"
  by (auto simp: revokeVSOperatorAuthorization_def set_vs_expiration_def drop_vs_of_member_def result_simps
      split: if_splits)

lemma grant_vs_pp: "grant_vs_request X w c v i u = Inr w' \<Longrightarrow> pw_pp w' = pw_pp w"
  by (auto simp: grant_vs_request_def result_simps split: if_splits)

lemma take_pp:
  "take_deposit X w a n = Inr w' \<Longrightarrow> pw_pp w' = pw_pp w"
  "take_fees X w a n = Inr w' \<Longrightarrow> pw_pp w' = pw_pp w"
  "pay_escrow X w a n = Inr w' \<Longrightarrow> pw_pp w' = pw_pp w"
  "pay_account X w f a n = Inr w' \<Longrightarrow> pw_pp w' = pw_pp w"
  by (auto simp: take_deposit_def take_fees_def pay_escrow_def pay_account_def result_simps
      split: if_splits dest: adjust_deposit_pp bank_pp)

lemmas calls_pp = adjust_deposit_pp adjust_on_behalf_pp burn_deposit_pp bank_pp delegation_pp grant_vs_pp take_pp

lemma update_in_pp [simp]: "pw_pp (update_in w p) = UpdateParticipant (pw_pp w) p"
  by (simp add: update_in_def)

lemma UpdateParticipant_sel [simp]:
  "pps_participants (UpdateParticipant s p) = kset (pps_participants s) (pt_id p) p"
  "pps_counter (UpdateParticipant s p) = pps_counter s"
  "pps_sessions (UpdateParticipant s p) = pps_sessions s"
  "pps_timeout_days (UpdateParticipant s p) = pps_timeout_days s"
  by (simp_all add: UpdateParticipant_def)

definition pp_last_id :: "pp_state \<Rightarrow> nat" where
  "pp_last_id s = (case pps_counter s of None \<Rightarrow> 0 | Some n \<Rightarrow> n)"

definition add_participant :: "pp_state \<Rightarrow> participant \<Rightarrow> pp_state" where
  "add_participant s p =
     s\<lparr>pps_counter := Some (Suc (pp_last_id s)),
       pps_participants := kset (pps_participants s) (Suc (pp_last_id s)) (p\<lparr>pt_id := Suc (pp_last_id s)\<rparr>)\<rparr>"

lemma CreateParticipant_eq: "CreateParticipant s p = (Suc (pp_last_id s), add_participant s p)"
  by (simp add: CreateParticipant_def getNextParticipantID_def add_participant_def pp_last_id_def split: option.split)

lemma create_in_eq: "create_in w p = (Suc (pp_last_id (pw_pp w)), w\<lparr>pw_pp := add_participant (pw_pp w) p\<rparr>)"
  by (simp add: create_in_def CreateParticipant_eq)

lemma add_participant_sel [simp]:
  "pps_counter (add_participant s p) = Some (Suc (pp_last_id s))"
  "pps_sessions (add_participant s p) = pps_sessions s"
  "pp_last_id (add_participant s p) = Suc (pp_last_id s)"
  "pps_participants (add_participant s p) = kset (pps_participants s) (Suc (pp_last_id s)) (p\<lparr>pt_id := Suc (pp_last_id s)\<rparr>)"
  "pps_timeout_days (add_participant s p) = pps_timeout_days s"
  by (simp_all add: add_participant_def pp_last_id_def)

section \<open>The life cycle\<close>

text \<open>What may happen to one participant in one block time.\<close>

definition slash_open :: "participant \<Rightarrow> bool" where
  "slash_open p \<longleftrightarrow> pt_slashed p \<noteq> None \<and> pt_repaid p = None"

datatype pt_event = Renewed | Validated | Cancelled | Adjusted | Revoked | Slashed | Repaid

inductive pt_step :: "time \<Rightarrow> pt_event \<Rightarrow> participant \<Rightarrow> participant \<Rightarrow> bool" for now :: time where
  renewed: "pt_op_state p = VALIDATED \<Longrightarrow> IsValidParticipant p now = Inr () \<Longrightarrow> is_u64 f \<Longrightarrow> is_u64 d \<Longrightarrow>
    is_u64 c \<Longrightarrow> pt_step now Renewed p (p\<lparr>pt_op_state := PENDING, pt_op_last_change := Some now, pt_deposit := d,
      pt_op_current_fees := f, pt_op_current_deposit := c, pt_modified := Some now\<rparr>)"
| validated: "pt_op_state p = PENDING \<Longrightarrow> \<not> slash_open p \<Longrightarrow>
    (pt_from p = None \<longrightarrow> vd_issuance_discount m \<le> maxDiscount \<and> vd_verification_discount m \<le> maxDiscount) \<Longrightarrow>
    d = pt_op_validator_deposit p \<or> is_u64 d \<Longrightarrow> pt_step now Validated p (validated_participant now p m x u
      \<lparr>pt_op_validator_deposit := d, pt_op_current_fees := 0, pt_op_current_deposit := 0\<rparr>)"
| cancelled: "pt_op_state p = PENDING \<Longrightarrow> \<not> slash_open p \<Longrightarrow>
    pt_step now Cancelled p (p\<lparr>pt_modified := Some now, pt_op_last_change := Some now,
      pt_op_state := (if pt_op_exp p = None then TERMINATED else VALIDATED),
      pt_op_current_fees := (if 0 < pt_op_current_fees p then 0 else pt_op_current_fees p),
      pt_op_current_deposit := (if 0 < pt_op_current_deposit p then 0 else pt_op_current_deposit p)\<rparr>)"
| adjusted: "IsValidParticipant p now = Inr () \<Longrightarrow> now < u \<Longrightarrow>
    pt_step now Adjusted p (p\<lparr>pt_until := Some u, pt_adjusted := Some now, pt_modified := Some now\<rparr>)"
| revoked: "IsValidParticipant p now = Inr () \<Longrightarrow> d = 0 \<or> d = pt_deposit p \<Longrightarrow>
    pt_step now Revoked p (p\<lparr>pt_deposit := d, pt_revoked := Some now, pt_modified := Some now\<rparr>)"
| slashed: "is_u64 a \<Longrightarrow> is_u64 d \<Longrightarrow> pt_step now Slashed p (p\<lparr>pt_slashed := Some now, pt_modified := Some now,
      pt_slashed_deposit := a, pt_deposit := d\<rparr>)"
| repaid: "pt_slashed p \<noteq> None \<Longrightarrow> pt_step now Repaid p (repaid_participant now p a)"

end
