(* ===== verification/Participant_Effects.thy ===== *)
theory Participant_Effects
imports Participant_Inv
begin

text \<open>
  The effect of every message on the store of participants: creations, steps of the life
  cycle, credits of a session, and the change of the parameter.
\<close>

text \<open>What a new participant looks like when its message is accepted.\<close>

inductive pt_new :: "'b pp_env \<Rightarrow> pp_state \<Rightarrow> participant \<Rightarrow> bool" for X :: "'b pp_env" and s :: pp_state where
  applicant: "kget (pps_participants s) (sp_validator m) = Some v \<Longrightarrow> sp_validator m \<noteq> 0 \<Longrightarrow>
    sp_role m = ISSUER \<or> sp_role m = VERIFIER \<or> sp_role m = ISSUER_GRANTOR \<or> sp_role m = VERIFIER_GRANTOR \<or>
      sp_role m = HOLDER \<Longrightarrow> sp_did m \<noteq> [] \<Longrightarrow>
    IsValidParticipant v (pp_now X) = Inr () \<Longrightarrow> kget (css_schemas (pe_cs X)) (pt_schema_id v) = Some c \<Longrightarrow>
    validateParticipantRoleCombination (sp_role m) (pt_role v) c = Inr () \<Longrightarrow>
    kget (cos_by_policy (pe_co X)) (sp_corporation m) = Some corp \<Longrightarrow>
    checkOverlap s (pt_schema_id v) (sp_role m) (sp_validator m) corp = Inr () \<Longrightarrow>
    assertDIDCorporationConsistent s (sp_did m) corp = Inr () \<Longrightarrow> is_u64 fees \<Longrightarrow> is_u64 deposit \<Longrightarrow>
    pt_new X s (new_applicant (pp_now X) m v corp fees deposit)"
| root: "rt_did m \<noteq> [] \<Longrightarrow> kget (css_schemas (pe_cs X)) (rt_schema_id m) = Some c \<Longrightarrow>
    kget (ecs_ecosystems (pe_ec X)) (csm_ecosystem_id c) = Some x \<Longrightarrow>
    kget (cos_by_policy (pe_co X)) (rt_corporation m) = Some corp \<Longrightarrow> ec_corporation_id x = corp \<Longrightarrow>
    rt_from m = Some f \<Longrightarrow> pp_now X < f \<Longrightarrow> (case rt_until m of None \<Rightarrow> True | Some u \<Rightarrow> f < u) \<Longrightarrow>
    checkCreateRootParticipantOverlap X s m = Inr () \<Longrightarrow>
    assertDIDCorporationConsistent s (rt_did m) corp = Inr () \<Longrightarrow>
    pt_new X s (new_root (pp_now X) m corp)"
| self: "kget (pps_participants s) (sf_validator m) = Some v \<Longrightarrow> sf_validator m \<noteq> 0 \<Longrightarrow>
    sf_role m = ISSUER \<and> csm_issuer_mode c = MODE_OPEN \<or> sf_role m = VERIFIER \<and> csm_verifier_mode c = MODE_OPEN \<Longrightarrow>
    sf_did m \<noteq> [] \<Longrightarrow> pt_role v = ECOSYSTEM \<Longrightarrow>
    kget (css_schemas (pe_cs X)) (pt_schema_id v) = Some c \<Longrightarrow>
    kget (cos_by_policy (pe_co X)) (sf_corporation m) = Some corp \<Longrightarrow>
    pp_now X \<le> f \<Longrightarrow> (case sf_until m of None \<Rightarrow> True | Some u \<Rightarrow> f < u) \<Longrightarrow>
    checkCreateParticipantOverlap X s (pt_schema_id v) m f = Inr () \<Longrightarrow>
    assertDIDCorporationConsistent s (sf_did m) corp = Inr () \<Longrightarrow>
    pt_new X s (new_self (pp_now X) m v corp f)"

lemmas pp_lookups = GetParticipantByID_def get_schema_def GetCredentialSchemaById_def corpIDFromAccount_def
  ec_GetEcosystem_def

lemma fees_u64: "validateAndCalculateFees X w v = Inr (fees, deposit) \<Longrightarrow> is_u64 fees \<and> is_u64 deposit"
  by (auto simp: validateAndCalculateFees_def validationTrustDepositInDenomAmount_def Let_def result_simps
      split: if_splits)

lemma start_effect:
  assumes "StartParticipantOP X w m = Inr (i, w')" "validate_start_op E m = Inr ()"
  shows "\<exists>p. pt_new X (pw_pp w) p \<and> pt_op_state p = PENDING \<and> pw_pp w' = add_participant (pw_pp w) p \<and>
    i = Suc (pp_last_id (pw_pp w))"
proof -
  from assms(2) have msg: "sp_validator m \<noteq> 0" "sp_did m \<noteq> []"
    "sp_role m = ISSUER \<or> sp_role m = VERIFIER \<or> sp_role m = ISSUER_GRANTOR \<or> sp_role m = VERIFIER_GRANTOR \<or>
      sp_role m = HOLDER"
    by (auto simp: validate_start_op_def result_simps simp del: One_nat_def)
  from assms(1) obtain v corp fees deposit where
      checks: "validateParticipantChecks X w m = Inr v" and corp: "corpIDFromAccount X (sp_corporation m) = Inr corp"
    and free: "checkOverlap (pw_pp w) (pt_schema_id v) (sp_role m) (sp_validator m) corp = Inr ()"
    and fees: "validateAndCalculateFees X w v = Inr (fees, deposit)"
    and exec: "executeStartParticipantVP X w m v fees deposit = Inr (i, w')"
    by (auto simp: StartParticipantOP_def bindE_unit_ok_iff bindE_ok_iff)
  from checks obtain c where v: "kget (pps_participants (pw_pp w)) (sp_validator m) = Some v"
      "IsValidParticipant v (pp_now X) = Inr ()" "kget (css_schemas (pe_cs X)) (pt_schema_id v) = Some c"
      "validateParticipantRoleCombination (sp_role m) (pt_role v) c = Inr ()"
    by (auto simp: validateParticipantChecks_def pp_lookups bindE_unit_ok_iff result_simps)
  from exec corp obtain w1 w2 w4 where
      e: "take_deposit X w (sp_corporation m) deposit = Inr w1" "take_fees X w1 (sp_corporation m) fees = Inr w2"
        "assertDIDCorporationConsistent (pw_pp w2) (sp_did m) corp = Inr ()"
        "grant_vs_request X (snd (create_in w2 (new_applicant (pp_now X) m v corp fees deposit))) corp (sp_vs m)
           (fst (create_in w2 (new_applicant (pp_now X) m v corp fees deposit))) (Some (pp_now X)) = Inr w'"
        "i = fst (create_in w2 (new_applicant (pp_now X) m v corp fees deposit))"
    by (auto simp: executeStartParticipantVP_def bindE_unit_ok_iff bindE_ok_iff create_in_eq)
  have "pw_pp w2 = pw_pp w" using take_pp(1) [OF e(1)] take_pp(2) [OF e(2)] by simp
  moreover have "is_u64 fees" "is_u64 deposit" using fees_u64 [OF fees] by simp_all
  moreover have "kget (cos_by_policy (pe_co X)) (sp_corporation m) = Some corp"
    using corp by (simp add: pp_lookups result_simps)
  ultimately have "pt_new X (pw_pp w) (new_applicant (pp_now X) m v corp fees deposit)"
    using applicant [OF v(1) msg(1,3,2) v(2-4) _ free] e(3) by simp
  then show ?thesis using \<open>pw_pp w2 = pw_pp w\<close> e(5) grant_vs_pp [OF e(4)]
    by (intro exI [of _ "new_applicant (pp_now X) m v corp fees deposit"]) (auto simp: create_in_eq new_applicant_def)
qed

lemma root_effect:
  assumes "CreateRootParticipant X w m = Inr (i, w')" "validate_root_pp E m = Inr ()"
  shows "\<exists>p. pt_new X (pw_pp w) p \<and> pt_op_state p = 0 \<and> pw_pp w' = add_participant (pw_pp w) p \<and>
    i = Suc (pp_last_id (pw_pp w))"
proof -
  from assms(2) have msg: "rt_did m \<noteq> []" by (auto simp: validate_root_pp_def result_simps)
  from assms(1) have checks: "validateCreateRootParticipantBasicChecks X m = Inr ()"
      "validateCreateRootParticipantAuthority X m = Inr ()" "checkCreateRootParticipantOverlap X (pw_pp w) m = Inr ()"
      and exec: "executeCreateRootParticipant X w m = Inr (i, w')"
    by (auto simp: CreateRootParticipant_def bindE_unit_ok_iff)
  from checks obtain c x corp f where facts: "kget (css_schemas (pe_cs X)) (rt_schema_id m) = Some c"
      "kget (ecs_ecosystems (pe_ec X)) (csm_ecosystem_id c) = Some x"
      "kget (cos_by_policy (pe_co X)) (rt_corporation m) = Some corp" "ec_corporation_id x = corp"
      "rt_from m = Some f" "pp_now X < f" "case rt_until m of None \<Rightarrow> True | Some u \<Rightarrow> f < u"
    by (auto simp: validateCreateRootParticipantBasicChecks_def validateCreateRootParticipantAuthority_def pp_lookups
        result_simps split: option.splits if_splits)
  from exec facts(3) have e: "assertDIDCorporationConsistent (pw_pp w) (rt_did m) corp = Inr ()"
      "grant_vs_request X (w\<lparr>pw_pp := add_participant (pw_pp w) (new_root (pp_now X) m corp)\<rparr>) corp (rt_vs m) i
         (rt_until m) = Inr w'"
      "i = Suc (pp_last_id (pw_pp w))"
    by (auto simp: executeCreateRootParticipant_def create_in_eq pp_lookups bindE_unit_ok_iff result_simps)
  then show ?thesis using root [OF msg facts checks(3) e(1)] grant_vs_pp [OF e(2)]
    by (intro exI [of _ "new_root (pp_now X) m corp"]) (auto simp: new_root_def blank_participant_def)
qed

lemma self_effect:
  assumes "SelfCreateParticipant X w m = Inr (i, w')" "validate_self_pp E m = Inr ()"
  shows "\<exists>p. pt_new X (pw_pp w) p \<and> pt_op_state p = 0 \<and> pw_pp w' = add_participant (pw_pp w) p \<and>
    i = Suc (pp_last_id (pw_pp w))"
proof -
  from assms(2) have msg: "sf_did m \<noteq> []" "sf_validator m \<noteq> 0" "sf_role m = ISSUER \<or> sf_role m = VERIFIER"
    by (auto simp: validate_self_pp_def result_simps)
  from assms(1) obtain v f c corp where
      v: "kget (pps_participants (pw_pp w)) (sf_validator m) = Some v" "root_usable (pp_now X) v = Inr ()"
      and f: "self_period (pp_now X) v m = Inr f"
      and c: "kget (css_schemas (pe_cs X)) (pt_schema_id v) = Some c" "self_mode m c = Inr ()"
      and corp: "kget (cos_by_policy (pe_co X)) (sf_corporation m) = Some corp"
      and free: "checkCreateParticipantOverlap X (pw_pp w) (pt_schema_id v) m f = Inr ()"
      and did: "assertDIDCorporationConsistent (pw_pp w) (sf_did m) corp = Inr ()"
      and e: "grant_vs_request X (w\<lparr>pw_pp := add_participant (pw_pp w) (new_self (pp_now X) m v corp f)\<rparr>) corp
         (sf_vs m) i (sf_until m) = Inr w'" "i = Suc (pp_last_id (pw_pp w))"
    by (auto simp: SelfCreateParticipant_def create_in_eq pp_lookups bindE_unit_ok_iff result_simps)
  have period: "pp_now X \<le> f" "case sf_until m of None \<Rightarrow> True | Some u \<Rightarrow> f < u"
    using f by (auto simp: self_period_def result_simps split: option.splits if_splits)
  have mode: "sf_role m = ISSUER \<and> csm_issuer_mode c = MODE_OPEN \<or> sf_role m = VERIFIER \<and> csm_verifier_mode c = MODE_OPEN"
    using msg(3) c(2) by (auto simp: self_mode_def split: if_splits)
  have role: "pt_role v = ECOSYSTEM" using v(2) by (auto simp: root_usable_def split: if_splits)
  show ?thesis using self [OF v(1) msg(2) mode msg(1) role c(1) corp period free did] e(2) grant_vs_pp [OF e(1)]
    by (intro exI [of _ "new_self (pp_now X) m v corp f"]) (auto simp: new_self_def blank_participant_def)
qed


lemma own_participant_iff: "own_participant X w i corporation = Inr p \<longleftrightarrow>
    kget (pps_participants (pw_pp w)) i = Some p \<and>
    (\<exists>c. kget (cos_corporations (pe_co X)) (pt_corp p) = Some c \<and> co_policy_address c = corporation)"
  by (auto simp: own_participant_def corpAccountFromID_def GetParticipantByID_def result_simps)

text \<open>A message that moves the period of a participant has checked the new one.\<close>

definition period_free :: "pp_state \<Rightarrow> participant \<Rightarrow> participant \<Rightarrow> bool" where
  "period_free s p q \<longleftrightarrow> pt_from q = pt_from p \<and> pt_until q = pt_until p \<or>
     \<not> context_blocked s p (pt_from q) (pt_until q)"

lemma period_free_same [simp]: "pt_from q = pt_from p \<Longrightarrow> pt_until q = pt_until p \<Longrightarrow> period_free s p q"
  by (simp add: period_free_def)

definition takes_step :: "time \<Rightarrow> pp_state \<Rightarrow> nat \<Rightarrow> pt_event \<Rightarrow> pp_state \<Rightarrow> bool" where
  "takes_step now s i e s' \<longleftrightarrow> (\<exists>p q. kget (pps_participants s) i = Some p \<and> pt_step now e p q \<and>
     period_free s p q \<and> s' = UpdateParticipant s q)"

lemma takes_stepI: "kget (pps_participants s) i = Some p \<Longrightarrow> pt_step now e p q \<Longrightarrow> period_free s p q \<Longrightarrow>
    s' = UpdateParticipant s q \<Longrightarrow> takes_step now s i e s'"
  unfolding takes_step_def by blast

lemma renew_effect:
  assumes "RenewParticipantOP X w m = Inr w'"
  shows "takes_step (pp_now X) (pw_pp w) (op_id m) Renewed (pw_pp w')"
proof -
  from assms obtain p v fees deposit where p: "own_participant X w (op_id m) (op_corporation m) = Inr p"
      "pt_op_state p = VALIDATED" "IsValidParticipant p (pp_now X) = Inr ()"
      "validateAndCalculateFees X w v = Inr (fees, deposit)"
      and e: "executeRenewParticipantVP X w p fees deposit = Inr w'"
    by (auto simp: RenewParticipantOP_def bindE_unit_ok_iff bindE_ok_iff if_Inl_ok_iff)
  from e obtain a w1 w2 where w: "take_deposit X w a deposit = Inr w1" "take_fees X w1 a fees = Inr w2"
      "w' = update_in w2 (p\<lparr>pt_op_state := PENDING, pt_op_last_change := Some (pp_now X),
            pt_deposit := u64 (pt_deposit p + deposit), pt_op_current_fees := fees,
            pt_op_current_deposit := deposit, pt_modified := Some (pp_now X)\<rparr>)"
    by (auto simp: executeRenewParticipantVP_def bindE_ok_iff)
  have u: "is_u64 fees" "is_u64 deposit" using fees_u64 [OF p(4)] by simp_all
  have get: "kget (pps_participants (pw_pp w)) (op_id m) = Some p" using p(1) by (simp add: own_participant_iff)
  show ?thesis
    by (rule takes_stepI [OF get renewed [OF p(2,3) u(1) is_u64_u64 u(2)]])
      (use w(3) take_pp(1) [OF w(1)] take_pp(2) [OF w(2)] in simp_all)
qed

lemma check_discounts_max:
  assumes "check_discounts p v c m = Inr ()"
  shows "pt_from p = None \<longrightarrow> vd_issuance_discount m \<le> maxDiscount \<and> vd_verification_discount m \<le> maxDiscount"
proof -
  have "discount_allowed d mode role g e x = Inr () \<Longrightarrow> d \<le> maxDiscount" for d mode role g e x
    by (simp add: discount_allowed_def split: if_splits)
  then show ?thesis using assms by (auto simp: check_discounts_def bindE_unit_ok_iff)
qed

lemma validate_effect:
  assumes "SetParticipantOPToValidated X w m = Inr w'"
  shows "takes_step (pp_now X) (pw_pp w) (vd_id m) Validated (pw_pp w')"
proof -
  from assms obtain p v c x u where p: "kget (pps_participants (pw_pp w)) (vd_id m) = Some p"
      "pt_op_state p = PENDING" "checkValidatedOverlap (pw_pp w) (pp_now X) p u = Inr ()"
      and m: "check_discounts p v c m = Inr ()"
      and e: "executeSetParticipantVPToValidated X w p v m x u = Inr w'"
    by (auto simp: SetParticipantOPToValidated_def GetParticipantByID_def bindE_unit_ok_iff result_simps Let_def)
  let ?q = "validated_participant (pp_now X) p m x u
      \<lparr>pt_op_validator_deposit := (if 0 < pt_op_current_deposit p
         then u64 (pt_op_validator_deposit p + pt_op_current_deposit p) else pt_op_validator_deposit p),
       pt_op_current_fees := 0, pt_op_current_deposit := 0\<rparr>"
  from e have "\<not> slash_open p" by (auto simp: executeSetParticipantVPToValidated_def slash_open_def if_Inl_ok_iff)
  moreover have "pw_pp w' = UpdateParticipant (pw_pp w) ?q"
    using e by (auto simp: executeSetParticipantVPToValidated_def Let_def result_simps split: option.splits
        dest!: take_pp delegation_pp)
  moreover have "period_free (pw_pp w) p ?q" using p(3)
    by (auto simp: period_free_def checkValidatedOverlap_def validated_participant_def split: option.splits if_splits)
  ultimately show ?thesis
    using takes_stepI [OF p(1) validated [OF p(2) _ check_discounts_max [OF m]]] by simp
qed

lemma cancel_effect:
  assumes "CancelParticipantOPLastRequest X w m = Inr w'"
  shows "takes_step (pp_now X) (pw_pp w) (op_id m) Cancelled (pw_pp w')"
proof -
  from assms obtain p where p: "own_participant X w (op_id m) (op_corporation m) = Inr p" "pt_op_state p = PENDING"
      "\<not> slash_open p" and e: "executeCancelParticipantVPLastRequest X w p = Inr w'"
    by (auto simp: CancelParticipantOPLastRequest_def bindE_unit_ok_iff bindE_ok_iff if_Inl_ok_iff slash_open_def)
  let ?q = "p\<lparr>pt_modified := Some (pp_now X), pt_op_last_change := Some (pp_now X),
      pt_op_state := (if pt_op_exp p = None then TERMINATED else VALIDATED),
      pt_op_current_fees := (if 0 < pt_op_current_fees p then 0 else pt_op_current_fees p),
      pt_op_current_deposit := (if 0 < pt_op_current_deposit p then 0 else pt_op_current_deposit p)\<rparr>"
  have "pw_pp w' = UpdateParticipant (pw_pp w) ?q"
    using e by (auto simp: executeCancelParticipantVPLastRequest_def Let_def result_simps
        split: if_splits dest!: take_pp delegation_pp adjust_deposit_pp)
  moreover have "kget (pps_participants (pw_pp w)) (op_id m) = Some p" using p(1) by (simp add: own_participant_iff)
  ultimately show ?thesis by (intro takes_stepI [OF _ cancelled [OF p(2,3)]]) simp_all
qed

lemma set_until_effect:
  assumes "SetParticipantEffectiveUntil X w m = Inr w'"
  shows "takes_step (pp_now X) (pw_pp w) (su_id m) Adjusted (pw_pp w')"
proof -
  from assms obtain p u where p: "kget (pps_participants (pw_pp w)) (su_id m) = Some p"
      "IsValidParticipant p (pp_now X) = Inr ()" "su_until m = Some u" "pp_now X < u"
      "checkAdjustParticipantOverlap (pw_pp w) p (su_until m) = Inr ()"
      and e: "(case pt_until p of None \<Rightarrow> Inr (executeAdjustParticipant X w p (su_until m))
        | Some t \<Rightarrow> set_vs_expiration X (executeAdjustParticipant X w p (su_until m)) (pt_id p) t) = Inr w'"
    by (auto simp: SetParticipantEffectiveUntil_def validateAdjustParticipantBasicChecks_def GetParticipantByID_def
        bindE_unit_ok_iff result_simps Let_def split: option.splits)
  have "pw_pp w' = pw_pp (executeAdjustParticipant X w p (su_until m))"
    using e by (auto split: option.splits dest!: delegation_pp)
  moreover have "period_free (pw_pp w) p (p\<lparr>pt_until := Some u, pt_adjusted := Some (pp_now X),
      pt_modified := Some (pp_now X)\<rparr>)"
    using p(3,5) by (simp add: period_free_def checkAdjustParticipantOverlap_def split: if_splits)
  ultimately show ?thesis using p by (auto simp: executeAdjustParticipant_def intro!: takes_stepI adjusted)
qed

lemma revoke_effect:
  assumes "RevokeParticipant X w m = Inr w'"
  shows "takes_step (pp_now X) (pw_pp w) (op_id m) Revoked (pw_pp w')"
proof -
  from assms obtain p w1 where p: "kget (pps_participants (pw_pp w)) (op_id m) = Some p"
      "IsValidParticipant p (pp_now X) = Inr ()" and e: "executeRevokeParticipant X w p = Inr w1"
        "drop_vs_of_member X w1 p = Inr w'"
    by (auto simp: RevokeParticipant_def validateRevokeParticipantBasicChecks_def GetParticipantByID_def
        bindE_unit_ok_iff result_simps)
  have "\<exists>d. (d = 0 \<or> d = pt_deposit p) \<and> pw_pp w1 = UpdateParticipant (pw_pp w)
      (p\<lparr>pt_deposit := d, pt_revoked := Some (pp_now X), pt_modified := Some (pp_now X)\<rparr>)"
  proof (cases "0 < pt_deposit p")
    case True
    then show ?thesis using e(1)
      by (auto simp: executeRevokeParticipant_def result_simps dest!: adjust_deposit_pp)
  next
    case False
    have "p = p\<lparr>pt_deposit := pt_deposit p\<rparr>" by simp
    then show ?thesis using e(1) False by (auto simp: executeRevokeParticipant_def intro!: exI [of _ "pt_deposit p"])
  qed
  then obtain d where d: "d = 0 \<or> d = pt_deposit p" "pw_pp w1 = UpdateParticipant (pw_pp w)
      (p\<lparr>pt_deposit := d, pt_revoked := Some (pp_now X), pt_modified := Some (pp_now X)\<rparr>)" by blast
  show ?thesis
    by (rule takes_stepI [OF p(1) revoked [OF p(2) d(1)]]) (use d(2) delegation_pp(3) [OF e(2)] in simp_all)
qed

lemma slash_effect:
  assumes "SlashParticipantTrustDeposit X w m = Inr w'"
  shows "takes_step (pp_now X) (pw_pp w) (sh_id m) Slashed (pw_pp w')"
proof -
  from assms obtain p w1 where p: "kget (pps_participants (pw_pp w)) (sh_id m) = Some p"
      and e: "executeSlashParticipantTrustDeposit X w p (sh_amount m) = Inr w1" "drop_vs_of_member X w1 p = Inr w'"
    by (auto simp: SlashParticipantTrustDeposit_def validateSlashParticipantBasicChecks_def GetParticipantByID_def
        bindE_unit_ok_iff result_simps)
  from e(1) obtain w0 where w0: "pw_pp w0 = pw_pp w" "w1 = update_in w0 (p\<lparr>pt_slashed := Some (pp_now X),
      pt_modified := Some (pp_now X), pt_slashed_deposit := u64 (pt_slashed_deposit p + sh_amount m),
      pt_deposit := u64 (pt_deposit p - sh_amount m)\<rparr>)"
    by (auto simp: executeSlashParticipantTrustDeposit_def bindE_unit_ok_iff result_simps dest!: burn_deposit_pp)
  show ?thesis using p w0 delegation_pp(3) [OF e(2)] by (auto intro!: takes_stepI slashed)
qed

lemma repaid_participant_period [simp]:
  "pt_from (repaid_participant now p a) = pt_from p" "pt_until (repaid_participant now p a) = pt_until p"
  by (simp_all add: repaid_participant_def Let_def)

lemma repay_effect:
  assumes "RepayParticipantSlashedTrustDeposit X w m = Inr w'"
  shows "takes_step (pp_now X) (pw_pp w) (rr_id m) Repaid (pw_pp w')"
proof -
  from assms obtain p w1 a where p: "own_participant X w (rr_id m) (rr_corporation m) = Inr p" "pt_slashed p \<noteq> None"
      and e: "adjust_deposit X w (rr_corporation m) a = Inr w1"
        "w' = update_in w1 (repaid_participant (pp_now X) p (rr_amount m))"
    by (auto simp: RepayParticipantSlashedTrustDeposit_def bindE_unit_ok_iff result_simps)
  then show ?thesis using adjust_deposit_pp [OF e(1)]
    by (auto simp: own_participant_iff intro!: takes_stepI intro: repaid)
qed


section \<open>Sessions only credit deposits\<close>

definition same_but_deposit :: "participant \<Rightarrow> participant \<Rightarrow> bool" where
  "same_but_deposit p q \<longleftrightarrow> p\<lparr>pt_deposit := 0\<rparr> = q\<lparr>pt_deposit := 0\<rparr> \<and>
     (pt_deposit q = pt_deposit p \<or> is_u64 (pt_deposit q))"

lemma same_but_deposit_refl [simp]: "same_but_deposit p p"
  by (simp add: same_but_deposit_def)

lemma same_but_deposit_set: "same_but_deposit p q \<Longrightarrow> is_u64 d \<Longrightarrow> same_but_deposit p (q\<lparr>pt_deposit := d\<rparr>)"
  by (simp add: same_but_deposit_def)

lemma same_but_deposit_field:
  "same_but_deposit p q \<Longrightarrow> (\<And>r d. f (r\<lparr>pt_deposit := d\<rparr>) = f r) \<Longrightarrow> f q = f p"
  unfolding same_but_deposit_def by metis

lemma same_but_deposit_id: "same_but_deposit p q \<Longrightarrow> pt_id q = pt_id p"
  by (rule same_but_deposit_field) simp_all

lemma same_but_deposit_eq: "same_but_deposit p q \<Longrightarrow> q = p\<lparr>pt_deposit := pt_deposit q\<rparr>"
  unfolding same_but_deposit_def by (drule conjunct1, drule arg_cong [where f = "pt_deposit_update (\<lambda>_. pt_deposit q)"]) simp

definition credits :: "pp_state \<Rightarrow> pp_state \<Rightarrow> bool" where
  "credits s s' \<longleftrightarrow> pps_counter s' = pps_counter s \<and> pps_sessions s' = pps_sessions s \<and>
     pps_timeout_days s' = pps_timeout_days s \<and>
     (\<forall>i. rel_option same_but_deposit (kget (pps_participants s) i) (kget (pps_participants s') i))"

lemma credits_refl [simp]: "credits s s"
  by (simp add: credits_def option.rel_refl)

lemma credits_update:
  assumes "credits s s'" "kget (pps_participants s) (pt_id p) = Some q" "same_but_deposit q p"
  shows "credits s (UpdateParticipant s' p)"
  using assms by (auto simp: credits_def kget_kset)

text \<open>Every participant is stored under its own id.\<close>

definition own_ids :: "pp_state \<Rightarrow> bool" where
  "own_ids s \<longleftrightarrow> (\<forall>i p. kget (pps_participants s) i = Some p \<longrightarrow> pt_id p = i)"

lemma own_idsD: "own_ids s \<Longrightarrow> kget (pps_participants s) i = Some p \<Longrightarrow> pt_id p = i"
  by (simp add: own_ids_def)

definition stored :: "pp_state \<Rightarrow> participant \<Rightarrow> bool" where
  "stored s p \<longleftrightarrow> (\<exists>q. kget (pps_participants s) (pt_id p) = Some q \<and> same_but_deposit q p)"

lemma stored_credit [simp]: "stored s p \<Longrightarrow> stored s (credit_deposit p d)"
  by (auto simp: stored_def credit_deposit_def intro!: same_but_deposit_set)

lemma credits_stored: "credits s s' \<Longrightarrow> stored s p \<Longrightarrow> credits s (UpdateParticipant s' p)"
  by (auto simp: stored_def intro: credits_update)

lemma credits_get:
  assumes "credits s s'" "own_ids s" "kget (pps_participants s') i = Some p"
  shows "stored s p"
proof -
  from assms(1,3) obtain q where q: "kget (pps_participants s) i = Some q" "same_but_deposit q p"
    unfolding credits_def by (metis option.rel_cases option.distinct(1) option.inject)
  with same_but_deposit_id [OF q(2)] own_idsD [OF assms(2) q(1)] show ?thesis unfolding stored_def by auto
qed

lemma pay_beneficiary_credits:
  assumes pay: "pay_beneficiary X m a tp d p (w, payer, ua, wa) = Inr (w', payer', ua', wa')"
    and s: "credits s (pw_pp w)" "stored s p" "stored s payer"
  shows "credits s (pw_pp w') \<and> stored s payer'"
proof (cases "0 < session_fee (mn_verifier m \<noteq> 0) p")
  case False
  then show ?thesis using pay s by (simp add: pay_beneficiary_def Let_def)
next
  case True
  then obtain acct n1 n2 toAccount toDeposit w1 where w1: "pay_account X w a acct toAccount = Inr w1"
    and rest: "(if 0 < toDeposit then
          bindE (uint64ToInt64 toDeposit) (\<lambda>d.
          bindE (adjust_on_behalf X w1 acct a d) (\<lambda>w2.
          bindE (adjust_deposit X (update_in w2 (credit_deposit p toDeposit)) (mn_corporation m) d) (\<lambda>w4.
          Inr (update_in w4 (credit_deposit payer toDeposit), credit_deposit payer toDeposit, n1, n2))))
        else Inr (w1, payer, n1, n2)) = Inr (w', payer', ua', wa')"
    using pay unfolding pay_beneficiary_def Let_def by (auto simp: bindE_ok_iff)
  have c1: "credits s (pw_pp w1)" using s(1) take_pp(4) [OF w1] by simp
  show ?thesis
  proof (cases "0 < toDeposit")
    case False
    then show ?thesis using rest c1 s(3) by simp
  next
    case True
    then obtain d w2 w4 where w: "adjust_on_behalf X w1 acct a d = Inr w2"
        "adjust_deposit X (update_in w2 (credit_deposit p toDeposit)) (mn_corporation m) d = Inr w4"
        "w' = update_in w4 (credit_deposit payer toDeposit)" "payer' = credit_deposit payer toDeposit"
      using rest by (auto simp: bindE_ok_iff)
    have "credits s (UpdateParticipant (pw_pp w2) (credit_deposit p toDeposit))"
      using credits_stored [OF _ stored_credit [OF s(2)]] c1 adjust_on_behalf_pp [OF w(1)] by simp
    then show ?thesis using adjust_deposit_pp [OF w(2)] w(3,4) s(3) by (auto intro: credits_stored)
  qed
qed

lemma pay_reward_credits:
  assumes pay: "pay_reward X w a r d i = Inr w'" and s: "credits s (pw_pp w)" "own_ids s"
  shows "credits s (pw_pp w')"
proof (cases "0 < d")
  case False
  then show ?thesis using pay s by (simp add: pay_reward_def)
next
  case True
  then obtain p acct toAccount toDeposit w1 where p: "kget (pps_participants (pw_pp w)) i = Some p"
    and w1: "pay_account X w a acct toAccount = Inr w1"
    and rest: "(if 0 < toDeposit then
          bindE (uint64ToInt64 toDeposit) (\<lambda>d.
          bindE (adjust_on_behalf X w1 acct a d) (\<lambda>w2. Inr (update_in w2 (credit_deposit p toDeposit))))
        else Inr w1) = Inr w'"
    using pay unfolding pay_reward_def Let_def by (auto simp: GetParticipantByID_def bindE_ok_iff optE_ok_iff)
  have c1: "credits s (pw_pp w1)" using s(1) take_pp(4) [OF w1] by simp
  show ?thesis
  proof (cases "0 < toDeposit")
    case False
    then show ?thesis using rest c1 by simp
  next
    case True
    then obtain e w2 where w: "adjust_on_behalf X w1 acct a e = Inr w2" "w' = update_in w2 (credit_deposit p toDeposit)"
      using rest by (auto simp: bindE_ok_iff)
    show ?thesis
      using credits_stored [OF _ stored_credit [OF credits_get [OF s(1,2) p]]] c1 adjust_on_behalf_pp [OF w(1)] w(2)
      by simp
  qed
qed

lemma executeSession_effect:
  assumes "executeSession X w m found = Inr w'" "own_ids (pw_pp w)" "\<And>p. p \<in> set found \<Longrightarrow> stored (pw_pp w) p"
  shows "\<exists>s. credits (pw_pp w) s \<and> createOrUpdateSession X s m = Inr (pw_pp w')"
proof -
  let ?s = "pw_pp w"
  let ?v = "mn_verifier m \<noteq> 0"
  from assms(1) obtain a payer w1 payer' ua wa w2 w3 s4 where
      payer: "kget (pps_participants ?s) (executor_id m) = Some payer"
    and fold: "foldE (pay_beneficiary X m a (tds_params (pw_td w)) (executor_discount ?v payer)) found
        (w, payer, 0, 0) = Inr (w1, payer', ua, wa)"
    and agents: "pay_user_agent X w1 m a (tp_rate (tds_params (pw_td w))) ua = Inr w2"
        "pay_wallet_agent X w2 m a (tp_rate (tds_params (pw_td w))) wa = Inr w3"
    and s4: "createOrUpdateSession X (pw_pp w3) m = Inr s4" "pw_pp w' = s4"
    by (auto simp: executeSession_def GetParticipantByID_def Let_def result_simps split: if_splits)
  have start: "stored ?s payer" using payer assms(2) by (auto simp: stored_def own_ids_def)
  have "(\<lambda>(v, q, _, _). credits ?s (pw_pp v) \<and> stored ?s q) (w1, payer', ua, wa)"
  proof (rule foldE_invariant [OF fold])
    show "case (w, payer, 0, 0) of (v, q, _, _) \<Rightarrow> credits ?s (pw_pp v) \<and> stored ?s q" using start by simp
  next
    fix p t t' assume "p \<in> set found" "case t of (v, q, _, _) \<Rightarrow> credits ?s (pw_pp v) \<and> stored ?s q"
      "pay_beneficiary X m a (tds_params (pw_td w)) (executor_discount ?v payer) p t = Inr t'"
    then show "case t' of (v, q, _, _) \<Rightarrow> credits ?s (pw_pp v) \<and> stored ?s q"
      using assms(3) pay_beneficiary_credits by (cases t; cases t') fastforce
  qed
  then have "credits ?s (pw_pp w1)" by simp
  then have "credits ?s (pw_pp w3)"
    using agents assms(2) by (auto simp: pay_user_agent_def pay_wallet_agent_def dest: pay_reward_credits)
  then show ?thesis using s4 by blast
qed


section \<open>Every message\<close>

lemma own_stored: "own_ids s \<Longrightarrow> kget (pps_participants s) i = Some p \<Longrightarrow> stored s p"
  unfolding stored_def using own_idsD [of s i p] by (intro exI [of _ p]) simp

lemma add_ancestors_stored:
  assumes "add_ancestors n s found i = Inr found'" "own_ids s" "\<forall>p \<in> set found. stored s p"
  shows "\<forall>p \<in> set found'. stored s p"
  using assms
proof (induction n arbitrary: found i)
  case 0
  then show ?case by (simp split: if_splits)
next
  case (Suc n)
  show ?case
  proof (cases "i = 0")
    case True
    then show ?thesis using Suc.prems by simp
  next
    case False
    with Suc.prems(1) obtain p where p: "kget (pps_participants s) i = Some p"
      "add_ancestors n s (if payable p \<and> \<not> contains_id found i then found @ [p] else found) (pt_validator p) = Inr found'"
      by (auto simp only: add_ancestors.simps if_False GetParticipantByID_def bindE_ok_iff optE_ok_iff)
    have "\<forall>q \<in> set (if payable p \<and> \<not> contains_id found i then found @ [p] else found). stored s q"
      using own_stored [OF Suc.prems(2) p(1)] Suc.prems(3) by simp
    then show ?thesis by (rule Suc.IH [OF p(2) Suc.prems(2)])
  qed
qed

lemma open_beneficiary_stored:
  assumes "own_ids s" "p \<in> set (open_beneficiary s schema)"
  shows "stored s p"
proof -
  from assms(2) obtain Q where "find Q (walk (pps_participants s)) = Some p"
    by (auto simp: open_beneficiary_def split: option.splits)
  then have "p \<in> set (walk (pps_participants s))" by (auto simp: find_Some_iff)
  then obtain i where "kget (pps_participants s) i = Some p" by (auto simp: walk_mem_iff)
  then show ?thesis by (rule own_stored [OF assms(1)])
qed

lemma findBeneficiaries_stored:
  assumes find: "findBeneficiaries X s i v = Inr found" and own: "own_ids s"
  shows "\<forall>p \<in> set found. stored s p"
proof -
  from find obtain schema c where rest: "(if open_mode c i v then Inr (open_beneficiary s schema)
     else
       bindE (if i \<noteq> 0 then
                bindE (GetParticipantByID s i) (\<lambda>p. add_ancestors (chain_fuel s) s [] (pt_validator p))
              else Inr []) (\<lambda>found.
       if v \<noteq> 0 then
         bindE (GetParticipantByID s v) (\<lambda>q. add_ancestors (chain_fuel s) s
           (if i \<noteq> 0 then
                (case kget (pps_participants s) i of
                   None \<Rightarrow> found
                 | Some p \<Rightarrow> if pt_revoked p = None \<and> \<not> contains_id found i then found @ [p] else found)
              else found) (pt_validator q))
       else Inr found)) = Inr found"
    unfolding findBeneficiaries_def Let_def by (auto simp only: bindE_ok_iff)
  show ?thesis
  proof (cases "open_mode c i v")
    case True
    then show ?thesis using rest open_beneficiary_stored [OF own] by auto
  next
    case False
    with rest obtain f1 where f1: "(if i \<noteq> 0 then
            bindE (GetParticipantByID s i) (\<lambda>p. add_ancestors (chain_fuel s) s [] (pt_validator p))
          else Inr []) = Inr f1"
      and f2: "(if v \<noteq> 0 then
         bindE (GetParticipantByID s v) (\<lambda>q. add_ancestors (chain_fuel s) s
           (if i \<noteq> 0 then
                (case kget (pps_participants s) i of
                   None \<Rightarrow> f1
                 | Some p \<Rightarrow> if pt_revoked p = None \<and> \<not> contains_id f1 i then f1 @ [p] else f1)
              else f1) (pt_validator q))
       else Inr f1) = Inr found"
      by (auto simp only: if_False bindE_ok_iff)
    have s1: "\<forall>p \<in> set f1. stored s p"
    proof (cases "i = 0")
      case False
      with f1 obtain p :: participant where "add_ancestors (chain_fuel s) s [] (pt_validator p) = Inr f1" by (auto simp: bindE_ok_iff)
      then show ?thesis using add_ancestors_stored [OF _ own] by simp
    qed (use f1 in simp)
    have s2: "\<forall>p \<in> set (if i \<noteq> 0 then (case kget (pps_participants s) i of None \<Rightarrow> f1
          | Some p \<Rightarrow> if pt_revoked p = None \<and> \<not> contains_id f1 i then f1 @ [p] else f1) else f1). stored s p"
      using s1 own_stored [OF own] by (simp split: option.split)
    show ?thesis
    proof (cases "v = 0")
      case True
      then show ?thesis using f2 s1 by simp
    next
      case False
      with f2 show ?thesis using add_ancestors_stored [OF _ own s2] by (auto simp: bindE_ok_iff)
    qed
  qed
qed

text \<open>The parties and agents an accepted session names.\<close>

definition session_parties :: "pp_state \<Rightarrow> msg_session \<Rightarrow> bool" where
  "session_parties s m \<longleftrightarrow> \<not> (mn_issuer m = 0 \<and> mn_verifier m = 0) \<and>
     (\<forall>i \<in> {mn_issuer m, mn_verifier m, mn_wallet_agent m, mn_agent m}. i \<noteq> 0 \<longrightarrow> kget (pps_participants s) i \<noteq> None)"

lemma preconditions_effect:
  assumes "validateSessionPreconditions X w m = Inr w1"
  shows "pw_pp w1 = pw_pp w \<and> pw_td w1 = pw_td w \<and> pw_bank w1 = pw_bank w \<and> session_parties (pw_pp w) m"
proof -
  have get: "GetParticipantByID s i = Inr p \<Longrightarrow> kget (pps_participants s) i \<noteq> None" for s i p
    by (simp add: GetParticipantByID_def optE_ok_iff)
  have party: "session_party X s m i r = Inr p \<Longrightarrow> kget (pps_participants s) i \<noteq> None" for s i r p
    by (auto simp: session_party_def bindE_ok_iff GetParticipantByID_def optE_ok_iff)
  have agent: "session_agent X s i = Inr u \<Longrightarrow> kget (pps_participants s) i \<noteq> None" for s i u
    by (auto simp: session_agent_def bindE_ok_iff GetParticipantByID_def optE_ok_iff)
  from assms obtain a b de where ne: "\<not> (mn_issuer m = 0 \<and> mn_verifier m = 0)"
      and i: "(if mn_issuer m \<noteq> 0 then bindE (session_party X (pw_pp w) m (mn_issuer m) ISSUER) (\<lambda>p. Inr (pt_id p))
               else Inr 0) = Inr a"
      and v: "(if mn_verifier m \<noteq> 0 then bindE (session_party X (pw_pp w) m (mn_verifier m) VERIFIER) (\<lambda>p. Inr (pt_id p))
               else Inr a) = Inr b"
      and ag: "session_agent X (pw_pp w) (mn_agent m) = Inr ()" "session_agent X (pw_pp w) (mn_wallet_agent m) = Inr ()"
      and w1: "w1 = w\<lparr>pw_de := de\<rparr>"
    unfolding validateSessionPreconditions_def Let_def by (auto simp only: bindE_ok_iff bindE_unit_ok_iff if_Inl_ok_iff)
      auto
  have "mn_issuer m \<noteq> 0 \<longrightarrow> kget (pps_participants (pw_pp w)) (mn_issuer m) \<noteq> None"
    using i party by (auto simp: bindE_ok_iff split: if_splits)
  moreover have "mn_verifier m \<noteq> 0 \<longrightarrow> kget (pps_participants (pw_pp w)) (mn_verifier m) \<noteq> None"
    using v party by (auto simp: bindE_ok_iff split: if_splits)
  ultimately show ?thesis using ne agent [OF ag(1)] agent [OF ag(2)] w1 by (simp add: session_parties_def)
qed


lemma session_effect:
  assumes "CreateOrUpdateParticipantSession X w m = Inr w'" "own_ids (pw_pp w)"
  shows "session_parties (pw_pp w) m \<and>
    (\<exists>s. credits (pw_pp w) s \<and> createOrUpdateSession X s m = Inr (pw_pp w'))"
proof -
  from assms(1) obtain w1 found where w1: "validateSessionPreconditions X w m = Inr w1"
      and fees: "validateSessionFees X w1 m = Inr found" and exec: "executeSession X w1 m found = Inr w'"
    by (auto simp: CreateOrUpdateParticipantSession_def bindE_ok_iff)
  note pre = preconditions_effect [OF w1]
  from fees have "findBeneficiaries X (pw_pp w1) (mn_issuer m) (mn_verifier m) = Inr found"
    unfolding validateSessionFees_def Let_def by (auto simp: bindE_ok_iff if_Inl_ok_iff)
  then have "\<forall>p \<in> set found. stored (pw_pp w1) p" by (rule findBeneficiaries_stored) (use pre assms(2) in simp)
  then show ?thesis using executeSession_effect [OF exec] pre assms(2) by simp
qed

text \<open>What one accepted message does to the state of the module.\<close>

inductive pp_effect :: "'b pp_env \<Rightarrow> (string \<Rightarrow> bool) \<Rightarrow> pp_state \<Rightarrow> pp_state \<Rightarrow> bool"
  for X :: "'b pp_env" and uuid_ok :: "string \<Rightarrow> bool" and s :: pp_state where
  creates: "pt_new X s p \<Longrightarrow> pp_effect X uuid_ok s (add_participant s p)"
| steps: "takes_step (pp_now X) s i e s' \<Longrightarrow> pp_effect X uuid_ok s s'"
| pays: "uuid_ok (mn_id m) \<Longrightarrow> session_parties s m \<Longrightarrow> credits s s1 \<Longrightarrow> createOrUpdateSession X s1 m = Inr s' \<Longrightarrow>
    pp_effect X uuid_ok s s'"
| tunes: "d \<noteq> 0 \<Longrightarrow> pp_effect X uuid_ok s (s\<lparr>pps_timeout_days := d\<rparr>)"

lemma pp_exec_effect:
  assumes "pp_exec uuid_ok gov X w op = Inr w'" "own_ids (pw_pp w)"
  shows "pp_effect X uuid_ok (pw_pp w) (pw_pp w')"
proof (cases op)
  case (Pp_Start m)
  then show ?thesis using assms(1) start_effect
    by (fastforce simp: pp_exec_def bindE_unit_ok_iff bindE_ok_iff intro: creates)
next
  case (Pp_Root m)
  then show ?thesis using assms(1) root_effect
    by (fastforce simp: pp_exec_def bindE_unit_ok_iff bindE_ok_iff intro: creates)
next
  case (Pp_Self m)
  then show ?thesis using assms(1) self_effect
    by (fastforce simp: pp_exec_def bindE_unit_ok_iff bindE_ok_iff intro: creates)
next
  case (Pp_Session m)
  then have "uuid_ok (mn_id m)" "CreateOrUpdateParticipantSession X w m = Inr w'"
    using assms(1) by (auto simp: pp_exec_def validate_session_def bindE_unit_ok_iff result_simps)
  then show ?thesis using session_effect [OF _ assms(2)] by (blast intro: pays)
next
  case (Pp_Update_Params signer d)
  then have "d \<noteq> 0" "pw_pp w' = (pw_pp w)\<lparr>pps_timeout_days := d\<rparr>"
    using assms(1) by (auto simp: pp_exec_def pp_validate_update_params_def pp_params_validate_def pp_UpdateParams_def
        bindE_unit_ok_iff result_simps)
  then show ?thesis by (auto intro: tunes)
qed (use assms(1) in \<open>auto simp: pp_exec_def bindE_unit_ok_iff
    intro: steps renew_effect validate_effect cancel_effect set_until_effect revoke_effect slash_effect repay_effect\<close>)

end
