(* ===== verification/Participant_Reach.thy ===== *)
theory Participant_Reach
imports Participant_Effects
begin

text \<open>
  The states the registries, the schemas and the participants reach together, and the
  invariant of the participants on them.
\<close>

section \<open>What the registries keep\<close>

lemma corporation_stays:
  assumes reach: "rg_reach t r grp" and step: "rg_step X (r, grp) op (r', grp')"
    and c: "kget (cos_corporations (rg_co r)) i = Some c"
  shows "\<exists>c'. kget (cos_corporations (rg_co r')) i = Some c' \<and> co_policy_address c' = co_policy_address c"
proof -
  note inv = reach_inv(1) [OF reach]
  have i: "i \<le> co_last_id (rg_co r)" "co_id c = i"
    using co_inv_fresh [OF inv, of i] co_inv_id [OF inv c] c by (auto intro: leI)
  show ?thesis
  proof (cases op)
    case (Rg_Create_Corporation m)
    then show ?thesis using step c i by (auto simp: CreateCorporation_ok_iff add_corporation_get)
  next
    case (Rg_Update_Corporation m)
    then show ?thesis using step c co_inv_id [OF inv]
      by (auto simp: UpdateCorporation_ok_iff kget_kset split: if_splits)
  next
    case (Rg_Increase_Version m)
    then obtain f' c' e' sub v where r': "r' = \<lparr>rg_co = c', rg_ec = e', rg_gf = f'\<rparr>"
        "set_active_version (rg_co r) (rg_ec r) sub v (se_block_time (re_sdk X)) = Inr (c', e')"
      using step by (auto simp: Increase_ok_iff)
    from r'(2) show ?thesis
      by (cases rule: set_active_version_ok) (use c co_inv_id [OF inv] in \<open>auto simp: r'(1) kget_kset split: if_splits\<close>)
  qed (use step c in auto)
qed

lemma ecosystem_keeps_owner:
  assumes "rg_reach t r grp" "rg_step X (r, grp) op (r', grp')" "kget (ecs_ecosystems (rg_ec r)) i = Some e"
  shows "\<exists>e'. kget (ecs_ecosystems (rg_ec r')) i = Some e' \<and> ec_corporation_id e' = ec_corporation_id e"
  using step_changed_by [OF assms(1,2)] ec_inv_id [OF reach_inv(2) [OF assms(1)]] assms(3)
  by (cases "kget (ecs_ecosystems (rg_ec r')) i = Some e") (fastforce simp: changed_by_def)+

section \<open>The fields of a validated and of a repaid participant\<close>

lemma validated_participant_sel [simp]:
  "pt_id (validated_participant now p m x u) = pt_id p"
  "pt_schema_id (validated_participant now p m x u) = pt_schema_id p"
  "pt_role (validated_participant now p m x u) = pt_role p"
  "pt_did (validated_participant now p m x u) = pt_did p"
  "pt_validator (validated_participant now p m x u) = pt_validator p"
  "pt_corp (validated_participant now p m x u) = pt_corp p"
  "pt_vs_operator (validated_participant now p m x u) = pt_vs_operator p"
  "pt_created (validated_participant now p m x u) = pt_created p"
  "pt_revoked (validated_participant now p m x u) = pt_revoked p"
  "pt_slashed (validated_participant now p m x u) = pt_slashed p"
  "pt_repaid (validated_participant now p m x u) = pt_repaid p"
  "pt_op_current_fees (validated_participant now p m x u) = pt_op_current_fees p"
  "pt_deposit (validated_participant now p m x u) = pt_deposit p"
  "pt_op_state (validated_participant now p m x u) = VALIDATED"
  "pt_op_exp (validated_participant now p m x u) = x"
  "pt_until (validated_participant now p m x u) = u"
  "pt_modified (validated_participant now p m x u) = Some now"
  "pt_op_last_change (validated_participant now p m x u) = Some now"
  "pt_from (validated_participant now p m x u) = (case pt_from p of None \<Rightarrow> Some now | Some f \<Rightarrow> Some f)"
  "pt_issuance_discount (validated_participant now p m x u) =
     (if pt_from p = None then vd_issuance_discount m else pt_issuance_discount p)"
  "pt_verification_discount (validated_participant now p m x u) =
     (if pt_from p = None then vd_verification_discount m else pt_verification_discount p)"
  by (cases "pt_from p"; simp add: validated_participant_def Let_def)+

lemma repaid_participant_sel [simp]:
  "pt_id (repaid_participant now p a) = pt_id p"
  "pt_schema_id (repaid_participant now p a) = pt_schema_id p"
  "pt_role (repaid_participant now p a) = pt_role p"
  "pt_did (repaid_participant now p a) = pt_did p"
  "pt_validator (repaid_participant now p a) = pt_validator p"
  "pt_corp (repaid_participant now p a) = pt_corp p"
  "pt_vs_operator (repaid_participant now p a) = pt_vs_operator p"
  "pt_created (repaid_participant now p a) = pt_created p"
  "pt_revoked (repaid_participant now p a) = pt_revoked p"
  "pt_slashed (repaid_participant now p a) = pt_slashed p"
  "pt_op_current_fees (repaid_participant now p a) = pt_op_current_fees p"
  "pt_op_state (repaid_participant now p a) = pt_op_state p"
  "pt_op_exp (repaid_participant now p a) = pt_op_exp p"
  "pt_op_last_change (repaid_participant now p a) = pt_op_last_change p"
  "pt_issuance_discount (repaid_participant now p a) = pt_issuance_discount p"
  "pt_verification_discount (repaid_participant now p a) = pt_verification_discount p"
  "pt_modified (repaid_participant now p a) = Some now"
  by (simp_all add: repaid_participant_def Let_def)

lemma repaid_participant_repaid: "pt_repaid (repaid_participant now p a) = None \<Longrightarrow> pt_repaid p = None"
  by (simp add: repaid_participant_def Let_def split: if_splits)

section \<open>Natures and places\<close>

text \<open>What never changes of a participant, and what never changes back.\<close>

definition nature :: "participant \<Rightarrow> nat \<times> nat \<times> int \<times> string \<times> nat \<times> nat \<times> string \<times> time option" where
  "nature p = (pt_id p, pt_schema_id p, pt_role p, pt_did p, pt_validator p, pt_corp p, pt_vs_operator p, pt_created p)"

definition in_process :: "participant \<Rightarrow> bool" where
  "in_process p \<longleftrightarrow> pt_op_state p = PENDING \<or> pt_op_state p = VALIDATED"

definition ages :: "participant \<Rightarrow> participant \<Rightarrow> bool" where
  "ages p q \<longleftrightarrow> nature q = nature p \<and> (withdrawn p \<longrightarrow> withdrawn q) \<and> (in_process q \<longrightarrow> in_process p)"

lemma ages_nature:
  assumes "ages p q"
  shows "pt_id q = pt_id p" "pt_schema_id q = pt_schema_id p" "pt_role q = pt_role p" "pt_did q = pt_did p"
    "pt_validator q = pt_validator p" "pt_corp q = pt_corp p" "pt_created q = pt_created p"
  using assms by (simp_all add: ages_def nature_def)

lemma ages_refl [simp]: "ages p p"
  by (simp add: ages_def)

lemma ages_trans: "ages p q \<Longrightarrow> ages q r \<Longrightarrow> ages p r"
  by (simp add: ages_def)

lemma ages_credit: "same_but_deposit p q \<Longrightarrow> ages p q"
  by (drule same_but_deposit_eq, erule ssubst) (simp add: ages_def nature_def withdrawn_def in_process_def)

lemma pt_step_ages: "pt_step now e p q \<Longrightarrow> ages p q"
proof (induction rule: pt_step.induct)
  case (repaid p a)
  then show ?case using repaid_participant_repaid [of now p a]
    by (auto simp: ages_def nature_def withdrawn_def in_process_def)
qed (simp_all add: ages_def nature_def withdrawn_def in_process_def)

text \<open>Who may validate whom in a schema.\<close>

definition may_validate :: "cred_schema \<Rightarrow> int \<Rightarrow> int \<Rightarrow> bool" where
  "may_validate c validator role \<longleftrightarrow> role \<in> {ISSUER, VERIFIER, ISSUER_GRANTOR, VERIFIER_GRANTOR, HOLDER} \<and>
     (validateParticipantRoleCombination role validator c = Inr () \<or>
      validator = ECOSYSTEM \<and> (role = ISSUER \<and> csm_issuer_mode c = MODE_OPEN \<or>
                                role = VERIFIER \<and> csm_verifier_mode c = MODE_OPEN))"

definition role_rank :: "int \<Rightarrow> nat" where
  "role_rank role = (if role = ECOSYSTEM then 1 else if role = ISSUER_GRANTOR \<or> role = VERIFIER_GRANTOR then 2
     else if role = ISSUER \<or> role = VERIFIER then 3 else 4)"

lemma may_validate_rank: "may_validate c validator role \<Longrightarrow> role_rank validator < role_rank role"
  by (auto simp: may_validate_def validateParticipantRoleCombination_def role_rank_def split: if_splits)

lemma may_validate_terms: "same_terms c c' \<Longrightarrow> may_validate c' = may_validate c"
  by (simp add: may_validate_def validateParticipantRoleCombination_def same_terms_def fun_eq_iff)

text \<open>A participant stands at its place: under a root of the ecosystem's owner, or under a
  validator of the same schema that may validate its role and was there before.\<close>

definition placed :: "registry \<Rightarrow> cs_state \<Rightarrow> pp_state \<Rightarrow> participant \<Rightarrow> bool" where
  "placed r s P p \<longleftrightarrow> pt_did p \<noteq> [] \<and> kget (cos_corporations (rg_co r)) (pt_corp p) \<noteq> None \<and>
     (\<exists>c. kget (css_schemas s) (pt_schema_id p) = Some c \<and>
        (if pt_role p = ECOSYSTEM then pt_validator p = 0 \<and>
           (\<exists>e. kget (ecs_ecosystems (rg_ec r)) (csm_ecosystem_id c) = Some e \<and> ec_corporation_id e = pt_corp p)
         else pt_validator p \<noteq> 0 \<and> pt_validator p < pt_id p \<and>
           (\<exists>v. kget (pps_participants P) (pt_validator p) = Some v \<and> pt_schema_id v = pt_schema_id p \<and>
              may_validate c (pt_role v) (pt_role p))))"

lemma placed_registry:
  assumes "rg_reach t r grp" "rg_step X (r, grp) op (r', grp')" "placed r s P p"
  shows "placed r' s P p"
  using assms(3) corporation_stays [OF assms(1,2)] ecosystem_keeps_owner [OF assms(1,2)]
  unfolding placed_def by (metis not_Some_eq)

lemma placed_schema:
  assumes keep: "\<And>i c. kget (css_schemas s) i = Some c \<Longrightarrow> \<exists>c'. kget (css_schemas s') i = Some c' \<and> same_terms c c'"
    and p: "placed r s P p"
  shows "placed r s' P p"
proof -
  from p obtain c where c: "kget (css_schemas s) (pt_schema_id p) = Some c" unfolding placed_def by blast
  from keep [OF this] obtain c' where c': "kget (css_schemas s') (pt_schema_id p) = Some c'" "same_terms c c'" by blast
  then show ?thesis using p c may_validate_terms [OF c'(2)]
    by (auto simp: placed_def same_terms_def split: if_splits)
qed

section \<open>One participant\<close>

definition stamped :: "time \<Rightarrow> participant \<Rightarrow> bool" where
  "stamped t p \<longleftrightarrow> (\<exists>c m. pt_created p = Some c \<and> pt_modified p = Some m \<and> zero_time < c \<and> c \<le> m \<and> m \<le> t)"

text \<open>The amounts the module computes; the fees of a participant are copied from messages.\<close>

definition amounts_ok :: "participant \<Rightarrow> bool" where
  "amounts_ok p \<longleftrightarrow> is_u64 (pt_deposit p) \<and> is_u64 (pt_op_validator_deposit p) \<and>
     is_u64 (pt_op_current_deposit p) \<and> (0 < pt_op_current_deposit p \<longrightarrow> pt_op_state p = PENDING) \<and>
     is_u64 (pt_slashed_deposit p) \<and> is_u64 (pt_repaid_deposit p) \<and>
     (pt_slashed p = None \<longrightarrow> pt_slashed_deposit p = 0 \<and> pt_repaid_deposit p = 0)"

definition participant_ok :: "time \<Rightarrow> participant \<Rightarrow> bool" where
  "participant_ok t p \<longleftrightarrow> stamped t p \<and> 1 \<le> pt_role p \<and> pt_role p \<le> 6 \<and>
     pt_op_state p \<in> {0, PENDING, VALIDATED, TERMINATED} \<and>
     (pt_role p = ECOSYSTEM \<longrightarrow> pt_op_state p = 0) \<and>
     (pt_from p = None \<longrightarrow> pt_op_state p \<in> {PENDING, TERMINATED} \<and> pt_until p = None \<and> pt_op_exp p = None) \<and>
     amounts_ok p \<and>
     is_u64 (pt_op_current_fees p) \<and> (0 < pt_op_current_fees p \<longrightarrow> pt_op_state p = PENDING) \<and>
     pt_issuance_discount p \<le> maxDiscount \<and> pt_verification_discount p \<le> maxDiscount \<and>
     (pt_repaid p \<noteq> None \<longrightarrow> pt_slashed p \<noteq> None) \<and> (\<forall>v. pt_revoked p = Some v \<longrightarrow> v \<le> t)"

lemma participant_ok_mono: "participant_ok t p \<Longrightarrow> t \<le> u \<Longrightarrow> participant_ok u p"
  unfolding participant_ok_def stamped_def by (meson order_trans)

lemma amounts_credit: "amounts_ok p \<Longrightarrow> d = pt_deposit p \<or> is_u64 d \<Longrightarrow> amounts_ok (p\<lparr>pt_deposit := d\<rparr>)"
  by (auto simp: amounts_ok_def)

lemma participant_ok_credit:
  assumes "participant_ok t p" "same_but_deposit p q"
  shows "participant_ok t q"
proof -
  define d where "d = pt_deposit q"
  have q: "q = p\<lparr>pt_deposit := d\<rparr>" using same_but_deposit_eq [OF assms(2)] by (simp add: d_def)
  have "d = pt_deposit p \<or> is_u64 d" using assms(2) by (auto simp: same_but_deposit_def d_def)
  then have "amounts_ok q" unfolding q using assms(1) by (intro amounts_credit) (simp_all add: participant_ok_def)
  moreover have "stamped t q" using assms(1) unfolding q by (simp add: participant_ok_def stamped_def)
  ultimately show ?thesis using assms(1) unfolding q by (simp add: participant_ok_def)
qed

lemma stamped_now: "stamped t p \<Longrightarrow> t \<le> now \<Longrightarrow> pt_created q = pt_created p \<Longrightarrow> pt_modified q = Some now \<Longrightarrow>
    stamped now q"
  unfolding stamped_def by force

lemma stamped_same: "stamped t p \<Longrightarrow> t \<le> now \<Longrightarrow> pt_created q = pt_created p \<Longrightarrow> pt_modified q = pt_modified p \<Longrightarrow>
    stamped now q"
  unfolding stamped_def by force

lemma is_u64_0 [simp]: "is_u64 0"
  by (simp add: is_u64_def)

lemma amounts_step:
  assumes "pt_step now e p q" "amounts_ok p"
  shows "amounts_ok q"
  using assms(1)
proof cases
  case (renewed f d c)
  then show ?thesis using assms(2) by (simp add: amounts_ok_def)
next
  case (validated m x u d)
  then show ?thesis using assms(2) by (auto simp: amounts_ok_def validated_participant_def Let_def)
next
  case cancelled
  then show ?thesis using assms(2) by (simp add: amounts_ok_def)
next
  case (adjusted u)
  then show ?thesis using assms(2) by (simp add: amounts_ok_def)
next
  case (revoked d)
  then show ?thesis using assms(2) by (auto simp: amounts_ok_def)
next
  case (slashed a d)
  then show ?thesis using assms(2) by (simp add: amounts_ok_def)
next
  case (repaid a)
  then show ?thesis using assms(2) by (auto simp: amounts_ok_def repaid_participant_def Let_def)
qed

lemma pt_step_ok:
  assumes "pt_step now e p q" "participant_ok t p" "t \<le> now"
  shows "participant_ok now q"
proof -
  have old: "participant_ok now p" by (rule participant_ok_mono [OF assms(2,3)])
  then have am: "amounts_ok q" using amounts_step [OF assms(1)] by (simp add: participant_ok_def)
  from old have "stamped now p" by (simp add: participant_ok_def)
  note time = stamped_now [OF this order_refl] stamped_same [OF this order_refl]
  from assms(1) show ?thesis
  proof cases
    case (validated m x u d)
    then show ?thesis using old time am by (auto simp: participant_ok_def split: option.splits)
  next
    case (repaid a)
    then show ?thesis using old time am repaid_participant_repaid [of now p a] by (auto simp: participant_ok_def)
  next
    case (adjusted u)
    then show ?thesis using old time am by (auto simp: participant_ok_def IsValidParticipant_def split: if_splits)
  qed (use old time am in \<open>auto simp: participant_ok_def split: if_splits\<close>)
qed

text \<open>The participant a creating message stores.\<close>

lemmas new_defs = new_applicant_def new_root_def new_self_def blank_participant_def

lemma new_ok:
  assumes "pt_new X s p" "zero_time < pp_now X"
  shows "participant_ok (pp_now X) (p\<lparr>pt_id := i\<rparr>)"
  using assms(1)
proof cases
  case (applicant m v c corp fees deposit)
  then show ?thesis using assms(2) by (auto simp: participant_ok_def amounts_ok_def stamped_def new_defs maxDiscount_def)
next
  case (root m c x corp f)
  then show ?thesis using assms(2) by (auto simp: participant_ok_def amounts_ok_def stamped_def new_defs maxDiscount_def)
next
  case (self m v c corp f)
  then show ?thesis using assms(2) by (auto simp: participant_ok_def amounts_ok_def stamped_def new_defs maxDiscount_def)
qed

text \<open>The registries a message reads are those of the chain.\<close>

definition pp_linked :: "'b pp_env \<Rightarrow> registry \<Rightarrow> cs_state \<Rightarrow> bool" where
  "pp_linked X r s \<longleftrightarrow> pe_co X = rg_co r \<and> pe_ec X = rg_ec r \<and> pe_cs X = s"

lemma registered_corporation:
  assumes "co_inv s" "kget (cos_by_policy s) a = Some i"
  shows "kget (cos_corporations s) i \<noteq> None"
  using co_inv_policy [OF assms(1)] assms(2) unfolding co_pol.index_ok_def by blast

lemma new_placed:
  assumes new: "pt_new X P p" and link: "pp_linked X r s" and co: "co_inv (rg_co r)"
    and fresh: "\<And>i. kget (pps_participants P) i \<noteq> None \<Longrightarrow> i \<le> pp_last_id P"
  shows "placed r s (add_participant P p) (p\<lparr>pt_id := Suc (pp_last_id P)\<rparr>)"
  using new
proof cases
  case (applicant m v c corp fees deposit)
  moreover from this have "kget (cos_corporations (rg_co r)) corp \<noteq> None" "sp_validator m \<le> pp_last_id P"
    using registered_corporation [OF co] fresh link by (auto simp: pp_linked_def)
  ultimately show ?thesis using link
    by (auto simp: placed_def new_defs pp_linked_def may_validate_def kget_kset)
next
  case (root m c x corp f)
  moreover from this have "kget (cos_corporations (rg_co r)) corp \<noteq> None"
    using registered_corporation [OF co] link by (auto simp: pp_linked_def)
  ultimately show ?thesis using link by (auto simp: placed_def new_defs pp_linked_def)
next
  case (self m v c corp f)
  moreover from this have "kget (cos_corporations (rg_co r)) corp \<noteq> None" "sf_validator m \<le> pp_last_id P"
    using registered_corporation [OF co] fresh link by (auto simp: pp_linked_def)
  ultimately show ?thesis using link
    by (auto simp: placed_def new_defs pp_linked_def may_validate_def kget_kset)
qed

section \<open>All participants\<close>

text \<open>Participants only age, and none disappears.\<close>

definition aged :: "pp_state \<Rightarrow> pp_state \<Rightarrow> bool" where
  "aged P Q \<longleftrightarrow> pps_counter Q = pps_counter P \<and>
     (\<forall>i. rel_option ages (kget (pps_participants P) i) (kget (pps_participants Q) i))"

lemma aged_get:
  assumes "aged P Q" "kget (pps_participants Q) i = Some q"
  obtains p where "kget (pps_participants P) i = Some p" "ages p q"
  using assms unfolding aged_def by (metis option.rel_cases option.distinct(1) option.inject)

lemma aged_keeps:
  assumes "aged P Q" "kget (pps_participants P) i = Some p"
  obtains q where "kget (pps_participants Q) i = Some q" "ages p q"
  using assms unfolding aged_def by (metis option.rel_cases option.distinct(1) option.inject)

lemma aged_none: "aged P Q \<Longrightarrow> kget (pps_participants Q) i = None \<longleftrightarrow> kget (pps_participants P) i = None"
  unfolding aged_def by (metis option.rel_distinct(1,2) not_None_eq)

lemma aged_last: "aged P Q \<Longrightarrow> pp_last_id Q = pp_last_id P"
  by (simp add: aged_def pp_last_id_def)

lemma credits_aged: "credits P Q \<Longrightarrow> aged P Q"
  unfolding credits_def aged_def by (auto intro: option.rel_mono_strong [OF _ ages_credit])

lemma takes_step_get:
  assumes "takes_step now P i e Q" "own_ids P"
  obtains p q where "kget (pps_participants P) i = Some p" "pt_step now e p q" "period_free P p q" "pt_id q = i"
    "Q = UpdateParticipant P q"
  using assms ages_nature(1) [OF pt_step_ages] own_idsD [OF assms(2)] unfolding takes_step_def by metis

lemma takes_step_aged:
  assumes "takes_step now P i e Q" "own_ids P"
  shows "aged P Q"
  using assms
proof (rule takes_step_get)
  fix p q assume "kget (pps_participants P) i = Some p" "pt_step now e p q" "pt_id q = i" "Q = UpdateParticipant P q"
  then show ?thesis by (auto simp: aged_def kget_kset pt_step_ages option.rel_refl)
qed

lemma aged_placed:
  assumes "aged P Q" "placed r s P p" "ages p q"
  shows "placed r s Q q"
proof (cases "pt_role p = ECOSYSTEM")
  case True
  then show ?thesis using assms(2) ages_nature [OF assms(3)] by (auto simp: placed_def)
next
  case False
  then obtain c v where c: "kget (css_schemas s) (pt_schema_id p) = Some c" "pt_did p \<noteq> []"
      "kget (cos_corporations (rg_co r)) (pt_corp p) \<noteq> None"
      "pt_validator p \<noteq> 0" "pt_validator p < pt_id p"
    and v: "kget (pps_participants P) (pt_validator p) = Some v" "pt_schema_id v = pt_schema_id p"
      "may_validate c (pt_role v) (pt_role p)"
    using assms(2) by (auto simp: placed_def)
  from aged_keeps [OF assms(1) v(1)] obtain v' where
    v': "kget (pps_participants Q) (pt_validator p) = Some v'" "ages v v'" .
  show ?thesis using False c v(2,3) v'(1) ages_nature [OF v'(2)] ages_nature [OF assms(3)] by (simp add: placed_def)
qed

text \<open>One process per context, one corporation per DID, no two periods at the same time.\<close>

definition same_place :: "participant \<Rightarrow> participant \<Rightarrow> bool" where
  "same_place p q \<longleftrightarrow> same_context (pt_schema_id p) (pt_role p) (pt_validator p) (pt_corp p) q"

definition one_process :: "pp_state \<Rightarrow> bool" where
  "one_process P \<longleftrightarrow> (\<forall>i j p q. kget (pps_participants P) i = Some p \<longrightarrow> kget (pps_participants P) j = Some q \<longrightarrow>
     in_process p \<longrightarrow> in_process q \<longrightarrow> same_place p q \<longrightarrow> i = j)"

definition one_owner :: "pp_state \<Rightarrow> bool" where
  "one_owner P \<longleftrightarrow> (\<forall>i j p q. kget (pps_participants P) i = Some p \<longrightarrow> kget (pps_participants P) j = Some q \<longrightarrow>
     pt_did p = pt_did q \<longrightarrow> pt_corp p = pt_corp q)"

definition ends_before :: "participant \<Rightarrow> participant \<Rightarrow> bool" where
  "ends_before p q \<longleftrightarrow> (\<exists>e f. pt_until p = Some e \<and> pt_from q = Some f \<and> e \<le> f)"

definition periods_apart :: "pp_state \<Rightarrow> bool" where
  "periods_apart P \<longleftrightarrow> (\<forall>i j p q. kget (pps_participants P) i = Some p \<longrightarrow> kget (pps_participants P) j = Some q \<longrightarrow>
     i \<noteq> j \<longrightarrow> same_place p q \<longrightarrow> \<not> withdrawn p \<longrightarrow> \<not> withdrawn q \<longrightarrow> pt_from p \<noteq> None \<longrightarrow> pt_from q \<noteq> None \<longrightarrow>
     ends_before p q \<or> ends_before q p)"

lemma same_place_ages: "ages p p' \<Longrightarrow> ages q q' \<Longrightarrow> same_place p' q' = same_place p q"
  using ages_nature [of p p'] ages_nature [of q q'] by (simp add: same_place_def same_context_def)

lemma same_place_sym: "same_place p q \<Longrightarrow> same_place q p"
  by (simp add: same_place_def same_context_def)

lemma one_processD: "one_process P \<Longrightarrow> kget (pps_participants P) i = Some p \<Longrightarrow>
    kget (pps_participants P) j = Some q \<Longrightarrow> in_process p \<Longrightarrow> in_process q \<Longrightarrow> same_place p q \<Longrightarrow> i = j"
  unfolding one_process_def by blast

lemma one_ownerD: "one_owner P \<Longrightarrow> kget (pps_participants P) i = Some p \<Longrightarrow>
    kget (pps_participants P) j = Some q \<Longrightarrow> pt_did p = pt_did q \<Longrightarrow> pt_corp p = pt_corp q"
  unfolding one_owner_def by blast

lemma aged_process:
  assumes "aged P Q" "one_process P"
  shows "one_process Q"
  unfolding one_process_def
proof (intro allI impI)
  fix i j p' q' assume new: "kget (pps_participants Q) i = Some p'" "kget (pps_participants Q) j = Some q'"
    "in_process p'" "in_process q'" "same_place p' q'"
  from aged_get [OF assms(1) new(1)] obtain p where p: "kget (pps_participants P) i = Some p" "ages p p'" .
  from aged_get [OF assms(1) new(2)] obtain q where q: "kget (pps_participants P) j = Some q" "ages q q'" .
  show "i = j" using new(3-5) p(2) q(2)
    by (intro one_processD [OF assms(2) p(1) q(1)]) (simp_all add: ages_def same_place_ages [OF p(2) q(2)])
qed

lemma aged_owner:
  assumes "aged P Q" "one_owner P"
  shows "one_owner Q"
  unfolding one_owner_def
proof (intro allI impI)
  fix i j p' q' assume new: "kget (pps_participants Q) i = Some p'" "kget (pps_participants Q) j = Some q'"
    "pt_did p' = pt_did q'"
  from aged_get [OF assms(1) new(1)] obtain p where p: "kget (pps_participants P) i = Some p" "ages p p'" .
  from aged_get [OF assms(1) new(2)] obtain q where q: "kget (pps_participants P) j = Some q" "ages q q'" .
  show "pt_corp p' = pt_corp q'"
    using one_ownerD [OF assms(2) p(1) q(1)] new(3) ages_nature [OF p(2)] ages_nature [OF q(2)] by simp
qed

text \<open>A step keeps the periods apart because the new period was checked; a credit does not
  touch them.\<close>

lemma periods_apartD: "periods_apart P \<Longrightarrow> kget (pps_participants P) i = Some p \<Longrightarrow>
    kget (pps_participants P) j = Some q \<Longrightarrow> i \<noteq> j \<Longrightarrow> same_place p q \<Longrightarrow> \<not> withdrawn p \<Longrightarrow> \<not> withdrawn q \<Longrightarrow>
    pt_from p \<noteq> None \<Longrightarrow> pt_from q \<noteq> None \<Longrightarrow> ends_before p q \<or> ends_before q p"
  unfolding periods_apart_def by blast

lemma same_but_deposit_period:
  "same_but_deposit p q \<Longrightarrow> pt_from q = pt_from p \<and> pt_until q = pt_until p \<and> withdrawn q = withdrawn p"
  by (drule same_but_deposit_eq, erule ssubst) (simp add: withdrawn_def)

lemma credits_apart:
  assumes "credits P Q" "periods_apart P"
  shows "periods_apart Q"
  unfolding periods_apart_def
proof (intro allI impI)
  fix i j p' q' assume new: "kget (pps_participants Q) i = Some p'" "kget (pps_participants Q) j = Some q'"
    "i \<noteq> j" "same_place p' q'" "\<not> withdrawn p'" "\<not> withdrawn q'" "pt_from p' \<noteq> None" "pt_from q' \<noteq> None"
  have get: "\<exists>p. kget (pps_participants P) i = Some p \<and> same_but_deposit p p'"
    if "kget (pps_participants Q) i = Some p'" for i p'
    using that assms(1) unfolding credits_def by (metis option.rel_cases option.distinct(1) option.inject)
  from get [OF new(1)] obtain p where p: "kget (pps_participants P) i = Some p" "same_but_deposit p p'" by blast
  from get [OF new(2)] obtain q where q: "kget (pps_participants P) j = Some q" "same_but_deposit q q'" by blast
  note per = same_but_deposit_period [OF p(2)] same_but_deposit_period [OF q(2)]
  have "ends_before p q \<or> ends_before q p"
    using new(3-8) per same_place_ages [OF ages_credit [OF p(2)] ages_credit [OF q(2)]]
    by (intro periods_apartD [OF assms(2) p(1) q(1)]) simp_all
  then show "ends_before p' q' \<or> ends_before q' p'" using per by (simp add: ends_before_def)
qed

text \<open>A participant whose period is free does not overlap with the others of its place.\<close>

lemma free_period_apart:
  assumes free: "\<not> context_blocked P p f u" and q: "kget (pps_participants P) j = Some q" "pt_id q \<noteq> pt_id p"
    and place: "same_place p q" "\<not> withdrawn q" "pt_from q \<noteq> None" and f: "f = Some b"
  shows "\<exists>e. pt_until q = Some e \<and> e \<le> b"
proof -
  have "q \<in> set (walk (pps_participants P))" using q(1) by (auto simp: walk_mem_iff)
  then have "\<not> blocks_period f u q"
    using free q(2) place by (auto simp: context_blocked_def same_place_def list_ex_iff)
  then show ?thesis using f by (auto simp: blocks_period_def split: option.splits)
qed

lemma step_apart:
  assumes step: "takes_step now P i e Q" and own: "own_ids P" and apart: "periods_apart P"
  shows "periods_apart Q"
proof -
  from takes_step_get [OF step own] obtain p q where p: "kget (pps_participants P) i = Some p" "pt_step now e p q"
    "period_free P p q" "pt_id q = i" "Q = UpdateParticipant P q" .
  note age = pt_step_ages [OF p(2)]
  have one: "ends_before q x \<or> ends_before x q"
    if x: "kget (pps_participants P) j = Some x" "j \<noteq> i" "same_place q x" "\<not> withdrawn q" "\<not> withdrawn x"
      "pt_from q \<noteq> None" "pt_from x \<noteq> None" for j x
  proof -
    have place: "same_place p x" "\<not> withdrawn p"
      using same_place_ages [OF age ages_refl, of x] x(3,4) age by (auto simp: ages_def)
    show ?thesis
    proof (cases "pt_from q = pt_from p \<and> pt_until q = pt_until p")
      case True
      then show ?thesis using periods_apartD [OF apart p(1) x(1)] x place by (auto simp: ends_before_def)
    next
      case False
      then have "\<not> context_blocked P p (pt_from q) (pt_until q)" using p(3) by (auto simp: period_free_def)
      moreover obtain b where "pt_from q = Some b" using x(6) by blast
      moreover have "pt_id x \<noteq> pt_id p" using own_idsD [OF own] p(1) x(1,2) by auto
      ultimately show ?thesis using free_period_apart [OF _ x(1) _ place(1) x(5,7)] by (auto simp: ends_before_def)
    qed
  qed
  show ?thesis unfolding periods_apart_def
  proof (intro allI impI)
    fix j k a b assume new: "kget (pps_participants Q) j = Some a" "kget (pps_participants Q) k = Some b" "j \<noteq> k"
      "same_place a b" "\<not> withdrawn a" "\<not> withdrawn b" "pt_from a \<noteq> None" "pt_from b \<noteq> None"
    consider "j = i" | "k = i" | "j \<noteq> i" "k \<noteq> i" by blast
    then show "ends_before a b \<or> ends_before b a"
    proof cases
      case 1
      then show ?thesis using one [of k b] new p(4,5) by (auto simp: kget_kset)
    next
      case 2
      then show ?thesis using one [of j a] new p(4,5) same_place_sym [OF new(4)] by (auto simp: kget_kset)
    next
      case 3
      then show ?thesis using periods_apartD [OF apart, of j a k b] new p(4,5) by (simp add: kget_kset)
    qed
  qed
qed

text \<open>A new participant.\<close>

definition newcomer :: "pp_state \<Rightarrow> participant \<Rightarrow> participant" where
  "newcomer P p = p\<lparr>pt_id := Suc (pp_last_id P)\<rparr>"

lemma add_participant_get: "kget (pps_participants (add_participant P p)) i =
    (if i = Suc (pp_last_id P) then Some (newcomer P p) else kget (pps_participants P) i)"
  by (simp add: newcomer_def kget_kset)

lemma newcomer_owner:
  assumes "pt_new X P p" "kget (pps_participants P) i = Some q" "pt_did q = pt_did p"
  shows "pt_corp q = pt_corp p"
proof -
  have "assertDIDCorporationConsistent P (pt_did p) (pt_corp p) = Inr ()" "pt_did p \<noteq> []"
    using assms(1) by (cases; simp add: new_defs)+
  moreover have "q \<in> set (walk (pps_participants P))" using assms(2) by (auto simp: walk_mem_iff)
  ultimately show ?thesis using assms(3)
    by (auto simp: assertDIDCorporationConsistent_def list_ex_iff split: if_splits)
qed

lemma newcomer_process:
  assumes "pt_new X P p" "in_process p" "kget (pps_participants P) i = Some q" "same_place p q"
  shows "\<not> in_process q"
  using assms(1)
proof cases
  case (applicant m v c corp fees deposit)
  moreover have "q \<in> set (walk (pps_participants P))" using assms(3) by (auto simp: walk_mem_iff)
  ultimately show ?thesis using assms(4)
    by (auto simp: new_defs checkOverlap_def same_place_def in_process_def list_ex_iff split: if_splits)
qed (use assms(2) in \<open>simp_all add: new_defs in_process_def\<close>)

lemma newcomer_apart:
  assumes "pt_new X P p" "kget (pps_participants P) i = Some q" "same_place p q" "\<not> withdrawn q" "pt_from p \<noteq> None"
  shows "ends_before q p"
proof -
  have mem: "q \<in> set (walk (pps_participants P))" using assms(2) by (auto simp: walk_mem_iff)
  from assms(1) show ?thesis
  proof cases
    case (applicant m v c corp fees deposit)
    then show ?thesis using assms(5) by (simp add: new_defs)
  next
    case (root m c x corp f)
    then have "\<not> blocks_period (Some f) (rt_until m) q" "pt_from p = Some f" using mem assms(3,4)
      by (auto simp: checkCreateRootParticipantOverlap_def pp_lookups new_defs same_place_def same_context_def
          list_ex_iff bindE_ok_iff optE_ok_iff split: if_splits)
    then show ?thesis by (auto simp: blocks_period_def ends_before_def split: option.splits)
  next
    case (self m v c corp f)
    then have "\<not> blocks_period (Some f) (sf_until m) q" "pt_from p = Some f" using mem assms(3,4)
      by (auto simp: checkCreateParticipantOverlap_def pp_lookups new_defs same_place_def list_ex_iff bindE_ok_iff
          optE_ok_iff split: if_splits)
    then show ?thesis by (auto simp: blocks_period_def ends_before_def split: option.splits)
  qed
qed

lemma newcomer_sel [simp]:
  "pt_did (newcomer P p) = pt_did p" "pt_corp (newcomer P p) = pt_corp p" "pt_from (newcomer P p) = pt_from p"
  "pt_until (newcomer P p) = pt_until p" "pt_id (newcomer P p) = Suc (pp_last_id P)" "pt_role (newcomer P p) = pt_role p"
  "pt_schema_id (newcomer P p) = pt_schema_id p" "pt_validator (newcomer P p) = pt_validator p"
  "pt_op_state (newcomer P p) = pt_op_state p" "pt_revoked (newcomer P p) = pt_revoked p"
  "pt_slashed (newcomer P p) = pt_slashed p" "pt_repaid (newcomer P p) = pt_repaid p"
  by (simp_all add: newcomer_def)

lemma newcomer_same [simp]:
  "in_process (newcomer P p) = in_process p" "withdrawn (newcomer P p) = withdrawn p"
  "same_place (newcomer P p) q = same_place p q" "same_place q (newcomer P p) = same_place q p"
  "ends_before (newcomer P p) q = ends_before p q" "ends_before q (newcomer P p) = ends_before q p"
  by (simp_all only: in_process_def withdrawn_def same_place_def same_context_def ends_before_def newcomer_sel)

lemma add_participant_cases:
  assumes "kget (pps_participants (add_participant P p)) i = Some q"
  obtains (new) "i = Suc (pp_last_id P)" "q = newcomer P p" | (old) "kget (pps_participants P) i = Some q"
proof (cases "i = Suc (pp_last_id P)")
  case True
  then show ?thesis using assms new by (simp only: add_participant_get if_True option.inject simp_thms)
next
  case False
  then show ?thesis using assms old by (simp only: add_participant_get if_False)
qed

lemma add_participant_process:
  assumes new: "pt_new X P p" and P: "one_process P"
  shows "one_process (add_participant P p)"
  unfolding one_process_def
proof (intro allI impI)
  fix i j a b assume get: "kget (pps_participants (add_participant P p)) i = Some a"
      "kget (pps_participants (add_participant P p)) j = Some b" and h: "in_process a" "in_process b" "same_place a b"
  show "i = j" using get(1)
  proof (cases rule: add_participant_cases)
    case n1: new
    show ?thesis using get(2)
      by (cases rule: add_participant_cases) (use n1 h newcomer_process [OF new] in simp_all)
  next
    case o1: old
    show ?thesis using get(2)
      by (cases rule: add_participant_cases)
        (use o1 h newcomer_process [OF new _ o1] same_place_sym [OF h(3)] one_processD [OF P o1] in simp_all)
  qed
qed

lemma add_participant_owner:
  assumes new: "pt_new X P p" and P: "one_owner P"
  shows "one_owner (add_participant P p)"
  unfolding one_owner_def
proof (intro allI impI)
  fix i j a b assume get: "kget (pps_participants (add_participant P p)) i = Some a"
      "kget (pps_participants (add_participant P p)) j = Some b" and h: "pt_did a = pt_did b"
  show "pt_corp a = pt_corp b" using get(1)
  proof (cases rule: add_participant_cases)
    case n1: new
    show ?thesis using get(2)
    proof (cases rule: add_participant_cases)
      case old
      then show ?thesis using n1 h newcomer_owner [OF new old] by simp
    qed (use n1 in simp)
  next
    case o1: old
    show ?thesis using get(2)
    proof (cases rule: add_participant_cases)
      case n2: new
      then show ?thesis using h newcomer_owner [OF new o1] by simp
    next
      case old
      then show ?thesis by (rule one_ownerD [OF P o1 _ h])
    qed
  qed
qed

lemma add_participant_apart:
  assumes new: "pt_new X P p" and P: "periods_apart P"
  shows "periods_apart (add_participant P p)"
  unfolding periods_apart_def
proof (intro allI impI)
  fix i j a b assume get: "kget (pps_participants (add_participant P p)) i = Some a"
      "kget (pps_participants (add_participant P p)) j = Some b"
    and h: "i \<noteq> j" "same_place a b" "\<not> withdrawn a" "\<not> withdrawn b" "pt_from a \<noteq> None" "pt_from b \<noteq> None"
  show "ends_before a b \<or> ends_before b a" using get(1)
  proof (cases rule: add_participant_cases)
    case n1: new
    show ?thesis using get(2)
      by (cases rule: add_participant_cases) (use n1 h newcomer_apart [OF new] in simp_all)
  next
    case o1: old
    show ?thesis using get(2)
      by (cases rule: add_participant_cases)
        (use o1 h newcomer_apart [OF new o1] same_place_sym [OF h(2)] periods_apartD [OF P o1] in simp_all)
  qed
qed

section \<open>Sessions\<close>

text \<open>A session is stored under its id, holds at least one record, numbered from one, and
  every participant a record names exists.\<close>

definition record_ok :: "time \<Rightarrow> pp_state \<Rightarrow> session_record \<Rightarrow> bool" where
  "record_ok t P x \<longleftrightarrow> (\<exists>c. sr_created x = Some c \<and> c \<le> t) \<and> \<not> (sr_issuer x = 0 \<and> sr_verifier x = 0) \<and>
     (\<forall>i \<in> {sr_issuer x, sr_verifier x, sr_wallet_agent x, sr_agent x}. i \<noteq> 0 \<longrightarrow>
        kget (pps_participants P) i \<noteq> None)"

definition session_ok :: "(string \<Rightarrow> bool) \<Rightarrow> time \<Rightarrow> registry \<Rightarrow> pp_state \<Rightarrow> string \<Rightarrow> pp_session \<Rightarrow> bool" where
  "session_ok uuid_ok t r P i x \<longleftrightarrow> ss_id x = i \<and> uuid_ok i \<and> kget (cos_corporations (rg_co r)) (ss_corp x) \<noteq> None \<and>
     (\<exists>c m. ss_created x = Some c \<and> ss_modified x = Some m \<and> c \<le> m \<and> m \<le> t) \<and>
     ss_records x \<noteq> [] \<and> (\<forall>y \<in> set (ss_records x). record_ok t P y) \<and>
     map sr_id (ss_records x) = map (\<lambda>k. u64 (int k + 1)) [0..<length (ss_records x)]"

lemma record_ok_grow:
  assumes "\<And>i. kget (pps_participants P) i \<noteq> None \<Longrightarrow> kget (pps_participants Q) i \<noteq> None" "record_ok t P x" "t \<le> u"
  shows "record_ok u Q x"
  using assms unfolding record_ok_def by (meson order_trans)

lemma session_ok_grow:
  assumes P: "\<And>i. kget (pps_participants P) i \<noteq> None \<Longrightarrow> kget (pps_participants Q) i \<noteq> None"
    and r: "\<And>i. kget (cos_corporations (rg_co r)) i \<noteq> None \<Longrightarrow> kget (cos_corporations (rg_co r')) i \<noteq> None"
    and x: "session_ok uuid_ok t r P i x" "t \<le> u"
  shows "session_ok uuid_ok u r' Q i x"
  using x(1) order_trans [OF _ x(2)] record_ok_grow [OF P _ x(2)] r unfolding session_ok_def by blast

lemma new_session_ok:
  assumes run: "createOrUpdateSession X Q m = Inr Q'" and parties: "session_parties P m" and uuid: "uuid_ok (mn_id m)"
    and same: "\<And>i. kget (pps_participants P) i \<noteq> None \<Longrightarrow> kget (pps_participants Q) i \<noteq> None"
    and old: "\<And>i x. kget (pps_sessions Q) i = Some x \<Longrightarrow> session_ok uuid_ok (pp_now X) r Q i x"
    and corp: "\<And>a i. kget (cos_by_policy (pe_co X)) a = Some i \<Longrightarrow> kget (cos_corporations (rg_co r)) i \<noteq> None"
    and x: "kget (pps_sessions Q') i = Some x"
  shows "session_ok uuid_ok (pp_now X) r Q' i x"
proof -
  define before where "before = (case kget (pps_sessions Q) (mn_id m) of None \<Rightarrow> [] | Some y \<Rightarrow> ss_records y)"
  obtain c y where c: "kget (cos_by_policy (pe_co X)) (mn_corporation m) = Some c"
    and Q': "pps_participants Q' = pps_participants Q"
      "pps_sessions Q' = kset (pps_sessions Q) (mn_id m)
         (y\<lparr>ss_records := ss_records y @ [new_session_record (pp_now X) m y]\<rparr>)"
    and y: "y = (case kget (pps_sessions Q) (mn_id m) of
        None \<Rightarrow> \<lparr>ss_id = mn_id m, ss_corp = c, ss_vs_operator = mn_operator m,
                 ss_created = Some (pp_now X), ss_modified = Some (pp_now X), ss_records = []\<rparr>
      | Some old \<Rightarrow> old\<lparr>ss_modified := Some (pp_now X)\<rparr>)"
    using run by (auto simp: createOrUpdateSession_def corpIDFromAccount_def Let_def bindE_ok_iff optE_ok_iff)
  have rec: "record_ok (pp_now X) Q (new_session_record (pp_now X) m y)"
    using parties same by (auto simp: record_ok_def new_session_record_def session_parties_def)
  have head: "ss_id y = mn_id m" "kget (cos_corporations (rg_co r)) (ss_corp y) \<noteq> None"
      "\<exists>a b. ss_created y = Some a \<and> ss_modified y = Some b \<and> a \<le> b \<and> b \<le> pp_now X"
      "\<forall>z \<in> set (ss_records y). record_ok (pp_now X) Q z"
      "map sr_id (ss_records y) = map (\<lambda>k. u64 (int k + 1)) [0..<length (ss_records y)]"
    using old [of "mn_id m"] corp [OF c] unfolding y session_ok_def by (auto split: option.splits)
  have "session_ok uuid_ok (pp_now X) r Q (mn_id m)
      (y\<lparr>ss_records := ss_records y @ [new_session_record (pp_now X) m y]\<rparr>)"
    using head rec uuid by (auto simp: session_ok_def new_session_record_def)
  then have "session_ok uuid_ok (pp_now X) r Q i x"
    using x old [of i x] unfolding Q'(2) kget_kset by (auto split: if_splits)
  then show ?thesis using Q'(1) by (simp add: session_ok_def record_ok_def)
qed

section \<open>The invariant\<close>

definition pp_inv :: "(string \<Rightarrow> bool) \<Rightarrow> time \<Rightarrow> registry \<Rightarrow> cs_state \<Rightarrow> pp_state \<Rightarrow> bool" where
  "pp_inv uuid_ok t r s P \<longleftrightarrow> zero_time < t \<and> pps_timeout_days P \<noteq> 0 \<and>
     (\<forall>i p. kget (pps_participants P) i = Some p \<longrightarrow>
        pt_id p = i \<and> 0 < i \<and> i \<le> pp_last_id P \<and> participant_ok t p \<and> placed r s P p) \<and>
     (\<forall>i. 0 < i \<longrightarrow> i \<le> pp_last_id P \<longrightarrow> kget (pps_participants P) i \<noteq> None) \<and>
     one_process P \<and> one_owner P \<and> periods_apart P \<and>
     (\<forall>i x. kget (pps_sessions P) i = Some x \<longrightarrow> session_ok uuid_ok t r P i x)"

lemma pp_inv_participant: "pp_inv uuid_ok t r s P \<Longrightarrow> kget (pps_participants P) i = Some p \<Longrightarrow>
    pt_id p = i \<and> 0 < i \<and> i \<le> pp_last_id P \<and> participant_ok t p \<and> placed r s P p"
  unfolding pp_inv_def by blast

lemma pp_inv_own: "pp_inv uuid_ok t r s P \<Longrightarrow> own_ids P"
  unfolding own_ids_def using pp_inv_participant by blast

lemma pp_inv_dense: "pp_inv uuid_ok t r s P \<Longrightarrow> 0 < i \<Longrightarrow> i \<le> pp_last_id P \<Longrightarrow> kget (pps_participants P) i \<noteq> None"
  unfolding pp_inv_def by blast

lemma pp_inv_mono:
  assumes inv: "pp_inv uuid_ok t r s P" and t: "t \<le> u"
  shows "pp_inv uuid_ok u r s P"
  using inv t participant_ok_mono [OF _ t] session_ok_grow [OF _ _ _ t] order_less_le_trans [OF _ t]
  unfolding pp_inv_def by blast

lemma pp_inv_surroundings:
  assumes inv: "pp_inv uuid_ok t r s P"
    and place: "\<And>p. placed r s P p \<Longrightarrow> placed r' s' P p"
    and corp: "\<And>i. kget (cos_corporations (rg_co r)) i \<noteq> None \<Longrightarrow> kget (cos_corporations (rg_co r')) i \<noteq> None"
  shows "pp_inv uuid_ok t r' s' P"
  using inv place session_ok_grow [OF _ corp _ order_refl] unfolding pp_inv_def by blast

text \<open>Participants that aged, whoever wrote to the sessions.\<close>

lemma pp_inv_aged:
  assumes inv: "pp_inv uuid_ok t r s P" and aged: "aged P Q"
    and ok: "\<And>i q. kget (pps_participants Q) i = Some q \<Longrightarrow> participant_ok u q"
    and u: "zero_time < u" "pps_timeout_days Q \<noteq> 0" and apart: "periods_apart Q"
    and sessions: "\<And>i x. kget (pps_sessions Q) i = Some x \<Longrightarrow> session_ok uuid_ok u r Q i x"
  shows "pp_inv uuid_ok u r s Q"
  unfolding pp_inv_def
proof (intro conjI allI impI)
  fix i q assume q: "kget (pps_participants Q) i = Some q"
  from aged_get [OF aged q] obtain p where p: "kget (pps_participants P) i = Some p" "ages p q" .
  note old = pp_inv_participant [OF inv p(1)]
  show "pt_id q = i" "0 < i" "i \<le> pp_last_id Q" using old ages_nature [OF p(2)] aged_last [OF aged] by simp_all
  show "placed r s Q q" using aged_placed [OF aged _ p(2)] old by blast
qed (use ok u apart sessions inv aged in
    \<open>auto simp: pp_inv_def aged_last [OF aged] aged_none [OF aged] intro: aged_process aged_owner\<close>)

lemma credits_timeout: "createOrUpdateSession X Q m = Inr Q' \<Longrightarrow> pps_timeout_days Q' = pps_timeout_days Q \<and>
    pps_participants Q' = pps_participants Q \<and> pps_counter Q' = pps_counter Q"
  by (auto simp: createOrUpdateSession_def Let_def bindE_ok_iff)

lemma add_participant_inv:
  assumes inv: "pp_inv uuid_ok t r s P" and new: "pt_new X P p"
    and p: "placed r s (add_participant P p) (newcomer P p)" "participant_ok t (newcomer P p)"
  shows "pp_inv uuid_ok t r s (add_participant P p)"
proof -
  have grow: "kget (pps_participants P) i \<noteq> None \<Longrightarrow> kget (pps_participants (add_participant P p)) i \<noteq> None" for i
    by (simp only: add_participant_get split: if_split) simp
  have keep: "placed r s (add_participant P p) q" if q: "kget (pps_participants P) i = Some q" for i q
  proof -
    note old = pp_inv_participant [OF inv q]
    then have "pt_validator q \<le> pp_last_id P" by (auto simp: placed_def split: if_splits)
    then have same: "kget (pps_participants (add_participant P p)) (pt_validator q) = kget (pps_participants P) (pt_validator q)"
      by (simp only: add_participant_get) simp
    have "placed r s (add_participant P p) q = placed r s P q" by (simp only: placed_def same)
    then show ?thesis using old by simp
  qed
  have each: "pt_id q = i \<and> 0 < i \<and> i \<le> Suc (pp_last_id P) \<and> participant_ok t q \<and> placed r s (add_participant P p) q"
    if "kget (pps_participants (add_participant P p)) i = Some q" for i q
    using that
  proof (cases rule: add_participant_cases)
    case old
    then show ?thesis using pp_inv_participant [OF inv old] keep [OF old] by simp
  qed (use p in simp)
  have dense: "kget (pps_participants (add_participant P p)) i \<noteq> None" if "0 < i" "i \<le> Suc (pp_last_id P)" for i
    using that pp_inv_dense [OF inv that(1)] by (simp only: add_participant_get split: if_split) auto
  have sess: "session_ok uuid_ok t r (add_participant P p) i x" if "kget (pps_sessions P) i = Some x" for i x
    using session_ok_grow [OF grow _ _ order_refl] inv that unfolding pp_inv_def by blast
  show ?thesis unfolding pp_inv_def using each dense sess inv add_participant_process [OF new]
      add_participant_owner [OF new] add_participant_apart [OF new]
    by (simp add: pp_inv_def del: add_participant_sel(4))
qed

lemma pp_effect_inv:
  assumes inv: "pp_inv uuid_ok t r s P" and now: "t \<le> pp_now X" and link: "pp_linked X r s" and co: "co_inv (rg_co r)"
    and eff: "pp_effect X uuid_ok P Q"
  shows "pp_inv uuid_ok (pp_now X) r s Q"
proof -
  have u: "pp_inv uuid_ok (pp_now X) r s P" by (rule pp_inv_mono [OF inv now])
  note own = pp_inv_own [OF inv]
  have z: "zero_time < pp_now X" "pps_timeout_days P \<noteq> 0" using u by (simp_all add: pp_inv_def)
  have apart: "periods_apart P" using inv by (simp add: pp_inv_def)
  from eff show ?thesis
  proof cases
    case (creates p)
    have "placed r s Q (newcomer P p)" "participant_ok (pp_now X) (newcomer P p)"
      using new_placed [OF creates(2) link co] new_ok [OF creates(2) z(1)] pp_inv_participant [OF inv] creates(1)
      by (auto simp: newcomer_def)
    then show ?thesis unfolding creates(1) by (rule add_participant_inv [OF u creates(2)])
  next
    case (steps i e)
    from takes_step_get [OF this own] obtain p q where p: "kget (pps_participants P) i = Some p" "pt_step (pp_now X) e p q"
      "pt_id q = i" "Q = UpdateParticipant P q" by metis
    show ?thesis
    proof (rule pp_inv_aged [OF inv takes_step_aged [OF steps own] _ z(1) _ step_apart [OF steps own apart]])
      fix j x assume "kget (pps_participants Q) j = Some x"
      then show "participant_ok (pp_now X) x"
        using pt_step_ok [OF p(2) _ now] pp_inv_participant [OF inv] participant_ok_mono [OF _ now] p
        by (auto simp: kget_kset split: if_splits)
    next
      fix j x assume "kget (pps_sessions Q) j = Some x"
      then show "session_ok uuid_ok (pp_now X) r Q j x" using u p(1,3,4) session_ok_grow [OF _ _ _ order_refl, of P Q]
        by (auto simp: pp_inv_def kget_kset)
    qed (use z p(4) in simp)
  next
    case (pays m S)
    have S: "pps_sessions S = pps_sessions P" "pps_timeout_days S = pps_timeout_days P"
      using pays(3) by (simp_all add: credits_def)
    note Q = credits_timeout [OF pays(4)]
    have aged: "aged P Q" using credits_aged [OF pays(3)] Q by (simp add: aged_def)
    have none: "kget (pps_participants P) i \<noteq> None \<Longrightarrow> kget (pps_participants S) i \<noteq> None" for i
      using aged_none [OF aged] Q by simp
    show ?thesis
    proof (rule pp_inv_aged [OF inv aged _ z(1)])
      fix i q assume "kget (pps_participants Q) i = Some q"
      then obtain p where "kget (pps_participants P) i = Some p" "same_but_deposit p q"
        using pays(3) Q unfolding credits_def by (metis option.rel_cases option.distinct(1) option.inject)
      then show "participant_ok (pp_now X) q" using pp_inv_participant [OF u] participant_ok_credit by blast
    next
      show "pps_timeout_days Q \<noteq> 0" using Q S z by simp
      show "periods_apart Q" using credits_apart [OF pays(3) apart] Q by (simp add: periods_apart_def)
    next
      fix i x assume x: "kget (pps_sessions Q) i = Some x"
      show "session_ok uuid_ok (pp_now X) r Q i x"
      proof (rule new_session_ok [where P = P and Q = S and m = m])
        show "createOrUpdateSession X S m = Inr Q" "session_parties P m" "uuid_ok (mn_id m)"
          "kget (pps_sessions Q) i = Some x" by (rule pays(4), rule pays(2), rule pays(1), rule x)
        show "kget (pps_participants P) i \<noteq> None \<Longrightarrow> kget (pps_participants S) i \<noteq> None" for i by (rule none)
        show "kget (cos_by_policy (pe_co X)) a = Some i \<Longrightarrow> kget (cos_corporations (rg_co r)) i \<noteq> None" for a i
          using registered_corporation [OF co] link by (simp add: pp_linked_def)
        fix j y assume "kget (pps_sessions S) j = Some y"
        then have "session_ok uuid_ok (pp_now X) r P j y" using u S by (simp add: pp_inv_def)
        then show "session_ok uuid_ok (pp_now X) r S j y" 
          by (rule session_ok_grow [rotated 2]) (use none in auto)
      qed
    qed
  next
    case (tunes d)
    have aged: "aged P Q" using tunes(1) by (simp add: aged_def option.rel_refl)
    have same: "pps_participants Q = pps_participants P" "pps_sessions Q = pps_sessions P" by (simp_all add: tunes(1))
    show ?thesis
    proof (rule pp_inv_aged [OF inv aged _ z(1)])
      show "participant_ok (pp_now X) q" if "kget (pps_participants Q) i = Some q" for i q
        using that pp_inv_participant [OF u] same by simp
      show "pps_timeout_days Q \<noteq> 0" using tunes by simp
      show "periods_apart Q" using apart by (simp only: periods_apart_def same)
      show "session_ok uuid_ok (pp_now X) r Q i x" if "kget (pps_sessions Q) i = Some x" for i x
        using that u unfolding pp_inv_def session_ok_def record_ok_def same by blast
    qed
  qed
qed

section \<open>Reachable states\<close>

text \<open>Registry, schema and participant messages in any order, block times never going back;
  the trust deposits, delegations, digests and the bank may be anything.\<close>

type_synonym 'g chain = "time \<times> registry \<times> 'g \<times> cs_state \<times> pp_state"

inductive pp_tick :: "coins_ops \<Rightarrow> 'b bank_ops \<Rightarrow> (string \<Rightarrow> bool) \<Rightarrow> 'g chain \<Rightarrow> 'g chain \<Rightarrow> bool"
  for CN :: coins_ops and B :: "'b bank_ops" and uuid_ok :: "string \<Rightarrow> bool" where
  tick_registry: "t \<le> se_block_time (re_sdk X) \<Longrightarrow> group_addr_ok X \<Longrightarrow> rg_step X (r, grp) op (r', grp') \<Longrightarrow>
    pp_tick CN B uuid_ok (t, r, grp, s, P) (se_block_time (re_sdk X), r', grp', s, P)"
| tick_schema: "t \<le> cs_now Y \<Longrightarrow> linked_env Y r \<Longrightarrow> de_chain CN (ke_de Y) \<Longrightarrow> cs_exec gov Y s cop = Inr s' \<Longrightarrow>
    pp_tick CN B uuid_ok (t, r, grp, s, P) (cs_now Y, r, grp, s', P)"
| tick_message: "t \<le> pp_now Z \<Longrightarrow> pp_linked Z r s \<Longrightarrow> pe_bank Z = B \<Longrightarrow> pw_pp w = P \<Longrightarrow>
    pp_exec uuid_ok gov Z w pop = Inr w' \<Longrightarrow> pp_tick CN B uuid_ok (t, r, grp, s, P) (pp_now Z, r, grp, s, pw_pp w')"

lemma pp_tick_cases:
  assumes "pp_tick CN B uuid_ok (t, r, grp, s, P) (u, r', grp', s', P')"
  obtains (registry) X op where "t \<le> u" "u = se_block_time (re_sdk X)" "group_addr_ok X"
      "rg_step X (r, grp) op (r', grp')" "s' = s" "P' = P"
  | (schema) Y gov cop where "t \<le> u" "u = cs_now Y" "linked_env Y r" "de_chain CN (ke_de Y)"
      "cs_exec gov Y s cop = Inr s'" "r' = r" "grp' = grp" "P' = P"
  | (message) Z w gov pop w' where "t \<le> u" "u = pp_now Z" "pp_linked Z r s" "pe_bank Z = B" "pw_pp w = P"
      "pp_exec uuid_ok gov Z w pop = Inr w'" "P' = pw_pp w'" "r' = r" "grp' = grp" "s' = s"
  using assms by (cases rule: pp_tick.cases) (auto intro: that)

inductive pp_reach ::
  "coins_ops \<Rightarrow> 'b bank_ops \<Rightarrow> (string \<Rightarrow> bool) \<Rightarrow> time \<Rightarrow> registry \<Rightarrow> 'g \<Rightarrow> cs_state \<Rightarrow> pp_state \<Rightarrow> bool"
  for CN :: coins_ops and B :: "'b bank_ops" and uuid_ok :: "string \<Rightarrow> bool" where
  pp_init: "zero_time < t \<Longrightarrow> pp_reach CN B uuid_ok t rg_empty grp cs_empty pp_empty"
| pp_next: "pp_reach CN B uuid_ok t r grp s P \<Longrightarrow> pp_tick CN B uuid_ok (t, r, grp, s, P) (u, r', grp', s', P') \<Longrightarrow>
    pp_reach CN B uuid_ok u r' grp' s' P'"

text \<open>Later states of the same chain.\<close>

definition pp_later ::
  "coins_ops \<Rightarrow> 'b bank_ops \<Rightarrow> (string \<Rightarrow> bool) \<Rightarrow> 'g chain \<Rightarrow> 'g chain \<Rightarrow> bool" where
  "pp_later CN B uuid_ok = (pp_tick CN B uuid_ok)\<^sup>*\<^sup>*"

lemma pp_later_reach:
  assumes "pp_later CN B uuid_ok (t, r, grp, s, P) (u, r', grp', s', P')" "pp_reach CN B uuid_ok t r grp s P"
  shows "pp_reach CN B uuid_ok u r' grp' s' P'"
  using assms unfolding pp_later_def
  by (induction "(u, r', grp', s', P')" arbitrary: u r' grp' s' P' rule: rtranclp_induct)
    (auto intro: pp_next)

text \<open>An invariant of a chain from a reachable state on.\<close>

lemma pp_later_keeps:
  fixes grp :: 'g
  assumes later: "pp_later CN B uuid_ok (t, r, grp, s, P) (u, r', grp', s', P')" and reach: "pp_reach CN B uuid_ok t r grp s P"
    and start: "I t P"
    and step: "\<And>t r (grp :: 'g) s P u r' grp' s' P'. pp_reach CN B uuid_ok t r grp s P \<Longrightarrow> I t P \<Longrightarrow>
      pp_tick CN B uuid_ok (t, r, grp, s, P) (u, r', grp', s', P') \<Longrightarrow> I u P'"
  shows "I u P'"
proof -
  have "pp_reach CN B uuid_ok u r' grp' s' P' \<and> I u P'"
    using later reach start unfolding pp_later_def
  proof (induction "(u, r', grp', s', P')" arbitrary: u r' grp' s' P' rule: rtranclp_induct)
    case (step y)
    obtain v r'' g'' s'' P'' where y: "y = (v, r'', g'', s'', P'')" by (cases y) auto
    with step.hyps step.prems have "pp_reach CN B uuid_ok v r'' g'' s'' P''" "I v P''" by blast+
    with step.hyps(2) have "pp_reach CN B uuid_ok u r' grp' s' P'" unfolding y by (blast intro: pp_next)
    moreover have "I u P'"
      using assms(4) [OF \<open>pp_reach CN B uuid_ok v r'' g'' s'' P''\<close> \<open>I v P''\<close>] step.hyps(2) unfolding y by blast
    ultimately show ?case by blast
  qed auto
  then show ?thesis by blast
qed

lemma pp_reach_schemas: "pp_reach CN B uuid_ok t r grp s P \<Longrightarrow> \<exists>u\<le>t. sch_reach CN u r grp s"
proof (induction rule: pp_reach.induct)
  case (pp_next t r grp s P u r' grp' s' P')
  then obtain v where v: "v \<le> t" "sch_reach CN v r grp s" by blast
  from pp_next.hyps(2) show ?case
  proof (cases rule: pp_tick_cases)
    case (registry X op)
    have "sch_reach CN u r' grp' s" unfolding registry(2)
      by (rule sch_registry [OF v(2) _ registry(3,4)]) (use v(1) registry(1,2) in simp)
    then show ?thesis using registry by blast
  next
    case (schema Y gov cop)
    have "sch_reach CN u r grp s'" unfolding schema(2)
      by (rule sch_schema [OF v(2) _ schema(3,4,5)]) (use v(1) schema(1,2) in simp)
    then show ?thesis using schema by blast
  next
    case (message Z w gov pop w')
    then show ?thesis using v order_trans by blast
  qed
qed (blast intro: sch_init)

lemma pp_reach_registry:
  assumes "pp_reach CN B uuid_ok t r grp s P"
  obtains u where "u \<le> t" "rg_reach u r grp"
proof -
  from pp_reach_schemas [OF assms] obtain u where u: "u \<le> t" "sch_reach CN u r grp s" by blast
  from sch_reach_registry [OF u(2)] obtain v where "v \<le> u" "rg_reach v r grp" by blast
  with u(1) show ?thesis using that order_trans by blast
qed

lemma pp_reach_co: "pp_reach CN B uuid_ok t r grp s P \<Longrightarrow> co_inv (rg_co r)"
  by (elim pp_reach_registry) (rule reach_inv(1))

lemma pp_reach_sch_inv:
  assumes "pp_reach CN B uuid_ok t r grp s P"
  shows "sch_inv t r s"
proof -
  from pp_reach_schemas [OF assms] obtain u where u: "u \<le> t" "sch_reach CN u r grp s" by blast
  show ?thesis by (rule sch_inv_mono [OF sch_reach_inv [OF u(2)] u(1)])
qed

lemma pp_inv_empty: "zero_time < t \<Longrightarrow> pp_inv uuid_ok t rg_empty cs_empty pp_empty"
  by (simp add: pp_inv_def pp_empty_def pp_last_id_def one_process_def one_owner_def periods_apart_def)

lemma pp_tick_inv:
  assumes reach: "pp_reach CN B uuid_ok t r grp s P" and inv: "pp_inv uuid_ok t r s P"
    and tick: "pp_tick CN B uuid_ok (t, r, grp, s, P) (u, r', grp', s', P')"
  shows "pp_inv uuid_ok u r' s' P'"
  using tick
proof (cases rule: pp_tick_cases)
  case (registry X op)
  obtain v where v: "rg_reach v r grp" by (rule pp_reach_registry [OF reach])
  show ?thesis
    using pp_inv_surroundings [OF pp_inv_mono [OF inv registry(1)], of r' s] registry(5,6)
      placed_registry [OF v registry(4)] corporation_stays [OF v registry(4)] by blast
next
  case (schema Y gov cop)
  have co: "co_inv (ke_co Y)" using pp_reach_co [OF reach] schema(3) by (simp add: linked_env_def)
  show ?thesis
    using pp_inv_surroundings [OF pp_inv_mono [OF inv schema(1)], of r s'] schema(6,8)
      placed_schema [OF schema_keeps_terms [OF pp_reach_sch_inv [OF reach] co schema(3,4,5)]] by blast
next
  case (message Z w gov pop w')
  have "pp_effect Z uuid_ok P P'" using pp_exec_effect [OF message(6)] pp_inv_own [OF inv] message(5,7) by simp
  then show ?thesis using pp_effect_inv [OF inv _ message(3) pp_reach_co [OF reach]] message by simp
qed

lemma pp_reach_inv: "pp_reach CN B uuid_ok t r grp s P \<Longrightarrow> pp_inv uuid_ok t r s P"
proof (induction rule: pp_reach.induct)
  case (pp_init t grp)
  then show ?case by (rule pp_inv_empty)
next
  case (pp_next t r grp s P u r' grp' s' P')
  then show ?case by (blast intro: pp_tick_inv)
qed

end
