(* ===== verification/Participant_Sample.thy ===== *)
theory Participant_Sample
imports Participant_Reach Trust_Deposit_Props
begin

text \<open>
  A concrete run of the participants on the sample registries: a root of the ecosystem, an
  issuer grantor under it and an issuer under the grantor, each onboarded by the messages.
\<close>

section \<open>Surroundings\<close>

text \<open>As the demonstration surroundings, but no account has the address of a module.\<close>

definition sample_sdk :: "time \<Rightarrow> sdk_env" where
  "sample_sdk t = \<lparr>se_block_time = t, se_from_bech32 = (\<lambda>a. if a = [] \<or> hd a = CHR ''@'' then None else Some a),
     se_module_addr = (\<lambda>m. CHR ''@'' # m)\<rparr>"

lemma sample_sdk_sel [simp]:
  "se_block_time (sample_sdk t) = t" "se_module_addr (sample_sdk t) m = CHR ''@'' # m"
  "se_from_bech32 (sample_sdk t) a = (if a = [] \<or> hd a = CHR ''@'' then None else Some a)"
  "valid_addr (sample_sdk t) a \<longleftrightarrow> a \<noteq> [] \<and> hd a \<noteq> CHR ''@''"
  by (simp_all add: sample_sdk_def valid_addr_def)

definition sample_pe :: "time \<Rightarrow> ledger pp_env" where
  "sample_pe t = \<lparr>pe_sdk = sample_sdk t, pe_coins = list_coins, pe_dec = fix18, pe_bank = sample_bank,
     pe_co = sample_co, pe_ec = sample_ec, pe_cs = sample_cs\<rparr>"

lemma sample_pe_sel [simp]:
  "pp_now (sample_pe t) = t" "pe_sdk (sample_pe t) = sample_sdk t" "pe_coins (sample_pe t) = list_coins"
  "pe_dec (sample_pe t) = fix18" "pe_bank (sample_pe t) = sample_bank" "pe_co (sample_pe t) = sample_co"
  "pe_ec (sample_pe t) = sample_ec" "pe_cs (sample_pe t) = sample_cs" "pp_linked (sample_pe t) sample_rg sample_cs"
  by (simp_all add: sample_pe_def pp_now_def pp_linked_def sample_rg_def)

text \<open>Every account and every module holds the same amount; both corporations have a deposit.\<close>

definition sample_purse :: ledger where
  "sample_purse a d = 10 ^ 9"

definition sample_deposits :: td_state where
  "sample_deposits = \<lparr>tds_deposits = kset (kset kempty ''p'' (new_td ''p'' (10 ^ 8 * dec_one) (10 ^ 8)))
       ''pp'' (new_td ''pp'' (10 ^ 8 * dec_one) (10 ^ 8)),
     tds_dust = None, tds_params = td_DefaultParams ''pool''\<rparr>"

definition sample_pw :: "pp_state \<Rightarrow> ledger pp_world" where
  "sample_pw P = \<lparr>pw_pp = P, pw_td = sample_deposits, pw_bank = sample_purse, pw_de = sample_delegations,
     pw_di = kempty\<rparr>"

lemma sample_pw_sel [simp]:
  "pw_pp (sample_pw P) = P" "pw_td (sample_pw P) = sample_deposits" "pw_bank (sample_pw P) = sample_purse"
  "pw_de (sample_pw P) = sample_delegations" "(sample_pw P)\<lparr>pw_pp := Q\<rparr> = sample_pw Q"
  "(sample_pw P)\<lparr>pw_bank := sample_purse\<rparr> = sample_pw P"
  by (simp_all add: sample_pw_def)

lemma sample_deposits_get [simp]:
  "kget (tds_deposits sample_deposits) a =
     (if a = ''p'' \<or> a = ''pp'' then Some (new_td a (10 ^ 8 * dec_one) (10 ^ 8)) else None)"
  "tds_params sample_deposits = td_DefaultParams ''pool''"
  by (auto simp: sample_deposits_def kget_kset)

lemma sample_corporations [simp]:
  "kget (cos_by_policy sample_co) ''p'' = Some 1" "kget (cos_by_policy sample_co) ''pp'' = Some 2"
  by (simp_all add: sample_co_def new_corporation_def numeral_2_eq_2)

lemma sample_account:
  "corpIDFromAccount (sample_pe t) ''p'' = Inr 1" "corpIDFromAccount (sample_pe t) ''pp'' = Inr 2"
  "corpAccountFromID (sample_pe t) 1 = Inr ''p''" "corpAccountFromID (sample_pe t) 2 = Inr ''pp''"
  by (simp_all add: corpIDFromAccount_def corpAccountFromID_def sample_co_def add_corporation_get
      new_corporation_def numeral_2_eq_2)

lemma sample_authorized:
  assumes "a = ''p'' \<or> a = ''pp''" "mt \<in> set VPRDelegableMsgTypes"
  shows "pp_authorize (sample_pe t) (sample_pw P) a ''o'' mt = Inr ()"
proof -
  have "resolve_id sample_co a = Some 1 \<or> resolve_id sample_co a = Some 2" using assms(1)
    by (auto simp: resolve_id_def ResolveCorporationByPolicyAddress_def optE_def sample_co_def add_corporation_get
        new_corporation_def)
  then show ?thesis using sample_delegations_ok assms(2) by (simp add: pp_authorize_def)
qed

lemma sample_price: "GetTrustUnitPrice sample_ec = 10 ^ 6"
  by (simp add: GetTrustUnitPrice_def sample_ec_def add_ecosystem_def ec_empty_def)

lemma sample_schema_sel [simp]:
  "csm_issuer_mode sample_schema = 3" "csm_verifier_mode sample_schema = 2" "csm_ig_period sample_schema = 30"
  "csm_i_period sample_schema = 30" "csm_v_period sample_schema = 0" "csm_ecosystem_id sample_schema = 1"
  by (simp_all add: sample_schema_def new_schema_def sample_create_cs_def GetValue_def i32_def)

lemma pp_reach_start: "sch_reach CN t r grp s \<Longrightarrow> pp_reach CN B uuid_ok t r grp s pp_empty"
proof (induction rule: sch_reach.induct)
  case (sch_init t grp)
  then show ?case by (rule pp_init)
next
  case (sch_registry t r grp s X op r' grp')
  then show ?case by (blast intro: pp_next tick_registry)
next
  case (sch_schema t r grp s Y cop gov s')
  then show ?case by (blast intro: pp_next tick_schema)
qed

abbreviation sample_uuid :: "string \<Rightarrow> bool" where
  "sample_uuid s \<equiv> s \<noteq> []"

abbreviation sample_run :: "time \<Rightarrow> pp_state \<Rightarrow> bool" where
  "sample_run t P \<equiv> pp_reach list_coins sample_bank sample_uuid t sample_rg ''pp'' sample_cs P"

lemma sample_run_start: "sample_run 20 pp_empty"
  by (rule pp_reach_start [OF sample_sch_reach])

lemma sample_tick:
  assumes "t \<le> u" "pp_exec sample_uuid gov (sample_pe u) (sample_pw P) op = Inr w"
  shows "pp_tick list_coins sample_bank sample_uuid (t, sample_rg, g, sample_cs, P) (u, sample_rg, g, sample_cs, pw_pp w)"
  using tick_message [of t "sample_pe u" sample_rg sample_cs sample_bank "sample_pw P" P sample_uuid gov op w] assms
  by simp

lemma sample_run_step:
  "sample_run t P \<Longrightarrow> t \<le> u \<Longrightarrow> pp_exec sample_uuid gov (sample_pe u) (sample_pw P) op = Inr w \<Longrightarrow> sample_run u (pw_pp w)"
  by (rule pp_next [OF _ sample_tick])

section \<open>Messages\<close>

definition sample_no_vs :: vs_request where
  "sample_no_vs = \<lparr>vr_operator = [], vr_msg_types = [], vr_spend_limit = [], vr_with_feegrant = False,
     vr_fee_spend_limit = [], vr_period = None\<rparr>"

definition sample_root :: msg_root_pp where
  "sample_root = \<lparr>rt_corporation = ''p'', rt_operator = ''o'', rt_schema_id = 1, rt_did = ''did:x:r'', rt_from = Some 40,
     rt_until = None, rt_validation_fees = 5, rt_issuance_fees = 0, rt_verification_fees = 0, rt_vs = sample_no_vs\<rparr>"

definition sample_start :: "string \<Rightarrow> int \<Rightarrow> nat \<Rightarrow> string \<Rightarrow> msg_start_op" where
  "sample_start c role v did = \<lparr>sp_corporation = c, sp_operator = ''o'', sp_role = role, sp_validator = v, sp_did = did,
     sp_validation_fees = None, sp_issuance_fees = None, sp_verification_fees = None, sp_vs = sample_no_vs\<rparr>"

definition sample_validate :: "string \<Rightarrow> nat \<Rightarrow> msg_validate_op" where
  "sample_validate c i = \<lparr>vd_corporation = c, vd_operator = ''o'', vd_id = i, vd_until = None, vd_validation_fees = 3,
     vd_issuance_fees = 2, vd_verification_fees = 0, vd_digest = [], vd_issuance_discount = 2500,
     vd_verification_discount = 0\<rparr>"

definition sample_on :: "string \<Rightarrow> nat \<Rightarrow> msg_on_participant" where
  "sample_on c i = \<lparr>op_corporation = c, op_operator = ''o'', op_id = i\<rparr>"

text \<open>The participants: the root, the grantor as applicant and validated, the issuer likewise.\<close>

definition sample_p1 :: participant where
  "sample_p1 = (new_root 30 sample_root 1)\<lparr>pt_id := 1\<rparr>"

definition sample_p2a :: participant where
  "sample_p2a = (new_applicant 50 (sample_start ''pp'' ISSUER_GRANTOR 1 ''did:x:g'') sample_p1 2 (5 * 10 ^ 6) (10 ^ 6))\<lparr>pt_id := 2\<rparr>"

definition sample_p2 :: participant where
  "sample_p2 = validated_participant 60 sample_p2a (sample_validate ''p'' 2) (Some (add_days 60 30)) (Some (add_days 60 30))
     \<lparr>pt_op_validator_deposit := 10 ^ 6, pt_op_current_fees := 0, pt_op_current_deposit := 0\<rparr>"

definition sample_p3a :: participant where
  "sample_p3a = (new_applicant 70 (sample_start ''p'' ISSUER 2 ''did:x:i'') sample_p2 1 (3 * 10 ^ 6) (6 * 10 ^ 5))\<lparr>pt_id := 3\<rparr>"

definition sample_p3 :: participant where
  "sample_p3 = validated_participant 80 sample_p3a (sample_validate ''pp'' 3) (Some (add_days 80 30)) (Some (add_days 80 30))
     \<lparr>pt_op_validator_deposit := 6 * 10 ^ 5, pt_op_current_fees := 0, pt_op_current_deposit := 0\<rparr>"

definition sample_P :: "nat \<Rightarrow> participant list \<Rightarrow> pp_state" where
  "sample_P n ps = pp_empty\<lparr>pps_counter := Some n,
     pps_participants := foldl (\<lambda>m p. kset m (pt_id p) p) kempty ps\<rparr>"

lemma sample_P_sel [simp]:
  "pps_participants (sample_P n ps) = foldl (\<lambda>m p. kset m (pt_id p) p) kempty ps" "pp_last_id (sample_P n ps) = n"
  "pps_sessions (sample_P n ps) = kempty" "pps_timeout_days (sample_P n ps) = 7"
  by (simp_all add: sample_P_def pp_last_id_def pp_empty_def)

lemma sample_P_update: "UpdateParticipant (sample_P n ps) p = sample_P n (ps @ [p])"
  by (simp add: UpdateParticipant_def sample_P_def)

lemma sample_P_add: "add_participant (sample_P n ps) p = sample_P (Suc n) (ps @ [p\<lparr>pt_id := Suc n\<rparr>])"
  by (simp add: add_participant_def) (simp add: sample_P_def)

lemma sample_P_empty: "add_participant pp_empty p = sample_P 1 [p\<lparr>pt_id := 1\<rparr>]"
  by (simp add: add_participant_def sample_P_def pp_last_id_def pp_empty_def)

lemmas sample_msgs = sample_root_def sample_start_def sample_validate_def sample_on_def sample_no_vs_def

lemma sample_p_sel [simp]:
  "pt_id sample_p1 = 1" "pt_schema_id sample_p1 = 1" "pt_role sample_p1 = ECOSYSTEM" "pt_validator sample_p1 = 0"
  "pt_corp sample_p1 = 1" "pt_did sample_p1 = ''did:x:r''" "pt_validation_fees sample_p1 = 5" "pt_until sample_p1 = None"
  "pt_from sample_p1 = Some 40" "pt_revoked sample_p1 = None" "pt_slashed sample_p1 = None" "pt_repaid sample_p1 = None"
  "pt_op_state sample_p1 = 0" "pt_deposit sample_p1 = 0" "pt_issuance_discount sample_p1 = 0"
  "pt_verification_discount sample_p1 = 0" "pt_op_exp sample_p1 = None" "pt_op_current_fees sample_p1 = 0"
  by (simp_all add: sample_p1_def new_defs sample_msgs)

lemma sample_p2a_sel [simp]:
  "pt_id sample_p2a = 2" "pt_schema_id sample_p2a = 1" "pt_role sample_p2a = ISSUER_GRANTOR" "pt_validator sample_p2a = 1"
  "pt_corp sample_p2a = 2" "pt_did sample_p2a = ''did:x:g''" "pt_validation_fees sample_p2a = 0" "pt_until sample_p2a = None"
  "pt_from sample_p2a = None" "pt_revoked sample_p2a = None" "pt_slashed sample_p2a = None" "pt_repaid sample_p2a = None"
  "pt_op_state sample_p2a = PENDING" "pt_deposit sample_p2a = 10 ^ 6" "pt_op_current_fees sample_p2a = 5 * 10 ^ 6"
  "pt_op_current_deposit sample_p2a = 10 ^ 6" "pt_op_exp sample_p2a = None" "pt_op_validator_deposit sample_p2a = 0"
  by (simp_all add: sample_p2a_def new_defs sample_msgs optional_value_def)

lemma sample_p2_sel [simp]:
  "pt_id sample_p2 = 2" "pt_schema_id sample_p2 = 1" "pt_role sample_p2 = ISSUER_GRANTOR" "pt_validator sample_p2 = 1"
  "pt_corp sample_p2 = 2" "pt_did sample_p2 = ''did:x:g''" "pt_validation_fees sample_p2 = 3" "pt_issuance_discount sample_p2 = 2500"
  "pt_verification_discount sample_p2 = 0" "pt_until sample_p2 = Some (add_days 60 30)"
  "pt_from sample_p2 = Some 60" "pt_revoked sample_p2 = None" "pt_slashed sample_p2 = None" "pt_repaid sample_p2 = None"
  "pt_op_state sample_p2 = VALIDATED" "pt_deposit sample_p2 = 10 ^ 6" "pt_op_current_fees sample_p2 = 0"
  "pt_op_current_deposit sample_p2 = 0" "pt_op_exp sample_p2 = Some (add_days 60 30)"
  by (simp_all add: sample_p2_def validated_participant_def[of _ sample_p2a] sample_msgs)

lemma sample_p3a_sel [simp]:
  "pt_id sample_p3a = 3" "pt_schema_id sample_p3a = 1" "pt_role sample_p3a = ISSUER" "pt_validator sample_p3a = 2"
  "pt_corp sample_p3a = 1" "pt_did sample_p3a = ''did:x:i''" "pt_validation_fees sample_p3a = 0" "pt_until sample_p3a = None"
  "pt_from sample_p3a = None" "pt_revoked sample_p3a = None" "pt_slashed sample_p3a = None" "pt_repaid sample_p3a = None"
  "pt_op_state sample_p3a = PENDING" "pt_deposit sample_p3a = 6 * 10 ^ 5" "pt_op_current_fees sample_p3a = 3 * 10 ^ 6"
  "pt_op_current_deposit sample_p3a = 6 * 10 ^ 5" "pt_op_exp sample_p3a = None" "pt_op_validator_deposit sample_p3a = 0"
  by (simp_all add: sample_p3a_def new_defs sample_msgs optional_value_def)

lemma sample_p3_sel [simp]:
  "pt_id sample_p3 = 3" "pt_schema_id sample_p3 = 1" "pt_role sample_p3 = ISSUER" "pt_validator sample_p3 = 2"
  "pt_corp sample_p3 = 1" "pt_did sample_p3 = ''did:x:i''" "pt_validation_fees sample_p3 = 3" "pt_issuance_discount sample_p3 = 2500"
  "pt_verification_discount sample_p3 = 0" "pt_until sample_p3 = Some (add_days 80 30)"
  "pt_from sample_p3 = Some 80" "pt_revoked sample_p3 = None" "pt_slashed sample_p3 = None" "pt_repaid sample_p3 = None"
  "pt_op_state sample_p3 = VALIDATED" "pt_deposit sample_p3 = 6 * 10 ^ 5" "pt_op_current_fees sample_p3 = 0"
  "pt_op_current_deposit sample_p3 = 0" "pt_op_exp sample_p3 = Some (add_days 80 30)"
  by (simp_all add: sample_p3_def validated_participant_def[of _ sample_p3a] sample_msgs)

lemma sample_lookups:
  "get_schema (sample_pe t) 1 = Inr sample_schema"
  "ec_GetEcosystem sample_ec 1 = Some (new_ecosystem 1 1 (sample_create_ec ''p'') 12)"
  using sample_cs_get(1) sample_ecosystems(1)
  by (simp_all add: get_schema_def GetCredentialSchemaById_def ec_GetEcosystem_def)

lemma sample_root_step: "sample_run 30 (sample_P 1 [sample_p1])"
proof -
  have valid: "validate_root_pp (sample_sdk 30) sample_root = Inr ()"
    by (simp add: validate_root_pp_def signers_ok_def sample_msgs any_vs_param_def) code_simp
  have sel: "rt_corporation sample_root = ''p''" "rt_operator sample_root = ''o''" "rt_schema_id sample_root = 1"
      "rt_from sample_root = Some 40" "rt_until sample_root = None" "rt_vs sample_root = sample_no_vs"
      "vr_msg_types sample_no_vs = []" by (simp_all add: sample_root_def sample_no_vs_def)
  have none: "walk (pps_participants pp_empty) = []" "pp_last_id pp_empty = 0"
    by (simp_all add: pp_empty_def walk_def pp_last_id_def)
  have "CreateRootParticipant (sample_pe 30) (sample_pw pp_empty) sample_root = Inr (1, sample_pw (sample_P 1 [sample_p1]))"
    using sample_lookups
    by (simp add: CreateRootParticipant_def sel sample_authorized VPRDelegableMsgTypes_def
        validateCreateRootParticipantBasicChecks_def validateCreateRootParticipantAuthority_def new_ecosystem_def
        checkCreateRootParticipantOverlap_def sample_account executeCreateRootParticipant_def create_in_eq
        grant_vs_request_def assertDIDCorporationConsistent_def sample_P_empty sample_p1_def none)
  then have "pp_exec sample_uuid gov (sample_pe 30) (sample_pw pp_empty) (Pp_Root sample_root) =
      Inr (sample_pw (sample_P 1 [sample_p1]))" for gov using valid by (simp add: pp_exec_def)
  from sample_run_step [OF sample_run_start _ this] show ?thesis by simp
qed

lemma ledger_move_ok:
  assumes "0 \<le> n" "n \<le> int (l src d)"
  shows "\<exists>l'. ledger_move l src dst [(d, n)] = Some l' \<and> int (l src d) - n \<le> int (l' src d)"
  using assms by (simp add: ledger_move_def ledger_debit_def ledger_credit_def)

lemma sample_account_sel: "c = ''p'' \<or> c = ''pp'' \<Longrightarrow> c \<noteq> [] \<and> hd c \<noteq> CHR ''@''"
  by auto

lemma sample_share:
  "AmountToShare fix18 (10 ^ 6) dec_one = Some (10 ^ 6 * dec_one)"
  "AmountToShare fix18 (6 * 10 ^ 5) dec_one = Some (6 * 10 ^ 5 * dec_one)"
  by (simp_all add: AmountToShare_def near_div_def dec_one_def i64_def)

lemma sample_adjust:
  assumes "c = ''p'' \<or> c = ''pp''" "n = 10 ^ 6 \<or> n = 6 * 10 ^ 5" "9 * 10 ^ 8 \<le> int (b c bond_denom)"
  shows "\<exists>td b'. adjust_deposit (sample_pe t) (sample_pw P\<lparr>pw_bank := b\<rparr>) c n =
      Inr (sample_pw P\<lparr>pw_td := td, pw_bank := b'\<rparr>) \<and> 10 ^ 8 \<le> int (b' c bond_denom)"
proof -
  from assms(2) have n: "0 < n" "n \<le> 10 ^ 6" "u64 n = n" "i64 (10 ^ 8 + n) = 10 ^ 8 + n"
      "AmountToShare fix18 n dec_one = Some (n * dec_one)"
    using sample_share by (auto simp: u64_def i64_def)
  from ledger_move_ok [of n b c bond_denom "''@td''"] n assms(3) obtain l where
    l: "ledger_move b c ''@td'' [(bond_denom, n)] = Some l" "10 ^ 8 \<le> int (l c bond_denom)"
    by fastforce
  have "pay_in sample_bank b c n = Inr l"
    using n l(1) by (simp add: pay_in_def new_coins_def td_module_def)
  then show ?thesis using n l(2) assms(1) sample_account_sel [OF assms(1)]
    by (auto simp: adjust_deposit_def AdjustTrustDeposit_def outstanding_slash_def new_td_def
      adjust_increase_def Let_def i64_id dec_one_def)
qed

lemma sample_take:
  assumes "c = ''p'' \<or> c = ''pp''" "fees = 5 * 10 ^ 6 \<and> deposit = 10 ^ 6 \<or> fees = 3 * 10 ^ 6 \<and> deposit = 6 * 10 ^ 5"
  shows "\<exists>w1. take_deposit (sample_pe t) (sample_pw P) c deposit = Inr w1 \<and> pw_pp w1 = P \<and>
      (\<exists>w2. take_fees (sample_pe t) w1 c fees = Inr w2 \<and> pw_pp w2 = P)"
proof -
  from assms(2) have n: "0 < deposit" "0 < fees" "fees \<le> 10 ^ 8" "uint64ToInt64 deposit = Inr deposit"
      "uint64ToInt64 fees = Inr fees"
    by (auto simp: uint64ToInt64_def max_i64_def i64_def)
  have "deposit = 10 ^ 6 \<or> deposit = 6 * 10 ^ 5" "9 * 10 ^ 8 \<le> int (sample_purse c bond_denom)"
    using assms(2) by (auto simp: sample_purse_def)
  from sample_adjust [where b = sample_purse and P = P and t = t, OF assms(1) this] obtain td b where
    a: "adjust_deposit (sample_pe t) (sample_pw P) c deposit = Inr (sample_pw P\<lparr>pw_td := td, pw_bank := b\<rparr>)"
      "10 ^ 8 \<le> int (b c bond_denom)"
    unfolding sample_pw_sel by blast
  from ledger_move_ok [of fees b c bond_denom "''@pp''"] n(2,3) a(2) obtain l where
    "ledger_move b c ''@pp'' [(bond_denom, fees)] = Some l" by auto
  then have "take_fees (sample_pe t) (sample_pw P\<lparr>pw_td := td, pw_bank := b\<rparr>) c fees =
      Inr (sample_pw P\<lparr>pw_td := td, pw_bank := l\<rparr>)"
    using n sample_account_sel [OF assms(1)] by (simp add: take_fees_def escrow_in_def new_coins_def pp_module_def)
  then show ?thesis using a(1) n by (simp add: take_deposit_def)
qed

lemma sample_starts:
  assumes "kget (pps_participants P) v = Some q" "IsValidParticipant q t = Inr ()" "pt_schema_id q = 1"
    "validateParticipantRoleCombination role (pt_role q) sample_schema = Inr ()"
    "c = ''p'' \<and> corp = 1 \<or> c = ''pp'' \<and> corp = 2" "checkOverlap P 1 role v corp = Inr ()"
    "assertDIDCorporationConsistent P did corp = Inr ()"
    "validateAndCalculateFees (sample_pe t) (sample_pw P) q = Inr (fees, deposit)"
    "fees = 5 * 10 ^ 6 \<and> deposit = 10 ^ 6 \<or> fees = 3 * 10 ^ 6 \<and> deposit = 6 * 10 ^ 5"
  shows "\<exists>w. StartParticipantOP (sample_pe t) (sample_pw P) (sample_start c role v did) =
      Inr (Suc (pp_last_id P), w) \<and>
    pw_pp w = add_participant P (new_applicant t (sample_start c role v did) q corp fees deposit)"
proof -
  have sel: "sp_corporation (sample_start c role v did) = c" "sp_operator (sample_start c role v did) = ''o''"
      "sp_role (sample_start c role v did) = role" "sp_validator (sample_start c role v did) = v"
      "sp_did (sample_start c role v did) = did" "sp_vs (sample_start c role v did) = sample_no_vs"
      "vr_msg_types sample_no_vs = []" by (simp_all add: sample_start_def sample_no_vs_def)
  have acct: "corpIDFromAccount (sample_pe t) c = Inr corp" using assms(5) sample_account by auto
  have auth: "pp_authorize (sample_pe t) (sample_pw P) c ''o'' ''/verana.pp.v1.MsgStartParticipantOP'' = Inr ()"
    using assms(5) by (intro sample_authorized) (auto simp: VPRDelegableMsgTypes_def)
  have "\<exists>w1. take_deposit (sample_pe t) (sample_pw P) c deposit = Inr w1 \<and> pw_pp w1 = P \<and>
      (\<exists>w2. take_fees (sample_pe t) w1 c fees = Inr w2 \<and> pw_pp w2 = P)"
    using assms(5,9) sample_take by auto
  then show ?thesis using assms(1-4,6-8) sample_lookups(1)
    by (auto simp: StartParticipantOP_def sel acct auth validateParticipantChecks_def GetParticipantByID_def
       executeStartParticipantVP_def create_in_eq grant_vs_request_def)
qed

lemma sample_P_get:
  "kget (pps_participants (sample_P n [p])) i = (if i = pt_id p then Some p else None)"
  "kget (pps_participants (sample_P n [p, q])) i = (if i = pt_id q then Some q else if i = pt_id p then Some p else None)"
  "kget (pps_participants (sample_P n [p, q, r])) i = (if i = pt_id r then Some r else if i = pt_id q then Some q
     else if i = pt_id p then Some p else None)"
  "kget (pps_participants (sample_P n [p, q, r, x])) i = (if i = pt_id x then Some x else if i = pt_id r then Some r
     else if i = pt_id q then Some q else if i = pt_id p then Some p else None)"
  "kget (pps_participants (sample_P n [p, q, r, x, y])) i = (if i = pt_id y then Some y else if i = pt_id x then Some x
     else if i = pt_id r then Some r else if i = pt_id q then Some q else if i = pt_id p then Some p else None)"
  by (simp_all add: kget_kset)

lemma list_ex_walk: "list_ex Q (walk m) \<longleftrightarrow> (\<exists>i p. kget m i = Some p \<and> Q p)"
  unfolding list_ex_iff walk_mem_iff Bex_def by blast

lemma sample_start_msg_ok:
  "validate_start_op (sample_sdk t) (sample_start ''pp'' ISSUER_GRANTOR 1 ''did:x:g'') = Inr ()"
  "validate_start_op (sample_sdk t) (sample_start ''p'' ISSUER 2 ''did:x:i'') = Inr ()"
  by (simp_all add: validate_start_op_def signers_ok_def sample_msgs validateVSOperatorAuthz_def any_vs_param_def) code_simp+

lemmas sample_scans = checkOverlap_def assertDIDCorporationConsistent_def same_context_def list_ex_walk sample_P_get

lemma sample_grantor_step: "sample_run 50 (sample_P 2 [sample_p1, sample_p2a])"
proof -
  have valid: "IsValidParticipant sample_p1 50 = Inr ()" by (simp add: IsValidParticipant_def)
  have fees: "validateAndCalculateFees (sample_pe 50) (sample_pw (sample_P 1 [sample_p1])) sample_p1 = Inr (5 * 10 ^ 6, 10 ^ 6)"
    by (simp add: validateAndCalculateFees_def sample_price validationTrustDepositInDenomAmount_def is_u64_def
        td_DefaultParams_def near_div_def dec_one_def)
  have free: "checkOverlap (sample_P 1 [sample_p1]) 1 ISSUER_GRANTOR 1 2 = Inr ()"
      "assertDIDCorporationConsistent (sample_P 1 [sample_p1]) ''did:x:g'' 2 = Inr ()"
      "kget (pps_participants (sample_P 1 [sample_p1])) 1 = Some sample_p1"
      "validateParticipantRoleCombination ISSUER_GRANTOR (pt_role sample_p1) sample_schema = Inr ()"
    by (auto simp: sample_scans validateParticipantRoleCombination_def simp del: sample_P_sel(1))
  have new: "add_participant (sample_P 1 [sample_p1]) (new_applicant 50 (sample_start ''pp'' ISSUER_GRANTOR 1 ''did:x:g'')
      sample_p1 2 (5 * 10 ^ 6) (10 ^ 6)) = sample_P 2 [sample_p1, sample_p2a]"
    by (simp add: sample_P_add sample_p2a_def numeral_2_eq_2)
  obtain w where "StartParticipantOP (sample_pe 50) (sample_pw (sample_P 1 [sample_p1]))
      (sample_start ''pp'' ISSUER_GRANTOR 1 ''did:x:g'') = Inr (2, w)" "pw_pp w = sample_P 2 [sample_p1, sample_p2a]"
    using sample_starts [OF free(3) valid _ free(4) _ free(1,2) fees, of "''pp''"] new by (auto simp: numeral_2_eq_2)
  then show ?thesis using sample_run_step [OF sample_root_step, of 50 "''g''" "Pp_Start (sample_start ''pp'' ISSUER_GRANTOR 1 ''did:x:g'')" w]
    by (simp add: pp_exec_def sample_start_msg_ok del: One_nat_def)
qed

lemma sample_validates:
  assumes "kget (pps_participants P) i = Some p" "pt_id p = i" "pt_op_state p = PENDING" "pt_from p = None" "pt_slashed p = None"
    "pt_schema_id p = 1" "pt_validator p = v" "kget (pps_participants P) v = Some q" "IsValidParticipant q t = Inr ()"
    "pt_corp q = corp" "c = ''p'' \<and> corp = 1 \<or> c = ''pp'' \<and> corp = 2"
    "x = calculateVPExp (pt_op_exp p) (getValidityPeriod (pt_role p) sample_schema) t" "pt_op_validator_deposit p = 0"
    "checkValidatedOverlap P t p x = Inr ()"
    "pt_role p = ISSUER_GRANTOR \<or> pt_role p = ISSUER \<and> pt_issuance_discount q = 2500"
    "pt_op_current_fees p = 5 * 10 ^ 6 \<and> pt_op_current_deposit p = 10 ^ 6 \<or>
     pt_op_current_fees p = 3 * 10 ^ 6 \<and> pt_op_current_deposit p = 6 * 10 ^ 5"
  shows "\<exists>w. SetParticipantOPToValidated (sample_pe t) (sample_pw P) (sample_validate c i) = Inr w \<and>
    pw_pp w = UpdateParticipant P (validated_participant t p (sample_validate c i) x x
      \<lparr>pt_op_validator_deposit := pt_op_current_deposit p, pt_op_current_fees := 0, pt_op_current_deposit := 0\<rparr>)"
proof -
  have sel: "vd_corporation (sample_validate c i) = c" "vd_operator (sample_validate c i) = ''o''"
      "vd_id (sample_validate c i) = i" "vd_until (sample_validate c i) = None" "vd_digest (sample_validate c i) = []"
      "vd_issuance_discount (sample_validate c i) = 2500" "vd_verification_discount (sample_validate c i) = 0"
    by (simp_all add: sample_validate_def)
  have acct: "corpAccountFromID (sample_pe t) corp = Inr c" using assms(11) sample_account by auto
  have auth: "pp_authorize (sample_pe t) (sample_pw P) c ''o'' ''/verana.pp.v1.MsgSetParticipantOPToValidated'' = Inr ()"
    using assms(11) by (intro sample_authorized) (auto simp: VPRDelegableMsgTypes_def)
  have discounts: "check_discounts p q sample_schema (sample_validate c i) = Inr ()"
    using assms(4,15) by (auto simp: check_discounts_def sel discount_allowed_def maxDiscount_def)
  let ?v = "validated_participant t p (sample_validate c i) x x"
  have "\<exists>w. executeSetParticipantVPToValidated (sample_pe t) (sample_pw P) p q (sample_validate c i) x x = Inr w \<and>
      pw_pp w = UpdateParticipant P (?v\<lparr>pt_op_validator_deposit := pt_op_current_deposit p, pt_op_current_fees := 0,
        pt_op_current_deposit := 0\<rparr>)"
  proof -
    let ?f = "pt_op_current_fees p" and ?d = "pt_op_current_deposit p"
    have n: "0 < ?f" "?f \<le> 10 ^ 7" "uint64ToInt64 ?f = Inr ?f" "0 < ?d" "uint64ToInt64 ?d = Inr ?d" "u64 ?d = ?d"
        "?d = 10 ^ 6 \<or> ?d = 6 * 10 ^ 5"
      using assms(16) by (auto simp: uint64ToInt64_def max_i64_def i64_def u64_def)
    have c: "c = ''p'' \<or> c = ''pp''" using assms(11) by blast
    from ledger_move_ok [of ?f sample_purse "''@pp''" bond_denom c] n(1,2) obtain b where
      b: "ledger_move sample_purse ''@pp'' c [(bond_denom, ?f)] = Some b" by (auto simp: sample_purse_def)
    then have "9 * 10 ^ 8 \<le> int (b c bond_denom)" using n(1) c
      by (auto simp: ledger_move_def ledger_debit_def ledger_credit_def sample_purse_def split: if_splits)
    from sample_adjust [where b = b and P = P and t = t, OF c n(7) this] obtain td b' where
      "take_deposit (sample_pe t) (sample_pw P\<lparr>pw_bank := b\<rparr>) c ?d = Inr (sample_pw P\<lparr>pw_td := td, pw_bank := b'\<rparr>)"
      using n(4,5) by (auto simp: take_deposit_def)
    moreover have "pay_escrow (sample_pe t) (sample_pw P) c ?f = Inr (sample_pw P\<lparr>pw_bank := b\<rparr>)"
      using b n(1,3) sample_account_sel [OF c] by (simp add: pay_escrow_def escrow_out_def new_coins_def pp_module_def)
    ultimately show ?thesis using assms(5,10,13) acct n(4,6)
      by (auto simp: executeSetParticipantVPToValidated_def Let_def set_vs_expiration_def update_in_def
          UpdateVSOperatorAuthorizationExpiration_def sample_delegations_def de_empty_def split: option.split)
  qed
  then show ?thesis using assms(1-10) acct auth discounts sample_lookups(1) assms(14)
    by (auto simp: SetParticipantOPToValidated_def sel GetParticipantByID_def Let_def choose_until_def assms(12) [symmetric])
qed

lemma sample_validate_msg_ok: "c \<noteq> [] \<Longrightarrow> hd c \<noteq> CHR ''@'' \<Longrightarrow> i \<noteq> 0 \<Longrightarrow> validate_validate_op (sample_sdk t) (sample_validate c i) = Inr ()"
  by (simp add: validate_validate_op_def signers_ok_def sample_validate_def maxDiscount_def)

definition sample_P2 :: pp_state where
  "sample_P2 = sample_P 2 [sample_p1, sample_p2a, sample_p2]"

lemmas sample_periods = checkValidatedOverlap_def context_blocked_def Let_def calculateVPExp_def getValidityPeriod_def

lemma sample_grantor_valid_step: "sample_run 60 sample_P2"
proof -
  let ?P = "sample_P 2 [sample_p1, sample_p2a]"
  have get: "kget (pps_participants ?P) 2 = Some sample_p2a" "kget (pps_participants ?P) 1 = Some sample_p1"
      "IsValidParticipant sample_p1 60 = Inr ()" and free: "checkValidatedOverlap ?P 60 sample_p2a (Some (add_days 60 30)) = Inr ()"
    by (auto simp: sample_scans sample_periods IsValidParticipant_def simp del: sample_P_sel(1))
  have x: "Some (add_days 60 30) = calculateVPExp (pt_op_exp sample_p2a)
      (getValidityPeriod (pt_role sample_p2a) sample_schema) 60" by (simp add: sample_periods)
  obtain w where "SetParticipantOPToValidated (sample_pe 60) (sample_pw ?P) (sample_validate ''p'' 2) = Inr w"
      "pw_pp w = sample_P2"
    using sample_validates [OF get(1) _ _ _ _ _ _ get(2,3) _ _ x _ free, where c = "''p''"]
    by (auto simp: sample_P_update sample_P2_def sample_p2_def)
  then show ?thesis using sample_run_step [OF sample_grantor_step, of 60 "''g''" "Pp_Validate (sample_validate ''p'' 2)" w]
    by (simp add: pp_exec_def sample_validate_msg_ok)
qed

definition sample_P3a :: pp_state where
  "sample_P3a = sample_P 3 [sample_p1, sample_p2a, sample_p2, sample_p3a]"

lemma sample_fees_grantor:
  "validateAndCalculateFees (sample_pe t) (sample_pw P) sample_p2 = Inr (3 * 10 ^ 6, 6 * 10 ^ 5)"
  by (simp add: validateAndCalculateFees_def sample_price validationTrustDepositInDenomAmount_def is_u64_def
      td_DefaultParams_def near_div_def dec_one_def)

lemma sample_days: "add_days t 30 = t + 30 * ns_per_day" "0 < ns_per_day"
  by (simp_all add: add_days_def ns_per_day_def)

lemma sample_issuer_exec:
  "\<exists>w. pp_exec sample_uuid gov (sample_pe 70) (sample_pw sample_P2) (Pp_Start (sample_start ''p'' ISSUER 2 ''did:x:i'')) =
     Inr w \<and> pw_pp w = sample_P3a"
proof -
  have valid: "IsValidParticipant sample_p2 70 = Inr ()" by (simp add: IsValidParticipant_def sample_days ns_per_day_def)
  have free: "checkOverlap sample_P2 1 ISSUER 2 1 = Inr ()"
      "assertDIDCorporationConsistent sample_P2 ''did:x:i'' 1 = Inr ()"
      "kget (pps_participants sample_P2) 2 = Some sample_p2"
      "validateParticipantRoleCombination ISSUER (pt_role sample_p2) sample_schema = Inr ()"
    by (auto simp: sample_scans validateParticipantRoleCombination_def sample_P2_def simp del: sample_P_sel(1))
  have new: "add_participant sample_P2 (new_applicant 70 (sample_start ''p'' ISSUER 2 ''did:x:i'')
      sample_p2 1 (3 * 10 ^ 6) (6 * 10 ^ 5)) = sample_P3a" "pp_last_id sample_P2 = 2"
    by (simp_all add: sample_P_add sample_p3a_def sample_P2_def sample_P3a_def numeral_3_eq_3 numeral_2_eq_2)
  obtain w where "StartParticipantOP (sample_pe 70) (sample_pw sample_P2)
      (sample_start ''p'' ISSUER 2 ''did:x:i'') = Inr (3, w)" "pw_pp w = sample_P3a"
    using sample_starts [OF free(3) valid _ free(4) _ free(1,2) sample_fees_grantor, of "''p''"] new by auto
  then show ?thesis by (simp add: pp_exec_def sample_start_msg_ok del: One_nat_def)
qed

lemma sample_issuer_step: "sample_run 70 sample_P3a"
proof -
  obtain w where w: "pp_exec sample_uuid ''g'' (sample_pe 70) (sample_pw sample_P2)
      (Pp_Start (sample_start ''p'' ISSUER 2 ''did:x:i'')) = Inr w" "pw_pp w = sample_P3a" using sample_issuer_exec by blast
  from sample_run_step [OF sample_grantor_valid_step _ w(1)] show ?thesis by (simp add: w(2))
qed

definition sample_P3 :: pp_state where
  "sample_P3 = sample_P 3 [sample_p1, sample_p2a, sample_p2, sample_p3a, sample_p3]"

lemma sample_P3_get:
  "kget (pps_participants sample_P3) i = (if i = 3 then Some sample_p3 else if i = 2 then Some sample_p2
     else if i = 1 then Some sample_p1 else None)"
  by (simp add: sample_P3_def sample_P_get del: sample_P_sel(1))

lemma sample_P3a_get:
  "kget (pps_participants sample_P3a) i = (if i = 3 then Some sample_p3a else if i = 2 then Some sample_p2
     else if i = 1 then Some sample_p1 else None)"
  by (simp add: sample_P3a_def sample_P_get del: sample_P_sel(1))

lemma sample_issuer_valid_step: "sample_run 80 sample_P3"
proof -
  have get: "kget (pps_participants sample_P3a) 3 = Some sample_p3a" "kget (pps_participants sample_P3a) 2 = Some sample_p2"
      "IsValidParticipant sample_p2 80 = Inr ()"
    by (simp_all add: sample_P3a_get IsValidParticipant_def sample_days ns_per_day_def)
  have free: "checkValidatedOverlap sample_P3a 80 sample_p3a (Some (add_days 80 30)) = Inr ()"
    by (auto simp: sample_scans sample_P3a_get sample_periods simp del: sample_P_sel(1))
  have x: "Some (add_days 80 30) = calculateVPExp (pt_op_exp sample_p3a)
      (getValidityPeriod (pt_role sample_p3a) sample_schema) 80" by (simp add: sample_periods)
  obtain w where "SetParticipantOPToValidated (sample_pe 80) (sample_pw sample_P3a) (sample_validate ''pp'' 3) = Inr w"
      "pw_pp w = sample_P3"
    using sample_validates [OF get(1) _ _ _ _ _ _ get(2,3) _ _ x _ free, where c = "''pp''"]
    by (auto simp: sample_P_update sample_P3a_def sample_P3_def sample_p3_def)
  then show ?thesis using sample_run_step [OF sample_issuer_step, of 80 "''g''" "Pp_Validate (sample_validate ''pp'' 3)" w]
    by (simp add: pp_exec_def sample_validate_msg_ok)
qed

section \<open>A slash\<close>

definition sample_slash_pp :: msg_slash_pp where
  "sample_slash_pp = \<lparr>sh_corporation = ''p'', sh_operator = ''o'', sh_id = 2, sh_amount = 10 ^ 6, sh_reason = ''r''\<rparr>"

definition sample_p2s :: participant where
  "sample_p2s = sample_p2\<lparr>pt_slashed := Some 90, pt_modified := Some 90, pt_slashed_deposit := 10 ^ 6, pt_deposit := 0\<rparr>"

definition sample_P4 :: pp_state where
  "sample_P4 = UpdateParticipant sample_P3 sample_p2s"

lemma sample_slash_exec:
  "\<exists>w. pp_exec sample_uuid gov (sample_pe 90) (sample_pw sample_P3) (Pp_Slash sample_slash_pp) = Inr w \<and> pw_pp w = sample_P4"
proof -
  have sel: "sh_corporation sample_slash_pp = ''p''" "sh_operator sample_slash_pp = ''o''" "sh_id sample_slash_pp = 2"
      "sh_amount sample_slash_pp = 10 ^ 6" "sh_reason sample_slash_pp = ''r''" by (simp_all add: sample_slash_pp_def)
  have ancestor: "checkValidatorAncestorOption (sample_pe 90) sample_P3 ''p'' sample_p2 = Inr True"
    by (simp add: checkValidatorAncestorOption_def sample_account chain_fuel_def sample_P3_get IsValidParticipant_def)
  from ledger_move_ok [of "10 ^ 6" sample_purse "''@td''" bond_denom "''@td''"] have burn:
    "\<exists>b. burn_td sample_bank sample_purse (10 ^ 6) = Inr b"
    by (simp add: burn_td_def new_coins_def td_module_def sample_purse_def ledger_debit_def)
  have "\<exists>w. burn_deposit (sample_pe 90) (sample_pw sample_P3) ''pp'' (10 ^ 6) = Inr w \<and> pw_pp w = sample_P3"
    using burn by (auto simp: burn_deposit_def BurnEcosystemSlashedTrustDeposit_def executeBurn_def new_td_def
        i64_def near_div_def dec_one_def Let_def)
  then obtain w where w: "burn_deposit (sample_pe 90) (sample_pw sample_P3) ''pp'' (10 ^ 6) = Inr w" "pw_pp w = sample_P3" by blast
  have "SlashParticipantTrustDeposit (sample_pe 90) (sample_pw sample_P3) sample_slash_pp = Inr (update_in w sample_p2s)"
    using w(1) by (simp add: SlashParticipantTrustDeposit_def sel sample_authorized VPRDelegableMsgTypes_def
        validateSlashParticipantBasicChecks_def GetParticipantByID_def sample_P3_get ancestor
        validateSlashParticipantValidatorParticipants_def executeSlashParticipantTrustDeposit_def sample_account
        drop_vs_of_member_def sample_p2s_def u64_def) (simp add: sample_p2_def sample_p2a_def new_defs validated_participant_def)
  then show ?thesis by (simp add: pp_exec_def validate_slash_pp_def signers_ok_def sel w(2) sample_P4_def)
qed

lemma sample_slash_tick:
  "pp_tick list_coins sample_bank sample_uuid (80, sample_rg, g, sample_cs, sample_P3) (90, sample_rg, g, sample_cs, sample_P4)"
proof -
  obtain w where "pp_exec sample_uuid ''g'' (sample_pe 90) (sample_pw sample_P3) (Pp_Slash sample_slash_pp) = Inr w"
      "pw_pp w = sample_P4" using sample_slash_exec by blast
  with sample_tick [OF _ this(1), of 80 g] show ?thesis by simp
qed

lemma sample_P4_get:
  "kget (pps_participants sample_P4) i = (if i = 3 then Some sample_p3 else if i = 2 then Some sample_p2s
     else if i = 1 then Some sample_p1 else None)"
  by (simp add: sample_P4_def sample_p2s_def kget_kset sample_P3_get)

lemma sample_p2s_sel [simp]:
  "pt_id sample_p2s = 2" "pt_schema_id sample_p2s = 1" "pt_role sample_p2s = ISSUER_GRANTOR" "pt_validator sample_p2s = 1"
  "pt_corp sample_p2s = 2" "pt_until sample_p2s = Some (add_days 60 30)" "pt_from sample_p2s = Some 60"
  "pt_revoked sample_p2s = None" "pt_slashed sample_p2s = Some 90" "pt_repaid sample_p2s = None"
  "pt_op_state sample_p2s = VALIDATED"
  by (simp_all add: sample_p2s_def)


lemma sample_slash_step: "sample_run 90 sample_P4"
  using pp_next [OF sample_issuer_valid_step sample_slash_tick] .

end
