(* ===== verification/Participant_Walks.thy ===== *)
theory Participant_Walks
imports Participant_Sample
begin

text \<open>
  The loops that climb from a participant to its validators: on reachable states each ends
  after at most four rounds, at a root of the ecosystem, and the loops of the slashing and
  revocation checks, of the session and of the query all read the same lineage.
\<close>

section \<open>Lineages\<close>

text \<open>A participant followed by its validators, as far as the fuel goes.\<close>

primrec lineage :: "nat \<Rightarrow> pp_state \<Rightarrow> nat \<Rightarrow> participant list" where
  "lineage 0 P i = []"
| "lineage (Suc n) P i = (if i = 0 then [] else case kget (pps_participants P) i of None \<Rightarrow> []
     | Some p \<Rightarrow> p # lineage n P (pt_validator p))"

primrec climbs_out :: "nat \<Rightarrow> pp_state \<Rightarrow> nat \<Rightarrow> bool" where
  "climbs_out 0 P i \<longleftrightarrow> i = 0"
| "climbs_out (Suc n) P i \<longleftrightarrow> i = 0 \<or>
     (\<exists>p. kget (pps_participants P) i = Some p \<and> climbs_out n P (pt_validator p))"

lemma lineage_zero [simp]: "lineage n P 0 = []"
  by (cases n) simp_all

lemma climbs_out_zero [simp]: "climbs_out n P 0"
  by (cases n) simp_all

lemma lineage_fuel: "climbs_out n P i \<Longrightarrow> climbs_out m P i \<Longrightarrow> lineage n P i = lineage m P i"
proof (induction n arbitrary: m i)
  case (Suc n)
  show ?case
  proof (cases "i = 0")
    case False
    with Suc.prems obtain p k where p: "kget (pps_participants P) i = Some p" "m = Suc k"
      and up: "climbs_out n P (pt_validator p)" "climbs_out k P (pt_validator p)" by (cases m) auto
    show ?thesis using p Suc.IH [OF up] by simp
  qed simp
qed simp

lemma climbs_out_mono: "climbs_out n P i \<Longrightarrow> n \<le> m \<Longrightarrow> climbs_out m P i"
proof (induction n arbitrary: m i)
  case (Suc n)
  then show ?case by (cases m) auto
qed simp

section \<open>The loops read the lineage\<close>

lemma ancestor_search_lineage:
  "climbs_out n P i \<Longrightarrow> ancestor_search n P now c i =
     Inr (\<exists>v \<in> set (lineage n P i). IsValidParticipant v now = Inr () \<and> pt_corp v = c)"
proof (induction n arbitrary: i)
  case (Suc n)
  then show ?case by (cases "i = 0") auto
qed simp

definition add_payable :: "participant list \<Rightarrow> participant \<Rightarrow> participant list" where
  "add_payable found p = (if payable p \<and> \<not> contains_id found (pt_id p) then found @ [p] else found)"

lemma add_ancestors_lineage:
  "climbs_out n P i \<Longrightarrow> own_ids P \<Longrightarrow> add_ancestors n P found i = Inr (foldl add_payable found (lineage n P i))"
proof (induction n arbitrary: found i)
  case (Suc n)
  then show ?case using own_idsD [OF Suc.prems(2)]
    by (cases "i = 0") (auto simp: GetParticipantByID_def add_payable_def)
qed simp

definition note_payable :: "(nat, participant) store \<Rightarrow> participant \<Rightarrow> (nat, participant) store" where
  "note_payable m p = (if payable p then kset m (pt_id p) p else m)"

lemma collect_ancestors_lineage:
  "climbs_out n P i \<Longrightarrow> collect_ancestors n P m i = Inr (foldl note_payable m (lineage n P i))"
proof (induction n arbitrary: m i)
  case (Suc n)
  then show ?case by (cases "i = 0") (auto simp: GetParticipantByID_def note_payable_def)
qed simp

section \<open>Reachable lineages are short\<close>

lemma placed_validator:
  assumes inv: "pp_inv uuid_ok t r s P" and p: "kget (pps_participants P) i = Some p" and v: "pt_validator p \<noteq> 0"
  obtains q where "kget (pps_participants P) (pt_validator p) = Some q" "pt_validator p < i"
    "role_rank (pt_role q) < role_rank (pt_role p)" "pt_schema_id q = pt_schema_id p"
  using pp_inv_participant [OF inv p] v that may_validate_rank unfolding placed_def by (auto split: if_splits)

lemma climbs_by_rank:
  assumes inv: "pp_inv uuid_ok t r s P" and p: "kget (pps_participants P) i = Some p" and n: "role_rank (pt_role p) \<le> n"
  shows "climbs_out n P i"
  using p n
proof (induction n arbitrary: i p)
  case 0
  then show ?case by (simp add: role_rank_def split: if_splits)
next
  case (Suc n)
  show ?case
  proof (cases "pt_validator p = 0")
    case True
    then show ?thesis using Suc.prems by simp
  next
    case False
    from placed_validator [OF inv Suc.prems(1) this] obtain q where
      "kget (pps_participants P) (pt_validator p) = Some q" "role_rank (pt_role q) < role_rank (pt_role p)" .
    then show ?thesis using Suc by auto
  qed
qed

lemma climbs_by_id:
  assumes inv: "pp_inv uuid_ok t r s P"
  shows "i \<le> n \<Longrightarrow> i \<le> pp_last_id P \<Longrightarrow> climbs_out n P i"
proof (induction n arbitrary: i)
  case (Suc n)
  show ?case
  proof (cases "i = 0")
    case False
    with pp_inv_dense [OF inv, of i] Suc.prems obtain p where p: "kget (pps_participants P) i = Some p" by auto
    have "pt_validator p < i"
    proof (cases "pt_validator p = 0")
      case False
      then show ?thesis by (rule placed_validator [OF inv p])
    qed (use \<open>i \<noteq> 0\<close> in simp)
    then show ?thesis using p Suc by auto
  qed simp
qed simp

lemma walk_length:
  assumes "pp_inv uuid_ok t r s P"
  shows "pp_last_id P \<le> length (walk (pps_participants P))"
proof -
  have "{1..pp_last_id P} \<subseteq> pt_id ` set (walk (pps_participants P))"
  proof
    fix i assume "i \<in> {1..pp_last_id P}"
    then obtain p where "kget (pps_participants P) i = Some p" using pp_inv_dense [OF assms, of i] by auto
    then show "i \<in> pt_id ` set (walk (pps_participants P))"
      using pp_inv_participant [OF assms] by (force simp: walk_mem_iff)
  qed
  from card_mono [OF _ this] have "pp_last_id P \<le> card (pt_id ` set (walk (pps_participants P)))" by simp
  also have "\<dots> \<le> length (walk (pps_participants P))"
    by (rule order_trans [OF card_image_le card_length]) simp
  finally show ?thesis .
qed

lemma climbs_out_reach:
  assumes inv: "pp_inv uuid_ok t r s P" and i: "kget (pps_participants P) i = Some p" and n: "4 \<le> n \<or> n = chain_fuel P"
  shows "climbs_out n P i"
proof -
  have "climbs_out 4 P i" by (rule climbs_by_rank [OF inv i]) (simp add: role_rank_def)
  moreover have "climbs_out (chain_fuel P) P i"
    using climbs_by_id [OF inv, of i "chain_fuel P"] pp_inv_participant [OF inv i] walk_length [OF inv]
    by (simp add: chain_fuel_def)
  ultimately show ?thesis using n climbs_out_mono by blast
qed

text \<open>The lineage of a participant, with fuel that is always enough.\<close>

definition validators :: "pp_state \<Rightarrow> nat \<Rightarrow> participant list" where
  "validators P i = lineage 4 P i"

lemma validators_fuel:
  assumes "pp_inv uuid_ok t r s P" "i = 0 \<or> kget (pps_participants P) i \<noteq> None" "4 \<le> n \<or> n = chain_fuel P"
  shows "climbs_out n P i" "lineage n P i = validators P i"
proof -
  have reach: "climbs_out k P i" if "4 \<le> k \<or> k = chain_fuel P" for k
    using assms(2) climbs_out_reach [OF assms(1) _ that] by auto
  show "climbs_out n P i" by (rule reach [OF assms(3)])
  then show "lineage n P i = validators P i" unfolding validators_def by (rule lineage_fuel) (rule reach, simp)
qed

section \<open>What the lineage is\<close>

lemma validators_step:
  assumes inv: "pp_inv uuid_ok t r s P" and p: "kget (pps_participants P) i = Some p"
  shows "validators P i = p # validators P (pt_validator p)"
proof -
  have "validators P i = lineage 5 P i" using validators_fuel(2) [OF inv, where i = i and n = 5] p by simp
  also have "\<dots> = p # lineage 4 P (pt_validator p)"
    using pp_inv_participant [OF inv p] p by (simp add: numeral_eq_Suc)
  finally show ?thesis by (simp add: validators_def)
qed

lemma validators_shape:
  assumes inv: "pp_inv uuid_ok t r s P" and p: "kget (pps_participants P) i = Some p"
  shows "hd (validators P i) = p \<and> validators P i \<noteq> [] \<and>
    sorted_wrt (\<lambda>a b. role_rank (pt_role b) < role_rank (pt_role a) \<and> pt_id b < pt_id a) (validators P i) \<and>
    (\<forall>q \<in> set (validators P i). kget (pps_participants P) (pt_id q) = Some q \<and> pt_schema_id q = pt_schema_id p) \<and>
    pt_role (last (validators P i)) = ECOSYSTEM"
  using p
proof (induction "role_rank (pt_role p)" arbitrary: i p rule: less_induct)
  case less
  note here = validators_step [OF inv less.prems] pp_inv_participant [OF inv less.prems]
  show ?case
  proof (cases "pt_validator p = 0")
    case True
    then have "validators P (pt_validator p) = []" by (simp add: validators_def)
    moreover have "pt_role p = ECOSYSTEM" using True here(2) by (auto simp: placed_def split: if_splits)
    ultimately show ?thesis using here less.prems by simp
  next
    case False
    from placed_validator [OF inv less.prems this] obtain q where
      q: "kget (pps_participants P) (pt_validator p) = Some q" "pt_validator p < i"
        "role_rank (pt_role q) < role_rank (pt_role p)" "pt_schema_id q = pt_schema_id p" .
    note up = less.hyps [OF q(3,1)] pp_inv_participant [OF inv q(1)] validators_step [OF inv q(1)]
    then show ?thesis using here q less.prems by auto
  qed
qed

lemma validators_length:
  assumes "pp_inv uuid_ok t r s P" "kget (pps_participants P) i = Some p"
  shows "length (validators P i) \<le> 4"
proof -
  have "length (lineage n P i) \<le> n" for n P i
    by (induction n arbitrary: i) (auto split: option.splits)
  then show ?thesis by (simp add: validators_def)
qed

text \<open>C12 validator_walks_terminate: the loops of the ancestor check, of the session and of the
  beneficiary query have no bound in the code; on every reachable state and from every stored
  participant they end without an error after at most four rounds, the fuel of the model is
  never used up, and all three read the same chain: the participant, then validators of the
  same schema with strictly smaller ids and strictly higher roles, up to a root of the
  ecosystem.\<close>

theorem validator_walks_terminate:
  assumes "pp_reach CN B uuid_ok t r grp s P" "kget (pps_participants P) i = Some p"
  shows "(\<forall>n now c found m. 4 \<le> n \<or> n = chain_fuel P \<longrightarrow>
      ancestor_search n P now c i =
        Inr (\<exists>v \<in> set (validators P i). IsValidParticipant v now = Inr () \<and> pt_corp v = c) \<and>
      add_ancestors n P found i = Inr (foldl add_payable found (validators P i)) \<and>
      collect_ancestors n P m i = Inr (foldl note_payable m (validators P i))) \<and>
    hd (validators P i) = p \<and> length (validators P i) \<le> 4 \<and>
    sorted_wrt (\<lambda>a b. role_rank (pt_role b) < role_rank (pt_role a) \<and> pt_id b < pt_id a) (validators P i) \<and>
    (\<forall>q \<in> set (validators P i). kget (pps_participants P) (pt_id q) = Some q \<and> pt_schema_id q = pt_schema_id p) \<and>
    pt_role (last (validators P i)) = ECOSYSTEM"
proof -
  note inv = pp_reach_inv [OF assms(1)]
  have "i = 0 \<or> kget (pps_participants P) i \<noteq> None" using assms(2) by simp
  note fuel = validators_fuel [OF inv this]
  show ?thesis
    using validators_shape [OF inv assms(2)] validators_length [OF inv assms(2)] fuel
    by (auto simp: ancestor_search_lineage add_ancestors_lineage [OF _ pp_inv_own [OF inv]] collect_ancestors_lineage)
qed

theorem validator_walks_terminate_witness:
  "hd (validators sample_P3 3) = sample_p3 \<and> length (validators sample_P3 3) \<le> 4 \<and>
   ancestor_search 4 sample_P3 80 2 3 = Inr True"
proof -
  have "validators sample_P3 3 = [sample_p3, sample_p2, sample_p1]"
    by (simp add: validators_def sample_P3_get numeral_eq_Suc)
  then show ?thesis
    using validator_walks_terminate [OF sample_issuer_valid_step, of 3 sample_p3]
    by (simp add: sample_P3_get IsValidParticipant_def sample_days ns_per_day_def)
qed

section \<open>Beneficiaries\<close>

text \<open>A list of participants as they are stored.\<close>

definition as_stored :: "pp_state \<Rightarrow> participant list \<Rightarrow> bool" where
  "as_stored P ps \<longleftrightarrow> (\<forall>p \<in> set ps. kget (pps_participants P) (pt_id p) = Some p)"

lemma contains_id_iff: "contains_id found i \<longleftrightarrow> i \<in> pt_id ` set found"
  by (auto simp: contains_id_def list_ex_iff)

lemma as_stored_eq: "as_stored P ps \<Longrightarrow> p \<in> set ps \<Longrightarrow> q \<in> set ps \<Longrightarrow> pt_id p = pt_id q \<Longrightarrow> p = q"
  unfolding as_stored_def by (metis option.inject)

lemma add_payable_fold:
  assumes "as_stored P (found @ ps)" "distinct (map pt_id found)"
  shows "set (foldl add_payable found ps) = set found \<union> {p \<in> set ps. payable p} \<and>
    distinct (map pt_id (foldl add_payable found ps)) \<and> as_stored P (foldl add_payable found ps)"
  using assms
proof (induction ps arbitrary: found)
  case Nil
  then show ?case by simp
next
  case (Cons p ps)
  have known: "p \<in> set found" if "contains_id found (pt_id p)"
  proof -
    from that obtain q where q: "q \<in> set found" "pt_id q = pt_id p" by (auto simp: contains_id_iff)
    then have "q = p" using as_stored_eq [OF Cons.prems(1), of q p] by simp
    then show ?thesis using q(1) by simp
  qed
  have step: "as_stored P (add_payable found p @ ps)" "distinct (map pt_id (add_payable found p))"
    using Cons.prems by (auto simp: add_payable_def as_stored_def contains_id_iff)
  have "set (add_payable found p) = set found \<union> {q. q = p \<and> payable p}"
    using known by (auto simp: add_payable_def)
  then show ?case using Cons.IH [OF step] by auto
qed

lemma note_payable_fold:
  assumes "\<And>i p. kget m i = Some p \<Longrightarrow> kget (pps_participants P) i = Some p" "as_stored P ps"
  shows "kget (foldl note_payable m ps) i = Some p \<longleftrightarrow>
    kget m i = Some p \<or> p \<in> set ps \<and> payable p \<and> pt_id p = i"
  using assms
proof (induction ps arbitrary: m)
  case (Cons q ps)
  have q: "kget (pps_participants P) (pt_id q) = Some q" "as_stored P ps" using Cons.prems(2) by (simp_all add: as_stored_def)
  have step: "kget (pps_participants P) j = Some x" if "kget (note_payable m q) j = Some x" for j x
    using that q(1) Cons.prems(1) by (auto simp: note_payable_def kget_kset split: if_splits)
  have "kget (note_payable m q) i = Some p \<longleftrightarrow> kget m i = Some p \<or> p = q \<and> payable p \<and> pt_id p = i"
    using Cons.prems(1) [of i] q(1) by (auto simp: note_payable_def kget_kset)
  then show ?case using Cons.IH [OF step q(2)] by auto
qed simp

text \<open>The schema a session is about, and those it pays: the payable validators of the
  parties, and the issuer when a verifier pays.\<close>

definition session_schema :: "pp_state \<Rightarrow> nat \<Rightarrow> nat \<Rightarrow> nat option" where
  "session_schema P i v =
     map_option pt_schema_id (kget (pps_participants P) (if i \<noteq> 0 then i else v))"

definition paid_parties :: "pp_state \<Rightarrow> nat \<Rightarrow> nat \<Rightarrow> participant set" where
  "paid_parties P i v = {p \<in> set (tl (validators P i)) \<union> set (tl (validators P v)). payable p} \<union>
     {p. v \<noteq> 0 \<and> i \<noteq> 0 \<and> kget (pps_participants P) i = Some p \<and> pt_revoked p = None}"

lemma up_walks:
  assumes inv: "pp_inv uuid_ok t r s P" and p: "kget (pps_participants P) i = Some p"
  shows "add_ancestors (chain_fuel P) P found (pt_validator p) = Inr (foldl add_payable found (tl (validators P i)))"
    "collect_ancestors (chain_fuel P) P m (pt_validator p) = Inr (foldl note_payable m (tl (validators P i)))"
    "as_stored P (validators P i)" "as_stored P (tl (validators P i))"
proof -
  have up: "pt_validator p = 0 \<or> kget (pps_participants P) (pt_validator p) \<noteq> None"
  proof (rule disjCI)
    assume "\<not> kget (pps_participants P) (pt_validator p) \<noteq> None"
    then show "pt_validator p = 0" using placed_validator [OF inv p] by (metis option.distinct(1))
  qed
  note fuel = validators_fuel [OF inv up, of "chain_fuel P"]
  show "add_ancestors (chain_fuel P) P found (pt_validator p) = Inr (foldl add_payable found (tl (validators P i)))"
    "collect_ancestors (chain_fuel P) P m (pt_validator p) = Inr (foldl note_payable m (tl (validators P i)))"
    using fuel validators_step [OF inv p]
    by (simp_all add: add_ancestors_lineage [OF _ pp_inv_own [OF inv]] collect_ancestors_lineage)
  show "as_stored P (validators P i)" using validators_shape [OF inv p] by (simp add: as_stored_def)
  then show "as_stored P (tl (validators P i))" using validators_step [OF inv p] by (simp add: as_stored_def)
qed

lemma validators_none [simp]: "validators P 0 = []"
  by (simp add: validators_def)

lemma issuer_walk:
  assumes inv: "pp_inv uuid_ok t r s P" and i: "i = 0 \<or> kget (pps_participants P) i \<noteq> None"
  shows "\<exists>found. (if i \<noteq> 0 then bindE (GetParticipantByID P i) (\<lambda>p. add_ancestors (chain_fuel P) P [] (pt_validator p))
      else Inr []) = Inr found \<and> set found = {p \<in> set (tl (validators P i)). payable p} \<and>
      distinct (map pt_id found) \<and> as_stored P found"
proof (cases "i = 0")
  case True
  then show ?thesis by (simp add: as_stored_def)
next
  case False
  with i obtain p where p: "kget (pps_participants P) i = Some p" by auto
  show ?thesis using up_walks [OF inv p] add_payable_fold [of P "[]" "tl (validators P i)"] p False
    by (simp add: GetParticipantByID_def)
qed

lemma findBeneficiaries_paid:
  assumes inv: "pp_inv uuid_ok t r s P" and i: "i = 0 \<or> kget (pps_participants P) i \<noteq> None"
    and v: "v = 0 \<or> kget (pps_participants P) v \<noteq> None"
    and c: "session_schema P i v = Some j" "kget (css_schemas (pe_cs X)) j = Some c" and closed: "\<not> open_mode c i v"
  shows "\<exists>found. findBeneficiaries X P i v = Inr found \<and> set found = paid_parties P i v \<and> distinct (map pt_id found)"
proof -
  from c have schema: "(if i \<noteq> 0 then bindE (GetParticipantByID P i) (\<lambda>p. Inr (pt_schema_id p))
            else if v \<noteq> 0 then bindE (GetParticipantByID P v) (\<lambda>p. Inr (pt_schema_id p)) else Inl Pp_Zero_Id) = Inr j"
    using pp_inv_participant [OF inv, of 0]
    by (cases "v = 0") (auto simp: session_schema_def GetParticipantByID_def split: if_splits)
  from issuer_walk [OF inv i] obtain f1 where f1: "(if i \<noteq> 0 then bindE (GetParticipantByID P i)
        (\<lambda>p. add_ancestors (chain_fuel P) P [] (pt_validator p)) else Inr []) = Inr f1"
    and set1: "set f1 = {p \<in> set (tl (validators P i)). payable p}" "distinct (map pt_id f1)" "as_stored P f1" by blast
  let ?f2 = "if i \<noteq> 0 then (case kget (pps_participants P) i of None \<Rightarrow> f1
      | Some p \<Rightarrow> if pt_revoked p = None \<and> \<not> contains_id f1 i then f1 @ [p] else f1) else f1"
  have run: "findBeneficiaries X P i v = (if v \<noteq> 0 then
      bindE (GetParticipantByID P v) (\<lambda>q. add_ancestors (chain_fuel P) P ?f2 (pt_validator q)) else Inr f1)"
    using c(2) closed by (simp only: findBeneficiaries_def schema f1 bindE_Inr Let_def get_schema_def
        GetCredentialSchemaById_def optE_Some if_False)
  show ?thesis
  proof (cases "v = 0")
    case True
    then show ?thesis using run set1 by (auto simp: paid_parties_def)
  next
    case False
    with v obtain q where q: "kget (pps_participants P) v = Some q" by auto
    have f2: "set ?f2 = set f1 \<union> {p. i \<noteq> 0 \<and> kget (pps_participants P) i = Some p \<and> pt_revoked p = None} \<and>
        distinct (map pt_id ?f2) \<and> as_stored P ?f2"
    proof (cases "i = 0")
      case True
      then show ?thesis using set1 by simp
    next
      case False
      with i obtain p where p: "kget (pps_participants P) i = Some p" by auto
      have "pt_id p = i" using pp_inv_participant [OF inv p] by blast
      moreover have "p \<in> set f1" if "contains_id f1 i"
      proof -
        from that obtain x where "x \<in> set f1" "pt_id x = i" by (auto simp: contains_id_iff)
        then show ?thesis using set1(3) p unfolding as_stored_def by (metis option.inject)
      qed
      ultimately show ?thesis using False p set1(2,3) by (auto simp: contains_id_iff as_stored_def)
    qed
    have "as_stored P (?f2 @ tl (validators P v))" using f2 up_walks(4) [OF inv q] by (auto simp: as_stored_def)
    note fold = add_payable_fold [OF this conjunct1 [OF conjunct2 [OF f2]]]
    have "findBeneficiaries X P i v = Inr (foldl add_payable ?f2 (tl (validators P v)))"
      using run False q up_walks(1) [OF inv q] by (simp add: GetParticipantByID_def)
    moreover have "set ?f2 \<union> {p \<in> set (tl (validators P v)). payable p} = paid_parties P i v"
      using f2 set1(1) False by (auto simp: paid_parties_def)
    ultimately show ?thesis using fold by blast
  qed
qed





text \<open>C20 query_promises_session: for valid parties of a schema that is not open for them, the
  query answers exactly the participants the session pays.\<close>

theorem query_promises_session:
  assumes "pp_reach CN B uuid_ok t r grp s P" "pp_linked X r s" "i \<noteq> 0 \<or> v \<noteq> 0"
    and "\<And>k. k = i \<or> k = v \<Longrightarrow> k \<noteq> 0 \<Longrightarrow>
      \<exists>p. kget (pps_participants P) k = Some p \<and> IsValidParticipant p (pp_now X) = Inr ()"
    and "session_schema P i v = Some j" "kget (css_schemas s) j = Some c" "\<not> open_mode c i v"
  shows "\<exists>found m. findBeneficiaries X P i v = Inr found \<and> FindBeneficiaries X P i v = Inr m \<and>
    set (walk m) = set found \<and> (\<forall>k p. kget m k = Some p \<longrightarrow> pt_id p = k)"
proof -
  note inv = pp_reach_inv [OF assms(1)]
  have i: "i = 0 \<or> kget (pps_participants P) i \<noteq> None" and v: "v = 0 \<or> kget (pps_participants P) v \<noteq> None"
    using assms(4) [of i] assms(4) [of v] by auto
  have "kget (css_schemas (pe_cs X)) j = Some c" using assms(2,6) by (simp add: pp_linked_def)
  from findBeneficiaries_paid [OF inv i v assms(5) this assms(7)] obtain found where
    found: "findBeneficiaries X P i v = Inr found" "set found = paid_parties P i v" by blast
  define m1 where "m1 = foldl note_payable kempty (tl (validators P i))"
  have walk1: "(case valid of None \<Rightarrow> Inr kempty | Some p \<Rightarrow> collect_ancestors (chain_fuel P) P kempty (pt_validator p)) = Inr m1"
    and valid1: "valid_party X P i = Inr valid"
    if "valid = (if i = 0 then None else kget (pps_participants P) i)" for valid
    using that assms(4) [of i] up_walks(2) [OF inv, of i]
    by (auto simp: m1_def valid_party_def GetParticipantByID_def split: if_splits)
  have mem1: "kget m1 k = Some p \<longleftrightarrow> p \<in> set (tl (validators P i)) \<and> payable p \<and> pt_id p = k" for k p
  proof (cases "i = 0")
    case True
    then show ?thesis by (simp add: m1_def)
  next
    case False
    with i obtain q where q: "kget (pps_participants P) i = Some q" by auto
    show ?thesis using note_payable_fold [of kempty P, OF _ up_walks(4) [OF inv q]] by (simp add: m1_def)
  qed
  have stored1: "kget (pps_participants P) k = Some p" if "kget m1 k = Some p" for k p
  proof (cases "i = 0")
    case True
    then show ?thesis using that by (simp add: m1_def)
  next
    case False
    with i obtain q where q: "kget (pps_participants P) i = Some q" by auto
    show ?thesis using that up_walks(4) [OF inv q] by (auto simp: mem1 as_stored_def)
  qed
  show ?thesis
  proof (cases "v = 0")
    case True
    then have "FindBeneficiaries X P i v = Inr m1"
      using assms(3) valid1 [OF refl] walk1 [OF refl]
      by (simp add: FindBeneficiaries_def valid_party_def [of X P 0] split: option.splits)
    moreover have "p \<in> set (walk m1) \<longleftrightarrow> p \<in> set found" for p
      using True by (auto simp: walk_mem_iff mem1 found(2) paid_parties_def)
    ultimately show ?thesis using found(1) mem1 by auto
  next
    case False
    with assms(4) [of v] obtain q where q: "kget (pps_participants P) v = Some q" "IsValidParticipant q (pp_now X) = Inr ()"
      by auto
    define m2 where "m2 = (case (if i = 0 then None else kget (pps_participants P) i) of None \<Rightarrow> m1
        | Some p \<Rightarrow> if payable p then kset m1 (pt_id p) p else m1)"
    have run: "FindBeneficiaries X P i v = Inr (foldl note_payable m2 (tl (validators P v)))"
      using False q valid1 [OF refl] walk1 [OF refl] up_walks(2) [OF inv q(1)]
      by (simp add: FindBeneficiaries_def valid_party_def [of X P v] GetParticipantByID_def m2_def)
    have unslashed: "payable p \<longleftrightarrow> pt_revoked p = None" if "i \<noteq> 0" "kget (pps_participants P) i = Some p" for p
      using that assms(4) [of i] by (auto simp: payable_def IsValidParticipant_def split: if_splits)
    have own: "kget (pps_participants P) i = Some p \<Longrightarrow> pt_id p = i" for p
      using pp_inv_participant [OF inv] by blast
    have mem2: "kget m2 k = Some p \<longleftrightarrow> kget m1 k = Some p \<or>
        i \<noteq> 0 \<and> k = i \<and> kget (pps_participants P) i = Some p \<and> pt_revoked p = None" for k p
      using stored1 unslashed own
      by (auto simp: m2_def kget_kset split: option.splits if_splits)
    have stored2: "kget m2 k = Some p \<Longrightarrow> kget (pps_participants P) k = Some p" for k p
      using stored1 by (auto simp: mem2)
    have mem: "kget (foldl note_payable m2 (tl (validators P v))) k = Some p \<longleftrightarrow>
        kget m2 k = Some p \<or> p \<in> set (tl (validators P v)) \<and> payable p \<and> pt_id p = k" for k p
      by (rule note_payable_fold [OF stored2 up_walks(4) [OF inv q(1)]])
    have "p \<in> set (walk (foldl note_payable m2 (tl (validators P v)))) \<longleftrightarrow> p \<in> set found" for p
      using False by (auto simp: walk_mem_iff mem mem2 mem1 found(2) paid_parties_def)
    moreover have "pt_id p = k" if "kget (foldl note_payable m2 (tl (validators P v))) k = Some p" for k p
      using that own by (auto simp: mem mem2 mem1)
    ultimately show ?thesis using found(1) run by auto
  qed
qed

theorem query_promises_session_witness:
  "\<exists>found m. findBeneficiaries (sample_pe 80) sample_P3 3 0 = Inr found \<and>
     FindBeneficiaries (sample_pe 80) sample_P3 3 0 = Inr m \<and> set (walk m) = set found"
proof -
  have schema: "session_schema sample_P3 3 0 = Some 1" "kget (css_schemas sample_cs) 1 = Some sample_schema"
      "\<not> open_mode sample_schema 3 0"
    using sample_cs_get(1) by (simp_all add: session_schema_def sample_P3_get open_mode_def)
  have "\<exists>p. kget (pps_participants sample_P3) k = Some p \<and> IsValidParticipant p (pp_now (sample_pe 80)) = Inr ()"
    if "k = 3 \<or> k = 0" "k \<noteq> 0" for k
    using that by (auto simp: sample_P3_get IsValidParticipant_def sample_days ns_per_day_def)
  from query_promises_session [OF sample_issuer_valid_step sample_pe_sel(9) _ this schema] show ?thesis by auto
qed

end
