(* ===== verification/Participant_Life.thy ===== *)
theory Participant_Life
imports Participant_Walks
begin

text \<open>
  The life of a participant as an abstract machine, and the refinement: every accepted
  message of the module is one step of it.
\<close>

section \<open>The abstract machine\<close>

text \<open>A participant applies and is dropped or becomes a member; a member renews and is a
  member again or retires; roots and self-created participants just stand.  The flag says
  that the participant was revoked, slashed or repaid.\<close>

datatype stage = Applied | Member | Renewing | Dropped | Retired | Standing

type_synonym life = "stage \<times> bool"

definition stage_of :: "participant \<Rightarrow> stage" where
  "stage_of p = (if pt_op_state p = PENDING then (if pt_from p = None then Applied else Renewing)
     else if pt_op_state p = VALIDATED then Member
     else if pt_op_state p = TERMINATED then (if pt_from p = None then Dropped else Retired)
     else Standing)"

definition life_of :: "participant \<Rightarrow> life" where
  "life_of p = (stage_of p, withdrawn p)"

definition lives :: "pp_state \<Rightarrow> nat \<Rightarrow> life option" where
  "lives P i = map_option life_of (kget (pps_participants P) i)"

text \<open>Who joins, and where a message takes the participant it names.\<close>

definition joins :: "pp_op \<Rightarrow> stage option" where
  "joins op = (case op of Pp_Start m \<Rightarrow> Some Applied | Pp_Root m \<Rightarrow> Some Standing | Pp_Self m \<Rightarrow> Some Standing
     | _ \<Rightarrow> None)"

inductive moves :: "pp_op \<Rightarrow> nat \<Rightarrow> life \<Rightarrow> life \<Rightarrow> bool" where
  renew: "moves (Pp_Renew m) (op_id m) (Member, w) (Renewing, w)"
| validate: "s = Applied \<or> s = Renewing \<Longrightarrow> moves (Pp_Validate m) (vd_id m) (s, w) (Member, w)"
| drop: "moves (Pp_Cancel m) (op_id m) (Applied, w) (Dropped, w)"
| keep: "moves (Pp_Cancel m) (op_id m) (Renewing, w) (Member, w)"
| retire: "moves (Pp_Cancel m) (op_id m) (Renewing, w) (Retired, w)"
| set_until: "s \<noteq> Applied \<Longrightarrow> s \<noteq> Dropped \<Longrightarrow> moves (Pp_Set_Until m) (su_id m) (s, w) (s, w)"
| revoke: "s \<noteq> Applied \<Longrightarrow> s \<noteq> Dropped \<Longrightarrow> moves (Pp_Revoke m) (op_id m) (s, w) (s, True)"
| slash: "moves (Pp_Slash m) (sh_id m) (s, w) (s, True)"
| repay: "moves (Pp_Repay m) (rr_id m) (s, True) (s, True)"

text \<open>One step of the machine: a message that joins adds the next participant, one that
  names a participant moves it, and sessions and the parameter leave every life as it is.\<close>

definition life_step :: "pp_op \<Rightarrow> nat \<Rightarrow> (nat \<Rightarrow> life option) \<Rightarrow> (nat \<Rightarrow> life option) \<Rightarrow> bool" where
  "life_step op n L L' \<longleftrightarrow>
     (case joins op of
        Some s \<Rightarrow> L (Suc n) = None \<and> L' = L(Suc n \<mapsto> (s, False))
      | None \<Rightarrow> (\<exists>i a b. moves op i a b \<and> L i = Some a \<and> L' = L(i \<mapsto> b)) \<or>
                (\<exists>m. op = Pp_Session m) \<and> L' = L \<or> (\<exists>x d. op = Pp_Update_Params x d) \<and> L' = L)"

section \<open>Refinement\<close>

lemma lives_update: "pt_id q = i \<Longrightarrow> lives (UpdateParticipant P q) = (lives P)(i \<mapsto> life_of q)"
  by (simp add: lives_def kget_kset fun_eq_iff)

lemma lives_add: "lives (add_participant P p) = (lives P)(Suc (pp_last_id P) \<mapsto> life_of (newcomer P p))"
  by (simp add: lives_def fun_eq_iff add_participant_get del: add_participant_sel(4))

lemma life_of_newcomer: "life_of (newcomer P p) = life_of p"
  by (simp add: life_of_def stage_of_def)

lemma new_life:
  "life_of (new_applicant now m v c f d) = (Applied, False)"
  "life_of (new_root now rm c) = (Standing, False)" "life_of (new_self now sm v c b) = (Standing, False)"
  by (simp_all add: life_of_def stage_of_def withdrawn_def new_defs)

lemma credits_life: "credits P Q \<Longrightarrow> lives Q = lives P"
proof
  fix i assume "credits P Q"
  then have "rel_option same_but_deposit (kget (pps_participants P) i) (kget (pps_participants Q) i)"
    by (simp add: credits_def)
  moreover have "life_of q = life_of p" if "same_but_deposit p q" for p q
    using that by (drule_tac same_but_deposit_eq, erule_tac ssubst) (simp add: life_of_def stage_of_def withdrawn_def)
  ultimately show "lives Q i = lives P i" by (cases rule: option.rel_cases) (simp_all add: lives_def)
qed

lemma valid_stage: "IsValidParticipant p now = Inr () \<Longrightarrow> stage_of p \<noteq> Applied \<and> stage_of p \<noteq> Dropped"
  by (auto simp: IsValidParticipant_def stage_of_def split: if_splits)

text \<open>A step of one participant, seen from the machine.\<close>

lemma pt_step_life:
  assumes "pt_step now e p q" "participant_ok t p"
  shows "case e of
      Renewed \<Rightarrow> \<exists>w. life_of p = (Member, w) \<and> life_of q = (Renewing, w)
    | Validated \<Rightarrow> \<exists>s w. (s = Applied \<or> s = Renewing) \<and> life_of p = (s, w) \<and> life_of q = (Member, w)
    | Cancelled \<Rightarrow> \<exists>w. life_of p = (Applied, w) \<and> life_of q = (Dropped, w) \<or>
        life_of p = (Renewing, w) \<and> (life_of q = (Member, w) \<or> life_of q = (Retired, w))
    | Adjusted \<Rightarrow> \<exists>s w. s \<noteq> Applied \<and> s \<noteq> Dropped \<and> life_of p = (s, w) \<and> life_of q = (s, w)
    | Revoked \<Rightarrow> \<exists>s w. s \<noteq> Applied \<and> s \<noteq> Dropped \<and> life_of p = (s, w) \<and> life_of q = (s, True)
    | Slashed \<Rightarrow> \<exists>s w. life_of p = (s, w) \<and> life_of q = (s, True)
    | Repaid \<Rightarrow> \<exists>s. life_of p = (s, True) \<and> life_of q = (s, True)"
  using assms(1)
proof cases
  case (adjusted u)
  then show ?thesis using valid_stage [OF adjusted(3)]
    by (auto simp: life_of_def stage_of_def withdrawn_def)
next
  case (revoked d)
  then show ?thesis using valid_stage [OF revoked(3)]
    by (auto simp: life_of_def stage_of_def withdrawn_def)
next
  case (repaid a)
  then show ?thesis
    by (auto simp: life_of_def stage_of_def withdrawn_def repaid_participant_def Let_def)
qed (use assms(2) in \<open>auto simp: life_of_def stage_of_def withdrawn_def participant_ok_def IsValidParticipant_def split: if_splits option.splits\<close>)

lemma takes_step_life:
  assumes step: "takes_step now P i e Q" and inv: "pp_inv uuid_ok t r s P"
  obtains p q where "lives P i = Some (life_of p)" "lives Q = (lives P)(i \<mapsto> life_of q)" "pt_step now e p q"
    "participant_ok t p"
proof -
  from takes_step_get [OF step pp_inv_own [OF inv]] obtain p q where
    p: "kget (pps_participants P) i = Some p" "pt_step now e p q" "pt_id q = i" "Q = UpdateParticipant P q" by metis
  then show ?thesis using that [of p q] lives_update [of q i P] pp_inv_participant [OF inv p(1)] by (simp add: lives_def)
qed

lemma move_step:
  assumes step: "takes_step now P i e Q" and inv: "pp_inv uuid_ok t r s P" and op: "joins op = None"
    and moves: "\<And>p q. pt_step now e p q \<Longrightarrow> participant_ok t p \<Longrightarrow> moves op i (life_of p) (life_of q)"
  shows "life_step op n (lives P) (lives Q)"
proof -
  from takes_step_life [OF step inv] obtain p q where
    "lives P i = Some (life_of p)" "lives Q = (lives P)(i \<mapsto> life_of q)" "pt_step now e p q" "participant_ok t p" .
  then show ?thesis using moves op unfolding life_step_def by (simp only: option.case) blast
qed

lemma pt_step_moves:
  "pt_step now Renewed p q \<Longrightarrow> participant_ok t p \<Longrightarrow> moves (Pp_Renew m) (op_id m) (life_of p) (life_of q)"
  "pt_step now Validated p q \<Longrightarrow> participant_ok t p \<Longrightarrow> moves (Pp_Validate vm) (vd_id vm) (life_of p) (life_of q)"
  "pt_step now Cancelled p q \<Longrightarrow> participant_ok t p \<Longrightarrow> moves (Pp_Cancel m) (op_id m) (life_of p) (life_of q)"
  "pt_step now Adjusted p q \<Longrightarrow> participant_ok t p \<Longrightarrow> moves (Pp_Set_Until um) (su_id um) (life_of p) (life_of q)"
  "pt_step now Revoked p q \<Longrightarrow> participant_ok t p \<Longrightarrow> moves (Pp_Revoke m) (op_id m) (life_of p) (life_of q)"
  "pt_step now Slashed p q \<Longrightarrow> participant_ok t p \<Longrightarrow> moves (Pp_Slash sm) (sh_id sm) (life_of p) (life_of q)"
  "pt_step now Repaid p q \<Longrightarrow> participant_ok t p \<Longrightarrow> moves (Pp_Repay rm) (rr_id rm) (life_of p) (life_of q)"
  by (drule (1) pt_step_life, auto intro: moves.intros)+

lemma join_step:
  assumes "pt_new X P p" "life_of p = (st, False)" "joins op = Some st" "pp_inv uuid_ok t r s P"
  shows "life_step op (pp_last_id P) (lives P) (lives (add_participant P p))"
proof -
  have "kget (pps_participants P) (Suc (pp_last_id P)) = None"
    using pp_inv_participant [OF assms(4), of "Suc (pp_last_id P)"] by fastforce
  then show ?thesis using assms(2,3) by (simp add: life_step_def lives_add life_of_newcomer) (simp add: lives_def)
qed

lemma new_life_of: "pt_new X P p \<Longrightarrow> life_of p = (if pt_op_state p = PENDING then Applied else Standing, False)"
  by (erule pt_new.cases) (auto simp: new_life, auto simp: new_defs)

text \<open>C8 participant_life_cycle: every accepted message of the module is one step of the
  abstract life of participants, on every reachable state: a start joins an applicant, a root
  and a self-created participant join as standing ones, and every other message moves exactly
  the participant it names along the machine; sessions and the parameter move nobody.\<close>

theorem participant_life_cycle:
  assumes "pp_reach CN B uuid_ok t r grp s P" "pw_pp w = P" "pp_exec uuid_ok gov X w op = Inr w'"
  shows "life_step op (pp_last_id P) (lives P) (lives (pw_pp w'))"
proof -
  note inv = pp_reach_inv [OF assms(1)]
  note own = pp_inv_own [OF inv]
  note exec = assms(3) [unfolded pp_exec_def]
  show ?thesis
  proof (cases op)
    case (Pp_Start m)
    with exec obtain i where m: "StartParticipantOP X w m = Inr (i, w')" "validate_start_op (pe_sdk X) m = Inr ()"
      by (auto simp: bindE_unit_ok_iff bindE_ok_iff)
    from start_effect [OF this] obtain p where p: "pt_new X P p" "pt_op_state p = PENDING" "pw_pp w' = add_participant P p"
      using assms(2) by auto
    then show ?thesis using join_step [OF p(1) new_life_of [OF p(1)] _ inv] Pp_Start by (simp add: joins_def)
  next
    case (Pp_Root m)
    with exec obtain i where m: "CreateRootParticipant X w m = Inr (i, w')" "validate_root_pp (pe_sdk X) m = Inr ()"
      by (auto simp: bindE_unit_ok_iff bindE_ok_iff)
    from root_effect [OF this] obtain p where p: "pt_new X P p" "pt_op_state p = 0" "pw_pp w' = add_participant P p"
      using assms(2) by auto
    then show ?thesis using join_step [OF p(1) new_life_of [OF p(1)] _ inv] Pp_Root by (simp add: joins_def)
  next
    case (Pp_Self m)
    with exec obtain i where m: "SelfCreateParticipant X w m = Inr (i, w')" "validate_self_pp (pe_sdk X) m = Inr ()"
      by (auto simp: bindE_unit_ok_iff bindE_ok_iff)
    from self_effect [OF this] obtain p where p: "pt_new X P p" "pt_op_state p = 0" "pw_pp w' = add_participant P p"
      using assms(2) by auto
    then show ?thesis using join_step [OF p(1) new_life_of [OF p(1)] _ inv] Pp_Self by (simp add: joins_def)
  next
    case (Pp_Renew m)
    then have "takes_step (pp_now X) P (op_id m) Renewed (pw_pp w')"
      using exec renew_effect [of X w m w'] assms(2) by (auto simp: bindE_unit_ok_iff)
    then show ?thesis unfolding Pp_Renew by (rule move_step [OF _ inv _ pt_step_moves(1)]) (simp add: joins_def)
  next
    case (Pp_Validate m)
    then have "takes_step (pp_now X) P (vd_id m) Validated (pw_pp w')"
      using exec validate_effect [of X w m w'] assms(2) by (auto simp: bindE_unit_ok_iff)
    then show ?thesis unfolding Pp_Validate by (rule move_step [OF _ inv _ pt_step_moves(2)]) (simp add: joins_def)
  next
    case (Pp_Cancel m)
    then have "takes_step (pp_now X) P (op_id m) Cancelled (pw_pp w')"
      using exec cancel_effect [of X w m w'] assms(2) by (auto simp: bindE_unit_ok_iff)
    then show ?thesis unfolding Pp_Cancel by (rule move_step [OF _ inv _ pt_step_moves(3)]) (simp add: joins_def)
  next
    case (Pp_Set_Until m)
    then have "takes_step (pp_now X) P (su_id m) Adjusted (pw_pp w')"
      using exec set_until_effect [of X w m w'] assms(2) by (auto simp: bindE_unit_ok_iff)
    then show ?thesis unfolding Pp_Set_Until by (rule move_step [OF _ inv _ pt_step_moves(4)]) (simp add: joins_def)
  next
    case (Pp_Revoke m)
    then have "takes_step (pp_now X) P (op_id m) Revoked (pw_pp w')"
      using exec revoke_effect [of X w m w'] assms(2) by (auto simp: bindE_unit_ok_iff)
    then show ?thesis unfolding Pp_Revoke by (rule move_step [OF _ inv _ pt_step_moves(5)]) (simp add: joins_def)
  next
    case (Pp_Slash m)
    then have "takes_step (pp_now X) P (sh_id m) Slashed (pw_pp w')"
      using exec slash_effect [of X w m w'] assms(2) by (auto simp: bindE_unit_ok_iff)
    then show ?thesis unfolding Pp_Slash by (rule move_step [OF _ inv _ pt_step_moves(6)]) (simp add: joins_def)
  next
    case (Pp_Repay m)
    then have "takes_step (pp_now X) P (rr_id m) Repaid (pw_pp w')"
      using exec repay_effect [of X w m w'] assms(2) by (auto simp: bindE_unit_ok_iff)
    then show ?thesis unfolding Pp_Repay by (rule move_step [OF _ inv _ pt_step_moves(7)]) (simp add: joins_def)
  next
    case (Pp_Session m)
    then have "CreateOrUpdateParticipantSession X w m = Inr w'" using exec by (auto simp: bindE_unit_ok_iff)
    from session_effect [OF this] own assms(2) obtain S where
      S: "credits P S" "createOrUpdateSession X S m = Inr (pw_pp w')" by auto
    from credits_timeout [OF S(2)] have "lives (pw_pp w') = lives S" by (simp add: lives_def fun_eq_iff)
    also have "\<dots> = lives P" by (rule credits_life [OF S(1)])
    finally show ?thesis using Pp_Session by (simp add: life_step_def joins_def)
  next
    case (Pp_Update_Params x d)
    then have "pw_pp w' = P\<lparr>pps_timeout_days := d\<rparr>"
      using exec assms(2) by (auto simp: pp_UpdateParams_def bindE_unit_ok_iff result_simps)
    then show ?thesis using Pp_Update_Params by (simp add: life_step_def joins_def lives_def fun_eq_iff)
  qed
qed

theorem participant_life_cycle_witness:
  "life_step (Pp_Slash sample_slash_pp) 3 (lives sample_P3) (lives sample_P4) \<and>
   lives sample_P3 2 = Some (Member, False) \<and> lives sample_P4 2 = Some (Member, True)"
proof -
  obtain w where w: "pp_exec sample_uuid ''g'' (sample_pe 90) (sample_pw sample_P3) (Pp_Slash sample_slash_pp) = Inr w"
      "pw_pp w = sample_P4" using sample_slash_exec by blast
  have "lives sample_P3 2 = Some (Member, False)" "lives sample_P4 2 = Some (Member, True)"
    by (simp_all add: lives_def sample_P3_get sample_P4_get life_of_def stage_of_def withdrawn_def)
  then show ?thesis
    using participant_life_cycle [OF sample_issuer_valid_step sample_pw_sel(1) w(1)] w(2) by (simp add: sample_P3_def)
qed

end
