(* ===== verification/Participant_Safety.thy ===== *)
theory Participant_Safety
imports Participant_Walks
begin

text \<open>
  What holds of the participants on every reachable state and what stays so: the invariant
  of the module, the finality of a withdrawal and the lock-out of members whose membership
  is over.
\<close>

section \<open>The invariant\<close>

text \<open>What an accepted slash and an accepted repayment do to the amounts of their participant.\<close>

lemma slash_amounts:
  assumes run: "SlashParticipantTrustDeposit X w m = Inr w'" and own: "own_ids (pw_pp w)"
    and ok: "\<And>i p. kget (pps_participants (pw_pp w)) i = Some p \<Longrightarrow> amounts_ok p" and n: "0 \<le> sh_amount m"
  shows "\<exists>p q. kget (pps_participants (pw_pp w)) (sh_id m) = Some p \<and> kget (pps_participants (pw_pp w')) (sh_id m) = Some q \<and>
    pt_deposit q = pt_deposit p - sh_amount m \<and> 0 \<le> pt_deposit q \<and>
    pt_slashed_deposit q = u64 (pt_slashed_deposit p + sh_amount m) \<and> pt_repaid_deposit q = pt_repaid_deposit p"
proof -
  from run obtain p w1 where p: "kget (pps_participants (pw_pp w)) (sh_id m) = Some p" "sh_amount m \<le> pt_deposit p"
      and e: "executeSlashParticipantTrustDeposit X w p (sh_amount m) = Inr w1" "drop_vs_of_member X w1 p = Inr w'"
    by (auto simp: SlashParticipantTrustDeposit_def validateSlashParticipantBasicChecks_def GetParticipantByID_def
        bindE_unit_ok_iff result_simps split: if_splits)
  have id: "pt_id p = sh_id m" by (rule own_idsD [OF own p(1)])
  have d: "u64 (pt_deposit p - sh_amount m) = pt_deposit p - sh_amount m"
    using ok [OF p(1)] p(2) n by (simp add: amounts_ok_def is_u64_def u64_id)
  let ?q = "p\<lparr>pt_slashed := Some (pp_now X), pt_modified := Some (pp_now X),
      pt_slashed_deposit := u64 (pt_slashed_deposit p + sh_amount m), pt_deposit := u64 (pt_deposit p - sh_amount m)\<rparr>"
  have "pw_pp w' = UpdateParticipant (pw_pp w) ?q"
    using e(1) delegation_pp(3) [OF e(2)]
    by (auto simp: executeSlashParticipantTrustDeposit_def bindE_unit_ok_iff result_simps dest!: burn_deposit_pp)
  then show ?thesis using p d id by (intro exI [of _ p] exI [of _ ?q]) simp
qed

lemma repay_amounts:
  assumes run: "RepayParticipantSlashedTrustDeposit X w m = Inr w'" and own: "own_ids (pw_pp w)"
    and ok: "\<And>i p. kget (pps_participants (pw_pp w)) i = Some p \<Longrightarrow> amounts_ok p" and n: "0 \<le> rr_amount m"
  shows "\<exists>p q. kget (pps_participants (pw_pp w)) (rr_id m) = Some p \<and> kget (pps_participants (pw_pp w')) (rr_id m) = Some q \<and>
    pt_repaid_deposit q = pt_repaid_deposit p + rr_amount m \<and> pt_repaid_deposit q \<le> pt_slashed_deposit q \<and>
    pt_slashed_deposit q = pt_slashed_deposit p \<and> pt_deposit q = u64 (pt_deposit p + rr_amount m)"
proof -
  from run obtain p w1 a where p: "kget (pps_participants (pw_pp w)) (rr_id m) = Some p"
      "rr_amount m \<le> pt_slashed_deposit p - pt_repaid_deposit p"
      and e: "adjust_deposit X w (rr_corporation m) a = Inr w1" "w' = update_in w1 (repaid_participant (pp_now X) p (rr_amount m))"
    by (auto simp: RepayParticipantSlashedTrustDeposit_def own_participant_iff bindE_unit_ok_iff result_simps split: if_splits)
  have id: "pt_id p = rr_id m" by (rule own_idsD [OF own p(1)])
  have r: "u64 (pt_repaid_deposit p + rr_amount m) = pt_repaid_deposit p + rr_amount m"
    using ok [OF p(1)] p(2) n by (simp add: amounts_ok_def is_u64_def u64_id)
  let ?q = "repaid_participant (pp_now X) p (rr_amount m)"
  have q: "pt_id ?q = rr_id m" "pt_repaid_deposit ?q = pt_repaid_deposit p + rr_amount m"
      "pt_slashed_deposit ?q = pt_slashed_deposit p" "pt_deposit ?q = u64 (pt_deposit p + rr_amount m)"
    using id r by (simp_all add: repaid_participant_def Let_def)
  have "kget (pps_participants (pw_pp w')) (rr_id m) = Some ?q"
    using adjust_deposit_pp [OF e(1)] e(2) q(1) by simp
  then show ?thesis using p q by (intro exI [of _ p] exI [of _ ?q]) simp
qed

text \<open>C16 participants_well_formed: after any sequence of messages of the registries, the
  schemas and the participants, every stored participant is well formed: its role, its state,
  its discounts and timestamps are in range and agree with each other; its deposit, the
  amounts slashed and repaid and the fees and deposits of its process fit into 64 bits,
  only a pending process has fees or a deposit of its own, and only a slashed participant has
  slashed or repaid amounts; it is stored under its own id, and it stands under a root of the
  ecosystem's owner or under an earlier validator of the same schema that may validate its
  role.  From such a state no accepted slash underflows: it lowers the deposit by exactly the
  amount it names and adds that to what was slashed; and an accepted repayment adds exactly
  the amount it names to what was repaid, never beyond what was slashed.  (The three fees a
  participant asks for are those of a message and are not bounded further.)\<close>

theorem participants_well_formed:
  assumes "pp_reach CN B uuid_ok t r grp s (pw_pp w)"
  shows "(\<forall>i p. kget (pps_participants (pw_pp w)) i = Some p \<longrightarrow> pt_id p = i \<and> participant_ok t p \<and> placed r s (pw_pp w) p) \<and>
    (\<forall>m w'. 0 \<le> sh_amount m \<and> SlashParticipantTrustDeposit X w m = Inr w' \<longrightarrow>
      (\<exists>p q. kget (pps_participants (pw_pp w)) (sh_id m) = Some p \<and> kget (pps_participants (pw_pp w')) (sh_id m) = Some q \<and>
        pt_deposit q = pt_deposit p - sh_amount m \<and> 0 \<le> pt_deposit q \<and>
        pt_slashed_deposit q = u64 (pt_slashed_deposit p + sh_amount m) \<and> pt_repaid_deposit q = pt_repaid_deposit p)) \<and>
    (\<forall>m w'. 0 \<le> rr_amount m \<and> RepayParticipantSlashedTrustDeposit X w m = Inr w' \<longrightarrow>
      (\<exists>p q. kget (pps_participants (pw_pp w)) (rr_id m) = Some p \<and> kget (pps_participants (pw_pp w')) (rr_id m) = Some q \<and>
        pt_repaid_deposit q = pt_repaid_deposit p + rr_amount m \<and> pt_repaid_deposit q \<le> pt_slashed_deposit q \<and>
        pt_slashed_deposit q = pt_slashed_deposit p \<and> pt_deposit q = u64 (pt_deposit p + rr_amount m)))"
proof -
  note inv = pp_reach_inv [OF assms]
  have each: "pt_id p = i \<and> participant_ok t p \<and> placed r s (pw_pp w) p"
    if "kget (pps_participants (pw_pp w)) i = Some p" for i p using pp_inv_participant [OF inv that] by blast
  then have am: "amounts_ok p" if "kget (pps_participants (pw_pp w)) i = Some p" for i p
    using that unfolding participant_ok_def by blast
  note own = pp_inv_own [OF inv]
  show ?thesis
    by (intro conjI allI impI; (elim conjE)?) (use each in blast, use each in blast, use each in blast,
      rule slash_amounts [OF _ own], assumption, erule am, assumption,
      rule repay_amounts [OF _ own], assumption, erule am, assumption)
qed

theorem participants_well_formed_witness:
  "participant_ok 80 sample_p2 \<and> placed sample_rg sample_cs sample_P3 sample_p2 \<and>
    (\<exists>w' q. SlashParticipantTrustDeposit (sample_pe 90) (sample_pw sample_P3) sample_slash_pp = Inr w' \<and>
      kget (pps_participants (pw_pp w')) 2 = Some q \<and> pt_deposit q = pt_deposit sample_p2 - 10 ^ 6)"
proof -
  obtain w where w: "SlashParticipantTrustDeposit (sample_pe 90) (sample_pw sample_P3) sample_slash_pp = Inr w"
    using sample_slash_exec by (auto simp: pp_exec_def bindE_ok_iff)
  have get: "kget (pps_participants (pw_pp (sample_pw sample_P3))) 2 = Some sample_p2" by (simp add: sample_P3_get)
  have msg: "sh_id sample_slash_pp = 2" "sh_amount sample_slash_pp = 10 ^ 6" by (simp_all add: sample_slash_pp_def)
  have "sample_run 80 (pw_pp (sample_pw sample_P3))" using sample_issuer_valid_step by simp
  note all = participants_well_formed [OF this]
  have "participant_ok 80 sample_p2 \<and> placed sample_rg sample_cs sample_P3 sample_p2"
    using conjunct1 [OF all] get by simp
  moreover have "\<exists>q. kget (pps_participants (pw_pp w)) 2 = Some q \<and> pt_deposit q = pt_deposit sample_p2 - 10 ^ 6"
    using conjunct1 [OF conjunct2 [OF all], rule_format, OF conjI [OF _ w]] get unfolding msg by auto
  ultimately show ?thesis using w by blast
qed

text \<open>C2 participants_kept_apart: after any sequence of messages of the registries, the schemas
  and the participants, participant ids are exactly 1 to the last one given, a corporation has
  at most one process per role and validator, a DID belongs to the participants of one
  corporation only, the effective periods of the participants of one context do not overlap, as
  far as these have a start and are neither revoked nor slashed, every session names existing
  participants, and the timeout of processes is not zero.\<close>

theorem participants_kept_apart:
  assumes "pp_reach CN B uuid_ok t r grp s P"
  shows "pps_timeout_days P \<noteq> 0 \<and>
    (\<forall>i. kget (pps_participants P) i \<noteq> None \<longleftrightarrow> 0 < i \<and> i \<le> pp_last_id P) \<and>
    one_process P \<and> one_owner P \<and> periods_apart P \<and>
    (\<forall>i x. kget (pps_sessions P) i = Some x \<longrightarrow> session_ok uuid_ok t r P i x)"
  using pp_reach_inv [OF assms] unfolding pp_inv_def by blast

theorem participants_kept_apart_witness:
  "one_process sample_P4 \<and> one_owner sample_P4 \<and> periods_apart sample_P4 \<and>
    (kget (pps_participants sample_P4) 2 \<noteq> None \<longleftrightarrow> 2 \<le> pp_last_id sample_P4)"
  using participants_kept_apart [OF sample_slash_step] by auto

section \<open>Ageing\<close>

text \<open>What one tick of the chain does to one participant.\<close>

definition grows :: "time \<Rightarrow> participant \<Rightarrow> participant \<Rightarrow> bool" where
  "grows now p q \<longleftrightarrow> same_but_deposit p q \<or> (\<exists>e. pt_step now e p q)"

lemma grows_ages: "grows now p q \<Longrightarrow> ages p q"
  unfolding grows_def using ages_credit pt_step_ages by blast

lemma pp_tick_grows:
  assumes reach: "pp_reach CN B uuid_ok t r grp s P" and tick: "pp_tick CN B uuid_ok (t, r, grp, s, P) (u, r', grp', s', P')"
    and p: "kget (pps_participants P) i = Some p"
  shows "t \<le> u \<and> (\<exists>q. kget (pps_participants P') i = Some q \<and> grows u p q)"
  using tick
proof (cases rule: pp_tick_cases)
  case (message Z w gov pop w')
  note inv = pp_reach_inv [OF reach]
  have "pp_effect Z uuid_ok P P'" using pp_exec_effect [OF message(6)] pp_inv_own [OF inv] message(5,7) by simp
  then have "\<exists>q. kget (pps_participants P') i = Some q \<and> grows (pp_now Z) p q"
  proof cases
    case (creates x)
    have "i \<noteq> Suc (pp_last_id P)" using pp_inv_participant [OF inv p] by auto
    then have "kget (pps_participants P') i = Some p" using p unfolding creates(1)
      by (simp add: add_participant_get del: add_participant_sel(4))
    then show ?thesis by (simp add: grows_def)
  next
    case (steps j e)
    from takes_step_get [OF this pp_inv_own [OF inv]] obtain a b where
      "kget (pps_participants P) j = Some a" "pt_step (pp_now Z) e a b" "pt_id b = j" "P' = UpdateParticipant P b" by metis
    then show ?thesis using p by (auto simp: kget_kset grows_def)
  next
    case (pays m S)
    then have "rel_option same_but_deposit (kget (pps_participants P) i) (kget (pps_participants P') i)"
      using credits_timeout [OF pays(4)] by (simp add: credits_def)
    then show ?thesis using p by (cases rule: option.rel_cases) (auto simp: grows_def)
  next
    case (tunes d)
    then show ?thesis using p by (simp add: grows_def)
  qed
  then show ?thesis using message(1,2) by simp
qed (use p in \<open>simp_all add: grows_def\<close>)

text \<open>A fact about one participant that neither a step nor the time changes stays.\<close>

lemma participant_stays:
  fixes grp :: 'g
  assumes later: "pp_later CN B uuid_ok (t, r, grp, s, P) (u, r', grp', s', P')" and reach: "pp_reach CN B uuid_ok t r grp s P"
    and p: "kget (pps_participants P) i = Some p" "Q t p"
    and keep: "\<And>t u p q. t \<le> u \<Longrightarrow> Q t p \<Longrightarrow> grows u p q \<Longrightarrow> Q u q"
  shows "\<exists>q. kget (pps_participants P') i = Some q \<and> nature q = nature p \<and> Q u q"
proof (rule pp_later_keeps [OF later reach])
  show "\<exists>q. kget (pps_participants P) i = Some q \<and> nature q = nature p \<and> Q t q" using p by blast
next
  fix t r and grp :: 'g and s P u r' grp' s' P'
  assume now: "pp_reach CN B uuid_ok t r grp s P" "\<exists>q. kget (pps_participants P) i = Some q \<and> nature q = nature p \<and> Q t q"
    "pp_tick CN B uuid_ok (t, r, grp, s, P) (u, r', grp', s', P')"
  then obtain q where q: "kget (pps_participants P) i = Some q" "nature q = nature p" "Q t q" by blast
  from pp_tick_grows [OF now(1,3) q(1)] obtain x where x: "t \<le> u" "kget (pps_participants P') i = Some x" "grows u q x" by blast
  then show "\<exists>q. kget (pps_participants P') i = Some q \<and> nature q = nature p \<and> Q u q"
    using keep [OF x(1) q(3) x(3)] q(2) grows_ages [OF x(3)] by (auto simp: ages_def)
qed

lemma withdrawn_invalid:
  "withdrawn q \<Longrightarrow> \<forall>v. pt_revoked q = Some v \<longrightarrow> v \<le> u \<Longrightarrow> u < now \<Longrightarrow> IsValidParticipant q now \<noteq> Inr ()"
  by (cases "pt_repaid q"; cases "pt_slashed q"; cases "pt_revoked q") (auto simp: IsValidParticipant_def withdrawn_def)

text \<open>C17 withdrawn_is_final: a participant that was revoked or slashed stays withdrawn in
  every later state of the chain, also when the slash is repaid: it keeps its id, schema,
  role, DID, validator, corporation, operator and creation time, and is not valid at any
  later block time.\<close>

theorem withdrawn_is_final:
  assumes "pp_reach CN B uuid_ok t r grp s P" "pp_later CN B uuid_ok (t, r, grp, s, P) (u, r', grp', s', P')"
    and "kget (pps_participants P) i = Some p" "withdrawn p"
  shows "\<exists>q. kget (pps_participants P') i = Some q \<and> nature q = nature p \<and> withdrawn q \<and>
    (\<forall>now. u < now \<longrightarrow> IsValidParticipant q now \<noteq> Inr ())"
proof -
  have "\<exists>q. kget (pps_participants P') i = Some q \<and> nature q = nature p \<and> withdrawn q"
  proof (rule participant_stays [OF assms(2,1,3), where Q = "\<lambda>_. withdrawn"])
    show "withdrawn y" if "withdrawn x" "grows v x y" for v x y using grows_ages [OF that(2)] that(1) by (simp add: ages_def)
  qed (rule assms(4))
  then obtain q where q: "kget (pps_participants P') i = Some q" "nature q = nature p" "withdrawn q" by blast
  have "participant_ok u q" using pp_inv_participant [OF pp_reach_inv [OF pp_later_reach [OF assms(2,1)]] q(1)] by blast
  then have "\<forall>v. pt_revoked q = Some v \<longrightarrow> v \<le> u" by (simp add: participant_ok_def)
  then show ?thesis using q withdrawn_invalid [OF q(3), of u] by blast
qed

lemma sample_later: "pp_later list_coins sample_bank sample_uuid (80, sample_rg, ''pp'', sample_cs, sample_P3)
    (90, sample_rg, ''pp'', sample_cs, sample_P4)"
  unfolding pp_later_def by (rule r_into_rtranclp [where r = "pp_tick list_coins sample_bank sample_uuid", OF sample_slash_tick])

lemma sample_later_refl: "pp_later CN B uuid_ok x x"
  by (simp add: pp_later_def)

theorem withdrawn_is_final_witness:
  "withdrawn sample_p2s \<and> IsValidParticipant sample_p2s 91 \<noteq> Inr () \<and> IsValidParticipant sample_p2s 9000 \<noteq> Inr ()"
proof -
  have "withdrawn sample_p2s" by (simp add: withdrawn_def)
  then show ?thesis
    using withdrawn_is_final [OF sample_slash_step sample_later_refl, of 2 sample_p2s] by (simp add: sample_P4_get)
qed

section \<open>Members whose membership is over\<close>

text \<open>Slashed, revoked in an earlier block, or past the end of its period.\<close>

definition over :: "time \<Rightarrow> participant \<Rightarrow> bool" where
  "over t p \<longleftrightarrow> pt_slashed p \<noteq> None \<or> (\<exists>v. pt_revoked p = Some v \<and> v < t) \<or> (\<exists>e. pt_until p = Some e \<and> e \<le> t)"

lemma over_invalid: "over t p \<Longrightarrow> t \<le> now \<Longrightarrow> IsValidParticipant p now \<noteq> Inr ()"
  by (auto simp: over_def IsValidParticipant_def)

lemma over_step:
  assumes "pt_step now e p q" "over t p" "t \<le> now" "pt_op_state p = VALIDATED"
  shows "over now q \<and> pt_op_state q = VALIDATED"
  using assms(1)
proof cases
  case (repaid a)
  then show ?thesis using assms(2-4) by (auto simp: over_def repaid_participant_def Let_def)
qed (use assms(2-4) over_invalid [OF assms(2,3)] in \<open>auto simp: over_def\<close>)

lemma over_grows:
  assumes "grows now p q" "over t p" "t \<le> now" "pt_op_state p = VALIDATED"
  shows "over now q \<and> pt_op_state q = VALIDATED"
  using assms(1) unfolding grows_def
proof
  assume "same_but_deposit p q"
  then show ?thesis using assms(2-4)
    by (drule_tac same_but_deposit_eq, erule_tac ssubst) (auto simp: over_def)
qed (use over_step assms(2-4) in blast)

text \<open>A start for the context of a participant in its process is refused.\<close>

lemma start_refused:
  assumes inv: "pp_inv uuid_ok t r s P" and link: "pp_linked X r s" and w: "pw_pp w = P"
    and p: "kget (pps_participants P) i = Some p" "in_process p"
    and m: "sp_validator m = pt_validator p" "sp_role m = pt_role p" "kget (cos_by_policy (rg_co r)) (sp_corporation m) = Some (pt_corp p)"
  shows "StartParticipantOP X w m \<noteq> Inr x"
proof
  assume "StartParticipantOP X w m = Inr x"
  then obtain v corp where v: "validateParticipantChecks X w m = Inr v" "corpIDFromAccount X (sp_corporation m) = Inr corp"
    "checkOverlap (pw_pp w) (pt_schema_id v) (sp_role m) (sp_validator m) corp = Inr ()"
    by (auto simp: StartParticipantOP_def bindE_unit_ok_iff bindE_ok_iff)
  have corp: "corp = pt_corp p" using v(2) m(3) link by (auto simp: corpIDFromAccount_def pp_linked_def result_simps)
  have get: "kget (pps_participants P) (pt_validator p) = Some v" using v(1) w m(1)
    by (auto simp: validateParticipantChecks_def pp_lookups bindE_unit_ok_iff result_simps)
  have v0: "pt_validator p \<noteq> 0" using pp_inv_participant [OF inv get] by auto
  have "pt_schema_id v = pt_schema_id p" using pp_inv_participant [OF inv p(1)] get v0
    by (auto simp: placed_def split: if_splits)
  moreover have "p \<in> set (walk (pps_participants P))" using p(1) by (auto simp: walk_mem_iff)
  ultimately show False using v(3) w p(2) m(1,2) corp
    by (auto simp: checkOverlap_def same_context_def in_process_def list_ex_iff split: if_splits)
qed

text \<open>C26 ended_member_locked_out: a validated member that was slashed, revoked in an earlier
  block, or whose period has ended stays in its process for ever: in every later state it can
  neither renew nor change its end, and a new onboarding of its corporation in the same role
  under the same validator is refused.\<close>

theorem ended_member_locked_out:
  assumes "pp_reach CN B uuid_ok t r grp s P" "pp_later CN B uuid_ok (t, r, grp, s, P) (u, r', grp', s', P')"
    and "kget (pps_participants P) i = Some p" "pt_op_state p = VALIDATED" "over t p"
    and "pp_linked X r' s'" "u \<le> pp_now X" "pw_pp w = P'"
  shows "(\<exists>q. kget (pps_participants P') i = Some q \<and> nature q = nature p \<and> pt_op_state q = VALIDATED \<and> over u q) \<and>
    (\<forall>m x. op_id m = i \<longrightarrow> RenewParticipantOP X w m \<noteq> Inr x) \<and>
    (\<forall>m x. su_id m = i \<longrightarrow> SetParticipantEffectiveUntil X w m \<noteq> Inr x) \<and>
    (\<forall>m x. sp_validator m = pt_validator p \<longrightarrow> sp_role m = pt_role p \<longrightarrow>
       kget (cos_by_policy (rg_co r')) (sp_corporation m) = Some (pt_corp p) \<longrightarrow> StartParticipantOP X w m \<noteq> Inr x)"
proof -
  have "\<exists>q. kget (pps_participants P') i = Some q \<and> nature q = nature p \<and> (pt_op_state q = VALIDATED \<and> over u q)"
  proof (rule participant_stays [OF assms(2,1,3), where Q = "\<lambda>t p. pt_op_state p = VALIDATED \<and> over t p"])
    show "pt_op_state y = VALIDATED \<and> over v y" if "a \<le> v" "pt_op_state x = VALIDATED \<and> over a x" "grows v x y" for a v x y
      using over_grows [OF that(3) _ that(1)] that(2) by simp
  qed (simp add: assms(4,5))
  then obtain q where q: "kget (pps_participants P') i = Some q" "nature q = nature p" "pt_op_state q = VALIDATED" "over u q"
    by blast
  note inv = pp_reach_inv [OF pp_later_reach [OF assms(2,1)]]
  have no: "IsValidParticipant q (pp_now X) \<noteq> Inr ()" by (rule over_invalid [OF q(4) assms(7)])
  have "RenewParticipantOP X w m \<noteq> Inr x" if "op_id m = i" for m x
    using no q(1) assms(8) that
    by (auto simp: RenewParticipantOP_def own_participant_iff bindE_unit_ok_iff bindE_ok_iff)
  moreover have "SetParticipantEffectiveUntil X w m \<noteq> Inr x" if "su_id m = i" for m x
    using no q(1) assms(8) that
    by (auto simp: SetParticipantEffectiveUntil_def validateAdjustParticipantBasicChecks_def GetParticipantByID_def
        bindE_unit_ok_iff bindE_ok_iff)
  moreover have "StartParticipantOP X w m \<noteq> Inr x" if "sp_validator m = pt_validator p" "sp_role m = pt_role p"
      "kget (cos_by_policy (rg_co r')) (sp_corporation m) = Some (pt_corp p)" for m x
    using that q(2,3) by (intro start_refused [OF inv assms(6,8) q(1)]) (auto simp: nature_def in_process_def)
  ultimately show ?thesis using q by blast
qed

theorem ended_member_locked_out_witness:
  "\<forall>x. StartParticipantOP (sample_pe 95) (sample_pw sample_P4) (sample_start ''pp'' ISSUER_GRANTOR 1 ''did:x:g'') \<noteq> Inr x"
proof -
  have "over 90 sample_p2s" "kget (cos_by_policy (rg_co sample_rg)) ''pp'' = Some 2"
    by (simp_all add: over_def sample_rg_def)
  then show ?thesis
    using ended_member_locked_out [OF sample_slash_step sample_later_refl, of 2 sample_p2s "sample_pe 95" "sample_pw sample_P4"]
    by (simp add: sample_P4_get sample_start_def)
qed

end
