(* ===== verification/Participant_Authority.thy ===== *)
theory Participant_Authority
imports Participant_Walks
begin

text \<open>
  Who may change the record of a participant: for every accepted message that changes an
  existing participant, the right of its signer in terms of the owner of the participant,
  its validators and the owner of the ecosystem.
\<close>

section \<open>Rights\<close>

text \<open>The account, its operator and the type of a message that names a participant.\<close>

definition signed_by :: "pp_op \<Rightarrow> (string \<times> string \<times> string) option" where
  "signed_by op = (case op of
     Pp_Renew m \<Rightarrow> Some (op_corporation m, op_operator m, ''/verana.pp.v1.MsgRenewParticipantOP'')
   | Pp_Validate m \<Rightarrow> Some (vd_corporation m, vd_operator m, ''/verana.pp.v1.MsgSetParticipantOPToValidated'')
   | Pp_Cancel m \<Rightarrow> Some (op_corporation m, op_operator m, ''/verana.pp.v1.MsgCancelParticipantOPLastRequest'')
   | Pp_Set_Until m \<Rightarrow> Some (su_corporation m, su_operator m, ''/verana.pp.v1.MsgSetParticipantEffectiveUntil'')
   | Pp_Revoke m \<Rightarrow> Some (op_corporation m, op_operator m, ''/verana.pp.v1.MsgRevokeParticipant'')
   | Pp_Slash m \<Rightarrow> Some (sh_corporation m, sh_operator m, ''/verana.pp.v1.MsgSlashParticipantTrustDeposit'')
   | Pp_Repay m \<Rightarrow> Some (rr_corporation m, rr_operator m, ''/verana.pp.v1.MsgRepayParticipantSlashedTrustDeposit'')
   | _ \<Rightarrow> None)"

definition names_participant :: "pp_op \<Rightarrow> nat option" where
  "names_participant op = (case op of
     Pp_Renew m \<Rightarrow> Some (op_id m) | Pp_Validate m \<Rightarrow> Some (vd_id m) | Pp_Cancel m \<Rightarrow> Some (op_id m)
   | Pp_Set_Until m \<Rightarrow> Some (su_id m) | Pp_Revoke m \<Rightarrow> Some (op_id m) | Pp_Slash m \<Rightarrow> Some (sh_id m)
   | Pp_Repay m \<Rightarrow> Some (rr_id m) | _ \<Rightarrow> None)"

text \<open>The roles a corporation \<open>k\<close> may have towards a participant.\<close>

definition validates :: "time \<Rightarrow> pp_state \<Rightarrow> nat \<Rightarrow> participant \<Rightarrow> bool" where
  "validates now P k p \<longleftrightarrow> (\<exists>v. kget (pps_participants P) (pt_validator p) = Some v \<and>
     IsValidParticipant v now = Inr () \<and> pt_corp v = k)"

definition validates_above :: "time \<Rightarrow> pp_state \<Rightarrow> nat \<Rightarrow> participant \<Rightarrow> bool" where
  "validates_above now P k p \<longleftrightarrow> (\<exists>v \<in> set (tl (validators P (pt_id p))). IsValidParticipant v now = Inr () \<and> pt_corp v = k)"

definition owns_ecosystem :: "registry \<Rightarrow> cs_state \<Rightarrow> nat \<Rightarrow> participant \<Rightarrow> bool" where
  "owns_ecosystem r s k p \<longleftrightarrow> (\<exists>c e. kget (css_schemas s) (pt_schema_id p) = Some c \<and>
     kget (ecs_ecosystems (rg_ec r)) (csm_ecosystem_id c) = Some e \<and> ec_corporation_id e = k)"

definition directly_under_root :: "pp_state \<Rightarrow> participant \<Rightarrow> bool" where
  "directly_under_root P p \<longleftrightarrow> pt_validator p = 0 \<or>
     (\<exists>v. kget (pps_participants P) (pt_validator p) = Some v \<and> pt_role v = ECOSYSTEM)"

definition may_change :: "time \<Rightarrow> registry \<Rightarrow> cs_state \<Rightarrow> pp_state \<Rightarrow> pp_op \<Rightarrow> nat \<Rightarrow> participant \<Rightarrow> bool" where
  "may_change now r s P op k p = (case op of
     Pp_Renew m \<Rightarrow> k = pt_corp p
   | Pp_Cancel m \<Rightarrow> k = pt_corp p
   | Pp_Repay m \<Rightarrow> k = pt_corp p
   | Pp_Validate m \<Rightarrow> validates now P k p
   | Pp_Set_Until m \<Rightarrow> if directly_under_root P p then k = pt_corp p else validates now P k p
   | Pp_Revoke m \<Rightarrow> k = pt_corp p \<or> validates_above now P k p \<or> owns_ecosystem r s k p
   | Pp_Slash m \<Rightarrow> validates_above now P k p \<or> owns_ecosystem r s k p
   | _ \<Rightarrow> False)"

section \<open>Reading the handlers\<close>

lemma account_of:
  assumes co: "co_inv (rg_co r)" and link: "pp_linked X r s" and acct: "corpAccountFromID X k = Inr a"
  shows "kget (cos_by_policy (rg_co r)) a = Some k"
proof -
  from acct link obtain c where c: "kget (cos_corporations (rg_co r)) k = Some c" "co_policy_address c = a"
    by (auto simp: corpAccountFromID_def pp_linked_def result_simps)
  then show ?thesis using co_inv_policy [OF co] co_inv_id [OF co c(1)] unfolding co_pol.index_ok_def by blast
qed

lemma ancestor_validates:
  assumes inv: "pp_inv uuid_ok t r s P" and link: "pp_linked X r s" and p: "kget (pps_participants P) i = Some p"
    and run: "checkValidatorAncestorOption X P a p = Inr True"
  shows "\<exists>k. kget (cos_by_policy (rg_co r)) a = Some k \<and> validates_above (pp_now X) P k p"
proof -
  from run obtain k where k: "pt_validator p \<noteq> 0" "corpIDFromAccount X a = Inr k"
    "ancestor_search (chain_fuel P) P (pp_now X) k (pt_validator p) = Inr True"
    by (auto simp: checkValidatorAncestorOption_def split: if_splits sum.splits)
  have up: "pt_validator p = 0 \<or> kget (pps_participants P) (pt_validator p) \<noteq> None"
    using pp_inv_participant [OF inv p] by (auto simp: placed_def split: if_splits)
  have "pt_id p = i" using pp_inv_participant [OF inv p] by blast
  then have "validates_above (pp_now X) P k p"
    using k(3) validators_fuel [OF inv up, of "chain_fuel P"] validators_step [OF inv p]
    by (simp add: ancestor_search_lineage validates_above_def)
  then show ?thesis using k(2) link by (auto simp: corpIDFromAccount_def pp_linked_def result_simps)
qed

lemma controller_owns:
  assumes "pp_linked X r s" "checkEcosystemControllerOption X a p"
  shows "\<exists>k. kget (cos_by_policy (rg_co r)) a = Some k \<and> owns_ecosystem r s k p"
  using assms by (auto simp: checkEcosystemControllerOption_def owns_ecosystem_def pp_linked_def pp_lookups split: option.splits)

lemma own_signer:
  assumes co: "co_inv (rg_co r)" and link: "pp_linked X r s" and w: "pw_pp w = P" and p: "kget (pps_participants P) i = Some p"
    and own: "own_participant X w i a = Inr q"
  shows "kget (cos_by_policy (rg_co r)) a = Some (pt_corp p)"
proof -
  have "corpAccountFromID X (pt_corp p) = Inr a" using own w p
    by (auto simp: own_participant_def GetParticipantByID_def bindE_ok_iff optE_ok_iff if_Inl_ok_iff)
  then show ?thesis by (rule account_of [OF co link])
qed

section \<open>The right behind every message\<close>

text \<open>The signer is authorized and has the right the message needs towards participant \<open>p\<close>.\<close>

definition has_right :: "'b pp_env \<Rightarrow> 'b pp_world \<Rightarrow> registry \<Rightarrow> cs_state \<Rightarrow> pp_op \<Rightarrow> participant \<Rightarrow> bool" where
  "has_right X w r s op p \<longleftrightarrow> (\<exists>a oper mt k. signed_by op = Some (a, oper, mt) \<and> pp_authorize X w a oper mt = Inr () \<and>
     kget (cos_by_policy (rg_co r)) a = Some k \<and> may_change (pp_now X) r s (pw_pp w) op k p)"

lemma has_rightI: "signed_by op = Some (a, oper, mt) \<Longrightarrow> pp_authorize X w a oper mt = Inr () \<Longrightarrow>
    kget (cos_by_policy (rg_co r)) a = Some k \<Longrightarrow> may_change (pp_now X) r s (pw_pp w) op k p \<Longrightarrow> has_right X w r s op p"
  unfolding has_right_def by blast

lemma renew_right:
  assumes "co_inv (rg_co r)" "pp_linked X r s" "kget (pps_participants (pw_pp w)) (op_id m) = Some p"
    "RenewParticipantOP X w m = Inr w'"
  shows "has_right X w r s (Pp_Renew m) p"
proof -
  from assms(4) obtain q where q: "pp_authorize X w (op_corporation m) (op_operator m) ''/verana.pp.v1.MsgRenewParticipantOP'' = Inr ()"
      "own_participant X w (op_id m) (op_corporation m) = Inr q"
    by (auto simp: RenewParticipantOP_def bindE_unit_ok_iff bindE_ok_iff)
  from own_signer [OF assms(1,2) refl assms(3) q(2)] show ?thesis
    by (intro has_rightI [OF _ q(1)]) (simp_all add: signed_by_def may_change_def)
qed

lemma cancel_right:
  assumes "co_inv (rg_co r)" "pp_linked X r s" "kget (pps_participants (pw_pp w)) (op_id m) = Some p"
    "CancelParticipantOPLastRequest X w m = Inr w'"
  shows "has_right X w r s (Pp_Cancel m) p"
proof -
  from assms(4) obtain q where q: "pp_authorize X w (op_corporation m) (op_operator m)
        ''/verana.pp.v1.MsgCancelParticipantOPLastRequest'' = Inr ()"
      "own_participant X w (op_id m) (op_corporation m) = Inr q"
    by (auto simp: CancelParticipantOPLastRequest_def bindE_unit_ok_iff bindE_ok_iff)
  from own_signer [OF assms(1,2) refl assms(3) q(2)] show ?thesis
    by (intro has_rightI [OF _ q(1)]) (simp_all add: signed_by_def may_change_def)
qed

lemma repay_right:
  assumes "co_inv (rg_co r)" "pp_linked X r s" "kget (pps_participants (pw_pp w)) (rr_id m) = Some p"
    "RepayParticipantSlashedTrustDeposit X w m = Inr w'"
  shows "has_right X w r s (Pp_Repay m) p"
proof -
  from assms(4) obtain q where q: "pp_authorize X w (rr_corporation m) (rr_operator m)
        ''/verana.pp.v1.MsgRepayParticipantSlashedTrustDeposit'' = Inr ()"
      "own_participant X w (rr_id m) (rr_corporation m) = Inr q"
    by (auto simp: RepayParticipantSlashedTrustDeposit_def bindE_unit_ok_iff bindE_ok_iff)
  from own_signer [OF assms(1,2) refl assms(3) q(2)] show ?thesis
    by (intro has_rightI [OF _ q(1)]) (simp_all add: signed_by_def may_change_def)
qed

lemma validate_right:
  assumes "co_inv (rg_co r)" "pp_linked X r s" "kget (pps_participants (pw_pp w)) (vd_id m) = Some p"
    "SetParticipantOPToValidated X w m = Inr w'"
  shows "has_right X w r s (Pp_Validate m) p"
proof -
  from assms(3,4) obtain v where v: "pp_authorize X w (vd_corporation m) (vd_operator m)
        ''/verana.pp.v1.MsgSetParticipantOPToValidated'' = Inr ()"
      "kget (pps_participants (pw_pp w)) (pt_validator p) = Some v" "IsValidParticipant v (pp_now X) = Inr ()"
      "corpAccountFromID X (pt_corp v) = Inr (vd_corporation m)"
    by (auto simp: SetParticipantOPToValidated_def GetParticipantByID_def bindE_unit_ok_iff bindE_ok_iff optE_ok_iff
        if_Inl_ok_iff Let_def)
  from account_of [OF assms(1,2) v(4)] show ?thesis
    by (intro has_rightI [OF _ v(1)]) (auto simp: signed_by_def may_change_def validates_def v(2,3))
qed

lemma set_until_right:
  assumes "co_inv (rg_co r)" "pp_linked X r s" "kget (pps_participants (pw_pp w)) (su_id m) = Some p"
    "SetParticipantEffectiveUntil X w m = Inr w'"
  shows "has_right X w r s (Pp_Set_Until m) p"
proof -
  from assms(3,4) have auth: "pp_authorize X w (su_corporation m) (su_operator m)
        ''/verana.pp.v1.MsgSetParticipantEffectiveUntil'' = Inr ()"
    and adv: "validateAdjustParticipantAdvancedChecks X w m p = Inr ()"
    by (auto simp: SetParticipantEffectiveUntil_def validateAdjustParticipantBasicChecks_def GetParticipantByID_def
        bindE_unit_ok_iff result_simps split: option.splits)
  from adv obtain k where k: "corpIDFromAccount X (su_corporation m) = Inr k"
    by (auto simp: validateAdjustParticipantAdvancedChecks_def bindE_ok_iff)
  then have "kget (cos_by_policy (rg_co r)) (su_corporation m) = Some k"
    using assms(2) by (auto simp: corpIDFromAccount_def pp_linked_def result_simps)
  moreover have "may_change (pp_now X) r s (pw_pp w) (Pp_Set_Until m) k p"
    using adv k
    by (auto simp: validateAdjustParticipantAdvancedChecks_def may_change_def directly_under_root_def validates_def
        GetParticipantByID_def bindE_unit_ok_iff result_simps split: if_splits)
  ultimately show ?thesis by (intro has_rightI [OF _ auth]) (simp_all add: signed_by_def)
qed

lemma revoke_right:
  assumes "co_inv (rg_co r)" "pp_linked X r s" "kget (pps_participants (pw_pp w)) (op_id m) = Some p"
    "RevokeParticipant X w m = Inr w'" "pp_inv uuid_ok t r s (pw_pp w)"
  shows "has_right X w r s (Pp_Revoke m) p"
proof -
  from assms(3,4) have auth: "pp_authorize X w (op_corporation m) (op_operator m) ''/verana.pp.v1.MsgRevokeParticipant'' = Inr ()"
    and adv: "validateRevokeParticipantAdvancedChecks X w m p = Inr ()"
    by (auto simp: RevokeParticipant_def validateRevokeParticipantBasicChecks_def GetParticipantByID_def
        bindE_unit_ok_iff result_simps)
  from adv consider "checkValidatorAncestorOption X (pw_pp w) (op_corporation m) p = Inr True"
    | "checkEcosystemControllerOption X (op_corporation m) p" | "corpIDFromAccount X (op_corporation m) = Inr (pt_corp p)"
    by (auto simp: validateRevokeParticipantAdvancedChecks_def bindE_ok_iff split: if_splits)
  then have "\<exists>k. kget (cos_by_policy (rg_co r)) (op_corporation m) = Some k \<and>
      may_change (pp_now X) r s (pw_pp w) (Pp_Revoke m) k p"
  proof cases
    case 1
    from ancestor_validates [OF assms(5,2,3) this] show ?thesis by (auto simp: may_change_def)
  next
    case 2
    from controller_owns [OF assms(2) this] show ?thesis by (auto simp: may_change_def)
  next
    case 3
    then show ?thesis using assms(2) by (auto simp: may_change_def corpIDFromAccount_def pp_linked_def result_simps)
  qed
  then show ?thesis using has_rightI [OF _ auth, where op = "Pp_Revoke m"] by (auto simp: signed_by_def)
qed

lemma slash_right:
  assumes "co_inv (rg_co r)" "pp_linked X r s" "kget (pps_participants (pw_pp w)) (sh_id m) = Some p"
    "SlashParticipantTrustDeposit X w m = Inr w'" "pp_inv uuid_ok t r s (pw_pp w)"
  shows "has_right X w r s (Pp_Slash m) p"
proof -
  from assms(3,4) have auth: "pp_authorize X w (sh_corporation m) (sh_operator m)
      ''/verana.pp.v1.MsgSlashParticipantTrustDeposit'' = Inr ()"
    and adv: "validateSlashParticipantValidatorParticipants X w m p = Inr ()"
    by (auto simp: SlashParticipantTrustDeposit_def validateSlashParticipantBasicChecks_def GetParticipantByID_def
        bindE_unit_ok_iff result_simps)
  from adv consider "checkValidatorAncestorOption X (pw_pp w) (sh_corporation m) p = Inr True"
    | "checkEcosystemControllerOption X (sh_corporation m) p"
    by (auto simp: validateSlashParticipantValidatorParticipants_def bindE_ok_iff split: if_splits)
  then have "\<exists>k. kget (cos_by_policy (rg_co r)) (sh_corporation m) = Some k \<and>
      may_change (pp_now X) r s (pw_pp w) (Pp_Slash m) k p"
  proof cases
    case 1
    from ancestor_validates [OF assms(5,2,3) this] show ?thesis by (auto simp: may_change_def)
  next
    case 2
    from controller_owns [OF assms(2) this] show ?thesis by (auto simp: may_change_def)
  qed
  then show ?thesis using has_rightI [OF _ auth, where op = "Pp_Slash m"] by (auto simp: signed_by_def)
qed

section \<open>Who changed it\<close>

lemma takes_step_only:
  assumes "takes_step now P j e Q" "own_ids P" "kget (pps_participants P) i = Some p" "kget (pps_participants Q) i = Some q"
    "q \<noteq> p"
  shows "j = i"
proof -
  from takes_step_get [OF assms(1,2)] obtain b where "pt_id b = j" "Q = UpdateParticipant P b" by metis
  then show ?thesis using assms(3-5) by (auto simp: kget_kset split: if_splits)
qed

text \<open>C3 participant_changed_by: on every reachable state, when an accepted message changes an
  existing participant, either it is a session, and only the deposit of the participant
  changes, or it names the participant and its signer is an operator authorized by a
  corporation with the right to do so: the participant's own corporation for renewals,
  cancellations and repayments; the corporation of its valid validator for a validation; for
  a new end its own corporation when it stands directly under a root, and else that of its
  valid validator; its own corporation, a valid validator above it or the owner of the
  ecosystem for a revocation; and one of the latter two for a slash.\<close>

theorem participant_changed_by:
  assumes "pp_reach CN B uuid_ok t r grp s (pw_pp w)" "pp_linked X r s" "pp_exec uuid_ok gov X w op = Inr w'"
    and "kget (pps_participants (pw_pp w)) i = Some p" "kget (pps_participants (pw_pp w')) i = Some q" "q \<noteq> p"
  shows "(\<exists>m. op = Pp_Session m) \<and> q = p\<lparr>pt_deposit := pt_deposit q\<rparr> \<or>
    names_participant op = Some i \<and> has_right X w r s op p"
proof -
  note inv = pp_reach_inv [OF assms(1)]
  note own = pp_inv_own [OF inv]
  note co = pp_reach_co [OF assms(1)]
  note exec = assms(3) [unfolded pp_exec_def]
  note p = assms(4-6)
  have old: "i \<noteq> Suc (pp_last_id (pw_pp w))" using pp_inv_participant [OF inv p(1)] by auto
  have fresh: False if "pw_pp w' = add_participant (pw_pp w) x" for x
    using that old p by (simp add: add_participant_get del: add_participant_sel(4))
  show ?thesis
  proof (cases op)
    case (Pp_Start m)
    then show ?thesis using exec fresh start_effect [of X w m _ w'] by (auto simp: bindE_unit_ok_iff bindE_ok_iff)
  next
    case (Pp_Root m)
    then show ?thesis using exec fresh root_effect [of X w m _ w'] by (auto simp: bindE_unit_ok_iff bindE_ok_iff)
  next
    case (Pp_Self m)
    then show ?thesis using exec fresh self_effect [of X w m _ w'] by (auto simp: bindE_unit_ok_iff bindE_ok_iff)
  next
    case (Pp_Renew m)
    then have run: "RenewParticipantOP X w m = Inr w'" using exec by (auto simp: bindE_unit_ok_iff)
    have i: "op_id m = i" by (rule takes_step_only [OF renew_effect [OF run] own p])
    show ?thesis using renew_right [OF co assms(2) _ run, of p] p(1) i
      by (auto simp: Pp_Renew names_participant_def)
  next
    case (Pp_Validate m)
    then have run: "SetParticipantOPToValidated X w m = Inr w'" using exec by (auto simp: bindE_unit_ok_iff)
    have i: "vd_id m = i" by (rule takes_step_only [OF validate_effect [OF run] own p])
    show ?thesis using validate_right [OF co assms(2) _ run, of p] p(1) i
      by (auto simp: Pp_Validate names_participant_def)
  next
    case (Pp_Cancel m)
    then have run: "CancelParticipantOPLastRequest X w m = Inr w'" using exec by (auto simp: bindE_unit_ok_iff)
    have i: "op_id m = i" by (rule takes_step_only [OF cancel_effect [OF run] own p])
    show ?thesis using cancel_right [OF co assms(2) _ run, of p] p(1) i
      by (auto simp: Pp_Cancel names_participant_def)
  next
    case (Pp_Set_Until m)
    then have run: "SetParticipantEffectiveUntil X w m = Inr w'" using exec by (auto simp: bindE_unit_ok_iff)
    have i: "su_id m = i" by (rule takes_step_only [OF set_until_effect [OF run] own p])
    show ?thesis using set_until_right [OF co assms(2) _ run, of p] p(1) i
      by (auto simp: Pp_Set_Until names_participant_def)
  next
    case (Pp_Revoke m)
    then have run: "RevokeParticipant X w m = Inr w'" using exec by (auto simp: bindE_unit_ok_iff)
    have i: "op_id m = i" by (rule takes_step_only [OF revoke_effect [OF run] own p])
    show ?thesis using revoke_right [OF co assms(2) _ run inv] p(1) i
      by (auto simp: Pp_Revoke names_participant_def)
  next
    case (Pp_Slash m)
    then have run: "SlashParticipantTrustDeposit X w m = Inr w'" using exec by (auto simp: bindE_unit_ok_iff)
    have i: "sh_id m = i" by (rule takes_step_only [OF slash_effect [OF run] own p])
    show ?thesis using slash_right [OF co assms(2) _ run inv] p(1) i
      by (auto simp: Pp_Slash names_participant_def)
  next
    case (Pp_Repay m)
    then have run: "RepayParticipantSlashedTrustDeposit X w m = Inr w'" using exec by (auto simp: bindE_unit_ok_iff)
    have i: "rr_id m = i" by (rule takes_step_only [OF repay_effect [OF run] own p])
    show ?thesis using repay_right [OF co assms(2) _ run, of p] p(1) i
      by (auto simp: Pp_Repay names_participant_def)
  next
    case (Pp_Session m)
    then have "CreateOrUpdateParticipantSession X w m = Inr w'" using exec by (auto simp: bindE_unit_ok_iff)
    from session_effect [OF this own] obtain S where
      S: "credits (pw_pp w) S" "createOrUpdateSession X S m = Inr (pw_pp w')" by blast
    then have "rel_option same_but_deposit (Some p) (Some q)"
      using credits_timeout [OF S(2)] p(1,2) unfolding credits_def by metis
    then show ?thesis using Pp_Session same_but_deposit_eq by simp
  next
    case (Pp_Update_Params x d)
    then have "pps_participants (pw_pp w') = pps_participants (pw_pp w)"
      using exec by (auto simp: pp_UpdateParams_def bindE_unit_ok_iff result_simps)
    then show ?thesis using p by simp
  qed
qed

theorem participant_changed_by_witness:
  "has_right (sample_pe 90) (sample_pw sample_P3) sample_rg sample_cs (Pp_Slash sample_slash_pp) sample_p2"
proof -
  obtain w where w: "pp_exec sample_uuid ''g'' (sample_pe 90) (sample_pw sample_P3) (Pp_Slash sample_slash_pp) = Inr w"
      "pw_pp w = sample_P4" using sample_slash_exec by blast
  have get: "kget (pps_participants (pw_pp (sample_pw sample_P3))) 2 = Some sample_p2"
    "kget (pps_participants (pw_pp w)) 2 = Some sample_p2s" by (simp_all add: w(2) sample_P3_get sample_P4_get)
  have "pt_slashed sample_p2s \<noteq> pt_slashed sample_p2" by simp
  then have ne: "sample_p2s \<noteq> sample_p2" by metis
  have run: "sample_run 80 (pw_pp (sample_pw sample_P3))" using sample_issuer_valid_step by simp
  from participant_changed_by [OF run sample_pe_sel(9) w(1) get ne] show ?thesis by simp
qed

end
