(* ===== verification/Participant_Escrow.thy ===== *)
theory Participant_Escrow
imports Participant_Walks
begin

text \<open>
  The escrow: the module account holds the fees of the pending onboardings, whatever the
  messages do with deposits, slashes, sessions and delegations.
\<close>

section \<open>The escrow account\<close>

definition escrow_addr :: "'b pp_env \<Rightarrow> string" where
  "escrow_addr X = se_module_addr (pe_sdk X) pp_module"

definition escrow_balance :: "'b pp_env \<Rightarrow> 'b pp_world \<Rightarrow> int" where
  "escrow_balance X w = bk_balance (pe_bank X) (pw_bank w) (escrow_addr X) bond_denom"

definition pending_fees :: "pp_state \<Rightarrow> int" where
  "pending_fees P = ksum pt_op_current_fees (pps_participants P)"

text \<open>The group-policy account of a registered corporation.\<close>

definition policy_account :: "'b pp_env \<Rightarrow> string \<Rightarrow> bool" where
  "policy_account X a \<longleftrightarrow> kget (cos_by_policy (pe_co X)) a \<noteq> None \<or>
     (\<exists>i c. kget (cos_corporations (pe_co X)) i = Some c \<and> co_policy_address c = a)"

lemma policy_accountI:
  "corpIDFromAccount X a = Inr c \<Longrightarrow> policy_account X a"
  "corpAccountFromID X i = Inr a \<Longrightarrow> policy_account X a"
  "own_participant X w j a = Inr p \<Longrightarrow> policy_account X a"
  by (auto simp: policy_account_def corpIDFromAccount_def corpAccountFromID_def own_participant_def result_simps)

text \<open>Transfers move what they name; the policy account of no registered corporation is the
  account of the module, whose own address may well be written as a string; and the
  trust-deposit module has another account.\<close>

definition escrow_apart :: "'b pp_env \<Rightarrow> bool" where
  "escrow_apart X \<longleftrightarrow> bank_laws (pe_bank X) (se_module_addr (pe_sdk X)) \<and>
     (\<forall>a. policy_account X a \<longrightarrow> se_from_bech32 (pe_sdk X) a \<noteq> Some (escrow_addr X)) \<and>
     se_module_addr (pe_sdk X) td_module \<noteq> escrow_addr X"

lemma escrow_apartD:
  assumes "escrow_apart X"
  shows "bank_laws (pe_bank X) (se_module_addr (pe_sdk X))"
    "policy_account X a \<Longrightarrow> se_from_bech32 (pe_sdk X) a = Some addr \<Longrightarrow> addr \<noteq> escrow_addr X"
    "se_module_addr (pe_sdk X) td_module \<noteq> escrow_addr X"
  using assms by (auto simp: escrow_apart_def)

section \<open>Transfers, seen from the escrow\<close>

lemma escrow_in_balance:
  assumes "escrow_apart X" "escrow_in X w a n = Inr w'" "a \<noteq> escrow_addr X"
  shows "escrow_balance X w' = escrow_balance X w + n"
proof -
  from assms(2) obtain cs b where c: "new_coins bond_denom n = Some cs"
      "bk_acc_to_mod (pe_bank X) (pw_bank w) a pp_module cs = Some b" "w' = w\<lparr>pw_bank := b\<rparr>"
    by (auto simp: escrow_in_def result_simps)
  from bank_laws.acc_to_mod_balance [OF escrow_apartD(1) [OF assms(1)] c(2)] show ?thesis
    using assms(3) c(3) new_coins_amount [OF c(1)] by (simp add: escrow_balance_def) (simp add: escrow_addr_def)
qed

lemma escrow_out_balance:
  assumes "escrow_apart X" "escrow_out X w a n = Inr w'" "a \<noteq> escrow_addr X"
  shows "escrow_balance X w' = escrow_balance X w - n"
proof -
  from assms(2) obtain cs b where c: "new_coins bond_denom n = Some cs"
      "bk_mod_to_acc (pe_bank X) (pw_bank w) pp_module a cs = Some b" "w' = w\<lparr>pw_bank := b\<rparr>"
    by (auto simp: escrow_out_def result_simps)
  from bank_laws.mod_to_acc_balance [OF escrow_apartD(1) [OF assms(1)] c(2)] show ?thesis
    using assms(3) c(3) new_coins_amount [OF c(1)] by (simp add: escrow_balance_def) (simp add: escrow_addr_def)
qed

lemma send_escrow:
  assumes "escrow_apart X" "send_coins X w a c n = Inr w'" "a \<noteq> escrow_addr X" "c \<noteq> escrow_addr X"
  shows "escrow_balance X w' = escrow_balance X w"
proof -
  from assms(2) obtain cs b where c: "bk_send (pe_bank X) (pw_bank w) a c cs = Some b" "w' = w\<lparr>pw_bank := b\<rparr>"
    by (auto simp: send_coins_def result_simps)
  from bank_laws.send [OF escrow_apartD(1) [OF assms(1)] c(1)] show ?thesis
    using assms(3,4) c(2) by (simp add: moved_def escrow_balance_def)
qed

lemma pay_in_escrow:
  assumes "escrow_apart X" "pay_in (pe_bank X) b a n = Inr b'" "a \<noteq> escrow_addr X"
  shows "bk_balance (pe_bank X) b' (escrow_addr X) d = bk_balance (pe_bank X) b (escrow_addr X) d"
proof -
  from assms(2) obtain cs where c: "bk_acc_to_mod (pe_bank X) b a td_module cs = Some b'"
    by (auto simp: pay_in_def result_simps)
  from bank_laws.acc_to_mod_balance [OF escrow_apartD(1) [OF assms(1)] c] show ?thesis
    using assms(3) escrow_apartD(3) [OF assms(1)] by simp
qed

lemma burn_td_escrow:
  assumes "escrow_apart X" "burn_td (pe_bank X) b n = Inr b'"
  shows "bk_balance (pe_bank X) b' (escrow_addr X) d = bk_balance (pe_bank X) b (escrow_addr X) d"
proof -
  from assms(2) obtain cs where c: "bk_burn (pe_bank X) b td_module cs = Some b'"
    by (auto simp: burn_td_def result_simps)
  from bank_laws.burn [OF escrow_apartD(1) [OF assms(1)] c] show ?thesis
    using escrow_apartD(3) [OF assms(1)] by simp
qed

section \<open>The calls of other modules\<close>

lemma adjust_deposit_escrow:
  assumes "escrow_apart X" "adjust_deposit X w a n = Inr w'" "policy_account X a"
  shows "escrow_balance X w' = escrow_balance X w"
proof -
  from assms(2) obtain td b where r: "AdjustTrustDeposit (pe_dec X) (pe_bank X) (pe_sdk X) (pw_td w) (pw_bank w) a n = Inr (td, b)"
      "w' = w\<lparr>pw_td := td, pw_bank := b\<rparr>" by (auto simp: adjust_deposit_def result_simps)
  from r(1) have "b = pw_bank w \<or> (\<exists>sender k. se_from_bech32 (pe_sdk X) a = Some sender \<and>
      pay_in (pe_bank X) (pw_bank w) sender k = Inr b)"
    by (auto simp: AdjustTrustDeposit_def Let_def result_simps split: option.splits if_splits)
  then show ?thesis using pay_in_escrow [OF assms(1)] escrow_apartD(2) [OF assms(1,3)]
    by (auto simp: escrow_balance_def r(2))
qed

lemma adjust_on_behalf_escrow:
  assumes "escrow_apart X" "adjust_on_behalf X w a f n = Inr w'" "f \<noteq> escrow_addr X"
  shows "escrow_balance X w' = escrow_balance X w"
proof -
  from assms(2) obtain td b where r: "AdjustTrustDepositOnBehalf (pe_dec X) (pe_bank X) (pw_td w) (pw_bank w) a f n = Inr (td, b)"
      "w' = w\<lparr>pw_td := td, pw_bank := b\<rparr>" by (auto simp: adjust_on_behalf_def result_simps)
  from r(1) have "pay_in (pe_bank X) (pw_bank w) f n = Inr b"
    by (auto simp: AdjustTrustDepositOnBehalf_def Let_def result_simps split: option.splits if_splits)
  then show ?thesis using pay_in_escrow [OF assms(1) _ assms(3)] by (auto simp: escrow_balance_def r(2))
qed

lemma burn_deposit_escrow:
  assumes "escrow_apart X" "burn_deposit X w a n = Inr w'"
  shows "escrow_balance X w' = escrow_balance X w"
proof -
  from assms(2) obtain td b where r: "BurnEcosystemSlashedTrustDeposit (pe_dec X) (pe_bank X) (pw_td w) (pw_bank w) a n = Inr (td, b)"
      "w' = w\<lparr>pw_td := td, pw_bank := b\<rparr>" by (auto simp: burn_deposit_def result_simps)
  from r(1) have "burn_td (pe_bank X) (pw_bank w) (i64 n) = Inr b"
    by (auto simp: BurnEcosystemSlashedTrustDeposit_def executeBurn_def Let_def result_simps split: option.splits if_splits)
  then show ?thesis using burn_td_escrow [OF assms(1)] by (simp add: escrow_balance_def r(2))
qed

lemma escrow_balance_sel [simp]:
  "escrow_balance X (w\<lparr>pw_pp := s\<rparr>) = escrow_balance X w" "escrow_balance X (w\<lparr>pw_de := d\<rparr>) = escrow_balance X w"
  "escrow_balance X (w\<lparr>pw_di := i\<rparr>) = escrow_balance X w" "escrow_balance X (update_in w p) = escrow_balance X w"
  by (simp_all add: escrow_balance_def update_in_def)

lemma delegation_escrow:
  "revokeVSOperatorAuthorization X w p = Inr w' \<Longrightarrow> escrow_balance X w' = escrow_balance X w"
  "set_vs_expiration X w i u = Inr w' \<Longrightarrow> escrow_balance X w' = escrow_balance X w"
  "drop_vs_of_member X w p = Inr w' \<Longrightarrow> escrow_balance X w' = escrow_balance X w"
  "grant_vs_request X w c v i e = Inr w' \<Longrightarrow> escrow_balance X w' = escrow_balance X w"
  by (auto simp: revokeVSOperatorAuthorization_def set_vs_expiration_def drop_vs_of_member_def grant_vs_request_def
      result_simps split: if_splits)

lemma uint64ToInt64_exact: "uint64ToInt64 n = Inr k \<Longrightarrow> 0 \<le> n \<Longrightarrow> k = n"
  by (auto simp: uint64ToInt64_def max_i64_def i64_id split: if_splits)

lemma take_deposit_escrow:
  "escrow_apart X \<Longrightarrow> take_deposit X w a n = Inr w' \<Longrightarrow> policy_account X a \<Longrightarrow>
    escrow_balance X w' = escrow_balance X w"
  by (auto simp: take_deposit_def bindE_ok_iff split: if_splits dest: adjust_deposit_escrow)

lemma take_fees_escrow:
  assumes "escrow_apart X" "take_fees X w a n = Inr w'" "0 \<le> n" "policy_account X a"
  shows "escrow_balance X w' = escrow_balance X w + n"
proof (cases "0 < n")
  case True
  with assms(2) obtain addr k where "se_from_bech32 (pe_sdk X) a = Some addr" "uint64ToInt64 n = Inr k"
      "escrow_in X w addr k = Inr w'" by (auto simp: take_fees_def result_simps)
  then show ?thesis using escrow_in_balance [OF assms(1)] escrow_apartD(2) [OF assms(1,4)] uint64ToInt64_exact assms(3) by blast
qed (use assms in \<open>simp add: take_fees_def\<close>)

lemma pay_escrow_escrow:
  assumes "escrow_apart X" "pay_escrow X w a n = Inr w'" "0 \<le> n" "policy_account X a"
  shows "escrow_balance X w' = escrow_balance X w - n"
proof (cases "0 < n")
  case True
  with assms(2) obtain addr k where "se_from_bech32 (pe_sdk X) a = Some addr" "uint64ToInt64 n = Inr k"
      "escrow_out X w addr k = Inr w'" by (auto simp: pay_escrow_def result_simps)
  then show ?thesis using escrow_out_balance [OF assms(1)] escrow_apartD(2) [OF assms(1,4)] uint64ToInt64_exact assms(3) by blast
qed (use assms in \<open>simp add: pay_escrow_def\<close>)

lemma pay_account_escrow:
  assumes "escrow_apart X" "pay_account X w f a n = Inr w'" "f \<noteq> escrow_addr X" "policy_account X a"
  shows "escrow_balance X w' = escrow_balance X w"
  using assms(2) send_escrow [OF assms(1) _ assms(3)] escrow_apartD(2) [OF assms(1,4)]
  by (auto simp: pay_account_def result_simps split: if_splits)

section \<open>Sessions\<close>

lemma pay_beneficiary_escrow:
  assumes X: "escrow_apart X" and a: "a \<noteq> escrow_addr X" and signer: "policy_account X (mn_corporation m)"
    and pay: "pay_beneficiary X m a tp d p (w, payer, ua, wa) = Inr (w', payer', ua', wa')"
  shows "escrow_balance X w' = escrow_balance X w"
proof (cases "0 < session_fee (mn_verifier m \<noteq> 0) p")
  case False
  then show ?thesis using pay by (simp add: pay_beneficiary_def Let_def)
next
  case True
  then obtain acct n1 n2 toAccount toDeposit w1 where acct: "corpAccountFromID X (pt_corp p) = Inr acct"
    and w1: "pay_account X w a acct toAccount = Inr w1"
    and rest: "(if 0 < toDeposit then
          bindE (uint64ToInt64 toDeposit) (\<lambda>d.
          bindE (adjust_on_behalf X w1 acct a d) (\<lambda>w2.
          bindE (adjust_deposit X (update_in w2 (credit_deposit p toDeposit)) (mn_corporation m) d) (\<lambda>w4.
          Inr (update_in w4 (credit_deposit payer toDeposit), credit_deposit payer toDeposit, n1, n2))))
        else Inr (w1, payer, n1, n2)) = Inr (w', payer', ua', wa')"
    using pay unfolding pay_beneficiary_def Let_def by (auto simp: bindE_ok_iff)
  note c1 = pay_account_escrow [OF X w1 a policy_accountI(2) [OF acct]]
  show ?thesis
  proof (cases "0 < toDeposit")
    case False
    then show ?thesis using rest c1 by simp
  next
    case True
    then obtain d w2 w4 where w: "adjust_on_behalf X w1 acct a d = Inr w2"
        "adjust_deposit X (update_in w2 (credit_deposit p toDeposit)) (mn_corporation m) d = Inr w4"
        "w' = update_in w4 (credit_deposit payer toDeposit)"
      using rest by (auto simp: bindE_ok_iff)
    show ?thesis using c1 adjust_on_behalf_escrow [OF X w(1) a] adjust_deposit_escrow [OF X w(2) signer] w(3) by simp
  qed
qed

lemma pay_reward_escrow:
  assumes X: "escrow_apart X" and a: "a \<noteq> escrow_addr X" and pay: "pay_reward X w a r d i = Inr w'"
  shows "escrow_balance X w' = escrow_balance X w"
proof (cases "0 < d")
  case False
  then show ?thesis using pay by (simp add: pay_reward_def)
next
  case True
  then obtain acct p toAccount toDeposit w1 where acct: "corpAccountFromID X (pt_corp p) = Inr acct"
    and w1: "pay_account X w a acct toAccount = Inr w1"
    and rest: "(if 0 < toDeposit then
          bindE (uint64ToInt64 toDeposit) (\<lambda>d.
          bindE (adjust_on_behalf X w1 acct a d) (\<lambda>w2. Inr (update_in w2 (credit_deposit p toDeposit))))
        else Inr w1) = Inr w'"
    using pay unfolding pay_reward_def Let_def by (auto simp: GetParticipantByID_def bindE_ok_iff optE_ok_iff)
  note c1 = pay_account_escrow [OF X w1 a policy_accountI(2) [OF acct]]
  show ?thesis
  proof (cases "0 < toDeposit")
    case True
    then obtain e w2 where w: "adjust_on_behalf X w1 acct a e = Inr w2" "w' = update_in w2 (credit_deposit p toDeposit)"
      using rest by (auto simp: bindE_ok_iff)
    show ?thesis using c1 adjust_on_behalf_escrow [OF X w(1) a] w(2) by simp
  qed (use rest c1 in simp)
qed

lemma executeSession_escrow:
  assumes X: "escrow_apart X" and run: "executeSession X w m found = Inr w'"
  shows "escrow_balance X w' = escrow_balance X w"
proof -
  let ?v = "mn_verifier m \<noteq> 0"
  from run obtain a payer w1 payer' ua wa w2 w3 s4 where
      addr: "se_from_bech32 (pe_sdk X) (mn_corporation m) = Some a"
    and fold: "foldE (pay_beneficiary X m a (tds_params (pw_td w)) (executor_discount ?v payer)) found
        (w, payer, 0, 0) = Inr (w1, payer', ua, wa)"
    and agents: "pay_user_agent X w1 m a (tp_rate (tds_params (pw_td w))) ua = Inr w2"
        "pay_wallet_agent X w2 m a (tp_rate (tds_params (pw_td w))) wa = Inr w3"
    and w': "escrow_balance X w' = escrow_balance X w3"
    and s4: "createOrUpdateSession X (pw_pp w3) m = Inr s4"
    by (auto simp: executeSession_def GetParticipantByID_def Let_def result_simps split: if_splits)
  have signer: "policy_account X (mn_corporation m)"
    using s4 policy_accountI(1) by (fastforce simp: createOrUpdateSession_def bindE_ok_iff)
  note a = escrow_apartD(2) [OF X signer addr]
  have "(\<lambda>(v, _, _, _). escrow_balance X v = escrow_balance X w) (w1, payer', ua, wa)"
  proof (rule foldE_invariant [OF fold])
    fix p t t' assume "case t of (v, _, _, _) \<Rightarrow> escrow_balance X v = escrow_balance X w"
      "pay_beneficiary X m a (tds_params (pw_td w)) (executor_discount ?v payer) p t = Inr t'"
    then show "case t' of (v, _, _, _) \<Rightarrow> escrow_balance X v = escrow_balance X w"
      using pay_beneficiary_escrow [OF X a signer] by (cases t; cases t') fastforce
  qed simp
  then show ?thesis
    using w' pay_reward_escrow [OF X a] agents by (simp add: pay_user_agent_def pay_wallet_agent_def)
qed

lemma session_escrow:
  assumes X: "escrow_apart X" and run: "CreateOrUpdateParticipantSession X w m = Inr w'"
  shows "escrow_balance X w' = escrow_balance X w"
proof -
  from run obtain w1 found where w1: "validateSessionPreconditions X w m = Inr w1" and exec: "executeSession X w1 m found = Inr w'"
    by (auto simp: CreateOrUpdateParticipantSession_def bindE_ok_iff)
  have "pw_bank w1 = pw_bank w" using preconditions_effect [OF w1] by simp
  then show ?thesis using executeSession_escrow [OF X exec] by (simp add: escrow_balance_def)
qed

section \<open>Pending fees\<close>

lemma walk_by_keys: "walk m = map (\<lambda>k. the (kget m k)) (keys m)"
proof -
  have "snd e = the (kget m (fst e))" if "e \<in> set (entries m)" for e
  proof -
    from that have "(fst e, snd e) \<in> set (entries m)" by simp
    then show ?thesis unfolding entries_mem_iff by simp
  qed
  then show ?thesis by (simp add: walk_def keys_def)
qed

lemma keys_eqI:
  assumes "\<And>k. kget m k = None \<longleftrightarrow> kget m' k = None"
  shows "keys m = keys m'"
proof (rule sorted_distinct_set_unique)
  show "sorted (keys m)" "sorted (keys m')"
    unfolding keys_def using entries_sorted strict_sorted_imp_sorted by blast+
  show "set (keys m) = set (keys m')" using assms by (auto simp: keys_mem_iff khas_def)
qed simp_all

lemma ksum_cong:
  assumes "\<And>k. rel_option (\<lambda>a b. f a = f b) (kget m k) (kget m' k)"
  shows "ksum f m = ksum f m'"
proof -
  have k: "kget m k = None \<longleftrightarrow> kget m' k = None" for k using assms [of k] by (cases rule: option.rel_cases) auto
  have "f (the (kget m k)) = f (the (kget m' k))" if "k \<in> set (keys m)" for k
    using assms [of k] that by (cases rule: option.rel_cases) (auto simp: keys_mem_iff khas_def)
  then show ?thesis unfolding ksum_def walk_by_keys keys_eqI [OF k] using keys_eqI [OF k] by (simp cong: map_cong)
qed

lemma pending_update:
  "kget (pps_participants P) (pt_id q) = Some p \<Longrightarrow>
   pending_fees (UpdateParticipant P q) = pending_fees P + pt_op_current_fees q - pt_op_current_fees p"
  by (simp add: pending_fees_def ksum_kset_upd)

lemma pending_add:
  "kget (pps_participants P) (Suc (pp_last_id P)) = None \<Longrightarrow>
   pending_fees (add_participant P p) = pending_fees P + pt_op_current_fees p"
  by (simp add: pending_fees_def ksum_kset_new)

lemma pending_credits:
  assumes "credits P S"
  shows "pending_fees S = pending_fees P"
proof -
  have fees: "pt_op_current_fees q = pt_op_current_fees p" if "same_but_deposit p q" for p q
    using that by (rule same_but_deposit_field) simp
  have "rel_option (\<lambda>a b. pt_op_current_fees a = pt_op_current_fees b) (kget (pps_participants P) i) (kget (pps_participants S) i)" for i
  proof (rule option.rel_mono_strong)
    show "rel_option same_but_deposit (kget (pps_participants P) i) (kget (pps_participants S) i)"
      using assms by (simp add: credits_def)
  qed (use fees in simp)
  then show ?thesis unfolding pending_fees_def by (rule ksum_cong [symmetric])
qed

section \<open>Every message keeps the escrow balanced\<close>

definition escrow_gap :: "'b pp_env \<Rightarrow> 'b pp_world \<Rightarrow> int" where
  "escrow_gap X w = escrow_balance X w - pending_fees (pw_pp w)"

lemma gap_update:
  assumes "kget (pps_participants (pw_pp w)) (pt_id q) = Some p" "pw_pp w' = UpdateParticipant (pw_pp w) q"
    "escrow_balance X w' = escrow_balance X w + (pt_op_current_fees q - pt_op_current_fees p)"
  shows "escrow_gap X w' = escrow_gap X w"
  using assms by (simp add: escrow_gap_def pending_update)

text \<open>Calls that touch neither the participants nor the escrow.\<close>

lemma quiet_calls:
  "revokeVSOperatorAuthorization X w p = Inr w' \<Longrightarrow> pw_pp w' = pw_pp w \<and> escrow_balance X w' = escrow_balance X w"
  "set_vs_expiration X w i u = Inr w' \<Longrightarrow> pw_pp w' = pw_pp w \<and> escrow_balance X w' = escrow_balance X w"
  "drop_vs_of_member X w p = Inr w' \<Longrightarrow> pw_pp w' = pw_pp w \<and> escrow_balance X w' = escrow_balance X w"
  "escrow_apart X \<Longrightarrow> adjust_deposit X w a n = Inr w' \<Longrightarrow> policy_account X a \<Longrightarrow> pw_pp w' = pw_pp w \<and> escrow_balance X w' = escrow_balance X w"
  "escrow_apart X \<Longrightarrow> burn_deposit X w a n = Inr w' \<Longrightarrow> pw_pp w' = pw_pp w \<and> escrow_balance X w' = escrow_balance X w"
  by (rule conjI, erule delegation_pp, erule delegation_escrow)+
     (rule conjI, erule adjust_deposit_pp, erule (2) adjust_deposit_escrow, rule conjI, erule burn_deposit_pp, erule (1) burn_deposit_escrow)

lemma start_gap:
  assumes X: "escrow_apart X" and inv: "pp_inv uuid_ok t r s (pw_pp w)" and run: "StartParticipantOP X w m = Inr (i, w')"
  shows "escrow_gap X w' = escrow_gap X w"
proof -
  from run obtain v c fees deposit where c: "corpIDFromAccount X (sp_corporation m) = Inr c"
    and fees: "validateAndCalculateFees X w v = Inr (fees, deposit)"
    and exec: "executeStartParticipantVP X w m v fees deposit = Inr (i, w')"
    by (auto simp: StartParticipantOP_def bindE_unit_ok_iff bindE_ok_iff)
  from exec obtain corp w1 w2 where
      e: "take_deposit X w (sp_corporation m) deposit = Inr w1" "take_fees X w1 (sp_corporation m) fees = Inr w2"
        "grant_vs_request X (snd (create_in w2 (new_applicant (pp_now X) m v corp fees deposit))) corp (sp_vs m)
           (fst (create_in w2 (new_applicant (pp_now X) m v corp fees deposit))) (Some (pp_now X)) = Inr w'"
    by (auto simp: executeStartParticipantVP_def bindE_unit_ok_iff bindE_ok_iff create_in_eq)
  have f: "0 \<le> fees" using fees by (auto simp: validateAndCalculateFees_def Let_def result_simps is_u64_def)
  have pp: "pw_pp w2 = pw_pp w" using take_pp(1) [OF e(1)] take_pp(2) [OF e(2)] by simp
  then have "pw_pp w' = add_participant (pw_pp w) (new_applicant (pp_now X) m v corp fees deposit)"
    using grant_vs_pp [OF e(3)] by (simp add: create_in_eq)
  moreover have "escrow_balance X w' = escrow_balance X w + fees"
    using delegation_escrow(4) [OF e(3)] take_fees_escrow [OF X e(2) f] take_deposit_escrow [OF X e(1)]
      policy_accountI(1) [OF c] by (simp add: create_in_eq)
  moreover have "kget (pps_participants (pw_pp w)) (Suc (pp_last_id (pw_pp w))) = None"
    using pp_inv_participant [OF inv, of "Suc (pp_last_id (pw_pp w))"] by fastforce
  ultimately show ?thesis by (simp add: escrow_gap_def pending_add new_applicant_def)
qed

lemma new_gap:
  assumes inv: "pp_inv uuid_ok t r s (pw_pp w)" and p: "pw_pp w' = add_participant (pw_pp w) p" "pt_op_current_fees p = 0"
    and b: "escrow_balance X w' = escrow_balance X w"
  shows "escrow_gap X w' = escrow_gap X w"
proof -
  have "kget (pps_participants (pw_pp w)) (Suc (pp_last_id (pw_pp w))) = None"
    using pp_inv_participant [OF inv, of "Suc (pp_last_id (pw_pp w))"] by fastforce
  then show ?thesis using p b by (simp add: escrow_gap_def pending_add)
qed

lemma root_gap:
  assumes inv: "pp_inv uuid_ok t r s (pw_pp w)" and run: "CreateRootParticipant X w m = Inr (i, w')"
  shows "escrow_gap X w' = escrow_gap X w"
proof -
  from run obtain corp where "grant_vs_request X (w\<lparr>pw_pp := add_participant (pw_pp w) (new_root (pp_now X) m corp)\<rparr>) corp (rt_vs m) i
         (rt_until m) = Inr w'"
    by (auto simp: CreateRootParticipant_def executeCreateRootParticipant_def create_in_eq bindE_unit_ok_iff bindE_ok_iff)
  from grant_vs_pp [OF this] delegation_escrow(4) [OF this] show ?thesis
    by (intro new_gap [OF inv, where p = "new_root (pp_now X) m corp"]) (simp_all add: new_root_def blank_participant_def)
qed

lemma self_gap:
  assumes inv: "pp_inv uuid_ok t r s (pw_pp w)" and run: "SelfCreateParticipant X w m = Inr (i, w')"
  shows "escrow_gap X w' = escrow_gap X w"
proof -
  from run obtain v corp f where "grant_vs_request X (w\<lparr>pw_pp := add_participant (pw_pp w) (new_self (pp_now X) m v corp f)\<rparr>) corp
         (sf_vs m) i (sf_until m) = Inr w'"
    by (auto simp: SelfCreateParticipant_def create_in_eq bindE_unit_ok_iff bindE_ok_iff if_Inl_ok_iff)
  from grant_vs_pp [OF this] delegation_escrow(4) [OF this] show ?thesis
    by (intro new_gap [OF inv, where p = "new_self (pp_now X) m v corp f"]) (simp_all add: new_self_def blank_participant_def)
qed

lemma renew_gap:
  assumes X: "escrow_apart X" and inv: "pp_inv uuid_ok t r s (pw_pp w)" and run: "RenewParticipantOP X w m = Inr w'"
  shows "escrow_gap X w' = escrow_gap X w"
proof -
  from run obtain p v fees deposit where p: "own_participant X w (op_id m) (op_corporation m) = Inr p"
      "pt_op_state p = VALIDATED" "validateAndCalculateFees X w v = Inr (fees, deposit)"
      and e: "executeRenewParticipantVP X w p fees deposit = Inr w'"
    by (auto simp: RenewParticipantOP_def bindE_unit_ok_iff bindE_ok_iff if_Inl_ok_iff)
  let ?q = "p\<lparr>pt_op_state := PENDING, pt_op_last_change := Some (pp_now X),
            pt_deposit := u64 (pt_deposit p + deposit), pt_op_current_fees := fees,
            pt_op_current_deposit := deposit, pt_modified := Some (pp_now X)\<rparr>"
  from e obtain a w1 w2 where w: "take_deposit X w a deposit = Inr w1" "take_fees X w1 a fees = Inr w2"
      "w' = update_in w2 ?q" and acct: "corpAccountFromID X (pt_corp p) = Inr a"
    by (auto simp: executeRenewParticipantVP_def bindE_ok_iff)
  have get: "kget (pps_participants (pw_pp w)) (op_id m) = Some p" using p(1) by (simp add: own_participant_iff)
  note ok = pp_inv_participant [OF inv get]
  have f: "0 \<le> fees" using p(3) by (auto simp: validateAndCalculateFees_def Let_def result_simps is_u64_def)
  have none: "pt_op_current_fees p = 0" using ok p(2) by (auto simp: participant_ok_def is_u64_def)
  show ?thesis
    by (rule gap_update [where p = p and q = ?q]) (use w(3) get ok none take_fees_escrow [OF X w(2) f]
        take_deposit_escrow [OF X w(1)] policy_accountI(2) [OF acct] take_pp(1) [OF w(1)] take_pp(2) [OF w(2)] in simp_all)
qed

lemma validate_gap:
  assumes X: "escrow_apart X" and inv: "pp_inv uuid_ok t r s (pw_pp w)" and run: "SetParticipantOPToValidated X w m = Inr w'"
  shows "escrow_gap X w' = escrow_gap X w"
proof -
  from run obtain p v x u where p: "kget (pps_participants (pw_pp w)) (vd_id m) = Some p"
      and e: "executeSetParticipantVPToValidated X w p v m x u = Inr w'"
    by (auto simp: SetParticipantOPToValidated_def GetParticipantByID_def bindE_unit_ok_iff result_simps Let_def)
  let ?q = "validated_participant (pp_now X) p m x u
      \<lparr>pt_op_validator_deposit := (if 0 < pt_op_current_deposit p
         then u64 (pt_op_validator_deposit p + pt_op_current_deposit p) else pt_op_validator_deposit p),
       pt_op_current_fees := 0, pt_op_current_deposit := 0\<rparr>"
  note ok = pp_inv_participant [OF inv p]
  have f: "0 \<le> pt_op_current_fees p" using ok by (simp add: participant_ok_def is_u64_def)
  from e obtain a w1 w2 where w: "pay_escrow X w a (pt_op_current_fees p) = Inr w1"
      "take_deposit X w1 a (pt_op_current_deposit p) = Inr w2"
      "pw_pp w' = UpdateParticipant (pw_pp w2) ?q" "escrow_balance X w' = escrow_balance X w2"
    and acct: "corpAccountFromID X (pt_corp v) = Inr a"
    by (auto simp: executeSetParticipantVPToValidated_def Let_def result_simps split: option.splits
        dest!: quiet_calls(2))
  show ?thesis
    by (rule gap_update [where p = p and q = ?q]) (use w(3,4) p ok take_deposit_escrow [OF X w(2)]
        pay_escrow_escrow [OF X w(1) f] policy_accountI(2) [OF acct] take_pp(3) [OF w(1)] take_pp(1) [OF w(2)] in simp_all)
qed

lemma cancel_gap:
  assumes X: "escrow_apart X" and inv: "pp_inv uuid_ok t r s (pw_pp w)" and run: "CancelParticipantOPLastRequest X w m = Inr w'"
  shows "escrow_gap X w' = escrow_gap X w"
proof -
  from run obtain p where p: "own_participant X w (op_id m) (op_corporation m) = Inr p"
      and e: "executeCancelParticipantVPLastRequest X w p = Inr w'"
    by (auto simp: CancelParticipantOPLastRequest_def bindE_unit_ok_iff bindE_ok_iff if_Inl_ok_iff)
  have get: "kget (pps_participants (pw_pp w)) (op_id m) = Some p" using p(1) by (simp add: own_participant_iff)
  note ok = pp_inv_participant [OF inv get]
  have f: "0 \<le> pt_op_current_fees p" using ok by (simp add: participant_ok_def is_u64_def)
  let ?q = "p\<lparr>pt_modified := Some (pp_now X), pt_op_last_change := Some (pp_now X),
      pt_op_state := (if pt_op_exp p = None then TERMINATED else VALIDATED),
      pt_op_current_fees := (if 0 < pt_op_current_fees p then 0 else pt_op_current_fees p),
      pt_op_current_deposit := (if 0 < pt_op_current_deposit p then 0 else pt_op_current_deposit p)\<rparr>"
  from e obtain a where a: "corpAccountFromID X (pt_corp p) = Inr a"
    by (auto simp: executeCancelParticipantVPLastRequest_def bindE_ok_iff)
  note acct = policy_accountI(2) [OF a]
  from e obtain w1 w2 where w: "escrow_balance X w1 = escrow_balance X w" "pw_pp w1 = pw_pp w"
      "pay_escrow X w1 a (pt_op_current_fees p) = Inr w2"
      "escrow_balance X w' = escrow_balance X w2" "pw_pp w' = UpdateParticipant (pw_pp w2) ?q"
    by (auto simp: executeCancelParticipantVPLastRequest_def a Let_def result_simps split: if_splits
        dest!: quiet_calls(1) quiet_calls(4) [OF X _ acct])
  show ?thesis
    by (rule gap_update [where p = p and q = ?q]) (use w(1,2,4,5) f get ok
        pay_escrow_escrow [OF X w(3) f acct] take_pp(3) [OF w(3)] in \<open>simp_all split: if_splits\<close>)
qed

lemma same_fees_gap:
  assumes "takes_step now (pw_pp w) i e (pw_pp w')" "pp_inv uuid_ok t r s (pw_pp w)" "escrow_balance X w' = escrow_balance X w"
    and "e = Adjusted \<or> e = Revoked \<or> e = Slashed \<or> e = Repaid"
  shows "escrow_gap X w' = escrow_gap X w"
proof -
  from takes_step_get [OF assms(1) pp_inv_own [OF assms(2)]] obtain p q where
    p: "kget (pps_participants (pw_pp w)) i = Some p" "pt_step now e p q" "pt_id q = i" "pw_pp w' = UpdateParticipant (pw_pp w) q"
    by metis
  have "pt_op_current_fees q = pt_op_current_fees p" using p(2) assms(4) by (cases rule: pt_step.cases) auto
  then show ?thesis using p assms(3) by (intro gap_update [of w q p w' X]) simp_all
qed

lemma quiet_handlers:
  assumes X: "escrow_apart X"
  shows "SetParticipantEffectiveUntil X w um = Inr w' \<Longrightarrow> escrow_balance X w' = escrow_balance X w"
    "SlashParticipantTrustDeposit X w sm = Inr w' \<Longrightarrow> escrow_balance X w' = escrow_balance X w"
  by (auto simp: SetParticipantEffectiveUntil_def executeAdjustParticipant_def
      SlashParticipantTrustDeposit_def executeSlashParticipantTrustDeposit_def
      bindE_unit_ok_iff result_simps Let_def split: option.splits if_splits
      dest!: quiet_calls(2,3) quiet_calls(5) [OF X])

lemma revoke_quiet:
  assumes X: "escrow_apart X" and run: "RevokeParticipant X w m = Inr w'"
  shows "escrow_balance X w' = escrow_balance X w"
proof -
  from run obtain p w1 where e: "executeRevokeParticipant X w p = Inr w1" "drop_vs_of_member X w1 p = Inr w'"
    by (auto simp: RevokeParticipant_def bindE_unit_ok_iff bindE_ok_iff)
  have "escrow_balance X w1 = escrow_balance X w"
    using e(1) adjust_deposit_escrow [OF X _ policy_accountI(2)]
    by (fastforce simp: executeRevokeParticipant_def bindE_ok_iff split: if_splits)
  then show ?thesis using delegation_escrow(3) [OF e(2)] by simp
qed

lemma repay_quiet:
  assumes X: "escrow_apart X" and run: "RepayParticipantSlashedTrustDeposit X w m = Inr w'"
  shows "escrow_balance X w' = escrow_balance X w"
proof -
  from run obtain p a w1 q where p: "own_participant X w (rr_id m) (rr_corporation m) = Inr p"
    and e: "adjust_deposit X w (rr_corporation m) a = Inr w1" "w' = update_in w1 q"
    by (auto simp: RepayParticipantSlashedTrustDeposit_def bindE_unit_ok_iff result_simps)
  show ?thesis using adjust_deposit_escrow [OF X e(1) policy_accountI(3) [OF p]] e(2) by simp
qed

text \<open>C1 escrow_solvent: on every reachable state and for every accepted message, the balance
  of the module account minus the fees of all pending onboardings does not change: what a
  start or a renewal takes in is exactly what is pending, a validation or a cancellation pays
  out exactly the fees of its participant, and deposits, slashes, sessions and delegations
  leave the account alone.  Bank transfers move what they name, and the policy account of no
  registered corporation is the account of the module.\<close>

theorem escrow_solvent:
  assumes "pp_reach CN B uuid_ok t r grp s (pw_pp w)" "escrow_apart X" "pp_exec uuid_ok gov X w op = Inr w'"
  shows "escrow_balance X w' - pending_fees (pw_pp w') = escrow_balance X w - pending_fees (pw_pp w)"
proof -
  note inv = pp_reach_inv [OF assms(1)]
  note X = assms(2)
  note exec = assms(3) [unfolded pp_exec_def]
  have "escrow_gap X w' = escrow_gap X w"
  proof (cases op)
    case (Pp_Start m)
    then show ?thesis using exec start_gap [OF X inv] by (auto simp: bindE_unit_ok_iff bindE_ok_iff)
  next
    case (Pp_Renew m)
    then show ?thesis using exec renew_gap [OF X inv] by (auto simp: bindE_unit_ok_iff)
  next
    case (Pp_Validate m)
    then show ?thesis using exec validate_gap [OF X inv] by (auto simp: bindE_unit_ok_iff)
  next
    case (Pp_Cancel m)
    then show ?thesis using exec cancel_gap [OF X inv] by (auto simp: bindE_unit_ok_iff)
  next
    case (Pp_Root m)
    then show ?thesis using exec root_gap [OF inv] by (auto simp: bindE_unit_ok_iff bindE_ok_iff)
  next
    case (Pp_Self m)
    then show ?thesis using exec self_gap [OF inv] by (auto simp: bindE_unit_ok_iff bindE_ok_iff)
  next
    case (Pp_Set_Until m)
    then have run: "SetParticipantEffectiveUntil X w m = Inr w'" using exec by (auto simp: bindE_unit_ok_iff)
    show ?thesis by (rule same_fees_gap [OF set_until_effect [OF run] inv quiet_handlers(1) [OF X run]]) simp
  next
    case (Pp_Revoke m)
    then have run: "RevokeParticipant X w m = Inr w'" using exec by (auto simp: bindE_unit_ok_iff)
    show ?thesis by (rule same_fees_gap [OF revoke_effect [OF run] inv revoke_quiet [OF X run]]) simp
  next
    case (Pp_Slash m)
    then have run: "SlashParticipantTrustDeposit X w m = Inr w'" using exec by (auto simp: bindE_unit_ok_iff)
    show ?thesis by (rule same_fees_gap [OF slash_effect [OF run] inv quiet_handlers(2) [OF X run]]) simp
  next
    case (Pp_Repay m)
    then have run: "RepayParticipantSlashedTrustDeposit X w m = Inr w'" using exec by (auto simp: bindE_unit_ok_iff)
    show ?thesis by (rule same_fees_gap [OF repay_effect [OF run] inv repay_quiet [OF X run]]) simp
  next
    case (Pp_Session m)
    then have run: "CreateOrUpdateParticipantSession X w m = Inr w'" using exec by (auto simp: bindE_unit_ok_iff)
    from session_effect [OF this pp_inv_own [OF inv]] obtain S where
      S: "credits (pw_pp w) S" "createOrUpdateSession X S m = Inr (pw_pp w')" by blast
    have "pending_fees (pw_pp w') = pending_fees S" using credits_timeout [OF S(2)] by (simp add: pending_fees_def)
    then show ?thesis using pending_credits [OF S(1)] session_escrow [OF X run] by (simp add: escrow_gap_def)
  next
    case (Pp_Update_Params x d)
    then have "w' = w\<lparr>pw_pp := (pw_pp w)\<lparr>pps_timeout_days := d\<rparr>\<rparr>"
      using exec by (auto simp: pp_UpdateParams_def bindE_unit_ok_iff result_simps)
    then show ?thesis by (simp add: escrow_gap_def pending_fees_def)
  qed
  then show ?thesis by (simp add: escrow_gap_def)
qed

theorem escrow_solvent_witness:
  "\<exists>w. pp_exec sample_uuid ''g'' (sample_pe 70) (sample_pw sample_P2) (Pp_Start (sample_start ''p'' ISSUER 2 ''did:x:i'')) = Inr w \<and>
     escrow_balance (sample_pe 70) w - pending_fees (pw_pp w) = 10 ^ 9"
proof -
  obtain w where w: "pp_exec sample_uuid ''g'' (sample_pe 70) (sample_pw sample_P2)
      (Pp_Start (sample_start ''p'' ISSUER 2 ''did:x:i'')) = Inr w" using sample_issuer_exec by blast
  have "se_module_addr (sample_sdk t) = se_module_addr (demo_env 5)" for t by (simp add: fun_eq_iff)
  then have apart: "escrow_apart (sample_pe 70)" using sample_bank_laws
    by (auto simp: escrow_apart_def escrow_addr_def pp_module_def td_module_def split: if_splits)
  have run: "sample_run 60 (pw_pp (sample_pw sample_P2))" using sample_grantor_valid_step by simp
  have "escrow_balance (sample_pe 70) (sample_pw sample_P2) = 10 ^ 9" "pending_fees sample_P2 = 0"
    by (simp_all add: escrow_balance_def sample_purse_def pending_fees_def sample_P2_def ksum_kset kget_kset)
  then show ?thesis using escrow_solvent [OF run apart w] w by simp
qed

end
