(* ===== verification/Participant_Terms.thy ===== *)
theory Participant_Terms
imports Participant_Authority Participant_Escrow
begin

text \<open>
  The terms of a membership: who may move its end and what that does to the authorization of
  its service operator, what a cancellation releases, and the discounts of a session.
\<close>

section \<open>Moving the end\<close>

text \<open>Who may set the end of \<open>p\<close> to \<open>u\<close>: the owner of a root; under a valid root the
  owner of the participant; otherwise the owner of the valid validator, and then not beyond
  the end of the validation.\<close>

definition end_allowed :: "time \<Rightarrow> pp_state \<Rightarrow> nat \<Rightarrow> participant \<Rightarrow> time \<Rightarrow> bool" where
  "end_allowed now P k p u \<longleftrightarrow>
     pt_role p = ECOSYSTEM \<and> k = pt_corp p \<or>
     (\<exists>v. kget (pps_participants P) (pt_validator p) = Some v \<and> IsValidParticipant v now = Inr () \<and>
        (if pt_role v = ECOSYSTEM then k = pt_corp p
         else k = pt_corp v \<and> (\<forall>x. pt_op_exp p = Some x \<longrightarrow> u \<le> x)))"

lemma advanced_iff:
  assumes inv: "pp_inv uuid_ok t r s (pw_pp w)" and link: "pp_linked X r s" and p: "kget (pps_participants (pw_pp w)) i = Some p"
    and u: "su_until m = Some u"
  shows "validateAdjustParticipantAdvancedChecks X w m p = Inr () \<longleftrightarrow>
    (\<exists>k. kget (cos_by_policy (rg_co r)) (su_corporation m) = Some k \<and> end_allowed (pp_now X) (pw_pp w) k p u)"
proof -
  have zero: "kget (pps_participants (pw_pp w)) 0 = None" using pp_inv_participant [OF inv, of 0] by (cases "kget (pps_participants (pw_pp w)) 0") auto
  have place: "pt_role p = ECOSYSTEM \<longleftrightarrow> pt_validator p = 0"
    using pp_inv_participant [OF inv p] by (auto simp: placed_def split: if_splits)
  show ?thesis
  proof (cases "kget (cos_by_policy (rg_co r)) (su_corporation m)")
    case None
    then show ?thesis using link
      by (simp add: validateAdjustParticipantAdvancedChecks_def corpIDFromAccount_def pp_linked_def)
  next
    case (Some k)
    then have corp: "corpIDFromAccount X (su_corporation m) = Inr k"
      using link by (simp add: corpIDFromAccount_def pp_linked_def)
    show ?thesis
    proof (cases "pt_validator p = 0")
      case True
      then show ?thesis using place zero Some
        by (simp add: validateAdjustParticipantAdvancedChecks_def corp end_allowed_def)
    next
      case False
      then have role: "pt_role p \<noteq> ECOSYSTEM" using place by simp
      have "\<exists>v. kget (pps_participants (pw_pp w)) (pt_validator p) = Some v"
        using pp_inv_participant [OF inv p] role by (auto simp: placed_def)
      then obtain v where v: "kget (pps_participants (pw_pp w)) (pt_validator p) = Some v" by blast
      have "validateAdjustParticipantAdvancedChecks X w m p = Inr () \<longleftrightarrow> IsValidParticipant v (pp_now X) = Inr () \<and>
          (if pt_role v = ECOSYSTEM then k = pt_corp p
           else k = pt_corp v \<and> (\<forall>x. pt_op_exp p = Some x \<longrightarrow> u \<le> x))"
        using False role v u
        by (cases "pt_op_exp p") (auto simp: validateAdjustParticipantAdvancedChecks_def corp GetParticipantByID_def
            bindE_unit_ok_iff)
      then show ?thesis using Some role v by (simp add: end_allowed_def)
    qed
  qed
qed

text \<open>C22 set_until_exact: exactly when a new end is accepted, and what it does: the operator
  is authorized by a registered corporation that may set the end, the participant is valid,
  the end lies in the future and leaves the other periods of the context alone.  For a
  participant directly under a valid root that is its own corporation, and no end is too late,
  whatever its validation says.  The participant gets the new end, and the record of its
  service operator gets the end the participant had before, if it had one.\<close>

theorem set_until_exact:
  assumes "pp_reach CN B uuid_ok t r grp s (pw_pp w)" "pp_linked X r s"
  shows "SetParticipantEffectiveUntil X w m = Inr w' \<longleftrightarrow>
    pp_authorize X w (su_corporation m) (su_operator m) ''/verana.pp.v1.MsgSetParticipantEffectiveUntil'' = Inr () \<and>
    (\<exists>p k u. kget (pps_participants (pw_pp w)) (su_id m) = Some p \<and> IsValidParticipant p (pp_now X) = Inr () \<and>
       su_until m = Some u \<and> pp_now X < u \<and> kget (cos_by_policy (rg_co r)) (su_corporation m) = Some k \<and>
       end_allowed (pp_now X) (pw_pp w) k p u \<and> \<not> context_blocked (pw_pp w) p (pt_from p) (Some u) \<and>
       (\<exists>de. (case pt_until p of None \<Rightarrow> de = pw_de w
               | Some e \<Rightarrow> UpdateVSOperatorAuthorizationExpiration (pe_coins X) (pp_now X) (pw_de w) (su_id m) e = Inr de) \<and>
          w' = (update_in w (p\<lparr>pt_until := Some u, pt_adjusted := Some (pp_now X), pt_modified := Some (pp_now X)\<rparr>))
                 \<lparr>pw_de := de\<rparr>))"
proof -
  note inv = pp_reach_inv [OF assms(1)]
  show ?thesis
  proof (cases "kget (pps_participants (pw_pp w)) (su_id m)")
    case None
    then show ?thesis by (auto simp: SetParticipantEffectiveUntil_def validateAdjustParticipantBasicChecks_def
          GetParticipantByID_def bindE_unit_ok_iff result_simps)
  next
    case (Some p)
    have i: "pt_id p = su_id m" using pp_inv_participant [OF inv Some] by blast
    show ?thesis
    proof (cases "su_until m")
      case None
      then show ?thesis by (auto simp: SetParticipantEffectiveUntil_def validateAdjustParticipantBasicChecks_def
            bindE_unit_ok_iff result_simps)
    next
      case u: (Some u)
      have basic: "validateAdjustParticipantBasicChecks X w m = Inr p' \<longleftrightarrow>
          p' = p \<and> IsValidParticipant p (pp_now X) = Inr () \<and> pp_now X < u" for p'
        using Some u by (auto simp: validateAdjustParticipantBasicChecks_def GetParticipantByID_def bindE_unit_ok_iff result_simps)
      have sync: "set_vs_expiration X v j e = Inr w' \<longleftrightarrow>
          (\<exists>de. UpdateVSOperatorAuthorizationExpiration (pe_coins X) (pp_now X) (pw_de v) j e = Inr de \<and> w' = v\<lparr>pw_de := de\<rparr>)" for v j e
        by (auto simp: set_vs_expiration_def result_simps)
      have free: "checkAdjustParticipantOverlap (pw_pp w) p (su_until m) = Inr () \<longleftrightarrow>
          \<not> context_blocked (pw_pp w) p (pt_from p) (Some u)" using u by (simp add: checkAdjustParticipantOverlap_def)
      have keep: "pw_de (executeAdjustParticipant X w p (Some u)) = pw_de w"
        "executeAdjustParticipant X w p (Some u) = (update_in w (p\<lparr>pt_until := Some u, pt_adjusted := Some (pp_now X),
           pt_modified := Some (pp_now X)\<rparr>))\<lparr>pw_de := pw_de w\<rparr>"
        by (simp_all add: executeAdjustParticipant_def update_in_def)
      show ?thesis
        unfolding SetParticipantEffectiveUntil_def bindE_unit_ok_iff bindE_ok_iff basic Let_def
        using Some u i advanced_iff [OF inv assms(2) Some u] free keep
        by (auto simp: bindE_unit_ok_iff sync split: option.splits)
    qed
  qed
qed

definition sample_set_until :: msg_set_until where
  "sample_set_until = \<lparr>su_corporation = ''pp'', su_operator = ''o'', su_id = 2, su_until = Some (add_days 60 99)\<rparr>"

theorem set_until_exact_witness:
  "pt_op_exp sample_p2 = Some (add_days 60 30) \<and>
   (\<exists>w'. SetParticipantEffectiveUntil (sample_pe 85) (sample_pw sample_P3) sample_set_until = Inr w' \<and>
      (\<exists>q. kget (pps_participants (pw_pp w')) 2 = Some q \<and> pt_until q = Some (add_days 60 99) \<and>
         pt_op_exp q = Some (add_days 60 30)))"
proof -
  have sel: "su_corporation sample_set_until = ''pp''" "su_operator sample_set_until = ''o''" "su_id sample_set_until = 2"
      "su_until sample_set_until = Some (add_days 60 99)" by (simp_all add: sample_set_until_def)
  have run: "sample_run 80 (pw_pp (sample_pw sample_P3))" using sample_issuer_valid_step by simp
  have p: "kget (pps_participants (pw_pp (sample_pw sample_P3))) 2 = Some sample_p2" "IsValidParticipant sample_p2 85 = Inr ()"
      "end_allowed 85 (pw_pp (sample_pw sample_P3)) 2 sample_p2 (add_days 60 99)"
    by (simp_all add: sample_P3_get IsValidParticipant_def sample_days end_allowed_def add_days_def ns_per_day_def)
  have free: "\<not> context_blocked (pw_pp (sample_pw sample_P3)) sample_p2 (pt_from sample_p2) (Some (add_days 60 99))"
    by (auto simp: context_blocked_def list_ex_walk sample_P3_get same_context_def)
  have auth: "pp_authorize (sample_pe 85) (sample_pw sample_P3) ''pp'' ''o'' ''/verana.pp.v1.MsgSetParticipantEffectiveUntil'' = Inr ()"
    by (simp add: sample_authorized VPRDelegableMsgTypes_def)
  have "SetParticipantEffectiveUntil (sample_pe 85) (sample_pw sample_P3) sample_set_until =
      Inr ((update_in (sample_pw sample_P3) (sample_p2\<lparr>pt_until := Some (add_days 60 99), pt_adjusted := Some 85,
        pt_modified := Some 85\<rparr>))\<lparr>pw_de := sample_delegations\<rparr>)"
    unfolding set_until_exact [OF run sample_pe_sel(9)] sel
    using p free auth
    by (intro conjI exI [of _ sample_p2] exI [of _ 2] exI [of _ "add_days 60 99"] exI [of _ sample_delegations])
      (simp_all add: sample_rg_def UpdateVSOperatorAuthorizationExpiration_def sample_delegations_def de_empty_def
        add_days_def ns_per_day_def)
  then show ?thesis by (simp add: update_in_def)
qed

section \<open>What a cancellation releases\<close>

text \<open>C34 cancel_keeps_deposit: an accepted cancellation of a process with a deposit makes that
  deposit claimable for the corporation of the participant, but leaves the deposit recorded
  for the participant unchanged, so that a later revocation releases it again and a slash
  still burns against it.\<close>

theorem cancel_keeps_deposit:
  assumes "CancelParticipantOPLastRequest X w m = Inr w'" "kget (pps_participants (pw_pp w)) (op_id m) = Some p"
    and "pt_id p = op_id m" "0 < pt_op_current_deposit p"
    and "kget (tds_deposits (pw_td w)) (op_corporation m) = Some a" "td_range a" "td_deposit a < 2 ^ 63"
  shows "(\<exists>q. kget (pps_participants (pw_pp w')) (op_id m) = Some q \<and> pt_deposit q = pt_deposit p \<and>
      pt_op_current_deposit q = 0) \<and>
    (\<exists>b. kget (tds_deposits (pw_td w')) (op_corporation m) = Some b \<and>
      td_claimable b = td_claimable a + pt_op_current_deposit p \<and> td_deposit b = td_deposit a)"
proof -
  let ?d = "pt_op_current_deposit p"
  from assms(1,2) have acct: "corpAccountFromID X (pt_corp p) = Inr (op_corporation m)"
    and e: "executeCancelParticipantVPLastRequest X w p = Inr w'"
    by (auto simp: CancelParticipantOPLastRequest_def own_participant_def GetParticipantByID_def bindE_unit_ok_iff
        result_simps)
  let ?q = "p\<lparr>pt_modified := Some (pp_now X), pt_op_last_change := Some (pp_now X),
      pt_op_state := (if pt_op_exp p = None then TERMINATED else VALIDATED),
      pt_op_current_fees := (if 0 < pt_op_current_fees p then 0 else pt_op_current_fees p),
      pt_op_current_deposit := 0\<rparr>"
  from e acct assms(4) obtain w1 w2 w3 k where
      w: "pay_escrow X w1 (op_corporation m) (pt_op_current_fees p) = Inr w2" "pw_td w1 = pw_td w" "pw_pp w1 = pw_pp w"
        "uint64ToInt64 ?d = Inr k" "adjust_deposit X w2 (op_corporation m) (i64 (- k)) = Inr w3"
        "w' = update_in w3 ?q"
    by (auto simp: executeCancelParticipantVPLastRequest_def revokeVSOperatorAuthorization_def Let_def result_simps
        split: if_splits)
  have k: "k = ?d" by (rule uint64ToInt64_exact [OF w(4)]) (use assms(4) in simp)
  have small: "is_i64 (- ?d)" "i64 (- k) = - ?d"
    using w(4) assms(4) k by (auto simp: uint64ToInt64_def is_i64_def max_i64_def i64_id split: if_splits)
  have td: "pw_td w2 = pw_td w" "pw_pp w2 = pw_pp w"
    using w(1-3) take_pp(3) [OF w(1)] by (auto simp: pay_escrow_def escrow_out_def result_simps split: if_splits)
  from w(5) obtain td' b' where r: "AdjustTrustDeposit (pe_dec X) (pe_bank X) (pe_sdk X) (pw_td w) (pw_bank w2)
      (op_corporation m) (- ?d) = Inr (td', b')" "w3 = w2\<lparr>pw_td := td', pw_bank := b'\<rparr>"
    by (auto simp: adjust_deposit_def td small(2) result_simps)
  from Adjust_existing [OF r(1) assms(5-7) small(1)] obtain b where
    "adjusted a (- ?d) b 0" "td' = put_td (pw_td w) (op_corporation m) b" using assms(4) by (auto simp: adjusted_def)
  then show ?thesis using w(6) assms(3) r(2) by (auto simp: adjusted_def put_td_def update_in_def)
qed

lemma sample_cancel_ok:
  "\<exists>w'. CancelParticipantOPLastRequest (sample_pe 75) (sample_pw sample_P3a) (sample_on ''p'' 3) = Inr w'"
proof -
  have sel: "op_corporation (sample_on ''p'' 3) = ''p''" "op_operator (sample_on ''p'' 3) = ''o''" "op_id (sample_on ''p'' 3) = 3"
    by (simp_all add: sample_on_def)
  from ledger_move_ok [of "3 * 10 ^ 6" sample_purse "''@pp''" bond_denom "''p''"] obtain b where
    b: "ledger_move sample_purse ''@pp'' ''p'' [(bond_denom, 3 * 10 ^ 6)] = Some b" by (auto simp: sample_purse_def)
  have pay: "pay_escrow (sample_pe 75) (sample_pw sample_P3a) ''p'' (pt_op_current_fees sample_p3a) =
      Inr ((sample_pw sample_P3a)\<lparr>pw_bank := b\<rparr>)"
    using b by (simp add: pay_escrow_def escrow_out_def new_coins_def pp_module_def uint64ToInt64_def max_i64_def i64_id)
  have int: "uint64ToInt64 (6 * 10 ^ 5) = Inr (6 * 10 ^ 5)" "i64 (- (6 * 10 ^ 5)) = - (6 * 10 ^ 5)"
    by (simp_all add: uint64ToInt64_def max_i64_def i64_def)
  have adj: "\<exists>w2. adjust_deposit (sample_pe 75) ((sample_pw sample_P3a)\<lparr>pw_bank := b\<rparr>) ''p'' (- (6 * 10 ^ 5)) = Inr w2"
    by (simp add: adjust_deposit_def AdjustTrustDeposit_def outstanding_slash_def new_td_def adjust_decrease_def
        i64_def Let_def dec_one_def)
  have own: "own_participant (sample_pe 75) (sample_pw sample_P3a) 3 ''p'' = Inr sample_p3a"
    by (simp add: own_participant_def GetParticipantByID_def sample_P3a_get sample_account del: One_nat_def)
  have none: "kget (des_vs_participant sample_delegations) i = None" for i by (simp add: sample_delegations_def de_empty_def)
  have "(sample_pw P)\<lparr>pw_de := sample_delegations\<rparr> = sample_pw P" for P by (simp add: sample_pw_def)
  then have drop: "revokeVSOperatorAuthorization (sample_pe 75) (sample_pw P) q = Inr (sample_pw P)" for P q
    by (simp add: revokeVSOperatorAuthorization_def RevokeVSOperatorAuthorization_def none)
  show ?thesis using adj pay int drop
    by (auto simp: CancelParticipantOPLastRequest_def sel own sample_authorized VPRDelegableMsgTypes_def
        executeCancelParticipantVPLastRequest_def sample_account Let_def simp del: One_nat_def)
qed

theorem cancel_keeps_deposit_witness:
  "\<exists>w'. CancelParticipantOPLastRequest (sample_pe 75) (sample_pw sample_P3a) (sample_on ''p'' 3) = Inr w' \<and>
     (\<exists>q. kget (pps_participants (pw_pp w')) 3 = Some q \<and> pt_deposit q = 6 * 10 ^ 5) \<and>
     (\<exists>b. kget (tds_deposits (pw_td w')) ''p'' = Some b \<and> td_claimable b = 6 * 10 ^ 5)"
proof -
  obtain w' where w': "CancelParticipantOPLastRequest (sample_pe 75) (sample_pw sample_P3a) (sample_on ''p'' 3) = Inr w'"
    using sample_cancel_ok by blast
  have get: "kget (pps_participants (pw_pp (sample_pw sample_P3a))) (op_id (sample_on ''p'' 3)) = Some sample_p3a"
    "kget (tds_deposits (pw_td (sample_pw sample_P3a))) (op_corporation (sample_on ''p'' 3)) =
       Some (new_td ''p'' (10 ^ 8 * dec_one) (10 ^ 8))"
    by (simp_all add: sample_on_def sample_P3a_get)
  have "td_range (new_td ''p'' (10 ^ 8 * dec_one) (10 ^ 8))" "td_deposit (new_td ''p'' (10 ^ 8 * dec_one) (10 ^ 8)) < 2 ^ 63"
    by (simp_all add: td_range_def new_td_def is_u64_def)
  from cancel_keeps_deposit [OF w' get(1) _ _ get(2) this] w' show ?thesis
    by (auto simp: sample_on_def new_td_def)
qed

section \<open>Discounts\<close>

text \<open>C33 session_discount_exact: the fee a session charges after the discount of its executor,
  in the arithmetic of the code.  When the fee times ten thousand less the discount fits into
  64 bits it is the exact share, rounded down and at most the fee; otherwise the product wraps
  and whatever the fee, less than two to the 64th part ten thousand is charged.\<close>

theorem session_discount_exact:
  assumes "pp_reach CN B uuid_ok t r grp s P" "kget (pps_participants P) i = Some p"
    and "is_u64 fees" "d = executor_discount v p" "0 < d"
  shows "d \<le> 10000 \<and> discounted fees d = fees * (10000 - d) mod 2 ^ 64 div 10000 \<and>
    (fees * (10000 - d) < 2 ^ 64 \<longrightarrow> discounted fees d = fees * (10000 - d) div 10000 \<and> discounted fees d \<le> fees) \<and>
    discounted fees d \<le> 2 ^ 64 div 10000"
proof -
  have d: "d \<le> 10000" using pp_inv_participant [OF pp_reach_inv [OF assms(1)] assms(2)] assms(4)
    by (auto simp: participant_ok_def maxDiscount_def executor_discount_def)
  have u: "u64 (10000 - d) = 10000 - d" using d assms(5) by (simp add: u64_def)
  have exact: "discounted fees d = fees * (10000 - d) mod 2 ^ 64 div 10000"
    using assms(5) u by (simp add: discounted_def discountScale_def u64_def)
  have nn: "0 \<le> fees" "0 \<le> fees * (10000 - d)" using assms(3) d by (simp_all add: is_u64_def)
  have small: "discounted fees d = fees * (10000 - d) div 10000 \<and> discounted fees d \<le> fees" if "fees * (10000 - d) < 2 ^ 64"
  proof -
    have e: "discounted fees d = fees * (10000 - d) div 10000" using exact nn that by simp
    have "fees * (10000 - d) \<le> fees * 10000" using nn(1) assms(5) by (intro mult_left_mono) simp_all
    then have "fees * (10000 - d) div 10000 \<le> fees * 10000 div 10000" by (rule zdiv_mono1) simp
    then show ?thesis using e by simp
  qed
  have "fees * (10000 - d) mod 2 ^ 64 \<le> 2 ^ 64" using pos_mod_bound [of "2 ^ 64" "fees * (10000 - d)"] by simp
  then have "discounted fees d \<le> 2 ^ 64 div 10000" unfolding exact by (rule zdiv_mono1) simp
  then show ?thesis using d exact small by blast
qed

theorem session_discount_exact_witness:
  "discounted 1000 2500 = 750 \<and> discounted (2 ^ 62) 2500 = 2 ^ 62 * 7500 mod 2 ^ 64 div 10000"
proof -
  have p: "kget (pps_participants sample_P3) 3 = Some sample_p3" "2500 = executor_discount False sample_p3"
    by (simp_all add: sample_P3_get executor_discount_def)
  from session_discount_exact [OF sample_issuer_valid_step p(1) _ p(2), of 1000]
    session_discount_exact [OF sample_issuer_valid_step p(1) _ p(2), of "2 ^ 62"]
  show ?thesis by (simp add: is_u64_def)
qed

section \<open>Genesis\<close>

text \<open>The counter is stored from the start.\<close>

lemma counter_stored: "pp_reach CN B uuid_ok t r grp s P \<Longrightarrow> pps_counter P \<noteq> None"
proof (induction rule: pp_reach.induct)
  case (pp_init t grp)
  then show ?case by (simp add: pp_empty_def)
next
  case (pp_next t r grp s P u r' grp' s' P')
  from pp_next.hyps(2) show ?case
  proof (cases rule: pp_tick_cases)
    case (message Z w gov pop w')
    have "pp_effect Z uuid_ok P P'"
      using pp_exec_effect [OF message(6)] pp_inv_own [OF pp_reach_inv [OF pp_next.hyps(1)]] message(5,7) by simp
    then show ?thesis
    proof cases
      case (steps j e)
      from takes_step_get [OF this pp_inv_own [OF pp_reach_inv [OF pp_next.hyps(1)]]]
      obtain b where "P' = UpdateParticipant P b" by metis
      then show ?thesis using pp_next.IH by simp
    next
      case (pays m S)
      then show ?thesis using pp_next.IH credits_timeout [OF pays(4)] by (simp add: credits_def)
    qed (use pp_next.IH in simp_all)
  qed (use pp_next.IH in simp_all)
qed

text \<open>C40 pp_genesis_round_trip: importing the export of a reachable state restores it: parameter,
  participants, sessions and the counter; but the export passes the validation of genesis
  files only while there is no participant, because the exported next id is the last one used.\<close>

theorem pp_genesis_round_trip:
  assumes "pp_reach CN B uuid_ok t r grp s P"
  shows "pp_InitGenesis (pp_ExportGenesis P) pp_empty = P \<and>
    (pp_validate_genesis (pp_ExportGenesis P) \<longleftrightarrow> pp_last_id P = 0)"
proof -
  note inv = pp_reach_inv [OF assms]
  have own: "kget (pps_participants P) i = Some p \<Longrightarrow> pt_id p = i" for i p using pp_inv_participant [OF inv] by blast
  have sess: "kget (pps_sessions P) i = Some x \<Longrightarrow> ss_id x = i \<and> ss_records x \<noteq> [] \<and> (\<forall>y \<in> set (ss_records x). record_ok t P y)" for i x
    using inv unfolding pp_inv_def session_ok_def by blast
  have lists: "sort_key pt_id (walk (pps_participants P)) = walk (pps_participants P)"
      "sort_key ss_id (walk (pps_sessions P)) = walk (pps_sessions P)"
    using sort_key_walk [of "pps_participants P" pt_id] sort_key_walk [of "pps_sessions P" ss_id] own sess by auto
  have stores: "kset_all pt_id (walk (pps_participants P)) kempty = pps_participants P"
      "kset_all ss_id (walk (pps_sessions P)) kempty = pps_sessions P"
    using kset_all_walk [of "pps_participants P" pt_id] kset_all_walk [of "pps_sessions P" ss_id] own sess by auto
  have first: "pp_InitGenesis (pp_ExportGenesis P) pp_empty = P"
    using counter_stored [OF assms] by (auto simp: pp_InitGenesis_def pp_ExportGenesis_def pp_empty_def lists stores)
  have none: "walk (pps_participants P) = [] \<longleftrightarrow> pp_last_id P = 0"
  proof
    assume "walk (pps_participants P) = []"
    then have "kget (pps_participants P) (pp_last_id P) \<noteq> Some v" for v using walk_mem_iff [of v "pps_participants P"] by auto
    then show "pp_last_id P = 0" using pp_inv_dense [OF inv, of "pp_last_id P"] by auto
  next
    assume "pp_last_id P = 0"
    then have "kget (pps_participants P) i = None" for i
      using pp_inv_participant [OF inv, of i] by (cases "kget (pps_participants P) i") auto
    then show "walk (pps_participants P) = []" using walk_mem_iff [of _ "pps_participants P"] by (metis list.set_intros(1) neq_Nil_conv option.distinct(1))
  qed
  have no_sessions: "walk (pps_sessions P) = []" if "pp_last_id P = 0"
  proof (rule ccontr)
    assume "walk (pps_sessions P) \<noteq> []"
    then obtain i x where "kget (pps_sessions P) i = Some x" by (metis list.set_intros(1) neq_Nil_conv walk_mem_iff)
    with sess obtain y where "record_ok t P y" by (metis list.set_intros(1) neq_Nil_conv)
    then obtain j where "kget (pps_participants P) j \<noteq> None" by (auto simp: record_ok_def)
    then show False using that pp_inv_participant [OF inv, of j] by auto
  qed
  have last: "pp_last_id P \<le> maximum_id pt_id (walk (pps_participants P))"
  proof (cases "pp_last_id P = 0")
    case False
    then obtain p where p: "kget (pps_participants P) (pp_last_id P) = Some p" using pp_inv_dense [OF inv, of "pp_last_id P"] by auto
    then have "p \<in> set (walk (pps_participants P))" by (auto simp: walk_mem_iff)
    from maximum_id_ge [OF this, of pt_id] show ?thesis using own [OF p] by simp
  qed simp
  have "pp_validate_genesis (pp_ExportGenesis P) \<longleftrightarrow> pp_last_id P = 0"
  proof (cases "pp_last_id P = 0")
    case True
    have "pps_timeout_days P \<noteq> 0" using inv by (simp add: pp_inv_def)
    then show ?thesis using True no_sessions [OF True] none lists
      by (simp add: pp_validate_genesis_def pp_ExportGenesis_def pp_params_validate_def)
  next
    case False
    then have "pps_counter P = Some (pp_last_id P)" by (simp add: pp_last_id_def split: option.splits)
    then show ?thesis using False last none lists
      by (simp add: pp_validate_genesis_def pp_ExportGenesis_def Let_def)
  qed
  then show ?thesis using first by simp
qed

theorem pp_genesis_round_trip_witness:
  "pp_InitGenesis (pp_ExportGenesis sample_P3) pp_empty = sample_P3 \<and> \<not> pp_validate_genesis (pp_ExportGenesis sample_P3)"
  using pp_genesis_round_trip [OF sample_issuer_valid_step] by (simp add: sample_P3_def sample_P_def pp_last_id_def)

end
