(* ===== verification/Service_Records.thy ===== *)
theory Service_Records
imports Participant_Effects
begin

text \<open>
  The records of service operators in the delegations: which operator serves which
  participant, what each call of x/de does to that, and what each message of x/pp does to the
  delegations.
\<close>

section \<open>Who serves whom\<close>

text \<open>The delegations hold a record for participant \<open>i\<close> of corporation \<open>c\<close> and operator \<open>oper\<close>.\<close>

definition serves :: "de_state \<Rightarrow> nat \<Rightarrow> nat \<Rightarrow> string \<Rightarrow> bool" where
  "serves D i c oper \<longleftrightarrow>
     (\<exists>j v. kget (des_vsoas D) j = Some v \<and> i \<in> set (participants v) \<and> vs_corp v = c \<and> vs_oper v = oper)"

lemma serves_same: "des_vsoas D' = des_vsoas D \<Longrightarrow> serves D' = serves D"
  by (simp add: serves_def fun_eq_iff)

lemma recompute_serves: "recomputeFeeAllowance CN now D v = Inr D' \<Longrightarrow> serves D' = serves D"
  by (erule recompute_only_fees) (rule serves_same, simp)

lemma revoke_fee_serves: "RevokeFeeAllowance D c g = Inr D' \<Longrightarrow> serves D' = serves D"
  by (drule RevokeFeeAllowance_effect, elim exE conjE) (rule serves_same, simp)

lemma grant_fee_serves: "GrantFeeAllowance CN D now c g mts e l p = Inr D' \<Longrightarrow> serves D' = serves D"
  by (drule GrantFeeAllowance_effect, elim exE conjE) (rule serves_same, simp)

text \<open>A block of records rewritten in place serves the same participants.\<close>

lemma rewrite_serves:
  assumes "kget (des_vsoas D) j = Some v" "vs_corp v' = vs_corp v" "vs_oper v' = vs_oper v"
    and "set (participants v') \<subseteq> set (participants v)" "serves (D\<lparr>des_vsoas := kset (des_vsoas D) j v'\<rparr>) i c oper"
  shows "serves D i c oper"
proof -
  obtain k x where k: "(if k = j then Some v' else kget (des_vsoas D) k) = Some x" "i \<in> set (participants x)"
      "vs_corp x = c" "vs_oper x = oper"
    using assms(5) by (auto simp: serves_def kget_kset)
  show ?thesis
  proof (cases "k = j")
    case True
    then show ?thesis using k assms(1-4) unfolding serves_def by (intro exI [of _ j] exI [of _ v]) auto
  next
    case False
    then show ?thesis using k unfolding serves_def by (intro exI [of _ k] exI [of _ x]) auto
  qed
qed

lemma grant_vs_serves:
  assumes "vs_ok D" "GrantVSOperatorAuthorization CN now D c oper rec = Inr D'" "serves D' i d o'"
  shows "serves D i d o' \<or> i = pr_participant rec \<and> d = c \<and> o' = oper"
proof -
  from GrantVS_state [OF assms(1,2)] obtain v where v: "vs_corp v = c" "vs_oper v = oper"
      "kget (des_vsoas D) (vs_id v) = Some v \<or> vs_records v = []"
      "recomputeFeeAllowance CN now (add_record (D\<lparr>des_vs_seq := max (des_vs_seq D) (vs_id v)\<rparr>) c oper v rec)
        (v\<lparr>vs_records := vs_records v @ [rec]\<rparr>) = Inr D'"
    by blast
  have "serves (add_record (D\<lparr>des_vs_seq := max (des_vs_seq D) (vs_id v)\<rparr>) c oper v rec) i d o'"
    using assms(3) recompute_serves [OF v(4)] by simp
  then show ?thesis using v(1-3)
    by (auto simp: serves_def add_record_def kget_kset participants_def split: if_splits)
qed

lemma revoke_vs_serves:
  assumes "vs_ok D" "RevokeVSOperatorAuthorization CN now D p = Inr D'" "serves D' i c oper"
  shows "serves D i c oper \<and> i \<noteq> p"
  using RevokeVS_state [OF assms(1,2)]
proof (elim disjE conjE exE)
  assume "D' = D" "kget (des_vs_participant D) p = None"
  moreover have "kget (des_vs_participant D) i \<noteq> None" if "serves D i c oper"
    using that vs_ok_participant [OF assms(1), of i] by (auto simp: serves_def)
  ultimately show ?thesis using assms(3) by auto
next
  fix j v assume v: "kget (des_vsoas D) j = Some v" "p \<in> set (participants v)"
    and "let v' = v\<lparr>vs_records := filter (\<lambda>r. pr_participant r \<noteq> p) (vs_records v)\<rparr> in
       recomputeFeeAllowance CN now (drop_record D p j v') v' = Inr D'"
  then have r: "serves (drop_record D p j (v\<lparr>vs_records := filter (\<lambda>r. pr_participant r \<noteq> p) (vs_records v)\<rparr>)) i c oper"
    using assms(3) recompute_serves by (simp add: Let_def)
  have other: "p \<notin> set (participants x)" if "kget (des_vsoas D) k = Some x" "k \<noteq> j" for k x
    using vs_participant_unique [OF assms(1) that(1) v(1) _ v(2)] that(2) by blast
  from r obtain k x where k: "kget (des_vsoas (drop_record D p j
        (v\<lparr>vs_records := filter (\<lambda>r. pr_participant r \<noteq> p) (vs_records v)\<rparr>))) k = Some x"
      "i \<in> set (participants x)" "vs_corp x = c" "vs_oper x = oper"
    unfolding serves_def by blast
  then have "kget (des_vsoas D) k = Some x \<and> k \<noteq> j \<or>
      x = v\<lparr>vs_records := filter (\<lambda>r. pr_participant r \<noteq> p) (vs_records v)\<rparr>"
    by (auto simp: drop_record_def Let_def kget_kset kget_kremove split: if_splits)
  then show ?thesis
  proof
    assume "kget (des_vsoas D) k = Some x \<and> k \<noteq> j"
    then show ?thesis using k(2-4) other unfolding serves_def by blast
  next
    assume "x = v\<lparr>vs_records := filter (\<lambda>r. pr_participant r \<noteq> p) (vs_records v)\<rparr>"
    then have "vs_corp v = c" "vs_oper v = oper" "i \<in> set (participants v)" "i \<noteq> p"
      using k(2-4) by (auto simp: participants_filter)
    then show ?thesis using v(1) unfolding serves_def by blast
  qed
qed

lemma update_vs_serves:
  assumes "UpdateVSOperatorAuthorizationExpiration CN now D p e = Inr D'" "serves D' i c oper"
  shows "serves D i c oper"
proof (cases "kget (des_vs_participant D) p")
  case None
  then show ?thesis using assms by (simp add: UpdateVSOperatorAuthorizationExpiration_def)
next
  case (Some j)
  then obtain v where v: "kget (des_vsoas D) j = Some v"
    using assms(1) by (auto simp: UpdateVSOperatorAuthorizationExpiration_def split: option.splits)
  let ?v = "v\<lparr>vs_records := update_first (\<lambda>r. pr_participant r = p) (pr_expiration_update (\<lambda>_. Some e)) (vs_records v)\<rparr>"
  have "recomputeFeeAllowance CN now (D\<lparr>des_vsoas := kset (des_vsoas D) j ?v\<rparr>) ?v = Inr D'"
    using assms(1) Some v by (simp add: UpdateVSOperatorAuthorizationExpiration_def Let_def)
  then have "serves (D\<lparr>des_vsoas := kset (des_vsoas D) j ?v\<rparr>) i c oper" using recompute_serves assms(2) by simp
  then show ?thesis by (rule rewrite_serves [OF v, rotated 3]) (simp_all add: participants_update_first)
qed

lemma check_vs_serves:
  assumes "CheckVSOperatorAuthorizationOnParticipant now D c oper p mt = Inr D'"
  shows "serves D p c oper \<and> (serves D' i d o' \<longrightarrow> serves D i d o')"
proof -
  from assms obtain j v r where v: "kget (des_vsoas D) j = Some v" "vs_corp v = c" "vs_oper v = oper"
      "find (\<lambda>r. pr_participant r = p) (vs_records v) = Some r"
      "D' = D \<or> D' = D\<lparr>des_vsoas := kset (des_vsoas D) j
        (v\<lparr>vs_records := update_first (\<lambda>r. pr_participant r = p) (cycle_reset now (the (pr_period r))) (vs_records v)\<rparr>)\<rparr>"
    unfolding CheckVSOperatorAuthorizationOnParticipant_def
    by (auto split: option.splits if_split_asm)
  have "p \<in> set (participants v)" using v(4) by (auto simp: find_Some_iff participants_def)
  then have "serves D p c oper" using v(1-3) unfolding serves_def by blast
  moreover have "serves D i d o'" if "serves D' i d o'"
    using v(5)
  proof
    assume "D' = D"
    then show ?thesis using that by simp
  next
    assume e: "D' = D\<lparr>des_vsoas := kset (des_vsoas D) j
        (v\<lparr>vs_records := update_first (\<lambda>r. pr_participant r = p) (cycle_reset now (the (pr_period r))) (vs_records v)\<rparr>)\<rparr>"
    show ?thesis
      by (rule rewrite_serves [OF v(1) _ _ _ that [unfolded e]]) (simp_all add: participants_update_first cycle_reset_def)
  qed
  ultimately show ?thesis by blast
qed

section \<open>What a message does to the delegations\<close>

text \<open>Nothing but records of service operators lost.\<close>

definition narrows :: "de_state \<Rightarrow> de_state \<Rightarrow> bool" where
  "narrows D D' \<longleftrightarrow> (de_inv D \<longrightarrow> de_inv D' \<and> (\<forall>i c oper. serves D' i c oper \<longrightarrow> serves D i c oper))"

lemma narrows_refl [simp]: "narrows D D"
  by (simp add: narrows_def)

lemma set_vs_narrows: "set_vs_expiration X w i u = Inr w' \<Longrightarrow> narrows (pw_de w) (pw_de w')"
  by (auto simp: set_vs_expiration_def narrows_def result_simps intro: de_inv_update_vs update_vs_serves)

lemma revoke_vs_narrows:
  assumes "revokeVSOperatorAuthorization X w p = Inr w'"
  shows "narrows (pw_de w) (pw_de w') \<and> (de_inv (pw_de w) \<longrightarrow> \<not> serves (pw_de w') (pt_id p) c oper)"
proof -
  obtain D where "RevokeVSOperatorAuthorization (pe_coins X) (pp_now X) (pw_de w) (pt_id p) = Inr D" "pw_de w' = D"
    using assms by (auto simp: revokeVSOperatorAuthorization_def result_simps)
  then show ?thesis using revoke_vs_serves de_inv_revoke_vs unfolding narrows_def de_inv_def by metis
qed

lemma grant_request_serves:
  assumes "grant_vs_request X w c v k u = Inr w'" "de_inv (pw_de w)" "0 < c"
  shows "de_inv (pw_de w') \<and> (\<forall>i d oper. serves (pw_de w') i d oper \<longrightarrow>
    serves (pw_de w) i d oper \<or> i = k \<and> d = c \<and> oper = vr_operator v)"
proof (cases "vr_msg_types v = []")
  case True
  then show ?thesis using assms by (simp add: grant_vs_request_def)
next
  case False
  then obtain rec D where g: "GrantVSOperatorAuthorization (pe_coins X) (pp_now X) (pw_de w) c (vr_operator v) rec = Inr D"
      "pr_participant rec = k" "pw_de w' = D"
    using assms(1) by (auto simp: grant_vs_request_def result_simps)
  have "vs_ok (pw_de w)" using assms(2) by (simp add: de_inv_def)
  then show ?thesis using de_inv_grant_vs [OF assms(2,3) g(1)] grant_vs_serves [OF _ g(1)] g(2,3) by blast
qed

text \<open>Deposits, fees and payments leave the delegations alone.\<close>

lemma calls_de:
  "adjust_deposit X w a n = Inr w' \<Longrightarrow> pw_de w' = pw_de w"
  "adjust_on_behalf X w a f n = Inr w' \<Longrightarrow> pw_de w' = pw_de w"
  "burn_deposit X w a n = Inr w' \<Longrightarrow> pw_de w' = pw_de w"
  "escrow_in X w a n = Inr w' \<Longrightarrow> pw_de w' = pw_de w"
  "escrow_out X w a n = Inr w' \<Longrightarrow> pw_de w' = pw_de w"
  "send_coins X w a c n = Inr w' \<Longrightarrow> pw_de w' = pw_de w"
  by (auto simp: adjust_deposit_def adjust_on_behalf_def burn_deposit_def escrow_in_def escrow_out_def send_coins_def
      result_simps)

lemma takes_de:
  "take_deposit X w a n = Inr w' \<Longrightarrow> pw_de w' = pw_de w"
  "take_fees X w a n = Inr w' \<Longrightarrow> pw_de w' = pw_de w"
  "pay_escrow X w a n = Inr w' \<Longrightarrow> pw_de w' = pw_de w"
  "pay_account X w f a n = Inr w' \<Longrightarrow> pw_de w' = pw_de w"
  by (auto simp: take_deposit_def take_fees_def pay_escrow_def pay_account_def result_simps
      split: if_splits dest: calls_de)

lemma update_in_de [simp]: "pw_de (update_in w p) = pw_de w"
  by (simp add: update_in_def)

lemma pay_reward_de:
  assumes "pay_reward X w a rate n i = Inr w'"
  shows "pw_de w' = pw_de w"
  using assms
  by (auto simp: pay_reward_def result_simps split: if_splits prod.splits dest!: calls_de takes_de)

lemma pay_beneficiary_de:
  assumes "pay_beneficiary X m a tp d p (w, q, ua, wa) = Inr (w', x)"
  shows "pw_de w' = pw_de w"
  using assms
  by (auto simp: pay_beneficiary_def Let_def result_simps split: if_splits prod.splits dest!: calls_de takes_de)

lemma executeSession_de:
  assumes "executeSession X w m found = Inr w'"
  shows "pw_de w' = pw_de w"
proof -
  let ?v = "mn_verifier m \<noteq> 0"
  from assms obtain a payer w1 payer' ua wa w2 w3 s4 where
      fold: "foldE (pay_beneficiary X m a (tds_params (pw_td w)) (executor_discount ?v payer)) found
        (w, payer, 0, 0) = Inr (w1, payer', ua, wa)"
    and agents: "pay_user_agent X w1 m a (tp_rate (tds_params (pw_td w))) ua = Inr w2"
        "pay_wallet_agent X w2 m a (tp_rate (tds_params (pw_td w))) wa = Inr w3"
    and w': "pw_de w' = pw_de w3"
    by (auto simp: executeSession_def Let_def result_simps split: if_splits)
  have "(\<lambda>(v, _). pw_de v = pw_de w) (w1, payer', ua, wa)"
  proof (rule foldE_invariant [OF fold])
    fix p t t' assume "case t of (v, _) \<Rightarrow> pw_de v = pw_de w"
      "pay_beneficiary X m a (tds_params (pw_td w)) (executor_discount ?v payer) p t = Inr t'"
    then show "case t' of (v, _) \<Rightarrow> pw_de v = pw_de w" by (cases t; cases t') (auto dest: pay_beneficiary_de)
  qed simp
  moreover have "pw_de w3 = pw_de w1" using agents
    by (simp add: pay_user_agent_def pay_wallet_agent_def pay_reward_de)
  ultimately show ?thesis using w' by simp
qed

text \<open>The members whose service operator the handlers dismiss.\<close>

definition credential_role :: "int \<Rightarrow> bool" where
  "credential_role role \<longleftrightarrow> role = ISSUER \<or> role = VERIFIER"

lemma drop_vs_narrows:
  assumes "drop_vs_of_member X w p = Inr w'"
  shows "narrows (pw_de w) (pw_de w') \<and>
    (credential_role (pt_role p) \<longrightarrow> de_inv (pw_de w) \<longrightarrow> \<not> serves (pw_de w') (pt_id p) c oper) \<and>
    (\<not> credential_role (pt_role p) \<longrightarrow> pw_de w' = pw_de w)"
  using assms revoke_vs_narrows [of X w p w' c oper]
  by (auto simp: drop_vs_of_member_def credential_role_def split: if_splits)

lemma renew_de: "RenewParticipantOP X w m = Inr w' \<Longrightarrow> pw_de w' = pw_de w"
  by (auto simp: RenewParticipantOP_def executeRenewParticipantVP_def bindE_unit_ok_iff result_simps dest!: takes_de)

lemma repay_de: "RepayParticipantSlashedTrustDeposit X w m = Inr w' \<Longrightarrow> pw_de w' = pw_de w"
  by (auto simp: RepayParticipantSlashedTrustDeposit_def bindE_unit_ok_iff result_simps dest!: calls_de)

lemma validate_de:
  assumes "SetParticipantOPToValidated X w m = Inr w'"
  shows "narrows (pw_de w) (pw_de w')"
proof -
  from assms obtain p v x u where "executeSetParticipantVPToValidated X w p v m x u = Inr w'"
    by (auto simp: SetParticipantOPToValidated_def bindE_unit_ok_iff bindE_ok_iff if_Inl_ok_iff Let_def)
  then show ?thesis
    by (auto simp: executeSetParticipantVPToValidated_def Let_def result_simps split: option.splits
        dest!: takes_de set_vs_narrows)
qed

lemma set_until_de:
  assumes "SetParticipantEffectiveUntil X w m = Inr w'"
  shows "narrows (pw_de w) (pw_de w')"
  using assms
  by (auto simp: SetParticipantEffectiveUntil_def executeAdjustParticipant_def bindE_unit_ok_iff bindE_ok_iff Let_def
      split: option.splits dest!: set_vs_narrows)

lemma cancel_de:
  assumes "CancelParticipantOPLastRequest X w m = Inr w'" "kget (pps_participants (pw_pp w)) (op_id m) = Some p"
    and "pt_id p = op_id m"
  shows "narrows (pw_de w) (pw_de w') \<and>
    (pt_op_exp p = None \<longrightarrow> de_inv (pw_de w) \<longrightarrow> \<not> serves (pw_de w') (op_id m) c oper)"
proof -
  from assms(1,2) have "executeCancelParticipantVPLastRequest X w p = Inr w'"
    by (auto simp: CancelParticipantOPLastRequest_def own_participant_iff bindE_unit_ok_iff bindE_ok_iff if_Inl_ok_iff)
  then obtain w1 where w: "pw_de w' = pw_de w1"
      "(if pt_op_exp p = None then revokeVSOperatorAuthorization X w (p\<lparr>pt_modified := Some (pp_now X),
          pt_op_last_change := Some (pp_now X), pt_op_state := TERMINATED\<rparr>) else Inr w) = Inr w1"
    by (auto simp: executeCancelParticipantVPLastRequest_def Let_def result_simps split: if_splits
        dest!: calls_de takes_de)
  show ?thesis
  proof (cases "pt_op_exp p = None")
    case True
    with w(2) have "revokeVSOperatorAuthorization X w (p\<lparr>pt_modified := Some (pp_now X),
          pt_op_last_change := Some (pp_now X), pt_op_state := TERMINATED\<rparr>) = Inr w1" by simp
    from revoke_vs_narrows [OF this, of c oper] show ?thesis using w(1) assms(3) by simp
  next
    case False
    then show ?thesis using w by auto
  qed
qed

lemma revoke_de:
  assumes "RevokeParticipant X w m = Inr w'" "kget (pps_participants (pw_pp w)) (op_id m) = Some p" "pt_id p = op_id m"
  shows "narrows (pw_de w) (pw_de w') \<and>
    (credential_role (pt_role p) \<longrightarrow> de_inv (pw_de w) \<longrightarrow> \<not> serves (pw_de w') (op_id m) c oper) \<and>
    (\<not> credential_role (pt_role p) \<longrightarrow> pw_de w' = pw_de w)"
proof -
  from assms(1,2) obtain w1 where w: "executeRevokeParticipant X w p = Inr w1" "drop_vs_of_member X w1 p = Inr w'"
    by (auto simp: RevokeParticipant_def validateRevokeParticipantBasicChecks_def GetParticipantByID_def
        bindE_unit_ok_iff result_simps)
  have "pw_de w1 = pw_de w" using w(1)
    by (auto simp: executeRevokeParticipant_def result_simps split: if_splits dest!: calls_de)
  then show ?thesis using drop_vs_narrows [OF w(2), of c oper] assms(3) by simp
qed

lemma slash_de:
  assumes "SlashParticipantTrustDeposit X w m = Inr w'" "kget (pps_participants (pw_pp w)) (sh_id m) = Some p"
    and "pt_id p = sh_id m"
  shows "narrows (pw_de w) (pw_de w') \<and>
    (credential_role (pt_role p) \<longrightarrow> de_inv (pw_de w) \<longrightarrow> \<not> serves (pw_de w') (sh_id m) c oper) \<and>
    (\<not> credential_role (pt_role p) \<longrightarrow> pw_de w' = pw_de w)"
proof -
  from assms(1,2) obtain w1 where w: "executeSlashParticipantTrustDeposit X w p (sh_amount m) = Inr w1"
      "drop_vs_of_member X w1 p = Inr w'"
    by (auto simp: SlashParticipantTrustDeposit_def validateSlashParticipantBasicChecks_def GetParticipantByID_def
        bindE_unit_ok_iff result_simps)
  have "pw_de w1 = pw_de w" using w(1)
    by (auto simp: executeSlashParticipantTrustDeposit_def bindE_unit_ok_iff result_simps dest!: calls_de)
  then show ?thesis using drop_vs_narrows [OF w(2), of c oper] assms(3) by simp
qed

lemma session_de:
  assumes "CreateOrUpdateParticipantSession X w m = Inr w'"
  shows "narrows (pw_de w) (pw_de w')"
proof -
  from assms obtain w1 found where w: "validateSessionPreconditions X w m = Inr w1" "executeSession X w1 m found = Inr w'"
    by (auto simp: CreateOrUpdateParticipantSession_def bindE_ok_iff)
  from w(1) obtain c oper i D where
    "CheckVSOperatorAuthorizationOnParticipant (pp_now X) (pw_de w) c oper i session_msg_type = Inr D" "pw_de w1 = D"
    by (auto simp: validateSessionPreconditions_def Let_def bindE_unit_ok_iff result_simps)
  then show ?thesis using executeSession_de [OF w(2)]
    by (auto simp: narrows_def intro: de_inv_check_vs dest: check_vs_serves)
qed

end
