(* ===== verification/Participant_Services.thy ===== *)
theory Participant_Services
imports Service_Records Participant_Sample
begin

text \<open>
  Participants and the delegations to their service operators, as one chain: the messages of
  the participants run on the delegations that the messages of x/de and earlier participant
  messages left.  On every state of that chain a record of a service operator belongs to an
  existing participant that named this operator.
\<close>

section \<open>Records belong to participants\<close>

text \<open>What keeps the record of a service operator: the onboarding is not terminated, and an
  issuer or a verifier is neither revoked nor slashed.\<close>

definition standing :: "participant \<Rightarrow> bool" where
  "standing p \<longleftrightarrow> pt_op_state p \<noteq> TERMINATED \<and> (credential_role (pt_role p) \<longrightarrow> \<not> withdrawn p)"

definition served :: "pp_state \<Rightarrow> de_state \<Rightarrow> bool" where
  "served P D \<longleftrightarrow> (\<forall>i c oper. serves D i c oper \<longrightarrow>
     (\<exists>p. kget (pps_participants P) i = Some p \<and> pt_corp p = c \<and> pt_vs_operator p = oper \<and> standing p))"

lemma servedE:
  assumes "served P D" "serves D i c oper"
  obtains p where "kget (pps_participants P) i = Some p" "pt_corp p = c" "pt_vs_operator p = oper" "standing p"
  using assms unfolding served_def by blast

lemma ages_operator: "ages p q \<Longrightarrow> pt_vs_operator q = pt_vs_operator p"
  by (simp add: ages_def nature_def)

lemma step_standing:
  assumes "pt_step now e p q" "e \<noteq> Cancelled" "e \<noteq> Revoked" "e \<noteq> Slashed" "standing p"
  shows "standing q"
  using assms
proof (induction rule: pt_step.induct)
  case (repaid p a)
  then show ?case by (auto simp: standing_def withdrawn_def repaid_participant_def Let_def)
qed (auto simp: standing_def withdrawn_def validated_participant_def Let_def)

text \<open>One step of one participant, with the records of its operator that are left.\<close>

lemma served_step:
  assumes step: "takes_step now P i e Q" and own: "own_ids P" and served: "served P D"
    and sub: "\<And>j c oper. serves D' j c oper \<Longrightarrow> serves D j c oper"
    and new: "\<And>p q c oper. kget (pps_participants P) i = Some p \<Longrightarrow> pt_step now e p q \<Longrightarrow> serves D' i c oper \<Longrightarrow>
      standing p \<Longrightarrow> standing q"
  shows "served Q D'"
  unfolding served_def
proof (intro allI impI)
  fix j c oper assume r: "serves D' j c oper"
  from servedE [OF served sub [OF r]] obtain x where
    x: "kget (pps_participants P) j = Some x" "pt_corp x = c" "pt_vs_operator x = oper" "standing x" by blast
  from takes_step_get [OF step own] obtain p q where
    p: "kget (pps_participants P) i = Some p" "pt_step now e p q" "pt_id q = i" "Q = UpdateParticipant P q" by metis
  show "\<exists>p. kget (pps_participants Q) j = Some p \<and> pt_corp p = c \<and> pt_vs_operator p = oper \<and> standing p"
  proof (cases "j = i")
    case True
    then have "x = p" using x(1) p(1) by simp
    then have "standing q" using new [OF p(1,2)] r x(4) True by blast
    then show ?thesis using True x p \<open>x = p\<close> ages_nature(6) [OF pt_step_ages [OF p(2)]]
        ages_operator [OF pt_step_ages [OF p(2)]] by (simp add: kget_kset)
  next
    case False
    then show ?thesis using x p by (simp add: kget_kset)
  qed
qed

lemma served_narrow:
  assumes "takes_step now P i e Q" "own_ids P" "served P D" "de_inv D" "narrows D D'" "e \<noteq> Cancelled" "e \<noteq> Revoked" "e \<noteq> Slashed"
  shows "served Q D'"
  using assms(4,5) step_standing [OF _ assms(6-8)]
  by (intro served_step [OF assms(1-3)]) (auto simp: narrows_def)

text \<open>A new participant with the record its message asked for.\<close>

lemma served_create:
  assumes "served P D" "\<And>j. kget (pps_participants P) j \<noteq> None \<Longrightarrow> j \<le> pp_last_id P" "standing p"
    and "\<And>j c oper. serves D' j c oper \<Longrightarrow>
      serves D j c oper \<or> j = Suc (pp_last_id P) \<and> c = pt_corp p \<and> oper = pt_vs_operator p"
  shows "served (add_participant P p) D'"
  unfolding served_def
proof (intro allI impI)
  fix j c oper assume "serves D' j c oper"
  then consider "serves D j c oper" | "j = Suc (pp_last_id P)" "c = pt_corp p" "oper = pt_vs_operator p"
    using assms(4) by blast
  then show "\<exists>q. kget (pps_participants (add_participant P p)) j = Some q \<and> pt_corp q = c \<and> pt_vs_operator q = oper \<and> standing q"
  proof cases
    case 1
    from servedE [OF assms(1) this] obtain x where
      x: "kget (pps_participants P) j = Some x" "pt_corp x = c" "pt_vs_operator x = oper" "standing x" by blast
    then have "j \<noteq> Suc (pp_last_id P)" using assms(2) [of j] by auto
    then show ?thesis using x by (simp add: add_participant_get del: add_participant_sel(4))
  next
    case 2
    then show ?thesis using assms(3)
      by (simp add: add_participant_get newcomer_def standing_def withdrawn_def del: add_participant_sel(4))
  qed
qed

lemma served_credits:
  assumes "served P D" "credits P S" "pps_participants Q = pps_participants S"
    and "\<And>j c oper. serves D' j c oper \<Longrightarrow> serves D j c oper"
  shows "served Q D'"
  unfolding served_def
proof (intro allI impI)
  fix j c oper assume "serves D' j c oper"
  from servedE [OF assms(1) assms(4) [OF this]] obtain x where
    x: "kget (pps_participants P) j = Some x" "pt_corp x = c" "pt_vs_operator x = oper" "standing x" by blast
  have "rel_option same_but_deposit (kget (pps_participants P) j) (kget (pps_participants Q) j)"
    using assms(2,3) by (simp add: credits_def)
  then obtain y where y: "kget (pps_participants Q) j = Some y" "same_but_deposit x y"
    using x(1) by (cases rule: option.rel_cases) auto
  have "y = x\<lparr>pt_deposit := pt_deposit y\<rparr>" by (rule same_but_deposit_eq [OF y(2)])
  then have "pt_corp y = c \<and> pt_vs_operator y = oper \<and> standing y"
    by (rule ssubst) (use x in \<open>simp add: standing_def withdrawn_def\<close>)
  then show "\<exists>p. kget (pps_participants Q) j = Some p \<and> pt_corp p = c \<and> pt_vs_operator p = oper \<and> standing p"
    using y(1) by blast
qed

section \<open>Every message keeps the records in order\<close>

text \<open>The three creating messages end with the same grant.\<close>

lemma start_creates:
  assumes "StartParticipantOP X w m = Inr (i, w')"
  shows "\<exists>v corp fees deposit w2. i = Suc (pp_last_id (pw_pp w)) \<and> kget (cos_by_policy (pe_co X)) (sp_corporation m) = Some corp \<and>
    pw_de w2 = pw_de w \<and> grant_vs_request X (w2\<lparr>pw_pp := add_participant (pw_pp w)
      (new_applicant (pp_now X) m v corp fees deposit)\<rparr>) corp (sp_vs m) i (Some (pp_now X)) = Inr w'"
proof -
  from assms obtain v corp fees deposit where corp: "corpIDFromAccount X (sp_corporation m) = Inr corp"
    and exec: "executeStartParticipantVP X w m v fees deposit = Inr (i, w')"
    by (auto simp: StartParticipantOP_def bindE_unit_ok_iff bindE_ok_iff)
  from exec corp obtain w1 w2 where
      e: "take_deposit X w (sp_corporation m) deposit = Inr w1" "take_fees X w1 (sp_corporation m) fees = Inr w2"
        "grant_vs_request X (w2\<lparr>pw_pp := add_participant (pw_pp w2) (new_applicant (pp_now X) m v corp fees deposit)\<rparr>)
           corp (sp_vs m) i (Some (pp_now X)) = Inr w'" "i = Suc (pp_last_id (pw_pp w2))"
    by (auto simp: executeStartParticipantVP_def bindE_unit_ok_iff bindE_ok_iff create_in_eq)
  have "pw_pp w2 = pw_pp w" using take_pp(1) [OF e(1)] take_pp(2) [OF e(2)] by simp
  moreover have "pw_de w2 = pw_de w" using takes_de(1) [OF e(1)] takes_de(2) [OF e(2)] by simp
  moreover have "kget (cos_by_policy (pe_co X)) (sp_corporation m) = Some corp"
    using corp by (simp add: pp_lookups result_simps)
  ultimately show ?thesis using e(3,4) by metis
qed

lemma root_creates:
  assumes "CreateRootParticipant X w m = Inr (i, w')"
  shows "\<exists>corp. i = Suc (pp_last_id (pw_pp w)) \<and> kget (cos_by_policy (pe_co X)) (rt_corporation m) = Some corp \<and>
    grant_vs_request X (w\<lparr>pw_pp := add_participant (pw_pp w) (new_root (pp_now X) m corp)\<rparr>) corp (rt_vs m) i
      (rt_until m) = Inr w'"
  using assms
  by (auto simp: CreateRootParticipant_def executeCreateRootParticipant_def create_in_eq pp_lookups bindE_unit_ok_iff
        bindE_ok_iff optE_ok_iff)

lemma self_creates:
  assumes "SelfCreateParticipant X w m = Inr (i, w')"
  shows "\<exists>v corp f. i = Suc (pp_last_id (pw_pp w)) \<and> kget (cos_by_policy (pe_co X)) (sf_corporation m) = Some corp \<and>
    grant_vs_request X (w\<lparr>pw_pp := add_participant (pw_pp w) (new_self (pp_now X) m v corp f)\<rparr>) corp
      (sf_vs m) i (sf_until m) = Inr w'"
  using assms
  by (auto simp: SelfCreateParticipant_def create_in_eq pp_lookups bindE_unit_ok_iff result_simps)

lemma granted_served:
  assumes grant: "grant_vs_request X (w2\<lparr>pw_pp := add_participant P p\<rparr>) corp v i u = Inr w'"
      "i = Suc (pp_last_id P)" "pw_de w2 = D"
    and old: "served P D" "de_inv D" "\<And>j. kget (pps_participants P) j \<noteq> None \<Longrightarrow> j \<le> pp_last_id P" "0 < corp"
    and p: "pt_corp p = corp" "pt_vs_operator p = vr_operator v" "standing p"
  shows "de_inv (pw_de w') \<and> served (pw_pp w') (pw_de w')"
proof -
  have g: "de_inv (pw_de w') \<and> (\<forall>j d oper. serves (pw_de w') j d oper \<longrightarrow>
      serves D j d oper \<or> j = i \<and> d = corp \<and> oper = vr_operator v)"
    using grant_request_serves [OF grant(1)] old(2,4) grant(3) by simp
  have "served (add_participant P p) (pw_de w')"
    by (rule served_create [OF old(1,3) p(3)]) (use g grant(2) p(1,2) in auto)
  then show ?thesis using g grant_vs_pp [OF grant(1)] by simp
qed

lemma new_standing:
  "standing (new_applicant now m v corp fees deposit)" "standing (new_root now rm corp)" "standing (new_self now sm v corp f)"
  by (simp_all add: standing_def withdrawn_def new_defs)

lemma policy_positive: "co_inv s \<Longrightarrow> kget (cos_by_policy s) a = Some i \<Longrightarrow> 0 < i"
  using registered_corporation [of s a i] co_inv_id [of s i] by auto

text \<open>A member that was withdrawn, or whose first onboarding was cancelled, has lost its record.\<close>

lemma dismissed_served:
  assumes "takes_step now P i e Q" "own_ids P" "served P D" "de_inv D" "narrows D D'"
    and "\<And>p q c oper. kget (pps_participants P) i = Some p \<Longrightarrow> pt_step now e p q \<Longrightarrow> serves D' i c oper \<Longrightarrow>
      standing p \<Longrightarrow> standing q"
  shows "de_inv D' \<and> served Q D'"
  using assms(4,5) served_step [OF assms(1-3) _ assms(6)] by (simp add: narrows_def)

lemma cancel_served:
  assumes h: "CancelParticipantOPLastRequest X w m = Inr w'" and own: "own_ids (pw_pp w)" and de: "de_inv (pw_de w)" "served (pw_pp w) (pw_de w)"
  shows "de_inv (pw_de w') \<and> served (pw_pp w') (pw_de w')"
proof -
  obtain p where p: "kget (pps_participants (pw_pp w)) (op_id m) = Some p"
    using takes_step_get [OF cancel_effect [OF h] own] by metis
  have "pt_id p = op_id m" using own p by (simp add: own_ids_def)
  note d = cancel_de [OF h p this]
  show ?thesis
  proof (rule dismissed_served [OF cancel_effect [OF h] own de(2,1)])
    fix a q c oper assume a: "kget (pps_participants (pw_pp w)) (op_id m) = Some a" "pt_step (pp_now X) Cancelled a q"
      "serves (pw_de w') (op_id m) c oper" "standing a"
    then have r: "pt_op_exp a \<noteq> None" using d [of c oper] p de(1) by auto
    show "standing q" using a(2) by cases (use r a(4) in \<open>auto simp: standing_def withdrawn_def\<close>)
  qed (use d in blast)
qed

lemma revoke_served:
  assumes h: "RevokeParticipant X w m = Inr w'" and own: "own_ids (pw_pp w)" and de: "de_inv (pw_de w)" "served (pw_pp w) (pw_de w)"
  shows "de_inv (pw_de w') \<and> served (pw_pp w') (pw_de w')"
proof -
  obtain p where p: "kget (pps_participants (pw_pp w)) (op_id m) = Some p"
    using takes_step_get [OF revoke_effect [OF h] own] by metis
  have "pt_id p = op_id m" using own p by (simp add: own_ids_def)
  note d = revoke_de [OF h p this]
  show ?thesis
  proof (rule dismissed_served [OF revoke_effect [OF h] own de(2,1)])
    fix a q c oper assume a: "kget (pps_participants (pw_pp w)) (op_id m) = Some a" "pt_step (pp_now X) Revoked a q"
      "serves (pw_de w') (op_id m) c oper" "standing a"
    then have r: "\<not> credential_role (pt_role a)" using d [of c oper] p de(1) by auto
    show "standing q" using a(2) by cases (use r a(4) in \<open>auto simp: standing_def\<close>)
  qed (use d in blast)
qed

lemma slash_served:
  assumes h: "SlashParticipantTrustDeposit X w m = Inr w'" and own: "own_ids (pw_pp w)" and de: "de_inv (pw_de w)" "served (pw_pp w) (pw_de w)"
  shows "de_inv (pw_de w') \<and> served (pw_pp w') (pw_de w')"
proof -
  obtain p where p: "kget (pps_participants (pw_pp w)) (sh_id m) = Some p"
    using takes_step_get [OF slash_effect [OF h] own] by metis
  have "pt_id p = sh_id m" using own p by (simp add: own_ids_def)
  note d = slash_de [OF h p this]
  show ?thesis
  proof (rule dismissed_served [OF slash_effect [OF h] own de(2,1)])
    fix a q c oper assume a: "kget (pps_participants (pw_pp w)) (sh_id m) = Some a" "pt_step (pp_now X) Slashed a q"
      "serves (pw_de w') (sh_id m) c oper" "standing a"
    then have r: "\<not> credential_role (pt_role a)" using d [of c oper] p de(1) by auto
    show "standing q" using a(2) by cases (use r a(4) in \<open>auto simp: standing_def\<close>)
  qed (use d in blast)
qed

text \<open>What the creating messages need of the state they start from.\<close>

definition sound :: "'b pp_env \<Rightarrow> 'b pp_world \<Rightarrow> bool" where
  "sound X w \<longleftrightarrow> de_inv (pw_de w) \<and> served (pw_pp w) (pw_de w) \<and>
     (\<forall>j. kget (pps_participants (pw_pp w)) j \<noteq> None \<longrightarrow> j \<le> pp_last_id (pw_pp w)) \<and>
     (\<forall>a c. kget (cos_by_policy (pe_co X)) a = Some c \<longrightarrow> 0 < c)"

lemma sound_granted:
  assumes "sound X w" "grant_vs_request X (w2\<lparr>pw_pp := add_participant (pw_pp w) p\<rparr>) corp v i u = Inr w'"
    and "i = Suc (pp_last_id (pw_pp w))" "pw_de w2 = pw_de w" "kget (cos_by_policy (pe_co X)) a = Some corp"
    and "pt_corp p = corp" "pt_vs_operator p = vr_operator v" "standing p"
  shows "de_inv (pw_de w') \<and> served (pw_pp w') (pw_de w')"
  using assms(1,5) unfolding sound_def
  by (intro granted_served [OF assms(2-4) _ _ _ _ assms(6-8)]) auto

lemma start_served:
  assumes "sound X w" "StartParticipantOP X w m = Inr (i, w')"
  shows "de_inv (pw_de w') \<and> served (pw_pp w') (pw_de w')"
proof -
  from start_creates [OF assms(2)] obtain v corp f d w2 where n: "i = Suc (pp_last_id (pw_pp w))"
      "kget (cos_by_policy (pe_co X)) (sp_corporation m) = Some corp" "pw_de w2 = pw_de w"
      "grant_vs_request X (w2\<lparr>pw_pp := add_participant (pw_pp w) (new_applicant (pp_now X) m v corp f d)\<rparr>) corp
        (sp_vs m) i (Some (pp_now X)) = Inr w'" by blast
  show ?thesis by (rule sound_granted [OF assms(1) n(4,1,3,2) _ _ new_standing(1)]) (simp_all add: new_applicant_def)
qed

lemma root_served:
  assumes "sound X w" "CreateRootParticipant X w m = Inr (i, w')"
  shows "de_inv (pw_de w') \<and> served (pw_pp w') (pw_de w')"
proof -
  from root_creates [OF assms(2)] obtain corp where n: "i = Suc (pp_last_id (pw_pp w))"
      "kget (cos_by_policy (pe_co X)) (rt_corporation m) = Some corp"
      "grant_vs_request X (w\<lparr>pw_pp := add_participant (pw_pp w) (new_root (pp_now X) m corp)\<rparr>) corp (rt_vs m) i
        (rt_until m) = Inr w'" by blast
  show ?thesis by (rule sound_granted [OF assms(1) n(3,1) refl n(2) _ _ new_standing(2)]) (simp_all add: new_root_def)
qed

lemma self_served:
  assumes "sound X w" "SelfCreateParticipant X w m = Inr (i, w')"
  shows "de_inv (pw_de w') \<and> served (pw_pp w') (pw_de w')"
proof -
  from self_creates [OF assms(2)] obtain v corp f where n: "i = Suc (pp_last_id (pw_pp w))"
      "kget (cos_by_policy (pe_co X)) (sf_corporation m) = Some corp"
      "grant_vs_request X (w\<lparr>pw_pp := add_participant (pw_pp w) (new_self (pp_now X) m v corp f)\<rparr>) corp
        (sf_vs m) i (sf_until m) = Inr w'" by blast
  show ?thesis by (rule sound_granted [OF assms(1) n(3,1) refl n(2) _ _ new_standing(3)]) (simp_all add: new_self_def)
qed

lemma session_served:
  assumes "CreateOrUpdateParticipantSession X w m = Inr w'" "own_ids (pw_pp w)" "de_inv (pw_de w)"
    and "served (pw_pp w) (pw_de w)"
  shows "de_inv (pw_de w') \<and> served (pw_pp w') (pw_de w')"
proof -
  from session_effect [OF assms(1,2)] obtain S where
    c: "credits (pw_pp w) S" "createOrUpdateSession X S m = Inr (pw_pp w')" by blast
  have "pps_participants (pw_pp w') = pps_participants S" using c(2)
    by (auto simp: createOrUpdateSession_def Let_def bindE_ok_iff dest!: sym [of _ "pw_pp w'"])
  then show ?thesis using served_credits [OF assms(4) c(1)] session_de [OF assms(1)] assms(3) by (simp add: narrows_def)
qed

lemma message_served:
  assumes inv: "pp_inv uuid_ok t r s (pw_pp w)" and link: "pp_linked X r s" and co: "co_inv (rg_co r)"
    and exec: "pp_exec uuid_ok gov X w op = Inr w'"
    and de: "de_inv (pw_de w)" "served (pw_pp w) (pw_de w)"
  shows "de_inv (pw_de w') \<and> served (pw_pp w') (pw_de w')"
proof -
  note own = pp_inv_own [OF inv]
  have sound: "sound X w" using de pp_inv_participant [OF inv] policy_positive [OF co] link
    by (auto simp: sound_def pp_linked_def)
  have keep: ?thesis
    if "takes_step (pp_now X) (pw_pp w) i e (pw_pp w')" "narrows (pw_de w) (pw_de w')" "e \<noteq> Cancelled" "e \<noteq> Revoked" "e \<noteq> Slashed" for i e
    using served_narrow [OF that(1) own de(2,1) that(2-5)] that(2) de(1) by (simp add: narrows_def)
  note x = exec [unfolded pp_exec_def]
  show ?thesis
  proof (cases op)
    case (Pp_Renew m)
    then have h: "RenewParticipantOP X w m = Inr w'" using x by (simp add: bindE_unit_ok_iff)
    then show ?thesis using keep [OF renew_effect [OF h]] renew_de [OF h] by simp
  next
    case (Pp_Validate m)
    then have "SetParticipantOPToValidated X w m = Inr w'" using x by (simp add: bindE_unit_ok_iff)
    then show ?thesis using keep [OF validate_effect validate_de] by simp
  next
    case (Pp_Set_Until m)
    then have "SetParticipantEffectiveUntil X w m = Inr w'" using x by (simp add: bindE_unit_ok_iff)
    then show ?thesis using keep [OF set_until_effect set_until_de] by simp
  next
    case (Pp_Repay m)
    then have h: "RepayParticipantSlashedTrustDeposit X w m = Inr w'" using x by (simp add: bindE_unit_ok_iff)
    then show ?thesis using keep [OF repay_effect [OF h]] repay_de [OF h] by simp
  next
    case (Pp_Update_Params signer d)
    then show ?thesis using x de by (auto simp: pp_UpdateParams_def served_def bindE_unit_ok_iff result_simps)
  qed (use x start_served [OF sound] root_served [OF sound] self_served [OF sound] cancel_served [OF _ own de]
      revoke_served [OF _ own de] slash_served [OF _ own de] session_served [OF _ own de] in
      \<open>auto simp: bindE_unit_ok_iff bindE_ok_iff\<close>)
qed

section \<open>The chain of participants and delegations\<close>

text \<open>The participant messages run on the delegations of the chain; grants, revocations and
  spends of x/de and the ticks of the registries and schemas come in between in any order.\<close>

inductive op_reach ::
  "coins_ops \<Rightarrow> 'b bank_ops \<Rightarrow> (string \<Rightarrow> bool) \<Rightarrow> time \<Rightarrow> registry \<Rightarrow> 'g \<Rightarrow> cs_state \<Rightarrow> pp_state \<Rightarrow> de_state \<Rightarrow> bool"
  for CN :: coins_ops and B :: "'b bank_ops" and uuid_ok :: "string \<Rightarrow> bool" where
  op_init: "zero_time < t \<Longrightarrow> op_reach CN B uuid_ok t rg_empty grp cs_empty pp_empty de_empty"
| op_around: "op_reach CN B uuid_ok t r grp s P D \<Longrightarrow> pp_tick CN B uuid_ok (t, r, grp, s, P) (u, r', grp', s', P) \<Longrightarrow>
    op_reach CN B uuid_ok u r' grp' s' P D"
| op_message: "op_reach CN B uuid_ok t r grp s P D \<Longrightarrow> t \<le> pp_now Z \<Longrightarrow> pp_linked Z r s \<Longrightarrow> pe_bank Z = B \<Longrightarrow>
    pw_pp w = P \<Longrightarrow> pw_de w = D \<Longrightarrow> pp_exec uuid_ok gov Z w pop = Inr w' \<Longrightarrow>
    op_reach CN B uuid_ok (pp_now Z) r grp s (pw_pp w') (pw_de w')"
| op_grant: "op_reach CN B uuid_ok t r grp s P D \<Longrightarrow> t \<le> now \<Longrightarrow>
    GrantOperatorAuthorization CN (resolve_id (rg_co r)) now D m = Inr D' \<Longrightarrow> op_reach CN B uuid_ok t r grp s P D'"
| op_revoke: "op_reach CN B uuid_ok t r grp s P D \<Longrightarrow> t \<le> now \<Longrightarrow>
    RevokeOperatorAuthorization (resolve_id (rg_co r)) now D v = Inr D' \<Longrightarrow> op_reach CN B uuid_ok t r grp s P D'"
| op_spend: "op_reach CN B uuid_ok t r grp s P D \<Longrightarrow> t \<le> now \<Longrightarrow>
    CheckOperatorAuthorizationWithSpend CN (resolve_id (rg_co r)) D c oper mt now spend = Inr D' \<Longrightarrow>
    op_reach CN B uuid_ok t r grp s P D'"

lemma op_reach_participants: "op_reach CN B uuid_ok t r grp s P D \<Longrightarrow> pp_reach CN B uuid_ok t r grp s P"
proof (induction rule: op_reach.induct)
  case (op_message t r grp s P D Z w gov pop w')
  then show ?case by (blast intro: pp_next tick_message)
qed (blast intro: pp_init pp_next)+

text \<open>The operator messages of x/de leave the service operators alone.\<close>

lemma grant_oa_vsoas:
  assumes "GrantOperatorAuthorization CN res now D m = Inr D'"
  shows "des_vsoas D' = des_vsoas D"
proof -
  obtain c found where f: "getOAByCorpOp D c (go_grantee m) = Inr found"
      "(let (i, s1) = (case found of Some a \<Rightarrow> (oa_id a, D) | None \<Rightarrow> nextOAID D);
           s2 = put_oper_auth s1 c m i
       in if \<not> go_with_feegrant m then RevokeFeeAllowance s2 c (go_grantee m)
          else GrantFeeAllowance CN s2 now c (go_grantee m) (go_msg_types m) (go_expiration m)
                 (go_fee_limit m) (go_fee_period m)) = Inr D'"
    using assms by (auto simp: GrantOperatorAuthorization_def bindE_unit_ok_iff bindE_ok_iff optE_ok_iff if_Inl_ok_iff)
  have "des_vsoas (put_oper_auth (snd (nextOAID D)) c m i) = des_vsoas D" "des_vsoas (put_oper_auth D c m i) = des_vsoas D" for i
    by (simp_all add: put_oper_auth_def nextOAID_def Let_def)
  then show ?thesis using f(2)
    by (cases found) (auto simp: Let_def split: if_splits prod.splits dest!: RevokeFeeAllowance_effect GrantFeeAllowance_effect)
qed

lemma revoke_oa_vsoas:
  assumes "RevokeOperatorAuthorization res now D m = Inr D'"
  shows "des_vsoas D' = des_vsoas D"
  using assms
  by (auto simp: RevokeOperatorAuthorization_def bindE_unit_ok_iff bindE_ok_iff optE_ok_iff split: option.splits
      dest!: RevokeFeeAllowance_effect)

lemma spend_vsoas:
  assumes "CheckOperatorAuthorizationWithSpend CN res D c oper mt now spend = Inr D'"
  shows "des_vsoas D' = des_vsoas D"
proof -
  obtain x where "checkOperatorAuthorizationCore res D c oper mt now = Inr x"
    using assms by (auto simp: CheckOperatorAuthorizationWithSpend_def bindE_ok_iff)
  with assms show ?thesis
    by (auto simp: CheckOperatorAuthorizationWithSpend_def Let_def split: if_splits option.splits)
qed

lemma op_reach_served: "op_reach CN B uuid_ok t r grp s P D \<Longrightarrow> de_inv D \<and> served P D"
proof (induction rule: op_reach.induct)
  case (op_init t grp)
  then show ?case using de_inv_empty by (simp add: served_def serves_def) (simp add: de_empty_def)
next
  case (op_message t r grp s P D Z w gov pop w')
  have reach: "pp_reach CN B uuid_ok t r grp s P" by (rule op_reach_participants [OF op_message.hyps(1)])
  show ?case
    using message_served [OF _ op_message.hyps(3) pp_reach_co [OF reach] op_message.hyps(7)] pp_reach_inv [OF reach]
      op_message.hyps(5,6) op_message.IH by simp
next
  case (op_grant t r grp s P D now m D')
  have co: "co_inv (rg_co r)" by (rule pp_reach_co [OF op_reach_participants [OF op_grant.hyps(1)]])
  show ?case using de_inv_grant_oa [OF _ corp_resolver_inv [OF co] op_grant.hyps(3)] op_grant.IH
      serves_same [OF grant_oa_vsoas [OF op_grant.hyps(3)]] by (simp add: served_def)
next
  case (op_revoke t r grp s P D now v D')
  then show ?case using de_inv_revoke_oa [OF _ op_revoke.hyps(3)]
      serves_same [OF revoke_oa_vsoas [OF op_revoke.hyps(3)]] by (simp add: served_def)
next
  case (op_spend t r grp s P D now c oper mt spend D')
  then show ?case using de_inv_check_spend [OF _ op_spend.hyps(3)]
      serves_same [OF spend_vsoas [OF op_spend.hyps(3)]] by (simp add: served_def)
qed

text \<open>C5 service_operator_bound: on every state the participant and delegation messages reach
  together, an operator passes the check for acting on a participant only if the participant
  exists, belongs to the corporation the operator acts for and named this very operator, and
  only while its onboarding is not terminated and, for an issuer or a verifier, while it is
  neither revoked nor slashed.\<close>

theorem service_operator_bound:
  assumes "op_reach CN B uuid_ok t r grp s P D"
    and "CheckVSOperatorAuthorizationOnParticipant now D c oper i mt = Inr D'"
  shows "\<exists>p. kget (pps_participants P) i = Some p \<and> pt_corp p = c \<and> pt_vs_operator p = oper \<and>
    pt_op_state p \<noteq> TERMINATED \<and> (pt_role p = ISSUER \<or> pt_role p = VERIFIER \<longrightarrow> \<not> withdrawn p)"
proof -
  have "serves D i c oper" using check_vs_serves [OF assms(2)] by blast
  then obtain p where "kget (pps_participants P) i = Some p" "pt_corp p = c" "pt_vs_operator p = oper" "standing p"
    using servedE op_reach_served [OF assms(1)] by metis
  then show ?thesis by (auto simp: standing_def credential_role_def)
qed

section \<open>A sample chain\<close>

text \<open>Two grants give both corporations their operator; then the owner of the ecosystem creates
  a root whose service operator may validate until 1000.\<close>

definition sample_grant_all :: "string \<Rightarrow> msg_grant_oa" where
  "sample_grant_all c = \<lparr>go_corporation = c, go_operator = [], go_grantee = ''o'', go_msg_types = VPRDelegableMsgTypes,
     go_expiration = None, go_spend_limit = [], go_spend_period = None, go_with_feegrant = False,
     go_fee_limit = [], go_fee_period = None, go_fee_spend_limit = []\<rparr>"

definition sample_delegation :: de_state where
  "sample_delegation = de_empty\<lparr>des_oas := kset kempty 1 (sample_operator 1),
     des_oa_index := kset kempty (1, ''o'') 1, des_oa_seq := 1\<rparr>"

lemma kremove_kempty: "kremove kempty k = kempty"
  by (rule store_eqI) (simp add: kget_kremove)

lemma sample_grants:
  "GrantOperatorAuthorization list_coins (resolve_id sample_co) 20 de_empty (sample_grant_all ''p'') = Inr sample_delegation"
  "GrantOperatorAuthorization list_coins (resolve_id sample_co) 20 sample_delegation (sample_grant_all ''pp'') =
     Inr sample_delegations"
proof -
  have "resolve_id sample_co ''p'' = Some 1" "resolve_id sample_co ''pp'' = Some 2"
    by (auto simp: resolve_id_def ResolveCorporationByPolicyAddress_def optE_def sample_co_def add_corporation_get
        new_corporation_def)
  then show
    "GrantOperatorAuthorization list_coins (resolve_id sample_co) 20 de_empty (sample_grant_all ''p'') = Inr sample_delegation"
    "GrantOperatorAuthorization list_coins (resolve_id sample_co) 20 sample_delegation (sample_grant_all ''pp'') =
       Inr sample_delegations"
    by (simp_all add: GrantOperatorAuthorization_def sample_grant_all_def expired_def getOAByCorpOp_def nextOAID_def
        de_empty_def RevokeFeeAllowance_def put_oper_auth_def sample_delegation_def sample_delegations_def
        CheckOperatorAuthorization_def checkOperatorAuthorizationCore_def sample_operator_def kremove_kempty numeral_2_eq_2)
qed

lemma op_reach_start: "sch_reach CN t r grp s \<Longrightarrow> op_reach CN B uuid_ok t r grp s pp_empty de_empty"
proof (induction rule: sch_reach.induct)
  case (sch_init t grp)
  then show ?case by (rule op_init)
next
  case (sch_registry t r grp s X op r' grp')
  then show ?case by (blast intro: op_around tick_registry)
next
  case (sch_schema t r grp s Y cop gov s')
  then show ?case by (blast intro: op_around tick_schema)
qed

lemma sample_op_start: "op_reach list_coins sample_bank sample_uuid 20 sample_rg ''pp'' sample_cs pp_empty sample_delegations"
proof -
  have rg: "rg_co sample_rg = sample_co" by (simp add: sample_rg_def)
  have "op_reach list_coins sample_bank sample_uuid 20 sample_rg ''pp'' sample_cs pp_empty sample_delegation"
    by (rule op_grant [OF op_reach_start [OF sample_sch_reach] order_refl sample_grants(1) [folded rg]])
  then show ?thesis by (rule op_grant [OF _ order_refl sample_grants(2) [folded rg]])
qed

definition sample_vs :: vs_request where
  "sample_vs = \<lparr>vr_operator = ''v'', vr_msg_types = [''/verana.pp.v1.MsgSetParticipantOPToValidated''], vr_spend_limit = [],
     vr_with_feegrant = False, vr_fee_spend_limit = [], vr_period = None\<rparr>"

definition sample_vs_root :: msg_root_pp where
  "sample_vs_root = sample_root\<lparr>rt_until := Some 1000, rt_vs := sample_vs\<rparr>"

lemma sample_vs_msg_ok: "validate_root_pp (sample_sdk 30) sample_vs_root = Inr ()"
  by (simp add: validate_root_pp_def signers_ok_def sample_msgs sample_vs_root_def sample_vs_def any_vs_param_def) code_simp

definition sample_vs_record :: pa_record where
  "sample_vs_record = \<lparr>pr_participant = 1, pr_msg_types = vr_msg_types sample_vs, pr_spend_limit = [],
     pr_remaining_spend = [], pr_fee_spend_limit = [], pr_remaining_fee_spend = [], pr_with_feegrant = False,
     pr_expiration = Some 1000, pr_period = None\<rparr>"

definition sample_vs_de :: de_state where
  "sample_vs_de = sample_delegations\<lparr>
     des_vsoas := kset kempty 1 \<lparr>vs_id = 1, vs_corp = 1, vs_oper = ''v'', vs_records = [sample_vs_record]\<rparr>,
     des_vs_index := kset kempty (1, ''v'') 1, des_vs_participant := kset kempty 1 1, des_vs_seq := 1\<rparr>"

lemma sample_vs_grant:
  "GrantVSOperatorAuthorization list_coins 30 sample_delegations 1 ''v'' sample_vs_record = Inr sample_vs_de"
  by (simp add: GrantVSOperatorAuthorization_def sample_vs_record_def sample_vs_def msg_delegable_def VPRDelegableMsgTypes_def
      sample_delegations_def de_empty_def getVSOAByCorpOp_def nextVSOAID_def recomputeFeeAllowance_def recompute_scan_def
      recompute_step_def fee_live_def RevokeFeeAllowance_def sample_vs_de_def walk_def kget_kset khas_def)

lemma sample_vs_check:
  "CheckVSOperatorAuthorizationOnParticipant 50 sample_vs_de 1 ''v'' 1 ''/verana.pp.v1.MsgSetParticipantOPToValidated'' =
     Inr sample_vs_de"
  by (simp add: CheckVSOperatorAuthorizationOnParticipant_def sample_vs_de_def sample_vs_record_def sample_vs_def after_def)

definition sample_vs_p :: participant where
  "sample_vs_p = (new_root 30 sample_vs_root 1)\<lparr>pt_id := 1\<rparr>"

lemma sample_vs_exec:
  "pp_exec sample_uuid gov (sample_pe 30) (sample_pw pp_empty) (Pp_Root sample_vs_root) =
     Inr ((sample_pw (sample_P 1 [sample_vs_p]))\<lparr>pw_de := sample_vs_de\<rparr>)"
proof -
  have sel: "rt_corporation sample_vs_root = ''p''" "rt_operator sample_vs_root = ''o''" "rt_schema_id sample_vs_root = 1"
      "rt_from sample_vs_root = Some 40" "rt_until sample_vs_root = Some 1000" "rt_vs sample_vs_root = sample_vs"
    by (simp_all add: sample_vs_root_def sample_root_def)
  have none: "walk (pps_participants pp_empty) = []" "pp_last_id pp_empty = 0"
    by (simp_all add: pp_empty_def walk_def pp_last_id_def)
  have grant: "grant_vs_request (sample_pe 30) (sample_pw P) 1 sample_vs 1 (Some 1000) =
      Inr ((sample_pw P)\<lparr>pw_de := sample_vs_de\<rparr>)" for P
    using sample_vs_grant by (simp add: grant_vs_request_def sample_vs_record_def) (simp add: sample_vs_def)
  have "CreateRootParticipant (sample_pe 30) (sample_pw pp_empty) sample_vs_root =
      Inr (1, (sample_pw (sample_P 1 [sample_vs_p]))\<lparr>pw_de := sample_vs_de\<rparr>)"
    using sample_lookups grant
    by (simp add: CreateRootParticipant_def sel sample_authorized VPRDelegableMsgTypes_def
        validateCreateRootParticipantBasicChecks_def validateCreateRootParticipantAuthority_def new_ecosystem_def
        checkCreateRootParticipantOverlap_def sample_account executeCreateRootParticipant_def create_in_eq
        assertDIDCorporationConsistent_def sample_P_empty sample_vs_p_def none)
  then show ?thesis using sample_vs_msg_ok by (simp add: pp_exec_def)
qed

lemma sample_op_root:
  "op_reach list_coins sample_bank sample_uuid 30 sample_rg ''pp'' sample_cs (sample_P 1 [sample_vs_p]) sample_vs_de"
  using op_message [OF sample_op_start, of "sample_pe 30" "sample_pw pp_empty" "''g''" "Pp_Root sample_vs_root"]
    sample_vs_exec by simp

theorem service_operator_bound_witness:
  "\<exists>p. kget (pps_participants (sample_P 1 [sample_vs_p])) 1 = Some p \<and> pt_corp p = 1 \<and> pt_vs_operator p = ''v''"
  using service_operator_bound [OF sample_op_root sample_vs_check] by blast

section \<open>Who keeps an operator after a withdrawal\<close>

text \<open>A revocation or a slash dismisses the service operator of an issuer or a verifier, and of
  nobody else: the operator of a root, a grantor or a holder keeps its record and its fee
  grant until they expire.\<close>

theorem only_credential_roles_dismissed:
  assumes "op_reach CN B uuid_ok t r grp s P D" "pw_pp w = P" "pw_de w = D"
    and "op = Pp_Revoke rm \<and> op_id rm = i \<or> op = Pp_Slash sm \<and> sh_id sm = i"
    and "pp_exec uuid_ok gov X w op = Inr w'" "kget (pps_participants P) i = Some p"
  shows "if pt_role p = ISSUER \<or> pt_role p = VERIFIER then \<forall>c oper. \<not> serves (pw_de w') i c oper else pw_de w' = D"
proof -
  have inv: "pp_inv uuid_ok t r s P" by (rule pp_reach_inv [OF op_reach_participants [OF assms(1)]])
  have id: "pt_id p = i" using pp_inv_participant [OF inv assms(6)] by blast
  have de: "de_inv (pw_de w)" using op_reach_served [OF assms(1)] assms(3) by simp
  have "(credential_role (pt_role p) \<longrightarrow> \<not> serves (pw_de w') i c oper) \<and>
      (\<not> credential_role (pt_role p) \<longrightarrow> pw_de w' = pw_de w)" for c oper
    using assms(4)
  proof
    assume h: "op = Pp_Revoke rm \<and> op_id rm = i"
    then have "RevokeParticipant X w rm = Inr w'" using assms(5) by (simp add: pp_exec_def bindE_unit_ok_iff)
    from revoke_de [OF this, of p c oper] show ?thesis using assms(2,6) h id de by simp
  next
    assume h: "op = Pp_Slash sm \<and> sh_id sm = i"
    then have "SlashParticipantTrustDeposit X w sm = Inr w'" using assms(5) by (simp add: pp_exec_def bindE_unit_ok_iff)
    from slash_de [OF this, of p c oper] show ?thesis using assms(2,6) h id de by simp
  qed
  then show ?thesis using assms(3) by (simp add: credential_role_def)
qed

text \<open>A validation that sets no end leaves the delegations as they are: the record a start put in
  with its own block time as expiration stays expired.\<close>

theorem endless_validation_keeps_records:
  assumes "SetParticipantOPToValidated X w m = Inr w'" "own_ids (pw_pp w)"
    and "kget (pps_participants (pw_pp w')) (vd_id m) = Some q" "pt_until q = None"
  shows "pw_de w' = pw_de w"
proof -
  from assms(1) obtain p v x u where p: "kget (pps_participants (pw_pp w)) (vd_id m) = Some p"
      and e: "executeSetParticipantVPToValidated X w p v m x u = Inr w'"
    by (auto simp: SetParticipantOPToValidated_def GetParticipantByID_def bindE_unit_ok_iff result_simps Let_def)
  have "pt_id p = vd_id m" using assms(2) p by (simp add: own_ids_def)
  with e assms(3,4) have "u = None"
    by (auto simp: executeSetParticipantVPToValidated_def Let_def result_simps validated_participant_def kget_kset
        split: option.splits if_splits dest!: take_pp delegation_pp)
  with e show ?thesis
    by (auto simp: executeSetParticipantVPToValidated_def Let_def result_simps validated_participant_def
        split: option.splits if_splits dest!: takes_de)
qed

end
