(* ===== verification/Participant_Sessions.thy ===== *)
theory Participant_Sessions
imports Participant_Services Participant_Safety
begin

text \<open>
  What an accepted session implies and leaves: who signed it, for which parties, with which
  agents, and the record it appends.
\<close>

section \<open>Preconditions\<close>

text \<open>A party of the session: absent, or a valid participant in its role whose corporation signs
  and whose service operator operates.\<close>

definition acts_for :: "pp_state \<Rightarrow> time \<Rightarrow> nat \<Rightarrow> string \<Rightarrow> int \<Rightarrow> nat \<Rightarrow> bool" where
  "acts_for P now corp oper role i \<longleftrightarrow> i = 0 \<or>
     (\<exists>p. kget (pps_participants P) i = Some p \<and> pt_role p = role \<and> IsValidParticipant p now = Inr () \<and>
        pt_corp p = corp \<and> pt_vs_operator p = oper)"

definition valid_issuer :: "pp_state \<Rightarrow> time \<Rightarrow> nat \<Rightarrow> bool" where
  "valid_issuer P now i \<longleftrightarrow>
     (\<exists>p. kget (pps_participants P) i = Some p \<and> pt_role p = ISSUER \<and> IsValidParticipant p now = Inr ())"

definition past_records :: "pp_state \<Rightarrow> string \<Rightarrow> session_record list" where
  "past_records P k = (case kget (pps_sessions P) k of None \<Rightarrow> [] | Some x \<Rightarrow> ss_records x)"

lemma acts_for_nobody [simp]: "acts_for P now corp oper role 0"
  by (simp add: acts_for_def)

text \<open>An account and an id that resolve to each other.\<close>

lemma account_corporation:
  assumes "co_inv (pe_co X)" "corpAccountFromID X i = Inr a" "corpIDFromAccount X a = Inr c"
  shows "i = c"
proof -
  obtain x where x: "kget (cos_corporations (pe_co X)) i = Some x" "co_policy_address x = a"
    using assms(2) by (auto simp: corpAccountFromID_def result_simps)
  have "kget (cos_by_policy (pe_co X)) (co_policy_address x) = Some i"
    using co_pol.index_lookup [OF co_inv_policy [OF assms(1)] x(1)] by simp
  then show ?thesis using assms(3) x(2) by (simp add: corpIDFromAccount_def result_simps)
qed

lemma session_party_acts:
  assumes "session_party X P m i role = Inr p" "co_inv (pe_co X)" "corpIDFromAccount X (mn_corporation m) = Inr corp" "own_ids P"
  shows "acts_for P (pp_now X) corp (mn_operator m) role i \<and> pt_id p = i"
proof -
  from assms(1) have p: "kget (pps_participants P) i = Some p" "pt_role p = role" "IsValidParticipant p (pp_now X) = Inr ()"
      "pt_vs_operator p = mn_operator m" "corpAccountFromID X (pt_corp p) = Inr (mn_corporation m)"
    by (auto simp: session_party_def GetParticipantByID_def bindE_unit_ok_iff result_simps)
  then show ?thesis using account_corporation [OF assms(2) p(5) assms(3)] assms(4) by (auto simp: acts_for_def own_ids_def)
qed

lemma session_agent_valid: "session_agent X P i = Inr () \<Longrightarrow> valid_issuer P (pp_now X) i"
  by (auto simp: session_agent_def valid_issuer_def GetParticipantByID_def result_simps)

lemma preconditions_accept:
  assumes "validateSessionPreconditions X w m = Inr w1" "co_inv (pe_co X)" "own_ids (pw_pp w)"
  shows "\<exists>corp. corpIDFromAccount X (mn_corporation m) = Inr corp \<and> validateSessionAccess X (pw_pp w) m = Inr () \<and>
    (mn_issuer m \<noteq> 0 \<or> mn_verifier m \<noteq> 0) \<and>
    acts_for (pw_pp w) (pp_now X) corp (mn_operator m) ISSUER (mn_issuer m) \<and>
    acts_for (pw_pp w) (pp_now X) corp (mn_operator m) VERIFIER (mn_verifier m) \<and>
    valid_issuer (pw_pp w) (pp_now X) (mn_agent m) \<and> valid_issuer (pw_pp w) (pp_now X) (mn_wallet_agent m) \<and>
    serves (pw_de w) (executor_id m) corp (mn_operator m)"
proof -
  from assms(1) obtain a b corp de where ne: "\<not> (mn_issuer m = 0 \<and> mn_verifier m = 0)"
      and access: "validateSessionAccess X (pw_pp w) m = Inr ()"
      and i: "(if mn_issuer m \<noteq> 0 then bindE (session_party X (pw_pp w) m (mn_issuer m) ISSUER) (\<lambda>p. Inr (pt_id p))
               else Inr 0) = Inr a"
      and v: "(if mn_verifier m \<noteq> 0 then bindE (session_party X (pw_pp w) m (mn_verifier m) VERIFIER) (\<lambda>p. Inr (pt_id p))
               else Inr a) = Inr b"
      and corp: "corpIDFromAccount X (mn_corporation m) = Inr corp"
      and de: "CheckVSOperatorAuthorizationOnParticipant (pp_now X) (pw_de w) corp (mn_operator m) b session_msg_type = Inr de"
      and ag: "session_agent X (pw_pp w) (mn_agent m) = Inr ()" "session_agent X (pw_pp w) (mn_wallet_agent m) = Inr ()"
    unfolding validateSessionPreconditions_def Let_def
    by (auto simp only: bindE_ok_iff bindE_unit_ok_iff if_Inl_ok_iff liftE_ok_iff) auto
  have issuer: "acts_for (pw_pp w) (pp_now X) corp (mn_operator m) ISSUER (mn_issuer m) \<and> a = mn_issuer m"
    using i session_party_acts [OF _ assms(2) corp assms(3)]
    by (cases "mn_issuer m = 0") (auto simp: bindE_ok_iff)
  have verifier: "acts_for (pw_pp w) (pp_now X) corp (mn_operator m) VERIFIER (mn_verifier m) \<and> b = executor_id m"
    using v issuer session_party_acts [OF _ assms(2) corp assms(3)]
    by (cases "mn_verifier m = 0") (auto simp: bindE_ok_iff executor_id_def)
  show ?thesis using ne access issuer verifier corp session_agent_valid [OF ag(1)] session_agent_valid [OF ag(2)]
      check_vs_serves [OF de] by blast
qed

section \<open>The record\<close>

text \<open>C13 session_accepted: an accepted session was signed for a registered corporation; its issuer
  and its verifier, of which at least one is named, are valid participants in these roles of
  this corporation, with the signing operator as their service operator; both agents are valid
  issuers; the delegations hold a record of the operator for the participant that executes the
  session; the session belongs to the same corporation and operator as before, and gains
  exactly one record, with the named parties and agents at the block time; no other session
  changes.\<close>

theorem session_accepted:
  assumes "pp_reach CN B uuid_ok t r grp s (pw_pp w)" "pp_linked X r s" "CreateOrUpdateParticipantSession X w m = Inr w'"
  shows "\<exists>corp x y. kget (cos_by_policy (rg_co r)) (mn_corporation m) = Some corp \<and>
    (mn_issuer m \<noteq> 0 \<or> mn_verifier m \<noteq> 0) \<and>
    acts_for (pw_pp w) (pp_now X) corp (mn_operator m) ISSUER (mn_issuer m) \<and>
    acts_for (pw_pp w) (pp_now X) corp (mn_operator m) VERIFIER (mn_verifier m) \<and>
    valid_issuer (pw_pp w) (pp_now X) (mn_agent m) \<and> valid_issuer (pw_pp w) (pp_now X) (mn_wallet_agent m) \<and>
    serves (pw_de w) (executor_id m) corp (mn_operator m) \<and>
    pps_sessions (pw_pp w') = kset (pps_sessions (pw_pp w)) (mn_id m) x \<and> ss_corp x = corp \<and>
    ss_vs_operator x = mn_operator m \<and> ss_records x = past_records (pw_pp w) (mn_id m) @ [y] \<and>
    sr_issuer y = mn_issuer m \<and> sr_verifier y = mn_verifier m \<and> sr_agent y = mn_agent m \<and>
    sr_wallet_agent y = mn_wallet_agent m \<and> sr_created y = Some (pp_now X)"
proof -
  have co: "co_inv (pe_co X)" using pp_reach_co [OF assms(1)] assms(2) by (simp add: pp_linked_def)
  have own: "own_ids (pw_pp w)" by (rule pp_inv_own [OF pp_reach_inv [OF assms(1)]])
  from assms(3) obtain w1 where w1: "validateSessionPreconditions X w m = Inr w1"
    by (auto simp: CreateOrUpdateParticipantSession_def bindE_ok_iff)
  from preconditions_accept [OF w1 co own] obtain corp where c: "corpIDFromAccount X (mn_corporation m) = Inr corp"
    "validateSessionAccess X (pw_pp w) m = Inr ()" and rest: "mn_issuer m \<noteq> 0 \<or> mn_verifier m \<noteq> 0"
    "acts_for (pw_pp w) (pp_now X) corp (mn_operator m) ISSUER (mn_issuer m)"
    "acts_for (pw_pp w) (pp_now X) corp (mn_operator m) VERIFIER (mn_verifier m)"
    "valid_issuer (pw_pp w) (pp_now X) (mn_agent m)" "valid_issuer (pw_pp w) (pp_now X) (mn_wallet_agent m)"
    "serves (pw_de w) (executor_id m) corp (mn_operator m)" by blast
  from session_effect [OF assms(3) own] obtain S where S: "credits (pw_pp w) S"
    "createOrUpdateSession X S m = Inr (pw_pp w')" by blast
  have same: "pps_sessions S = pps_sessions (pw_pp w)" using S(1) by (simp add: credits_def)
  let ?x = "case kget (pps_sessions (pw_pp w)) (mn_id m) of
      None \<Rightarrow> \<lparr>ss_id = mn_id m, ss_corp = corp, ss_vs_operator = mn_operator m,
        ss_created = Some (pp_now X), ss_modified = Some (pp_now X), ss_records = []\<rparr>
    | Some old \<Rightarrow> old\<lparr>ss_modified := Some (pp_now X)\<rparr>"
  let ?y = "new_session_record (pp_now X) m ?x"
  have sess: "pps_sessions (pw_pp w') = kset (pps_sessions (pw_pp w)) (mn_id m) (?x\<lparr>ss_records := ss_records ?x @ [?y]\<rparr>)"
    using S(2) c(1) same by (auto simp: createOrUpdateSession_def Let_def dest!: sym [of _ "pw_pp w'"])
  have x: "ss_corp ?x = corp" "ss_vs_operator ?x = mn_operator m" "ss_records ?x = past_records (pw_pp w) (mn_id m)"
    using c by (auto simp: validateSessionAccess_def past_records_def split: option.splits if_splits)
  have "kget (cos_by_policy (rg_co r)) (mn_corporation m) = Some corp"
    using c(1) assms(2) by (simp add: corpIDFromAccount_def pp_linked_def result_simps)
  then show ?thesis using rest sess x
    by (intro exI [of _ corp] exI [of _ "?x\<lparr>ss_records := ss_records ?x @ [?y]\<rparr>"] exI [of _ ?y])
      (simp add: new_session_record_def)
qed

section \<open>A sample session\<close>

text \<open>After the slash of the grantor the issuer runs a session of its own: nobody is left to be
  paid, since the root asks no fee.\<close>

definition sample_session :: msg_session where
  "sample_session = \<lparr>mn_corporation = ''p'', mn_operator = [], mn_id = ''u'', mn_issuer = 3, mn_verifier = 0, mn_agent = 3,
     mn_wallet_agent = 3, mn_digest = []\<rparr>"

lemma sample_session_sel [simp]:
  "mn_corporation sample_session = ''p''" "mn_operator sample_session = []" "mn_id sample_session = ''u''"
  "mn_issuer sample_session = 3" "mn_verifier sample_session = 0" "mn_agent sample_session = 3"
  "mn_wallet_agent sample_session = 3" "mn_digest sample_session = []" "executor_id sample_session = 3"
  by (simp_all add: sample_session_def executor_id_def)

definition sample_session_de :: de_state where
  "sample_session_de = de_empty\<lparr>des_vsoas := kset kempty 1 \<lparr>vs_id = 1, vs_corp = 1, vs_oper = [],
       vs_records = [sample_vs_record\<lparr>pr_participant := 3, pr_msg_types := [session_msg_type]\<rparr>]\<rparr>,
     des_vs_index := kset kempty (1, []) 1, des_vs_participant := kset kempty 3 1, des_vs_seq := 1\<rparr>"

definition sample_session_w :: "ledger pp_world" where
  "sample_session_w = (sample_pw sample_P4)\<lparr>pw_de := sample_session_de\<rparr>"

lemma sample_p3_vs: "pt_vs_operator sample_p3 = []" "IsValidParticipant sample_p3 95 = Inr ()"
    "pt_issuance_fees sample_p1 = 0" "pt_issuance_discount sample_p3 = 2500"
  by (simp_all add: sample_p3_def sample_p3a_def sample_p1_def new_defs validated_participant_def sample_msgs
      IsValidParticipant_def sample_days ns_per_day_def)

lemma sample_preconditions:
  "validateSessionPreconditions (sample_pe 95) sample_session_w sample_session = Inr sample_session_w"
proof -
  have sessions: "pps_sessions sample_P4 = kempty" by (simp add: sample_P4_def sample_P3_def)
  have check: "CheckVSOperatorAuthorizationOnParticipant 95 sample_session_de 1 [] 3 session_msg_type = Inr sample_session_de"
    by (simp add: CheckVSOperatorAuthorizationOnParticipant_def sample_session_de_def de_empty_def sample_vs_record_def after_def)
  show ?thesis
    using check sample_account(1,3)
    by (simp add: validateSessionPreconditions_def validateSessionAccess_def session_party_def session_agent_def sessions
        GetParticipantByID_def sample_P4_get sample_p3_vs sample_session_w_def Let_def del: One_nat_def)
qed

lemma sample_found: "findBeneficiaries (sample_pe 95) sample_P4 3 0 = Inr [sample_p1]"
proof -
  have fuel: "chain_fuel sample_P4 = Suc (Suc (Suc (Suc 0)))"
    by (simp add: chain_fuel_def walk_def sample_P4_def sample_P3_def UpdateParticipant_def)
  show ?thesis
    by (simp add: findBeneficiaries_def GetParticipantByID_def sample_P4_get sample_lookups open_mode_def fuel payable_def
        contains_id_def del: One_nat_def)
qed

lemma sample_session_fees:
  "validateSessionFees (sample_pe 95) sample_session_w sample_session = Inr [sample_p1]"
proof -
  have "total_fees False d [sample_p1] = 0" for d
    by (simp add: total_fees_def session_fee_def sample_p3_vs discounted_def u64_def)
  moreover have "trust_fees (sample_pe 95) (td_DefaultParams ''pool'') 0 = Inr 0"
    by (simp add: trust_fees_def is_u64_def near_div_def dec_one_def)
  moreover have "pw_pp sample_session_w = sample_P4" "pw_td sample_session_w = sample_deposits"
      "has_balance (sample_pe 95) sample_session_w ''p'' 0" "uint64ToInt64 0 = Inr 0"
    by (simp_all add: sample_session_w_def has_balance_def uint64ToInt64_def max_i64_def i64_def)
  ultimately show ?thesis
    by (simp add: validateSessionFees_def sample_found GetParticipantByID_def sample_P4_get)
qed

lemma no_reward [simp]: "pay_reward X w a rate 0 i = Inr w"
  by (simp add: pay_reward_def)

lemma sample_session_exec:
  "\<exists>w. CreateOrUpdateParticipantSession (sample_pe 95) sample_session_w sample_session = Inr w"
proof -
  have "pay_beneficiary (sample_pe 95) sample_session ''p'' (td_DefaultParams ''pool'') d sample_p1
      (sample_session_w, sample_p3, 0, 0) = Inr (sample_session_w, sample_p3, 0, 0)" for d
    by (simp add: pay_beneficiary_def session_fee_def sample_p3_vs)
  moreover have "pw_pp sample_session_w = sample_P4" "pw_td sample_session_w = sample_deposits"
    by (simp_all add: sample_session_w_def)
  ultimately show ?thesis
    using sample_account(1)
    by (simp add: CreateOrUpdateParticipantSession_def sample_preconditions sample_session_fees executeSession_def Let_def
        GetParticipantByID_def sample_P4_get pay_user_agent_def pay_wallet_agent_def
        createOrUpdateSession_def)
qed

theorem session_accepted_witness:
  "\<exists>w' x y. CreateOrUpdateParticipantSession (sample_pe 95) sample_session_w sample_session = Inr w' \<and>
     pps_sessions (pw_pp w') = kset kempty ''u'' x \<and> ss_records x = [y] \<and> sr_issuer y = 3 \<and> sr_created y = Some 95"
proof -
  obtain w' where w': "CreateOrUpdateParticipantSession (sample_pe 95) sample_session_w sample_session = Inr w'"
    using sample_session_exec by blast
  have P: "pw_pp sample_session_w = sample_P4" "pps_sessions sample_P4 = kempty" "past_records sample_P4 ''u'' = []"
    by (simp_all add: sample_session_w_def sample_P4_def sample_P3_def past_records_def)
  have "pp_reach list_coins sample_bank sample_uuid 90 sample_rg ''pp'' sample_cs (pw_pp sample_session_w)"
    using sample_slash_step P(1) by simp
  from session_accepted [OF this _ w'] show ?thesis using w' by (auto simp: P)
qed

end
