(* ===== verification/Trust_Deposit_Migration.thy ===== *)
theory Trust_Deposit_Migration
imports Trust_Deposit_Props
begin

text \<open>
  The in-place migration of the stored trust deposits from version 1, whose share is a
  \<open>uint64\<close>, to version 2, whose share is a decimal (src/x/td/migrations/v2/migrate.go).  The
  migration works on the raw store of the module: byte strings under byte strings, in key
  order.  The wire formats are parameters: \<open>valueCodec\<close> of the current type, and
  \<open>proto.Unmarshal\<close> of the old one.
\<close>

section \<open>The two formats\<close>

record old_deposit =
  ov_account :: string
  ov_share :: int
  ov_amount :: int
  ov_claimable :: int
  ov_slashed :: int
  ov_repaid :: int
  ov_last_slashed :: "time option"
  ov_last_repaid :: "time option"
  ov_slash_count :: int
  ov_last_repaid_by :: string

record td_codec =
  tc_decode :: "string \<Rightarrow> trust_deposit option"
  tc_encode :: "trust_deposit \<Rightarrow> string option"
  tc_decode_old :: "string \<Rightarrow> old_deposit option"

text \<open>The converted entry: the share is cast to \<open>int64\<close>, the last repayer is dropped.\<close>

definition migrated_deposit :: "dec_ops \<Rightarrow> old_deposit \<Rightarrow> trust_deposit" where
  "migrated_deposit D old = \<lparr>td_corp = ov_account old, td_share = dec_of_int D (i64 (ov_share old)),
     td_deposit = ov_amount old, td_claimable = ov_claimable old, td_slashed = ov_slashed old,
     td_repaid = ov_repaid old, td_last_slashed = ov_last_slashed old, td_last_repaid = ov_last_repaid old,
     td_slash_count = ov_slash_count old\<rparr>"

section \<open>The migration\<close>

type_synonym raw_store = "(string, string) store"

text \<open>The bounds of the iterator: the prefix of the deposits and the prefix with its last byte
  incremented.\<close>

definition deposit_prefix :: string where "deposit_prefix = [CHR 0x01]"
definition deposit_end :: string where "deposit_end = [CHR 0x02]"

definition under_prefix :: "string \<Rightarrow> bool" where
  "under_prefix k \<longleftrightarrow> deposit_prefix \<le> k \<and> k < deposit_end"

text \<open>One round of the loop: entries of the current format, entries of neither format and
  entries that cannot be encoded are left alone.\<close>

definition migrate_entry :: "dec_ops \<Rightarrow> td_codec \<Rightarrow> raw_store \<Rightarrow> string \<times> string \<Rightarrow> raw_store" where
  "migrate_entry D C s = (\<lambda>(key, value).
     (case tc_decode C value of
        Some _ \<Rightarrow> s
      | None \<Rightarrow>
     (case tc_decode_old C value of
        None \<Rightarrow> s
      | Some old \<Rightarrow>
     (case tc_encode C (migrated_deposit D old) of
        None \<Rightarrow> s
      | Some encoded \<Rightarrow> kset s key encoded))))"

definition MigrateStore :: "dec_ops \<Rightarrow> td_codec \<Rightarrow> raw_store \<Rightarrow> raw_store" where
  "MigrateStore D C s = foldl (migrate_entry D C) s (filter (\<lambda>(k, _). under_prefix k) (entries s))"

section \<open>What it does to one entry\<close>

definition migrated_value :: "dec_ops \<Rightarrow> td_codec \<Rightarrow> string \<Rightarrow> string" where
  "migrated_value D C v = (case tc_decode C v of Some _ \<Rightarrow> v | None \<Rightarrow> (case tc_decode_old C v of None \<Rightarrow> v
     | Some old \<Rightarrow> (case tc_encode C (migrated_deposit D old) of None \<Rightarrow> v | Some e \<Rightarrow> e)))"

lemma migrate_entry_other: "j \<noteq> k \<Longrightarrow> kget (migrate_entry D C s (k, v)) j = kget s j"
  by (simp add: migrate_entry_def split: option.splits)

lemma migrate_entry_same: "kget s k = Some v \<Longrightarrow> kget (migrate_entry D C s (k, v)) k = Some (migrated_value D C v)"
  by (simp add: migrate_entry_def migrated_value_def split: option.splits)

lemma migrate_entries_get:
  assumes "distinct (map fst xs)" "\<And>k v. (k, v) \<in> set xs \<Longrightarrow> kget s k = Some v"
  shows "kget (foldl (migrate_entry D C) s xs) j =
    (case map_of xs j of None \<Rightarrow> kget s j | Some v \<Rightarrow> Some (migrated_value D C v))"
  using assms
proof (induction xs arbitrary: s)
  case (Cons x xs)
  obtain k v where x: "x = (k, v)" by (cases x)
  have k: "kget s k = Some v" "k \<notin> fst ` set xs" using Cons.prems x by auto
  have "kget (migrate_entry D C s x) i = Some u" if "(i, u) \<in> set xs" for i u
  proof -
    have "i \<noteq> k" using that k(2) by force
    then show ?thesis using that Cons.prems(2) x by (simp add: migrate_entry_other)
  qed
  with Cons.IH [of "migrate_entry D C s x"] Cons.prems(1)
  have ih: "kget (foldl (migrate_entry D C) (migrate_entry D C s x) xs) j =
      (case map_of xs j of None \<Rightarrow> kget (migrate_entry D C s x) j | Some v \<Rightarrow> Some (migrated_value D C v))" by simp
  show ?case
  proof (cases "j = k")
    case True
    then have "map_of xs j = None" using k(2) by (simp add: map_of_eq_None_iff)
    then show ?thesis using ih True k(1) x by (simp add: migrate_entry_same)
  next
    case False
    then show ?thesis using ih x by (simp add: migrate_entry_other split: option.split)
  qed
qed simp

lemma MigrateStore_get:
  "kget (MigrateStore D C s) k = (if under_prefix k then map_option (migrated_value D C) (kget s k) else kget s k)"
proof -
  let ?xs = "filter (\<lambda>(k, _). under_prefix k) (entries s)"
  have d: "distinct (map fst ?xs)"
    using entries_distinct [of s] by (simp add: distinct_map_filter)
  have "map_of ?xs k = (if under_prefix k then kget s k else None)"
  proof (cases "under_prefix k \<and> kget s k \<noteq> None")
    case True
    then obtain v where "(k, v) \<in> set ?xs" "kget s k = Some v" by (auto simp: entries_mem_iff)
    with True show ?thesis using map_of_is_SomeI [OF d] by simp
  next
    case False
    then have "k \<notin> fst ` set ?xs" by (force simp: entries_mem_iff)
    with False show ?thesis by (auto simp: map_of_eq_None_iff)
  qed
  then show ?thesis unfolding MigrateStore_def
    by (subst migrate_entries_get [OF d]) (auto simp: entries_mem_iff split: option.splits)
qed

text \<open>C31 migration_exact: when the codec decodes what it encodes, the migration keeps the keys of the
  store and every entry outside the prefix of the deposits, leaves entries of the current
  format alone, and turns an entry of the old format that can be encoded into one of the
  current format with the same account, amounts, times and count, whose share is the old
  share cast to a signed 64-bit integer; running it again changes nothing.\<close>

theorem migration_exact:
  assumes "\<And>d b. tc_encode C d = Some b \<Longrightarrow> tc_decode C b = Some d"
  shows "(\<forall>k. kget (MigrateStore D C s) k = None \<longleftrightarrow> kget s k = None) \<and>
    (\<forall>k. \<not> under_prefix k \<longrightarrow> kget (MigrateStore D C s) k = kget s k) \<and>
    (\<forall>k v d. kget s k = Some v \<longrightarrow> tc_decode C v = Some d \<longrightarrow> kget (MigrateStore D C s) k = Some v) \<and>
    (\<forall>k v old b. under_prefix k \<longrightarrow> kget s k = Some v \<longrightarrow> tc_decode C v = None \<longrightarrow> tc_decode_old C v = Some old \<longrightarrow>
       tc_encode C (migrated_deposit D old) = Some b \<longrightarrow>
       (\<exists>w d. kget (MigrateStore D C s) k = Some w \<and> tc_decode C w = Some d \<and> td_corp d = ov_account old \<and>
          td_share d = dec_of_int D (i64 (ov_share old)) \<and> td_deposit d = ov_amount old \<and>
          td_claimable d = ov_claimable old \<and> td_slashed d = ov_slashed old \<and> td_repaid d = ov_repaid old \<and>
          td_last_slashed d = ov_last_slashed old \<and> td_last_repaid d = ov_last_repaid old \<and>
          td_slash_count d = ov_slash_count old)) \<and>
    MigrateStore D C (MigrateStore D C s) = MigrateStore D C s"
proof (intro conjI)
  have again: "migrated_value D C (migrated_value D C v) = migrated_value D C v" for v
    using assms by (auto simp: migrated_value_def split: option.splits)
  show "MigrateStore D C (MigrateStore D C s) = MigrateStore D C s"
    by (rule store_eqI) (auto simp: MigrateStore_get again option.map_comp comp_def)
qed (use assms in \<open>auto simp: MigrateStore_get migrated_value_def migrated_deposit_def\<close>)

section \<open>A sample migration\<close>

definition sample_old :: old_deposit where
  "sample_old = \<lparr>ov_account = ''p'', ov_share = 7, ov_amount = 9, ov_claimable = 2, ov_slashed = 0, ov_repaid = 0,
     ov_last_slashed = None, ov_last_repaid = None, ov_slash_count = 0, ov_last_repaid_by = ''q''\<rparr>"

definition sample_codec :: td_codec where
  "sample_codec = \<lparr>tc_decode = (\<lambda>b. if b = ''new'' then Some (migrated_deposit fix18 sample_old) else None),
     tc_encode = (\<lambda>d. if d = migrated_deposit fix18 sample_old then Some ''new'' else None),
     tc_decode_old = (\<lambda>b. if b = ''old'' then Some sample_old else None)\<rparr>"

definition sample_raw :: raw_store where
  "sample_raw = kset (kset (kset kempty [CHR 0x02] ''dust'') [CHR 0x01, CHR ''p''] ''old'') [CHR 0x01, CHR ''q''] ''new''"

theorem migration_exact_witness:
  "kget (MigrateStore fix18 sample_codec sample_raw) [CHR 0x02] = Some ''dust'' \<and>
   MigrateStore fix18 sample_codec (MigrateStore fix18 sample_codec sample_raw) = MigrateStore fix18 sample_codec sample_raw \<and>
   (\<exists>w d. kget (MigrateStore fix18 sample_codec sample_raw) [CHR 0x01, CHR ''p''] = Some w \<and>
      tc_decode sample_codec w = Some d \<and> td_corp d = ''p'' \<and> td_deposit d = 9)"
proof -
  have law: "tc_encode sample_codec d = Some b \<Longrightarrow> tc_decode sample_codec b = Some d" for d b
    by (simp add: sample_codec_def split: if_splits)
  have prefix: "\<not> under_prefix [CHR 0x02]" "under_prefix [CHR 0x01, CHR ''p'']"
    by (simp_all add: under_prefix_def deposit_prefix_def deposit_end_def less_list_code less_eq_list_code less_char_def)
  have get: "kget sample_raw [CHR 0x02] = Some ''dust''" "kget sample_raw [CHR 0x01, CHR ''p''] = Some ''old''"
    by (simp_all add: sample_raw_def kget_kset)
  have codec: "tc_decode sample_codec ''old'' = None" "tc_decode_old sample_codec ''old'' = Some sample_old"
      "tc_encode sample_codec (migrated_deposit fix18 sample_old) = Some ''new''"
    by (simp_all add: sample_codec_def)
  note M = migration_exact [OF law, of fix18 sample_raw]
  have "kget (MigrateStore fix18 sample_codec sample_raw) [CHR 0x02] = Some ''dust''" using M prefix(1) get(1) by simp
  moreover have "\<exists>w d. kget (MigrateStore fix18 sample_codec sample_raw) [CHR 0x01, CHR ''p''] = Some w \<and>
      tc_decode sample_codec w = Some d \<and> td_corp d = ov_account sample_old \<and> td_deposit d = ov_amount sample_old"
    using M prefix(2) get(2) codec by blast
  ultimately show ?thesis using M by (simp add: sample_old_def)
qed

end
