(* ===== verification/Spec2Isabelle.thy ===== *)
theory Spec2Isabelle
imports Delegation_Props Trust_Deposit_Props Registry_Genesis Digest Exchange_Rate_Props Credential_Schema_Props
  Participant_Life Participant_Safety Participant_Terms Participant_Sessions
  Trust_Deposit_Migration
begin

text \<open>
  Verana: the module keepers under src/x of a Cosmos SDK chain that registers corporations,
  ecosystems, governance frameworks, credential schemas and the participants who issue and
  verify credentials under them.

  The parts and how they interact.  Every message is signed by an operator on behalf of the
  group-policy account of a corporation.  x/co resolves the account to a corporation id;
  x/de decides whether the operator may send this message type for the corporation and keeps
  the records of service operators; x/ec and x/gf hold ecosystems and the versioned
  governance frameworks of both kinds of subjects; x/cs holds the schemas of an ecosystem;
  x/pp holds the participants of a schema as trees under the roots of the ecosystem, runs
  their onboarding, and pays sessions; it calls x/td for trust deposits, the bank for fees,
  x/de for service operators and x/di for digests.  x/xr prices assets; no other module calls it.

  Theories and the code they model.
  Prelude, Kv_Store, External, Coins: the result type of handlers, Go's fixed-width integers,
    the ordered stores of cosmossdk.io/collections, and what is called outside the repository.
  Validation: util/validation and the language tags of x/co, x/gf and x/ec.
  Corporation, Corporation_Msgs: x/co/keeper, x/co/types.
  Delegation, Delegation_Inv, Delegation_Genesis, Delegation_Props, Delegation_Chain:
    x/de/keeper (checks AUTHZ-CHECK-1 to 4, grants, fee allowances, genesis) and x/de/types.
  Governance, Governance_Inv: x/gf.  Ecosystem, Ecosystem_Msgs: x/ec.
  Registry, Registry_Inv, Registry_Refine, Registry_Sample, Registry_Props, Framework_Props,
    Ecosystem_Props, Registry_Genesis: x/co, x/ec and x/gf as one state machine.
  Trust_Deposit, Trust_Deposit_Inv, Trust_Deposit_Props: x/td.  Trust_Deposit_Migration: the
    store migration of x/td/migrations/v2.  Digest: x/di.
  Exchange_Rate, Exchange_Rate_Props: x/xr.
  Json_Edit, Credential_Schema, Credential_Schema_Props: x/cs, with the character-level edits
    of the schema document.
  Participant, Participant_Checks, Participant_Msgs, Participant_Lifecycle,
    Participant_Session, Participant_Query: x/pp/types and x/pp/keeper in the order of
    keeper/start_participant_op.go, participant_validated.go, msg_server.go, csps.go, query.go.
  Participant_Inv, Participant_Effects, Participant_Reach: the life of a participant as a step
    relation, the effect of every message on the store, and the states that registry, schema
    and participant messages reach together.  Participant_Sample: one concrete run.
  Participant_Walks, Participant_Life, Participant_Safety, Participant_Authority,
    Participant_Escrow, Participant_Terms: the properties of x/pp.
  Service_Records, Participant_Services: x/pp and x/de as one chain, for the service operators.
  Participant_Sessions: what an accepted session of x/pp implies and leaves.

  How state and operations correspond to the code.  A keeper's collections are the fields of
  one record per module (co_state, de_state, gf_state, ec_state, td_state, di_state,
  xr_state, cs_state, pp_state); a collections.Map is a store with the operations of the
  locale ordered_kv, iterated in key order; a stored message of proto/ is a record with its
  fields.  A handler takes the state it may write and returns it changed, or an error of the
  module's own datatype; the checks follow the order of the source, and a failed handler
  leaves no state behind, as a failed transaction does.  The identifiers uint64 assigned by
  counters are natural numbers, since no chain counts to two to the 64th; amounts and all
  arithmetic on them are integers with the wrap of uint64 and int64 written out (u64, i64).
  Times are integers, read in UTC; the zero time is a constant of its own.

  Parameters.  x/group, the bank, math.LegacyDec and math.Int, sdk.Coins, bech32 addresses,
  sdk.ValidateDenom, url.Parse, uuid.Parse and encoding/json are arguments.  Where a property
  depends on what they do, it says so with a named law (bank_laws, dec_laws, int_laws,
  coins_laws, escrow_apart) or a premise, and a concrete instance satisfies each.  Of the
  addresses it is only assumed that the policy account of no registered corporation is the
  account of x/pp, which x/group derives from another name.  Parameters of a module are
  initialised, as InitGenesis does.

  What the lemmas show.  Per module: an invariant kept by every operation, inversion lemmas
  that say what an accepted message implies, and from these the properties C1 to C40, each
  after its text block and followed by its witness.  The locales are the interfaces:
  ordered_kv and unique_index (stores and secondary indexes), corp_resolver (the account
  resolver x/de relies on), bank_laws, dec_laws, int_laws and coins_laws.

  Bounds and fuel.  The loops that climb from a participant to its validators have no bound in
  the code.  The model gives them chain_fuel, one more than the number of participants, and
  a value of its own for running out.  Participant_Walks shows that no reachable state runs
  out and that four rounds are enough.

  Not modelled.  Events and logs; the application wiring in app and cmd, AppModule, AutoCLI,
  depinject and simulation code, and the code generated from proto, which have no state of
  their own; the decoders of stored bytes, so that an entry always decodes (the migration takes
  them as a parameter); gas; and MsgUpdateParams of the modules whose parameters are empty.
\<close>

end
